(* ===== verification/Prelude.thy ===== *)
theory Prelude
  imports Main "HOL-Library.Word" "HOL-Library.Monad_Syntax" "HOL-Library.Multiset"
begin

text \<open>
  Shared vocabulary of the development: names for the machine integers of the driver, the
  parts of the kernel environment the components are parametric in, byte access to packet
  memory with the out-of-bounds read as an explicit failure, and the generic lemmas on lists
  and words that the components share.
\<close>

unbundle bit_operations_syntax

section \<open>Machine integers\<close>

type_synonym u8 = "8 word"
type_synonym u16 = "16 word"
type_synonym u32 = "32 word"
type_synonym u64 = "64 word"

section \<open>The kernel environment\<close>

text \<open>
  Time is read and compared through kernel primitives that are not part of the repository.
  A component takes them as a parameter: the current tick count, the conversion from
  milliseconds and the tick comparison. Nothing is assumed of them unless a theorem says so.
\<close>

record 'j kenv =
  jiffies :: 'j
  time_after :: "'j \<Rightarrow> 'j \<Rightarrow> bool"
  time_add :: "'j \<Rightarrow> 'j \<Rightarrow> 'j"
  msecs_to_jiffies :: "nat \<Rightarrow> 'j"

section \<open>Packet memory\<close>

text \<open>
  A packet buffer is the list of its bytes. A read outside of it is \<open>None\<close>: the C code
  would read memory that does not belong to the packet.
\<close>

type_synonym bytes = "u8 list"

definition rd8 :: "bytes \<Rightarrow> nat \<Rightarrow> u8 option" where
  "rd8 b i = (if i < length b then Some (b ! i) else None)"

definition le16 :: "u8 \<Rightarrow> u8 \<Rightarrow> u16" where
  "le16 b0 b1 = ucast b0 OR push_bit 8 (ucast b1)"

definition be16 :: "u8 \<Rightarrow> u8 \<Rightarrow> u16" where
  "be16 b0 b1 = le16 b1 b0"

definition le32 :: "u8 \<Rightarrow> u8 \<Rightarrow> u8 \<Rightarrow> u8 \<Rightarrow> u32" where
  "le32 b0 b1 b2 b3 = ucast b0 OR push_bit 8 (ucast b1) OR push_bit 16 (ucast b2)
     OR push_bit 24 (ucast b3)"

definition be32 :: "u8 \<Rightarrow> u8 \<Rightarrow> u8 \<Rightarrow> u8 \<Rightarrow> u32" where
  "be32 b0 b1 b2 b3 = le32 b3 b2 b1 b0"

definition rd_le16 :: "bytes \<Rightarrow> nat \<Rightarrow> u16 option" where
  "rd_le16 b i = do { x \<leftarrow> rd8 b i; y \<leftarrow> rd8 b (i + 1); Some (le16 x y) }"

definition rd_be16 :: "bytes \<Rightarrow> nat \<Rightarrow> u16 option" where
  "rd_be16 b i = do { x \<leftarrow> rd8 b i; y \<leftarrow> rd8 b (i + 1); Some (be16 x y) }"

definition rd_le32 :: "bytes \<Rightarrow> nat \<Rightarrow> u32 option" where
  "rd_le32 b i = do { x \<leftarrow> rd8 b i; y \<leftarrow> rd8 b (i + 1); z \<leftarrow> rd8 b (i + 2);
     w \<leftarrow> rd8 b (i + 3); Some (le32 x y z w) }"

definition rd_be32 :: "bytes \<Rightarrow> nat \<Rightarrow> u32 option" where
  "rd_be32 b i = do { x \<leftarrow> rd8 b i; y \<leftarrow> rd8 b (i + 1); z \<leftarrow> rd8 b (i + 2);
     w \<leftarrow> rd8 b (i + 3); Some (be32 x y z w) }"

section \<open>First index\<close>

text \<open>
  The loops that scan a table from the front and return the first index that satisfies a
  test, or -1.
\<close>

fun first_idx_from :: "('a \<Rightarrow> bool) \<Rightarrow> 'a list \<Rightarrow> int \<Rightarrow> int" where
  "first_idx_from P [] i = -1"
| "first_idx_from P (x # xs) i = (if P x then i else first_idx_from P xs (i + 1))"

definition first_idx :: "('a \<Rightarrow> bool) \<Rightarrow> 'a list \<Rightarrow> int" where
  "first_idx P xs = first_idx_from P xs 0"

section \<open>Lemmas on packet memory\<close>

lemma rd8_eq_Some_iff: "rd8 b i = Some x \<longleftrightarrow> i < length b \<and> b ! i = x"
  by (simp add: rd8_def)

lemma rd8_Some [simp]: "i < length b \<Longrightarrow> rd8 b i = Some (b ! i)"
  by (simp add: rd8_def)

lemma rd8_None [simp]: "length b \<le> i \<Longrightarrow> rd8 b i = None"
  by (simp add: rd8_def)

lemma rd8_append_right: "rd8 (xs @ ys) (length xs + i) = rd8 ys i"
  by (simp add: rd8_def)

text \<open>The value of a 16-bit field.\<close>

lemma unat_le16: "unat (le16 b0 b1) = unat b0 + 256 * unat b1"
proof -
  have disj: "(ucast b0 :: u16) AND push_bit 8 (ucast b1) = 0"
    by (rule bit_word_eqI) (auto simp: bit_simps dest: bit_imp_le_length)
  have eq: "le16 b0 b1 = ucast b0 + push_bit 8 (ucast b1)"
    unfolding le16_def by (rule disjunctive_add_eq_or[OF disj, symmetric])
  have b: "unat b0 < 256" "unat b1 < 256" using unsigned_less[of b0, where ?'a = nat] unsigned_less[of b1, where ?'a = nat] by simp_all
  then have c: "unat (ucast b0 :: u16) = unat b0" "unat (ucast b1 :: u16) = unat b1"
    by (simp_all add: unsigned_ucast_eq take_bit_eq_mod)
  have "unat (push_bit 8 (ucast b1 :: u16)) = 256 * unat b1"
    using b c by (simp add: push_bit_eq_mult unat_word_ariths)
  then show ?thesis
    unfolding eq using b c by (simp add: unat_word_ariths)
qed

lemma unat_be16: "unat (be16 b0 b1) = 256 * unat b0 + unat b1"
  by (simp add: be16_def unat_le16)

section \<open>Lemmas on lists and counting\<close>

lemma card_filter_upt_update:
  fixes P :: "'a \<Rightarrow> bool"
  assumes "i < length xs"
  shows "length (filter P (xs[i := x])) + (if P (xs ! i) then 1 else 0)
       = length (filter P xs) + (if P x then 1 else 0)"
  using assms
proof (induction xs arbitrary: i)
  case (Cons a xs)
  then show ?case by (cases i) (auto split: if_splits)
qed simp

lemma sum_list_map_update:
  fixes f :: "'a \<Rightarrow> 'b :: cancel_comm_monoid_add"
  assumes "i < length xs"
  shows "sum_list (map f (xs[i := x])) + f (xs ! i) = sum_list (map f xs) + f x"
  using assms
proof (induction xs arbitrary: i)
  case (Cons a xs)
  then show ?case
  proof (cases i)
    case (Suc j)
    with Cons have "sum_list (map f (xs[j := x])) + f (xs ! j) = sum_list (map f xs) + f x" by simp
    with Suc show ?thesis by (simp add: add.assoc)
  qed (simp add: ac_simps)
qed simp

lemma distinct_if_count_le: "(\<And>a. count (mset xs) a \<le> 1) \<Longrightarrow> distinct xs"
proof (induction xs)
  case (Cons x xs)
  have "count (mset xs) a \<le> 1" for a
  proof -
    have "count (mset xs) a \<le> count (mset (x # xs)) a" by simp
    with Cons.prems[of a] show ?thesis by linarith
  qed
  moreover have "x \<notin> set xs" using Cons.prems[of x] by (simp add: count_mset_0_iff)
  ultimately show ?case using Cons.IH by simp
qed simp

lemma option_eqI: "(\<And>a. x = Some a \<longleftrightarrow> y = Some a) \<Longrightarrow> x = y"
  by (cases x; cases y) auto

lemma set_update_subsetD: "y \<in> set (xs[i := x]) \<Longrightarrow> y = x \<or> y \<in> set xs"
  using set_update_subset_insert by fastforce

lemma first_idx_from_spec:
  assumes "0 \<le> i"
  shows "(first_idx_from P xs i = -1 \<and> (\<forall>x\<in>set xs. \<not> P x)) \<or>
    (i \<le> first_idx_from P xs i \<and> nat (first_idx_from P xs i - i) < length xs \<and>
     P (xs ! nat (first_idx_from P xs i - i)) \<and>
     (\<forall>j < nat (first_idx_from P xs i - i). \<not> P (xs ! j)))"
  using assms
proof (induction xs arbitrary: i)
  case (Cons x xs)
  show ?case
  proof (cases "P x")
    case False
    let ?r = "first_idx_from P xs (i + 1)"
    from Cons.IH[of "i + 1"] Cons.prems consider
      "?r = -1" "\<forall>x\<in>set xs. \<not> P x" |
      "i + 1 \<le> ?r" "nat (?r - (i + 1)) < length xs" "P (xs ! nat (?r - (i + 1)))"
      "\<forall>j < nat (?r - (i + 1)). \<not> P (xs ! j)" by auto
    then show ?thesis
    proof cases
      case 2
      have "nat (?r - i) = Suc (nat (?r - (i + 1)))" using 2(1) by simp
      then have "\<forall>j < nat (?r - i). \<not> P ((x # xs) ! j)"
        using 2(4) False by (auto simp: less_Suc_eq_0_disj)
      with 2 False \<open>nat (?r - i) = _\<close> show ?thesis by simp
    qed (use False in simp)
  qed (use Cons.prems in simp)
qed simp

lemma first_idx_cases:
  obtains (none) "first_idx P xs = -1" "\<forall>x\<in>set xs. \<not> P x"
  | (some) k where "first_idx P xs = int k" "k < length xs" "P (xs ! k)"
      "\<forall>j < k. \<not> P (xs ! j)"
proof -
  consider "first_idx P xs = -1" "\<forall>x\<in>set xs. \<not> P x"
    | "0 \<le> first_idx P xs" "nat (first_idx P xs) < length xs" "P (xs ! nat (first_idx P xs))"
      "\<forall>j < nat (first_idx P xs). \<not> P (xs ! j)"
    using first_idx_from_spec[of 0 P xs] by (auto simp: first_idx_def)
  then show thesis
  proof cases
    case 2
    then show thesis using some[of "nat (first_idx P xs)"] by simp
  qed (rule none)
qed

lemma first_idx_neg_iff: "first_idx P xs < 0 \<longleftrightarrow> (\<forall>x\<in>set xs. \<not> P x)"
proof (cases rule: first_idx_cases[of P xs])
  case (some k)
  then have "xs ! k \<in> set xs" by simp
  with some show ?thesis by auto
qed auto

section \<open>Signed reading of 32-bit words\<close>

lemma sint_uint_if:
  fixes x :: "32 word"
  shows "sint x = (if uint x < 2 ^ 31 then uint x else uint x - 2 ^ 32)"
proof -
  have s: "sint x = (uint x + 2 ^ 31) mod 2 ^ 32 - 2 ^ 31"
    by (simp add: sint_uint signed_take_bit_eq_take_bit_shift take_bit_eq_mod)
  have b: "0 \<le> uint x" "uint x < 2 ^ 32" using uint_lt2p[of x] by simp_all
  show ?thesis
  proof (cases "uint x < 2 ^ 31")
    case True
    then have "(uint x + 2 ^ 31) mod 2 ^ 32 = uint x + 2 ^ 31"
      using b by (intro mod_pos_pos_trivial) simp_all
    with True s show ?thesis by simp
  next
    case False
    then have "(uint x + 2 ^ 31 - 2 ^ 32) mod 2 ^ 32 = uint x + 2 ^ 31 - 2 ^ 32"
      using b by (intro mod_pos_pos_trivial) simp_all
    then have "(uint x + 2 ^ 31) mod 2 ^ 32 = uint x + 2 ^ 31 - 2 ^ 32"
      by (simp only: minus_mod_self2)
    with False s show ?thesis by simp
  qed
qed

lemma uint_neg_if:
  fixes x :: "32 word"
  shows "uint (- x) = (if x = 0 then 0 else 2 ^ 32 - uint x)"
proof -
  have m: "uint (- x) = (- uint x) mod 2 ^ 32" by (simp add: uint_word_ariths take_bit_eq_mod)
  have b: "0 \<le> uint x" "uint x < 2 ^ 32" using uint_lt2p[of x] by simp_all
  show ?thesis
  proof (cases "x = 0")
    case False
    then have "uint x \<noteq> 0" by (simp add: uint_0_iff)
    with b have "uint x mod 2 ^ 32 = uint x" "uint x \<noteq> 0" by simp_all
    then show ?thesis using m False by (simp add: zmod_zminus1_eq_if)
  qed simp
qed

end
