(* ===== verification/TcpAckParse.thy ===== *)
theory TcpAckParse
  imports Prelude
begin

text \<open>
  The packet side of the TCP acknowledgement filter (\<^verbatim>\<open>aicwf_tcp_ack.c\<close>): what
  \<^verbatim>\<open>tcp_check_quick_ack\<close>, \<^verbatim>\<open>is_drop_tcp_ack\<close> and \<^verbatim>\<open>tcp_check_ack\<close> read from the bytes of
  a frame. A frame is its list of bytes; a function whose C original reads outside of the
  frame returns \<open>None\<close>. The fields the code copies without byte swapping are read in the
  byte order of the target, which is little endian.
\<close>

section \<open>Constants and the message record\<close>

definition ETH_P_IP :: u16 where "ETH_P_IP = 0x0800"
definition IPPROTO_TCP :: u8 where "IPPROTO_TCP = 6"
definition TCPOPT_EOL :: u8 where "TCPOPT_EOL = 0"
definition TCPOPT_NOP :: u8 where "TCPOPT_NOP = 1"
definition TCPOPT_WINDOW :: u8 where "TCPOPT_WINDOW = 3"
definition TCPOPT_TIMESTAMP :: u8 where "TCPOPT_TIMESTAMP = 8"

text \<open>Sizes of \<^verbatim>\<open>struct ethhdr\<close> and \<^verbatim>\<open>struct tcphdr\<close>.\<close>

definition ETH_HDR_LEN :: nat where "ETH_HDR_LEN = 14"
definition TCP_HDR_LEN :: nat where "TCP_HDR_LEN = 20"

lemmas tcp_consts = ETH_P_IP_def IPPROTO_TCP_def TCPOPT_EOL_def TCPOPT_NOP_def
  TCPOPT_WINDOW_def TCPOPT_TIMESTAMP_def ETH_HDR_LEN_def TCP_HDR_LEN_def

record tcp_ack_msg =
  am_source :: u16
  am_dest :: u16
  am_saddr :: u32
  am_daddr :: u32
  am_seq :: u32
  am_win :: u16

section \<open>Sequence number comparison\<close>

definition U32_BEFORE :: "u32 \<Rightarrow> u32 \<Rightarrow> bool" where
  "U32_BEFORE a b \<longleftrightarrow> sint (a - b) \<le> 0"

section \<open>Frames received: the peer asks for a quick acknowledgement\<close>

text \<open>
  The result is the return value of the C function with the message it leaves behind; the
  message is only written on the path that returns 1, and its window is never written.
\<close>

definition tcp_check_quick_ack :: "bytes \<Rightarrow> tcp_ack_msg \<Rightarrow> (int \<times> tcp_ack_msg) option" where
  "tcp_check_quick_ack buf msg = do {
     proto \<leftarrow> rd_be16 buf 12;
     if proto \<noteq> ETH_P_IP then Some (0, msg) else do {
     let iphdr = ETH_HDR_LEN;
     vihl \<leftarrow> rd8 buf iphdr;
     if drop_bit 4 vihl \<noteq> 4 then Some (0, msg) else do {
     protocol \<leftarrow> rd8 buf (iphdr + 9);
     if protocol \<noteq> IPPROTO_TCP then Some (0, msg) else do {
     let ip_hdr_len = unat (vihl AND 15) * 4;
     let temp = iphdr + ip_hdr_len;
     flags \<leftarrow> rd8 buf (temp + 13);
     if flags AND 0x10 = 0 then Some (0, msg) else
     if flags AND 0x8 \<noteq> 0 then do {
       daddr \<leftarrow> rd_le32 buf (iphdr + 16);
       saddr \<leftarrow> rd_le32 buf (iphdr + 12);
       dest \<leftarrow> rd_le16 buf (temp + 2);
       source \<leftarrow> rd_le16 buf temp;
       seq \<leftarrow> rd_be32 buf (temp + 4);
       Some (1, msg\<lparr>am_saddr := daddr, am_daddr := saddr, am_source := dest,
                    am_dest := source, am_seq := seq\<rparr>)
     } else Some (0, msg) } } } }"

section \<open>The option walk\<close>

text \<open>
  The loop of \<^verbatim>\<open>is_drop_tcp_ack\<close>. The pointer moves forward on every iteration, whatever
  the option is, so the walk either stops because \<open>len\<close> is used up or runs off the buffer.
  The end-of-options byte and an option whose size is wrong only leave the \<^verbatim>\<open>switch\<close>: the
  loop goes on with \<open>len\<close> unchanged.
\<close>

function drop_walk :: "bytes \<Rightarrow> nat \<Rightarrow> int \<Rightarrow> int \<Rightarrow> u16 \<Rightarrow> (int \<times> u16) option" where
  "drop_walk buf ptr len drp win_scale =
     (if \<not> (len > 0 \<and> drp \<noteq> 0) then Some (drp, win_scale)
      else case rd8 buf ptr of None \<Rightarrow> None
      | Some opcode \<Rightarrow>
         if opcode = TCPOPT_EOL then drop_walk buf (ptr + 1) len drp win_scale
         else if opcode = TCPOPT_NOP then drop_walk buf (ptr + 1) (len - 1) drp win_scale
         else case rd8 buf (ptr + 1) of None \<Rightarrow> None
         | Some opsize \<Rightarrow>
            if opsize < 2 then drop_walk buf (ptr + 2) len drp win_scale
            else if int (unat opsize) > len then drop_walk buf (ptr + 2) len drp win_scale
            else if opcode = TCPOPT_TIMESTAMP then
              drop_walk buf (ptr + 2 + (unat opsize - 2)) (len - int (unat opsize)) drp win_scale
            else if opcode = TCPOPT_WINDOW then
              (case rd8 buf (ptr + 2) of None \<Rightarrow> None
               | Some v \<Rightarrow>
                  drop_walk buf (ptr + 2 + (unat opsize - 2)) (len - int (unat opsize)) drp
                    (if v < 15 then push_bit (unat v) 1 else win_scale))
            else
              drop_walk buf (ptr + 2 + (unat opsize - 2)) (len - int (unat opsize)) 2 win_scale)"
  by pat_completeness auto
termination
  by (relation "measure (\<lambda>(buf, ptr, len, drp, ws). length buf - ptr)")
     (auto simp: rd8_eq_Some_iff)

declare drop_walk.simps [simp del]

definition is_drop_tcp_ack :: "bytes \<Rightarrow> nat \<Rightarrow> int \<Rightarrow> u16 \<Rightarrow> (int \<times> u16) option" where
  "is_drop_tcp_ack buf tcphdr tcp_tot_len win_scale = do {
     doff \<leftarrow> rd8 buf (tcphdr + 12);
     let len = int (unat (drop_bit 4 doff)) * 4;
     if tcp_tot_len > len then Some (0, win_scale)
     else drop_walk buf (tcphdr + TCP_HDR_LEN) (len - int TCP_HDR_LEN) 1 win_scale }"

section \<open>Frames sent: is it an acknowledgement, and can it be dropped\<close>

text \<open>Return value, message and window scale left behind.\<close>

definition tcp_check_ack :: "bytes \<Rightarrow> tcp_ack_msg \<Rightarrow> u16 \<Rightarrow> (int \<times> tcp_ack_msg \<times> u16) option" where
  "tcp_check_ack buf msg win_scale = do {
     proto \<leftarrow> rd_be16 buf 12;
     if proto \<noteq> ETH_P_IP then Some (0, msg, win_scale) else do {
     let iphdr = ETH_HDR_LEN;
     vihl \<leftarrow> rd8 buf iphdr;
     if drop_bit 4 vihl \<noteq> 4 then Some (0, msg, win_scale) else do {
     protocol \<leftarrow> rd8 buf (iphdr + 9);
     if protocol \<noteq> IPPROTO_TCP then Some (0, msg, win_scale) else do {
     let ip_hdr_len = unat (vihl AND 15) * 4;
     let temp = iphdr + ip_hdr_len;
     flags \<leftarrow> rd8 buf (temp + 13);
     if flags AND 0x10 = 0 then Some (0, msg, win_scale) else do {
     tot_len \<leftarrow> rd_be16 buf (iphdr + 2);
     let tcp_tot_len = int (unat tot_len) - int ip_hdr_len;
     (ret, win_scale') \<leftarrow> is_drop_tcp_ack buf temp tcp_tot_len win_scale;
     if ret > 0 then do {
       saddr \<leftarrow> rd_le32 buf (iphdr + 12);
       daddr \<leftarrow> rd_le32 buf (iphdr + 16);
       source \<leftarrow> rd_le16 buf temp;
       dest \<leftarrow> rd_le16 buf (temp + 2);
       ack_seq \<leftarrow> rd_be32 buf (temp + 8);
       window \<leftarrow> rd_be16 buf (temp + 14);
       Some (ret, msg\<lparr>am_saddr := saddr, am_daddr := daddr, am_source := source,
                      am_dest := dest, am_seq := ack_seq, am_win := window\<rparr>, win_scale')
     } else Some (ret, msg, win_scale') } } } } }"


section \<open>A specification of the option area\<close>

text \<open>
  The options a sender writes: padding no-operations and kind/length/value options. The
  encoding is the one of the TCP header, and \<open>opts_class\<close> is what the filter wants to know:
  1 when only options it ignores are present, 2 as soon as there is any other one.
\<close>

datatype tcp_opt = OptNop | Opt u8 bytes

fun encode_opt :: "tcp_opt \<Rightarrow> bytes" where
  "encode_opt OptNop = [TCPOPT_NOP]"
| "encode_opt (Opt k body) = k # of_nat (2 + length body) # body"

fun opt_ok :: "tcp_opt \<Rightarrow> bool" where
  "opt_ok OptNop = True"
| "opt_ok (Opt k body) =
     (k \<noteq> TCPOPT_EOL \<and> k \<noteq> TCPOPT_NOP \<and> length body < 254 \<and> (k = TCPOPT_WINDOW \<longrightarrow> body \<noteq> []))"

fun opt_other :: "tcp_opt \<Rightarrow> bool" where
  "opt_other OptNop = False"
| "opt_other (Opt k body) = (k \<noteq> TCPOPT_TIMESTAMP \<and> k \<noteq> TCPOPT_WINDOW)"

fun opt_scale :: "tcp_opt \<Rightarrow> u16 \<Rightarrow> u16" where
  "opt_scale (Opt k (v # body)) ws =
     (if k = TCPOPT_WINDOW \<and> v < 15 then push_bit (unat v) 1 else ws)"
| "opt_scale _ ws = ws"

definition encode_opts :: "tcp_opt list \<Rightarrow> bytes" where
  "encode_opts opts = concat (map encode_opt opts)"

definition opts_class :: "tcp_opt list \<Rightarrow> int \<Rightarrow> int" where
  "opts_class opts drp = (if list_ex opt_other opts then 2 else drp)"

definition opts_scale :: "tcp_opt list \<Rightarrow> u16 \<Rightarrow> u16" where
  "opts_scale opts ws = fold opt_scale opts ws"

section \<open>Lemmas on the option walk\<close>

lemma drop_walk_stop [simp]: "len \<le> 0 \<Longrightarrow> drop_walk buf ptr len drp ws = Some (drp, ws)"
  by (subst drop_walk.simps) simp

lemma drop_walk_class:
  assumes "drop_walk buf ptr len drp ws = Some (drp', ws')"
  shows "drp' = drp \<or> drp' = 2"
  using assms
proof (induction buf ptr len drp ws rule: drop_walk.induct)
  case (1 buf ptr len drp ws)
  show ?case
    using "1.prems" "1.IH"
    by (subst (asm) drop_walk.simps) (auto split: if_splits option.splits)
qed

lemma is_drop_class:
  assumes "is_drop_tcp_ack buf t n ws = Some (r, ws')"
  shows "(r = 0 \<and> ws' = ws) \<or> r = 1 \<or> r = 2"
  using assms unfolding is_drop_tcp_ack_def
  by (auto simp: Let_def bind_eq_Some_conv split: if_splits dest: drop_walk_class)

lemma drop_walk_nop:
  "0 < len \<Longrightarrow> drp \<noteq> 0 \<Longrightarrow> ptr < length buf \<Longrightarrow> buf ! ptr = TCPOPT_NOP \<Longrightarrow>
   drop_walk buf ptr len drp ws = drop_walk buf (ptr + 1) (len - 1) drp ws"
  by (subst drop_walk.simps) (simp add: tcp_consts)

lemma drop_walk_eol:
  "0 < len \<Longrightarrow> drp \<noteq> 0 \<Longrightarrow> ptr < length buf \<Longrightarrow> buf ! ptr = TCPOPT_EOL \<Longrightarrow>
   drop_walk buf ptr len drp ws = drop_walk buf (ptr + 1) len drp ws"
  by (subst drop_walk.simps) (simp add: tcp_consts)

lemma drop_walk_opt:
  assumes "0 < len" "drp \<noteq> 0" "rd8 buf ptr = Some k" "rd8 buf (ptr + 1) = Some sz"
    and "k \<noteq> TCPOPT_EOL" "k \<noteq> TCPOPT_NOP" "2 \<le> unat sz" "int (unat sz) \<le> len"
    and "k = TCPOPT_WINDOW \<Longrightarrow> rd8 buf (ptr + 2) = Some v"
  shows "drop_walk buf ptr len drp ws =
     drop_walk buf (ptr + unat sz) (len - int (unat sz))
       (if k \<noteq> TCPOPT_TIMESTAMP \<and> k \<noteq> TCPOPT_WINDOW then 2 else drp)
       (if k = TCPOPT_WINDOW \<and> v < 15 then push_bit (unat v) 1 else ws)"
proof -
  have sz: "\<not> sz < 2" "ptr + 2 + (unat sz - 2) = ptr + unat sz"
    using assms(7) by (simp_all add: word_less_nat_alt)
  have ne: "TCPOPT_WINDOW \<noteq> TCPOPT_TIMESTAMP" by (simp add: tcp_consts)
  have le: "\<not> len < int (unat sz)" using assms(8) by simp
  note step = assms(1-6) sz le option.case if_False not_False_eq_True simp_thms if_True
  show ?thesis
  proof (cases "k = TCPOPT_WINDOW")
    case True
    show ?thesis
      by (subst drop_walk.simps) (use assms(5,6,9) ne in \<open>simp only: step True ne[symmetric]\<close>)
  next
    case False
    show ?thesis
      by (subst drop_walk.simps) (cases "k = TCPOPT_TIMESTAMP"; use assms(5,6) ne in \<open>simp only: step False ne[symmetric]\<close>)
  qed
qed

lemma unat_opt_size:
  assumes "n < 254" shows "unat (of_nat (2 + n) :: u8) = 2 + n"
proof -
  have "unat (of_nat (2 + n) :: u8) = (2 + n) mod 2 ^ 8" by (simp only: unat_of_nat) simp
  with assms show ?thesis by simp
qed

lemma encode_opt_length: "0 < length (encode_opt x)"
  by (cases x) auto

lemma opt_scale_Opt:
  "(k = TCPOPT_WINDOW \<longrightarrow> body \<noteq> []) \<Longrightarrow>
   opt_scale (Opt k body) ws =
     (if k = TCPOPT_WINDOW \<and> hd body < 15 then push_bit (unat (hd body)) 1 else ws)"
  by (cases body) auto

lemma drop_walk_one:
  assumes "opt_ok x" and "int (length (encode_opt x)) \<le> len" and "drp \<noteq> 0"
  shows "drop_walk (pre @ encode_opt x @ post) (length pre) len drp ws =
         drop_walk (pre @ encode_opt x @ post) (length pre + length (encode_opt x))
           (len - int (length (encode_opt x))) (if opt_other x then 2 else drp) (opt_scale x ws)"
proof (cases x)
  case OptNop
  with assms show ?thesis by (simp add: drop_walk_nop nth_append)
next
  case (Opt k body)
  let ?buf = "pre @ encode_opt x @ post"
  have sz: "unat (of_nat (2 + length body) :: u8) = 2 + length body"
    using assms(1) Opt by (intro unat_opt_size) simp
  have l2: "length (encode_opt x) = 2 + length body" using Opt by simp
  have wb: "k = TCPOPT_WINDOW \<longrightarrow> body \<noteq> []" using assms(1) Opt by simp
  have r: "rd8 ?buf (length pre) = Some k"
    "rd8 ?buf (length pre + 1) = Some (of_nat (2 + length body))"
    "k = TCPOPT_WINDOW \<Longrightarrow> rd8 ?buf (length pre + 2) = Some (hd body)"
    using wb by (auto simp: Opt rd8_def nth_append hd_conv_nth)
  have "drop_walk ?buf (length pre) len drp ws =
     drop_walk ?buf (length pre + unat (of_nat (2 + length body) :: u8))
       (len - int (unat (of_nat (2 + length body) :: u8)))
       (if k \<noteq> TCPOPT_TIMESTAMP \<and> k \<noteq> TCPOPT_WINDOW then 2 else drp)
       (if k = TCPOPT_WINDOW \<and> hd body < 15 then push_bit (unat (hd body)) 1 else ws)"
    using assms Opt sz l2 r by (intro drop_walk_opt) auto
  then show ?thesis by (simp only: sz l2 opt_scale_Opt[OF wb] Opt[symmetric]) (simp only: Opt opt_other.simps opt_scale_Opt[OF wb])
qed

lemma drop_walk_encoded:
  assumes "list_all opt_ok opts" and "drp \<noteq> 0" and "0 \<le> n"
  shows "drop_walk (pre @ encode_opts opts @ post) (length pre)
           (int (length (encode_opts opts)) + n) drp ws =
         drop_walk (pre @ encode_opts opts @ post) (length pre + length (encode_opts opts))
           n (opts_class opts drp) (opts_scale opts ws)"
  using assms
proof (induction opts arbitrary: pre drp ws)
  case Nil
  then show ?case by (simp add: encode_opts_def opts_class_def opts_scale_def)
next
  case (Cons x opts)
  let ?drp = "if opt_other x then 2 else drp"
  have "drop_walk (pre @ encode_opt x @ (encode_opts opts @ post)) (length pre)
      (int (length (encode_opt x)) + (int (length (encode_opts opts)) + n)) drp ws =
    drop_walk (pre @ encode_opt x @ (encode_opts opts @ post)) (length pre + length (encode_opt x))
      (int (length (encode_opts opts)) + n) ?drp (opt_scale x ws)"
    using Cons.prems by (subst drop_walk_one) auto
  moreover have "drop_walk ((pre @ encode_opt x) @ encode_opts opts @ post)
      (length (pre @ encode_opt x)) (int (length (encode_opts opts)) + n) ?drp (opt_scale x ws) =
    drop_walk ((pre @ encode_opt x) @ encode_opts opts @ post)
      (length (pre @ encode_opt x) + length (encode_opts opts)) n
      (opts_class opts ?drp) (opts_scale opts (opt_scale x ws))"
    using Cons.IH[of ?drp "pre @ encode_opt x" "opt_scale x ws"] Cons.prems by auto
  ultimately show ?case
    by (simp add: encode_opts_def opts_class_def opts_scale_def add.assoc)
qed

lemma drop_walk_eols:
  "0 < len \<Longrightarrow> drp \<noteq> 0 \<Longrightarrow> drop_walk (pre @ replicate n TCPOPT_EOL) (length pre) len drp ws = None"
proof (induction n arbitrary: pre)
  case 0
  then show ?case by (subst drop_walk.simps) simp
next
  case (Suc n)
  have "drop_walk ((pre @ [TCPOPT_EOL]) @ replicate n TCPOPT_EOL) (length (pre @ [TCPOPT_EOL])) len drp ws
      = None"
    using Suc.prems by (rule Suc.IH)
  with Suc.prems show ?case by (simp add: drop_walk_eol nth_append)
qed

section \<open>Frames\<close>

text \<open>
  \<open>ack_frame buf ihl opt_bytes\<close>: the bytes are an Ethernet frame with an IPv4 header of
  \<open>ihl\<close> words and a TCP segment without payload, with the acknowledgement flag set and
  with exactly the given bytes as its option area.
\<close>

definition ack_frame :: "bytes \<Rightarrow> nat \<Rightarrow> bytes \<Rightarrow> bool" where
  "ack_frame buf ihl opt_bytes \<longleftrightarrow> (let t = 14 + 4 * ihl in
     5 \<le> ihl \<and> length opt_bytes \<le> 40 \<and> length buf = t + 20 + length opt_bytes \<and>
     drop (t + 20) buf = opt_bytes \<and>
     buf ! 12 = 8 \<and> buf ! 13 = 0 \<and> drop_bit 4 (buf ! 14) = 4 \<and> unat (buf ! 14 AND 15) = ihl \<and>
     buf ! 23 = IPPROTO_TCP \<and> buf ! (t + 13) AND 0x10 \<noteq> 0 \<and>
     4 * unat (drop_bit 4 (buf ! (t + 12))) = 20 + length opt_bytes \<and>
     unat (be16 (buf ! 16) (buf ! 17)) = 4 * ihl + 20 + length opt_bytes)"

definition frame_msg :: "bytes \<Rightarrow> nat \<Rightarrow> tcp_ack_msg" where
  "frame_msg buf ihl = (let t = 14 + 4 * ihl in
     \<lparr>am_source = le16 (buf ! t) (buf ! (t + 1)), am_dest = le16 (buf ! (t + 2)) (buf ! (t + 3)),
      am_saddr = le32 (buf ! 26) (buf ! 27) (buf ! 28) (buf ! 29),
      am_daddr = le32 (buf ! 30) (buf ! 31) (buf ! 32) (buf ! 33),
      am_seq = be32 (buf ! (t + 8)) (buf ! (t + 9)) (buf ! (t + 10)) (buf ! (t + 11)),
      am_win = be16 (buf ! (t + 14)) (buf ! (t + 15))\<rparr>)"

lemma be16_eth_ip: "be16 8 0 = ETH_P_IP"
  by (simp add: be16_def le16_def ETH_P_IP_def)

lemma ack_frame_is_drop:
  assumes "ack_frame buf ihl ob"
  shows "is_drop_tcp_ack buf (14 + 4 * ihl) (int (20 + length ob)) ws =
    drop_walk (take (14 + 4 * ihl + 20) buf @ ob) (length (take (14 + 4 * ihl + 20) buf))
      (int (length ob)) 1 ws"
proof -
  have len: "length buf = 14 + 4 * ihl + 20 + length ob"
    and tl: "drop (14 + 4 * ihl + 20) buf = ob"
    and doff: "4 * unat (drop_bit 4 (buf ! (14 + 4 * ihl + 12))) = 20 + length ob"
    using assms by (simp_all add: ack_frame_def Let_def)
  have buf: "take (14 + 4 * ihl + 20) buf @ ob = buf"
    by (subst tl[symmetric]) (rule append_take_drop_id)
  have lt: "length (take (14 + 4 * ihl + 20) buf) = 14 + 4 * ihl + 20"
    using len by simp
  have d: "int (unat (drop_bit 4 (buf ! (14 + 4 * ihl + 12)))) * 4 = int (20 + length ob)"
    using doff by linarith
  show ?thesis
    unfolding is_drop_tcp_ack_def buf lt
    using len d by (simp add: Let_def TCP_HDR_LEN_def)
qed

lemma ack_frame_check:
  assumes "ack_frame buf ihl ob"
  shows "tcp_check_ack buf msg ws =
    Option.bind (is_drop_tcp_ack buf (14 + 4 * ihl) (int (20 + length ob)) ws) (\<lambda>(r, ws').
      if r > 0 then Some (r, frame_msg buf ihl, ws') else Some (r, msg, ws'))"
proof -
  let ?t = "14 + 4 * ihl"
  have len: "length buf = ?t + 20 + length ob" and ihl: "5 \<le> ihl"
    using assms by (simp_all add: ack_frame_def Let_def)
  have hdr: "rd_be16 buf 12 = Some ETH_P_IP" "rd8 buf 14 = Some (buf ! 14)"
    "drop_bit 4 (buf ! 14) = 4" "rd8 buf 23 = Some IPPROTO_TCP"
    using assms len ihl
    by (simp_all add: ack_frame_def Let_def rd_be16_def be16_eth_ip)
  have ip: "14 + unat (buf ! 14 AND 15) * 4 = ?t" "int (unat (buf ! 14 AND 15) * 4) = int (4 * ihl)"
    using assms by (simp_all add: ack_frame_def Let_def)
  have fl: "rd8 buf (?t + 13) = Some (buf ! (?t + 13))" "buf ! (?t + 13) AND 0x10 \<noteq> 0"
    using assms len ihl by (simp_all add: ack_frame_def Let_def)
  have tot: "rd_be16 buf (14 + 2) = Some (be16 (buf ! 16) (buf ! 17))"
    "int (unat (be16 (buf ! 16) (buf ! 17))) - int (4 * ihl) = int (20 + length ob)"
    using assms len ihl by (simp_all add: ack_frame_def Let_def rd_be16_def)
  have rest: "rd_le32 buf (14 + 12) = Some (am_saddr (frame_msg buf ihl))"
    "rd_le32 buf (14 + 16) = Some (am_daddr (frame_msg buf ihl))"
    "rd_le16 buf ?t = Some (am_source (frame_msg buf ihl))"
    "rd_le16 buf (?t + 2) = Some (am_dest (frame_msg buf ihl))"
    "rd_be32 buf (?t + 8) = Some (am_seq (frame_msg buf ihl))"
    "rd_be16 buf (?t + 14) = Some (am_win (frame_msg buf ihl))"
    using len ihl
    by (simp_all add: frame_msg_def Let_def rd_le16_def rd_be16_def rd_le32_def rd_be32_def)
  have all: "msg\<lparr>am_saddr := am_saddr (frame_msg buf ihl), am_daddr := am_daddr (frame_msg buf ihl),
      am_source := am_source (frame_msg buf ihl), am_dest := am_dest (frame_msg buf ihl),
      am_seq := am_seq (frame_msg buf ihl), am_win := am_win (frame_msg buf ihl)\<rparr> =
      frame_msg buf ihl"
    by simp
  have h23: "rd8 buf (14 + 9) = Some IPPROTO_TCP" using hdr(4) by simp
  show ?thesis
    unfolding tcp_check_ack_def Let_def ETH_HDR_LEN_def hdr h23 ip fl tot
    by (simp only: bind.bind_lunit simp_thms if_False if_True hdr h23 ip fl tot rest all)
qed

lemma full_msg:
  "msg\<lparr>am_source := p, am_dest := q, am_saddr := a, am_daddr := b, am_seq := n, am_win := w\<rparr> =
   \<lparr>am_source = p, am_dest = q, am_saddr = a, am_daddr = b, am_seq = n, am_win = w\<rparr>"
  by (cases msg) simp

lemma tcp_check_ack_stack:
  "tcp_check_ack buf msg' ws = map_option (\<lambda>(r, m, ws'). (r, if r > 0 then m else msg', ws'))
     (tcp_check_ack buf msg ws)"
  unfolding tcp_check_ack_def Let_def
  by (simp add: full_msg split: Option.bind_split if_split prod.split)

lemma tcp_check_ack_class:
  assumes "tcp_check_ack buf msg ws = Some (r, m, ws')"
  shows "(r = 0 \<and> ws' = ws) \<or> r = 1 \<or> r = 2"
  using assms unfolding tcp_check_ack_def Let_def
  by (auto simp only: bind_eq_Some_conv option.inject prod.inject case_prod_conv
      split: if_splits prod.splits dest!: is_drop_class)

section \<open>Properties of the packet side\<close>

definition sample_frame :: "bytes \<Rightarrow> bytes" where
  "sample_frame ob = replicate 12 0 @ [8, 0] @
     [0x45, 0, 0, of_nat (40 + length ob), 0, 0, 0, 0, 64, 6, 0, 0, 10, 0, 0, 1, 10, 0, 0, 2] @
     [0, 80, 4, 0, 0, 0, 0, 0, 0, 0, 0, 1, push_bit 4 (of_nat (5 + length ob div 4)), 0x10,
      1, 0, 0, 0, 0, 0] @ ob"

text \<open>
  For every IPv4 TCP segment without payload whose option area is a list of well formed
  options, \<^verbatim>\<open>tcp_check_ack\<close> stays inside the frame, returns 1 when the options are only
  no-operations, timestamps and window scales and 2 when there is any other one, fills in the
  addresses, ports, acknowledgement number and window of the segment, and leaves the last
  window scale below 15 as the shifted factor.
\<close>

theorem check_ack_pure:
  assumes "ack_frame buf ihl (encode_opts opts)" and "list_all opt_ok opts"
  shows "tcp_check_ack buf msg ws =
    Some (opts_class opts 1, frame_msg buf ihl, opts_scale opts ws)"
proof -
  let ?pre = "take (14 + 4 * ihl + 20) buf"
  have "drop_walk (?pre @ encode_opts opts @ []) (length ?pre) (int (length (encode_opts opts)) + 0) 1 ws
      = Some (opts_class opts 1, opts_scale opts ws)"
    by (subst drop_walk_encoded) (use assms(2) in simp_all)
  then have "is_drop_tcp_ack buf (14 + 4 * ihl) (int (20 + length (encode_opts opts))) ws
      = Some (opts_class opts 1, opts_scale opts ws)"
    by (subst ack_frame_is_drop[OF assms(1)]) (simp only: append_Nil2 add_0_right)
  then show ?thesis
    by (simp add: ack_frame_check[OF assms(1)] opts_class_def)
qed

lemma check_ack_pure_witness:
  "\<forall>stk. tcp_check_ack (sample_frame [1, 1, 8, 10, 0, 0, 0, 0, 0, 0, 0, 0]) stk 0 =
   Some (1, frame_msg (sample_frame [1, 1, 8, 10, 0, 0, 0, 0, 0, 0, 0, 0]) 5, 0)"
proof
  fix stk
  let ?opts = "[OptNop, OptNop, Opt 8 [0, 0, 0, 0, 0, 0, 0, 0]]"
  have enc: "encode_opts ?opts = [1, 1, 8, 10, 0, 0, 0, 0, 0, 0, 0, 0]"
    by (simp add: encode_opts_def tcp_consts)
  have "ack_frame (sample_frame (encode_opts ?opts)) 5 (encode_opts ?opts)"
    unfolding enc by code_simp
  moreover have "list_all opt_ok ?opts" by (simp add: tcp_consts)
  ultimately have "tcp_check_ack (sample_frame (encode_opts ?opts)) stk 0 =
      Some (opts_class ?opts 1, frame_msg (sample_frame (encode_opts ?opts)) 5, opts_scale ?opts 0)"
    by (rule check_ack_pure)
  then show "tcp_check_ack (sample_frame [1, 1, 8, 10, 0, 0, 0, 0, 0, 0, 0, 0]) stk 0 =
      Some (1, frame_msg (sample_frame [1, 1, 8, 10, 0, 0, 0, 0, 0, 0, 0, 0]) 5, 0)"
    unfolding enc by (simp add: opts_class_def opts_scale_def tcp_consts)
qed

text \<open>
  A segment without payload whose well formed options are closed by the end-of-options
  byte (and zero padding up to the header length) makes the option loop run past the end of
  the frame: the \<^verbatim>\<open>break\<close> of the end-of-options case leaves the \<^verbatim>\<open>switch\<close> and not the loop,
  and the remaining length never reaches zero.
\<close>

theorem check_ack_eol_overread:
  assumes "ack_frame buf ihl (encode_opts opts @ replicate n TCPOPT_EOL)"
    and "list_all opt_ok opts" and "0 < n"
  shows "tcp_check_ack buf msg ws = None"
proof -
  let ?pre = "take (14 + 4 * ihl + 20) buf" and ?pad = "replicate n TCPOPT_EOL"
  have "drop_walk (?pre @ encode_opts opts @ ?pad) (length ?pre)
      (int (length (encode_opts opts)) + int n) 1 ws =
    drop_walk ((?pre @ encode_opts opts) @ ?pad) (length (?pre @ encode_opts opts)) (int n)
      (opts_class opts 1) (opts_scale opts ws)"
    by (subst drop_walk_encoded) (use assms(2) in simp_all)
  also have "\<dots> = None"
    using assms(3) by (intro drop_walk_eols) (simp_all add: opts_class_def)
  finally have "is_drop_tcp_ack buf (14 + 4 * ihl)
      (int (20 + length (encode_opts opts @ ?pad))) ws = None"
    by (subst ack_frame_is_drop[OF assms(1)])
       (simp only: length_append length_replicate of_nat_add)
  then show ?thesis by (simp add: ack_frame_check[OF assms(1)])
qed

lemma check_ack_eol_overread_witness:
  "\<forall>stk. tcp_check_ack (sample_frame [1, 1, 1, 0]) stk 0 = None"
proof
  fix stk
  let ?opts = "[OptNop, OptNop, OptNop]"
  have enc: "encode_opts ?opts @ replicate 1 TCPOPT_EOL = [1, 1, 1, 0]"
    by (simp add: encode_opts_def tcp_consts)
  have "ack_frame (sample_frame [1, 1, 1, 0]) 5 (encode_opts ?opts @ replicate 1 TCPOPT_EOL)"
    unfolding enc by code_simp
  then show "tcp_check_ack (sample_frame [1, 1, 1, 0]) stk 0 = None" by (rule check_ack_eol_overread) (simp_all add: tcp_consts)
qed

text \<open>
  \<^verbatim>\<open>tcp_check_ack\<close> returns 0, 1 or 2. On 0 the window scale is untouched, so its caller,
  which passes 0, takes the early return; on 1 and 2 every field of the message has been
  written, so what the stack held before the call does not matter.
\<close>

theorem check_ack_writes_message:
  assumes "tcp_check_ack buf msg ws = Some (r, m, ws')"
  shows "(r = 0 \<and> ws' = ws) \<or>
    ((r = 1 \<or> r = 2) \<and> (\<forall>msg'. tcp_check_ack buf msg' ws = Some (r, m, ws')))"
  using tcp_check_ack_class[OF assms] tcp_check_ack_stack[of buf _ ws msg] assms by auto

lemma check_ack_writes_message_witness:
  "\<exists>m. tcp_check_ack (sample_frame [3, 3, 7, 1]) m 0 = Some (1, m, 128) \<and>
       (\<forall>msg'. tcp_check_ack (sample_frame [3, 3, 7, 1]) msg' 0 = Some (1, m, 128))"
proof -
  let ?m = "frame_msg (sample_frame [3, 3, 7, 1]) 5"
  have "tcp_check_ack (sample_frame [3, 3, 7, 1])
      \<lparr>am_source = 0, am_dest = 0, am_saddr = 0, am_daddr = 0, am_seq = 0, am_win = 0\<rparr> 0
      = Some (1, ?m, 128)"
    by code_simp
  from check_ack_writes_message[OF this] show ?thesis by auto
qed

end
