(* ===== verification/TcpAckFilter.thy ===== *)
theory TcpAckFilter
  imports TcpAckParse
begin

text \<open>
  The state of the TCP acknowledgement filter (\<^verbatim>\<open>aicwf_tcp_ack.c\<close>, \<^verbatim>\<open>aicwf_tcp_ack.h\<close>) and
  its operations. A \<^verbatim>\<open>struct msg_buf *\<close> is the number the allocator gave it. An operation
  runs with its sequence locks held, so it is one atomic step; what it hands to
  \<^verbatim>\<open>intf_tcp_drop_msg\<close> or to \<^verbatim>\<open>intf_tx\<close> is part of its result. A timer is the tick it
  expires at while it is pending.
\<close>

section \<open>State\<close>

type_synonym mbuf = nat

definition TCP_ACK_NUM :: nat where "TCP_ACK_NUM = 32"
definition TCP_ACK_DROP_CNT :: int where "TCP_ACK_DROP_CNT = 10"
definition ACK_OLD_TIME :: nat where "ACK_OLD_TIME = 4000"
definition MAX_TCP_ACK :: nat where "MAX_TCP_ACK = 200"
definition MIN_WIN :: u32 where "MIN_WIN = 256"
definition SIZE_KB :: u32 where "SIZE_KB = 1024"

record 'j tcp_ack_info =
  ack_info_num :: nat
  busy :: bool
  drop_cnt :: int
  psh_flag :: bool
  psh_seq :: u32
  win_scale :: u16
  last_time :: 'j
  timeout :: 'j
  timer :: "'j option"
  msgbuf :: "mbuf option"
  in_send_msg :: "mbuf option"
  ack_msg :: tcp_ack_msg

record 'j tcp_ack_manage =
  enable :: bool
  max_num :: int
  free_index :: int
  m_last_time :: 'j
  m_timeout :: 'j
  max_drop_cnt :: int
  ack_info :: "'j tcp_ack_info list"
  ack_winsize :: u32

definition zero_msg :: tcp_ack_msg where
  "zero_msg = \<lparr>am_source = 0, am_dest = 0, am_saddr = 0, am_daddr = 0, am_seq = 0, am_win = 0\<rparr>"

definition upd_info :: "nat \<Rightarrow> ('j tcp_ack_info \<Rightarrow> 'j tcp_ack_info) \<Rightarrow>
    'j tcp_ack_manage \<Rightarrow> 'j tcp_ack_manage" where
  "upd_info i f m = m\<lparr>ack_info := (ack_info m)[i := f (ack_info m ! i)]\<rparr>"

section \<open>Set-up and tear-down\<close>

definition tcp_ack_init :: "'j kenv \<Rightarrow> 'j tcp_ack_manage" where
  "tcp_ack_init K =
     \<lparr>enable = True, max_num = 0, free_index = 0,
      m_last_time = jiffies K, m_timeout = msecs_to_jiffies K ACK_OLD_TIME,
      max_drop_cnt = TCP_ACK_DROP_CNT,
      ack_info = map (\<lambda>i. \<lparr>ack_info_num = i, busy = False, drop_cnt = 0, psh_flag = False,
         psh_seq = 0, win_scale = 0, last_time = jiffies K,
         timeout = msecs_to_jiffies K ACK_OLD_TIME, timer = None, msgbuf = None,
         in_send_msg = None, ack_msg = zero_msg\<rparr>) [0..<TCP_ACK_NUM],
      ack_winsize = MIN_WIN\<rparr>"

definition deinit_info :: "nat \<Rightarrow> 'j tcp_ack_manage \<times> mbuf list \<Rightarrow> 'j tcp_ack_manage \<times> mbuf list" where
  "deinit_info i s = (case s of (m, freed) \<Rightarrow>
     (upd_info i (\<lambda>a. a\<lparr>timer := None, msgbuf := None\<rparr>) m,
      (case msgbuf (ack_info m ! i) of None \<Rightarrow> freed | Some b \<Rightarrow> freed @ [b])))"

definition tcp_ack_deinit :: "'j tcp_ack_manage \<Rightarrow> 'j tcp_ack_manage \<times> mbuf list" where
  "tcp_ack_deinit m = fold deinit_info [0..<TCP_ACK_NUM] (m\<lparr>enable := False\<rparr>, [])"

section \<open>Finding, ageing and allocating a slot\<close>

definition msg_match :: "tcp_ack_msg \<Rightarrow> 'j tcp_ack_info \<Rightarrow> bool" where
  "msg_match msg a \<longleftrightarrow> busy a \<and> am_dest (ack_msg a) = am_dest msg \<and>
     am_source (ack_msg a) = am_source msg \<and> am_saddr (ack_msg a) = am_saddr msg \<and>
     am_daddr (ack_msg a) = am_daddr msg"

definition tcp_ack_match :: "'j tcp_ack_manage \<Rightarrow> tcp_ack_msg \<Rightarrow> int" where
  "tcp_ack_match m msg = first_idx (msg_match msg) (ack_info m)"

definition expire_info :: "'j kenv \<Rightarrow> nat \<Rightarrow> 'j tcp_ack_manage \<Rightarrow> 'j tcp_ack_manage" where
  "expire_info K i m =
     (let a = ack_info m ! i in
      if busy a \<and> time_after K (jiffies K) (time_add K (last_time a) (timeout a))
      then upd_info i (\<lambda>a. a\<lparr>busy := False\<rparr>) (m\<lparr>free_index := int i, max_num := max_num m - 1\<rparr>)
      else m)"

definition tcp_ack_update :: "'j kenv \<Rightarrow> 'j tcp_ack_manage \<Rightarrow> 'j tcp_ack_manage" where
  "tcp_ack_update K m =
     (if time_after K (jiffies K) (time_add K (m_last_time m) (m_timeout m))
      then fold (expire_info K) (rev [0..<TCP_ACK_NUM]) (m\<lparr>m_last_time := jiffies K\<rparr>)
      else m)"

definition tcp_ack_alloc_index :: "'j tcp_ack_manage \<Rightarrow> int \<times> 'j tcp_ack_manage" where
  "tcp_ack_alloc_index m =
     (if max_num m = int TCP_ACK_NUM then (-1, m)
      else if free_index m \<ge> 0 then
        (free_index m, m\<lparr>free_index := -1, max_num := max_num m + 1\<rparr>)
      else let i = first_idx (\<lambda>a. \<not> busy a) (ack_info m) in
        if i \<ge> 0 then (i, m\<lparr>free_index := -1, max_num := max_num m + 1\<rparr>) else (-1, m))"

section \<open>Deciding about one acknowledgement\<close>

text \<open>Return value, new slot, message to free.\<close>

definition tcp_ack_handle :: "'j kenv \<Rightarrow> int \<Rightarrow> mbuf \<Rightarrow> 'j tcp_ack_info \<Rightarrow> tcp_ack_msg \<Rightarrow> int \<Rightarrow>
    int \<times> 'j tcp_ack_info \<times> mbuf option" where
  "tcp_ack_handle K max_drop new_msgbuf a0 msg type =
     (let a = a0\<lparr>last_time := jiffies K\<rparr>; seq = am_seq (ack_msg a) in
      if type = 2 then
        if U32_BEFORE seq (am_seq msg) then
          let a = a\<lparr>ack_msg := (ack_msg a)\<lparr>am_seq := am_seq msg\<rparr>\<rparr>;
              a = (if psh_flag a \<and> \<not> U32_BEFORE (am_seq msg) (psh_seq a)
                   then a\<lparr>psh_flag := False\<rparr> else a);
              drop_msg = msgbuf a;
              a = (if msgbuf a \<noteq> None then a\<lparr>msgbuf := None, timer := None\<rparr> else a)
          in (0, a\<lparr>in_send_msg := None, drop_cnt := max_drop\<rparr>, drop_msg)
        else (1, a, Some new_msgbuf)
      else if U32_BEFORE seq (am_seq msg) then
        let drop_msg = msgbuf a;
            a = (if msgbuf a \<noteq> None then a\<lparr>msgbuf := None\<rparr> else a);
            quick_ack = (psh_flag a \<and> \<not> U32_BEFORE (am_seq msg) (psh_seq a));
            a = (if quick_ack then a\<lparr>psh_flag := False\<rparr> else a\<lparr>drop_cnt := drop_cnt a + 1\<rparr>);
            a = a\<lparr>ack_msg := (ack_msg a)\<lparr>am_seq := am_seq msg\<rparr>\<rparr>
        in if quick_ack \<or> (in_send_msg a = None \<and> drop_cnt a \<ge> max_drop)
           then (0, a\<lparr>drop_cnt := 0, in_send_msg := Some new_msgbuf, timer := None\<rparr>, drop_msg)
           else (1, (let a = a\<lparr>msgbuf := Some new_msgbuf\<rparr> in
                     if timer a = None
                     then a\<lparr>timer := Some (time_add K (jiffies K) (msecs_to_jiffies K 5))\<rparr>
                     else a), drop_msg)
      else (1, a, Some new_msgbuf))"

definition tcp_ack_handle_new :: "'j kenv \<Rightarrow> int \<Rightarrow> mbuf \<Rightarrow> 'j tcp_ack_info \<Rightarrow> tcp_ack_msg \<Rightarrow> int \<Rightarrow>
    int \<times> 'j tcp_ack_info \<times> mbuf option" where
  "tcp_ack_handle_new K max_drop new_msgbuf a0 msg type =
     (let a = a0\<lparr>last_time := jiffies K\<rparr>; seq = am_seq (ack_msg a) in
      if U32_BEFORE seq (am_seq msg) then
        let drop_msg = msgbuf a;
            a = (if msgbuf a \<noteq> None then a\<lparr>msgbuf := None\<rparr> else a);
            quick_ack = (psh_flag a \<and> \<not> U32_BEFORE (am_seq msg) (psh_seq a));
            a = (if quick_ack then a\<lparr>psh_flag := False\<rparr> else a\<lparr>drop_cnt := drop_cnt a + 1\<rparr>);
            a = a\<lparr>ack_msg := (ack_msg a)\<lparr>am_seq := am_seq msg\<rparr>\<rparr>
        in if quick_ack \<or> (in_send_msg a = None \<and> drop_cnt a \<ge> max_drop)
           then (0, a\<lparr>drop_cnt := 0, in_send_msg := Some new_msgbuf, timer := None\<rparr>, drop_msg)
           else (1, (let a = a\<lparr>msgbuf := Some new_msgbuf\<rparr> in
                     if timer a = None
                     then a\<lparr>timer := Some (time_add K (jiffies K) (msecs_to_jiffies K 5))\<rparr>
                     else a), drop_msg)
      else (1, a, Some new_msgbuf))"

section \<open>The entry points\<close>

text \<open>
  The expiry of the timer of slot \<open>i\<close>. The message to transmit, if any, is handed to
  \<^verbatim>\<open>intf_tx\<close> after the lock is released.
\<close>

definition tcp_ack_timeout :: "nat \<Rightarrow> 'j tcp_ack_manage \<Rightarrow> 'j tcp_ack_manage \<times> mbuf option" where
  "tcp_ack_timeout i m =
     (let a = ack_info m ! i in
      if busy a \<and> msgbuf a \<noteq> None \<and> in_send_msg a = None
      then (upd_info i (\<lambda>a. a\<lparr>msgbuf := None, drop_cnt := 0, in_send_msg := msgbuf a\<rparr>) m, msgbuf a)
      else (m, None))"

definition move_tcpack_msg :: "mbuf \<Rightarrow> 'j tcp_ack_manage \<Rightarrow> 'j tcp_ack_manage" where
  "move_tcpack_msg msg m =
     (if \<not> enable m then m
      else m\<lparr>ack_info := map (\<lambda>a. if busy a \<and> in_send_msg a = Some msg
                               then a\<lparr>in_send_msg := None\<rparr> else a) (ack_info m)\<rparr>)"

definition filter_rx_tcp_ack :: "bytes \<Rightarrow> nat \<Rightarrow> tcp_ack_msg \<Rightarrow> 'j tcp_ack_manage \<Rightarrow>
    'j tcp_ack_manage option" where
  "filter_rx_tcp_ack buf plen stack_msg m =
     (if \<not> enable m then Some m
      else if plen > MAX_TCP_ACK then Some m
      else do {
        (ret, msg) \<leftarrow> tcp_check_quick_ack buf stack_msg;
        if ret = 0 then Some m else
        let index = tcp_ack_match m msg in
        if index \<ge> 0
        then Some (upd_info (nat index) (\<lambda>a. a\<lparr>psh_flag := True, psh_seq := am_seq msg\<rparr>) m)
        else Some m })"

text \<open>Return value, state, message freed by the call.\<close>

definition filter_send_tcp_ack :: "'j kenv \<Rightarrow> mbuf \<Rightarrow> bytes \<Rightarrow> tcp_ack_msg \<Rightarrow> 'j tcp_ack_manage \<Rightarrow>
    (int \<times> 'j tcp_ack_manage \<times> mbuf option) option" where
  "filter_send_tcp_ack K new_msgbuf buf stack_msg m0 = (
     let m = tcp_ack_update K m0 in do {
     (drp, msg, ws) \<leftarrow> tcp_check_ack buf stack_msg 0;
     if drp = 0 \<and> ws = 0 then Some (0, m, None) else
     let index = tcp_ack_match m msg in
     if index \<ge> 0 then
       let m = (if ws \<noteq> 0 \<and> win_scale (ack_info m ! nat index) \<noteq> ws
                then upd_info (nat index) (\<lambda>a. a\<lparr>win_scale := ws\<rparr>) m else m) in
       if drp > 0 \<and> enable m then
         let win = (ucast (win_scale (ack_info m ! nat index)) :: u32) * ucast (am_win msg);
             drp = (if ws \<noteq> 0 \<and> win < ack_winsize m * SIZE_KB then 2 else drp);
             (ret, a, drop_msg) = tcp_ack_handle_new K (max_drop_cnt m) new_msgbuf
                (ack_info m ! nat index) msg drp
         in Some (ret, upd_info (nat index) (\<lambda>_. a) m, drop_msg)
       else Some (0, m, None)
     else
       let (index, m) = tcp_ack_alloc_index m in
       if index \<ge> 0 then
         Some (0, upd_info (nat index) (\<lambda>a. a\<lparr>busy := True, psh_flag := False,
           last_time := jiffies K, drop_cnt := max_drop_cnt m,
           win_scale := (if ws \<noteq> 0 then ws else 1),
           ack_msg := (ack_msg a)\<lparr>am_dest := am_dest msg, am_source := am_source msg,
             am_saddr := am_saddr msg, am_daddr := am_daddr msg, am_seq := am_seq msg\<rparr>\<rparr>) m, None)
       else Some (0, m, None) })"

section \<open>Invariants\<close>

type_synonym flow = "u16 \<times> u16 \<times> u32 \<times> u32"

definition msg_flow :: "tcp_ack_msg \<Rightarrow> flow" where
  "msg_flow msg = (am_dest msg, am_source msg, am_saddr msg, am_daddr msg)"

definition slot_flow :: "'j tcp_ack_info \<Rightarrow> flow" where
  "slot_flow a = msg_flow (ack_msg a)"

text \<open>
  The slot table: 32 slots that know their number, \<open>max_num\<close> counts the busy ones,
  \<open>free_index\<close> is -1 or a slot that is not busy, and no two busy slots track one flow.
\<close>

definition slots_ok :: "'j tcp_ack_manage \<Rightarrow> bool" where
  "slots_ok m \<longleftrightarrow> length (ack_info m) = TCP_ACK_NUM \<and>
     (\<forall>i < TCP_ACK_NUM. ack_info_num (ack_info m ! i) = i) \<and>
     max_num m = int (length (filter busy (ack_info m))) \<and>
     (free_index m = -1 \<or> (0 \<le> free_index m \<and> nat (free_index m) < TCP_ACK_NUM \<and>
        \<not> busy (ack_info m ! nat (free_index m)))) \<and>
     (\<forall>i < TCP_ACK_NUM. \<forall>j < TCP_ACK_NUM. busy (ack_info m ! i) \<longrightarrow> busy (ack_info m ! j) \<longrightarrow>
        slot_flow (ack_info m ! i) = slot_flow (ack_info m ! j) \<longrightarrow> i = j)"

text \<open>The flows being tracked.\<close>

definition flows :: "'j tcp_ack_manage \<Rightarrow> flow set" where
  "flows m = slot_flow ` {a \<in> set (ack_info m). busy a}"

section \<open>Lemmas on slots\<close>

lemma U32_BEFORE_iff: "U32_BEFORE a b \<longleftrightarrow> unat (b - a) \<le> 2 ^ 31"
proof -
  define x where "x = uint (a - b)"
  have u: "uint (b - a) = (if a - b = 0 then 0 else 2 ^ 32 - x)"
    using uint_neg_if[of "a - b"] by (simp add: x_def)
  have s: "sint (a - b) = (if x < 2 ^ 31 then x else x - 2 ^ 32)"
    unfolding x_def by (rule sint_uint_if)
  have z: "a - b = 0 \<longleftrightarrow> x = 0" unfolding x_def by (simp only: uint_0_iff)
  have b: "0 \<le> x" "x < 2 ^ 32" unfolding x_def using uint_lt2p[of "a - b"] by simp_all
  have "sint (a - b) \<le> 0 \<longleftrightarrow> uint (b - a) \<le> 2 ^ 31"
    using b unfolding s u z by simp
  then show ?thesis unfolding U32_BEFORE_def by (simp only: unat_eq_nat_uint nat_le_iff) simp
qed

lemma upd_info_simps [simp]:
  "length (ack_info (upd_info i f m)) = length (ack_info m)"
  "enable (upd_info i f m) = enable m" "max_num (upd_info i f m) = max_num m"
  "free_index (upd_info i f m) = free_index m" "max_drop_cnt (upd_info i f m) = max_drop_cnt m"
  "m_last_time (upd_info i f m) = m_last_time m" "ack_winsize (upd_info i f m) = ack_winsize m"
  by (simp_all add: upd_info_def)

lemma upd_info_counters:
  "upd_info i f (m\<lparr>free_index := x, max_num := y\<rparr>) = (upd_info i f m)\<lparr>free_index := x, max_num := y\<rparr>"
  by (cases m) (simp add: upd_info_def)

lemma upd_info_nth:
  "i < length (ack_info m) \<Longrightarrow>
   ack_info (upd_info i f m) ! j = (if j = i then f (ack_info m ! i) else ack_info m ! j)"
  by (simp add: upd_info_def nth_list_update)

lemma upd_info_count:
  assumes "i < length (ack_info m)"
  shows "int (length (filter busy (ack_info (upd_info i f m)))) =
    int (length (filter busy (ack_info m))) - (if busy (ack_info m ! i) then 1 else 0) +
    (if busy (f (ack_info m ! i)) then 1 else 0)"
  using card_filter_upt_update[OF assms, of busy "f (ack_info m ! i)"]
  by (simp add: upd_info_def split: if_splits)

lemma slots_okD:
  assumes "slots_ok m"
  shows "length (ack_info m) = TCP_ACK_NUM" "i < TCP_ACK_NUM \<Longrightarrow> ack_info_num (ack_info m ! i) = i"
    "max_num m = int (length (filter busy (ack_info m)))"
  using assms by (simp_all add: slots_ok_def)

text \<open>A change of one slot that keeps its number, its flow and its busy flag.\<close>

lemma slots_ok_upd:
  assumes "slots_ok m" and "i < TCP_ACK_NUM"
    and "ack_info_num (f (ack_info m ! i)) = i"
    and "busy (f (ack_info m ! i)) = busy (ack_info m ! i)"
    and "busy (ack_info m ! i) \<Longrightarrow> slot_flow (f (ack_info m ! i)) = slot_flow (ack_info m ! i)"
  shows "slots_ok (upd_info i f m)"
proof -
  have len: "i < length (ack_info m)" using assms(1,2) by (simp add: slots_ok_def)
  show ?thesis
    using assms unfolding slots_ok_def
    by (simp add: upd_info_nth[OF len] upd_info_count[OF len]) blast
qed

lemma match_range:
  "tcp_ack_match m msg \<ge> 0 \<Longrightarrow> nat (tcp_ack_match m msg) < length (ack_info m) \<and>
     msg_match msg (ack_info m ! nat (tcp_ack_match m msg))"
  unfolding tcp_ack_match_def
  by (cases rule: first_idx_cases[of "msg_match msg" "ack_info m"]) auto

lemma msg_match_iff: "msg_match msg a \<longleftrightarrow> busy a \<and> slot_flow a = msg_flow msg"
  by (auto simp: msg_match_def slot_flow_def msg_flow_def)

lemma match_neg_iff: "tcp_ack_match m msg < 0 \<longleftrightarrow> msg_flow msg \<notin> flows m"
  by (auto simp: tcp_ack_match_def first_idx_neg_iff flows_def msg_match_iff image_iff)

section \<open>Ageing\<close>

lemma expire_info_slots_ok:
  assumes "slots_ok m" and "i < TCP_ACK_NUM"
  shows "slots_ok (expire_info K i m)"
proof -
  have len: "i < length (ack_info m)" using assms by (simp add: slots_ok_def)
  show ?thesis
  proof (cases "busy (ack_info m ! i) \<and> time_after K (jiffies K)
      (time_add K (last_time (ack_info m ! i)) (timeout (ack_info m ! i)))")
    case True
    let ?m = "m\<lparr>free_index := int i, max_num := max_num m - 1\<rparr>"
    let ?u = "(upd_info i (\<lambda>a. a\<lparr>busy := False\<rparr>) m)\<lparr>free_index := int i, max_num := max_num m - 1\<rparr>"
    have "upd_info i (\<lambda>a. a\<lparr>busy := False\<rparr>) ?m = ?u" by (rule upd_info_counters)
    moreover have "slots_ok ?u"
      using assms True unfolding slots_ok_def
      by (auto simp: upd_info_nth[OF len] upd_info_count[OF len] split: if_splits)
    ultimately have "slots_ok (upd_info i (\<lambda>a. a\<lparr>busy := False\<rparr>) ?m)" by simp
    with True show ?thesis by (simp add: expire_info_def Let_def)
  next
    case False
    then have "expire_info K i m = m" by (simp only: expire_info_def Let_def if_False)
    with assms show ?thesis by simp
  qed
qed

lemma fold_expire_slots_ok:
  "slots_ok m \<Longrightarrow> \<forall>i\<in>set is. i < TCP_ACK_NUM \<Longrightarrow> slots_ok (fold (expire_info K) is m)"
  by (induction "is" arbitrary: m) (auto intro: expire_info_slots_ok)

lemma update_slots_ok: "slots_ok m \<Longrightarrow> slots_ok (tcp_ack_update K m)"
proof -
  assume ok: "slots_ok m"
  then have "slots_ok (m\<lparr>m_last_time := jiffies K\<rparr>)" by (simp add: slots_ok_def)
  from fold_expire_slots_ok[OF this, of "rev [0..<TCP_ACK_NUM]" K] ok show ?thesis
    by (simp add: tcp_ack_update_def)
qed

lemma fold_expire_fields:
  "enable (fold (expire_info K) is m) = enable m \<and>
   max_drop_cnt (fold (expire_info K) is m) = max_drop_cnt m"
  by (induction "is" arbitrary: m) (auto simp: expire_info_def Let_def)

lemma update_fields [simp]:
  "enable (tcp_ack_update K m) = enable m"
  "max_drop_cnt (tcp_ack_update K m) = max_drop_cnt m"
  by (simp_all add: tcp_ack_update_def fold_expire_fields)

section \<open>Allocation\<close>

lemma alloc_spec:
  assumes "slots_ok m"
  shows "((\<forall>a\<in>set (ack_info m). busy a) \<and> tcp_ack_alloc_index m = (-1, m)) \<or>
    (\<exists>i < TCP_ACK_NUM. \<not> busy (ack_info m ! i) \<and>
       tcp_ack_alloc_index m = (int i, m\<lparr>free_index := -1, max_num := max_num m + 1\<rparr>))"
proof (cases "max_num m = int TCP_ACK_NUM")
  case True
  then have "length (filter busy (ack_info m)) = length (ack_info m)"
    using assms by (simp add: slots_ok_def)
  then have "\<forall>a\<in>set (ack_info m). busy a"
    by (metis length_filter_less less_irrefl)
  with True show ?thesis by (simp add: tcp_ack_alloc_index_def)
next
  case nofull: False
  have some_free: "\<exists>a\<in>set (ack_info m). \<not> busy a"
  proof (rule ccontr)
    assume "\<not> ?thesis"
    then have "filter busy (ack_info m) = ack_info m" by simp
    with assms nofull show False by (simp add: slots_ok_def)
  qed
  show ?thesis
  proof (cases "free_index m \<ge> 0")
    case True
    with assms have "nat (free_index m) < TCP_ACK_NUM" "\<not> busy (ack_info m ! nat (free_index m))"
      by (auto simp: slots_ok_def)
    with True nofull show ?thesis
      by (intro disjI2 exI[of _ "nat (free_index m)"]) (simp add: tcp_ack_alloc_index_def)
  next
    case False
    then show ?thesis
    proof (cases rule: first_idx_cases[of "\<lambda>a. \<not> busy a" "ack_info m"])
      case none
      with some_free show ?thesis by blast
    next
      case (some k)
      with False nofull assms show ?thesis
        by (intro disjI2 exI[of _ k]) (simp add: tcp_ack_alloc_index_def Let_def slots_ok_def)
    qed
  qed
qed

section \<open>The cases of the send path\<close>

definition set_scale :: "u16 \<Rightarrow> 'j tcp_ack_info \<Rightarrow> 'j tcp_ack_info" where
  "set_scale ws a = (if ws \<noteq> 0 \<and> win_scale a \<noteq> ws then a\<lparr>win_scale := ws\<rparr> else a)"

definition fresh_slot :: "'j kenv \<Rightarrow> int \<Rightarrow> u16 \<Rightarrow> tcp_ack_msg \<Rightarrow> 'j tcp_ack_info \<Rightarrow> 'j tcp_ack_info" where
  "fresh_slot K max_drop ws msg a = a\<lparr>busy := True, psh_flag := False,
     last_time := jiffies K, drop_cnt := max_drop, win_scale := (if ws \<noteq> 0 then ws else 1),
     ack_msg := (ack_msg a)\<lparr>am_dest := am_dest msg, am_source := am_source msg,
       am_saddr := am_saddr msg, am_daddr := am_daddr msg, am_seq := am_seq msg\<rparr>\<rparr>"

lemma fresh_slot_flow [simp]: "slot_flow (fresh_slot K d ws msg a) = msg_flow msg"
  by (simp add: fresh_slot_def slot_flow_def msg_flow_def)

lemma set_scale_simps [simp]:
  "busy (set_scale ws a) = busy a" "slot_flow (set_scale ws a) = slot_flow a"
  "ack_info_num (set_scale ws a) = ack_info_num a" "msgbuf (set_scale ws a) = msgbuf a"
  "in_send_msg (set_scale ws a) = in_send_msg a" "timer (set_scale ws a) = timer a"
  "drop_cnt (set_scale ws a) = drop_cnt a" "psh_flag (set_scale ws a) = psh_flag a"
  "psh_seq (set_scale ws a) = psh_seq a" "ack_msg (set_scale ws a) = ack_msg a"
  by (simp_all add: set_scale_def slot_flow_def)

lemma upd_info_scale:
  assumes "i < length (ack_info m)"
  shows "(if ws \<noteq> 0 \<and> win_scale (ack_info m ! i) \<noteq> ws
          then upd_info i (\<lambda>a. a\<lparr>win_scale := ws\<rparr>) m else m) = upd_info i (set_scale ws) m"
proof -
  have "m\<lparr>ack_info := ack_info m\<rparr> = m" by simp
  with assms show ?thesis by (auto simp: upd_info_def set_scale_def)
qed

lemma upd_info_upd_info:
  "i < length (ack_info m) \<Longrightarrow> upd_info i (\<lambda>_. a) (upd_info i f m) = upd_info i (\<lambda>_. a) m"
  by (simp add: upd_info_def)

lemma filter_send_cases:
  assumes fs: "filter_send_tcp_ack K b buf stk m0 = Some (r, m', d)" and ok: "slots_ok m0"
  obtains (pass) "r = 0" "d = None" "m' = tcp_ack_update K m0"
  | (track) i ws msg drp a where "i < TCP_ACK_NUM" "enable m0"
      "msg_match msg (ack_info (tcp_ack_update K m0) ! i)"
      "tcp_ack_handle_new K (max_drop_cnt m0) b (set_scale ws (ack_info (tcp_ack_update K m0) ! i))
         msg drp = (r, a, d)"
      "m' = upd_info i (\<lambda>_. a) (tcp_ack_update K m0)"
  | (scale) i ws where "i < TCP_ACK_NUM" "r = 0" "d = None"
      "m' = upd_info i (set_scale ws) (tcp_ack_update K m0)"
  | (fresh) i ws msg where "i < TCP_ACK_NUM" "r = 0" "d = None"
      "\<not> busy (ack_info (tcp_ack_update K m0) ! i)" "msg_flow msg \<notin> flows (tcp_ack_update K m0)"
      "m' = upd_info i (fresh_slot K (max_drop_cnt m0) ws msg)
         ((tcp_ack_update K m0)\<lparr>free_index := -1, max_num := max_num (tcp_ack_update K m0) + 1\<rparr>)"
proof -
  let ?m = "tcp_ack_update K m0"
  have okm: "slots_ok ?m" using ok by (rule update_slots_ok)
  then have len: "length (ack_info ?m) = TCP_ACK_NUM" by (rule slots_okD)
  from fs obtain drp msg ws where chk: "tcp_check_ack buf stk 0 = Some (drp, msg, ws)"
    by (auto simp: filter_send_tcp_ack_def Let_def bind_eq_Some_conv)
  show thesis
  proof (cases "drp = 0 \<and> ws = 0")
    case True
    with fs chk show thesis by (intro pass) (simp_all add: filter_send_tcp_ack_def Let_def)
  next
    case go: False
    define i where "i = nat (tcp_ack_match ?m msg)"
    show thesis
    proof (cases "tcp_ack_match ?m msg \<ge> 0")
      case True
      then have i: "i < TCP_ACK_NUM" "msg_match msg (ack_info ?m ! i)"
        using match_range[of ?m msg] len by (simp_all add: i_def)
      let ?m1 = "upd_info i (set_scale ws) ?m"
      have idx: "tcp_ack_match ?m msg = int i" using True by (simp add: i_def)
      have sc: "(if ws \<noteq> 0 \<and> win_scale (ack_info ?m ! i) \<noteq> ws
          then upd_info i (\<lambda>a. a\<lparr>win_scale := ws\<rparr>) ?m else ?m) = ?m1"
        using i(1) len by (simp only: upd_info_scale)
      have s1: "ack_info ?m1 ! i = set_scale ws (ack_info ?m ! i)"
        using i(1) len by (simp add: upd_info_nth)
      define drp' where "drp' = (if ws \<noteq> 0 \<and> (ucast (win_scale (ack_info ?m1 ! i)) :: u32) *
          ucast (am_win msg) < ack_winsize ?m1 * SIZE_KB then 2 else drp)"
      have eq: "filter_send_tcp_ack K b buf stk m0 =
          (if drp > 0 \<and> enable ?m1 then
             (case tcp_ack_handle_new K (max_drop_cnt ?m1) b (ack_info ?m1 ! i) msg drp' of
               (ret, a, drop_msg) \<Rightarrow> Some (ret, upd_info i (\<lambda>_. a) ?m1, drop_msg))
           else Some (0, ?m1, None))"
        using go unfolding filter_send_tcp_ack_def Let_def chk drp'_def
        by (simp only: bind.bind_lunit case_prod_conv idx nat_int sc if_False if_True of_nat_0_le_iff)
      show thesis
      proof (cases "drp > 0 \<and> enable m0")
        case True
        with fs i show thesis
          by (intro track[of i msg ws drp' "fst (snd (tcp_ack_handle_new K (max_drop_cnt m0) b
                (set_scale ws (ack_info ?m ! i)) msg drp'))"])
             (auto simp: eq s1 len upd_info_upd_info split: prod.splits)
      next
        case False
        with fs i show thesis by (intro scale[of i ws]) (auto simp: eq)
      qed
    next
      case False
      then have nf: "msg_flow msg \<notin> flows ?m" by (simp add: match_neg_iff[symmetric])
      from alloc_spec[OF okm] show thesis
      proof (elim disjE conjE exE)
        assume "tcp_ack_alloc_index ?m = (- 1, ?m)"
        with fs chk go False show thesis
          by (intro pass) (simp_all add: filter_send_tcp_ack_def Let_def)
      next
        fix j
        assume "j < TCP_ACK_NUM" "\<not> busy (ack_info ?m ! j)"
          "tcp_ack_alloc_index ?m = (int j, ?m\<lparr>free_index := -1, max_num := max_num ?m + 1\<rparr>)"
        with fs chk go False nf show thesis
          by (intro fresh[of j msg ws])
             (auto simp: filter_send_tcp_ack_def Let_def fresh_slot_def[abs_def])
      qed
    qed
  qed
qed

section \<open>The decision, case by case\<close>

definition quick_due :: "'j tcp_ack_info \<Rightarrow> tcp_ack_msg \<Rightarrow> bool" where
  "quick_due a msg \<longleftrightarrow> psh_flag a \<and> \<not> U32_BEFORE (am_seq msg) (psh_seq a)"

lemma handle_new_cases:
  assumes "tcp_ack_handle_new K max_drop b a0 msg ty = (r, a, d)"
  obtains (old) "\<not> U32_BEFORE (am_seq (ack_msg a0)) (am_seq msg)" "r = 1"
      "a = a0\<lparr>last_time := jiffies K\<rparr>" "d = Some b"
  | (send) "U32_BEFORE (am_seq (ack_msg a0)) (am_seq msg)" "r = 0" "d = msgbuf a0"
      "quick_due a0 msg \<or> (in_send_msg a0 = None \<and> drop_cnt a0 + 1 \<ge> max_drop)"
      "a = a0\<lparr>last_time := jiffies K, msgbuf := None, psh_flag := psh_flag a0 \<and> \<not> quick_due a0 msg,
         ack_msg := (ack_msg a0)\<lparr>am_seq := am_seq msg\<rparr>, drop_cnt := 0,
         in_send_msg := Some b, timer := None\<rparr>"
  | (hold) "U32_BEFORE (am_seq (ack_msg a0)) (am_seq msg)" "r = 1" "d = msgbuf a0"
      "\<not> quick_due a0 msg" "in_send_msg a0 \<noteq> None \<or> drop_cnt a0 + 1 < max_drop"
      "a = a0\<lparr>last_time := jiffies K, msgbuf := Some b, drop_cnt := drop_cnt a0 + 1,
         ack_msg := (ack_msg a0)\<lparr>am_seq := am_seq msg\<rparr>,
         timer := Some (case timer a0 of Some t \<Rightarrow> t
                        | None \<Rightarrow> time_add K (jiffies K) (msecs_to_jiffies K 5))\<rparr>"
proof (cases "U32_BEFORE (am_seq (ack_msg a0)) (am_seq msg)")
  case False
  with assms show thesis by (intro old) (auto simp: tcp_ack_handle_new_def)
next
  case new: True
  have upd: "(if msgbuf a0 \<noteq> None then a0\<lparr>last_time := t, msgbuf := None\<rparr> else a0\<lparr>last_time := t\<rparr>)
      = a0\<lparr>last_time := t, msgbuf := None\<rparr>" for t
    by (cases a0) simp
  note eq = assms[unfolded tcp_ack_handle_new_def Let_def]
  show thesis
  proof (cases "quick_due a0 msg \<or> (in_send_msg a0 = None \<and> drop_cnt a0 + 1 \<ge> max_drop)")
    case True
    have "(r, a, d) = (0, a0\<lparr>last_time := jiffies K, msgbuf := None,
        psh_flag := psh_flag a0 \<and> \<not> quick_due a0 msg, ack_msg := (ack_msg a0)\<lparr>am_seq := am_seq msg\<rparr>,
        drop_cnt := 0, in_send_msg := Some b, timer := None\<rparr>, msgbuf a0)"
      using eq new True
      by (cases "quick_due a0 msg"; cases a0)
         (auto simp: quick_due_def upd split: if_splits)
    with new True show thesis by (intro send) simp_all
  next
    case False
    have "(r, a, d) = (1, a0\<lparr>last_time := jiffies K, msgbuf := Some b, drop_cnt := drop_cnt a0 + 1,
         ack_msg := (ack_msg a0)\<lparr>am_seq := am_seq msg\<rparr>,
         timer := Some (case timer a0 of Some t \<Rightarrow> t
                        | None \<Rightarrow> time_add K (jiffies K) (msecs_to_jiffies K 5))\<rparr>, msgbuf a0)"
      using eq new False
      by (cases a0) (auto simp: quick_due_def upd split: if_splits option.splits)
    with new False show thesis by (intro hold) auto
  qed
qed

lemma handle_new_keeps:
  assumes "tcp_ack_handle_new K max_drop b a0 msg ty = (r, a, d)"
  shows "ack_info_num a = ack_info_num a0" "busy a = busy a0" "slot_flow a = slot_flow a0"
  using assms by (cases rule: handle_new_cases; simp add: slot_flow_def msg_flow_def)+

section \<open>Every operation keeps the slot table\<close>

lemma filter_send_slots_ok:
  assumes "filter_send_tcp_ack K b buf stk m0 = Some (r, m', d)" and ok: "slots_ok m0"
  shows "slots_ok m'"
proof -
  have okm: "slots_ok (tcp_ack_update K m0)" using ok by (rule update_slots_ok)
  then have len: "length (ack_info (tcp_ack_update K m0)) = TCP_ACK_NUM" by (rule slots_okD)
  from assms show ?thesis
  proof (cases rule: filter_send_cases)
    case pass
    with okm show ?thesis by simp
  next
    case (track i ws msg drp a)
    note k = handle_new_keeps[OF track(4)]
    show ?thesis unfolding track(5)
      by (rule slots_ok_upd) (use okm track(1) k slots_okD(2)[OF okm] in simp_all)
  next
    case (scale i ws)
    show ?thesis unfolding scale(4)
      by (rule slots_ok_upd) (use okm scale(1) slots_okD(2)[OF okm] in simp_all)
  next
    case (fresh i ws msg)
    let ?m = "tcp_ack_update K m0"
    let ?f = "fresh_slot K (max_drop_cnt m0) ws msg"
    have i: "i < length (ack_info ?m)" using fresh(1) len by simp
    have fr: "busy (?f a)" "ack_info_num (?f a) = ack_info_num a" for a
      by (simp_all add: fresh_slot_def)
    have other: "slot_flow (ack_info ?m ! j) \<noteq> msg_flow msg"
      if "j < TCP_ACK_NUM" "busy (ack_info ?m ! j)" for j
      using fresh(5) that len by (force simp: flows_def)
    have "slots_ok ((upd_info i ?f ?m)\<lparr>free_index := -1, max_num := max_num ?m + 1\<rparr>)"
      using okm fresh(1,4) other other[symmetric] fr unfolding slots_ok_def
      by (auto simp: upd_info_nth[OF i] upd_info_count[OF i])
    then show ?thesis unfolding fresh(6) upd_info_counters by simp
  qed
qed

lemma filter_rx_slots_ok:
  assumes "filter_rx_tcp_ack buf plen stk m = Some m'" and ok: "slots_ok m"
  shows "slots_ok m'"
proof -
  have len: "length (ack_info m) = TCP_ACK_NUM" using ok by (rule slots_okD)
  have "slots_ok (upd_info (nat (tcp_ack_match m msg)) (\<lambda>a. a\<lparr>psh_flag := True, psh_seq := s\<rparr>) m)"
    if "tcp_ack_match m msg \<ge> 0" for msg s
    by (rule slots_ok_upd)
       (use ok len match_range[OF that] slots_okD(2)[OF ok] in \<open>simp_all add: slot_flow_def\<close>)
  with assms show ?thesis
    by (auto simp: filter_rx_tcp_ack_def Let_def bind_eq_Some_conv split: if_splits)
qed

lemma timeout_slots_ok:
  assumes "slots_ok m" and "i < TCP_ACK_NUM"
  shows "slots_ok (fst (tcp_ack_timeout i m))"
  using assms slots_okD(2)[OF assms(1)]
  by (auto simp: tcp_ack_timeout_def Let_def slot_flow_def intro!: slots_ok_upd)

definition clear_sent :: "mbuf \<Rightarrow> 'j tcp_ack_info \<Rightarrow> 'j tcp_ack_info" where
  "clear_sent b a = (if busy a \<and> in_send_msg a = Some b then a\<lparr>in_send_msg := None\<rparr> else a)"

lemma clear_sent_simps [simp]:
  "busy (clear_sent b a) = busy a" "slot_flow (clear_sent b a) = slot_flow a"
  "ack_info_num (clear_sent b a) = ack_info_num a" "msgbuf (clear_sent b a) = msgbuf a"
  "timer (clear_sent b a) = timer a" "drop_cnt (clear_sent b a) = drop_cnt a"
  by (simp_all add: clear_sent_def slot_flow_def)

lemma move_clear_sent:
  "move_tcpack_msg b m = (if enable m then m\<lparr>ack_info := map (clear_sent b) (ack_info m)\<rparr> else m)"
  by (simp add: move_tcpack_msg_def clear_sent_def[abs_def])

lemma busy_clear_sent: "busy \<circ> clear_sent b = busy"
  by (simp add: fun_eq_iff)

lemma move_slots_ok: "slots_ok m \<Longrightarrow> slots_ok (move_tcpack_msg b m)"
  unfolding slots_ok_def move_clear_sent
  by (cases "enable m") (auto simp: filter_map busy_clear_sent)

lemma fold_deinit_slots_ok:
  "slots_ok m \<Longrightarrow> \<forall>i\<in>set is. i < TCP_ACK_NUM \<Longrightarrow>
   slots_ok (fst (fold deinit_info is (m, fr)))"
proof (induction "is" arbitrary: m fr)
  case (Cons i js)
  have "slots_ok (upd_info i (\<lambda>a. a\<lparr>timer := None, msgbuf := None\<rparr>) m)"
    by (rule slots_ok_upd)
       (use Cons.prems slots_okD(2)[OF Cons.prems(1)] in \<open>simp_all add: slot_flow_def\<close>)
  with Cons show ?case by (simp add: deinit_info_def)
qed simp

lemma deinit_slots_ok: "slots_ok m \<Longrightarrow> slots_ok (fst (tcp_ack_deinit m))"
  unfolding tcp_ack_deinit_def by (rule fold_deinit_slots_ok) (simp_all add: slots_ok_def)

lemma init_slots_ok: "slots_ok (tcp_ack_init K)"
  unfolding slots_ok_def tcp_ack_init_def by (auto simp: TCP_ACK_NUM_def filter_empty_conv)

end
