(* ===== verification/TcpAckSystem.thy ===== *)
theory TcpAckSystem
  imports TcpAckFilter "HOL-Library.Multiset"
begin

text \<open>
  The acknowledgement filter together with the transmit path that drives it
  (\<^verbatim>\<open>rwnx_start_xmit\<close> and the head of \<^verbatim>\<open>intf_tx\<close> in \<^verbatim>\<open>rwnx_tx.c\<close>). The transmit path
  allocates a message buffer for a frame, hands it to the filter, and later tells the filter
  that a message has gone; the expiry of a slot's timer may come between any two of these
  steps. The contract between the two is the locale \<open>msg_owner\<close>: who owns a message buffer
  after each call.
\<close>

section \<open>The transmit path\<close>

datatype ('e, 't, 'o) tx_event = Xmit 'e | Fire 't | Finish mbuf | Other 'o

record 's tx_sys =
  filt :: 's
  in_flight :: "mbuf list"
  gone :: "mbuf list"
  next_buf :: mbuf

definition opt_list :: "'a option \<Rightarrow> 'a list" where
  "opt_list x = (case x of None \<Rightarrow> [] | Some y \<Rightarrow> [y])"

text \<open>
  A frame to send: a new message buffer is allocated and offered to the filter; when the
  filter does not take it, the transmit path is the one that must finish it.
\<close>

definition xmit_step :: "(mbuf \<Rightarrow> 'e \<Rightarrow> 's \<Rightarrow> (int \<times> 's \<times> mbuf option) option) \<Rightarrow> 'e \<Rightarrow>
    's tx_sys \<Rightarrow> 's tx_sys option" where
  "xmit_step send e S = (case send (next_buf S) e (filt S) of None \<Rightarrow> None
     | Some (r, s', d) \<Rightarrow> Some (S\<lparr>filt := s',
         in_flight := (if r = 0 then next_buf S # in_flight S else in_flight S),
         gone := opt_list d @ gone S, next_buf := Suc (next_buf S)\<rparr>))"

text \<open>The timer hands a message to \<^verbatim>\<open>intf_tx\<close>.\<close>

definition fire_step :: "('t \<Rightarrow> 's \<Rightarrow> ('s \<times> mbuf option) option) \<Rightarrow> 't \<Rightarrow> 's tx_sys \<Rightarrow>
    's tx_sys option" where
  "fire_step fire t S = (case fire t (filt S) of None \<Rightarrow> None
     | Some (s', out) \<Rightarrow> Some (S\<lparr>filt := s', in_flight := opt_list out @ in_flight S\<rparr>))"

text \<open>\<^verbatim>\<open>move_tcpack_msg\<close> followed by \<^verbatim>\<open>kfree\<close> of a message on its way.\<close>

definition finish_step :: "(mbuf \<Rightarrow> 's \<Rightarrow> 's) \<Rightarrow> mbuf \<Rightarrow> 's tx_sys \<Rightarrow> 's tx_sys option" where
  "finish_step sent b S = (if b \<in> set (in_flight S)
     then Some (S\<lparr>filt := sent b (filt S), in_flight := remove1 b (in_flight S), gone := b # gone S\<rparr>)
     else None)"

definition other_step :: "('o \<Rightarrow> 's \<Rightarrow> ('s \<times> mbuf list) option) \<Rightarrow> 'o \<Rightarrow> 's tx_sys \<Rightarrow>
    's tx_sys option" where
  "other_step other x S = (case other x (filt S) of None \<Rightarrow> None
     | Some (s', fr) \<Rightarrow> Some (S\<lparr>filt := s', gone := fr @ gone S\<rparr>))"

fun tx_step where
  "tx_step send fire sent other (Xmit e) S = xmit_step send e S"
| "tx_step send fire sent other (Fire t) S = fire_step fire t S"
| "tx_step send fire sent other (Finish b) S = finish_step sent b S"
| "tx_step send fire sent other (Other x) S = other_step other x S"

fun tx_run where
  "tx_run send fire sent other [] S = Some S"
| "tx_run send fire sent other (e # es) S =
     Option.bind (tx_step send fire sent other e S) (tx_run send fire sent other es)"

definition tx_start :: "'s \<Rightarrow> 's tx_sys" where
  "tx_start s = \<lparr>filt = s, in_flight = [], gone = [], next_buf = 0\<rparr>"

text \<open>
  Every message buffer allocated so far is in exactly one place: held by the filter, on its
  way, or freed.
\<close>

definition accounted :: "('s \<Rightarrow> mbuf multiset) \<Rightarrow> 's tx_sys \<Rightarrow> bool" where
  "accounted held S \<longleftrightarrow>
     held (filt S) + mset (in_flight S) + mset (gone S) = mset [0..<next_buf S]"

lemma mset_upt_Suc: "mset [0..<Suc n] = mset [0..<n] + {#n#}"
  by (subst upt_Suc_append) (simp_all del: mset_upt)

section \<open>The contract of a filter that may keep messages\<close>

locale msg_owner =
  fixes inv :: "'s \<Rightarrow> bool" and held :: "'s \<Rightarrow> mbuf multiset"
    and send :: "mbuf \<Rightarrow> 'e \<Rightarrow> 's \<Rightarrow> (int \<times> 's \<times> mbuf option) option"
    and fire :: "'t \<Rightarrow> 's \<Rightarrow> ('s \<times> mbuf option) option"
    and sent :: "mbuf \<Rightarrow> 's \<Rightarrow> 's"
    and other :: "'o \<Rightarrow> 's \<Rightarrow> ('s \<times> mbuf list) option"
  assumes send_inv: "inv s \<Longrightarrow> send b e s = Some (r, s', d) \<Longrightarrow> inv s'"
    and send_held: "inv s \<Longrightarrow> send b e s = Some (r, s', d) \<Longrightarrow>
      held s' + mset (opt_list d) + (if r = 0 then {#b#} else {#}) = held s + {#b#}"
    and fire_inv: "inv s \<Longrightarrow> fire t s = Some (s', out) \<Longrightarrow> inv s'"
    and fire_held: "inv s \<Longrightarrow> fire t s = Some (s', out) \<Longrightarrow> held s' + mset (opt_list out) = held s"
    and sent_inv: "inv s \<Longrightarrow> inv (sent b s)"
    and sent_held: "inv s \<Longrightarrow> held (sent b s) = held s"
    and other_inv: "inv s \<Longrightarrow> other x s = Some (s', fr) \<Longrightarrow> inv s'"
    and other_held: "inv s \<Longrightarrow> other x s = Some (s', fr) \<Longrightarrow> held s' + mset fr = held s"
begin

lemma step_inv:
  assumes "inv (filt S)" and "tx_step send fire sent other e S = Some S'"
  shows "inv (filt S')"
  using assms
  by (cases e) (auto simp: xmit_step_def fire_step_def finish_step_def other_step_def
      split: option.splits prod.splits if_splits
      intro: send_inv fire_inv sent_inv other_inv)

lemma step_accounted:
  assumes inv: "inv (filt S)" and acc: "accounted held S"
    and step: "tx_step send fire sent other e S = Some S'"
  shows "accounted held S'"
proof (cases e)
  case (Xmit x)
  with step obtain r s' d where s: "send (next_buf S) x (filt S) = Some (r, s', d)"
    and S': "S' = S\<lparr>filt := s', in_flight := (if r = 0 then next_buf S # in_flight S else in_flight S),
       gone := opt_list d @ gone S, next_buf := Suc (next_buf S)\<rparr>"
    by (auto simp: xmit_step_def split: option.splits)
  let ?b = "next_buf S"
  have "held s' + mset (if r = 0 then ?b # in_flight S else in_flight S) + mset (opt_list d @ gone S)
      = (held s' + mset (opt_list d) + (if r = 0 then {#?b#} else {#})) + mset (in_flight S) + mset (gone S)"
    by simp
  also have "\<dots> = (held (filt S) + mset (in_flight S) + mset (gone S)) + {#?b#}"
    unfolding send_held[OF inv s] by simp
  also have "\<dots> = mset [0..<?b] + {#?b#}"
    using acc by (simp only: accounted_def)
  also have "\<dots> = mset [0..<Suc ?b]"
    by (simp only: mset_upt_Suc)
  finally show ?thesis unfolding accounted_def S' by (simp del: mset_upt)
next
  case (Fire t)
  with step obtain s' out where s: "fire t (filt S) = Some (s', out)"
    and S': "S' = S\<lparr>filt := s', in_flight := opt_list out @ in_flight S\<rparr>"
    by (auto simp: fire_step_def split: option.splits)
  from acc show ?thesis
    unfolding accounted_def S' by (simp add: ac_simps fire_held[OF inv s, symmetric] del: mset_upt)
next
  case (Finish b)
  with step have b: "b \<in># mset (in_flight S)"
    and S': "S' = S\<lparr>filt := sent b (filt S), in_flight := remove1 b (in_flight S), gone := b # gone S\<rparr>"
    by (auto simp: finish_step_def split: if_splits)
  have "mset (in_flight S) = mset (remove1 b (in_flight S)) + {#b#}" using b by simp
  with acc show ?thesis
    unfolding accounted_def S' by (simp add: sent_held[OF inv] del: mset_upt mset_remove1)
next
  case (Other x)
  with step obtain s' fr where s: "other x (filt S) = Some (s', fr)"
    and S': "S' = S\<lparr>filt := s', gone := fr @ gone S\<rparr>"
    by (auto simp: other_step_def split: option.splits)
  from acc show ?thesis
    unfolding accounted_def S' by (simp add: ac_simps other_held[OF inv s, symmetric] del: mset_upt)
qed

lemma run_accounted:
  assumes "inv (filt S)" and "accounted held S" and "tx_run send fire sent other es S = Some S'"
  shows "inv (filt S') \<and> accounted held S'"
  using assms
proof (induction es arbitrary: S)
  case (Cons e es)
  from Cons.prems(3) obtain T where "tx_step send fire sent other e S = Some T"
    and "tx_run send fire sent other es T = Some S'"
    by (auto simp: bind_eq_Some_conv)
  with Cons show ?case by (blast intro: step_inv step_accounted)
qed simp

text \<open>A message is freed at most once and never while it is held or on its way.\<close>

lemma accounted_distinct:
  assumes "accounted held S"
  shows "distinct (in_flight S @ gone S)"
    and "\<forall>b \<in># held (filt S). b \<notin> set (in_flight S) \<and> b \<notin> set (gone S)"
proof -
  have one: "count (held (filt S)) b + count (mset (in_flight S)) b + count (mset (gone S)) b \<le> 1" for b
  proof -
    have "count (held (filt S) + mset (in_flight S) + mset (gone S)) b = count (mset [0..<next_buf S]) b"
      using assms by (simp add: accounted_def)
    also have "\<dots> \<le> 1" by (simp add: count_mset_set')
    finally show ?thesis by simp
  qed
  have "count (mset (in_flight S @ gone S)) b \<le> 1" for b using one[of b] by simp
  then have "\<forall>b. count (mset (in_flight S @ gone S)) b =
      (if b \<in> set (in_flight S @ gone S) then 1 else 0)"
    by (metis One_nat_def count_eq_zero_iff le_Suc_eq le_zero_eq set_mset_mset)
  then show "distinct (in_flight S @ gone S)"
    using distinct_count_atmost_1 by blast
  show "\<forall>b \<in># held (filt S). b \<notin> set (in_flight S) \<and> b \<notin> set (gone S)"
  proof
    fix b assume "b \<in># held (filt S)"
    then have "1 \<le> count (held (filt S)) b" by simp
    with one[of b] have "count (mset (in_flight S)) b = 0" "count (mset (gone S)) b = 0" by linarith+
    then show "b \<notin> set (in_flight S) \<and> b \<notin> set (gone S)"
      by (metis count_eq_zero_iff set_mset_mset)
  qed
qed

end

end
