(* ===== verification/TcpAckOwner.thy ===== *)
theory TcpAckOwner
  imports TcpAckSystem
begin

text \<open>
  The acknowledgement filter as an instance of the message contract of \<open>TcpAckSystem\<close>, the
  slot table seen as a map from flows to trackers, and what the filter promises for one flow:
  how many acknowledgements go out, and that a held one goes out when its timer expires.
\<close>

section \<open>The filter as the transmit path drives it\<close>

text \<open>
  A timer expires (\<open>late = False\<close>: it was pending and no longer is), or the handler of a timer
  that was deleted while it was already running gets its turn (\<open>late = True\<close>).
\<close>

definition tcp_timer_fire :: "nat \<times> bool \<Rightarrow> 'j tcp_ack_manage \<Rightarrow>
    ('j tcp_ack_manage \<times> mbuf option) option" where
  "tcp_timer_fire t m = (case t of (i, late) \<Rightarrow>
     if i < TCP_ACK_NUM \<and> (late \<or> timer (ack_info m ! i) \<noteq> None)
     then Some (tcp_ack_timeout i (if late then m else upd_info i (\<lambda>a. a\<lparr>timer := None\<rparr>) m))
     else None)"

text \<open>
  The environment of a call is part of the event: the time, the bytes of the frame and what
  the caller's stack held where the code keeps its uninitialised message.
\<close>

datatype 'j tcp_other = Receive bytes nat tcp_ack_msg | Deinit

fun tcp_send :: "mbuf \<Rightarrow> 'j kenv \<times> bytes \<times> tcp_ack_msg \<Rightarrow> 'j tcp_ack_manage \<Rightarrow>
    (int \<times> 'j tcp_ack_manage \<times> mbuf option) option" where
  "tcp_send b (K, buf, stk) m = filter_send_tcp_ack K b buf stk m"

fun tcp_other_op :: "'j tcp_other \<Rightarrow> 'j tcp_ack_manage \<Rightarrow> ('j tcp_ack_manage \<times> mbuf list) option" where
  "tcp_other_op (Receive buf plen stk) m =
     map_option (\<lambda>m'. (m', [])) (filter_rx_tcp_ack buf plen stk m)"
| "tcp_other_op Deinit m = Some (tcp_ack_deinit m)"

text \<open>The messages the slots hold.\<close>

definition slots_held :: "'j tcp_ack_manage \<Rightarrow> mbuf multiset" where
  "slots_held m = sum_list (map (\<lambda>b. mset (opt_list b)) (map msgbuf (ack_info m)))"

lemma opt_list_simps [simp]: "opt_list None = []" "opt_list (Some b) = [b]"
  by (simp_all add: opt_list_def)

lemma held_upd_info:
  assumes "i < length (ack_info m)"
  shows "slots_held (upd_info i f m) + mset (opt_list (msgbuf (ack_info m ! i))) =
    slots_held m + mset (opt_list (msgbuf (f (ack_info m ! i))))"
  using sum_list_map_update[of i "map msgbuf (ack_info m)" "\<lambda>b. mset (opt_list b)"
      "msgbuf (f (ack_info m ! i))"] assms
  by (simp add: slots_held_def upd_info_def map_update)

lemma held_upd_info_same:
  assumes "i < length (ack_info m)" and "msgbuf (f (ack_info m ! i)) = msgbuf (ack_info m ! i)"
  shows "slots_held (upd_info i f m) = slots_held m"
  using held_upd_info[OF assms(1), of f] assms(2) by simp

section \<open>Ageing, slot by slot\<close>

definition aged :: "'j kenv \<Rightarrow> 'j tcp_ack_info \<Rightarrow> bool" where
  "aged K a \<longleftrightarrow> busy a \<and> time_after K (jiffies K) (time_add K (last_time a) (timeout a))"

definition age :: "'j kenv \<Rightarrow> 'j tcp_ack_info \<Rightarrow> 'j tcp_ack_info" where
  "age K a = (if aged K a then a\<lparr>busy := False\<rparr> else a)"

lemma age_simps [simp]:
  "msgbuf (age K a) = msgbuf a" "in_send_msg (age K a) = in_send_msg a" "timer (age K a) = timer a"
  "slot_flow (age K a) = slot_flow a" "busy (age K a) \<longleftrightarrow> busy a \<and> \<not> aged K a"
  "drop_cnt (age K a) = drop_cnt a" "psh_flag (age K a) = psh_flag a" "psh_seq (age K a) = psh_seq a"
  "ack_msg (age K a) = ack_msg a" "win_scale (age K a) = win_scale a"
  by (auto simp: age_def slot_flow_def aged_def)

lemma expire_nth:
  assumes "i < length (ack_info m)"
  shows "ack_info (expire_info K i m) ! j = (if j = i then age K (ack_info m ! i) else ack_info m ! j)"
  using assms by (simp add: expire_info_def age_def aged_def Let_def upd_info_nth)

lemma expire_length [simp]: "length (ack_info (expire_info K i m)) = length (ack_info m)"
  by (simp add: expire_info_def Let_def)

lemma fold_expire_nth:
  assumes "distinct js" and "\<forall>i\<in>set js. i < length (ack_info m)"
  shows "ack_info (fold (expire_info K) js m) ! j =
    (if j \<in> set js then age K (ack_info m ! j) else ack_info m ! j)"
  using assms by (induction js arbitrary: m) (auto simp: expire_nth)

lemma fold_expire_length: "length (ack_info (fold (expire_info K) js m)) = length (ack_info m)"
  by (induction js arbitrary: m) auto

lemma update_infos:
  assumes "length (ack_info m) = TCP_ACK_NUM"
  shows "ack_info (tcp_ack_update K m) =
    (if time_after K (jiffies K) (time_add K (m_last_time m) (m_timeout m))
     then map (age K) (ack_info m) else ack_info m)"
proof -
  have "ack_info (fold (expire_info K) (rev [0..<TCP_ACK_NUM]) (m\<lparr>m_last_time := jiffies K\<rparr>)) =
    map (age K) (ack_info m)"
    by (rule nth_equalityI) (use assms in \<open>simp_all add: fold_expire_length fold_expire_nth\<close>)
  then show ?thesis by (simp add: tcp_ack_update_def)
qed

text \<open>What ageing can do to a slot: nothing, or clear its busy flag.\<close>

lemma update_nth:
  assumes "length (ack_info m) = TCP_ACK_NUM" and "i < TCP_ACK_NUM"
  shows "ack_info (tcp_ack_update K m) ! i = ack_info m ! i \<or>
    (aged K (ack_info m ! i) \<and> ack_info (tcp_ack_update K m) ! i = (ack_info m ! i)\<lparr>busy := False\<rparr>)"
  using assms by (simp add: update_infos age_def)

lemma update_held:
  "length (ack_info m) = TCP_ACK_NUM \<Longrightarrow> slots_held (tcp_ack_update K m) = slots_held m"
  by (simp add: slots_held_def update_infos comp_def)

section \<open>The filter keeps the contract\<close>

lemma send_held_eq:
  assumes ok: "slots_ok m" and s: "filter_send_tcp_ack K b buf stk m = Some (r, m', d)"
  shows "slots_held m' + mset (opt_list d) + (if r = 0 then {#b#} else {#}) = slots_held m + {#b#}"
proof -
  let ?m = "tcp_ack_update K m"
  have len0: "length (ack_info m) = TCP_ACK_NUM" using ok by (rule slots_okD)
  have len: "length (ack_info ?m) = TCP_ACK_NUM" using ok by (intro slots_okD update_slots_ok)
  have u: "slots_held ?m = slots_held m" using len0 by (rule update_held)
  from s ok show ?thesis
  proof (cases rule: filter_send_cases)
    case (track i ws msg drp a)
    have i: "i < length (ack_info ?m)" using track(1) len by simp
    have h: "slots_held m' + mset (opt_list (msgbuf (ack_info ?m ! i))) =
        slots_held m + mset (opt_list (msgbuf a))"
      unfolding track(5) using held_upd_info[OF i, of "\<lambda>_. a"] u by simp
    from track(4) show ?thesis
      by (cases rule: handle_new_cases) (use h in \<open>auto simp: ac_simps\<close>)
  next
    case (scale i ws)
    with len u show ?thesis by (simp add: held_upd_info_same)
  next
    case (fresh i ws msg)
    have "slots_held m' = slots_held ?m"
      unfolding fresh(6) upd_info_counters
      using held_upd_info_same[of i ?m "fresh_slot K (max_drop_cnt m) ws msg"] fresh(1) len
      by (simp add: slots_held_def fresh_slot_def)
    with u fresh(2,3) show ?thesis by simp
  qed (use u in simp)
qed

lemma timeout_held:
  assumes "i < length (ack_info m)" and "tcp_ack_timeout i m = (m', out)"
  shows "slots_held m' + mset (opt_list out) = slots_held m"
proof (cases "busy (ack_info m ! i) \<and> msgbuf (ack_info m ! i) \<noteq> None \<and> in_send_msg (ack_info m ! i) = None")
  case True
  with assms(2) have "m' = upd_info i (\<lambda>a. a\<lparr>msgbuf := None, drop_cnt := 0, in_send_msg := msgbuf a\<rparr>) m"
    "out = msgbuf (ack_info m ! i)"
    by (simp_all add: tcp_ack_timeout_def Let_def)
  with held_upd_info[OF assms(1), of "\<lambda>a. a\<lparr>msgbuf := None, drop_cnt := 0, in_send_msg := msgbuf a\<rparr>"]
  show ?thesis by simp
next
  case False
  then have "tcp_ack_timeout i m = (m, None)" by (simp only: tcp_ack_timeout_def Let_def if_False)
  with assms(2) show ?thesis by simp
qed

lemma deinit_info_pair:
  "deinit_info i (m, fr) = (upd_info i (\<lambda>a. a\<lparr>timer := None, msgbuf := None\<rparr>) m,
     case msgbuf (ack_info m ! i) of None \<Rightarrow> fr | Some b \<Rightarrow> fr @ [b])"
  by (simp add: deinit_info_def)

lemma fold_deinit_held:
  assumes "\<forall>i\<in>set js. i < length (ack_info m)"
  shows "slots_held (fst (fold deinit_info js (m, fr))) + mset (snd (fold deinit_info js (m, fr))) =
    slots_held m + mset fr"
  using assms
proof (induction js arbitrary: m fr)
  case (Cons i js)
  let ?m = "upd_info i (\<lambda>a. a\<lparr>timer := None, msgbuf := None\<rparr>) m"
  let ?fr = "case msgbuf (ack_info m ! i) of None \<Rightarrow> fr | Some b \<Rightarrow> fr @ [b]"
  have "slots_held ?m + mset (opt_list (msgbuf (ack_info m ! i))) = slots_held m"
    using held_upd_info[of i m "\<lambda>a. a\<lparr>timer := None, msgbuf := None\<rparr>"] Cons.prems by simp
  moreover have "mset ?fr = mset fr + mset (opt_list (msgbuf (ack_info m ! i)))"
    by (simp split: option.split)
  moreover have "slots_held (fst (fold deinit_info js (?m, ?fr))) + mset (snd (fold deinit_info js (?m, ?fr)))
      = slots_held ?m + mset ?fr"
    using Cons.prems by (intro Cons.IH) simp
  ultimately show ?case by (simp add: deinit_info_pair ac_simps)
qed simp

lemma deinit_held:
  assumes "slots_ok m"
  shows "slots_held (fst (tcp_ack_deinit m)) + mset (snd (tcp_ack_deinit m)) = slots_held m"
  using fold_deinit_held[of "[0..<TCP_ACK_NUM]" "m\<lparr>enable := False\<rparr>" "[]"] assms
  by (simp add: tcp_ack_deinit_def slots_okD slots_held_def)

lemma rx_held:
  assumes "slots_ok m" and "filter_rx_tcp_ack buf plen stk m = Some m'"
  shows "slots_held m' = slots_held m"
  using assms(2) match_range[of m]
  by (auto simp: filter_rx_tcp_ack_def Let_def bind_eq_Some_conv held_upd_info_same split: if_splits)

lemma move_held: "slots_ok m \<Longrightarrow> slots_held (move_tcpack_msg b m) = slots_held m"
  by (simp add: slots_held_def move_clear_sent comp_def)

lemma slots_ok_clear_timer:
  assumes "slots_ok m" and "i < TCP_ACK_NUM"
  shows "slots_ok (upd_info i (\<lambda>a. a\<lparr>timer := None\<rparr>) m)"
  by (rule slots_ok_upd) (use assms slots_okD(2)[OF assms(1)] in \<open>simp_all add: slot_flow_def\<close>)

lemma fire_slots_ok:
  assumes "slots_ok m" and "tcp_timer_fire t m = Some (m', out)"
  shows "slots_ok m'"
proof -
  from assms(2) obtain i late where i: "i < TCP_ACK_NUM" and
    m': "tcp_ack_timeout i (if late then m else upd_info i (\<lambda>a. a\<lparr>timer := None\<rparr>) m) = (m', out)"
    by (cases t) (auto simp: tcp_timer_fire_def split: if_splits)
  have "slots_ok (if late then m else upd_info i (\<lambda>a. a\<lparr>timer := None\<rparr>) m)"
    using assms(1) i by (simp add: slots_ok_clear_timer)
  from timeout_slots_ok[OF this i] m' show ?thesis by simp
qed

lemma fire_held_eq:
  assumes "slots_ok m" and "tcp_timer_fire t m = Some (m', out)"
  shows "slots_held m' + mset (opt_list out) = slots_held m"
proof -
  from assms(2) obtain i late where i: "i < TCP_ACK_NUM" and
    m': "tcp_ack_timeout i (if late then m else upd_info i (\<lambda>a. a\<lparr>timer := None\<rparr>) m) = (m', out)"
    by (cases t) (auto simp: tcp_timer_fire_def split: if_splits)
  have len: "i < length (ack_info m)" using assms(1) i by (simp add: slots_okD)
  have "slots_held m' + mset (opt_list out) =
      slots_held (if late then m else upd_info i (\<lambda>a. a\<lparr>timer := None\<rparr>) m)"
    by (rule timeout_held[OF _ m']) (use len in simp)
  with len show ?thesis by (simp add: held_upd_info_same split: if_splits)
qed

lemma tcp_send_ok:
  "slots_ok s \<Longrightarrow> tcp_send b e s = Some (r, s', d) \<Longrightarrow> slots_ok s'"
  by (cases e) (simp add: filter_send_slots_ok)

lemma tcp_send_held:
  "slots_ok s \<Longrightarrow> tcp_send b e s = Some (r, s', d) \<Longrightarrow>
   slots_held s' + mset (opt_list d) + (if r = 0 then {#b#} else {#}) = slots_held s + {#b#}"
  by (cases e) (simp only: tcp_send.simps send_held_eq)

lemma tcp_other_ok:
  "slots_ok s \<Longrightarrow> tcp_other_op x s = Some (s', fr) \<Longrightarrow> slots_ok s'"
  using deinit_slots_ok[of s] by (cases x) (auto intro: filter_rx_slots_ok)

lemma tcp_other_held:
  "slots_ok s \<Longrightarrow> tcp_other_op x s = Some (s', fr) \<Longrightarrow> slots_held s' + mset fr = slots_held s"
  using deinit_held[of s] by (cases x) (auto simp: rx_held)

interpretation ackf: msg_owner slots_ok slots_held tcp_send tcp_timer_fire move_tcpack_msg tcp_other_op
  by unfold_locales
     (fact tcp_send_ok tcp_send_held fire_slots_ok fire_held_eq move_slots_ok move_held
       tcp_other_ok tcp_other_held)+

abbreviation ack_run :: "('j kenv \<times> bytes \<times> tcp_ack_msg, nat \<times> bool, 'j tcp_other) tx_event list \<Rightarrow>
    'j tcp_ack_manage tx_sys \<Rightarrow> 'j tcp_ack_manage tx_sys option" where
  "ack_run \<equiv> tx_run tcp_send tcp_timer_fire move_tcpack_msg tcp_other_op"

lemma init_held: "slots_held (tcp_ack_init K) = {#}"
  by (simp add: slots_held_def tcp_ack_init_def comp_def)

lemma start_accounted: "accounted slots_held (tx_start (tcp_ack_init K))"
  by (simp add: accounted_def tx_start_def init_held)

lemma ack_run_facts:
  assumes "ack_run es (tx_start (tcp_ack_init K)) = Some S"
  shows "slots_ok (filt S)" "accounted slots_held S"
  using ackf.run_accounted[OF _ start_accounted assms] by (simp_all add: tx_start_def init_slots_ok)

end
