(* ===== verification/TcpAckFlow.thy ===== *)
theory TcpAckFlow
  imports TcpAckOwner
begin

text \<open>
  The slot table of the acknowledgement filter seen as a map from flows to trackers: the
  specification of \<^verbatim>\<open>filter_send_tcp_ack\<close> and \<^verbatim>\<open>filter_rx_tcp_ack\<close> on that map, the share of
  acknowledgements of one flow that goes out, and the fate of a held acknowledgement.
\<close>

section \<open>The flow map\<close>

definition tracker :: "'j tcp_ack_manage \<Rightarrow> flow \<Rightarrow> 'j tcp_ack_info option" where
  "tracker m f = find (\<lambda>a. busy a \<and> slot_flow a = f) (ack_info m)"

lemma slot_unique:
  "slots_ok m \<Longrightarrow> i < TCP_ACK_NUM \<Longrightarrow> j < TCP_ACK_NUM \<Longrightarrow> busy (ack_info m ! i) \<Longrightarrow>
   busy (ack_info m ! j) \<Longrightarrow> slot_flow (ack_info m ! i) = slot_flow (ack_info m ! j) \<Longrightarrow> i = j"
  by (simp add: slots_ok_def)

lemma tracker_Some_iff:
  assumes "slots_ok m"
  shows "tracker m f = Some a \<longleftrightarrow>
    (\<exists>i < TCP_ACK_NUM. ack_info m ! i = a \<and> busy a \<and> slot_flow a = f)"
proof
  assume "tracker m f = Some a"
  then show "\<exists>i < TCP_ACK_NUM. ack_info m ! i = a \<and> busy a \<and> slot_flow a = f"
    using slots_okD(1)[OF assms] by (auto simp: tracker_def find_Some_iff)
next
  assume "\<exists>i < TCP_ACK_NUM. ack_info m ! i = a \<and> busy a \<and> slot_flow a = f"
  then obtain i where i: "i < TCP_ACK_NUM" "ack_info m ! i = a" "busy a" "slot_flow a = f" by blast
  have "\<not> (busy (ack_info m ! j) \<and> slot_flow (ack_info m ! j) = f)" if "j < i" for j
    using slot_unique[OF assms i(1), of j] that i by auto
  with i show "tracker m f = Some a"
    using slots_okD(1)[OF assms] unfolding tracker_def find_Some_iff
    by (intro exI[of _ i]) auto
qed

lemma tracker_None_iff:
  assumes "slots_ok m" shows "tracker m f = None \<longleftrightarrow> f \<notin> flows m"
  by (auto simp: tracker_def find_None_iff flows_def)

text \<open>One slot gets a new content that tracks a flow it may track.\<close>

lemma tracker_replace:
  assumes ok: "slots_ok m" and ok': "slots_ok m'" and i: "i < TCP_ACK_NUM"
    and nth: "\<And>j. ack_info m' ! j = (if j = i then x else ack_info m ! j)"
    and x: "busy x" "busy (ack_info m ! i) \<Longrightarrow> slot_flow (ack_info m ! i) = slot_flow x"
  shows "tracker m' = (tracker m)(slot_flow x \<mapsto> x)"
proof
  fix f
  show "tracker m' f = ((tracker m)(slot_flow x \<mapsto> x)) f"
  proof (cases "f = slot_flow x")
    case True
    have "tracker m' f = Some x"
      unfolding tracker_Some_iff[OF ok'] using i x(1) True by (intro exI[of _ i]) (simp add: nth)
    with True show ?thesis by simp
  next
    case False
    have same: "ack_info m' ! j = a \<and> busy a \<and> slot_flow a = f \<longleftrightarrow>
        ack_info m ! j = a \<and> busy a \<and> slot_flow a = f" for j a
    proof (cases "j = i")
      case True
      have "\<not> (ack_info m ! i = a \<and> busy a \<and> slot_flow a = f)" using False x(2) by metis
      moreover have "\<not> (x = a \<and> busy a \<and> slot_flow a = f)" using False by metis
      ultimately show ?thesis using True nth[of j] by (simp only: if_True refl)
    qed (simp add: nth)
    have "tracker m' f = Some a \<longleftrightarrow> tracker m f = Some a" for a
      unfolding tracker_Some_iff[OF ok'] tracker_Some_iff[OF ok]
      by (rule ex_cong1, rule conj_cong[OF refl], rule same)
    then have "tracker m' f = tracker m f"
      by (rule option_eqI)
    with False show ?thesis by simp
  qed
qed

lemma tracker_upd:
  assumes ok: "slots_ok m" and i: "i < TCP_ACK_NUM" and b: "busy (ack_info m ! i)"
    and g: "busy (g (ack_info m ! i))" "slot_flow (g (ack_info m ! i)) = slot_flow (ack_info m ! i)"
    "ack_info_num (g (ack_info m ! i)) = ack_info_num (ack_info m ! i)"
  shows "tracker (upd_info i g m) = (tracker m)(slot_flow (ack_info m ! i) \<mapsto> g (ack_info m ! i))"
proof -
  have "slots_ok (upd_info i g m)"
    by (rule slots_ok_upd) (use assms slots_okD(2)[OF ok i] in auto)
  moreover have "i < length (ack_info m)" using ok i by (simp add: slots_okD)
  ultimately show ?thesis
    using tracker_replace[OF ok _ i, of "upd_info i g m" "g (ack_info m ! i)"] g b
    by (simp add: upd_info_nth)
qed

section \<open>The send path on a tracked flow\<close>

lemma match_unique:
  assumes "slots_ok m" and "i < TCP_ACK_NUM" and "msg_match msg (ack_info m ! i)"
  shows "tcp_ack_match m msg = int i"
proof -
  have "ack_info m ! i \<in> set (ack_info m)" using assms by (simp add: slots_okD)
  with assms(3) have "tcp_ack_match m msg \<ge> 0"
    using first_idx_neg_iff[of "msg_match msg" "ack_info m"] by (force simp: tcp_ack_match_def)
  with match_range[OF this] assms slots_okD(1)[OF assms(1)]
  show ?thesis using slot_unique[OF assms(1,2), of "nat (tcp_ack_match m msg)"]
    by (auto simp: msg_match_iff)
qed

lemma filter_send_tracked:
  assumes ok: "slots_ok m" and i: "i < TCP_ACK_NUM"
    and chk: "tcp_check_ack buf stk 0 = Some (drp, msg, ws)" "drp > 0"
    and mt: "msg_match msg (ack_info (tcp_ack_update K m) ! i)"
  shows "filter_send_tcp_ack K b buf stk m =
    (if enable m then
       (case tcp_ack_handle_new K (max_drop_cnt m) b (set_scale ws (ack_info (tcp_ack_update K m) ! i)) msg
          (if ws \<noteq> 0 \<and> (ucast (win_scale (set_scale ws (ack_info (tcp_ack_update K m) ! i))) :: u32)
             * ucast (am_win msg) < ack_winsize (tcp_ack_update K m) * SIZE_KB then 2 else drp)
        of (r, a, d) \<Rightarrow> Some (r, upd_info i (\<lambda>_. a) (tcp_ack_update K m), d))
     else Some (0, upd_info i (set_scale ws) (tcp_ack_update K m), None))"
proof -
  let ?m = "tcp_ack_update K m"
  have okm: "slots_ok ?m" using ok by (rule update_slots_ok)
  have len: "i < length (ack_info ?m)" using okm i by (simp add: slots_okD)
  have idx: "tcp_ack_match ?m msg = int i" using okm i mt by (rule match_unique)
  have s1: "ack_info (upd_info i (set_scale ws) ?m) ! i = set_scale ws (ack_info ?m ! i)"
    using len by (simp add: upd_info_nth)
  have go: "\<not> (drp = 0 \<and> ws = 0)" using chk(2) by simp
  have "filter_send_tcp_ack K b buf stk m =
      (if drp > 0 \<and> enable (upd_info i (set_scale ws) ?m) then
         (case tcp_ack_handle_new K (max_drop_cnt (upd_info i (set_scale ws) ?m)) b
            (ack_info (upd_info i (set_scale ws) ?m) ! i) msg
            (if ws \<noteq> 0 \<and> (ucast (win_scale (ack_info (upd_info i (set_scale ws) ?m) ! i)) :: u32) *
              ucast (am_win msg) < ack_winsize (upd_info i (set_scale ws) ?m) * SIZE_KB then 2 else drp) of
           (ret, a, drop_msg) \<Rightarrow> Some (ret, upd_info i (\<lambda>_. a) (upd_info i (set_scale ws) ?m), drop_msg))
       else Some (0, upd_info i (set_scale ws) ?m, None))"
    using go unfolding filter_send_tcp_ack_def Let_def chk
    by (simp only: bind.bind_lunit case_prod_conv idx nat_int upd_info_scale[OF len] if_False if_True of_nat_0_le_iff)
  then show ?thesis
    using chk(2) by (simp only: s1 upd_info_simps update_fields upd_info_upd_info[OF len] simp_thms)
qed

lemma filter_send_untracked:
  assumes ok: "slots_ok m" and chk: "tcp_check_ack buf stk 0 = Some (drp, msg, ws)" "drp > 0"
    and nf: "msg_flow msg \<notin> flows (tcp_ack_update K m)"
  shows "filter_send_tcp_ack K b buf stk m =
    (case tcp_ack_alloc_index (tcp_ack_update K m) of (index, m') \<Rightarrow>
       if index \<ge> 0 then Some (0, upd_info (nat index) (fresh_slot K (max_drop_cnt m') ws msg) m', None)
       else Some (0, m', None))"
proof -
  have neg: "\<not> tcp_ack_match (tcp_ack_update K m) msg \<ge> 0"
    using nf by (simp add: match_neg_iff[symmetric])
  have go: "\<not> (drp = 0 \<and> ws = 0)" using chk(2) by simp
  show ?thesis
    unfolding filter_send_tcp_ack_def Let_def chk
    by (simp only: bind.bind_lunit case_prod_conv go neg if_False fresh_slot_def[abs_def])
qed

lemma filter_send_not_ack:
  "tcp_check_ack buf stk 0 = Some (0, msg, ws) \<Longrightarrow>
   filter_send_tcp_ack K b buf stk m = Some (0, tcp_ack_update K m, None)"
  using tcp_check_ack_class[of buf stk 0 0 msg ws]
  by (auto simp: filter_send_tcp_ack_def Let_def)

section \<open>The specification of the send path\<close>

lemma age_busy_iff:
  "age K s = a \<and> busy a \<and> slot_flow a = f \<longleftrightarrow> s = a \<and> busy a \<and> slot_flow a = f \<and> \<not> aged K a"
  by (cases "aged K s") (auto simp: age_def aged_def)

lemma tracker_update:
  assumes "slots_ok m"
  shows "tracker (tcp_ack_update K m) f = (case tracker m f of None \<Rightarrow> None | Some a \<Rightarrow>
     if time_after K (jiffies K) (time_add K (m_last_time m) (m_timeout m)) \<and> aged K a
     then None else Some a)"
proof -
  note iff = tracker_Some_iff[OF update_slots_ok[OF assms]] tracker_Some_iff[OF assms]
  let ?sweep = "time_after K (jiffies K) (time_add K (m_last_time m) (m_timeout m))"
  have len: "length (ack_info m) = TCP_ACK_NUM" using assms by (rule slots_okD)
  have nth: "ack_info (tcp_ack_update K m) ! i =
      (if ?sweep then age K (ack_info m ! i) else ack_info m ! i)" if "i < TCP_ACK_NUM" for i
    using that len by (simp add: update_infos)
  have main: "tracker (tcp_ack_update K m) f = Some a \<longleftrightarrow>
      tracker m f = Some a \<and> \<not> (?sweep \<and> aged K a)" for a
  proof (cases ?sweep)
    case True
    then show ?thesis unfolding iff by (simp add: nth age_busy_iff cong: conj_cong) blast
  next
    case False
    then show ?thesis unfolding iff by (simp add: nth cong: conj_cong)
  qed
  show ?thesis by (rule option_eqI, unfold main) (auto split: option.split)
qed

lemma card_tracker:
  assumes "slots_ok m" shows "int (card (dom (tracker m))) = max_num m"
proof -
  let ?I = "{i. i < length (ack_info m) \<and> busy (ack_info m ! i)}"
  have len: "length (ack_info m) = TCP_ACK_NUM" using assms by (rule slots_okD)
  have "f \<in> dom (tracker m) \<longleftrightarrow> (\<exists>i \<in> ?I. slot_flow (ack_info m ! i) = f)" for f
    using len by (auto simp: dom_def tracker_Some_iff[OF assms])
  then have "dom (tracker m) = (\<lambda>i. slot_flow (ack_info m ! i)) ` ?I"
    by (simp add: set_eq_iff image_iff eq_commute)
  moreover have "inj_on (\<lambda>i. slot_flow (ack_info m ! i)) ?I"
    using slot_unique[OF assms] len by (auto simp: inj_on_def)
  ultimately have "card (dom (tracker m)) = length (filter busy (ack_info m))"
    by (simp add: card_image length_filter_conv_card)
  with slots_okD(3)[OF assms] show ?thesis by simp
qed

text \<open>
  What a tracker knows when it is set up. The messages and the timer of the slot are not
  mentioned: the code leaves them as the previous user of the slot left them.
\<close>

definition fresh_tracker :: "'j kenv \<Rightarrow> int \<Rightarrow> u16 \<Rightarrow> tcp_ack_msg \<Rightarrow> 'j tcp_ack_info \<Rightarrow> bool" where
  "fresh_tracker K max_drop ws msg t \<longleftrightarrow> busy t \<and> slot_flow t = msg_flow msg \<and>
     am_seq (ack_msg t) = am_seq msg \<and> \<not> psh_flag t \<and> last_time t = jiffies K \<and>
     drop_cnt t = max_drop \<and> win_scale t = (if ws \<noteq> 0 then ws else 1)"

text \<open>
  One call of the filter on a map from flows to trackers: flow map before, return value, flow
  map after, message freed.
\<close>

inductive send_spec :: "'j kenv \<Rightarrow> int \<Rightarrow> bool \<Rightarrow> mbuf \<Rightarrow> int \<times> tcp_ack_msg \<times> u16 \<Rightarrow>
    (flow \<rightharpoonup> 'j tcp_ack_info) \<Rightarrow> int \<Rightarrow> (flow \<rightharpoonup> 'j tcp_ack_info) \<Rightarrow> mbuf option \<Rightarrow> bool"
  for K max_drop en b where
  not_ack: "send_spec K max_drop en b (0, msg, ws) T 0 T None"
| tracked: "drp > 0 \<Longrightarrow> en \<Longrightarrow> T (msg_flow msg) = Some a \<Longrightarrow>
    tcp_ack_handle_new K max_drop b (set_scale ws a) msg 1 = (r, a', d) \<Longrightarrow>
    send_spec K max_drop en b (drp, msg, ws) T r (T(msg_flow msg \<mapsto> a')) d"
| disabled: "drp > 0 \<Longrightarrow> \<not> en \<Longrightarrow> T (msg_flow msg) = Some a \<Longrightarrow>
    send_spec K max_drop en b (drp, msg, ws) T 0 (T(msg_flow msg \<mapsto> set_scale ws a)) None"
| new: "drp > 0 \<Longrightarrow> T (msg_flow msg) = None \<Longrightarrow> card (dom T) < TCP_ACK_NUM \<Longrightarrow>
    fresh_tracker K max_drop ws msg t \<Longrightarrow>
    send_spec K max_drop en b (drp, msg, ws) T 0 (T(msg_flow msg \<mapsto> t)) None"
| full: "drp > 0 \<Longrightarrow> T (msg_flow msg) = None \<Longrightarrow> card (dom T) = TCP_ACK_NUM \<Longrightarrow>
    send_spec K max_drop en b (drp, msg, ws) T 0 T None"

inductive_cases send_specE: "send_spec K max_drop en b (drp, msg, ws) T r T' d"

lemma handle_new_type:
  "tcp_ack_handle_new K max_drop b a msg t = tcp_ack_handle_new K max_drop b a msg 1"
  by (simp add: tcp_ack_handle_new_def)

lemma send_spec_tracked:
  assumes ok: "slots_ok m" and chk: "tcp_check_ack buf stk 0 = Some (drp, msg, ws)" "drp > 0"
    and t: "tracker (tcp_ack_update K m) (msg_flow msg) = Some a"
    and fs: "filter_send_tcp_ack K b buf stk m = Some (r, m', d)"
  shows "send_spec K (max_drop_cnt m) (enable m) b (drp, msg, ws)
    (tracker (tcp_ack_update K m)) r (tracker m') d"
proof -
  let ?m = "tcp_ack_update K m"
  have okm: "slots_ok ?m" using ok by (rule update_slots_ok)
  from t obtain i where i: "i < TCP_ACK_NUM" "ack_info ?m ! i = a" "busy a" "slot_flow a = msg_flow msg"
    unfolding tracker_Some_iff[OF okm] by blast
  then have mt: "msg_match msg (ack_info ?m ! i)" by (simp add: msg_match_iff)
  note eq = filter_send_tracked[OF ok i(1) chk mt, of b]
  have upd: "tracker (upd_info i g ?m) = (tracker ?m)(msg_flow msg \<mapsto> g a)"
    if "busy (g a)" "slot_flow (g a) = slot_flow a" "ack_info_num (g a) = ack_info_num a" for g
    using tracker_upd[OF okm i(1)] i that by simp
  show ?thesis
  proof (cases "enable m")
    case True
    obtain r1 a1 d1 where h: "tcp_ack_handle_new K (max_drop_cnt m) b (set_scale ws a) msg 1 = (r1, a1, d1)"
      by (cases "tcp_ack_handle_new K (max_drop_cnt m) b (set_scale ws a) msg 1") auto
    have m': "r = r1" "m' = upd_info i (\<lambda>_. a1) ?m" "d = d1"
      using fs eq True i(2) h by (simp_all add: handle_new_type[of _ _ _ _ _ "if _ then _ else _"])
    have "tracker m' = (tracker ?m)(msg_flow msg \<mapsto> a1)"
      unfolding m'(2) using handle_new_keeps[OF h] i by (intro upd) simp_all
    with send_spec.tracked[where T="tracker ?m", OF chk(2) True t h] m' show ?thesis by simp
  next
    case False
    then have m': "r = 0" "m' = upd_info i (set_scale ws) ?m" "d = None"
      using fs eq by simp_all
    have "tracker m' = (tracker ?m)(msg_flow msg \<mapsto> set_scale ws a)"
      unfolding m'(2) using i by (intro upd) simp_all
    with send_spec.disabled[where T="tracker ?m", OF chk(2) False t] m' show ?thesis by simp
  qed
qed

lemma send_spec_untracked:
  assumes ok: "slots_ok m" and chk: "tcp_check_ack buf stk 0 = Some (drp, msg, ws)" "drp > 0"
    and t: "tracker (tcp_ack_update K m) (msg_flow msg) = None"
    and fs: "filter_send_tcp_ack K b buf stk m = Some (r, m', d)"
  shows "send_spec K (max_drop_cnt m) (enable m) b (drp, msg, ws)
    (tracker (tcp_ack_update K m)) r (tracker m') d"
proof -
  let ?m = "tcp_ack_update K m"
  have okm: "slots_ok ?m" using ok by (rule update_slots_ok)
  have ok': "slots_ok m'" using fs ok by (rule filter_send_slots_ok)
  have card: "int (card (dom (tracker ?m))) = int (length (filter busy (ack_info ?m)))"
    using card_tracker[OF okm] slots_okD(3)[OF okm] by simp
  have len: "length (ack_info ?m) = TCP_ACK_NUM" using okm by (rule slots_okD)
  note eq = filter_send_untracked[OF ok chk t[unfolded tracker_None_iff[OF okm]], of b]
  from alloc_spec[OF okm] show ?thesis
  proof (elim disjE conjE exE)
    assume all: "\<forall>a\<in>set (ack_info ?m). busy a" and "tcp_ack_alloc_index ?m = (- 1, ?m)"
    then have "r = 0" "m' = ?m" "d = None" using fs eq by simp_all
    moreover have "card (dom (tracker ?m)) = TCP_ACK_NUM" using card all len by simp
    ultimately show ?thesis using send_spec.full[where T="tracker ?m", OF chk(2) t] by simp
  next
    fix i assume i: "i < TCP_ACK_NUM" "\<not> busy (ack_info ?m ! i)"
      and al: "tcp_ack_alloc_index ?m = (int i, ?m\<lparr>free_index := -1, max_num := max_num ?m + 1\<rparr>)"
    let ?t = "fresh_slot K (max_drop_cnt m) ws msg (ack_info ?m ! i)"
    have m': "r = 0" "d = None" "ack_info m' = (ack_info ?m)[i := ?t]"
      using fs eq al by (auto simp: upd_info_def)
    have tr: "tracker m' = (tracker ?m)(slot_flow ?t \<mapsto> ?t)"
      by (rule tracker_replace[OF okm ok' i(1)])
         (use i len in \<open>simp_all add: m'(3) nth_list_update fresh_slot_def\<close>)
    have "length (filter busy (ack_info ?m)) < length (ack_info ?m)"
      using i len by (intro length_filter_less[of "ack_info ?m ! i"]) simp_all
    then have "card (dom (tracker ?m)) < TCP_ACK_NUM" using card len by simp
    moreover have "fresh_tracker K (max_drop_cnt m) ws msg ?t"
      using fresh_slot_flow[of K "max_drop_cnt m" ws msg "ack_info ?m ! i"]
      by (simp add: fresh_tracker_def fresh_slot_def)
    ultimately show ?thesis using send_spec.new[where T="tracker ?m", OF chk(2) t] m' tr by simp
  qed
qed

end
