(* ===== verification/TcpAckProps.thy ===== *)
theory TcpAckProps
  imports TcpAckFlow
begin

text \<open>
  The transmit path with each call run to its end (\<^verbatim>\<open>rwnx_start_xmit\<close> up to the free of the
  message, the timer handler with the head of \<^verbatim>\<open>intf_tx\<close>), and the properties of the
  acknowledgement filter.
\<close>

section \<open>Calls that run to their end\<close>

text \<open>\<^verbatim>\<open>rwnx_start_xmit\<close>: result 0 means that the frame goes on to the hardware queues.\<close>

definition xmit_tcp :: "'j kenv \<Rightarrow> mbuf \<Rightarrow> bytes \<Rightarrow> tcp_ack_msg \<Rightarrow> 'j tcp_ack_manage \<Rightarrow>
    (int \<times> 'j tcp_ack_manage \<times> mbuf option) option" where
  "xmit_tcp K b buf stk m =
     (if length buf \<le> MAX_TCP_ACK then do {
        (r, m', d) \<leftarrow> filter_send_tcp_ack K b buf stk m;
        if r \<noteq> 0 then Some (r, m', d) else Some (r, move_tcpack_msg b m', d) }
      else Some (0, m, None))"

text \<open>The timer of a slot expires and \<^verbatim>\<open>intf_tx\<close> takes the message it is handed.\<close>

definition timer_tcp :: "nat \<Rightarrow> 'j tcp_ack_manage \<Rightarrow> ('j tcp_ack_manage \<times> mbuf option) option" where
  "timer_tcp i m = do {
     (m', out) \<leftarrow> tcp_timer_fire (i, False) m;
     Some (case out of None \<Rightarrow> m' | Some b \<Rightarrow> move_tcpack_msg b m', out) }"

text \<open>
  The states reached when no call is interrupted by another one. A slot may only age while it
  holds nothing: slots age after four seconds without a frame and hold a message for 5 ms.
\<close>

definition prompt :: "'j kenv \<Rightarrow> 'j tcp_ack_manage \<Rightarrow> bool" where
  "prompt K m \<longleftrightarrow> list_all (\<lambda>a. aged K a \<longrightarrow> msgbuf a = None) (ack_info m)"

inductive seq_reach :: "'j tcp_ack_manage \<Rightarrow> bool" where
  init: "seq_reach (tcp_ack_init K)"
| xmit: "seq_reach m \<Longrightarrow> prompt K m \<Longrightarrow> xmit_tcp K b buf stk m = Some (r, m', d) \<Longrightarrow> seq_reach m'"
| fire: "seq_reach m \<Longrightarrow> timer_tcp i m = Some (m', out) \<Longrightarrow> seq_reach m'"
| receive: "seq_reach m \<Longrightarrow> filter_rx_tcp_ack buf plen stk m = Some m' \<Longrightarrow> seq_reach m'"
| stop: "seq_reach m \<Longrightarrow> tcp_ack_deinit m = (m', fr) \<Longrightarrow> seq_reach m'"

text \<open>
  Between two calls no slot has a message on its way, and a slot that holds one is busy, has
  its timer pending and belongs to an enabled filter.
\<close>

definition quiet_slot :: "bool \<Rightarrow> 'j tcp_ack_info \<Rightarrow> bool" where
  "quiet_slot en a \<longleftrightarrow> in_send_msg a = None \<and> (msgbuf a = None \<or> (busy a \<and> timer a \<noteq> None \<and> en))"

definition quiet :: "'j tcp_ack_manage \<Rightarrow> bool" where
  "quiet m \<longleftrightarrow> (\<forall>a \<in> set (ack_info m). quiet_slot (enable m) a)"

lemma quietD: "quiet m \<Longrightarrow> i < length (ack_info m) \<Longrightarrow> quiet_slot (enable m) (ack_info m ! i)"
  by (simp add: quiet_def)

lemma quiet_upd:
  "quiet m \<Longrightarrow> quiet_slot (enable m) (f (ack_info m ! i)) \<Longrightarrow> quiet (upd_info i f m)"
  by (auto simp: quiet_def upd_info_def dest!: set_update_subsetD)

lemma quiet_clear_sent: "quiet_slot en a \<Longrightarrow> quiet_slot en (clear_sent b a)"
  by (simp add: quiet_slot_def clear_sent_def)

lemma move_enable [simp]: "enable (move_tcpack_msg b m) = enable m"
  by (simp add: move_tcpack_msg_def)

lemma quiet_move: "quiet m \<Longrightarrow> quiet (move_tcpack_msg b m)"
  by (cases "enable m") (auto simp: quiet_def move_clear_sent quiet_clear_sent)

lemma quiet_age:
  "quiet_slot en a \<Longrightarrow> aged K a \<longrightarrow> msgbuf a = None \<Longrightarrow> quiet_slot en (age K a)"
  by (auto simp: quiet_slot_def)

lemma quiet_update:
  assumes "quiet m" "prompt K m" "length (ack_info m) = TCP_ACK_NUM"
  shows "quiet (tcp_ack_update K m)"
  using assms by (auto simp: quiet_def prompt_def list_all_iff update_infos quiet_age)

text \<open>A message that is handed over for transmission and finished leaves the slot quiet.\<close>

lemma quiet_send_finish:
  assumes q: "quiet m" and en: "enable m"
    and a: "busy a" "in_send_msg a = Some b" "msgbuf a = None"
  shows "quiet (move_tcpack_msg b (upd_info i (\<lambda>_. a) m))"
  unfolding quiet_def
proof
  fix x assume "x \<in> set (ack_info (move_tcpack_msg b (upd_info i (\<lambda>_. a) m)))"
  then obtain y where x: "x = clear_sent b y" and y: "y \<in> set ((ack_info m)[i := a])"
    using en by (auto simp: move_clear_sent upd_info_def)
  from set_update_subsetD[OF y]
  show "quiet_slot (enable (move_tcpack_msg b (upd_info i (\<lambda>_. a) m))) x"
  proof
    assume "y = a"
    with a x show ?thesis by (simp add: quiet_slot_def clear_sent_def)
  next
    assume "y \<in> set (ack_info m)"
    with q have "quiet_slot (enable m) y" by (simp add: quiet_def)
    then show ?thesis unfolding x by (simp add: quiet_clear_sent)
  qed
qed

lemma quiet_xmit:
  assumes ok: "slots_ok m" and q: "quiet m" and pr: "prompt K m"
    and x: "xmit_tcp K b buf stk m = Some (r, m', d)"
  shows "slots_ok m' \<and> quiet m'"
proof (cases "length buf \<le> MAX_TCP_ACK")
  case True
  with x obtain m1 where fs: "filter_send_tcp_ack K b buf stk m = Some (r, m1, d)"
    and m': "m' = (if r \<noteq> 0 then m1 else move_tcpack_msg b m1)"
    by (auto simp: xmit_tcp_def bind_eq_Some_conv split: if_splits)
  let ?m = "tcp_ack_update K m"
  have ok1: "slots_ok m1" using fs ok by (rule filter_send_slots_ok)
  have len: "length (ack_info ?m) = TCP_ACK_NUM" using ok by (intro slots_okD update_slots_ok)
  have q1: "quiet ?m" using q pr slots_okD(1)[OF ok] by (rule quiet_update)
  have simple: "quiet m1 \<Longrightarrow> quiet m'" unfolding m' by (simp add: quiet_move)
  from fs ok have "quiet m'"
  proof (cases rule: filter_send_cases)
    case (track i ws msg drp a)
    note qs = quietD[OF q1, of i, unfolded len, OF track(1)]
    have en: "enable ?m" using track(2) by simp
    have bs: "busy (ack_info ?m ! i)" using track(3) by (simp add: msg_match_def)
    from track(4) show ?thesis
    proof (cases rule: handle_new_cases)
      case send
      with bs show ?thesis unfolding m' track(5)
        by (simp only: refl not_True_eq_False if_False) (rule quiet_send_finish[OF q1 en]; simp)
    next
      case old
      with qs show ?thesis unfolding track(5)[symmetric]
        by (intro simple) (simp only: track(5), rule quiet_upd[OF q1], simp add: quiet_slot_def)
    next
      case hold
      with qs bs en show ?thesis
        by (intro simple) (simp only: track(5), rule quiet_upd[OF q1], simp add: quiet_slot_def)
    qed
  next
    case (scale i ws)
    note qs = quietD[OF q1, of i, unfolded len, OF scale(1)]
    then show ?thesis
      by (intro simple) (simp only: scale(4), rule quiet_upd[OF q1], simp add: quiet_slot_def)
  next
    case (fresh i ws msg)
    note qs = quietD[OF q1, of i, unfolded len, OF fresh(1)]
    have "quiet (upd_info i (fresh_slot K (max_drop_cnt m) ws msg) ?m)"
      by (rule quiet_upd[OF q1]) (use qs fresh(4) in \<open>auto simp: quiet_slot_def fresh_slot_def\<close>)
    then have "quiet m1" unfolding fresh(6) upd_info_counters by (simp add: quiet_def)
    then show ?thesis by (rule simple)
  qed (use q1 simple in simp)
  with ok1 m' show ?thesis by (simp add: move_slots_ok)
qed (use x ok q in \<open>simp add: xmit_tcp_def\<close>)

lemma timer_tcp_Some:
  assumes "timer_tcp i m = Some (m', out)"
  obtains "i < TCP_ACK_NUM" "timer (ack_info m ! i) \<noteq> None"
    "tcp_ack_timeout i (upd_info i (\<lambda>a. a\<lparr>timer := None\<rparr>) m) = (m', None)" "out = None"
  | m1 b where "i < TCP_ACK_NUM" "timer (ack_info m ! i) \<noteq> None"
    "tcp_ack_timeout i (upd_info i (\<lambda>a. a\<lparr>timer := None\<rparr>) m) = (m1, Some b)" "out = Some b"
    "m' = move_tcpack_msg b m1"
proof -
  from assms obtain m1 where t: "tcp_timer_fire (i, False) m = Some (m1, out)"
    and m': "m' = (case out of None \<Rightarrow> m1 | Some b \<Rightarrow> move_tcpack_msg b m1)"
    by (auto simp: timer_tcp_def bind_eq_Some_conv)
  then have i: "i < TCP_ACK_NUM" "timer (ack_info m ! i) \<noteq> None"
    "tcp_ack_timeout i (upd_info i (\<lambda>a. a\<lparr>timer := None\<rparr>) m) = (m1, out)"
    by (auto simp: tcp_timer_fire_def split: if_splits)
  show thesis
  proof (cases out)
    case None
    with i m' show thesis by (intro that(1)) simp_all
  next
    case (Some b)
    with i m' show thesis by (intro that(2)) simp_all
  qed
qed

lemma quiet_fire:
  assumes ok: "slots_ok m" and q: "quiet m" and f: "timer_tcp i m = Some (m', out)"
  shows "slots_ok m' \<and> quiet m' \<and> out = msgbuf (ack_info m ! i) \<and> msgbuf (ack_info m' ! i) = None"
proof -
  let ?f = "\<lambda>a. a\<lparr>timer := None, msgbuf := None, drop_cnt := 0, in_send_msg := msgbuf a\<rparr>"
  let ?m0 = "upd_info i (\<lambda>a. a\<lparr>timer := None\<rparr>) m"
  from f have i: "i < TCP_ACK_NUM" by (cases rule: timer_tcp_Some)
  then have len: "i < length (ack_info m)" using ok by (simp add: slots_okD)
  have s0: "ack_info ?m0 ! i = (ack_info m ! i)\<lparr>timer := None\<rparr>" using len by (simp add: upd_info_nth)
  note qs = quietD[OF q len]
  have ok0: "slots_ok ?m0" using ok i by (rule slots_ok_clear_timer)
  note okt = timeout_slots_ok[OF ok0 i]
  show ?thesis
  proof (cases "msgbuf (ack_info m ! i)")
    case None
    then have t: "tcp_ack_timeout i ?m0 = (?m0, None)" by (simp add: tcp_ack_timeout_def s0)
    from f have "m' = ?m0" "out = None" by (cases rule: timer_tcp_Some; simp add: t)+
    moreover have "quiet ?m0" by (rule quiet_upd[OF q]) (use qs None in \<open>simp add: quiet_slot_def\<close>)
    ultimately show ?thesis using ok0 None s0 by simp
  next
    case (Some b)
    with qs have b: "busy (ack_info m ! i)" "enable m" "in_send_msg (ack_info m ! i) = None"
      by (auto simp: quiet_slot_def)
    let ?a = "(ack_info m ! i)\<lparr>timer := None, msgbuf := None, drop_cnt := 0, in_send_msg := Some b\<rparr>"
    have t: "tcp_ack_timeout i ?m0 = (upd_info i (\<lambda>_. ?a) m, Some b)"
      using b Some len by (simp add: tcp_ack_timeout_def s0) (simp add: upd_info_def)
    from f have m': "m' = move_tcpack_msg b (upd_info i (\<lambda>_. ?a) m)" "out = Some b"
      by (cases rule: timer_tcp_Some; simp add: t)+
    have "quiet m'" unfolding m' by (rule quiet_send_finish[OF q b(2)]) (use b in simp_all)
    moreover have "msgbuf (ack_info m' ! i) = None"
      unfolding m' using len b(2) by (simp add: move_clear_sent upd_info_nth)
    ultimately show ?thesis using okt t m' Some by (simp add: move_slots_ok)
  qed
qed

lemma quiet_rx:
  assumes "slots_ok m" "quiet m" "filter_rx_tcp_ack buf plen stk m = Some m'"
  shows "slots_ok m' \<and> quiet m'"
proof -
  have "quiet (upd_info (nat (tcp_ack_match m msg)) (\<lambda>a. a\<lparr>psh_flag := True, psh_seq := s\<rparr>) m)"
    if "tcp_ack_match m msg \<ge> 0" for msg s
    using quietD[OF assms(2)] match_range[OF that]
    by (intro quiet_upd[OF assms(2)]) (simp add: quiet_slot_def)
  with assms filter_rx_slots_ok[OF assms(3,1)] show ?thesis
    by (auto simp: filter_rx_tcp_ack_def Let_def bind_eq_Some_conv split: if_splits)
qed

lemma fold_deinit_msgs:
  assumes "distinct js" and "\<forall>i\<in>set js. i < length (ack_info m)"
  shows "ack_info (fst (fold deinit_info js (m, fr))) ! j =
    (if j \<in> set js then (ack_info m ! j)\<lparr>timer := None, msgbuf := None\<rparr> else ack_info m ! j) \<and>
    enable (fst (fold deinit_info js (m, fr))) = enable m \<and>
    length (ack_info (fst (fold deinit_info js (m, fr)))) = length (ack_info m)"
  using assms
  by (induction js arbitrary: m fr) (auto simp: deinit_info_pair upd_info_nth simp del: fold_simps(1))

lemma quiet_deinit:
  assumes "slots_ok m" "quiet m"
  shows "quiet (fst (tcp_ack_deinit m))"
proof -
  have len: "length (ack_info m) = TCP_ACK_NUM" using assms(1) by (rule slots_okD)
  note d = fold_deinit_msgs[of "[0..<TCP_ACK_NUM]" "m\<lparr>enable := False\<rparr>" "[]"]
  have "quiet_slot False (ack_info (fst (tcp_ack_deinit m)) ! j)" if "j < TCP_ACK_NUM" for j
    using d[of j] that len quietD[OF assms(2), of j] by (simp add: tcp_ack_deinit_def quiet_slot_def)
  then show ?thesis
    using d len by (auto simp: quiet_def in_set_conv_nth tcp_ack_deinit_def)
qed

lemma seq_reach_quiet: "seq_reach m \<Longrightarrow> slots_ok m \<and> quiet m"
proof (induction rule: seq_reach.induct)
  case (init K)
  show ?case
    by (simp add: init_slots_ok) (simp add: quiet_def quiet_slot_def tcp_ack_init_def)
next
  case (stop m m' fr)
  then show ?case using quiet_deinit[of m] deinit_slots_ok[of m] by simp
qed (use quiet_xmit quiet_fire quiet_rx in blast)+

section \<open>A stream of acknowledgements of one flow\<close>

type_synonym 'j ack_xmit = "'j kenv \<times> mbuf \<times> bytes \<times> tcp_ack_msg"

fun xmit_all :: "'j ack_xmit list \<Rightarrow> 'j tcp_ack_manage \<Rightarrow> (int list \<times> 'j tcp_ack_manage) option" where
  "xmit_all [] m = Some ([], m)"
| "xmit_all ((K, b, buf, stk) # fs) m = do {
     (r, m', d) \<leftarrow> xmit_tcp K b buf stk m;
     (rs, m'') \<leftarrow> xmit_all fs m';
     Some (r # rs, m'') }"

text \<open>
  Frames that are acknowledgements of the flow without a window scale option, short enough to
  be looked at, with acknowledgement numbers that do not go back from \<open>s\<close>, sent before the
  next sweep of the slot table is due.
\<close>

fun ack_stream :: "flow \<Rightarrow> u32 \<Rightarrow> 'j tcp_ack_manage \<Rightarrow> 'j ack_xmit list \<Rightarrow> bool" where
  "ack_stream f s m0 [] = True"
| "ack_stream f s m0 ((K, b, buf, stk) # fs) =
     (length buf \<le> MAX_TCP_ACK \<and>
      \<not> time_after K (jiffies K) (time_add K (m_last_time m0) (m_timeout m0)) \<and>
      (case tcp_check_ack buf stk 0 of None \<Rightarrow> False
       | Some (drp, msg, ws) \<Rightarrow> drp > 0 \<and> ws = 0 \<and> msg_flow msg = f \<and>
           U32_BEFORE s (am_seq msg) \<and> ack_stream f (am_seq msg) m0 fs))"

text \<open>The tracker of a flow that waits for the next acknowledgement.\<close>

definition streaming :: "'j tcp_ack_manage \<Rightarrow> flow \<Rightarrow> u32 \<Rightarrow> int \<Rightarrow> mbuf option \<Rightarrow> bool" where
  "streaming m f s c hb \<longleftrightarrow> slots_ok m \<and> enable m \<and>
     (case tracker m f of None \<Rightarrow> False
      | Some a \<Rightarrow> in_send_msg a = None \<and> \<not> psh_flag a \<and> drop_cnt a = c \<and>
          am_seq (ack_msg a) = s \<and> msgbuf a = hb)"

lemma upd_info_timeout [simp]: "m_timeout (upd_info i f m) = m_timeout m"
  by (simp add: upd_info_def)

lemma move_fields [simp]:
  "m_last_time (move_tcpack_msg b m) = m_last_time m" "m_timeout (move_tcpack_msg b m) = m_timeout m"
  "max_drop_cnt (move_tcpack_msg b m) = max_drop_cnt m"
  by (simp_all add: move_tcpack_msg_def)

lemma ack_stream_cong:
  "m_last_time m = m_last_time m' \<Longrightarrow> m_timeout m = m_timeout m' \<Longrightarrow>
   ack_stream f s m fs = ack_stream f s m' fs"
proof (induction fs arbitrary: s)
  case (Cons x fs)
  then show ?case by (cases x) (auto split: option.split)
qed simp

lemma streamingI:
  assumes "slots_ok m" "enable m" "i < TCP_ACK_NUM" "ack_info m ! i = a" "busy a" "slot_flow a = f"
    and "in_send_msg a = None" "\<not> psh_flag a" "drop_cnt a = c" "am_seq (ack_msg a) = s" "msgbuf a = hb"
  shows "streaming m f s c hb"
proof -
  have "tracker m f = Some a" unfolding tracker_Some_iff[OF assms(1)] using assms by blast
  with assms show ?thesis by (simp add: streaming_def)
qed

lemma stream_step:
  assumes st: "streaming m f s c hb" and fr: "ack_stream f s m ((K, b, buf, stk) # fs)"
  shows "\<exists>r m' d s'. xmit_tcp K b buf stk m = Some (r, m', d) \<and>
     r = (if c + 1 \<ge> max_drop_cnt m then 0 else 1) \<and>
     streaming m' f s' (if r = 0 then 0 else c + 1) (if r = 0 then None else Some b) \<and>
     max_drop_cnt m' = max_drop_cnt m \<and> ack_stream f s' m' fs"
proof -
  from fr obtain drp msg where chk: "tcp_check_ack buf stk 0 = Some (drp, msg, 0)" "drp > 0"
    and fl: "msg_flow msg = f" and sq: "U32_BEFORE s (am_seq msg)"
    and rest: "ack_stream f (am_seq msg) m fs" and len: "length buf \<le> MAX_TCP_ACK"
    and nosweep: "\<not> time_after K (jiffies K) (time_add K (m_last_time m) (m_timeout m))"
    by (auto split: option.splits)
  from st obtain a where ok: "slots_ok m" and en: "enable m" and tr: "tracker m f = Some a"
    and a: "in_send_msg a = None" "\<not> psh_flag a" "drop_cnt a = c" "am_seq (ack_msg a) = s"
    by (auto simp: streaming_def split: option.splits)
  from tr obtain i where i: "i < TCP_ACK_NUM" "ack_info m ! i = a" "busy a" "slot_flow a = f"
    unfolding tracker_Some_iff[OF ok] by blast
  have ilen: "i < length (ack_info m)" using ok i(1) by (simp add: slots_okD)
  have same: "tcp_ack_update K m = m" using nosweep by (simp add: tcp_ack_update_def)
  have mt: "msg_match msg (ack_info (tcp_ack_update K m) ! i)"
    using i fl by (simp add: same msg_match_iff)
  have sc: "set_scale 0 a = a" by (simp add: set_scale_def)
  obtain r a' d where h: "tcp_ack_handle_new K (max_drop_cnt m) b a msg drp = (r, a', d)"
    by (cases "tcp_ack_handle_new K (max_drop_cnt m) b a msg drp") auto
  let ?m1 = "upd_info i (\<lambda>_. a') m"
  let ?m2 = "if r = 0 then move_tcpack_msg b ?m1 else ?m1"
  have fs: "filter_send_tcp_ack K b buf stk m = Some (r, ?m1, d)"
    using filter_send_tracked[OF ok i(1) chk mt, of b] en i(2) h by (simp add: same sc)
  have x: "xmit_tcp K b buf stk m = Some (r, ?m2, d)" using fs len by (simp add: xmit_tcp_def)
  have ok2: "slots_ok ?m2" using filter_send_slots_ok[OF fs ok] by (simp add: move_slots_ok)
  have s2: "ack_info ?m2 ! i = (if r = 0 then clear_sent b a' else a')"
    using ilen en by (simp add: upd_info_nth move_clear_sent)
  note k = handle_new_keeps[OF h]
  from h have "r = (if c + 1 \<ge> max_drop_cnt m then 0 else 1) \<and>
    streaming ?m2 f (am_seq msg) (if r = 0 then 0 else c + 1) (if r = 0 then None else Some b)"
  proof (cases rule: handle_new_cases)
    case old
    with sq a show ?thesis by simp
  next
    case send
    then have due: "c + 1 \<ge> max_drop_cnt m" using a by (auto simp: quick_due_def)
    have "streaming ?m2 f (am_seq msg) 0 None"
      by (rule streamingI[OF ok2 _ i(1) s2]) (use send i en a in \<open>simp_all add: clear_sent_def slot_flow_def msg_flow_def\<close>)
    with send due show ?thesis by simp
  next
    case hold
    have "streaming ?m2 f (am_seq msg) (c + 1) (Some b)"
      by (rule streamingI[OF ok2 _ i(1) s2]) (use hold i en a in \<open>simp_all add: slot_flow_def msg_flow_def\<close>)
    with hold a show ?thesis by simp
  qed
  moreover have "max_drop_cnt ?m2 = max_drop_cnt m" by simp
  moreover have "ack_stream f (am_seq msg) ?m2 fs"
    using rest ack_stream_cong[of m ?m2 f "am_seq msg" fs] by simp
  ultimately show ?thesis using x by blast
qed

lemma stream_count_step:
  fixes c n D :: int
  assumes "0 \<le> c" "c < D" "0 \<le> n"
  shows "(c + (1 + n)) div D = (if c + 1 \<ge> D then 1 + (0 + n) div D else (c + 1 + n) div D)"
    and "(c + (1 + n)) mod D = (if c + 1 \<ge> D then (0 + n) mod D else (c + 1 + n) mod D)"
proof -
  have D: "D \<noteq> 0" using assms by simp
  have e: "c + (1 + n) = D + n" if "c + 1 \<ge> D" using assms that by simp
  have "(c + (1 + n)) div D = 1 + n div D" "(c + (1 + n)) mod D = n mod D" if "c + 1 \<ge> D"
    unfolding e[OF that] using D by (simp_all add: div_add_self1 add.commute[of 1])
  moreover have "c + (1 + n) = c + 1 + n" by simp
  ultimately show "(c + (1 + n)) div D = (if c + 1 \<ge> D then 1 + (0 + n) div D else (c + 1 + n) div D)"
    "(c + (1 + n)) mod D = (if c + 1 \<ge> D then (0 + n) mod D else (c + 1 + n) mod D)"
    by (simp_all only: add_0 split: if_split) blast+
qed

text \<open>Results of a stream: how many go on, the counter left, and where the newest one is.\<close>

lemma stream_run:
  assumes "streaming m f s c hb" and "ack_stream f s m fs" and "0 \<le> c" and "c < max_drop_cnt m"
  shows "\<exists>rs m' s'. xmit_all fs m = Some (rs, m') \<and> length rs = length fs \<and>
     int (length (filter (\<lambda>r. r = 0) rs)) = (c + int (length fs)) div max_drop_cnt m \<and>
     streaming m' f s' ((c + int (length fs)) mod max_drop_cnt m)
       (if fs = [] then hb else if last rs = 0 then None else Some (fst (snd (last fs))))"
  using assms
proof (induction fs arbitrary: m s c hb)
  case Nil
  then show ?case by auto
next
  case (Cons x fs)
  obtain K b buf stk where x: "x = (K, b, buf, stk)" by (cases x)
  let ?D = "max_drop_cnt m"
  from stream_step[OF Cons.prems(1), of K b buf stk fs] Cons.prems(2) obtain r m1 d s1 where
    t: "xmit_tcp K b buf stk m = Some (r, m1, d)" and r: "r = (if c + 1 \<ge> ?D then 0 else 1)"
    and st: "streaming m1 f s1 (if r = 0 then 0 else c + 1) (if r = 0 then None else Some b)"
    and D: "max_drop_cnt m1 = ?D" and fr: "ack_stream f s1 m1 fs"
    unfolding x by blast
  let ?c = "if r = 0 then 0 else c + 1"
  have c: "0 \<le> ?c" "?c < max_drop_cnt m1" using Cons.prems(3,4) r D by auto
  from Cons.IH[OF st fr c] obtain rs m' s' where
    all: "xmit_all fs m1 = Some (rs, m')" "length rs = length fs"
      "int (length (filter (\<lambda>r. r = 0) rs)) = (?c + int (length fs)) div ?D"
      "streaming m' f s' ((?c + int (length fs)) mod ?D)
        (if fs = [] then if r = 0 then None else Some b
         else if last rs = 0 then None else Some (fst (snd (last fs))))"
    unfolding D by blast
  note cnt = stream_count_step[OF Cons.prems(3,4), of "int (length fs)"]
  have e: "c + int (length (x # fs)) = c + (1 + int (length fs))" by simp
  have 1: "int (length (filter (\<lambda>r. r = 0) (r # rs))) = (c + int (length (x # fs))) div ?D"
    unfolding e using all(3) cnt(1) r by simp
  have 2: "(?c + int (length fs)) mod ?D = (c + int (length (x # fs))) mod ?D"
    unfolding e using cnt(2) r by simp
  have "rs = [] \<longleftrightarrow> fs = []" using all(2) by auto
  then have 3: "(if fs = [] then if r = 0 then None else Some b
      else if last rs = 0 then None else Some (fst (snd (last fs)))) =
    (if x # fs = [] then hb else if last (r # rs) = 0 then None else Some (fst (snd (last (x # fs)))))"
    by (simp add: x)
  have "xmit_all (x # fs) m = Some (r # rs, m')" using t all(1) by (simp add: x)
  with 1 all(2) all(4)[unfolded 2 3] show ?case by (metis length_Cons)
qed

section \<open>Concrete environment\<close>

definition demo_env :: "int \<Rightarrow> int kenv" where
  "demo_env t = \<lparr>jiffies = t, time_after = (\<lambda>a b. b < a), time_add = (+), msecs_to_jiffies = int\<rparr>"

text \<open>
  The filter after the first acknowledgement of a flow, which sets up the tracker, and after a
  second one, which goes on.
\<close>

definition demo_first :: "int tcp_ack_manage" where
  "demo_first = fst (snd (the (xmit_tcp (demo_env 0) 0 (sample_frame []) zero_msg (tcp_ack_init (demo_env 0)))))"

definition demo_state :: "int tcp_ack_manage" where
  "demo_state = fst (snd (the (xmit_tcp (demo_env 1) 1 (sample_frame []) zero_msg demo_first)))"

text \<open>The same with a third one, which is held.\<close>

definition demo_held :: "int tcp_ack_manage" where
  "demo_held = fst (snd (the (xmit_tcp (demo_env 2) 2 (sample_frame []) zero_msg demo_state)))"

lemma xmit_reach:
  assumes "seq_reach m" and "prompt K m" and "xmit_tcp K b buf stk m \<noteq> None"
  shows "seq_reach (fst (snd (the (xmit_tcp K b buf stk m))))"
proof -
  from assms(3) obtain r m' d where x: "xmit_tcp K b buf stk m = Some (r, m', d)" by auto
  from seq_reach.xmit[OF assms(1,2) x] x show ?thesis by simp
qed

lemma demo_first_reach: "seq_reach demo_first"
proof -
  have "prompt (demo_env 0) (tcp_ack_init (demo_env 0))"
    "xmit_tcp (demo_env 0) 0 (sample_frame []) zero_msg (tcp_ack_init (demo_env 0)) \<noteq> None"
    by code_simp+
  from xmit_reach[OF seq_reach.init this] show ?thesis unfolding demo_first_def .
qed

lemma demo_state_reach: "seq_reach demo_state"
proof -
  have "prompt (demo_env 1) demo_first" "xmit_tcp (demo_env 1) 1 (sample_frame []) zero_msg demo_first \<noteq> None"
    by code_simp+
  from xmit_reach[OF demo_first_reach this] show ?thesis unfolding demo_state_def .
qed

lemma demo_held_reach: "seq_reach demo_held"
proof -
  have "prompt (demo_env 2) demo_state" "xmit_tcp (demo_env 2) 2 (sample_frame []) zero_msg demo_state \<noteq> None"
    by code_simp+
  from xmit_reach[OF demo_state_reach this] show ?thesis unfolding demo_held_def .
qed

section \<open>Properties of the filter\<close>

text \<open>
  C5: Whatever frames are sent and received, timers expire (late handlers included), messages
  finish and the filter is torn down, in any interleaving of these calls from the initial
  state: every message buffer allocated so far is in exactly one of the places held by a slot,
  on its way, freed. So no message is lost and none is freed twice or used after its free, and
  the slot table stays well formed (busy slots counted, at most one slot per flow).
\<close>

theorem ack_messages_conserved:
  assumes "ack_run es (tx_start (tcp_ack_init K)) = Some S"
  shows "slots_ok (filt S) \<and>
    slots_held (filt S) + mset (in_flight S) + mset (gone S) = mset [0..<next_buf S] \<and>
    distinct (in_flight S @ gone S) \<and>
    (\<forall>b \<in># slots_held (filt S). b \<notin> set (in_flight S) \<and> b \<notin> set (gone S))"
  using ack_run_facts[OF assms] ackf.accounted_distinct by (auto simp only: accounted_def)

lemma ack_messages_conserved_witness:
  "(case ack_run [Xmit (demo_env 0, sample_frame [], zero_msg), Finish 0,
      Xmit (demo_env 1, sample_frame [], zero_msg), Xmit (demo_env 1, sample_frame [], zero_msg),
      Fire (0, False), Finish 1, Xmit (demo_env 2, sample_frame [], zero_msg), Fire (0, False)]
      (tx_start (tcp_ack_init (demo_env 0))) of None \<Rightarrow> False
    | Some S \<Rightarrow> distinct (in_flight S @ gone S) \<and> in_flight S = [3] \<and> gone S = [2, 1, 0])"
proof -
  let ?es = "[Xmit (demo_env 0, sample_frame [], zero_msg), Finish 0,
      Xmit (demo_env 1, sample_frame [], zero_msg), Xmit (demo_env 1, sample_frame [], zero_msg),
      Fire (0, False), Finish 1, Xmit (demo_env 2, sample_frame [], zero_msg), Fire (0, False)]"
  have run: "map_option (\<lambda>S. (in_flight S, gone S)) (ack_run ?es (tx_start (tcp_ack_init (demo_env 0))))
      = Some ([3], [2, 1, 0])"
    by code_simp
  then obtain S where S: "ack_run ?es (tx_start (tcp_ack_init (demo_env 0))) = Some S"
    "in_flight S = [3]" "gone S = [2, 1, 0]" by auto
  from ack_messages_conserved[OF S(1)] S show ?thesis by simp
qed

text \<open>
  C9: \<^verbatim>\<open>filter_send_tcp_ack\<close> implements its specification on the map from flows to trackers.
  After the aged trackers are gone: a frame that is no acknowledgement changes nothing; an
  acknowledgement of a tracked flow is decided by \<^verbatim>\<open>tcp_ack_handle_new\<close> on that flow's tracker;
  one of an unknown flow sets up a fresh tracker while fewer than 32 flows are tracked and is
  let through otherwise. No other flow is touched.
\<close>

theorem filter_send_refines:
  assumes "slots_ok m" and "tcp_check_ack buf stk 0 = Some (drp, msg, ws)"
    and "filter_send_tcp_ack K b buf stk m = Some (r, m', d)"
  shows "send_spec K (max_drop_cnt m) (enable m) b (drp, msg, ws)
    (tracker (tcp_ack_update K m)) r (tracker m') d"
proof (cases "drp > 0")
  case True
  then show ?thesis
    using send_spec_tracked[OF assms(1,2) True] send_spec_untracked[OF assms(1,2) True] assms(3)
    by (cases "tracker (tcp_ack_update K m) (msg_flow msg)") blast+
next
  case False
  with tcp_check_ack_class[OF assms(2)] have drp: "drp = 0" by auto
  with filter_send_not_ack[of buf stk msg ws K b m] assms(2,3)
  have "r = 0" "m' = tcp_ack_update K m" "d = None" by auto
  then show ?thesis unfolding drp by (simp add: send_spec.not_ack)
qed

lemma filter_send_refines_witness:
  "\<exists>r m' d. filter_send_tcp_ack (demo_env 0) 7 (sample_frame []) zero_msg (tcp_ack_init (demo_env 0))
      = Some (r, m', d) \<and>
    send_spec (demo_env 0) 10 True 7 (the (tcp_check_ack (sample_frame []) zero_msg 0))
      (tracker (tcp_ack_update (demo_env 0) (tcp_ack_init (demo_env 0)))) r (tracker m') d"
proof -
  let ?m = "tcp_ack_init (demo_env 0)"
  have "filter_send_tcp_ack (demo_env 0) 7 (sample_frame []) zero_msg ?m \<noteq> None" by code_simp
  then obtain r m' d where f:
    "filter_send_tcp_ack (demo_env 0) 7 (sample_frame []) zero_msg ?m = Some (r, m', d)" by auto
  have "tcp_check_ack (sample_frame []) zero_msg 0 \<noteq> None" by code_simp
  then obtain drp msg ws where c: "tcp_check_ack (sample_frame []) zero_msg 0 = Some (drp, msg, ws)"
    by auto
  have e: "max_drop_cnt ?m = 10" "enable ?m = True" by code_simp+
  from filter_send_refines[OF init_slots_ok c f] show ?thesis unfolding e by (simp add: f c)
qed

text \<open>
  \<^verbatim>\<open>filter_rx_tcp_ack\<close> on the flow map: a received segment that pushes data marks the
  tracker of the reverse flow with the sequence number to acknowledge at once; every other
  frame, a flow that is not tracked, a long frame and a disabled filter change nothing.
\<close>

theorem filter_rx_refines:
  assumes ok: "slots_ok m" and rx: "filter_rx_tcp_ack buf plen stk m = Some m'"
  shows "tracker m' =
    (if enable m \<and> plen \<le> MAX_TCP_ACK then
       (case tcp_check_quick_ack buf stk of
          Some (ret, msg) \<Rightarrow>
            (case tracker m (msg_flow msg) of
               Some a \<Rightarrow> if ret = 1
                 then (tracker m)(msg_flow msg \<mapsto> a\<lparr>psh_flag := True, psh_seq := am_seq msg\<rparr>) else tracker m
             | None \<Rightarrow> tracker m)
        | None \<Rightarrow> tracker m)
     else tracker m)"
proof (cases "enable m \<and> plen \<le> MAX_TCP_ACK")
  case en: True
  obtain ret msg where q: "tcp_check_quick_ack buf stk = Some (ret, msg)"
    using rx en by (auto simp: filter_rx_tcp_ack_def bind_eq_Some_conv)
  then have ret: "ret = 0 \<or> ret = 1"
    unfolding tcp_check_quick_ack_def Let_def
    by (auto simp only: bind_eq_Some_conv option.inject prod.inject split: if_splits)
  let ?i = "nat (tcp_ack_match m msg)"
  show ?thesis
  proof (cases "ret = 1 \<and> tcp_ack_match m msg \<ge> 0")
    case True
    then have m': "m' = upd_info ?i (\<lambda>a. a\<lparr>psh_flag := True, psh_seq := am_seq msg\<rparr>) m"
      using rx en q by (simp add: filter_rx_tcp_ack_def Let_def)
    have mt: "msg_match msg (ack_info m ! ?i)" "?i < TCP_ACK_NUM"
      using match_range[of m msg] slots_okD(1)[OF ok] True by simp_all
    then have f: "busy (ack_info m ! ?i)" "slot_flow (ack_info m ! ?i) = msg_flow msg"
      by (simp_all add: msg_match_iff)
    moreover have "tracker m (msg_flow msg) = Some (ack_info m ! ?i)"
      unfolding tracker_Some_iff[OF ok] using f mt(2) by blast
    moreover have "tracker m' = (tracker m)(msg_flow msg \<mapsto>
        (ack_info m ! ?i)\<lparr>psh_flag := True, psh_seq := am_seq msg\<rparr>)"
      unfolding m' f(2)[symmetric] using tracker_upd[OF ok mt(2) f(1)] f
      by (simp add: slot_flow_def)
    ultimately show ?thesis using en q True by simp
  next
    case False
    then have "m' = m" using rx en q ret by (auto simp: filter_rx_tcp_ack_def Let_def split: if_splits)
    moreover have "tracker m (msg_flow msg) = None" if "ret = 1"
      using False that tracker_None_iff[OF ok] match_neg_iff[of m msg] by simp
    ultimately show ?thesis using en q by (auto split: option.split)
  qed
qed (use rx in \<open>auto simp: filter_rx_tcp_ack_def split: if_splits\<close>)

text \<open>A segment of the peer of \<open>sample_frame\<close> that acknowledges and pushes.\<close>

definition demo_push :: bytes where
  "demo_push = replicate 12 0 @ [8, 0] @
     [0x45, 0, 0, 40, 0, 0, 0, 0, 64, 6, 0, 0, 10, 0, 0, 2, 10, 0, 0, 1] @
     [4, 0, 0, 80, 0, 0, 0, 9, 0, 0, 0, 1, 0x50, 0x18, 1, 0, 0, 0, 0, 0]"

lemma filter_rx_refines_witness:
  "\<exists>m' msg. filter_rx_tcp_ack demo_push 54 zero_msg demo_state = Some m' \<and>
     map_option psh_seq (tracker m' (msg_flow msg)) = Some 9"
proof -
  define msg where "msg = zero_msg\<lparr>am_saddr := 0x0100000a, am_daddr := 0x0200000a, am_source := 0x5000,
    am_dest := 4, am_seq := 9\<rparr>"
  have r: "filter_rx_tcp_ack demo_push 54 zero_msg demo_state \<noteq> None"
    "tracker demo_state (msg_flow msg) \<noteq> None" "enable demo_state"
    "tcp_check_quick_ack demo_push zero_msg = Some (1, msg)" "54 \<le> MAX_TCP_ACK" "am_seq msg = 9"
    unfolding msg_def by code_simp+
  then obtain m' a where m': "filter_rx_tcp_ack demo_push 54 zero_msg demo_state = Some m'"
    "tracker demo_state (msg_flow msg) = Some a" by auto
  have "slots_ok demo_state" using seq_reach_quiet[OF demo_state_reach] by simp
  from filter_rx_refines[OF this m'(1)] r m' show ?thesis by (intro exI[of _ m'] exI[of _ msg]) simp
qed

text \<open>
  Of the acknowledgements of one flow that are sent one after the other without a timer in
  between, one in \<open>max_drop_cnt\<close> goes on to the hardware: with the tracker's counter at \<open>c\<close>,
  exactly \<open>(c + n) div max_drop_cnt\<close> of \<open>n\<close>. The others were overtaken by a newer one, and the
  newest is never lost: it has either gone on or is the one the tracker holds.
\<close>

theorem ack_stream_share:
  assumes "streaming m f s c hb" and "ack_stream f s m fs" and "0 \<le> c" and "c < max_drop_cnt m"
  shows "\<exists>rs m' s'. xmit_all fs m = Some (rs, m') \<and> length rs = length fs \<and>
     int (length (filter (\<lambda>r. r = 0) rs)) = (c + int (length fs)) div max_drop_cnt m \<and>
     streaming m' f s' ((c + int (length fs)) mod max_drop_cnt m)
       (if fs = [] then hb else if last rs = 0 then None else Some (fst (snd (last fs))))"
  using assms by (rule stream_run)

lemma ack_stream_share_witness:
  "\<exists>rs m'. xmit_all [(demo_env 2, 2, sample_frame [], zero_msg), (demo_env 2, 3, sample_frame [], zero_msg)]
     demo_state = Some (rs, m') \<and> length (filter (\<lambda>r. r = 0) rs) = 0 \<and> length rs = 2"
proof -
  let ?f = "msg_flow (frame_msg (sample_frame []) 5)"
  let ?fs = "[(demo_env 2, 2, sample_frame [], zero_msg), (demo_env 2, 3, sample_frame [], zero_msg)]"
  have "enable demo_state \<and> (case tracker demo_state ?f of None \<Rightarrow> False
      | Some a \<Rightarrow> in_send_msg a = None \<and> \<not> psh_flag a \<and> drop_cnt a = 0 \<and> am_seq (ack_msg a) = 1 \<and> msgbuf a = None)"
    by code_simp
  then have "streaming demo_state ?f 1 0 None"
    using seq_reach_quiet[OF demo_state_reach] by (simp add: streaming_def)
  moreover have "ack_stream ?f 1 demo_state ?fs" by code_simp
  moreover have D: "max_drop_cnt demo_state = 10" by code_simp
  ultimately show ?thesis using ack_stream_share[of demo_state ?f 1 0 None ?fs] by auto
qed

text \<open>
  C28: In every state reached by calls that are not interrupted, a message held by a slot has
  its timer pending, and when that timer expires the message is handed to the transmit path
  and the slot is ready for the next one: no acknowledgement stays behind.
\<close>

theorem held_ack_is_sent:
  assumes "seq_reach m" and "i < TCP_ACK_NUM" and "msgbuf (ack_info m ! i) = Some b"
  shows "timer (ack_info m ! i) \<noteq> None \<and> busy (ack_info m ! i) \<and>
    (\<exists>m'. timer_tcp i m = Some (m', Some b) \<and> seq_reach m' \<and>
       msgbuf (ack_info m' ! i) = None \<and> in_send_msg (ack_info m' ! i) = None)"
proof -
  from seq_reach_quiet[OF assms(1)] have ok: "slots_ok m" and q: "quiet m" by simp_all
  have len: "length (ack_info m) = TCP_ACK_NUM" using ok by (rule slots_okD)
  have t: "timer (ack_info m ! i) \<noteq> None" "busy (ack_info m ! i)"
    using quietD[OF q, of i] assms(2,3) len by (auto simp: quiet_slot_def)
  then obtain m' out where f: "timer_tcp i m = Some (m', out)"
    using assms(2) by (cases "tcp_ack_timeout i (upd_info i (\<lambda>a. a\<lparr>timer := None\<rparr>) m)")
      (auto simp: timer_tcp_def tcp_timer_fire_def)
  have r: "seq_reach m'" by (rule seq_reach.fire[OF assms(1) f])
  then have "in_send_msg (ack_info m' ! i) = None"
    using seq_reach_quiet[OF r] quietD[of m' i] slots_okD(1)[of m'] assms(2)
    by (simp add: quiet_slot_def)
  with quiet_fire[OF ok q f] assms(3) t f r show ?thesis by auto
qed

lemma held_ack_is_sent_witness:
  "\<exists>m'. timer_tcp 0 demo_held = Some (m', Some 2) \<and> msgbuf (ack_info m' ! 0) = None"
proof -
  have "msgbuf (ack_info demo_held ! 0) = Some 2" "0 < TCP_ACK_NUM" by code_simp+
  with held_ack_is_sent[OF demo_held_reach] show ?thesis by blast
qed

text \<open>
  While a slot remembers a message on its way, nothing of its flow leaves without a push
  from the peer: the timer hands over nothing, leaves the held message without a timer, and
  every acknowledgement that does not answer a push is held or dropped. Only
  \<^verbatim>\<open>move_tcpack_msg\<close> for exactly that message, on a busy slot of an enabled filter, ends this.
\<close>

theorem in_flight_blocks:
  assumes i: "i < length (ack_info m)" and x: "in_send_msg (ack_info m ! i) = Some x"
  shows "snd (tcp_ack_timeout i m) = None \<and>
    (\<forall>m' out. tcp_timer_fire (i, False) m = Some (m', out) \<longrightarrow>
      out = None \<and> ack_info m' ! i = (ack_info m ! i)\<lparr>timer := None\<rparr>) \<and>
    (\<forall>K dmax b msg ty r a d. \<not> quick_due (ack_info m ! i) msg \<longrightarrow>
      tcp_ack_handle_new K dmax b (ack_info m ! i) msg ty = (r, a, d) \<longrightarrow>
      r = 1 \<and> in_send_msg a = Some x) \<and>
    (\<forall>y. in_send_msg (ack_info (move_tcpack_msg y m) ! i) = None \<longleftrightarrow>
      enable m \<and> busy (ack_info m ! i) \<and> y = x)"
proof (intro conjI allI)
  show "snd (tcp_ack_timeout i m) = None" by (simp add: tcp_ack_timeout_def x)
  show "tcp_timer_fire (i, False) m = Some (m', out) \<longrightarrow>
      out = None \<and> ack_info m' ! i = (ack_info m ! i)\<lparr>timer := None\<rparr>" for m' out
    using assms by (auto simp: tcp_timer_fire_def tcp_ack_timeout_def upd_info_nth split: if_splits)
  show "\<not> quick_due (ack_info m ! i) msg \<longrightarrow>
      tcp_ack_handle_new K dmax b (ack_info m ! i) msg ty = (r, a, d) \<longrightarrow>
      r = 1 \<and> in_send_msg a = Some x" for K dmax b msg ty r a d
  proof (intro impI)
    assume h: "\<not> quick_due (ack_info m ! i) msg"
      "tcp_ack_handle_new K dmax b (ack_info m ! i) msg ty = (r, a, d)"
    from h(2) show "r = 1 \<and> in_send_msg a = Some x"
      by (cases rule: handle_new_cases) (use h(1) x in auto)
  qed
  show "in_send_msg (ack_info (move_tcpack_msg y m) ! i) = None \<longleftrightarrow>
      enable m \<and> busy (ack_info m ! i) \<and> y = x" for y
    using assms by (auto simp: move_clear_sent clear_sent_def)
qed

lemma in_flight_blocks_witness:
  "snd (tcp_ack_timeout 0 (upd_info 0 (\<lambda>a. a\<lparr>busy := True, msgbuf := Some 1, in_send_msg := Some 0\<rparr>)
     (tcp_ack_init (demo_env 0)))) = None"
proof -
  let ?m = "upd_info 0 (\<lambda>a. a\<lparr>busy := True, msgbuf := Some 1, in_send_msg := Some (0 :: nat)\<rparr>)
     (tcp_ack_init (demo_env 0))"
  have "0 < length (ack_info ?m)" "in_send_msg (ack_info ?m ! 0) = Some 0" by code_simp+
  from in_flight_blocks[OF this] show ?thesis by blast
qed

text \<open>
  The function that is called, \<^verbatim>\<open>tcp_ack_handle_new\<close>, treats every acknowledgement the way
  \<^verbatim>\<open>tcp_ack_handle\<close> treats one that can be dropped: it does not look at the type. An
  acknowledgement of type 2 ("with more info"), which \<^verbatim>\<open>tcp_ack_handle\<close> lets through, is
  counted, held and dropped like any other.
\<close>

theorem handle_new_ignores_type:
  "tcp_ack_handle_new K dmax b a msg ty = tcp_ack_handle K dmax b a msg 1"
  by (simp add: tcp_ack_handle_new_def tcp_ack_handle_def)

end
