(* ===== verification/RxAmsdu.thy ===== *)
theory RxAmsdu
  imports Prelude
begin

text \<open>
  Splitting an aggregate of MSDUs (\<^verbatim>\<open>rwnx_rxdata_process_amsdu\<close> in \<^verbatim>\<open>rwnx_rx.c\<close>): the loop
  on the bytes of the aggregate with its allocations, and the encoding it has to invert.
\<close>

section \<open>The loop\<close>

text \<open>
  \<open>Amsdu subs leaked\<close>: the loop ended with these frames on the caller's list; \<open>leaked\<close> when a
  frame was allocated and neither queued nor freed. \<open>AmsduFault\<close>: a \<^verbatim>\<open>memcpy\<close> with a negative
  length. \<open>AmsduNoFuel\<close>: the loop is still running after the given number of rounds.
\<close>

datatype amsdu_res = Amsdu "bytes list" bool | AmsduFault | AmsduNoFuel

definition roundup :: "nat \<Rightarrow> nat \<Rightarrow> nat" where
  "roundup x y = ((x + (y - 1)) div y) * y"

text \<open>The kernel's \<^verbatim>\<open>skb_pull\<close>: a length beyond the end of the data leaves the buffer alone.\<close>

definition skb_pull :: "bytes \<Rightarrow> nat \<Rightarrow> bytes" where
  "skb_pull d n = (if n > length d then d else drop n d)"

definition sub_len :: "bytes \<Rightarrow> nat" where
  "sub_len d = unat (be16 (d ! 12) (d ! 13))"

definition sub_frame :: "bytes \<Rightarrow> bytes" where
  "sub_frame d = take 6 d @ take 6 (drop 6 d) @ take (sub_len d - 6) (drop 20 d)"

fun amsdu_add :: "bytes \<Rightarrow> amsdu_res \<Rightarrow> amsdu_res" where
  "amsdu_add x (Amsdu subs leaked) = Amsdu (x # subs) leaked"
| "amsdu_add x r = r"

text \<open>
  One round per unit of fuel. \<open>alloc k\<close> tells whether the \<open>k\<close>-th allocation succeeds, \<open>vif_up\<close>
  whether the interface is still there.
\<close>

fun amsdu_walk :: "nat \<Rightarrow> nat \<Rightarrow> (nat \<Rightarrow> bool) \<Rightarrow> bool \<Rightarrow> bytes \<Rightarrow> amsdu_res" where
  "amsdu_walk 0 k alloc vif_up d = AmsduNoFuel"
| "amsdu_walk (Suc fuel) k alloc vif_up d =
     (if \<not> length d > 16 then Amsdu [] False
      else if \<not> (length d > sub_len d + 14 \<or> length d = sub_len d + 14) then Amsdu [] False
      else let len_alligned = (if length d > sub_len d + 14
                 then unat (of_nat (roundup (sub_len d + 14) 4) :: u16)
                 else unat (of_nat (sub_len d + 14) :: u16))
      in if \<not> alloc k then Amsdu [] False
      else if sub_len d < 6 then AmsduFault
      else if \<not> vif_up then Amsdu [] True
      else amsdu_add (sub_frame d)
             (amsdu_walk fuel (Suc k) alloc vif_up (skb_pull d len_alligned)))"

definition rwnx_rxdata_process_amsdu :: "nat \<Rightarrow> (nat \<Rightarrow> bool) \<Rightarrow> bool \<Rightarrow> bytes \<Rightarrow> amsdu_res" where
  "rwnx_rxdata_process_amsdu fuel alloc vif_up d = amsdu_walk fuel 0 alloc vif_up d"

section \<open>The format\<close>

text \<open>
  A subframe: addresses, a length, six bytes of LLC/SNAP header, then the EtherType and the
  payload. All but the last one are padded to a multiple of four bytes.
\<close>

record msdu =
  ms_da :: bytes
  ms_sa :: bytes
  ms_snap :: bytes
  ms_body :: bytes

definition msdu_ok :: "msdu \<Rightarrow> bool" where
  "msdu_ok m \<longleftrightarrow> length (ms_da m) = 6 \<and> length (ms_sa m) = 6 \<and> length (ms_snap m) = 6 \<and>
     length (ms_body m) \<le> 2304"

definition msdu_hdr :: "msdu \<Rightarrow> bytes" where
  "msdu_hdr m = (let n = 6 + length (ms_body m) in
     ms_da m @ ms_sa m @ [of_nat (n div 256), of_nat (n mod 256)] @ ms_snap m @ ms_body m)"

definition msdu_pad :: "nat \<Rightarrow> bytes" where
  "msdu_pad n = replicate (roundup n 4 - n) 0"

fun amsdu_encode :: "msdu list \<Rightarrow> bytes" where
  "amsdu_encode [] = []"
| "amsdu_encode [m] = msdu_hdr m"
| "amsdu_encode (m # ms) = msdu_hdr m @ msdu_pad (length (msdu_hdr m)) @ amsdu_encode ms"

text \<open>The Ethernet frame that is handed up.\<close>

definition eth_frame :: "msdu \<Rightarrow> bytes" where
  "eth_frame m = ms_da m @ ms_sa m @ ms_body m"

section \<open>Lemmas\<close>

lemma roundup_4: "roundup n 4 \<ge> n" "roundup n 4 < n + 4" "roundup n 4 \<le> m \<longleftrightarrow> (n + 3) div 4 \<le> m div 4"
  by (auto simp: roundup_def; presburger)+

lemma msdu_hdr_length: "msdu_ok m \<Longrightarrow> length (msdu_hdr m) = 20 + length (ms_body m)"
  by (simp add: msdu_hdr_def msdu_ok_def Let_def)

lemma be16_split:
  "n < 65536 \<Longrightarrow> unat (be16 (of_nat (n div 256)) (of_nat (n mod 256))) = n"
  by (simp add: unat_be16 unat_of_nat take_bit_eq_mod)

lemma roundup_multiple: "roundup n 4 - n < 4" "n \<le> roundup n 4"
  using roundup_4[of n] by auto

lemma msdu_hdr_nth:
  assumes "msdu_ok m"
  shows "sub_len (msdu_hdr m @ rest) = 6 + length (ms_body m)"
    "sub_frame (msdu_hdr m @ rest) = eth_frame m"
proof -
  let ?n = "6 + length (ms_body m)"
  have n: "?n < 65536" using assms by (simp add: msdu_ok_def)
  have l: "length (ms_da m) = 6" "length (ms_sa m) = 6" "length (ms_snap m) = 6"
    using assms by (simp_all add: msdu_ok_def)
  have "sub_len (msdu_hdr m @ rest) = unat (be16 (of_nat (?n div 256)) (of_nat (?n mod 256)))"
    using l by (simp add: sub_len_def msdu_hdr_def Let_def nth_append)
  then show sl: "sub_len (msdu_hdr m @ rest) = ?n" using be16_split[OF n] by simp
  have "drop 20 (msdu_hdr m @ rest) = ms_body m @ rest" "take 6 (msdu_hdr m @ rest) = ms_da m"
    "take 6 (drop 6 (msdu_hdr m @ rest)) = ms_sa m"
    using l by (simp_all add: msdu_hdr_def Let_def)
  then show "sub_frame (msdu_hdr m @ rest) = eth_frame m"
    unfolding sub_frame_def sl eth_frame_def by simp
qed

lemma walk_one:
  assumes "msdu_ok m" and "alloc k" and "length tail \<noteq> 0 \<longrightarrow> roundup (length (msdu_hdr m)) 4 \<le> length (msdu_hdr m) + length tail"
  shows "amsdu_walk (Suc fuel) k alloc True (msdu_hdr m @ tail) =
    amsdu_add (eth_frame m) (amsdu_walk fuel (Suc k) alloc True
      (drop (roundup (length (msdu_hdr m)) 4 - length (msdu_hdr m)) tail))"
proof -
  let ?d = "msdu_hdr m @ tail" and ?n = "length (msdu_hdr m)"
  have n: "?n = 20 + length (ms_body m)" "?n \<le> 2324"
    using assms(1) by (simp_all add: msdu_hdr_length msdu_ok_def)
  have sl: "sub_len ?d = 6 + length (ms_body m)" "sub_frame ?d = eth_frame m"
    using assms(1) by (rule msdu_hdr_nth)+
  have s14: "sub_len ?d + 14 = ?n" using sl n by simp
  have len: "length ?d = ?n + length tail" by simp
  have r: "unat (of_nat (roundup ?n 4) :: u16) = roundup ?n 4" "unat (of_nat ?n :: u16) = ?n"
    using roundup_4(2)[of ?n] n(2) by (simp_all add: unat_of_nat take_bit_eq_mod)
  define l where "l = (if length ?d > sub_len ?d + 14 then unat (of_nat (roundup (sub_len ?d + 14) 4) :: u16)
    else unat (of_nat (sub_len ?d + 14) :: u16))"
  have "skb_pull ?d l = drop (roundup ?n 4 - ?n) tail"
  proof (cases "tail = []")
    case True
    then show ?thesis unfolding l_def s14 r by (simp add: skb_pull_def)
  next
    case False
    then have "l = roundup ?n 4" unfolding l_def s14 r by simp
    moreover have "roundup ?n 4 \<le> length ?d" using assms(3) False len by simp
    ultimately show ?thesis using roundup_multiple(2)[of ?n] by (simp add: skb_pull_def)
  qed
  moreover have "amsdu_walk (Suc fuel) k alloc True ?d =
      amsdu_add (sub_frame ?d) (amsdu_walk fuel (Suc k) alloc True (skb_pull ?d l))"
    unfolding l_def using assms(2) n sl(1) len by (simp only: amsdu_walk.simps Let_def) simp
  ultimately show ?thesis by (simp only: sl(2))
qed

lemma amsdu_encode_length:
  "list_all msdu_ok ms \<Longrightarrow> ms \<noteq> [] \<Longrightarrow> 20 \<le> length (amsdu_encode ms)"
  by (induction ms rule: amsdu_encode.induct) (auto simp: msdu_hdr_length)

lemma walk_encode:
  assumes "list_all msdu_ok ms" and "\<forall>k. alloc k" and "length ms < fuel"
  shows "amsdu_walk fuel k alloc True (amsdu_encode ms) = Amsdu (map eth_frame ms) False"
  using assms(1,3)
proof (induction ms arbitrary: k fuel rule: amsdu_encode.induct)
  case 1
  then show ?case by (cases fuel) simp_all
next
  case (2 m)
  then obtain f where f: "fuel = Suc (Suc f)" by (cases fuel; cases "fuel - 1") auto
  have "amsdu_walk (Suc (Suc f)) k alloc True (msdu_hdr m @ []) =
      amsdu_add (eth_frame m) (amsdu_walk (Suc f) (Suc k) alloc True (drop (roundup (length (msdu_hdr m)) 4 - length (msdu_hdr m)) []))"
    by (rule walk_one) (use 2 assms(2) in simp_all)
  then show ?case by (simp add: f)
next
  case (3 m m2 ms)
  let ?n = "length (msdu_hdr m)" and ?tail = "amsdu_encode (m2 # ms)"
  from 3 obtain f where f: "fuel = Suc f" "length (m2 # ms) < f" by (cases fuel) auto
  have "amsdu_walk (Suc f) k alloc True (msdu_hdr m @ (msdu_pad ?n @ ?tail)) =
      amsdu_add (eth_frame m) (amsdu_walk f (Suc k) alloc True (drop (roundup ?n 4 - ?n) (msdu_pad ?n @ ?tail)))"
    by (rule walk_one) (use 3 assms(2) roundup_multiple(2)[of ?n] in \<open>simp_all add: msdu_pad_def\<close>)
  also have "drop (roundup ?n 4 - ?n) (msdu_pad ?n @ ?tail) = ?tail"
    by (simp add: msdu_pad_def)
  also have "amsdu_walk f (Suc k) alloc True ?tail = Amsdu (map eth_frame (m2 # ms)) False"
    by (rule "3.IH") (use 3 f in simp_all)
  finally show ?case by (simp add: f)
qed

lemma walk_stuck:
  assumes "length d > 16" and "6 \<le> sub_len d" and "sub_len d + 14 < length d"
    and "length d < roundup (sub_len d + 14) 4" and "length d < 65000" and "\<forall>k. alloc k"
  shows "amsdu_walk fuel k alloc True d = AmsduNoFuel"
proof (induction fuel arbitrary: k)
  case (Suc fuel)
  have r: "unat (of_nat (roundup (sub_len d + 14) 4) :: u16) = roundup (sub_len d + 14) 4"
    using roundup_4(2)[of "sub_len d + 14"] assms(3,5) by (simp add: unat_of_nat take_bit_eq_mod)
  have "skb_pull d (roundup (sub_len d + 14) 4) = d" using assms(4) by (simp add: skb_pull_def)
  with assms Suc r show ?case by (simp add: Let_def)
qed simp

section \<open>Properties of the split\<close>

text \<open>
  C29: Splitting inverts the encoding. For every aggregate of well formed subframes, padded as
  the standard says, \<^verbatim>\<open>rwnx_rxdata_process_amsdu\<close> ends, queues exactly one Ethernet frame per
  subframe, in order, with the addresses of the subframe and its payload without the LLC/SNAP
  header, and leaks nothing, as long as allocations succeed and the interface exists.
\<close>

theorem amsdu_roundtrip:
  assumes "list_all msdu_ok ms" and "\<forall>k. alloc k" and "length ms < fuel"
  shows "rwnx_rxdata_process_amsdu fuel alloc True (amsdu_encode ms) = Amsdu (map eth_frame ms) False"
  unfolding rwnx_rxdata_process_amsdu_def using assms by (rule walk_encode)

definition demo_msdu :: "u8 \<Rightarrow> bytes \<Rightarrow> msdu" where
  "demo_msdu x body = \<lparr>ms_da = replicate 6 x, ms_sa = replicate 6 1, ms_snap = [0xaa, 0xaa, 3, 0, 0, 0],
     ms_body = body\<rparr>"

lemma amsdu_roundtrip_witness:
  "rwnx_rxdata_process_amsdu 3 (\<lambda>_. True) True (amsdu_encode [demo_msdu 2 [8, 0, 1], demo_msdu 4 [8, 0, 7]])
    = Amsdu [eth_frame (demo_msdu 2 [8, 0, 1]), eth_frame (demo_msdu 4 [8, 0, 7])] False"
  using amsdu_roundtrip[of "[demo_msdu 2 [8, 0, 1], demo_msdu 4 [8, 0, 7]]" "\<lambda>_. True" 3]
  by (simp add: msdu_ok_def demo_msdu_def)

text \<open>
  An aggregate whose last subframe is followed by padding that stops short of the next
  multiple of four is never finished: \<^verbatim>\<open>skb_pull\<close> refuses to go beyond the end of the data, so
  every round finds the same subframe again and allocates another copy of it, for as long as
  allocations succeed.
\<close>

theorem amsdu_short_padding_loops:
  assumes "length d > 16" and "6 \<le> sub_len d" and "sub_len d + 14 < length d"
    and "length d < roundup (sub_len d + 14) 4" and "length d < 65000"
  shows "rwnx_rxdata_process_amsdu fuel (\<lambda>_. True) True d = AmsduNoFuel"
  unfolding rwnx_rxdata_process_amsdu_def using assms by (intro walk_stuck) simp_all

lemma amsdu_short_padding_loops_witness:
  "\<forall>fuel. rwnx_rxdata_process_amsdu fuel (\<lambda>_. True) True (msdu_hdr (demo_msdu 2 [8]) @ [0]) = AmsduNoFuel"
proof -
  have "length (msdu_hdr (demo_msdu 2 [8]) @ [0]) > 16 \<and> 6 \<le> sub_len (msdu_hdr (demo_msdu 2 [8]) @ [0]) \<and>
    sub_len (msdu_hdr (demo_msdu 2 [8]) @ [0]) + 14 < length (msdu_hdr (demo_msdu 2 [8]) @ [0]) \<and>
    length (msdu_hdr (demo_msdu 2 [8]) @ [0]) < roundup (sub_len (msdu_hdr (demo_msdu 2 [8]) @ [0]) + 14) 4"
    by code_simp
  moreover have "length (msdu_hdr (demo_msdu 2 [8]) @ [0]) < 65000"
    by (simp add: msdu_hdr_def demo_msdu_def Let_def)
  ultimately show ?thesis using amsdu_short_padding_loops by blast
qed

text \<open>
  A subframe whose length field is below six, the size of the LLC/SNAP bytes that are cut
  off, makes the copy length negative: the first such subframe of a received aggregate ends in
  a memory fault, whatever the rest of the frame is.
\<close>

theorem amsdu_short_subframe_faults:
  assumes "length d > 16" and "sub_len d < 6" and "sub_len d + 14 \<le> length d"
    and "alloc 0" and "0 < fuel"
  shows "rwnx_rxdata_process_amsdu fuel alloc vif_up d = AmsduFault"
  using assms by (cases fuel) (simp_all add: rwnx_rxdata_process_amsdu_def Let_def)

lemma amsdu_short_subframe_faults_witness:
  "rwnx_rxdata_process_amsdu 1 (\<lambda>_. True) True (replicate 20 0) = AmsduFault"
proof -
  have "sub_len (replicate 20 0) < 6" "length (replicate 20 (0 :: u8)) > 16"
    "sub_len (replicate 20 0) + 14 \<le> length (replicate 20 (0 :: u8))" by code_simp+
  then show ?thesis by (intro amsdu_short_subframe_faults) simp_all
qed

end
