(* ===== verification/SeqNum.thy ===== *)
theory SeqNum
  imports Prelude
begin

text \<open>
  The 12-bit sequence numbers of the receive path (\<^verbatim>\<open>SN_LESS\<close>, \<^verbatim>\<open>SN_EQUAL\<close> in
  \<^verbatim>\<open>aicwf_txrxif.h\<close>): the comparison on \<^verbatim>\<open>u16\<close> words and its meaning on the unbounded numbers
  the frames would carry if the field did not wrap.
\<close>

section \<open>The macros\<close>

definition SN_LESS :: "u16 \<Rightarrow> u16 \<Rightarrow> bool" where
  "SN_LESS a b \<longleftrightarrow> (a - b) AND 0x800 \<noteq> 0"

definition SN_EQUAL :: "u16 \<Rightarrow> u16 \<Rightarrow> bool" where
  "SN_EQUAL a b \<longleftrightarrow> a = b"

section \<open>Unwrapped sequence numbers\<close>

definition sn :: "int \<Rightarrow> u16" where
  "sn x = word_of_int (x mod 4096)"

lemma uint_sn: "uint (sn x) = x mod 4096"
proof -
  have "0 \<le> x mod 4096" "x mod 4096 < 4096" by simp_all
  then have "x mod 4096 mod 2 ^ 16 = x mod 4096" by (intro mod_pos_pos_trivial) simp_all
  then show ?thesis by (simp add: sn_def uint_word_of_int)
qed

lemma sn_eq_iff: "sn x = sn y \<longleftrightarrow> x mod 4096 = y mod 4096"
  by (metis uint_sn sn_def)

lemma mod_4096_close:
  fixes x y :: int
  assumes "\<bar>x - y\<bar> < 4096"
  shows "x mod 4096 = y mod 4096 \<longleftrightarrow> x = y"
proof
  assume "x mod 4096 = y mod 4096"
  then have "4096 dvd (x - y)" by (simp add: mod_eq_dvd_iff)
  then obtain k where k: "x - y = 4096 * k" by (auto simp: dvd_def)
  with assms have "k = 0" by (cases "k = 0") (auto simp: abs_mult)
  with k show "x = y" by simp
qed simp

lemma sn_eq_close: "\<bar>x - y\<bar> < 4096 \<Longrightarrow> sn x = sn y \<longleftrightarrow> x = y"
  by (simp add: sn_eq_iff mod_4096_close)

lemma sn_unat: "uint w < 4096 \<Longrightarrow> sn (uint w) = w"
  by (simp add: sn_def)

lemma bit_11_mod: "bit (x :: int) 11 \<longleftrightarrow> 2048 \<le> x mod 4096"
proof -
  have "bit x 11 \<longleftrightarrow> odd (x div 2048)" by (simp add: bit_iff_odd)
  moreover have "x mod 4096 = x mod 2048 + 2048 * (x div 2048 mod 2)"
    using mod_mult2_eq'[of x 2048 2] zmod_zmult2_eq[of 2 x 2048] by (simp add: ac_simps)
  moreover have "0 \<le> x mod 2048" "x mod 2048 < 2048" by simp_all
  ultimately show ?thesis by (auto simp: odd_iff_mod_2_eq_one)
qed

lemma and_800_iff: "(w :: u16) AND 0x800 \<noteq> 0 \<longleftrightarrow> bit w 11"
proof -
  have e: "(0x800 :: u16) = push_bit 11 1" by simp
  have b: "bit (0x800 :: u16) n \<longleftrightarrow> n = 11" for n
    unfolding e by (simp only: bit_push_bit_iff bit_1_iff possible_bit_def len_bit0) auto
  have "w AND 0x800 = (if bit w 11 then 0x800 else 0)"
    by (rule bit_word_eqI) (auto simp: bit_and_iff b simp del: bit_numeral_word_iff)
  then show ?thesis by simp
qed

lemma SN_LESS_sn: "SN_LESS (sn x) (sn y) \<longleftrightarrow> 2048 \<le> (x - y) mod 4096"
proof -
  have "bit (sn x - sn y) 11 \<longleftrightarrow> bit (uint (sn x - sn y)) 11"
    by (simp add: bit_uint_iff)
  also have "uint (sn x - sn y) = (x mod 4096 - y mod 4096) mod 2 ^ 16"
    by (simp add: uint_word_ariths uint_sn take_bit_eq_mod)
  also have "bit ((x mod 4096 - y mod 4096) mod 2 ^ 16) 11 \<longleftrightarrow>
      2048 \<le> (x mod 4096 - y mod 4096) mod 2 ^ 16 mod 4096"
    by (rule bit_11_mod)
  also have "(x mod 4096 - y mod 4096) mod 2 ^ 16 mod 4096 = (x mod 4096 - y mod 4096) mod 4096"
    by (rule mod_mod_cancel) simp
  also have "\<dots> = (x - y) mod 4096" by (simp add: mod_diff_eq)
  finally show ?thesis by (simp add: SN_LESS_def and_800_iff)
qed

text \<open>Less than half of the number space apart, the comparison is the one of the numbers.\<close>

lemma SN_LESS_close:
  assumes "- 2048 \<le> x - y" and "x - y < 2048"
  shows "SN_LESS (sn x) (sn y) \<longleftrightarrow> x < y"
proof (cases "x < y")
  case True
  have "(x - y) mod 4096 = (x - y + 4096) mod 4096" by simp
  also have "\<dots> = x - y + 4096" using assms True by (intro mod_pos_pos_trivial) simp_all
  finally show ?thesis using True assms by (simp add: SN_LESS_sn)
next
  case False
  then have "(x - y) mod 4096 = x - y" using assms by (intro mod_pos_pos_trivial) simp_all
  then show ?thesis using False assms by (simp add: SN_LESS_sn)
qed

section \<open>Arithmetic of the driver on sequence numbers\<close>

lemma and_fff: "(w :: u16) AND 0xFFF = word_of_int (uint w mod 4096)"
proof -
  have "(0xFFF :: u16) = mask 12" by (simp add: mask_eq_exp_minus_1)
  then have "w AND 0xFFF = take_bit 12 w" by (simp only: take_bit_eq_mask)
  moreover have "uint (take_bit 12 w) = uint w mod 4096"
    by (simp only: unsigned_take_bit_eq) (simp add: take_bit_eq_mod)
  ultimately show ?thesis by (metis word_of_int_uint)
qed

lemma and_fff_sn: "w AND 0xFFF = sn (uint w)"
  by (simp add: and_fff sn_def)

lemma sn_add:
  assumes "0 \<le> k" "k < 60000"
  shows "(sn x + word_of_int k) AND 0xFFF = sn (x + k)"
proof -
  have b: "0 \<le> x mod 4096" "x mod 4096 < 4096" by simp_all
  have "uint (sn x + word_of_int k) = (x mod 4096 + k) mod 2 ^ 16"
    using assms by (simp add: uint_word_ariths uint_sn uint_word_of_int take_bit_eq_mod)
  also have "\<dots> = x mod 4096 + k" using assms b by (intro mod_pos_pos_trivial) simp_all
  finally have "uint (sn x + word_of_int k) mod 4096 = (x + k) mod 4096"
    by (simp add: mod_add_left_eq)
  then show ?thesis by (simp add: and_fff_sn sn_eq_iff)
qed

lemma sn_Suc: "(sn x + 1) AND 0xFFF = sn (x + 1)"
  using sn_add[of 1 x] by simp

end
