(* ===== verification/RxReorder.thy ===== *)
theory RxReorder
  imports SeqNum RxAmsdu
begin

text \<open>
  The receive reordering buffer (\<^verbatim>\<open>rwnx_rx.c\<close>, \<^verbatim>\<open>reord_*\<close>): its state, with the pool of frame
  descriptors and one buffer per station and traffic identifier, and all its operations. A
  \<^verbatim>\<open>struct sk_buff\<close> is its identity and its bytes. What happens to it is logged: handed to the
  network stack (as it is, or as one of the frames of an aggregate), or freed. \<open>None\<close> is a
  memory fault or a loop that does not end.
\<close>

section \<open>State\<close>

record skb =
  skb_id :: nat
  skb_data :: bytes

record recv_msdu =
  frame_id :: nat
  pkt :: "skb option"
  rf_tid :: u8
  forward :: bool
  seq_num :: u16
  is_amsdu :: bool
  is_ap_reord :: bool
  ap_fwd_cnt :: u8
  ap_resend_cnt :: u8
  rx_data :: bytes
  fwd_skbs :: "skb list"
  resend_skbs :: "skb list"

record reord_ctrl =
  rc_enable :: bool
  ind_sn :: u16
  wsize_b :: u8
  reord_list :: "recv_msdu list"
  reord_timer :: bool
  reord_timer_work :: bool

record reord_ctrl_info =
  mac_addr :: bytes
  preorder_ctrl :: "reord_ctrl list"

datatype rx_out = Netif skb | NetifSub bytes | Freed skb

record rx_priv =
  rxframes_freequeue :: "recv_msdu list"
  stas_reord_list :: "reord_ctrl_info list"
  rx_log :: "rx_out list"
  rx_packets :: u32
  rx_bytes :: u32

datatype iftype = STATION | P2P_CLIENT | AP_MODE | P2P_GO | OTHER_MODE

text \<open>
  The environment of a call: the mode of the interface, the state of the bus, which
  allocations succeed, whether the interface of an aggregate exists, the rounds granted to the
  aggregate loop, and the byte that lies behind a frame of 42 bytes or less.
\<close>

record rx_env =
  ev_iftype :: iftype
  ev_bus_down :: bool
  ev_kmalloc_ok :: bool
  ev_vif_up :: bool
  ev_sub_alloc :: "nat \<Rightarrow> bool"
  ev_rounds :: nat
  ev_beyond :: u8

definition AICWF_REORDER_WINSIZE :: u8 where "AICWF_REORDER_WINSIZE = 64"
definition ETH_P_PAE :: u16 where "ETH_P_PAE = 0x888E"

section \<open>The pool of frame descriptors\<close>

definition reord_rxframe_free :: "recv_msdu \<Rightarrow> rx_priv \<Rightarrow> rx_priv" where
  "reord_rxframe_free f P = P\<lparr>rxframes_freequeue := f # rxframes_freequeue P\<rparr>"

definition reord_rxframe_alloc :: "rx_priv \<Rightarrow> recv_msdu option \<times> rx_priv" where
  "reord_rxframe_alloc P = (case rxframes_freequeue P of [] \<Rightarrow> (None, P)
     | f # fs \<Rightarrow> (Some f, P\<lparr>rxframes_freequeue := fs\<rparr>))"

section \<open>Indicating one frame\<close>

fun netif_len :: "rx_out \<Rightarrow> nat option" where
  "netif_len (Netif s) = Some (length (skb_data s))"
| "netif_len (NetifSub d) = Some (length d)"
| "netif_len (Freed s) = None"

definition rx_account :: "rx_out list \<Rightarrow> rx_priv \<Rightarrow> rx_priv" where
  "rx_account outs P = (let lens = List.map_filter netif_len outs in
     P\<lparr>rx_log := rx_log P @ outs, rx_packets := rx_packets P + of_nat (length lens),
       rx_bytes := rx_bytes P + of_nat (sum_list lens)\<rparr>)"

definition frame_outs :: "rx_env \<Rightarrow> recv_msdu \<Rightarrow> skb \<Rightarrow> rx_out list option" where
  "frame_outs E f skb =
     (if is_ap_reord f then
        (if ap_resend_cnt f \<noteq> 0 then
           (if ap_fwd_cnt f = 0 then Some (map Freed (resend_skbs f))
            else Some (map Freed (resend_skbs f) @ map Netif (fwd_skbs f)))
         else Some (map Netif (fwd_skbs f)))
      else if \<not> forward f then Some [Freed skb]
      else if is_amsdu f then
        (case rwnx_rxdata_process_amsdu (ev_rounds E) (ev_sub_alloc E) (ev_vif_up E) (skb_data skb) of
           Amsdu subs leaked \<Rightarrow> Some (Freed skb # map NetifSub subs)
         | _ \<Rightarrow> None)
      else Some [Netif skb])"

definition reord_single_frame_ind :: "rx_env \<Rightarrow> recv_msdu \<Rightarrow> rx_priv \<Rightarrow> (int \<times> rx_priv) option" where
  "reord_single_frame_ind E f P =
     (case pkt f of None \<Rightarrow> Some (-1, P)
      | Some skb \<Rightarrow> do {
          outs \<leftarrow> frame_outs E f skb;
          Some (0, reord_rxframe_free (f\<lparr>pkt := None\<rparr>) (rx_account outs P)) })"

section \<open>Stations\<close>

definition init_ctrl :: reord_ctrl where
  "init_ctrl = \<lparr>rc_enable = True, ind_sn = 0xffff, wsize_b = AICWF_REORDER_WINSIZE, reord_list = [],
     reord_timer = False, reord_timer_work = False\<rparr>"

definition reord_init_sta :: "rx_env \<Rightarrow> bytes \<Rightarrow> reord_ctrl_info option" where
  "reord_init_sta E mac =
     (if ev_bus_down E then None
      else if \<not> ev_kmalloc_ok E then None
      else Some \<lparr>mac_addr = mac, preorder_ctrl = replicate 8 init_ctrl\<rparr>)"

definition find_sta :: "bytes \<Rightarrow> rx_priv \<Rightarrow> int" where
  "find_sta mac P = first_idx (\<lambda>i. mac_addr i = mac) (stas_reord_list P)"

text \<open>The buffer of a station for a traffic identifier: there are eight of them.\<close>

definition get_ctrl :: "nat \<Rightarrow> u8 \<Rightarrow> rx_priv \<Rightarrow> reord_ctrl option" where
  "get_ctrl i tid P = (let cs = preorder_ctrl (stas_reord_list P ! i) in
     if unat tid < length cs then Some (cs ! unat tid) else None)"

definition put_ctrl :: "nat \<Rightarrow> u8 \<Rightarrow> reord_ctrl \<Rightarrow> rx_priv \<Rightarrow> rx_priv" where
  "put_ctrl i tid c P = P\<lparr>stas_reord_list := (stas_reord_list P)[i :=
     (stas_reord_list P ! i)\<lparr>preorder_ctrl := (preorder_ctrl (stas_reord_list P ! i))[unat tid := c]\<rparr>]\<rparr>"

definition frame_mac :: "rx_env \<Rightarrow> bytes \<Rightarrow> bytes option" where
  "frame_mac E d = (case ev_iftype E of
     STATION \<Rightarrow> Some (take 6 d) | P2P_CLIENT \<Rightarrow> Some (take 6 d)
   | AP_MODE \<Rightarrow> Some (take 6 (drop 6 d)) | P2P_GO \<Rightarrow> Some (take 6 (drop 6 d))
   | OTHER_MODE \<Rightarrow> None)"

section \<open>The window\<close>

text \<open>\<^verbatim>\<open>True\<close> when the frame need not be reordered.\<close>

definition reord_need_check :: "reord_ctrl \<Rightarrow> u16 \<Rightarrow> bool \<times> reord_ctrl" where
  "reord_need_check c sq =
     (let wsize = wsize_b c;
          wend = (ind_sn c + ucast wsize - 1) AND 0xFFF;
          c = (if ind_sn c = 0xFFFF then c\<lparr>ind_sn := sq\<rparr> else c)
      in if SN_LESS sq (ind_sn c) then (True, c)
         else if SN_EQUAL sq (ind_sn c) then (False, c\<lparr>ind_sn := (ind_sn c + 1) AND 0xFFF\<rparr>)
         else if SN_LESS wend sq then
           (if sq \<ge> ucast wsize - 1 then (False, c\<lparr>ind_sn := sq - (ucast wsize - 1)\<rparr>)
            else (False, c\<lparr>ind_sn := 0xFFF - (ucast wsize - (sq + 1)) + 1\<rparr>))
         else (False, c))"

section \<open>The pending list\<close>

fun reord_rxframe_enqueue :: "recv_msdu \<Rightarrow> recv_msdu list \<Rightarrow> recv_msdu list option" where
  "reord_rxframe_enqueue f [] = Some [f]"
| "reord_rxframe_enqueue f (g # gs) =
     (if SN_LESS (seq_num g) (seq_num f) then map_option ((#) g) (reord_rxframe_enqueue f gs)
      else if SN_EQUAL (seq_num g) (seq_num f) then None
      else Some (f # g # gs))"

fun process_walk :: "u16 \<Rightarrow> recv_msdu list \<Rightarrow> bool \<times> u16" where
  "process_walk ind [] = (False, ind)"
| "process_walk ind (f # fs) =
     (if \<not> SN_LESS ind (seq_num f)
      then process_walk (if SN_EQUAL ind (seq_num f) then (ind + 1) AND 0xFFF else ind) fs
      else (True, ind))"

definition reord_rxframes_process :: "bool \<Rightarrow> reord_ctrl \<Rightarrow> bool \<times> reord_ctrl" where
  "reord_rxframes_process bforced c =
     (case reord_list c of [] \<Rightarrow> (False, c)
      | f # fs \<Rightarrow> (let c = (if bforced then c\<lparr>ind_sn := seq_num f\<rparr> else c);
                       (b, ind) = process_walk (ind_sn c) (reord_list c)
                   in (b, c\<lparr>ind_sn := ind\<rparr>)))"

fun rxframes_ind_list :: "rx_env \<Rightarrow> u16 \<Rightarrow> recv_msdu list \<Rightarrow> rx_priv \<Rightarrow>
    (recv_msdu list \<times> rx_priv) option" where
  "rxframes_ind_list E ind [] P = Some ([], P)"
| "rxframes_ind_list E ind (f # fs) P =
     (if \<not> SN_LESS ind (seq_num f)
      then do { (r, P) \<leftarrow> reord_single_frame_ind E f P; rxframes_ind_list E ind fs P }
      else Some (f # fs, P))"

definition reord_rxframes_ind :: "rx_env \<Rightarrow> reord_ctrl \<Rightarrow> rx_priv \<Rightarrow> (reord_ctrl \<times> rx_priv) option" where
  "reord_rxframes_ind E c P = do {
     (fs, P) \<leftarrow> rxframes_ind_list E (ind_sn c) (reord_list c) P;
     Some (c\<lparr>reord_list := fs\<rparr>, P) }"

section \<open>The timer\<close>

definition reord_timeout_handler :: "bool \<Rightarrow> reord_ctrl \<Rightarrow> reord_ctrl" where
  "reord_timeout_handler usb_down c =
     (let c = c\<lparr>reord_timer := False\<rparr> in
      if usb_down then c
      else if \<not> reord_timer_work c then c\<lparr>reord_timer_work := True\<rparr> else c)"

definition reord_timeout_worker :: "rx_env \<Rightarrow> reord_ctrl \<Rightarrow> rx_priv \<Rightarrow> (reord_ctrl \<times> rx_priv) option" where
  "reord_timeout_worker E c0 P =
     (let (b, c) = reord_rxframes_process True (c0\<lparr>reord_timer_work := False\<rparr>);
          c = (if b then c\<lparr>reord_timer := True\<rparr> else c)
      in reord_rxframes_ind E c P)"

section \<open>One received frame\<close>

text \<open>The part of \<^verbatim>\<open>reord_process_unit\<close> that runs under the lock of the buffer.\<close>

definition rtp_byte :: "rx_env \<Rightarrow> recv_msdu \<Rightarrow> u8" where
  "rtp_byte E f = (if 42 < length (rx_data f) then rx_data f ! 42 else ev_beyond E)"

text \<open>\<^verbatim>\<open>dev_kfree_skb(pframe->pkt)\<close> when there is one, then back to the pool.\<close>

definition drop_frame :: "recv_msdu \<Rightarrow> rx_priv \<Rightarrow> rx_priv" where
  "drop_frame f P = reord_rxframe_free (f\<lparr>pkt := None\<rparr>)
     (case pkt f of None \<Rightarrow> P | Some skb \<Rightarrow> rx_account [Freed skb] P)"

definition ctrl_receive :: "rx_env \<Rightarrow> recv_msdu \<Rightarrow> reord_ctrl \<Rightarrow> rx_priv \<Rightarrow>
    (reord_ctrl \<times> rx_priv) option" where
  "ctrl_receive E f c0 P =
     (case reord_need_check c0 (seq_num f) of (no_need, c) \<Rightarrow>
      if no_need then
        (if rtp_byte E f = 0x80 then
           (if seq_num f = ind_sn c
            then do { (r, P) \<leftarrow> reord_single_frame_ind E f P; Some (c, P) }
            else Some (c, drop_frame f P))
         else do { (r, P) \<leftarrow> reord_single_frame_ind E f P; Some (c, P) })
      else (case reord_rxframe_enqueue f (reord_list c) of
          None \<Rightarrow> Some (c, drop_frame f P)
        | Some fs \<Rightarrow>
            (case reord_rxframes_process False (c\<lparr>reord_list := fs\<rparr>) of (b, c) \<Rightarrow>
               reord_rxframes_ind E (c\<lparr>reord_timer := b\<rparr>) P)))"

definition fill_frame :: "recv_msdu \<Rightarrow> skb \<Rightarrow> u16 \<Rightarrow> u8 \<Rightarrow> bool \<Rightarrow> bool \<Rightarrow> recv_msdu" where
  "fill_frame f skb sq tid fwd amsdu = f\<lparr>seq_num := sq, rf_tid := tid, rx_data := skb_data skb,
     pkt := Some skb, forward := fwd, is_amsdu := amsdu\<rparr>"

text \<open>
  Return value and state. \<open>None\<close> also stands for the access to \<^verbatim>\<open>preorder_ctrl[tid]\<close> with an
  identifier beyond the eight buffers.
\<close>

definition reord_process_unit :: "rx_env \<Rightarrow> recv_msdu \<Rightarrow> skb \<Rightarrow> u16 \<Rightarrow> u8 \<Rightarrow> bool \<Rightarrow> bool \<Rightarrow> rx_priv \<Rightarrow>
    (int \<times> rx_priv) option" where
  "reord_process_unit E f0 skb sq tid fwd amsdu P =
     (let f = fill_frame f0 skb sq tid fwd amsdu in do {
      da0 \<leftarrow> rd8 (skb_data skb) 0;
      proto \<leftarrow> rd_be16 (skb_data skb) 12;
      if proto = ETH_P_PAE \<or> da0 AND 0x01 \<noteq> 0 then reord_single_frame_ind E f P
      else case frame_mac E (skb_data skb) of
        None \<Rightarrow> Some (-1, rx_account [Freed skb] P)
      | Some mac \<Rightarrow>
          let i = find_sta mac P in
          if i < 0 then
            (case reord_init_sta E mac of
               None \<Rightarrow> do { (r, P) \<leftarrow> reord_single_frame_ind E f P; Some (-1, P) }
             | Some info \<Rightarrow>
                 let P = P\<lparr>stas_reord_list := stas_reord_list P @ [info]\<rparr>;
                     k = length (stas_reord_list P) - 1
                 in do { c \<leftarrow> get_ctrl k tid P; (c, P) \<leftarrow> ctrl_receive E f c P;
                         Some (0, put_ctrl k tid c P) })
          else do {
            c \<leftarrow> get_ctrl (nat i) tid P;
            let c = (if \<not> rc_enable c
                     then c\<lparr>rc_enable := True, ind_sn := 0xffff, wsize_b := AICWF_REORDER_WINSIZE\<rparr>
                     else c);
            (c, P) \<leftarrow> ctrl_receive E f c P;
            Some (0, put_ctrl (nat i) tid c P) } })"

section \<open>Flushing and removing\<close>

fun flush_list :: "rx_env \<Rightarrow> recv_msdu list \<Rightarrow> rx_priv \<Rightarrow> rx_priv option" where
  "flush_list E [] P = Some P"
| "flush_list E (f # fs) P = do { (r, P) \<leftarrow> reord_single_frame_ind E f P; flush_list E fs P }"

definition reord_flush_tid :: "rx_env \<Rightarrow> skb \<Rightarrow> u8 \<Rightarrow> rx_priv \<Rightarrow> (int \<times> rx_priv) option" where
  "reord_flush_tid E skb tid P =
     (case frame_mac E (skb_data skb) of
        None \<Rightarrow> Some (-1, rx_account [Freed skb] P)
      | Some mac \<Rightarrow>
          let i = find_sta mac P in
          if i < 0 then Some (0, P) else do {
            c \<leftarrow> get_ctrl (nat i) tid P;
            if \<not> rc_enable c then Some (0, P) else do {
            P \<leftarrow> flush_list E (reord_list c) P;
            Some (0, put_ctrl (nat i) tid (c\<lparr>reord_list := [], rc_enable := False,
              reord_timer := False, reord_timer_work := False\<rparr>) P) } })"

definition reord_deinit_sta :: "nat \<Rightarrow> rx_priv \<Rightarrow> rx_priv" where
  "reord_deinit_sta i P =
     (let P = fold (\<lambda>c. fold drop_frame (reord_list c)) (preorder_ctrl (stas_reord_list P ! i)) P
      in P\<lparr>stas_reord_list := take i (stas_reord_list P) @ drop (Suc i) (stas_reord_list P)\<rparr>)"

end
