(* ===== verification/RxReorderCore.thy ===== *)
theory RxReorderCore
  imports RxReorder "HOL-Library.Multiset"
begin

text \<open>
  The decisions of the reordering buffer apart from their effects: for each step, which frames
  are released, passed or discarded and what the buffer is afterwards. The steps of
  \<open>RxReorder\<close> are these decisions followed by the effects, and the decisions implement a
  window over unbounded sequence numbers.
\<close>

section \<open>Decisions and effects\<close>

text \<open>
  A frame is released from the buffer in order, passed on although it is late, or discarded.
\<close>

datatype rx_act = Release (act_frame: recv_msdu) | Pass (act_frame: recv_msdu)
  | Discard (act_frame: recv_msdu)

fun do_act :: "rx_env \<Rightarrow> rx_act \<Rightarrow> rx_priv \<Rightarrow> rx_priv option" where
  "do_act E (Release f) P = map_option snd (reord_single_frame_ind E f P)"
| "do_act E (Pass f) P = map_option snd (reord_single_frame_ind E f P)"
| "do_act E (Discard f) P = Some (drop_frame f P)"

fun do_acts :: "rx_env \<Rightarrow> rx_act list \<Rightarrow> rx_priv \<Rightarrow> rx_priv option" where
  "do_acts E [] P = Some P"
| "do_acts E (a # as) P = Option.bind (do_act E a P) (do_acts E as)"

fun releases :: "rx_act list \<Rightarrow> recv_msdu list" where
  "releases [] = []"
| "releases (Release f # as) = f # releases as"
| "releases (a # as) = releases as"

lemma releases_append [simp]: "releases (as @ bs) = releases as @ releases bs"
  by (induction as rule: releases.induct) simp_all

lemma releases_map [simp]: "releases (map Release fs) = fs"
  by (induction fs) simp_all

lemma do_acts_append: "do_acts E (as @ bs) P = Option.bind (do_acts E as P) (do_acts E bs)"
  by (induction as arbitrary: P) (simp_all split: Option.bind_split)

lemma flush_list_acts: "flush_list E fs P = do_acts E (map Release fs) P"
  by (induction fs arbitrary: P) (auto split: Option.bind_split option.splits)

definition due :: "u16 \<Rightarrow> recv_msdu list \<Rightarrow> recv_msdu list" where
  "due ind fs = takeWhile (\<lambda>f. \<not> SN_LESS ind (seq_num f)) fs"

definition undue :: "u16 \<Rightarrow> recv_msdu list \<Rightarrow> recv_msdu list" where
  "undue ind fs = dropWhile (\<lambda>f. \<not> SN_LESS ind (seq_num f)) fs"

lemma rxframes_ind_acts:
  "rxframes_ind_list E ind fs P = map_option (Pair (undue ind fs)) (do_acts E (map Release (due ind fs)) P)"
  by (induction fs arbitrary: P) (auto simp: due_def undue_def split: Option.bind_split option.splits)

definition ctrl_decide :: "u8 \<Rightarrow> recv_msdu \<Rightarrow> reord_ctrl \<Rightarrow> rx_act list \<times> reord_ctrl" where
  "ctrl_decide rtp f c0 =
     (case reord_need_check c0 (seq_num f) of (no_need, c) \<Rightarrow>
      if no_need then (if rtp = 0x80 \<and> seq_num f \<noteq> ind_sn c then ([Discard f], c) else ([Pass f], c))
      else (case reord_rxframe_enqueue f (reord_list c) of None \<Rightarrow> ([Discard f], c)
        | Some fs \<Rightarrow> (case reord_rxframes_process False (c\<lparr>reord_list := fs\<rparr>) of (b, c) \<Rightarrow>
            (map Release (due (ind_sn c) fs), c\<lparr>reord_timer := b, reord_list := undue (ind_sn c) fs\<rparr>))))"

definition worker_decide :: "reord_ctrl \<Rightarrow> rx_act list \<times> reord_ctrl" where
  "worker_decide c0 =
     (case reord_rxframes_process True (c0\<lparr>reord_timer_work := False\<rparr>) of (b, c) \<Rightarrow>
        (map Release (due (ind_sn c) (reord_list c0)),
         c\<lparr>reord_timer := b \<or> reord_timer c, reord_list := undue (ind_sn c) (reord_list c0)\<rparr>))"

lemma process_list [simp]:
  "reord_list (snd (reord_rxframes_process b c)) = reord_list c"
  by (simp add: reord_rxframes_process_def Let_def split: list.splits prod.splits)

lemma process_eq:
  assumes "reord_rxframes_process bf c = (b, c')"
  shows "reord_list c' = reord_list c"
  using process_list[of bf c] assms by simp

lemma ctrl_receive_decide:
  "ctrl_receive E f c P = (case ctrl_decide (rtp_byte E f) f c of (acts, c') \<Rightarrow>
     map_option (Pair c') (do_acts E acts P))"
proof -
  obtain nn c1 where n: "reord_need_check c (seq_num f) = (nn, c1)" by fastforce
  show ?thesis
  proof (cases nn)
    case True
    with n show ?thesis
      by (simp add: ctrl_receive_def ctrl_decide_def split: Option.bind_split option.splits)
  next
    case False
    show ?thesis
    proof (cases "reord_rxframe_enqueue f (reord_list c1)")
      case None
      with n False show ?thesis by (simp add: ctrl_receive_def ctrl_decide_def)
    next
      case (Some fs)
      obtain b c2 where p: "reord_rxframes_process False (c1\<lparr>reord_list := fs\<rparr>) = (b, c2)" by fastforce
      have l: "reord_list c2 = fs" using process_eq[OF p] by simp
      show ?thesis using n False Some p l
        by (simp add: ctrl_receive_def ctrl_decide_def reord_rxframes_ind_def rxframes_ind_acts
            split: Option.bind_split option.splits)
    qed
  qed
qed

lemma worker_decide_eq:
  "reord_timeout_worker E c P = (case worker_decide c of (acts, c') \<Rightarrow>
     map_option (Pair c') (do_acts E acts P))"
proof -
  obtain b c1 where p: "reord_rxframes_process True (c\<lparr>reord_timer_work := False\<rparr>) = (b, c1)" by fastforce
  have l: "reord_list c1 = reord_list c" using process_eq[OF p] by simp
  have t: "reord_timer c1 = reord_timer c"
    using p by (auto simp: reord_rxframes_process_def Let_def split: list.splits prod.splits)
  show ?thesis using p l t
    by (cases b; cases c1)
       (simp_all add: reord_timeout_worker_def worker_decide_def reord_rxframes_ind_def rxframes_ind_acts
          split: Option.bind_split option.splits)
qed

section \<open>No frame appears or disappears\<close>

lemma due_undue: "due ind fs @ undue ind fs = fs"
  by (simp add: due_def undue_def)

lemma enqueue_mset: "reord_rxframe_enqueue f fs = Some gs \<Longrightarrow> mset gs = {#f#} + mset fs"
  by (induction fs arbitrary: gs) (auto split: if_splits)

lemma need_check_list: "reord_need_check c sq = (b, c') \<Longrightarrow> reord_list c' = reord_list c"
  by (auto simp: reord_need_check_def Let_def split: if_splits)

lemma act_frame_Release [simp]: "map act_frame (map Release fs) = fs"
  by (induction fs) simp_all

lemma ctrl_decide_mset:
  assumes "ctrl_decide rtp f c = (acts, c')"
  shows "mset (map act_frame acts) + mset (reord_list c') = {#f#} + mset (reord_list c)"
proof -
  obtain nn c1 where n: "reord_need_check c (seq_num f) = (nn, c1)" by fastforce
  note l1 = need_check_list[OF n]
  show ?thesis
  proof (cases "nn \<or> reord_rxframe_enqueue f (reord_list c1) = None")
    case True
    with assms n l1 show ?thesis by (auto simp: ctrl_decide_def split: if_splits)
  next
    case False
    then obtain fs where e: "reord_rxframe_enqueue f (reord_list c1) = Some fs" by auto
    obtain b c2 where p: "reord_rxframes_process False (c1\<lparr>reord_list := fs\<rparr>) = (b, c2)" by fastforce
    from assms n e p False have "acts = map Release (due (ind_sn c2) fs)"
      "reord_list c' = undue (ind_sn c2) fs"
      by (auto simp: ctrl_decide_def)
    then have "mset (map act_frame acts) + mset (reord_list c') = mset (due (ind_sn c2) fs @ undue (ind_sn c2) fs)"
      by (simp add: comp_def)
    then show ?thesis using enqueue_mset[OF e] l1 by (simp add: due_undue)
  qed
qed

lemma worker_decide_mset:
  assumes "worker_decide c = (acts, c')"
  shows "mset (map act_frame acts) + mset (reord_list c') = mset (reord_list c)"
proof -
  obtain b c1 where p: "reord_rxframes_process True (c\<lparr>reord_timer_work := False\<rparr>) = (b, c1)" by fastforce
  from assms p have "acts = map Release (due (ind_sn c1) (reord_list c))"
    "reord_list c' = undue (ind_sn c1) (reord_list c)"
    by (auto simp: worker_decide_def)
  then have "mset (map act_frame acts) + mset (reord_list c') =
      mset (due (ind_sn c1) (reord_list c) @ undue (ind_sn c1) (reord_list c))" by (simp add: comp_def)
  then show ?thesis by (simp add: due_undue)
qed

section \<open>The window over unbounded numbers\<close>

text \<open>
  \<open>window c base xs\<close>: the buffer expects \<open>base\<close> next and holds the frames \<open>xs\<close>, in order, all
  of them ahead of \<open>base\<close> and within the 64 numbers from it on.
\<close>

definition window :: "reord_ctrl \<Rightarrow> int \<Rightarrow> int list \<Rightarrow> bool" where
  "window c base xs \<longleftrightarrow> wsize_b c = AICWF_REORDER_WINSIZE \<and> ind_sn c = sn base \<and>
     map seq_num (reord_list c) = map sn xs \<and> sorted_wrt (<) xs \<and>
     (\<forall>x \<in> set xs. base < x \<and> x \<le> base + 63)"

text \<open>A buffer that has not seen a frame yet.\<close>

definition untouched :: "reord_ctrl \<Rightarrow> bool" where
  "untouched c \<longleftrightarrow> wsize_b c = AICWF_REORDER_WINSIZE \<and> ind_sn c = 0xFFFF \<and> reord_list c = []"

text \<open>The window on the numbers alone.\<close>

fun advance :: "int \<Rightarrow> int list \<Rightarrow> int" where
  "advance b [] = b"
| "advance b (x # xs) = (if x \<le> b then advance (if x = b then b + 1 else b) xs else b)"

datatype win_res = Late | Duplicate | Moved int "int list" "int list"

definition win_base :: "int \<Rightarrow> int \<Rightarrow> int" where
  "win_base x base = (if x = base then base + 1 else if base + 63 < x then x - 63 else base)"

text \<open>\<open>Moved base' rest released\<close>.\<close>

definition win_receive :: "int \<Rightarrow> int \<Rightarrow> int list \<Rightarrow> win_res" where
  "win_receive x base xs =
     (if x < base then Late
      else if x \<in> set xs then Duplicate
      else let ys = insort x xs; b = advance (win_base x base) ys
           in Moved b (dropWhile (\<lambda>y. y \<le> b) ys) (takeWhile (\<lambda>y. y \<le> b) ys))"

definition win_timeout :: "int \<Rightarrow> int list \<Rightarrow> int \<times> int list \<times> int list" where
  "win_timeout base xs = (case xs of [] \<Rightarrow> (base, [], [])
     | y # _ \<Rightarrow> let b = advance y xs in (b, dropWhile (\<lambda>y. y \<le> b) xs, takeWhile (\<lambda>y. y \<le> b) xs))"

lemma advance_ge: "b \<le> advance b xs"
  by (induction b xs rule: advance.induct) auto

lemma advance_bound: "advance b xs \<le> b + int (length xs)"
  by (induction b xs rule: advance.induct) auto

lemma advance_notin: "sorted_wrt (<) xs \<Longrightarrow> advance b xs \<notin> set xs"
proof (induction b xs rule: advance.induct)
  case (2 b x xs)
  show ?case
  proof (cases "x \<le> b")
    case True
    have "advance (if x = b then b + 1 else b) xs > x"
      using advance_ge[of "if x = b then b + 1 else b" xs] True by auto
    with 2 True show ?thesis by auto
  qed (use 2 in auto)
qed simp

lemma window_length:
  assumes "window c base xs" shows "length xs \<le> 63"
proof -
  have s: "sorted_wrt (<) xs" "set xs \<subseteq> {base <.. base + 63}" using assms by (auto simp: window_def)
  then have "length xs = card (set xs)"
    by (simp add: distinct_card[symmetric] strict_sorted_iff)
  also have "\<dots> \<le> card {base <.. base + 63}" using s(2) by (intro card_mono) simp_all
  finally show ?thesis by simp
qed

section \<open>The decisions implement the window\<close>

lemma sn_not_ffff: "sn x \<noteq> 0xFFFF"
proof
  assume "sn x = 0xFFFF"
  then have "uint (sn x) = 0xFFFF" by simp
  then have "x mod 4096 = 0xFFFF" by (simp only: uint_sn)
  moreover have "x mod 4096 < 4096" by simp
  ultimately show False by simp
qed

lemma word_eq_sn: "uint w = x mod 4096 \<Longrightarrow> w = sn x"
  by (metis uint_sn word_uint_eq_iff)

lemma sn_minus_63:
  "sn x \<ge> 63 \<Longrightarrow> sn x - 63 = sn (x - 63)"
  "\<not> sn x \<ge> 63 \<Longrightarrow> 0xFFF - (64 - (sn x + 1)) + 1 = sn (x - 63)"
proof -
  have b: "0 \<le> x mod 4096" "x mod 4096 < 4096" by simp_all
  have m: "(x - 63) mod 4096 = (x mod 4096 - 63) mod 4096" by (simp add: mod_diff_left_eq)
  show "sn x - 63 = sn (x - 63)" if "sn x \<ge> 63"
  proof (rule word_eq_sn)
    have "63 \<le> x mod 4096" using that by (simp add: word_le_def uint_sn)
    then show "uint (sn x - 63) = (x - 63) mod 4096"
      using b m by (simp add: uint_word_ariths uint_sn take_bit_eq_mod)
  qed
  show "0xFFF - (64 - (sn x + 1)) + 1 = sn (x - 63)" if "\<not> sn x \<ge> 63"
  proof (rule word_eq_sn)
    have lt: "x mod 4096 < 63" using that by (simp add: word_le_def uint_sn)
    have e: "0xFFF - (64 - (sn x + 1)) + 1 = sn x + 4033" by simp
    have "(x mod 4096 - 63) mod 4096 = (x mod 4096 - 63 + 4096) mod 4096" by (simp only: mod_add_self2)
    also have "\<dots> = x mod 4096 + 4033" using lt b by (subst mod_pos_pos_trivial) simp_all
    finally have "(x - 63) mod 4096 = x mod 4096 + 4033" using m by simp
    then show "uint (0xFFF - (64 - (sn x + 1)) + 1) = (x - 63) mod 4096"
      unfolding e using lt b by (simp add: uint_word_ariths uint_sn take_bit_eq_mod)
  qed
qed

lemma need_check_window:
  assumes w: "window c base xs" and r: "-2048 \<le> x - base" "x - base < 2048"
  shows "reord_need_check c (sn x) =
    (if x < base then (True, c) else (False, c\<lparr>ind_sn := sn (win_base x base)\<rparr>))"
proof -
  have i: "ind_sn c = sn base" and ws: "wsize_b c = 64"
    using w by (simp_all add: window_def AICWF_REORDER_WINSIZE_def)
  have wend: "(sn base + ucast (64 :: u8) - 1) AND 0xFFF = sn (base + 63)"
    using sn_add[of 63 base] by (simp add: add.commute[of 63 "sn base"])
  have same: "c\<lparr>ind_sn := sn base\<rparr> = c" using i by (cases c) simp
  have l1: "SN_LESS (sn x) (sn base) \<longleftrightarrow> x < base" using r by (intro SN_LESS_close) simp_all
  have l2: "SN_LESS (sn (base + 63)) (sn x) \<longleftrightarrow> base + 63 < x" if "\<not> x < base"
    using r that by (intro SN_LESS_close) simp_all
  have l3: "SN_EQUAL (sn x) (sn base) \<longleftrightarrow> x = base" unfolding SN_EQUAL_def using r by (intro sn_eq_close) simp
  show ?thesis
    unfolding reord_need_check_def Let_def i ws wend
    using sn_minus_63[of x] same
    by (cases "x < base") (simp_all add: sn_not_ffff i l1 l2 l3 sn_Suc win_base_def)
qed

lemma enqueue_window:
  assumes "map seq_num fs = map sn xs" and "sorted_wrt (<) xs" and "seq_num f = sn x"
    and "\<forall>e \<in> set xs. -2048 \<le> e - x \<and> e - x < 2048"
  shows "if x \<in> set xs then reord_rxframe_enqueue f fs = None
    else \<exists>gs. reord_rxframe_enqueue f fs = Some gs \<and> map seq_num gs = map sn (insort x xs)"
  using assms
proof (induction fs arbitrary: xs)
  case (Cons g gs)
  then obtain y ys where xs: "xs = y # ys" "seq_num g = sn y" "map seq_num gs = map sn ys" by auto
  have y: "-2048 \<le> y - x" "y - x < 2048" using Cons.prems(4) by (simp_all add: xs)
  have less: "SN_LESS (sn y) (seq_num f) \<longleftrightarrow> y < x"
    unfolding Cons.prems(3) using y by (rule SN_LESS_close)
  have eq: "SN_EQUAL (sn y) (seq_num f) \<longleftrightarrow> y = x"
    unfolding Cons.prems(3) SN_EQUAL_def using y by (intro sn_eq_close) simp
  have IH: "if x \<in> set ys then reord_rxframe_enqueue f gs = None
    else \<exists>hs. reord_rxframe_enqueue f gs = Some hs \<and> map seq_num hs = map sn (insort x ys)"
    using Cons.prems by (intro Cons.IH) (simp_all add: xs)
  consider "y < x" | "y = x" | "x < y" by linarith
  then show ?case
  proof cases
    case 1
    then show ?thesis using IH by (auto simp: xs less)
  next
    case 2
    then show ?thesis using less eq by (simp add: xs)
  next
    case 3
    then have "x \<notin> set ys" using Cons.prems(2) by (auto simp: xs)
    with 3 less eq show ?thesis using Cons.prems(3) by (simp add: xs)
  qed
qed simp

lemma process_walk_window:
  assumes "map seq_num fs = map sn ys" and "sorted_wrt (<) ys"
    and "\<forall>e \<in> set ys. -2048 \<le> b - e \<and> b - e < 2048"
  shows "process_walk (sn b) fs = ((\<exists>e \<in> set ys. advance b ys < e), sn (advance b ys))"
  using assms
proof (induction fs arbitrary: b ys)
  case (Cons g gs)
  then obtain y zs where ys: "ys = y # zs" "seq_num g = sn y" "map seq_num gs = map sn zs" by auto
  have y: "-2048 \<le> b - y" "b - y < 2048" using Cons.prems(3) by (simp_all add: ys)
  have less: "SN_LESS (sn b) (sn y) \<longleftrightarrow> b < y" using y by (rule SN_LESS_close)
  have eq: "SN_EQUAL (sn b) (sn y) \<longleftrightarrow> b = y"
    unfolding SN_EQUAL_def using y by (intro sn_eq_close) simp
  show ?case
  proof (cases "b < y")
    case True
    then show ?thesis by (auto simp: ys less)
  next
    case False
    let ?b = "if y = b then b + 1 else b"
    have zs: "\<forall>e\<in>set zs. y < e" using Cons.prems(2) by (simp add: ys)
    have "process_walk (sn ?b) gs = ((\<exists>e \<in> set zs. advance ?b zs < e), sn (advance ?b zs))"
      by (rule Cons.IH) (use Cons.prems zs in \<open>force simp: ys\<close>)+
    moreover have "advance ?b zs \<ge> y" using advance_ge[of ?b zs] False by (auto split: if_splits)
    ultimately show ?thesis using False by (auto simp: ys less eq sn_Suc)
  qed
qed simp

lemma due_window:
  assumes "map seq_num fs = map sn ys" and "\<forall>e \<in> set ys. -2048 \<le> b - e \<and> b - e < 2048"
  shows "map seq_num (due (sn b) fs) = map sn (takeWhile (\<lambda>y. y \<le> b) ys)"
    and "map seq_num (undue (sn b) fs) = map sn (dropWhile (\<lambda>y. y \<le> b) ys)"
proof -
  have "map seq_num (due (sn b) fs) = map sn (takeWhile (\<lambda>y. y \<le> b) ys) \<and>
    map seq_num (undue (sn b) fs) = map sn (dropWhile (\<lambda>y. y \<le> b) ys)"
    using assms
  proof (induction fs arbitrary: ys)
    case (Cons g gs)
    then obtain y zs where ys: "ys = y # zs" "seq_num g = sn y" "map seq_num gs = map sn zs" by auto
    have "SN_LESS (sn b) (sn y) \<longleftrightarrow> b < y"
      using Cons.prems(2) by (intro SN_LESS_close) (simp_all add: ys)
    with Cons ys show ?case by (simp add: due_def undue_def not_less)
  qed (simp add: due_def undue_def)
  then show "map seq_num (due (sn b) fs) = map sn (takeWhile (\<lambda>y. y \<le> b) ys)"
    "map seq_num (undue (sn b) fs) = map sn (dropWhile (\<lambda>y. y \<le> b) ys)" by simp_all
qed

end
