(* ===== verification/RxReorderRun.thy ===== *)
theory RxReorderRun
  imports RxReorderCore
begin

text \<open>
  The reordering buffer over whole runs: every step keeps the window, frames leave it in the
  order of their numbers and at most once, and the timer is pending while frames wait.
\<close>

section \<open>One frame\<close>

lemma insort_strict:
  "sorted_wrt (<) xs \<Longrightarrow> x \<notin> set xs \<Longrightarrow> sorted_wrt (<) (insort (x :: int) xs)"
  by (simp add: strict_sorted_iff sorted_insort distinct_insort)

lemma drop_above: "sorted_wrt (<) xs \<Longrightarrow> e \<in> set (dropWhile (\<lambda>y. y \<le> (b :: int)) xs) \<Longrightarrow> b < e"
  by (induction xs) (auto split: if_splits)

lemma drop_sorted: "sorted_wrt R xs \<Longrightarrow> sorted_wrt R (dropWhile Q xs)"
  by (simp add: dropWhile_eq_drop sorted_wrt_drop)

lemma take_sorted: "sorted_wrt R xs \<Longrightarrow> sorted_wrt R (takeWhile Q xs)"
  by (subst takeWhile_eq_take) (rule sorted_wrt_take)

lemma take_below:
  "sorted_wrt (<) xs \<Longrightarrow> e \<in> set (takeWhile (\<lambda>y. y \<le> advance b xs) xs) \<Longrightarrow> e < advance b xs"
  using advance_notin[of xs b] by (metis order_le_less set_takeWhileD)

lemma process_nonempty:
  "reord_list c \<noteq> [] \<Longrightarrow> reord_rxframes_process False c =
     (case process_walk (ind_sn c) (reord_list c) of (b, ind) \<Rightarrow> (b, c\<lparr>ind_sn := ind\<rparr>))"
  by (cases "reord_list c") (simp_all add: reord_rxframes_process_def)

text \<open>Releasing what is due at the head of a window of numbers \<open>ys\<close> with the base at \<open>b\<close>.\<close>

lemma release_window:
  assumes fs: "map seq_num fs = map sn ys" and s: "sorted_wrt (<) ys"
    and lo: "\<forall>e \<in> set ys. b - e < 1984" and hi: "\<forall>e \<in> set ys. e \<le> b + 63 \<and> -2048 \<le> b - e"
    and len: "length ys \<le> 64"
  shows "process_walk (sn b) fs = (dropWhile (\<lambda>y. y \<le> advance b ys) ys \<noteq> [], sn (advance b ys))"
    and "map seq_num (due (sn (advance b ys)) fs) = map sn (takeWhile (\<lambda>y. y \<le> advance b ys) ys)"
    and "map seq_num (undue (sn (advance b ys)) fs) = map sn (dropWhile (\<lambda>y. y \<le> advance b ys) ys)"
    and "\<forall>e \<in> set (dropWhile (\<lambda>y. y \<le> advance b ys) ys). advance b ys < e \<and> e \<le> advance b ys + 63"
proof -
  let ?b = "advance b ys"
  have g: "b \<le> ?b" "?b \<le> b + int (length ys)" by (rule advance_ge advance_bound)+
  have close: "\<forall>e \<in> set ys. -2048 \<le> b - e \<and> b - e < 2048" using lo hi by force
  have "?b \<le> b + 64" using g len by simp
  then have close2: "\<forall>e \<in> set ys. -2048 \<le> ?b - e \<and> ?b - e < 2048" using lo hi g by force
  show "process_walk (sn b) fs = (dropWhile (\<lambda>y. y \<le> ?b) ys \<noteq> [], sn ?b)"
    using process_walk_window[OF fs s close] by (auto simp: dropWhile_eq_Nil_conv not_le)
  show "map seq_num (due (sn ?b) fs) = map sn (takeWhile (\<lambda>y. y \<le> ?b) ys)"
    "map seq_num (undue (sn ?b) fs) = map sn (dropWhile (\<lambda>y. y \<le> ?b) ys)"
    using due_window[OF fs close2] by simp_all
  show "\<forall>e \<in> set (dropWhile (\<lambda>y. y \<le> ?b) ys). ?b < e \<and> e \<le> ?b + 63"
  proof
    fix e assume e: "e \<in> set (dropWhile (\<lambda>y. y \<le> ?b) ys)"
    then have "e \<in> set ys" by (rule set_dropWhileD)
    with hi have "e \<le> b + 63" by blast
    moreover have "?b < e" using drop_above[OF s e] .
    ultimately show "?b < e \<and> e \<le> ?b + 63" using g(1) by linarith
  qed
qed

definition close_to :: "int \<Rightarrow> int \<Rightarrow> bool" where
  "close_to base x \<longleftrightarrow> -2048 \<le> x - base \<and> x - base < 2048"

lemma win_base_bounds:
  assumes w: "\<forall>e \<in> set xs. base < e \<and> e \<le> base + 63" and x: "close_to base x" "base \<le> x"
    and e: "e \<in> set (insort x xs)"
  shows "win_base x base - e < 1984" "e \<le> win_base x base + 63" "-2048 \<le> win_base x base - e"
    "base \<le> win_base x base" "base \<le> e"
proof -
  from e have "e = x \<or> e \<in> set xs" by (simp add: set_insort_key)
  then have "win_base x base - e < 1984 \<and> e \<le> win_base x base + 63 \<and> -2048 \<le> win_base x base - e \<and>
    base \<le> win_base x base \<and> base \<le> e"
    using w x by (auto simp: win_base_def close_to_def)
  then show "win_base x base - e < 1984" "e \<le> win_base x base + 63" "-2048 \<le> win_base x base - e"
    "base \<le> win_base x base" "base \<le> e" by simp_all
qed

text \<open>What a step decides, by the answer of the window on the numbers.\<close>

definition decided :: "u8 \<Rightarrow> recv_msdu \<Rightarrow> reord_ctrl \<Rightarrow> win_res \<Rightarrow> rx_act list \<Rightarrow> reord_ctrl \<Rightarrow> bool" where
  "decided rtp f c res acts c' \<longleftrightarrow> (case res of
     Late \<Rightarrow> c' = c \<and> acts = [if rtp = 0x80 then Discard f else Pass f]
   | Duplicate \<Rightarrow> c' = c \<and> acts = [Discard f]
   | Moved b rest out \<Rightarrow> window c' b rest \<and> (reord_timer c' \<longleftrightarrow> rest \<noteq> []) \<and>
       (\<exists>fs. acts = map Release fs \<and> map seq_num fs = map sn out))"

lemma ctrl_decide_window:
  assumes w: "window c base xs" and f: "seq_num f = sn x" and cl: "close_to base x"
    and d: "ctrl_decide rtp f c = (acts, c')"
  shows "decided rtp f c (win_receive x base xs) acts c'"
proof -
  have r: "-2048 \<le> x - base" "x - base < 2048" using cl by (simp_all add: close_to_def)
  have i: "ind_sn c = sn base" and ws: "wsize_b c = AICWF_REORDER_WINSIZE"
    and fs: "map seq_num (reord_list c) = map sn xs" and s: "sorted_wrt (<) xs"
    and b: "\<forall>e \<in> set xs. base < e \<and> e \<le> base + 63" using w by (simp_all add: window_def)
  note nc = need_check_window[OF w r, folded f]
  show ?thesis
  proof (cases "x < base")
    case True
    have "seq_num f \<noteq> ind_sn c" using True r by (simp add: f i sn_eq_close)
    with nc True d show ?thesis
      by (auto simp: decided_def win_receive_def ctrl_decide_def split: if_splits)
  next
    case False
    let ?c1 = "c\<lparr>ind_sn := sn (win_base x base)\<rparr>"
    have near: "\<forall>e \<in> set xs. -2048 \<le> e - x \<and> e - x < 2048"
    proof
      fix e assume "e \<in> set xs"
      with b have "base < e" "e \<le> base + 63" by blast+
      with r False show "-2048 \<le> e - x \<and> e - x < 2048" by linarith
    qed
    note enq = enqueue_window[OF fs s f near]
    show ?thesis
    proof (cases "x \<in> set xs")
      case True
      with b have "base < x" "x \<le> base + 63" by blast+
      then have "?c1 = c" using i by (cases c) (simp add: win_base_def)
      with nc False enq True d show ?thesis
        by (auto simp: decided_def win_receive_def ctrl_decide_def)
    next
      case new: False
      let ?ys = "insort x xs" and ?wb = "win_base x base"
      from enq new obtain gs where gs: "reord_rxframe_enqueue f (reord_list c) = Some gs"
        "map seq_num gs = map sn ?ys" by auto
      have ne: "gs \<noteq> []" using gs(2) by (metis Nil_is_map_conv insort_not_Nil)
      have sy: "sorted_wrt (<) ?ys" using s new by (rule insort_strict)
      have len: "length ?ys \<le> 64" using window_length[OF w] by simp
      note wb = win_base_bounds[OF b cl]
      have lo: "\<forall>e\<in>set ?ys. ?wb - e < 1984" and hi: "\<forall>e\<in>set ?ys. e \<le> ?wb + 63 \<and> -2048 \<le> ?wb - e"
        using wb False by force+
      note rel = release_window[OF gs(2) sy lo hi len]
      let ?b = "advance ?wb ?ys"
      have p: "reord_rxframes_process False (?c1\<lparr>reord_list := gs\<rparr>) =
          (dropWhile (\<lambda>y. y \<le> ?b) ?ys \<noteq> [], ?c1\<lparr>reord_list := gs, ind_sn := sn ?b\<rparr>)"
        using process_nonempty[of "?c1\<lparr>reord_list := gs\<rparr>"] ne rel(1) by simp
      have acts: "acts = map Release (due (sn ?b) gs)"
        and c': "c' = ?c1\<lparr>reord_list := undue (sn ?b) gs, ind_sn := sn ?b,
           reord_timer := dropWhile (\<lambda>y. y \<le> ?b) ?ys \<noteq> []\<rparr>"
        using d nc False gs(1) p by (auto simp: ctrl_decide_def)
      have "window c' ?b (dropWhile (\<lambda>y. y \<le> ?b) ?ys)"
        using ws rel(3,4) drop_sorted[OF sy] by (simp add: window_def c')
      moreover have "reord_timer c' \<longleftrightarrow> dropWhile (\<lambda>y. y \<le> ?b) ?ys \<noteq> []" by (simp add: c')
      ultimately show ?thesis using acts rel(2) False new
        by (auto simp: decided_def win_receive_def Let_def)
    qed
  qed
qed

text \<open>The first frame of a buffer sets its base.\<close>

lemma ctrl_decide_first:
  assumes "untouched c" and "seq_num f = sn x"
  shows "ctrl_decide rtp f c = ctrl_decide rtp f (c\<lparr>ind_sn := sn x\<rparr>)"
    and "window (c\<lparr>ind_sn := sn x\<rparr>) x []"
proof -
  have "SN_LESS (sn x) (sn x) \<longleftrightarrow> False" using SN_LESS_close[of x x] by simp
  then have "reord_need_check c (sn x) = reord_need_check (c\<lparr>ind_sn := sn x\<rparr>) (sn x)"
    using assms(1) by (simp add: reord_need_check_def untouched_def sn_not_ffff SN_EQUAL_def)
  then show "ctrl_decide rtp f c = ctrl_decide rtp f (c\<lparr>ind_sn := sn x\<rparr>)"
    by (simp add: ctrl_decide_def assms(2))
  show "window (c\<lparr>ind_sn := sn x\<rparr>) x []" using assms(1) by (simp add: window_def untouched_def)
qed

section \<open>A timeout\<close>

lemma worker_decide_window:
  assumes w: "window c base xs" and d: "worker_decide c = (acts, c')"
    and r: "win_timeout base xs = (b, rest, out)"
  shows "window c' b rest \<and> (rest \<noteq> [] \<longrightarrow> reord_timer c') \<and> (xs \<noteq> [] \<longrightarrow> out \<noteq> []) \<and>
     (\<exists>fs. acts = map Release fs \<and> map seq_num fs = map sn out)"
proof (cases xs)
  case Nil
  then have e: "reord_list c = []" using w by (simp add: window_def)
  with d have "acts = []" "c' = c\<lparr>reord_timer_work := False, reord_timer := reord_timer c, reord_list := []\<rparr>"
    by (auto simp: worker_decide_def reord_rxframes_process_def due_def undue_def)
  with w r Nil e show ?thesis by (simp add: win_timeout_def window_def)
next
  case (Cons y ys)
  let ?b = "advance y xs"
  have i: "wsize_b c = AICWF_REORDER_WINSIZE"
    and fs: "map seq_num (reord_list c) = map sn xs" and s: "sorted_wrt (<) xs"
    and bd: "\<forall>e \<in> set xs. base < e \<and> e \<le> base + 63" using w by (simp_all add: window_def)
  from fs Cons obtain f gs where l: "reord_list c = f # gs" "seq_num f = sn y" by auto
  have y: "\<forall>e \<in> set xs. y \<le> e \<and> e \<le> y + 63" using s bd Cons by force
  then have lo: "\<forall>e \<in> set xs. y - e < 1984" and hi: "\<forall>e \<in> set xs. e \<le> y + 63 \<and> -2048 \<le> y - e" by force+
  have len: "length xs \<le> 64" using window_length[OF w] by simp
  note rel = release_window[OF fs s lo hi len]
  have p: "reord_rxframes_process True (c\<lparr>reord_timer_work := False\<rparr>) =
      (dropWhile (\<lambda>z. z \<le> ?b) xs \<noteq> [], c\<lparr>reord_timer_work := False, ind_sn := sn ?b\<rparr>)"
    using rel(1) l by (simp add: reord_rxframes_process_def)
  have acts: "acts = map Release (due (sn ?b) (reord_list c))"
    and c': "c' = c\<lparr>reord_timer_work := False, ind_sn := sn ?b,
       reord_timer := dropWhile (\<lambda>z. z \<le> ?b) xs \<noteq> [] \<or> reord_timer c,
       reord_list := undue (sn ?b) (reord_list c)\<rparr>"
    using d p by (auto simp: worker_decide_def)
  have r': "b = ?b" "rest = dropWhile (\<lambda>z. z \<le> ?b) xs" "out = takeWhile (\<lambda>z. z \<le> ?b) xs"
    using r Cons by (auto simp: win_timeout_def Let_def)
  have "window c' b rest"
    unfolding r' using i rel(3,4) drop_sorted[OF s] by (simp add: window_def c')
  moreover have "out \<noteq> []" using advance_ge[of y xs] Cons by (simp add: r')
  ultimately show ?thesis using acts rel(2) by (auto simp: r' c')
qed

end
