(* ===== verification/RxReorderProps.thy ===== *)
theory RxReorderProps
  imports RxReorderRun
begin

text \<open>
  Runs of one reordering buffer, the pool of frame descriptors, and the properties of the
  receive path.
\<close>

section \<open>Runs of one buffer\<close>

datatype rc_event = RcFrame recv_msdu | RcTimeout

fun ctrl_run :: "rx_env \<Rightarrow> rc_event list \<Rightarrow> reord_ctrl \<Rightarrow> rx_priv \<Rightarrow> (reord_ctrl \<times> rx_priv) option" where
  "ctrl_run E [] c P = Some (c, P)"
| "ctrl_run E (RcFrame f # es) c P = do { (c, P) \<leftarrow> ctrl_receive E f c P; ctrl_run E es c P }"
| "ctrl_run E (RcTimeout # es) c P = do { (c, P) \<leftarrow> reord_timeout_worker E c P; ctrl_run E es c P }"

fun decide_run :: "rx_env \<Rightarrow> rc_event list \<Rightarrow> reord_ctrl \<Rightarrow> rx_act list \<times> reord_ctrl" where
  "decide_run E [] c = ([], c)"
| "decide_run E (RcFrame f # es) c = (let (as, c) = ctrl_decide (rtp_byte E f) f c;
     (bs, c) = decide_run E es c in (as @ bs, c))"
| "decide_run E (RcTimeout # es) c = (let (as, c) = worker_decide c;
     (bs, c) = decide_run E es c in (as @ bs, c))"

lemma ctrl_run_decide:
  "ctrl_run E es c P = (case decide_run E es c of (acts, c') \<Rightarrow>
     map_option (Pair c') (do_acts E acts P))"
proof (induction es arbitrary: c P)
  case (Cons e es)
  show ?case
  proof (cases e)
    case (RcFrame f)
    then show ?thesis
      by (cases "ctrl_decide (rtp_byte E f) f c"; cases "decide_run E es (snd (ctrl_decide (rtp_byte E f) f c))")
         (auto simp: ctrl_receive_decide do_acts_append Cons split: Option.bind_split option.splits)
  next
    case RcTimeout
    then show ?thesis
      by (cases "worker_decide c"; cases "decide_run E es (snd (worker_decide c))")
         (auto simp: worker_decide_eq do_acts_append Cons split: Option.bind_split option.splits)
  qed
qed simp

text \<open>
  The run on the numbers: \<open>Some x\<close> is a frame with the unwrapped number \<open>x\<close>, \<open>None\<close> a timeout.
  The first component tells whether every frame was within half of the number space of the
  base when it came.
\<close>

fun win_run :: "int option list \<Rightarrow> int \<Rightarrow> int list \<Rightarrow> bool \<times> int \<times> int list \<times> int list" where
  "win_run [] base xs = (True, base, xs, [])"
| "win_run (Some x # ns) base xs =
     (case win_receive x base xs of
        Moved b rest out \<Rightarrow> (case win_run ns b rest of (ok, b', xs', out') \<Rightarrow>
           (close_to base x \<and> ok, b', xs', out @ out'))
      | _ \<Rightarrow> (case win_run ns base xs of (ok, r) \<Rightarrow> (close_to base x \<and> ok, r)))"
| "win_run (None # ns) base xs =
     (case win_timeout base xs of (b, rest, out) \<Rightarrow>
        (case win_run ns b rest of (ok, b', xs', out') \<Rightarrow> (ok, b', xs', out @ out')))"

fun ev_number :: "rc_event \<Rightarrow> int option \<Rightarrow> bool" where
  "ev_number (RcFrame f) (Some x) = (seq_num f = sn x)"
| "ev_number RcTimeout None = True"
| "ev_number _ _ = False"

lemma win_receive_moved:
  assumes w: "window c base xs" and x: "close_to base x"
    and m: "win_receive x base xs = Moved b rest out"
  shows "sorted_wrt (<) out" "\<forall>r \<in> set out. base \<le> r \<and> r < b" "base \<le> b"
proof -
  have s: "sorted_wrt (<) xs" and bd: "\<forall>e \<in> set xs. base < e \<and> e \<le> base + 63"
    using w by (simp_all add: window_def)
  from m have nx: "\<not> x < base" "x \<notin> set xs"
    and b: "b = advance (win_base x base) (insort x xs)"
    and out: "out = takeWhile (\<lambda>y. y \<le> b) (insort x xs)"
    by (auto simp: win_receive_def Let_def split: if_splits)
  have sy: "sorted_wrt (<) (insort x xs)" using s nx(2) by (rule insort_strict)
  show "sorted_wrt (<) out" unfolding out by (rule take_sorted[OF sy])
  note wb = win_base_bounds[OF bd x]
  show "base \<le> b" using wb(4)[of x] nx(1) advance_ge[of "win_base x base" "insort x xs"]
    by (simp add: b set_insort_key)
  show "\<forall>r \<in> set out. base \<le> r \<and> r < b"
  proof
    fix r assume "r \<in> set out"
    then have "r \<in> set (insort x xs)" "r < b"
      unfolding out using take_below[OF sy] b by (blast dest: set_takeWhileD)+
    then show "base \<le> r \<and> r < b" using wb(5)[of r] nx(1) by simp
  qed
qed

lemma win_timeout_moved:
  assumes w: "window c base xs" and m: "win_timeout base xs = (b, rest, out)"
  shows "sorted_wrt (<) out" "\<forall>r \<in> set out. base \<le> r \<and> r < b" "base \<le> b"
proof -
  have s: "sorted_wrt (<) xs" and bd: "\<forall>e \<in> set xs. base < e \<and> e \<le> base + 63"
    using w by (simp_all add: window_def)
  have "sorted_wrt (<) out \<and> (\<forall>r \<in> set out. base \<le> r \<and> r < b) \<and> base \<le> b"
  proof (cases xs)
    case Nil
    with m show ?thesis by (simp add: win_timeout_def)
  next
    case (Cons y ys)
    have b: "b = advance y xs" and out: "out = takeWhile (\<lambda>z. z \<le> b) xs"
      using m Cons by (auto simp: win_timeout_def Let_def)
    have "base < y" using bd Cons by simp
    then have "base \<le> b" using advance_ge[of y xs] b by simp
    moreover have "\<forall>r \<in> set out. base \<le> r \<and> r < b"
    proof
      fix r assume "r \<in> set out"
      then have "r \<in> set xs" "r < b"
        unfolding out using take_below[OF s] b by (blast dest: set_takeWhileD)+
      then show "base \<le> r \<and> r < b" using bd by force
    qed
    ultimately show ?thesis unfolding out by (simp add: take_sorted[OF s])
  qed
  then show "sorted_wrt (<) out" "\<forall>r \<in> set out. base \<le> r \<and> r < b" "base \<le> b" by simp_all
qed

lemma sorted_join:
  "sorted_wrt (<) out \<Longrightarrow> sorted_wrt (<) out' \<Longrightarrow> \<forall>r \<in> set out. r < (b :: int) \<Longrightarrow>
   \<forall>r \<in> set out'. b \<le> r \<Longrightarrow> sorted_wrt (<) (out @ out')"
  by (force simp: sorted_wrt_append)

lemma releases_drop [simp]:
  "releases [Discard f] = []" "releases [Pass f] = []"
  "releases (if b then [Discard f] else [Pass f]) = []"
  "releases [if b then Discard f else Pass f] = []"
  by simp_all

lemma decide_run_window:
  assumes "window c base xs" and "win_run ns base xs = (True, base', xs', out)"
    and "list_all2 ev_number es ns" and "decide_run E es c = (acts, c')"
  shows "window c' base' xs' \<and> map seq_num (releases acts) = map sn out \<and>
    sorted_wrt (<) out \<and> (\<forall>r \<in> set out. base \<le> r \<and> r < base') \<and> base \<le> base'"
  using assms
proof (induction es arbitrary: c base xs ns out acts)
  case Nil
  then show ?case by simp
next
  case (Cons e es)
  from Cons.prems(3) obtain n ms where ns: "ns = n # ms" "ev_number e n" "list_all2 ev_number es ms"
    by (auto simp: list_all2_Cons1)
  have step: ?case
    if mid: "window c1 b rest" "win_run ms b rest = (True, base', xs', out2)"
      "decide_run E es c1 = (acts2, c')" "acts = acts1 @ acts2" "out = out1 @ out2"
      "map seq_num (releases acts1) = map sn out1" "sorted_wrt (<) out1"
      "\<forall>r \<in> set out1. base \<le> r \<and> r < b" "base \<le> b" for c1 b rest out1 out2 acts1 acts2
  proof -
    note IH = Cons.IH[OF mid(1,2) ns(3) mid(3)]
    have "sorted_wrt (<) out" unfolding mid(5) by (rule sorted_join[of _ _ b]) (use IH mid in auto)
    moreover have "\<forall>r \<in> set out. base \<le> r \<and> r < base'" using IH mid(5,8,9) by force
    ultimately show ?thesis using IH mid by auto
  qed
  show ?case
  proof (cases e)
    case RcTimeout
    then have n: "n = None" using ns(2) by (cases n) simp_all
    obtain acts1 c1 where d1: "worker_decide c = (acts1, c1)" by fastforce
    obtain acts2 where d2: "decide_run E es c1 = (acts2, c')" "acts = acts1 @ acts2"
      using Cons.prems(4) d1 RcTimeout by (auto split: prod.splits)
    obtain b rest out1 where t: "win_timeout base xs = (b, rest, out1)" by (cases "win_timeout base xs") auto
    obtain out2 where r: "win_run ms b rest = (True, base', xs', out2)" "out = out1 @ out2"
      using Cons.prems(2) t by (auto simp: ns n split: prod.splits)
    note wd = worker_decide_window[OF Cons.prems(1) d1 t]
    then have "map seq_num (releases acts1) = map sn out1" by auto
    with step[OF _ r(1) d2 r(2)] wd win_timeout_moved[OF Cons.prems(1) t] show ?thesis by blast
  next
    case (RcFrame f)
    then obtain x where n: "n = Some x" "seq_num f = sn x" using ns(2) by (cases n) auto
    obtain acts1 c1 where d1: "ctrl_decide (rtp_byte E f) f c = (acts1, c1)" by fastforce
    obtain acts2 where d2: "decide_run E es c1 = (acts2, c')" "acts = acts1 @ acts2"
      using Cons.prems(4) d1 RcFrame by (auto split: prod.splits)
    have cl: "close_to base x"
      using Cons.prems(2) by (auto simp: ns n split: win_res.splits prod.splits)
    note dw = ctrl_decide_window[OF Cons.prems(1) n(2) cl d1]
    show ?thesis
    proof (cases "win_receive x base xs")
      case (Moved b rest out1)
      obtain out2 where r: "win_run ms b rest = (True, base', xs', out2)" "out = out1 @ out2"
        using Cons.prems(2) Moved by (auto simp: ns n split: prod.splits)
      have "window c1 b rest" "map seq_num (releases acts1) = map sn out1"
        using dw Moved by (auto simp: decided_def)
      with step[OF _ r(1) d2 r(2)] win_receive_moved[OF Cons.prems(1) cl Moved] show ?thesis by blast
    next
      case Late
      have r: "win_run ms base xs = (True, base', xs', out)"
        using Cons.prems(2) Late by (auto simp: ns n split: prod.splits)
      have "c1 = c" "releases acts1 = []" using dw Late by (auto simp: decided_def)
      then show ?thesis using Cons.IH[OF Cons.prems(1) r ns(3)] d2 by simp
    next
      case Duplicate
      have r: "win_run ms base xs = (True, base', xs', out)"
        using Cons.prems(2) Duplicate by (auto simp: ns n split: prod.splits)
      have "c1 = c" "releases acts1 = []" using dw Duplicate by (auto simp: decided_def)
      then show ?thesis using Cons.IH[OF Cons.prems(1) r ns(3)] d2 by simp
    qed
  qed
qed

lemma decide_run_mset:
  "decide_run E es c = (acts, c') \<Longrightarrow>
   mset (map act_frame acts) + mset (reord_list c') =
   mset (reord_list c) + mset (List.map_filter (\<lambda>e. case e of RcFrame f \<Rightarrow> Some f | _ \<Rightarrow> None) es)"
proof (induction es arbitrary: c acts)
  case (Cons e es)
  show ?case
  proof (cases e)
    case (RcFrame f)
    obtain a1 c1 where d1: "ctrl_decide (rtp_byte E f) f c = (a1, c1)" by fastforce
    obtain a2 where d2: "decide_run E es c1 = (a2, c')" "acts = a1 @ a2"
      using Cons.prems d1 RcFrame by (auto split: prod.splits)
    have "mset (map act_frame acts) + mset (reord_list c') =
        mset (map act_frame a1) + (mset (map act_frame a2) + mset (reord_list c'))"
      by (simp add: d2(2))
    also have "\<dots> = (mset (map act_frame a1) + mset (reord_list c1)) +
        mset (List.map_filter (\<lambda>e. case e of RcFrame f \<Rightarrow> Some f | _ \<Rightarrow> None) es)"
      unfolding Cons.IH[OF d2(1)] by (simp only: add.assoc)
    finally show ?thesis unfolding ctrl_decide_mset[OF d1] RcFrame
      by (simp add: map_filter_simps)
  next
    case RcTimeout
    obtain a1 c1 where d1: "worker_decide c = (a1, c1)" by fastforce
    obtain a2 where d2: "decide_run E es c1 = (a2, c')" "acts = a1 @ a2"
      using Cons.prems d1 RcTimeout by (auto split: prod.splits)
    have "mset (map act_frame acts) + mset (reord_list c') =
        mset (map act_frame a1) + (mset (map act_frame a2) + mset (reord_list c'))"
      by (simp add: d2(2))
    also have "\<dots> = (mset (map act_frame a1) + mset (reord_list c1)) +
        mset (List.map_filter (\<lambda>e. case e of RcFrame f \<Rightarrow> Some f | _ \<Rightarrow> None) es)"
      unfolding Cons.IH[OF d2(1)] by (simp only: add.assoc)
    finally show ?thesis unfolding worker_decide_mset[OF d1] RcTimeout
      by (simp add: map_filter_simps)
  qed
qed simp

end
