(* ===== verification/RxPool.thy ===== *)
theory RxPool
  imports RxReorderProps
begin

text \<open>
  Ownership on the receive path: where the frame descriptors of the pool are, and what has
  become of the buffers that were received.
\<close>

section \<open>Measures\<close>

text \<open>The frames waiting in all buffers of all stations.\<close>

definition pending :: "rx_priv \<Rightarrow> recv_msdu multiset" where
  "pending P = sum_list (map (\<lambda>i. sum_list (map (\<lambda>c. mset (reord_list c)) (preorder_ctrl i)))
     (stas_reord_list P))"

definition free_ids :: "rx_priv \<Rightarrow> nat multiset" where
  "free_ids P = mset (map frame_id (rxframes_freequeue P))"

text \<open>The descriptors of the pool, free or waiting.\<close>

definition pool :: "rx_priv \<Rightarrow> nat multiset" where
  "pool P = free_ids P + image_mset frame_id (pending P)"

fun out_id :: "rx_out \<Rightarrow> nat option" where
  "out_id (Netif s) = Some (skb_id s)"
| "out_id (NetifSub d) = None"
| "out_id (Freed s) = Some (skb_id s)"

text \<open>The buffers that have been handed to the network stack or freed, once for each time.\<close>

definition log_ids :: "rx_priv \<Rightarrow> nat multiset" where
  "log_ids P = mset (List.map_filter out_id (rx_log P))"

text \<open>The buffers that have been received: gone or waiting.\<close>

definition received :: "rx_priv \<Rightarrow> nat multiset" where
  "received P = log_ids P + image_mset (\<lambda>f. skb_id (the (pkt f))) (pending P)"

definition holds_skb :: "recv_msdu \<Rightarrow> bool" where
  "holds_skb f \<longleftrightarrow> pkt f \<noteq> None"

definition plain :: "recv_msdu \<Rightarrow> bool" where
  "plain f \<longleftrightarrow> pkt f \<noteq> None \<and> \<not> is_ap_reord f"

section \<open>Effects on the measures\<close>

lemma account_simps [simp]:
  "rxframes_freequeue (rx_account outs P) = rxframes_freequeue P"
  "stas_reord_list (rx_account outs P) = stas_reord_list P"
  "rx_log (rx_account outs P) = rx_log P @ outs"
  by (simp_all add: rx_account_def Let_def)

lemma free_simps [simp]:
  "stas_reord_list (reord_rxframe_free f P) = stas_reord_list P"
  "rx_log (reord_rxframe_free f P) = rx_log P"
  "free_ids (reord_rxframe_free f P) = free_ids P + {#frame_id f#}"
  by (simp_all add: reord_rxframe_free_def free_ids_def)

lemma free_ids_account [simp]: "free_ids (rx_account outs P) = free_ids P"
  by (simp add: free_ids_def)

lemma drop_frame_effect:
  "stas_reord_list (drop_frame f P) = stas_reord_list P"
  "free_ids (drop_frame f P) = free_ids P + {#frame_id f#}"
  "pkt f = Some s \<Longrightarrow> rx_log (drop_frame f P) = rx_log P @ [Freed s]"
  by (simp_all add: drop_frame_def split: option.splits)

lemma single_ind_effect:
  assumes "reord_single_frame_ind E f P = Some (r, P')" and "pkt f = Some s"
  shows "stas_reord_list P' = stas_reord_list P" "free_ids P' = free_ids P + {#frame_id f#}"
    "\<exists>outs. frame_outs E f s = Some outs \<and> rx_log P' = rx_log P @ outs"
  using assms by (auto simp: reord_single_frame_ind_def split: Option.bind_splits)

lemma do_act_effect:
  assumes "do_act E a P = Some P'" and "holds_skb (act_frame a)"
  shows "stas_reord_list P' = stas_reord_list P" "free_ids P' = free_ids P + {#frame_id (act_frame a)#}"
  using assms by (cases a; force simp: holds_skb_def drop_frame_effect dest: single_ind_effect)+

lemma do_acts_effect:
  assumes "do_acts E acts P = Some P'" and "\<forall>a \<in> set acts. holds_skb (act_frame a)"
  shows "stas_reord_list P' = stas_reord_list P \<and>
    free_ids P' = free_ids P + image_mset frame_id (mset (map act_frame acts))"
  using assms
proof (induction acts arbitrary: P)
  case (Cons a acts)
  from Cons.prems(1) obtain Q where q: "do_act E a P = Some Q" "do_acts E acts Q = Some P'"
    by (auto simp: bind_eq_Some_conv)
  with Cons.IH[OF q(2)] do_act_effect[OF q(1)] Cons.prems(2) show ?case by simp
qed simp

lemma map_filter_subs: "List.map_filter out_id (map NetifSub ds) = []"
  by (induction ds) (simp_all add: map_filter_simps)

lemma frame_outs_plain:
  assumes "frame_outs E f s = Some outs" and "\<not> is_ap_reord f"
  shows "List.map_filter out_id outs = [skb_id s]"
  using assms by (auto simp: frame_outs_def map_filter_simps map_filter_subs
      split: if_splits amsdu_res.splits)

lemma map_filter_append: "List.map_filter g (xs @ ys) = List.map_filter g xs @ List.map_filter g ys"
  by (induction xs) (auto simp: map_filter_simps split: option.splits)

lemma do_act_log:
  assumes "do_act E a P = Some P'" and "plain (act_frame a)"
  shows "log_ids P' = log_ids P + {#skb_id (the (pkt (act_frame a)))#}"
proof -
  from assms(2) obtain s where s: "pkt (act_frame a) = Some s" "\<not> is_ap_reord (act_frame a)"
    by (auto simp: plain_def)
  have ind: "log_ids Q = log_ids P + {#skb_id s#}"
    if "reord_single_frame_ind E (act_frame a) P = Some (r, Q)" for r Q
    using single_ind_effect(3)[OF that s(1)] frame_outs_plain[OF _ s(2)]
    by (auto simp: log_ids_def map_filter_append)
  show ?thesis
  proof (cases a)
    case (Discard f)
    with assms(1) s show ?thesis
      by (auto simp: log_ids_def drop_frame_effect map_filter_append map_filter_simps)
  qed (use assms(1) s ind in auto)
qed

lemma do_acts_log:
  assumes "do_acts E acts P = Some P'" and "\<forall>a \<in> set acts. plain (act_frame a)"
  shows "log_ids P' = log_ids P + image_mset (\<lambda>f. skb_id (the (pkt f))) (mset (map act_frame acts))"
  using assms
proof (induction acts arbitrary: P)
  case (Cons a acts)
  from Cons.prems(1) obtain Q where q: "do_act E a P = Some Q" "do_acts E acts Q = Some P'"
    by (auto simp: bind_eq_Some_conv)
  with Cons.IH[OF q(2)] do_act_log[OF q(1)] Cons.prems(2) show ?case by simp
qed simp

section \<open>Changing one buffer\<close>

lemma pending_put:
  assumes "get_ctrl i t P = Some c" and "i < length (stas_reord_list P)"
  shows "pending (put_ctrl i t c' P) + mset (reord_list c) = pending P + mset (reord_list c')"
proof -
  let ?I = "stas_reord_list P ! i"
  let ?g = "\<lambda>c. mset (reord_list c)" and ?G = "\<lambda>i. sum_list (map (\<lambda>c. mset (reord_list c)) (preorder_ctrl i))"
  let ?I' = "?I\<lparr>preorder_ctrl := (preorder_ctrl ?I)[unat t := c']\<rparr>"
  have t: "unat t < length (preorder_ctrl ?I)" "preorder_ctrl ?I ! unat t = c"
    using assms(1) by (auto simp: get_ctrl_def Let_def split: if_splits)
  have inner: "?G ?I' + mset (reord_list c) = ?G ?I + mset (reord_list c')"
    using sum_list_map_update[OF t(1), of ?g c'] t(2) by simp
  have outer: "pending (put_ctrl i t c' P) + ?G ?I = pending P + ?G ?I'"
    using sum_list_map_update[OF assms(2), of ?G ?I'] by (simp add: pending_def put_ctrl_def)
  have "pending (put_ctrl i t c' P) + mset (reord_list c) + ?G ?I = pending P + (?G ?I' + mset (reord_list c))"
    using outer by (simp add: ac_simps)
  also have "\<dots> = pending P + mset (reord_list c') + ?G ?I" unfolding inner by (simp add: ac_simps)
  finally show ?thesis by simp
qed

lemma put_ctrl_simps [simp]:
  "rxframes_freequeue (put_ctrl i t c P) = rxframes_freequeue P" "rx_log (put_ctrl i t c P) = rx_log P"
  "free_ids (put_ctrl i t c P) = free_ids P" "log_ids (put_ctrl i t c P) = log_ids P"
  by (simp_all add: put_ctrl_def free_ids_def log_ids_def)

lemma get_ctrl_pending:
  assumes "get_ctrl i t P = Some c" and "i < length (stas_reord_list P)" and "f \<in> set (reord_list c)"
  shows "f \<in># pending P"
proof -
  have c: "c \<in> set (preorder_ctrl (stas_reord_list P ! i))"
    using assms(1) by (auto simp: get_ctrl_def Let_def split: if_splits)
  have e: "f \<in># sum_list (map g xs) \<longleftrightarrow> (\<exists>x \<in> set xs. f \<in># g x)" for g :: "'a \<Rightarrow> recv_msdu multiset" and xs
    by (induction xs) auto
  show ?thesis
    unfolding pending_def e using c assms(2,3) nth_mem[OF assms(2)] by (auto simp: e intro!: bexI)
qed

lemma sum_list_replicate_0: "sum_list (replicate n (0 :: 'a :: monoid_add)) = 0"
  by (induction n) simp_all

lemma pending_append:
  "pending (P\<lparr>stas_reord_list := stas_reord_list P @ [\<lparr>mac_addr = mac, preorder_ctrl = replicate n init_ctrl\<rparr>]\<rparr>)
   = pending P"
  by (simp add: pending_def init_ctrl_def sum_list_replicate_0)

lemma pending_cong: "stas_reord_list P = stas_reord_list P' \<Longrightarrow> pending P = pending P'"
  by (simp add: pending_def)

text \<open>
  The effects of a decision on the buffer \<open>(i, t)\<close>, then the buffer put back: \<open>A\<close> is what came
  in from outside.
\<close>

lemma acts_put:
  assumes c: "get_ctrl i t P = Some c" and i: "i < length (stas_reord_list P)"
    and a: "do_acts E acts P = Some P'"
    and m: "mset (map act_frame acts) + mset (reord_list c') = A + mset (reord_list c)"
    and g: "\<forall>g \<in># A. Q g" "\<forall>g \<in># pending P. Q g" and q: "\<forall>g. Q g \<longrightarrow> holds_skb g"
  shows "pool (put_ctrl i t c' P') = pool P + image_mset frame_id A"
    and "\<forall>g \<in># pending (put_ctrl i t c' P'). Q g"
    and "\<forall>g. Q g \<longrightarrow> plain g \<Longrightarrow>
      received (put_ctrl i t c' P') = received P + image_mset (\<lambda>f. skb_id (the (pkt f))) A"
proof -
  have el: "g \<in># mset (map act_frame acts) + mset (reord_list c') \<Longrightarrow> Q g" for g
    unfolding m using g get_ctrl_pending[OF c i] by auto
  then have qa: "\<forall>a \<in> set acts. Q (act_frame a)" and qc: "\<forall>g \<in> set (reord_list c'). Q g" by auto
  from qa q have h: "\<forall>a \<in> set acts. holds_skb (act_frame a)" by blast
  note e = do_acts_effect[OF a h]
  then have same: "pending P' = pending P" by (intro pending_cong) simp
  have "get_ctrl i t P' = Some c" "i < length (stas_reord_list P')"
    using c i e by (simp_all add: get_ctrl_def)
  note p = pending_put[OF this, of c', unfolded same]
  have im: "image_mset h (mset (map act_frame acts)) + image_mset h (pending (put_ctrl i t c' P')) =
      image_mset h A + image_mset h (pending P)" for h :: "recv_msdu \<Rightarrow> nat"
  proof -
    let ?n = "put_ctrl i t c' P'" and ?L = "image_mset h (mset (reord_list c))"
      and ?L' = "image_mset h (mset (reord_list c'))"
    have 1: "image_mset h (mset (map act_frame acts)) + ?L' = image_mset h A + ?L"
      using arg_cong[OF m, of "image_mset h"] by simp
    have 2: "image_mset h (pending ?n) + ?L = image_mset h (pending P) + ?L'"
      using arg_cong[OF p, of "image_mset h"] by simp
    have "image_mset h (mset (map act_frame acts)) + image_mset h (pending ?n) + ?L =
        (image_mset h (mset (map act_frame acts)) + ?L') + image_mset h (pending P)"
      using 2 by (simp only: add.assoc) (simp only: add.commute)
    also have "\<dots> = image_mset h A + image_mset h (pending P) + ?L"
      unfolding 1 by (simp only: add.assoc) (simp only: add.commute)
    finally show ?thesis by simp
  qed
  show "pool (put_ctrl i t c' P') = pool P + image_mset frame_id A"
    using im[of frame_id] e by (simp add: pool_def add.assoc add.commute[of _ "image_mset frame_id A"])
  show "\<forall>g \<in># pending (put_ctrl i t c' P'). Q g"
  proof
    fix g assume "g \<in># pending (put_ctrl i t c' P')"
    then have "g \<in># pending P + mset (reord_list c')" by (metis p union_iff)
    with g(2) qc show "Q g" by auto
  qed
  show "received (put_ctrl i t c' P') = received P + image_mset (\<lambda>f. skb_id (the (pkt f))) A"
    if "\<forall>g. Q g \<longrightarrow> plain g"
    using im[of "\<lambda>f. skb_id (the (pkt f))"] do_acts_log[OF a] qa that
    by (simp add: received_def add.assoc add.commute[of _ "image_mset (\<lambda>f. skb_id (the (pkt f))) A"])
qed

lemma receive_put:
  assumes c: "get_ctrl i t P = Some c" and i: "i < length (stas_reord_list P)"
    and c0: "reord_list c0 = reord_list c"
    and r: "ctrl_receive E f c0 P = Some (c', P')"
    and g: "Q f" "\<forall>g \<in># pending P. Q g" and q: "\<forall>g. Q g \<longrightarrow> holds_skb g"
  shows "pool (put_ctrl i t c' P') = pool P + {#frame_id f#}"
    and "\<forall>g \<in># pending (put_ctrl i t c' P'). Q g"
    and "\<forall>g. Q g \<longrightarrow> plain g \<Longrightarrow>
      received (put_ctrl i t c' P') = received P + {#skb_id (the (pkt f))#}"
proof -
  obtain acts c1 where d: "ctrl_decide (rtp_byte E f) f c0 = (acts, c1)" by fastforce
  with r have c': "c1 = c'" and a: "do_acts E acts P = Some P'"
    by (auto simp: ctrl_receive_decide)
  have "\<forall>g \<in># {#f#}. Q g" using g(1) by simp
  note e = acts_put[OF c i a ctrl_decide_mset[OF d, unfolded c' c0] this g(2) q]
  show "pool (put_ctrl i t c' P') = pool P + {#frame_id f#}"
    "\<forall>g \<in># pending (put_ctrl i t c' P'). Q g"
    "\<forall>g. Q g \<longrightarrow> plain g \<Longrightarrow>
      received (put_ctrl i t c' P') = received P + {#skb_id (the (pkt f))#}"
    using e by simp_all
qed

section \<open>Whole operations\<close>

lemma single_ind_pool:
  assumes "reord_single_frame_ind E f P = Some (r, P')" and "holds_skb f"
  shows "pool P' = pool P + {#frame_id f#}" "pending P' = pending P"
    "plain f \<Longrightarrow> received P' = received P + {#skb_id (the (pkt f))#}"
proof -
  from assms(2) obtain s where s: "pkt f = Some s" by (auto simp: holds_skb_def)
  note e = single_ind_effect[OF assms(1) s]
  show p: "pending P' = pending P" using e(1) by (rule pending_cong)
  show "pool P' = pool P + {#frame_id f#}" by (simp add: pool_def p e(2))
  show "received P' = received P + {#skb_id (the (pkt f))#}" if pl: "plain f"
  proof -
    from e(3) obtain outs where o: "frame_outs E f s = Some outs" "rx_log P' = rx_log P @ outs" by blast
    have "List.map_filter out_id outs = [skb_id s]"
      using pl by (intro frame_outs_plain[OF o(1)]) (simp add: plain_def)
    then show ?thesis by (simp add: received_def p log_ids_def o(2) map_filter_append s)
  qed
qed

lemma fill_frame_simps [simp]:
  "frame_id (fill_frame f s sq t fw am) = frame_id f" "pkt (fill_frame f s sq t fw am) = Some s"
  "is_ap_reord (fill_frame f s sq t fw am) = is_ap_reord f" "seq_num (fill_frame f s sq t fw am) = sq"
  by (simp_all add: fill_frame_def)

definition supported :: "rx_env \<Rightarrow> bool" where
  "supported E \<longleftrightarrow> ev_iftype E \<noteq> OTHER_MODE"

lemma supported_mac: "supported E \<Longrightarrow> \<exists>mac. frame_mac E d = Some mac"
  by (cases "ev_iftype E") (simp_all add: supported_def frame_mac_def)

lemma find_sta_range: "0 \<le> find_sta mac P \<Longrightarrow> nat (find_sta mac P) < length (stas_reord_list P)"
  unfolding find_sta_def
  by (cases rule: first_idx_cases[of "\<lambda>i. mac_addr i = mac" "stas_reord_list P"]) simp_all

text \<open>The ways a frame is processed.\<close>

lemma process_unit_cases:
  assumes r: "reord_process_unit E f0 skb sq tid fw am P = Some (r, P')" and sup: "supported E"
  obtains (direct) r' where "reord_single_frame_ind E (fill_frame f0 skb sq tid fw am) P = Some (r', P')"
  | (buffered) i P1 c c0 c' P2 where "i < length (stas_reord_list P1)" "get_ctrl i tid P1 = Some c"
      "reord_list c0 = reord_list c" "P' = put_ctrl i tid c' P2" "r = 0"
      "ctrl_receive E (fill_frame f0 skb sq tid fw am) c0 P1 = Some (c', P2)"
      "pending P1 = pending P" "free_ids P1 = free_ids P" "log_ids P1 = log_ids P"
proof -
  let ?f = "fill_frame f0 skb sq tid fw am"
  obtain mac where mac: "frame_mac E (skb_data skb) = Some mac" using supported_mac[OF sup] by blast
  from r obtain da0 proto where "rd8 (skb_data skb) 0 = Some da0" "rd_be16 (skb_data skb) 12 = Some proto"
    by (auto simp: reord_process_unit_def Let_def bind_eq_Some_conv)
  note r = r[unfolded reord_process_unit_def Let_def this mac bind.bind_lunit option.case]
  show thesis
  proof (cases "proto = ETH_P_PAE \<or> da0 AND 0x01 \<noteq> 0")
    case True
    with r show thesis by (intro direct) simp
  next
    case False
    show thesis
    proof (cases "find_sta mac P < 0")
      case new: True
      show thesis
      proof (cases "reord_init_sta E mac")
        case None
        with r False new show thesis
          by (auto simp: bind_eq_Some_conv intro: direct)
      next
        case (Some info)
        let ?P1 = "P\<lparr>stas_reord_list := stas_reord_list P @ [info]\<rparr>"
        from Some have info: "info = \<lparr>mac_addr = mac, preorder_ctrl = replicate 8 init_ctrl\<rparr>"
          by (auto simp: reord_init_sta_def split: if_splits)
        from r False new Some obtain c c' P2 where
          c: "get_ctrl (length (stas_reord_list P)) tid ?P1 = Some c"
          "ctrl_receive E ?f c ?P1 = Some (c', P2)"
          "r = 0" "P' = put_ctrl (length (stas_reord_list P)) tid c' P2"
          by (auto simp: bind_eq_Some_conv)
        show thesis
          by (rule buffered[OF _ c(1) refl c(4,3,2)])
             (simp_all add: info pending_append free_ids_def log_ids_def)
      qed
    next
      case old: False
      let ?i = "nat (find_sta mac P)"
      have i: "?i < length (stas_reord_list P)" using old by (intro find_sta_range) simp
      from r False old obtain c c' P2 where
        c: "get_ctrl ?i tid P = Some c" "r = 0" "P' = put_ctrl ?i tid c' P2"
        "ctrl_receive E ?f (if \<not> rc_enable c then c\<lparr>rc_enable := True, ind_sn := 0xffff,
             wsize_b := AICWF_REORDER_WINSIZE\<rparr> else c) P = Some (c', P2)"
        by (auto simp: bind_eq_Some_conv simp del: if_not_P)
      show thesis by (rule buffered[OF i c(1) _ c(3,2,4)]) simp_all
    qed
  qed
qed

lemma process_unit_effect:
  assumes r: "reord_process_unit E f0 skb sq tid fw am P = Some (r, P')" and sup: "supported E"
    and g: "Q (fill_frame f0 skb sq tid fw am)" "\<forall>g \<in># pending P. Q g"
    and q: "\<forall>g. Q g \<longrightarrow> holds_skb g"
  shows "pool P' = pool P + {#frame_id f0#}" and "\<forall>g \<in># pending P'. Q g"
    and "\<forall>g. Q g \<longrightarrow> plain g \<Longrightarrow> received P' = received P + {#skb_id skb#}"
proof -
  have "pool P' = pool P + {#frame_id f0#} \<and> (\<forall>g \<in># pending P'. Q g) \<and>
    ((\<forall>g. Q g \<longrightarrow> plain g) \<longrightarrow> received P' = received P + {#skb_id skb#})"
    using r sup
  proof (cases rule: process_unit_cases)
    case (direct r')
    have "holds_skb (fill_frame f0 skb sq tid fw am)" by (simp add: holds_skb_def)
    with single_ind_pool[OF direct this] g show ?thesis by simp
  next
    case (buffered i P1 c c0 c' P2)
    have "\<forall>g \<in># pending P1. Q g" using g(2) buffered(7) by simp
    note e = receive_put[OF buffered(2,1,3,6) g(1) this q]
    have "pool P1 = pool P" "received P1 = received P"
      using buffered(7,8,9) by (simp_all add: pool_def received_def)
    with e show ?thesis unfolding buffered(4) by simp
  qed
  then show "pool P' = pool P + {#frame_id f0#}" "\<forall>g \<in># pending P'. Q g"
    "\<forall>g. Q g \<longrightarrow> plain g \<Longrightarrow> received P' = received P + {#skb_id skb#}" by blast+
qed

end
