(* ===== verification/RxProps.thy ===== *)
theory RxProps
  imports RxPool
begin

text \<open>
  The receive path as a whole: the states reached by receiving, timing out, flushing and
  removing stations, and its properties.
\<close>

section \<open>Flushing, timing out, removing\<close>

definition rx_worker :: "rx_env \<Rightarrow> nat \<Rightarrow> u8 \<Rightarrow> rx_priv \<Rightarrow> rx_priv option" where
  "rx_worker E i t P = (if i < length (stas_reord_list P) then do {
     c \<leftarrow> get_ctrl i t P; (c, P) \<leftarrow> reord_timeout_worker E c P; Some (put_ctrl i t c P) } else None)"

definition rx_timer :: "bool \<Rightarrow> nat \<Rightarrow> u8 \<Rightarrow> rx_priv \<Rightarrow> rx_priv option" where
  "rx_timer down i t P = (if i < length (stas_reord_list P) then do {
     c \<leftarrow> get_ctrl i t P; Some (put_ctrl i t (reord_timeout_handler down c) P) } else None)"

lemma put_same_pending:
  assumes "get_ctrl i t P = Some c" and "i < length (stas_reord_list P)" and "reord_list c' = reord_list c"
  shows "pending (put_ctrl i t c' P) = pending P"
  using pending_put[OF assms(1,2), of c'] assms(3) by simp

lemma rx_timer_effect:
  assumes "rx_timer down i t P = Some P'"
  shows "pool P' = pool P" "pending P' = pending P"
proof -
  from assms obtain c where c: "get_ctrl i t P = Some c" "i < length (stas_reord_list P)"
    "P' = put_ctrl i t (reord_timeout_handler down c) P"
    by (auto simp: rx_timer_def bind_eq_Some_conv split: if_splits)
  have "pending P' = pending P" unfolding c(3)
    by (rule put_same_pending[OF c(1,2)]) (simp add: reord_timeout_handler_def Let_def)
  then show "pool P' = pool P" "pending P' = pending P" by (simp_all add: pool_def c(3))
qed

lemma rx_worker_effect:
  assumes "rx_worker E i t P = Some P'" and "\<forall>g \<in># pending P. Q g" and "\<forall>g. Q g \<longrightarrow> holds_skb g"
  shows "pool P' = pool P" "\<forall>g \<in># pending P'. Q g"
    "\<forall>g. Q g \<longrightarrow> plain g \<Longrightarrow> received P' = received P"
proof -
  from assms(1) obtain c c' P1 where c: "get_ctrl i t P = Some c" "i < length (stas_reord_list P)"
    "reord_timeout_worker E c P = Some (c', P1)" "P' = put_ctrl i t c' P1"
    by (auto simp: rx_worker_def bind_eq_Some_conv split: if_splits)
  obtain acts c1 where d: "worker_decide c = (acts, c1)" by fastforce
  with c(3) have c1: "c1 = c'" "do_acts E acts P = Some P1" by (auto simp: worker_decide_eq)
  have m: "mset (map act_frame acts) + mset (reord_list c') = {#} + mset (reord_list c)"
    using worker_decide_mset[OF d] c1 by simp
  note e = acts_put[OF c(1,2) c1(2) m _ assms(2,3)]
  show "pool P' = pool P" "\<forall>g \<in># pending P'. Q g"
    "\<forall>g. Q g \<longrightarrow> plain g \<Longrightarrow> received P' = received P"
    unfolding c(4) using e by simp_all
qed

lemma flush_effect:
  assumes "reord_flush_tid E skb t P = Some (0, P')" and "supported E"
    and "\<forall>g \<in># pending P. Q g" and "\<forall>g. Q g \<longrightarrow> holds_skb g"
  shows "pool P' = pool P" "\<forall>g \<in># pending P'. Q g"
    "\<forall>g. Q g \<longrightarrow> plain g \<Longrightarrow> received P' = received P"
proof -
  obtain mac where mac: "frame_mac E (skb_data skb) = Some mac" using supported_mac[OF assms(2)] by blast
  have "P' = P \<or> (\<exists>c P1. get_ctrl (nat (find_sta mac P)) t P = Some c \<and> \<not> find_sta mac P < 0 \<and>
      flush_list E (reord_list c) P = Some P1 \<and>
      P' = put_ctrl (nat (find_sta mac P)) t (c\<lparr>reord_list := [], rc_enable := False,
        reord_timer := False, reord_timer_work := False\<rparr>) P1)"
    using assms(1) by (auto simp: reord_flush_tid_def mac Let_def bind_eq_Some_conv split: if_splits)
  then have "pool P' = pool P \<and> (\<forall>g \<in># pending P'. Q g) \<and>
    ((\<forall>g. Q g \<longrightarrow> plain g) \<longrightarrow> received P' = received P)"
  proof (elim disjE exE conjE)
    fix c :: reord_ctrl and P1
    let ?i = "nat (find_sta mac P)"
    let ?c = "c\<lparr>reord_list := [], rc_enable := False, reord_timer := False, reord_timer_work := False\<rparr>"
    assume c: "get_ctrl ?i t P = Some c" and n: "\<not> find_sta mac P < 0"
      and f: "flush_list E (reord_list c) P = Some P1" and P': "P' = put_ctrl ?i t ?c P1"
    have i: "?i < length (stas_reord_list P)" using n by (intro find_sta_range) simp
    have m: "mset (map act_frame (map Release (reord_list c))) + mset (reord_list ?c) = {#} + mset (reord_list c)"
      by (simp add: comp_def)
    note e = acts_put[OF c i f[unfolded flush_list_acts] m _ assms(3,4)]
    show ?thesis unfolding P' using e by simp
  qed (use assms in simp)
  then show "pool P' = pool P" "\<forall>g \<in># pending P'. Q g"
    "\<forall>g. Q g \<longrightarrow> plain g \<Longrightarrow> received P' = received P" by blast+
qed

lemma fold_drop_effect:
  "stas_reord_list (fold drop_frame fs P) = stas_reord_list P"
  "free_ids (fold drop_frame fs P) = free_ids P + image_mset frame_id (mset fs)"
  by (induction fs arbitrary: P) (simp_all add: drop_frame_effect)

lemma fold_drop_ctrls:
  "stas_reord_list (fold (\<lambda>c. fold drop_frame (reord_list c)) cs P) = stas_reord_list P \<and>
   free_ids (fold (\<lambda>c. fold drop_frame (reord_list c)) cs P) =
     free_ids P + image_mset frame_id (sum_list (map (\<lambda>c. mset (reord_list c)) cs))"
  by (induction cs arbitrary: P) (simp_all add: fold_drop_effect)

lemma deinit_effect:
  assumes i: "i < length (stas_reord_list P)"
  shows "pool (reord_deinit_sta i P) = pool P" "set_mset (pending (reord_deinit_sta i P)) \<subseteq> set_mset (pending P)"
proof -
  let ?G = "\<lambda>i. sum_list (map (\<lambda>c. mset (reord_list c)) (preorder_ctrl i))"
  let ?xs = "stas_reord_list P"
  let ?P = "fold (\<lambda>c. fold drop_frame (reord_list c)) (preorder_ctrl (?xs ! i)) P"
  have e: "stas_reord_list ?P = ?xs" "free_ids ?P = free_ids P + image_mset frame_id (?G (?xs ! i))"
    using fold_drop_ctrls by blast+
  have d: "reord_deinit_sta i P = ?P\<lparr>stas_reord_list := take i ?xs @ drop (Suc i) ?xs\<rparr>"
    by (simp add: reord_deinit_sta_def Let_def e)
  have xs: "?xs = take i ?xs @ ?xs ! i # drop (Suc i) ?xs" using i by (rule id_take_nth_drop)
  have p: "pending P = pending (reord_deinit_sta i P) + ?G (?xs ! i)"
    unfolding d pending_def by (subst xs) (simp add: ac_simps)
  show "pool (reord_deinit_sta i P) = pool P"
    unfolding pool_def p using e(2) by (simp add: d free_ids_def ac_simps)
  show "set_mset (pending (reord_deinit_sta i P)) \<subseteq> set_mset (pending P)" unfolding p by simp
qed

section \<open>Reachable states\<close>

definition rx_start :: "recv_msdu list \<Rightarrow> rx_priv" where
  "rx_start fs = \<lparr>rxframes_freequeue = fs, stas_reord_list = [], rx_log = [], rx_packets = 0, rx_bytes = 0\<rparr>"

text \<open>
  What the driver does on its receive path in a supported mode: a descriptor is taken from the
  pool, filled in by the caller and processed; timers and workers run; buffers are flushed and
  stations removed, in any order.
\<close>

inductive rx_reach :: "recv_msdu list \<Rightarrow> rx_priv \<Rightarrow> bool" for fs where
  start: "rx_reach fs (rx_start fs)"
| frame: "rx_reach fs P \<Longrightarrow> reord_rxframe_alloc P = (Some f, P1) \<Longrightarrow> supported E \<Longrightarrow>
    frame_id f' = frame_id f \<Longrightarrow> reord_process_unit E f' skb sq t fwd am P1 = Some (r, P') \<Longrightarrow> rx_reach fs P'"
| timer: "rx_reach fs P \<Longrightarrow> rx_timer down i t P = Some P' \<Longrightarrow> rx_reach fs P'"
| worker: "rx_reach fs P \<Longrightarrow> rx_worker E i t P = Some P' \<Longrightarrow> rx_reach fs P'"
| flush: "rx_reach fs P \<Longrightarrow> supported E \<Longrightarrow> reord_flush_tid E skb t P = Some (0, P') \<Longrightarrow> rx_reach fs P'"
| remove: "rx_reach fs P \<Longrightarrow> i < length (stas_reord_list P) \<Longrightarrow> rx_reach fs (reord_deinit_sta i P)"

lemma alloc_effect:
  assumes "reord_rxframe_alloc P = (Some f, P1)"
  shows "pool P = pool P1 + {#frame_id f#}" "pending P1 = pending P" "received P1 = received P"
proof -
  from assms have P: "rxframes_freequeue P = f # rxframes_freequeue P1"
    "stas_reord_list P1 = stas_reord_list P" "rx_log P1 = rx_log P"
    by (auto simp: reord_rxframe_alloc_def split: list.splits)
  show "pending P1 = pending P" using P(2) by (rule pending_cong)
  then show "pool P = pool P1 + {#frame_id f#}" "received P1 = received P"
    by (simp_all add: pool_def free_ids_def P(1,3) received_def log_ids_def)
qed

lemma rx_reach_pool:
  "rx_reach fs P \<Longrightarrow> pool P = mset (map frame_id fs) \<and> (\<forall>g \<in># pending P. holds_skb g)"
proof (induction rule: rx_reach.induct)
  case start
  then show ?case by (simp add: rx_start_def pool_def free_ids_def pending_def)
next
  case (frame P f P1 E f' skb sq t fwd am r P')
  have h: "holds_skb (fill_frame f' skb sq t fwd am)" by (simp add: holds_skb_def)
  have p: "\<forall>g \<in># pending P1. holds_skb g"
    unfolding alloc_effect(2)[OF frame.hyps(2)] using frame.IH by blast
  have "\<forall>g. holds_skb g \<longrightarrow> holds_skb g" by simp
  note e = process_unit_effect[OF frame.hyps(5,3) h p this]
  have "pool P' = pool P" unfolding e(1) alloc_effect(1)[OF frame.hyps(2)] frame.hyps(4) ..
  with e(2) frame.IH show ?case by simp
next
  case (timer P down i t P')
  note e = rx_timer_effect[OF timer.hyps(2)]
  show ?case unfolding e using timer.IH .
next
  case (worker P E i t P')
  have p: "\<forall>g \<in># pending P. holds_skb g" using worker.IH by blast
  have "\<forall>g. holds_skb g \<longrightarrow> holds_skb g" by simp
  note e = rx_worker_effect[OF worker.hyps(2) p this]
  show ?case unfolding e(1) using e(2) worker.IH by blast
next
  case (flush P E skb t P')
  have p: "\<forall>g \<in># pending P. holds_skb g" using flush.IH by blast
  have "\<forall>g. holds_skb g \<longrightarrow> holds_skb g" by simp
  note e = flush_effect[OF flush.hyps(3,2) p this]
  show ?case unfolding e(1) using e(2) flush.IH by blast
next
  case (remove P i)
  note e = deinit_effect[OF remove.hyps(2)]
  show ?case unfolding e(1) using e(2) remove.IH by blast
qed

section \<open>Concrete inputs\<close>

definition demo_rx_env :: rx_env where
  "demo_rx_env = \<lparr>ev_iftype = STATION, ev_bus_down = False, ev_kmalloc_ok = True, ev_vif_up = True,
     ev_sub_alloc = (\<lambda>_. True), ev_rounds = 100, ev_beyond = 0\<rparr>"

definition demo_skb :: "nat \<Rightarrow> skb" where
  "demo_skb n = \<lparr>skb_id = n, skb_data = [2, 0, 0, 0, 0, 1, 2, 0, 0, 0, 0, 2, 8, 0] @ replicate 40 0\<rparr>"

definition demo_frame :: "nat \<Rightarrow> int \<Rightarrow> recv_msdu" where
  "demo_frame n x = \<lparr>frame_id = n, pkt = Some (demo_skb n), rf_tid = 0, forward = True, seq_num = sn x,
     is_amsdu = False, is_ap_reord = False, ap_fwd_cnt = 0, ap_resend_cnt = 0,
     rx_data = skb_data (demo_skb n), fwd_skbs = [], resend_skbs = []\<rparr>"

definition demo_ctrl :: reord_ctrl where
  "demo_ctrl = init_ctrl\<lparr>ind_sn := sn 4094\<rparr>"

lemma demo_ctrl_window: "window demo_ctrl 4094 []"
  by (simp add: window_def demo_ctrl_def init_ctrl_def)

text \<open>A pool of two descriptors, and the state after one frame of a new station.\<close>

definition demo_pool :: "recv_msdu list" where
  "demo_pool = [demo_frame 0 0, demo_frame 1 0]"

definition demo_taken :: rx_priv where
  "demo_taken = snd (reord_rxframe_alloc (rx_start demo_pool))"

definition demo_after :: rx_priv where
  "demo_after = snd (the (reord_process_unit demo_rx_env (demo_frame 0 0) (demo_skb 7) 5 0 True False demo_taken))"

lemma demo_processed:
  "reord_process_unit demo_rx_env (demo_frame 0 0) (demo_skb 7) 5 0 True False demo_taken = Some (0, demo_after)"
proof -
  have "map_option fst (reord_process_unit demo_rx_env (demo_frame 0 0) (demo_skb 7) 5 0 True False demo_taken) = Some 0"
    by code_simp
  then show ?thesis by (auto simp: demo_after_def)
qed

lemma demo_supported: "supported demo_rx_env"
  by (simp add: supported_def demo_rx_env_def)

lemma demo_after_reach: "rx_reach demo_pool demo_after"
proof (rule rx_reach.frame[OF rx_reach.start _ demo_supported refl demo_processed])
  show "reord_rxframe_alloc (rx_start demo_pool) = (Some (demo_frame 0 0), demo_taken)"
    by (simp add: demo_taken_def reord_rxframe_alloc_def rx_start_def demo_pool_def)
qed

section \<open>Properties of the receive path\<close>

text \<open>
  One received frame, within half of the number space of what the buffer expects, does
  exactly what the window over unbounded numbers does: a late frame leaves the buffer alone and
  is passed on (or freed, when its byte 42 marks it as RTP), a frame the buffer already holds is
  freed, and any other one moves the window and releases, in order, the frames that are due;
  afterwards the timer is pending exactly when frames are left. The same holds for the first
  frame of a buffer, which sets the number that is expected.
\<close>

theorem reorder_step_refines:
  assumes "window c base xs \<or> (untouched c \<and> base = x \<and> xs = [])"
    and "seq_num f = sn x" and "close_to base x"
  shows "\<exists>acts c0 c'. (\<forall>P. ctrl_receive E f c P = map_option (Pair c') (do_acts E acts P)) \<and>
    window c0 base xs \<and> decided (rtp_byte E f) f c0 (win_receive x base xs) acts c'"
proof -
  obtain acts c' where d: "ctrl_decide (rtp_byte E f) f c = (acts, c')" by fastforce
  have r: "\<forall>P. ctrl_receive E f c P = map_option (Pair c') (do_acts E acts P)"
    by (simp add: ctrl_receive_decide d)
  from assms(1) show ?thesis
  proof (elim disjE conjE)
    assume w: "window c base xs"
    from ctrl_decide_window[OF w assms(2,3) d] r w show ?thesis by blast
  next
    assume u: "untouched c" "base = x" "xs = []"
    note first = ctrl_decide_first[OF u(1) assms(2)]
    from ctrl_decide_window[OF first(2) assms(2)] assms(3) d first r u
    show ?thesis by fastforce
  qed
qed

lemma reorder_step_refines_witness:
  "\<exists>acts c'. (\<forall>P. ctrl_receive demo_rx_env (demo_frame 1 4094) demo_ctrl P =
     map_option (Pair c') (do_acts demo_rx_env acts P)) \<and> window c' 4095 [] \<and> \<not> reord_timer c'"
proof -
  have "win_receive 4094 4094 [] = Moved 4095 [] [4094]" by code_simp
  note w = this
  have "seq_num (demo_frame 1 4094) = sn 4094" "close_to 4094 4094"
    by (simp_all add: demo_frame_def close_to_def)
  note r = reorder_step_refines[OF disjI1[OF demo_ctrl_window] this, of demo_rx_env, unfolded w]
  from r obtain acts c0 c' where a: "\<forall>P. ctrl_receive demo_rx_env (demo_frame 1 4094) demo_ctrl P =
       map_option (Pair c') (do_acts demo_rx_env acts P)"
    and d: "decided (rtp_byte demo_rx_env (demo_frame 1 4094)) (demo_frame 1 4094) c0 (Moved 4095 [] [4094]) acts c'"
    by (elim exE conjE)
  from d have "window c' 4095 []" "\<not> reord_timer c'" unfolding decided_def win_res.case by simp_all
  with a show ?thesis by blast
qed

text \<open>
  C2: Over any sequence of frames and timeouts, with numbers that never are half of the number
  space away from what is expected, the buffer releases frames in strictly increasing order of
  their unwrapped numbers: no frame is released twice, none overtakes an earlier one, across
  the wrap of the 12-bit field as well. What is left stays within the window of 64, and no
  frame is lost: those released, passed, discarded and still waiting are those that came.
\<close>

theorem reorder_run_in_order:
  assumes "window c base xs" and "list_all2 ev_number es ns"
    and "win_run ns base xs = (True, base', xs', out)"
  shows "\<exists>acts c'. (\<forall>P. ctrl_run E es c P = map_option (Pair c') (do_acts E acts P)) \<and>
    map seq_num (releases acts) = map sn out \<and> sorted_wrt (<) out \<and>
    (\<forall>r \<in> set out. base \<le> r \<and> r < base') \<and> window c' base' xs' \<and> length (reord_list c') \<le> 63 \<and>
    mset (map act_frame acts) + mset (reord_list c') =
      mset (reord_list c) + mset (List.map_filter (\<lambda>e. case e of RcFrame f \<Rightarrow> Some f | _ \<Rightarrow> None) es)"
proof -
  obtain acts c' where d: "decide_run E es c = (acts, c')" by fastforce
  have r: "\<forall>P. ctrl_run E es c P = map_option (Pair c') (do_acts E acts P)"
    by (simp add: ctrl_run_decide d)
  note w = decide_run_window[OF assms(1,3,2) d]
  then have "length xs' \<le> 63" using window_length by blast
  moreover have "length (reord_list c') = length xs'"
    using w by (metis length_map window_def)
  ultimately show ?thesis using r w decide_run_mset[OF d] by (intro exI[of _ acts] exI[of _ c']) simp
qed

lemma reorder_run_in_order_witness:
  "\<exists>acts c'. (\<forall>P. ctrl_run demo_rx_env [RcFrame (demo_frame 1 4094), RcFrame (demo_frame 2 4096),
       RcFrame (demo_frame 3 4095)] demo_ctrl P = map_option (Pair c') (do_acts demo_rx_env acts P)) \<and>
    map seq_num (releases acts) = [4094, 4095, 0]"
proof -
  have w: "win_run [Some 4094, Some 4096, Some 4095] 4094 [] = (True, 4097, [], [4094, 4095, 4096])"
    unfolding win_run.simps win_receive_def close_to_def by code_simp
  have l: "list_all2 ev_number [RcFrame (demo_frame 1 4094), RcFrame (demo_frame 2 4096),
       RcFrame (demo_frame 3 4095)] [Some 4094, Some 4096, Some 4095]"
    by (simp add: demo_frame_def)
  from reorder_run_in_order[OF demo_ctrl_window l w, of demo_rx_env] obtain acts c' where
    "\<forall>P. ctrl_run demo_rx_env [RcFrame (demo_frame 1 4094), RcFrame (demo_frame 2 4096),
       RcFrame (demo_frame 3 4095)] demo_ctrl P = map_option (Pair c') (do_acts demo_rx_env acts P)"
    "map seq_num (releases acts) = map sn [4094, 4095, 4096]"
    by (elim exE conjE)
  moreover have "map sn [4094, 4095, 4096] = [4094, 4095, 0]" by (simp add: sn_def)
  ultimately show ?thesis by metis
qed

text \<open>
  When the worker of a buffer runs with frames waiting, it releases at least the first of
  them, and if frames are left its timer is pending again: no frame waits for ever, as long as
  the timer's handler and the worker get to run.
\<close>

theorem reorder_timeout_progress:
  assumes "window c base xs" and "xs \<noteq> []"
  shows "\<exists>acts c' base' xs'. (\<forall>P. reord_timeout_worker E c P = map_option (Pair c') (do_acts E acts P)) \<and>
    window c' base' xs' \<and> base < base' \<and> length xs' < length xs \<and> releases acts \<noteq> [] \<and>
    hd (releases acts) = hd (reord_list c) \<and> (xs' = [] \<or> reord_timer c')"
proof -
  obtain acts c' where d: "worker_decide c = (acts, c')" by fastforce
  obtain b rest out where t: "win_timeout base xs = (b, rest, out)" by (cases "win_timeout base xs") auto
  note w = worker_decide_window[OF assms(1) d t]
  then obtain fs where fs: "acts = map Release fs" "map seq_num fs = map sn out" by blast
  have out: "out \<noteq> []" using w assms(2) by blast
  note mv = win_timeout_moved[OF assms(1) t]
  from t assms(2) have "xs = out @ rest"
    by (auto simp: win_timeout_def Let_def split: list.splits)
  then have l: "length rest < length xs" using out by simp
  have "base < b"
  proof -
    from out obtain r where "r \<in> set out" by (cases out) auto
    then have "r \<in> set xs" "r < b" using \<open>xs = out @ rest\<close> mv(2) by auto
    moreover have "base < r" using assms(1) \<open>r \<in> set xs\<close> by (simp add: window_def)
    ultimately show ?thesis by simp
  qed
  moreover have ne: "releases acts \<noteq> []" using fs out by auto
  moreover have "hd (releases acts) = hd (reord_list c)"
  proof -
    obtain b1 c1 where p: "reord_rxframes_process True (c\<lparr>reord_timer_work := False\<rparr>) = (b1, c1)" by fastforce
    have "acts = map Release (due (ind_sn c1) (reord_list c))" using d p by (auto simp: worker_decide_def)
    then have "releases acts = due (ind_sn c1) (reord_list c)" by simp
    with ne due_undue[of "ind_sn c1" "reord_list c"] show ?thesis by (metis hd_append2)
  qed
  moreover have "\<forall>P. reord_timeout_worker E c P = map_option (Pair c') (do_acts E acts P)"
    by (simp add: worker_decide_eq d)
  ultimately show ?thesis using w l by blast
qed

lemma reorder_timeout_progress_witness:
  "\<exists>acts c' base' xs'. (\<forall>P. reord_timeout_worker demo_rx_env (demo_ctrl\<lparr>reord_list := [demo_frame 1 4096]\<rparr>) P =
      map_option (Pair c') (do_acts demo_rx_env acts P)) \<and> window c' base' xs' \<and> xs' = [] \<and> releases acts \<noteq> []"
proof -
  have "window (demo_ctrl\<lparr>reord_list := [demo_frame 1 4096]\<rparr>) 4094 [4096]"
    by (simp add: window_def demo_ctrl_def init_ctrl_def demo_frame_def)
  from reorder_timeout_progress[OF this] show ?thesis by fastforce
qed

text \<open>
  C11: In every state the receive path reaches, each descriptor of the pool is in exactly one
  place: free, or waiting in one buffer. Receiving, timing out, flushing and removing stations
  neither lose a descriptor nor put one into two places, and no more frames wait than the pool
  had descriptors.
\<close>

theorem rx_pool_conserved:
  assumes "rx_reach fs P" and "distinct (map frame_id fs)"
  shows "mset (map frame_id (rxframes_freequeue P)) + image_mset frame_id (pending P) = mset (map frame_id fs) \<and>
    distinct (map frame_id (rxframes_freequeue P)) \<and>
    (\<forall>g \<in># pending P. frame_id g \<notin> frame_id ` set (rxframes_freequeue P)) \<and>
    length (rxframes_freequeue P) + size (pending P) = length fs"
proof (intro conjI)
  let ?F = "map frame_id (rxframes_freequeue P)"
  have e: "mset ?F + image_mset frame_id (pending P) = mset (map frame_id fs)"
    using rx_reach_pool[OF assms(1)] by (simp add: pool_def free_ids_def)
  then show "mset ?F + image_mset frame_id (pending P) = mset (map frame_id fs)" .
  have one: "count (mset ?F) a + count (image_mset frame_id (pending P)) a \<le> 1" for a
  proof -
    have "count (mset ?F) a + count (image_mset frame_id (pending P)) a = count (mset (map frame_id fs)) a"
      unfolding e[symmetric] by simp
    also have "\<dots> \<le> 1" using assms(2) by (simp add: distinct_count_atmost_1)
    finally show ?thesis .
  qed
  show "distinct ?F"
    using one by (intro distinct_if_count_le) (metis add_leD1)
  show "\<forall>g \<in># pending P. frame_id g \<notin> frame_id ` set (rxframes_freequeue P)"
  proof (intro ballI notI)
    fix g assume g: "g \<in># pending P" "frame_id g \<in> frame_id ` set (rxframes_freequeue P)"
    then have "0 < count (mset ?F) (frame_id g)" "0 < count (image_mset frame_id (pending P)) (frame_id g)"
      by (simp_all only: count_greater_zero_iff) simp_all
    with one[of "frame_id g"] show False by linarith
  qed
  have "size (mset ?F + image_mset frame_id (pending P)) = size (mset (map frame_id fs))" by (simp only: e)
  then show "length (rxframes_freequeue P) + size (pending P) = length fs" by simp
qed

lemma rx_pool_conserved_witness:
  "length (rxframes_freequeue demo_after) + size (pending demo_after) = 2"
proof -
  have "distinct (map frame_id demo_pool)" by (simp add: demo_pool_def demo_frame_def)
  from rx_pool_conserved[OF demo_after_reach this] show ?thesis by (simp add: demo_pool_def)
qed

text \<open>
  On a station interface every received buffer has exactly one fate: after
  \<^verbatim>\<open>reord_process_unit\<close> it waits in one reordering buffer, or it has been handed to the network
  stack or freed, once; the same goes for all buffers received before.
\<close>

theorem rx_buffer_once:
  assumes "reord_process_unit E f skb sq tid fwd am P = Some (r, P')" and "supported E"
    and "\<not> is_ap_reord f" and "\<forall>g \<in># pending P. plain g"
  shows "received P' = received P + {#skb_id skb#} \<and> (\<forall>g \<in># pending P'. plain g)"
proof -
  have "plain (fill_frame f skb sq tid fwd am)" using assms(3) by (simp add: plain_def)
  moreover have "\<forall>g. plain g \<longrightarrow> holds_skb g" "\<forall>g. plain g \<longrightarrow> plain g"
    by (simp_all add: plain_def holds_skb_def)
  ultimately show ?thesis using process_unit_effect(2,3)[OF assms(1,2) _ assms(4)] by blast
qed

lemma rx_buffer_once_witness: "received demo_after = received demo_taken + {#7#}"
proof -
  have "\<not> is_ap_reord (demo_frame 0 0)" by (simp add: demo_frame_def)
  moreover have "\<forall>g \<in># pending demo_taken. plain g"
    by (simp add: pending_def demo_taken_def reord_rxframe_alloc_def rx_start_def demo_pool_def)
  ultimately have "received demo_after = received demo_taken + {#skb_id (demo_skb 7)#}"
    by (rule conjunct1[OF rx_buffer_once[OF demo_processed demo_supported]])
  then show ?thesis by (simp add: demo_skb_def)
qed

text \<open>
  The traffic identifier is taken from four bits of the frame and used as an index of the
  eight buffers of a station without a check: a unicast frame of a known station with an
  identifier from 8 on makes \<^verbatim>\<open>reord_process_unit\<close> access memory behind the array.
\<close>

theorem tid_out_of_range:
  assumes "rd8 (skb_data skb) 0 = Some d0" and "d0 AND 0x01 = 0"
    and "rd_be16 (skb_data skb) 12 = Some proto" and "proto \<noteq> ETH_P_PAE"
    and "frame_mac E (skb_data skb) = Some mac" and "0 \<le> find_sta mac P"
    and "\<forall>i \<in> set (stas_reord_list P). length (preorder_ctrl i) = 8" and "8 \<le> unat tid"
  shows "reord_process_unit E f skb sq tid fwd am P = None"
proof -
  have "stas_reord_list P ! nat (find_sta mac P) \<in> set (stas_reord_list P)"
    using find_sta_range[OF assms(6)] by simp
  with assms(7,8) have "get_ctrl (nat (find_sta mac P)) tid P = None"
    by (simp add: get_ctrl_def Let_def)
  then show ?thesis using assms(1-6)
    by (simp add: reord_process_unit_def Let_def)
qed

lemma tid_out_of_range_witness:
  "reord_process_unit demo_rx_env (demo_frame 1 0) (demo_skb 8) 6 8 True False demo_after = None"
proof -
  let ?d = "skb_data (demo_skb 8)"
  have "rd8 ?d 0 = Some 2" "(2 :: u8) AND 0x01 = 0" "rd_be16 ?d 12 = Some 0x800" "(0x800 :: u16) \<noteq> ETH_P_PAE"
    "frame_mac demo_rx_env ?d = Some [2, 0, 0, 0, 0, 1]" "0 \<le> find_sta [2, 0, 0, 0, 0, 1] demo_after"
    "\<forall>i \<in> set (stas_reord_list demo_after). length (preorder_ctrl i) = 8" "8 \<le> unat (8 :: u8)"
    by code_simp+
  then show ?thesis by (rule tid_out_of_range)
qed

end
