(* ===== verification/RxDefrag.thy ===== *)
theory RxDefrag
  imports Prelude
begin

text \<open>
  The head of \<^verbatim>\<open>rwnx_rxdataind_aicwf\<close> (\<^verbatim>\<open>rwnx_rx.c\<close>) for data frames: what it reads of
  the 802.11 header, and how it puts fragments together. An unfinished frame is a
  \<^verbatim>\<open>defrag_ctrl_info\<close> with a timer; the callback of the timer is a step of its own, as it may
  wait for the lock while another fragment is handled.
\<close>

section \<open>The header\<close>

datatype rx_decr = DECR_CCMP128 | DECR_TKIP | DECR_WEP | DECR_WAPI | DECR_OTHER

fun sec_len :: "rx_decr \<Rightarrow> nat" where
  "sec_len DECR_CCMP128 = 8"
| "sec_len DECR_TKIP = 8"
| "sec_len DECR_WEP = 4"
| "sec_len DECR_WAPI = 18"
| "sec_len DECR_OTHER = 0"

record rx_hdr =
  h_more :: bool
  h_fn :: nat
  h_sn :: nat
  h_tid :: nat
  h_qos :: bool
  h_amsdu :: bool
  h_ra :: bytes
  h_ta :: bytes
  h_type :: bytes
  h_pull :: nat

definition rd_bytes :: "bytes \<Rightarrow> nat \<Rightarrow> nat \<Rightarrow> bytes option" where
  "rd_bytes b i n = (if i + n \<le> length b then Some (take n (drop i b)) else None)"

text \<open>\<open>b\<close>: the frame from its 802.11 header on. No result: a byte behind its end is read.\<close>

definition rx_data_header :: "rx_decr \<Rightarrow> bytes \<Rightarrow> rx_hdr option" where
  "rx_data_header dec b = do {
     d0 \<leftarrow> rd8 b 0; d1 \<leftarrow> rd8 b 1; d22 \<leftarrow> rd8 b 22; d23 \<leftarrow> rd8 b 23;
     let fn = unat (d22 AND 0x0f);
     let sn = unat (drop_bit 4 (d22 AND 0xf0)) + 16 * unat d23;
     let qos = (d0 AND 0x80 = 0x80);
     (tid, amsdu) \<leftarrow> (if qos then do { d24 \<leftarrow> rd8 b 24; Some (unat (d24 AND 0x0f), d24 AND 0x80 \<noteq> 0) } else Some (0, False));
     let hdr_len = (if qos then 26 else 24) + (if d1 AND 0x80 \<noteq> 0 then 4 else 0);
     (ra, ta) \<leftarrow> (if d1 AND 3 = 1 then do { ra \<leftarrow> rd_bytes b 16 6; ta \<leftarrow> rd_bytes b 10 6; Some (ra, ta) }
                else if d1 AND 3 = 2 then do { ta \<leftarrow> rd_bytes b 16 6; ra \<leftarrow> rd_bytes b 4 6; Some (ra, ta) }
                else Some (replicate 6 0, replicate 6 0));
     ty \<leftarrow> rd_bytes b (hdr_len + 6 + sec_len dec) 2;
     Some \<lparr>h_more = (d1 AND 4 \<noteq> 0), h_fn = fn, h_sn = sn, h_tid = tid, h_qos = qos, h_amsdu = amsdu,
           h_ra = ra, h_ta = ta, h_type = ty, h_pull = hdr_len + 8 + sec_len dec\<rparr> }"

text \<open>
  The Ethernet frame that replaces the header: \<^verbatim>\<open>skb_pull\<close>, which does nothing to a buffer
  that is too short, then \<^verbatim>\<open>skb_push\<close> of 14.
\<close>

definition eth_frame :: "rx_hdr \<Rightarrow> bytes \<Rightarrow> bytes" where
  "eth_frame h b = h_ra h @ h_ta h @ h_type h @ (if h_pull h \<le> length b then drop (h_pull h) b else b)"

section \<open>Unfinished frames\<close>

text \<open>
  \<open>dc_id\<close> is the address of the entry. The length \<^verbatim>\<open>frm_len\<close> is that of the buffer and has no
  field of its own.
\<close>

record defrag_ctrl_info =
  dc_id :: nat
  dc_sta :: nat
  dc_tid :: nat
  dc_sn :: nat
  dc_next_fn :: nat
  dc_skb :: bytes

text \<open>\<open>fired\<close>: the addresses of entries whose timer has run out and whose callback waits for the lock.\<close>

record defrag_state =
  defrag_list :: "defrag_ctrl_info list"
  fired :: "nat list"
  next_id :: nat

definition is_entry :: "nat \<Rightarrow> rx_hdr \<Rightarrow> defrag_ctrl_info \<Rightarrow> bool" where
  "is_entry sta h e \<longleftrightarrow> dc_sn e = h_sn h \<and> dc_tid e = h_tid h \<and> dc_sta e = sta"

definition find_entry :: "nat \<Rightarrow> rx_hdr \<Rightarrow> defrag_state \<Rightarrow> defrag_ctrl_info option" where
  "find_entry sta h S = find (is_entry sta h) (defrag_list S)"

definition put_entry :: "defrag_ctrl_info \<Rightarrow> defrag_state \<Rightarrow> defrag_state" where
  "put_entry e S = S\<lparr>defrag_list := map (\<lambda>x. if dc_id x = dc_id e then e else x) (defrag_list S)\<rparr>"

definition del_entry :: "nat \<Rightarrow> defrag_state \<Rightarrow> defrag_state" where
  "del_entry i S = S\<lparr>defrag_list := filter (\<lambda>x. dc_id x \<noteq> i) (defrag_list S)\<rparr>"

text \<open>
  What surrounds a frame: the room in a new buffer (\<^verbatim>\<open>__dev_alloc_skb\<close> is asked for 2000 bytes),
  whether the two allocations succeed, and whether the interface of the frame is there.
\<close>

record frag_env =
  room :: nat
  mem_info :: bool
  mem_skb :: bool
  have_vif :: bool

text \<open>
  \<^verbatim>\<open>skb_put\<close> and \<^verbatim>\<open>memcpy\<close> of what follows the header of a later fragment, which has no
  protocol bytes. No result: the length is negative or the buffer too short, and \<^verbatim>\<open>skb_put\<close> stops
  the kernel.
\<close>

definition append_frag :: "frag_env \<Rightarrow> rx_hdr \<Rightarrow> bytes \<Rightarrow> defrag_ctrl_info \<Rightarrow> defrag_ctrl_info option" where
  "append_frag E h b e =
     (if length b < h_pull h - 8 \<or> length (dc_skb e) + (length b - (h_pull h - 8)) > room E then None
      else Some (e\<lparr>dc_skb := dc_skb e @ drop (h_pull h - 8) b\<rparr>))"

text \<open>
  What becomes of a frame: it is freed, kept as a part, handed up as a whole in a new buffer, or goes
  on through the function (as the bytes it has then).
\<close>

datatype frag_out = Dropped | Kept | Whole bytes | GoOn bytes

section \<open>One fragment\<close>

definition more_fragments :: "frag_env \<Rightarrow> nat \<Rightarrow> rx_hdr \<Rightarrow> bytes \<Rightarrow> defrag_state \<Rightarrow> (frag_out \<times> defrag_state) option" where
  "more_fragments E sta h b S =
     (case find_entry sta h S of
        Some e \<Rightarrow>
          if dc_next_fn e \<noteq> h_fn h then Some (Dropped, S)
          else do { e \<leftarrow> append_frag E h b e;
                    Some (Kept, put_entry (e\<lparr>dc_next_fn := (dc_next_fn e + 1) mod 256\<rparr>) S) }
      | None \<Rightarrow>
          if \<not> mem_info E then Some (Dropped, S)
          else if \<not> mem_skb E then Some (Dropped, S)
          else let f = eth_frame h b in
            if length f > room E then None
            else Some (Kept, S\<lparr>defrag_list := defrag_list S @ [\<lparr>dc_id = next_id S, dc_sta = sta, dc_tid = h_tid h,
                   dc_sn = h_sn h, dc_next_fn = 1, dc_skb = f\<rparr>], next_id := next_id S + 1\<rparr>))"

definition last_fragment :: "frag_env \<Rightarrow> nat \<Rightarrow> rx_hdr \<Rightarrow> bytes \<Rightarrow> defrag_state \<Rightarrow> (frag_out \<times> defrag_state) option" where
  "last_fragment E sta h b S =
     (case find_entry sta h S of
        None \<Rightarrow> Some (GoOn (if h_amsdu h then b else eth_frame h b), S)
      | Some e \<Rightarrow>
          if dc_next_fn e \<noteq> h_fn h then Some (Dropped, S)
          else do { e \<leftarrow> append_frag E h b e;
                    if \<not> have_vif E then Some (Dropped, put_entry e S)
                    else Some (Whole (dc_skb e), del_entry (dc_id e) S) })"

text \<open>
  A data frame: the header is read, an aggregate loses its header (but keeps the eight bytes that
  follow it), fragments that need no reordering are put together, other frames get their Ethernet
  header.
\<close>

definition rx_data_frame :: "frag_env \<Rightarrow> rx_decr \<Rightarrow> bool \<Rightarrow> nat \<Rightarrow> bytes \<Rightarrow> defrag_state \<Rightarrow>
    (frag_out \<times> defrag_state) option" where
  "rx_data_frame E dec need_reord sta b S = do {
     h \<leftarrow> rx_data_header dec b;
     let b = (if h_amsdu h then drop (h_pull h - 8) b else b);
     if \<not> need_reord \<and> (h_more h \<or> h_fn h \<noteq> 0)
     then (if h_more h then more_fragments E sta h b S else last_fragment E sta h b S)
     else Some (GoOn (if h_amsdu h then b else eth_frame h b), S) }"

section \<open>The timer\<close>

text \<open>The timer of an entry runs out; its callback gets the lock, and faults when the entry is gone.\<close>

definition timer_expires :: "nat \<Rightarrow> defrag_state \<Rightarrow> defrag_state" where
  "timer_expires i S = (if i \<in> dc_id ` set (defrag_list S) \<and> i \<notin> set (fired S) then S\<lparr>fired := i # fired S\<rparr> else S)"

definition defrag_timeout_cb :: "nat \<Rightarrow> defrag_state \<Rightarrow> defrag_state option" where
  "defrag_timeout_cb i S =
     (if i \<in> dc_id ` set (defrag_list S) then Some (del_entry i (S\<lparr>fired := removeAll i (fired S)\<rparr>)) else None)"

end
