(* ===== verification/RxDefragProps.thy ===== *)
theory RxDefragProps
  imports RxDefrag
begin

text \<open>
  What putting fragments together promises: one unfinished frame for each station, traffic identifier
  and sequence number, as a list of numbered parts; what was cut up in order comes out whole; and
  where the timer and the last fragment meet.
\<close>

section \<open>The promise\<close>

type_synonym frag_key = "nat \<times> nat \<times> nat"
type_synonym parts = "(nat \<times> bytes) list"

text \<open>
  For each key the parts so far, with the numbers of the fragments they came with, and the number
  that is expected next.
\<close>

type_synonym frag_map = "frag_key \<rightharpoonup> nat \<times> parts"

definition whole :: "parts \<Rightarrow> bytes" where "whole ps = concat (map snd ps)"

text \<open>
  \<open>ok\<close>: there is memory for a new frame; \<open>vif\<close>: the interface is there; \<open>on\<close>: the frame as it goes
  on when it is no fragment of a frame known. The first part may have any number; the next ones
  count from one.
\<close>

definition frag_spec :: "bool \<Rightarrow> bool \<Rightarrow> frag_key \<Rightarrow> bool \<Rightarrow> nat \<Rightarrow> bytes \<Rightarrow> bytes \<Rightarrow> bytes \<Rightarrow> frag_map \<Rightarrow> frag_out \<times> frag_map" where
  "frag_spec ok vif k mf fn on first part A =
     (case A k of
        None \<Rightarrow> if \<not> mf then (GoOn on, A)
                else if ok then (Kept, A(k \<mapsto> (1, [(fn, first)]))) else (Dropped, A)
      | Some (n, ps) \<Rightarrow>
          if fn \<noteq> n then (Dropped, A)
          else if mf then (Kept, A(k \<mapsto> (n + 1, ps @ [(fn, part)])))
          else if vif then (Whole (whole (ps @ [(fn, part)])), A(k := None))
          else (Dropped, A(k \<mapsto> (n, ps @ [(fn, part)]))))"

definition key_of :: "defrag_ctrl_info \<Rightarrow> frag_key" where
  "key_of e = (dc_sta e, dc_tid e, dc_sn e)"

definition hkey :: "nat \<Rightarrow> rx_hdr \<Rightarrow> frag_key" where
  "hkey sta h = (sta, h_tid h, h_sn h)"

text \<open>What a state stands for.\<close>

definition stands_for :: "defrag_state \<Rightarrow> frag_map \<Rightarrow> bool" where
  "stands_for S A \<longleftrightarrow> distinct (map key_of (defrag_list S)) \<and> distinct (map dc_id (defrag_list S)) \<and>
     (\<forall>e \<in> set (defrag_list S). dc_id e < next_id S) \<and> dom A = key_of ` set (defrag_list S) \<and>
     (\<forall>e \<in> set (defrag_list S). \<exists>n ps. A (key_of e) = Some (n, ps) \<and> dc_next_fn e = n \<and> n \<le> 16 \<and> dc_skb e = whole ps)"

lemma find_entry_key: "find_entry sta h S = find (\<lambda>e. key_of e = hkey sta h) (defrag_list S)"
proof -
  have "is_entry sta h = (\<lambda>e. key_of e = hkey sta h)" by (auto simp: is_entry_def key_of_def hkey_def)
  then show ?thesis by (simp add: find_entry_def)
qed

lemma find_entry_None:
  assumes "stands_for S A"
  shows "find_entry sta h S = None \<longleftrightarrow> A (hkey sta h) = None"
proof -
  have "dom A = key_of ` set (defrag_list S)" using assms by (simp add: stands_for_def)
  then have "A (hkey sta h) = None \<longleftrightarrow> hkey sta h \<notin> key_of ` set (defrag_list S)" by blast
  also have "\<dots> \<longleftrightarrow> find_entry sta h S = None" unfolding find_entry_key find_None_iff by force
  finally show ?thesis by simp
qed

lemma find_entry_Some:
  assumes "find_entry sta h S = Some e"
  shows "e \<in> set (defrag_list S)" "key_of e = hkey sta h"
  using assms unfolding find_entry_key by (auto simp: find_Some_iff)

lemma same_entry:
  assumes "stands_for S A" "e \<in> set (defrag_list S)" "x \<in> set (defrag_list S)"
  shows "dc_id x = dc_id e \<longleftrightarrow> x = e" "key_of x = key_of e \<longleftrightarrow> x = e"
  using assms by (auto simp: stands_for_def distinct_map inj_on_def)

lemma whole_snoc: "whole (ps @ [(fn, p)]) = whole ps @ p"
  by (simp add: whole_def)

text \<open>Replacing and deleting an entry.\<close>

lemma stands_for_put:
  assumes S: "stands_for S A" and e: "e \<in> set (defrag_list S)" and A: "A (key_of e) = Some (n, ps)"
    and e': "dc_id e' = dc_id e" "key_of e' = key_of e" "dc_next_fn e' = m" "m \<le> 16" "dc_skb e' = whole qs"
  shows "stands_for (put_entry e' S) (A(key_of e \<mapsto> (m, qs)))"
proof -
  have l: "defrag_list (put_entry e' S) = map (\<lambda>x. if x = e then e' else x) (defrag_list S)"
    using same_entry(1)[OF S e] e'(1) by (auto simp: put_entry_def)
  have k: "map key_of (defrag_list (put_entry e' S)) = map key_of (defrag_list S)"
    "map dc_id (defrag_list (put_entry e' S)) = map dc_id (defrag_list S)" using e' by (auto simp: l)
  then have ks: "key_of ` set (defrag_list (put_entry e' S)) = key_of ` set (defrag_list S)" by (metis set_map)
  have "\<exists>a b. (A(key_of e \<mapsto> (m, qs))) (key_of x) = Some (a, b) \<and> dc_next_fn x = a \<and> a \<le> 16 \<and> dc_skb x = whole b"
    if x: "x \<in> set (defrag_list (put_entry e' S))" for x
  proof -
    consider "x = e'" | "x \<in> set (defrag_list S)" "x \<noteq> e" using x l by auto
    then show ?thesis
    proof cases
      case 2
      then have "key_of x \<noteq> key_of e" using same_entry(2)[OF S e] by blast
      then show ?thesis using S 2(1) by (simp add: stands_for_def)
    qed (use e' in simp)
  qed
  moreover have "\<forall>x \<in> set (defrag_list (put_entry e' S)). dc_id x < next_id (put_entry e' S)"
    using S e e'(1) l by (auto simp: stands_for_def put_entry_def)
  moreover have "dom (A(key_of e \<mapsto> (m, qs))) = key_of ` set (defrag_list (put_entry e' S))"
    using S e ks by (auto simp: stands_for_def)
  ultimately show ?thesis using S k unfolding stands_for_def by simp
qed

lemma stands_for_del:
  assumes S: "stands_for S A" and e: "e \<in> set (defrag_list S)"
  shows "stands_for (del_entry (dc_id e) S) (A(key_of e := None))"
proof -
  have "filter (\<lambda>x. dc_id x \<noteq> dc_id e) (defrag_list S) = filter (\<lambda>x. x \<noteq> e) (defrag_list S)"
    using same_entry(1)[OF S e] by (auto intro: filter_cong)
  then have l: "defrag_list (del_entry (dc_id e) S) = filter (\<lambda>x. x \<noteq> e) (defrag_list S)" by (simp add: del_entry_def)
  have n: "next_id (del_entry (dc_id e) S) = next_id S" by (simp add: del_entry_def)
  have ne: "key_of x \<noteq> key_of e" if "x \<in> set (defrag_list S)" "x \<noteq> e" for x using same_entry(2)[OF S e that(1)] that(2) by simp
  have d: "dom A = key_of ` set (defrag_list S)" using S by (simp add: stands_for_def)
  have "dom (A(key_of e := None)) = key_of ` set (defrag_list S) - {key_of e}" using d by simp
  also have "\<dots> = key_of ` set (filter (\<lambda>x. x \<noteq> e) (defrag_list S))"
  proof -
    have "inj_on key_of (set (defrag_list S))" using S by (simp add: stands_for_def distinct_map)
    from inj_on_image_set_diff[OF this, of "set (defrag_list S)" "{e}"] e
    have "key_of ` (set (defrag_list S) - {e}) = key_of ` set (defrag_list S) - {key_of e}" by auto
    moreover have "set (filter (\<lambda>x. x \<noteq> e) (defrag_list S)) = set (defrag_list S) - {e}" by auto
    ultimately show ?thesis by simp
  qed
  finally show ?thesis using S ne unfolding stands_for_def l n by (auto simp: distinct_map_filter)
qed

lemma stands_for_add:
  assumes S: "stands_for S A" and k: "A (key_of e) = None" "dc_id e = next_id S"
    and e: "dc_next_fn e = m" "m \<le> 16" "dc_skb e = whole qs"
  shows "stands_for (S\<lparr>defrag_list := defrag_list S @ [e], next_id := next_id S + 1\<rparr>) (A(key_of e \<mapsto> (m, qs)))"
proof -
  have "key_of e \<notin> key_of ` set (defrag_list S)" using S k(1) by (auto simp: stands_for_def domIff)
  then show ?thesis using S k e by (fastforce simp: stands_for_def)
qed

section \<open>One fragment\<close>

lemma and_15_less: "unat (x AND 15 :: u8) < 16"
proof -
  have "x AND 15 \<le> 15" by (rule word_and_le1)
  then show ?thesis by (simp add: word_le_nat_alt)
qed

lemma header_fn: "rx_data_header dec b = Some h \<Longrightarrow> h_fn h < 16"
  by (auto simp: rx_data_header_def Let_def bind_eq_Some_conv and_15_less split: if_splits)

definition body :: "rx_hdr \<Rightarrow> bytes \<Rightarrow> bytes" where
  "body h b = (if h_amsdu h then drop (h_pull h - 8) b else b)"

lemma append_frag_Some:
  "append_frag E h b e = Some e' \<longleftrightarrow> h_pull h - 8 \<le> length b \<and> length (dc_skb e) + (length b - (h_pull h - 8)) \<le> room E \<and>
     e' = e\<lparr>dc_skb := dc_skb e @ drop (h_pull h - 8) b\<rparr>"
  by (auto simp: append_frag_def)

lemma more_fragments_refines:
  assumes S: "stands_for S A" and fn: "h_fn h < 16" and m: "more_fragments E sta h b S = Some (out, S')"
  shows "\<exists>A'. frag_spec (mem_info E \<and> mem_skb E) vif (hkey sta h) True (h_fn h) on (eth_frame h b) (drop (h_pull h - 8) b) A
      = (out, A') \<and> stands_for S' A'"
proof (cases "find_entry sta h S")
  case None
  then have A: "A (hkey sta h) = None" using find_entry_None[OF S] by simp
  show ?thesis
  proof (cases "mem_info E \<and> mem_skb E")
    case False
    then show ?thesis using m None A S by (auto simp: more_fragments_def frag_spec_def split: if_splits)
  next
    case True
    let ?e = "\<lparr>dc_id = next_id S, dc_sta = sta, dc_tid = h_tid h, dc_sn = h_sn h, dc_next_fn = 1, dc_skb = eth_frame h b\<rparr>"
    have k: "key_of ?e = hkey sta h" by (simp add: key_of_def hkey_def)
    have "S' = S\<lparr>defrag_list := defrag_list S @ [?e], next_id := next_id S + 1\<rparr>" and o: "out = Kept"
      using m None True by (auto simp: more_fragments_def Let_def split: if_splits)
    then have "stands_for S' (A(hkey sta h \<mapsto> (1, [(h_fn h, eth_frame h b)])))"
      using stands_for_add[OF S, of ?e 1 "[(h_fn h, eth_frame h b)]"] A k by (simp add: whole_def)
    then show ?thesis using True A o by (auto simp: frag_spec_def)
  qed
next
  case (Some e)
  note e = find_entry_Some[OF Some]
  obtain n ps where A: "A (hkey sta h) = Some (n, ps)" and n: "dc_next_fn e = n" "dc_skb e = whole ps"
    using S e unfolding stands_for_def by metis
  show ?thesis
  proof (cases "h_fn h = n")
    case False
    then show ?thesis using m Some A S n by (auto simp: more_fragments_def frag_spec_def)
  next
    case True
    let ?e = "e\<lparr>dc_skb := dc_skb e @ drop (h_pull h - 8) b, dc_next_fn := (dc_next_fn e + 1) mod 256\<rparr>"
    have S': "S' = put_entry ?e S" and o: "out = Kept"
      using m Some True n by (auto simp: more_fragments_def bind_eq_Some_conv append_frag_Some)
    have "stands_for S' (A(key_of e \<mapsto> (n + 1, ps @ [(h_fn h, drop (h_pull h - 8) b)])))"
      unfolding S' by (rule stands_for_put[OF S e(1)]) (use A e n fn True in \<open>simp_all add: key_of_def whole_snoc\<close>)
    then show ?thesis using A e o True by (auto simp: frag_spec_def)
  qed
qed

lemma last_fragment_refines:
  assumes S: "stands_for S A" and fn: "h_fn h < 16" and m: "last_fragment E sta h b S = Some (out, S')"
  shows "\<exists>A'. frag_spec ok (have_vif E) (hkey sta h) False (h_fn h) (if h_amsdu h then b else eth_frame h b)
      (eth_frame h b) (drop (h_pull h - 8) b) A = (out, A') \<and> stands_for S' A'"
proof (cases "find_entry sta h S")
  case None
  then have "A (hkey sta h) = None" using find_entry_None[OF S] by simp
  then show ?thesis using m None S by (auto simp: last_fragment_def frag_spec_def)
next
  case (Some e)
  note e = find_entry_Some[OF Some]
  obtain n ps where A: "A (hkey sta h) = Some (n, ps)" and n: "dc_next_fn e = n" "dc_skb e = whole ps" "n \<le> 16"
    using S e unfolding stands_for_def by metis
  show ?thesis
  proof (cases "h_fn h = n")
    case False
    then show ?thesis using m Some A S n by (auto simp: last_fragment_def frag_spec_def)
  next
    case fnn: True
    let ?e = "e\<lparr>dc_skb := dc_skb e @ drop (h_pull h - 8) b\<rparr>"
    show ?thesis
    proof (cases "have_vif E")
      case True
      have "S' = del_entry (dc_id e) S" and "out = Whole (dc_skb ?e)"
        using m Some fnn n True by (auto simp: last_fragment_def bind_eq_Some_conv append_frag_Some)
      then show ?thesis using stands_for_del[OF S e(1)] A e n fnn True
        by (auto simp: frag_spec_def whole_snoc)
    next
      case False
      have S': "S' = put_entry ?e S" and o: "out = Dropped"
        using m Some fnn n False by (auto simp: last_fragment_def bind_eq_Some_conv append_frag_Some)
      have "stands_for S' (A(key_of e \<mapsto> (n, ps @ [(h_fn h, drop (h_pull h - 8) b)])))"
        unfolding S' by (rule stands_for_put[OF S e(1)]) (use A e n in \<open>simp_all add: key_of_def whole_snoc\<close>)
      then show ?thesis using A e o fnn False by (auto simp: frag_spec_def)
    qed
  qed
qed

text \<open>
  C3: Putting fragments together refines a map from station, traffic identifier and sequence number
  to a list of numbered parts. A fragment extends the list of its key exactly when its number is the
  one expected, the last one delivers the parts joined in order; a fragment with more to come and
  no list begins one, whatever its number, and a last fragment without a list goes on as if it were a
  whole frame.
\<close>

theorem defrag_refines:
  assumes "stands_for S A" and "rx_data_header dec b = Some h" and "rx_data_frame E dec False sta b S = Some (out, S')"
    and "h_more h \<or> h_fn h \<noteq> 0"
  shows "\<exists>A'. frag_spec (mem_info E \<and> mem_skb E) (have_vif E) (hkey sta h) (h_more h) (h_fn h)
      (if h_amsdu h then body h b else eth_frame h (body h b)) (eth_frame h (body h b)) (drop (h_pull h - 8) (body h b)) A = (out, A') \<and>
    stands_for S' A'"
proof -
  have "(if h_more h then more_fragments E sta h (body h b) S else last_fragment E sta h (body h b) S) = Some (out, S')"
    using assms(2-4) by (cases "h_more h"; cases "h_amsdu h") (simp_all add: rx_data_frame_def Let_def body_def)
  then show ?thesis
    using more_fragments_refines[OF assms(1) header_fn[OF assms(2)]] last_fragment_refines[OF assms(1) header_fn[OF assms(2)]]
    by (cases "h_more h") simp_all
qed

text \<open>A frame of a station behind an access point: three fragments of a payload, and their headers.\<close>

definition demo_frag :: "u8 \<Rightarrow> u8 \<Rightarrow> bytes \<Rightarrow> bytes" where
  "demo_frag mf fn payload = [0x88, 2 OR mf, 0, 0] @ [1, 1, 1, 1, 1, 1] @ [2, 2, 2, 2, 2, 2] @ [3, 3, 3, 3, 3, 3]
     @ [fn, 7] @ [5, 0] @ payload"

definition demo_first :: bytes where "demo_first = demo_frag 4 0 [0xaa, 0xaa, 3, 0, 0, 0, 8, 0, 10, 11]"
definition demo_middle :: bytes where "demo_middle = demo_frag 4 1 [20, 21, 22, 23, 24, 25, 26, 27]"
definition demo_last :: bytes where "demo_last = demo_frag 0 2 [30, 31, 32, 33, 34, 35, 36, 37, 38]"

definition demo_env :: frag_env where
  "demo_env = \<lparr>room = 2000, mem_info = True, mem_skb = True, have_vif = True\<rparr>"

definition no_frags :: defrag_state where "no_frags = \<lparr>defrag_list = [], fired = [], next_id = 0\<rparr>"

lemma no_frags_stands: "stands_for no_frags Map.empty"
  by (simp add: stands_for_def no_frags_def)

definition demo_hdr :: "bool \<Rightarrow> nat \<Rightarrow> rx_hdr" where
  "demo_hdr mf fn = \<lparr>h_more = mf, h_fn = fn, h_sn = 112, h_tid = 5, h_qos = True, h_amsdu = False, h_ra = [1, 1, 1, 1, 1, 1],
     h_ta = [3, 3, 3, 3, 3, 3], h_type = [], h_pull = 34\<rparr>"

lemma demo_headers:
  "rx_data_header DECR_OTHER demo_first = Some (demo_hdr True 0\<lparr>h_type := [8, 0]\<rparr>)"
  "rx_data_header DECR_OTHER demo_middle = Some (demo_hdr True 1\<lparr>h_type := [26, 27]\<rparr>)"
  "rx_data_header DECR_OTHER demo_last = Some (demo_hdr False 2\<lparr>h_type := [36, 37]\<rparr>)"
  by (simp_all add: rx_data_header_def demo_first_def demo_middle_def demo_last_def demo_frag_def rd8_def rd_bytes_def
      demo_hdr_def Let_def)

lemma defrag_refines_witness:
  "\<exists>out S' A'. rx_data_frame demo_env DECR_OTHER False 9 demo_first no_frags = Some (out, S') \<and> out = Kept \<and>
     A' (9, 5, 112) = Some (1, [(0, [1, 1, 1, 1, 1, 1, 3, 3, 3, 3, 3, 3, 8, 0, 10, 11])]) \<and> stands_for S' A'"
proof -
  let ?h = "demo_hdr True 0\<lparr>h_type := [8, 0]\<rparr>"
  have sel: "h_more ?h" "h_fn ?h = 0" "hkey 9 ?h = (9, 5, 112)" "\<not> h_amsdu ?h" by (simp_all add: demo_hdr_def hkey_def)
  have f: "eth_frame ?h demo_first = [1, 1, 1, 1, 1, 1, 3, 3, 3, 3, 3, 3, 8, 0, 10, 11]"
    by (simp add: eth_frame_def demo_hdr_def demo_first_def demo_frag_def)
  obtain S' where r: "rx_data_frame demo_env DECR_OTHER False 9 demo_first no_frags = Some (Kept, S')"
    using sel f by (simp add: rx_data_frame_def demo_headers Let_def more_fragments_def find_entry_def no_frags_def demo_env_def)
  from defrag_refines[OF no_frags_stands demo_headers(1) r] sel f
  obtain A' where "frag_spec True True (9, 5, 112) True 0 [1, 1, 1, 1, 1, 1, 3, 3, 3, 3, 3, 3, 8, 0, 10, 11]
      [1, 1, 1, 1, 1, 1, 3, 3, 3, 3, 3, 3, 8, 0, 10, 11] (drop (h_pull ?h - 8) demo_first) Map.empty = (Kept, A')" "stands_for S' A'"
    by (auto simp: body_def demo_env_def)
  then have "A' (9, 5, 112) = Some (1, [(0, [1, 1, 1, 1, 1, 1, 3, 3, 3, 3, 3, 3, 8, 0, 10, 11])])" "stands_for S' A'"
    by (auto simp: frag_spec_def)
  then show ?thesis using r by blast
qed

section \<open>A frame in order\<close>

fun frag_run :: "frag_env \<Rightarrow> rx_decr \<Rightarrow> nat \<Rightarrow> bytes list \<Rightarrow> defrag_state \<Rightarrow> (frag_out list \<times> defrag_state) option" where
  "frag_run E dec sta [] S = Some ([], S)"
| "frag_run E dec sta (b # bs) S = do { (x, S) \<leftarrow> rx_data_frame E dec False sta b S;
     (xs, S) \<leftarrow> frag_run E dec sta bs S; Some (x # xs, S) }"

text \<open>What a frame says it is, for one key: whether more follow, and its number.\<close>

definition frag_no :: "rx_decr \<Rightarrow> nat \<Rightarrow> frag_key \<Rightarrow> bytes \<Rightarrow> (bool \<times> nat) option" where
  "frag_no dec sta k b = (case rx_data_header dec b of None \<Rightarrow> None
     | Some h \<Rightarrow> if hkey sta h = k \<and> \<not> h_amsdu h then Some (h_more h, h_fn h) else None)"

fun in_order :: "rx_decr \<Rightarrow> nat \<Rightarrow> frag_key \<Rightarrow> nat \<Rightarrow> bytes list \<Rightarrow> bool" where
  "in_order dec sta k i [] = False"
| "in_order dec sta k i (b # bs) =
     (frag_no dec sta k b = Some (bs \<noteq> [], i) \<and> (bs \<noteq> [] \<longrightarrow> in_order dec sta k (i + 1) bs))"

definition payload :: "rx_decr \<Rightarrow> bytes \<Rightarrow> bytes" where
  "payload dec b = (case rx_data_header dec b of None \<Rightarrow> [] | Some h \<Rightarrow> drop (h_pull h - 8) b)"

definition first_part :: "rx_decr \<Rightarrow> bytes \<Rightarrow> bytes" where
  "first_part dec b = (case rx_data_header dec b of None \<Rightarrow> [] | Some h \<Rightarrow> eth_frame h b)"

lemma header_pull: "rx_data_header dec b = Some h \<Longrightarrow> h_pull h \<le> length b"
  by (auto simp: rx_data_header_def Let_def bind_eq_Some_conv rd_bytes_def split: if_splits)

lemma frag_noD:
  assumes "frag_no dec sta k b = Some (m, i)"
  obtains h where "rx_data_header dec b = Some h" "hkey sta h = k" "\<not> h_amsdu h" "h_more h = m" "h_fn h = i"
  using assms by (auto simp: frag_no_def split: option.splits if_splits)

text \<open>A fragment that is expected and fits.\<close>

lemma expected_fragment:
  assumes S: "stands_for S A" and A: "A k = Some (i, ps)" and b: "frag_no dec sta k b = Some (m, i)" "0 < i" and v: "have_vif E"
    and r: "length (whole ps) + length (payload dec b) \<le> room E"
  shows "\<exists>S'. rx_data_frame E dec False sta b S = Some (if m then Kept else Whole (whole ps @ payload dec b), S') \<and>
    stands_for S' (if m then A(k \<mapsto> (i + 1, ps @ [(i, payload dec b)])) else A(k := None))"
proof -
  obtain h where h: "rx_data_header dec b = Some h" "hkey sta h = k" "\<not> h_amsdu h" "h_more h = m" "h_fn h = i" using b(1) by (rule frag_noD)
  have p: "payload dec b = drop (h_pull h - 8) b" by (simp add: payload_def h(1))
  obtain e where e: "find_entry sta h S = Some e" using find_entry_None[OF S, of sta h] A h(2) by fastforce
  note es = find_entry_Some[OF e]
  have "dc_next_fn e = i" "dc_skb e = whole ps" using S es A h(2) unfolding stands_for_def by fastforce+
  moreover have "h_pull h - 8 \<le> length b" using header_pull[OF h(1)] by simp
  ultimately obtain out S' where s: "rx_data_frame E dec False sta b S = Some (out, S')"
    using h b(2) r e v p by (cases m) (auto simp: rx_data_frame_def Let_def more_fragments_def last_fragment_def append_frag_def)
  from defrag_refines[OF S h(1) s] h b(2) A v obtain A' where
    "frag_spec (mem_info E \<and> mem_skb E) True k m i (eth_frame h b) (eth_frame h b) (drop (h_pull h - 8) b) A = (out, A')"
    "stands_for S' A'" by (auto simp: body_def)
  then show ?thesis using s A p by (cases m) (auto simp: frag_spec_def whole_snoc)
qed

lemma rest_in_order:
  assumes "stands_for S A" "A k = Some (i, ps)" "in_order dec sta k i bs" "0 < i" "have_vif E"
    and "length (whole ps) + sum_list (map (\<lambda>b. length (payload dec b)) bs) \<le> room E"
  shows "\<exists>S'. frag_run E dec sta bs S =
      Some (replicate (length bs - 1) Kept @ [Whole (whole ps @ concat (map (payload dec) bs))], S') \<and> stands_for S' (A(k := None))"
  using assms
proof (induction bs arbitrary: S A i ps)
  case (Cons b bs)
  have r: "length (whole ps) + length (payload dec b) \<le> room E" using Cons.prems(6) by simp
  have f: "frag_no dec sta k b = Some (bs \<noteq> [], i)" using Cons.prems(3) by simp
  from expected_fragment[OF Cons.prems(1,2) f Cons.prems(4,5) r] obtain S1 where
    s: "rx_data_frame E dec False sta b S = Some (if bs \<noteq> [] then Kept else Whole (whole ps @ payload dec b), S1)"
    "stands_for S1 (if bs \<noteq> [] then A(k \<mapsto> (i + 1, ps @ [(i, payload dec b)])) else A(k := None))" by blast
  show ?case
  proof (cases "bs = []")
    case True
    then show ?thesis using s by (simp add: fun_upd_def)
  next
    case False
    have "\<exists>S'. frag_run E dec sta bs S1 =
      Some (replicate (length bs - 1) Kept @ [Whole (whole (ps @ [(i, payload dec b)]) @ concat (map (payload dec) bs))], S') \<and>
      stands_for S' (A(k \<mapsto> (i + 1, ps @ [(i, payload dec b)]), k := None))"
    proof (rule Cons.IH[of _ _ "i + 1"])
      show "stands_for S1 (A(k \<mapsto> (i + 1, ps @ [(i, payload dec b)])))" using s(2) False by simp
      show "(A(k \<mapsto> (i + 1, ps @ [(i, payload dec b)]))) k = Some (i + 1, ps @ [(i, payload dec b)])" by simp
    qed (use False Cons.prems in \<open>simp_all add: whole_snoc\<close>)
    moreover have "replicate (length bs) Kept = Kept # replicate (length bs - 1) Kept" using False by (cases bs) simp_all
    ultimately show ?thesis using s(1) False by (auto simp: whole_snoc simp del: fun_upd_apply)
  qed
qed simp

text \<open>
  C4: A frame that comes in fragments, numbered from zero and in order, with nothing unfinished for its
  key, memory at hand and a sum of lengths within the buffer, is handed up whole with its last
  fragment: the Ethernet header, the first payload and the others joined in order. Of frames with
  other keys that are unfinished nothing changes.
\<close>

theorem defrag_roundtrip:
  assumes "stands_for S A" and "A k = None" and "in_order dec sta k 0 (b # bs)" and "bs \<noteq> []"
    and "mem_info E" "mem_skb E" "have_vif E"
    and "length (first_part dec b) + sum_list (map (\<lambda>b. length (payload dec b)) bs) \<le> room E"
  shows "\<exists>S'. frag_run E dec sta (b # bs) S =
      Some (replicate (length bs) Kept @ [Whole (first_part dec b @ concat (map (payload dec) bs))], S') \<and> stands_for S' A"
proof -
  have f: "frag_no dec sta k b = Some (True, 0)" and o: "in_order dec sta k 1 bs" using assms(3,4) by simp_all
  obtain h where h: "rx_data_header dec b = Some h" "hkey sta h = k" "\<not> h_amsdu h" "h_more h" "h_fn h = 0" using frag_noD[OF f] by blast
  have p: "first_part dec b = eth_frame h b" by (simp add: first_part_def h(1))
  have "find_entry sta h S = None" using find_entry_None[OF assms(1)] assms(2) h(2) by simp
  then obtain S1 where s: "rx_data_frame E dec False sta b S = Some (Kept, S1)"
    using h p assms(5,6,8) by (auto simp: rx_data_frame_def Let_def more_fragments_def)
  from defrag_refines[OF assms(1) h(1) s] h assms(2,5,6)
  have "stands_for S1 (A(k \<mapsto> (1, [(0, first_part dec b)])))" by (auto simp: body_def frag_spec_def p)
  from rest_in_order[OF this _ o _ assms(7)] assms(8) obtain S' where
    "frag_run E dec sta bs S1 = Some (replicate (length bs - 1) Kept @ [Whole (first_part dec b @ concat (map (payload dec) bs))], S')"
    "stands_for S' (A(k := None))" by (auto simp: whole_def)
  moreover have "A(k := None) = A" using assms(2) by auto
  moreover have "Kept # replicate (length bs - 1) Kept = replicate (length bs) Kept"
    using assms(4) by (cases bs) simp_all
  ultimately show ?thesis using s by auto
qed

lemma defrag_roundtrip_witness:
  "\<exists>S'. frag_run demo_env DECR_OTHER 9 [demo_first, demo_middle, demo_last] no_frags =
     Some ([Kept, Kept, Whole ([1, 1, 1, 1, 1, 1, 3, 3, 3, 3, 3, 3, 8, 0, 10, 11, 20, 21, 22, 23, 24, 25, 26, 27,
       30, 31, 32, 33, 34, 35, 36, 37, 38])], S')"
proof -
  have p: "payload DECR_OTHER demo_middle = [20, 21, 22, 23, 24, 25, 26, 27]"
    "payload DECR_OTHER demo_last = [30, 31, 32, 33, 34, 35, 36, 37, 38]"
    "first_part DECR_OTHER demo_first = [1, 1, 1, 1, 1, 1, 3, 3, 3, 3, 3, 3, 8, 0, 10, 11]"
    by (simp_all add: payload_def first_part_def demo_headers)
      (simp_all add: demo_hdr_def demo_middle_def demo_last_def demo_first_def demo_frag_def eth_frame_def)
  have o: "in_order DECR_OTHER 9 (9, 5, 112) 0 [demo_first, demo_middle, demo_last]"
    by (simp add: frag_no_def demo_headers) (simp add: demo_hdr_def hkey_def)
  have "length (first_part DECR_OTHER demo_first) + sum_list (map (\<lambda>b. length (payload DECR_OTHER b)) [demo_middle, demo_last]) \<le> room demo_env"
    "mem_info demo_env" "mem_skb demo_env" "have_vif demo_env" by (simp_all add: p demo_env_def)
  from defrag_roundtrip[OF no_frags_stands _ o _ this(2,3,4,1)] p show ?thesis by (auto simp: numeral_2_eq_2)
qed

section \<open>The timer and the last fragment\<close>

text \<open>
  The timer of an unfinished frame may run out while its last fragment is handled. The callback
  then waits for the lock; the frame is handed up and its entry freed, as only a pending timer is
  deleted, and the callback goes on with an entry that is gone.
\<close>

theorem timer_race_faults:
  assumes "stands_for S A" and "rx_data_header dec b = Some h" and "\<not> h_more h" and "0 < h_fn h" and "\<not> h_amsdu h"
    and "find_entry sta h S = Some e" and "dc_next_fn e = h_fn h" and "have_vif E"
    and "length (dc_skb e) + (length b - (h_pull h - 8)) \<le> room E"
  shows "\<exists>w S'. rx_data_frame E dec False sta b (timer_expires (dc_id e) S) = Some (Whole w, S') \<and>
    dc_id e \<in> set (fired S') \<and> defrag_timeout_cb (dc_id e) S' = None"
proof -
  let ?S = "timer_expires (dc_id e) S"
  have e: "e \<in> set (defrag_list S)" using find_entry_Some[OF assms(6)] by simp
  have l: "defrag_list ?S = defrag_list S" and f: "dc_id e \<in> set (fired ?S)" using e by (auto simp: timer_expires_def)
  have "find_entry sta h ?S = Some e" using assms(6) l by (simp add: find_entry_def)
  then have "rx_data_frame E dec False sta b ?S =
      Some (Whole (dc_skb e @ drop (h_pull h - 8) b), del_entry (dc_id e) ?S)"
    using assms header_pull[OF assms(2)]
    by (auto simp: rx_data_frame_def last_fragment_def append_frag_def)
  moreover have "dc_id e \<in> set (fired (del_entry (dc_id e) ?S))" using f by (simp add: del_entry_def)
  moreover have "defrag_timeout_cb (dc_id e) (del_entry (dc_id e) ?S) = None"
    by (auto simp: defrag_timeout_cb_def del_entry_def)
  ultimately show ?thesis by blast
qed

definition demo_unfinished :: defrag_state where
  "demo_unfinished = \<lparr>defrag_list = [\<lparr>dc_id = 0, dc_sta = 9, dc_tid = 5, dc_sn = 112, dc_next_fn = 2, dc_skb = [1, 2]\<rparr>],
     fired = [], next_id = 1\<rparr>"

lemma timer_race_faults_witness:
  "\<exists>w S'. rx_data_frame demo_env DECR_OTHER False 9 demo_last (timer_expires 0 demo_unfinished) = Some (Whole w, S') \<and>
     defrag_timeout_cb 0 S' = None"
proof -
  let ?h = "demo_hdr False 2\<lparr>h_type := [36, 37]\<rparr>"
  let ?e = "\<lparr>dc_id = 0, dc_sta = 9, dc_tid = 5, dc_sn = 112, dc_next_fn = 2, dc_skb = [1, 2]\<rparr>"
  have s: "stands_for demo_unfinished [(9, 5, 112) \<mapsto> (2, [(0, [1]), (1, [2])])]"
    by (simp add: stands_for_def demo_unfinished_def key_of_def whole_def)
  have f: "find_entry 9 ?h demo_unfinished = Some ?e" by (simp add: find_entry_def is_entry_def demo_unfinished_def demo_hdr_def)
  from timer_race_faults[OF s demo_headers(3) _ _ _ f, of demo_env] show ?thesis
    by (auto simp: demo_hdr_def demo_env_def demo_last_def demo_frag_def)
qed

end
