(* ===== verification/RadarSpec.thy ===== *)
theory RadarSpec
  imports Prelude
begin

text \<open>
  The radar pattern tables (\<^verbatim>\<open>rwnx_radar.c\<close>): the specification record, the macros that fill
  it, and the tables of the three regulatory domains for the two receive chains. Times are
  unbounded integers; the widths of the C types are written out as \<open>w8\<close> to \<open>w64\<close> where a value
  is stored.
\<close>

section \<open>Widths\<close>

definition w8 :: "int \<Rightarrow> int" where "w8 x = x mod 2 ^ 8"
definition w16 :: "int \<Rightarrow> int" where "w16 x = x mod 2 ^ 16"
definition w32 :: "int \<Rightarrow> int" where "w32 x = x mod 2 ^ 32"
definition w64 :: "int \<Rightarrow> int" where "w64 x = x mod 2 ^ 64"

lemma w_id:
  "0 \<le> x \<Longrightarrow> x < 2 ^ 8 \<Longrightarrow> w8 x = x" "0 \<le> x \<Longrightarrow> x < 2 ^ 16 \<Longrightarrow> w16 x = x"
  "0 \<le> x \<Longrightarrow> x < 2 ^ 32 \<Longrightarrow> w32 x = x" "0 \<le> x \<Longrightarrow> x < 2 ^ 64 \<Longrightarrow> w64 x = x"
  by (simp_all add: w8_def w16_def w32_def w64_def)

lemma w_bounds:
  "0 \<le> w8 x" "w8 x < 2 ^ 8" "0 \<le> w16 x" "w16 x < 2 ^ 16"
  "0 \<le> w32 x" "w32 x < 2 ^ 32" "0 \<le> w64 x" "w64 x < 2 ^ 64"
  by (simp_all add: w8_def w16_def w32_def w64_def)

section \<open>The specification of a radar type\<close>

datatype radar_waveform_type = RADAR_WAVEFORM_SHORT | RADAR_WAVEFORM_WEATHER
  | RADAR_WAVEFORM_INTERLEAVED | RADAR_WAVEFORM_LONG

record radar_detector_specs =
  type_id :: int
  width_min :: int
  width_max :: int
  pri_min :: int
  pri_max :: int
  num_pri :: int
  ppb :: int
  ppb_thresh :: int
  max_pri_tolerance :: int
  wave :: radar_waveform_type

datatype dfs_region = DFS_UNSET | DFS_FCC | DFS_ETSI | DFS_JP

record radar_types =
  rt_region :: dfs_region
  num_radar_types :: int
  spec_riu :: "radar_detector_specs list"
  spec_fcu :: "radar_detector_specs list"

definition PRI_TOLERANCE :: int where "PRI_TOLERANCE = 16"
definition MIN_PPB_THRESH :: int where "MIN_PPB_THRESH = 50"

definition PPB_THRESH :: "int \<Rightarrow> int" where
  "PPB_THRESH n = (n * MIN_PPB_THRESH + 50) div 100"

definition PRF2PRI :: "int \<Rightarrow> int" where
  "PRF2PRI prf = (1000000 + prf div 2) div prf"

definition mk_spec :: "int \<Rightarrow> int \<Rightarrow> int \<Rightarrow> int \<Rightarrow> int \<Rightarrow> int \<Rightarrow> int \<Rightarrow> int \<Rightarrow> int \<Rightarrow>
    radar_waveform_type \<Rightarrow> radar_detector_specs" where
  "mk_spec i wmin wmax pmin pmax n b th tol ty =
     \<lparr>type_id = w8 i, width_min = w8 wmin, width_max = w8 wmax, pri_min = w16 pmin, pri_max = w16 pmax,
      num_pri = w8 n, ppb = w8 b, ppb_thresh = w8 th, max_pri_tolerance = w8 tol, wave = ty\<rparr>"

definition ETSI_PATTERN_SHORT :: "int \<Rightarrow> int \<Rightarrow> int \<Rightarrow> int \<Rightarrow> int \<Rightarrow> int \<Rightarrow> radar_detector_specs" where
  "ETSI_PATTERN_SHORT i wmin wmax pmin pmax b =
     mk_spec i wmin wmax (PRF2PRI pmax - PRI_TOLERANCE) (PRF2PRI pmin + PRI_TOLERANCE) 1 b
       (PPB_THRESH b) PRI_TOLERANCE RADAR_WAVEFORM_SHORT"

definition ETSI_PATTERN_INTERLEAVED :: "int \<Rightarrow> int \<Rightarrow> int \<Rightarrow> int \<Rightarrow> int \<Rightarrow> int \<Rightarrow> int \<Rightarrow> int \<Rightarrow>
    radar_detector_specs" where
  "ETSI_PATTERN_INTERLEAVED i wmin wmax pmin pmax prfmin prfmax b =
     mk_spec i wmin wmax (PRF2PRI pmax * prfmin - PRI_TOLERANCE) (PRF2PRI pmin * prfmax + PRI_TOLERANCE)
       prfmax (b * prfmax) (PPB_THRESH b) PRI_TOLERANCE RADAR_WAVEFORM_INTERLEAVED"

definition FCC_PATTERN :: "int \<Rightarrow> int \<Rightarrow> int \<Rightarrow> int \<Rightarrow> int \<Rightarrow> int \<Rightarrow> int \<Rightarrow> radar_waveform_type \<Rightarrow>
    radar_detector_specs" where
  "FCC_PATTERN i wmin wmax pmin pmax prf b ty =
     mk_spec i wmin wmax (pmin - PRI_TOLERANCE) (pmax * prf + PRI_TOLERANCE) prf (b * prf)
       (PPB_THRESH b) PRI_TOLERANCE ty"

definition JP_PATTERN :: "int \<Rightarrow> int \<Rightarrow> int \<Rightarrow> int \<Rightarrow> int \<Rightarrow> int \<Rightarrow> int \<Rightarrow> radar_waveform_type \<Rightarrow>
    radar_detector_specs" where
  "JP_PATTERN = FCC_PATTERN"

section \<open>The tables\<close>

definition etsi_radar_ref_types_v17_riu :: "radar_detector_specs list" where
  "etsi_radar_ref_types_v17_riu = [
    ETSI_PATTERN_SHORT 0 0 8 700 700 18,
    ETSI_PATTERN_SHORT 1 0 10 200 1000 10,
    ETSI_PATTERN_SHORT 2 0 22 200 1600 15,
    ETSI_PATTERN_SHORT 3 0 22 2300 4000 25,
    ETSI_PATTERN_SHORT 4 20 38 2000 4000 20,
    ETSI_PATTERN_INTERLEAVED 5 0 8 300 400 2 3 10,
    ETSI_PATTERN_INTERLEAVED 6 0 8 400 1200 2 3 15]"

definition etsi_radar_ref_types_v17_fcu :: "radar_detector_specs list" where
  "etsi_radar_ref_types_v17_fcu = [
    ETSI_PATTERN_SHORT 0 0 8 700 700 18,
    ETSI_PATTERN_SHORT 1 0 8 200 1000 10,
    ETSI_PATTERN_SHORT 2 0 16 200 1600 15,
    ETSI_PATTERN_SHORT 3 0 16 2300 4000 25,
    ETSI_PATTERN_SHORT 4 20 34 2000 4000 20,
    ETSI_PATTERN_INTERLEAVED 5 0 8 300 400 2 3 10,
    ETSI_PATTERN_INTERLEAVED 6 0 8 400 1200 2 3 15]"

definition etsi_radar_types_v17 :: radar_types where
  "etsi_radar_types_v17 = \<lparr>rt_region = DFS_ETSI,
     num_radar_types = int (length etsi_radar_ref_types_v17_riu),
     spec_riu = etsi_radar_ref_types_v17_riu, spec_fcu = etsi_radar_ref_types_v17_fcu\<rparr>"

definition fcc_radar_ref_types_riu :: "radar_detector_specs list" where
  "fcc_radar_ref_types_riu = [
    FCC_PATTERN 0 0 8 1428 1428 1 18 RADAR_WAVEFORM_SHORT,
    FCC_PATTERN 1 0 8 518 3066 1 102 RADAR_WAVEFORM_WEATHER,
    FCC_PATTERN 2 0 8 150 230 1 23 RADAR_WAVEFORM_SHORT,
    FCC_PATTERN 3 6 20 200 500 1 16 RADAR_WAVEFORM_SHORT,
    FCC_PATTERN 4 10 28 200 500 1 12 RADAR_WAVEFORM_SHORT,
    FCC_PATTERN 5 50 110 1000 2000 1 8 RADAR_WAVEFORM_LONG,
    FCC_PATTERN 6 0 8 333 333 1 9 RADAR_WAVEFORM_SHORT]"

definition fcc_radar_ref_types_fcu :: "radar_detector_specs list" where
  "fcc_radar_ref_types_fcu = [
    FCC_PATTERN 0 0 8 1428 1428 1 18 RADAR_WAVEFORM_SHORT,
    FCC_PATTERN 1 0 8 518 3066 1 102 RADAR_WAVEFORM_WEATHER,
    FCC_PATTERN 2 0 8 150 230 1 23 RADAR_WAVEFORM_SHORT,
    FCC_PATTERN 3 6 12 200 500 1 16 RADAR_WAVEFORM_SHORT,
    FCC_PATTERN 4 10 22 200 500 1 12 RADAR_WAVEFORM_SHORT,
    FCC_PATTERN 5 50 104 1000 2000 1 8 RADAR_WAVEFORM_LONG,
    FCC_PATTERN 6 0 8 333 333 1 9 RADAR_WAVEFORM_SHORT]"

definition fcc_radar_types :: radar_types where
  "fcc_radar_types = \<lparr>rt_region = DFS_FCC, num_radar_types = int (length fcc_radar_ref_types_riu),
     spec_riu = fcc_radar_ref_types_riu, spec_fcu = fcc_radar_ref_types_fcu\<rparr>"

definition jp_radar_ref_types_riu :: "radar_detector_specs list" where
  "jp_radar_ref_types_riu = [
    JP_PATTERN 0 0 8 1428 1428 1 18 RADAR_WAVEFORM_SHORT,
    JP_PATTERN 1 2 8 3846 3846 1 18 RADAR_WAVEFORM_SHORT,
    JP_PATTERN 2 0 8 1388 1388 1 18 RADAR_WAVEFORM_SHORT,
    JP_PATTERN 3 0 8 4000 4000 1 18 RADAR_WAVEFORM_SHORT,
    JP_PATTERN 4 0 8 150 230 1 23 RADAR_WAVEFORM_SHORT,
    JP_PATTERN 5 6 20 200 500 1 16 RADAR_WAVEFORM_SHORT,
    JP_PATTERN 6 10 28 200 500 1 12 RADAR_WAVEFORM_SHORT,
    JP_PATTERN 7 50 110 1000 2000 1 8 RADAR_WAVEFORM_LONG,
    JP_PATTERN 8 0 8 333 333 1 9 RADAR_WAVEFORM_SHORT]"

definition jp_radar_ref_types_fcu :: "radar_detector_specs list" where
  "jp_radar_ref_types_fcu = [
    JP_PATTERN 0 0 8 1428 1428 1 18 RADAR_WAVEFORM_SHORT,
    JP_PATTERN 1 2 6 3846 3846 1 18 RADAR_WAVEFORM_SHORT,
    JP_PATTERN 2 0 8 1388 1388 1 18 RADAR_WAVEFORM_SHORT,
    JP_PATTERN 3 2 2 4000 4000 1 18 RADAR_WAVEFORM_SHORT,
    JP_PATTERN 4 0 8 150 230 1 23 RADAR_WAVEFORM_SHORT,
    JP_PATTERN 5 6 12 200 500 1 16 RADAR_WAVEFORM_SHORT,
    JP_PATTERN 6 10 22 200 500 1 12 RADAR_WAVEFORM_SHORT,
    JP_PATTERN 7 50 104 1000 2000 1 8 RADAR_WAVEFORM_LONG,
    JP_PATTERN 8 0 8 333 333 1 9 RADAR_WAVEFORM_SHORT]"

definition jp_radar_types :: radar_types where
  "jp_radar_types = \<lparr>rt_region = DFS_JP, num_radar_types = int (length jp_radar_ref_types_riu),
     spec_riu = jp_radar_ref_types_riu, spec_fcu = jp_radar_ref_types_fcu\<rparr>"

definition dfs_domains :: "radar_types list" where
  "dfs_domains = [etsi_radar_types_v17, fcc_radar_types, jp_radar_types]"

text \<open>All rows of all tables.\<close>

definition all_specs :: "radar_detector_specs list" where
  "all_specs = concat (map (\<lambda>t. spec_riu t @ spec_fcu t) dfs_domains)"

text \<open>
  What the detectors rely on: intervals and widths that are not empty, a threshold of at least
  two pulses that a burst can reach, a tolerance below the shortest interval, and a window that
  fits its 32-bit field.
\<close>

definition spec_ok :: "radar_detector_specs \<Rightarrow> bool" where
  "spec_ok rs \<longleftrightarrow> 0 < pri_min rs \<and> pri_min rs \<le> pri_max rs \<and> width_min rs \<le> width_max rs \<and>
     1 \<le> num_pri rs \<and> 2 \<le> ppb_thresh rs \<and> ppb_thresh rs \<le> ppb rs \<and> ppb rs < 2 ^ 8 \<and>
     max_pri_tolerance rs = PRI_TOLERANCE \<and> PRI_TOLERANCE \<le> pri_min rs \<and> pri_max rs < 2 ^ 16 \<and>
     pri_max rs * ppb rs * num_pri rs < 2 ^ 32"

lemma all_specs_ok: "list_all spec_ok all_specs"
  by code_simp

lemma spec_okD:
  assumes "spec_ok rs"
  shows "0 < pri_min rs" "pri_min rs \<le> pri_max rs" "1 \<le> num_pri rs" "2 \<le> ppb_thresh rs"
    "ppb_thresh rs \<le> ppb rs" "max_pri_tolerance rs = 16" "16 \<le> pri_min rs" "pri_max rs < 65536"
    "pri_max rs * ppb rs * num_pri rs < 2 ^ 32" "ppb rs < 256"
  using assms by (simp_all add: spec_ok_def PRI_TOLERANCE_def)

end
