(* ===== verification/RadarPulse.thy ===== *)
theory RadarPulse
  imports RadarSpec
begin

text \<open>
  One detector of one radar type (\<^verbatim>\<open>struct pri_detector\<close>): its queue of pulses, newest first,
  and its sequences. The pools the elements come from are a cache in front of the allocator:
  the environment tells whether an element is available.
\<close>

section \<open>State\<close>

record pri_sequence =
  sq_pri :: int
  sq_dur :: int
  sq_count :: int
  sq_falses :: int
  first_ts :: int
  last_ts :: int
  deadline_ts :: int
  sq_thresh :: int

record pri_detector =
  rs :: radar_detector_specs
  pd_last_ts :: int
  sequences :: "pri_sequence list"
  pulses :: "int list"
  pd_count :: int
  max_count :: int
  window_size :: int
  pd_freq :: int

text \<open>
  Whether a pulse element, and the \<open>n\<close>-th sequence element of a call, can be had, and what a
  sequence element holds before it is filled in.
\<close>

record radar_mem =
  pulse_mem :: bool
  pseq_mem :: "nat \<Rightarrow> bool"
  pseq_junk :: pri_sequence

section \<open>The pulse queue\<close>

definition pulse_queue_dequeue :: "pri_detector \<Rightarrow> bool \<times> pri_detector" where
  "pulse_queue_dequeue pde =
     (let pde = (if pulses pde = [] then pde
                 else pde\<lparr>pulses := butlast (pulses pde), pd_count := w32 (pd_count pde - 1)\<rparr>)
      in (pd_count pde > 0, pde))"

function queue_trim :: "int \<Rightarrow> pri_detector \<Rightarrow> pri_detector" where
  "queue_trim min_valid_ts pde =
     (if pulses pde = [] then pde
      else if last (pulses pde) \<ge> min_valid_ts then pde
      else queue_trim min_valid_ts (snd (pulse_queue_dequeue pde)))"
  by pat_completeness auto
termination
  by (relation "measure (\<lambda>(m, pde). length (pulses pde))") (simp_all add: pulse_queue_dequeue_def Let_def)

declare queue_trim.simps [simp del]

definition pulse_queue_check_window :: "pri_detector \<Rightarrow> pri_detector" where
  "pulse_queue_check_window pde =
     (if pd_count pde < 2 then pde
      else if pd_last_ts pde \<le> window_size pde then pde
      else queue_trim (w64 (pd_last_ts pde - window_size pde)) pde)"

definition pulse_queue_enqueue :: "radar_mem \<Rightarrow> pri_detector \<Rightarrow> int \<Rightarrow> bool \<times> pri_detector" where
  "pulse_queue_enqueue M pde ts =
     (if \<not> pulse_mem M then (False, pde)
      else let pde = pulse_queue_check_window
                 (pde\<lparr>pulses := ts # pulses pde, pd_count := w32 (pd_count pde + 1), pd_last_ts := ts\<rparr>);
               pde = (if pd_count pde \<ge> max_count pde then snd (pulse_queue_dequeue pde) else pde)
           in (True, pde))"

definition pri_detector_reset :: "pri_detector \<Rightarrow> int \<Rightarrow> pri_detector" where
  "pri_detector_reset pde ts = pde\<lparr>sequences := [], pulses := [], pd_count := 0, pd_last_ts := ts\<rparr>"

section \<open>Multiples of an interval\<close>

definition pde_get_multiple :: "int \<Rightarrow> int \<Rightarrow> int \<Rightarrow> int" where
  "pde_get_multiple val fraction tolerance =
     (if fraction = 0 then 0
      else let delta = (if val < fraction then fraction - val else val - fraction) in
        if delta \<le> tolerance then 1
        else let factor = val div fraction; remainder = val mod fraction in
          if remainder > tolerance
          then (if fraction - remainder \<le> tolerance then w32 (factor + 1) else 0)
          else factor)"

section \<open>The queue keeps count and stays bounded\<close>

definition queue_ok :: "pri_detector \<Rightarrow> bool" where
  "queue_ok pde \<longleftrightarrow> pd_count pde = int (length (pulses pde)) \<and> pd_count pde < max_count pde \<and>
     max_count pde < 2 ^ 32"

lemma dequeue_simps:
  assumes "pulses pde \<noteq> []" and "pd_count pde = int (length (pulses pde))" and "pd_count pde < 2 ^ 32"
  shows "snd (pulse_queue_dequeue pde) =
    pde\<lparr>pulses := butlast (pulses pde), pd_count := int (length (butlast (pulses pde)))\<rparr>"
proof -
  have p: "0 < length (pulses pde)" using assms(1) by simp
  then have "w32 (pd_count pde - 1) = pd_count pde - 1" using assms(2,3) by (intro w_id) linarith+
  also have "\<dots> = int (length (butlast (pulses pde)))" using assms(1,2) by (cases "pulses pde") simp_all
  finally show ?thesis using assms(1) by (simp add: pulse_queue_dequeue_def Let_def)
qed

lemma queue_trim_spec:
  assumes "pd_count pde = int (length (pulses pde))" and "pd_count pde < 2 ^ 32"
  shows "\<exists>n \<le> length (pulses pde). queue_trim m pde =
      pde\<lparr>pulses := take n (pulses pde), pd_count := int n\<rparr> \<and>
      (\<forall>x \<in> set (drop n (pulses pde)). x < m) \<and> (0 < n \<longrightarrow> m \<le> pulses pde ! (n - 1))"
  using assms
proof (induction m pde rule: queue_trim.induct)
  case (1 m pde)
  show ?case
  proof (cases "pulses pde = [] \<or> last (pulses pde) \<ge> m")
    case True
    then have "queue_trim m pde = pde" by (subst queue_trim.simps) auto
    moreover have "pde\<lparr>pulses := pulses pde, pd_count := pd_count pde\<rparr> = pde" by simp
    ultimately show ?thesis using True "1.prems"
      by (intro exI[of _ "length (pulses pde)"]) (auto simp: last_conv_nth)
  next
    case False
    let ?q = "snd (pulse_queue_dequeue pde)"
    have q: "?q = pde\<lparr>pulses := butlast (pulses pde), pd_count := int (length (butlast (pulses pde)))\<rparr>"
      using False "1.prems" by (intro dequeue_simps) auto
    have "\<exists>n \<le> length (pulses ?q). queue_trim m ?q = ?q\<lparr>pulses := take n (pulses ?q), pd_count := int n\<rparr> \<and>
      (\<forall>x \<in> set (drop n (pulses ?q)). x < m) \<and> (0 < n \<longrightarrow> m \<le> pulses ?q ! (n - 1))"
      by (rule "1.IH") (use False "1.prems" q in auto)
    then obtain n where n: "n \<le> length (pulses pde) - 1"
      "queue_trim m ?q = ?q\<lparr>pulses := take n (pulses ?q), pd_count := int n\<rparr>"
      "\<forall>x \<in> set (drop n (butlast (pulses pde))). x < m" "0 < n \<longrightarrow> m \<le> butlast (pulses pde) ! (n - 1)"
      by (auto simp: q)
    have t: "queue_trim m pde = queue_trim m ?q" using False by (subst queue_trim.simps) auto
    have "take n (butlast (pulses pde)) = take n (pulses pde)"
      using n(1) by (simp add: butlast_conv_take min_def)
    then have 1: "queue_trim m pde = pde\<lparr>pulses := take n (pulses pde), pd_count := int n\<rparr>"
      unfolding t n(2) by (simp add: q)
    have "pulses pde = butlast (pulses pde) @ [last (pulses pde)]" using False by simp
    then have "drop n (pulses pde) = drop n (butlast (pulses pde)) @ [last (pulses pde)]"
      using n(1) by (metis drop_append length_butlast diff_is_0_eq drop_0)
    then have 2: "\<forall>x \<in> set (drop n (pulses pde)). x < m" using n(3) False by auto
    have 3: "0 < n \<longrightarrow> m \<le> pulses pde ! (n - 1)"
      using n(1,4) by (auto simp: nth_butlast)
    show ?thesis using 1 2 3 n(1) by (intro exI[of _ n]) auto
  qed
qed

lemma check_window_spec:
  assumes "pd_count pde = int (length (pulses pde))" and "pd_count pde < 2 ^ 32"
  shows "\<exists>n \<le> length (pulses pde). pulse_queue_check_window pde =
      pde\<lparr>pulses := take n (pulses pde), pd_count := int n\<rparr>"
proof -
  have "pde\<lparr>pulses := pulses pde, pd_count := pd_count pde\<rparr> = pde" by simp
  then have id: "\<exists>n \<le> length (pulses pde). pde = pde\<lparr>pulses := take n (pulses pde), pd_count := int n\<rparr>"
    using assms by (intro exI[of _ "length (pulses pde)"]) simp
  show ?thesis
    unfolding pulse_queue_check_window_def using id queue_trim_spec[OF assms] by (metis (no_types))
qed

text \<open>What the queue is after a pulse has been put in: the newest pulses, fewer than the limit.\<close>

lemma enqueue_spec:
  assumes ok: "queue_ok pde" and m: "1 < max_count pde"
  shows "\<exists>n. pulse_queue_enqueue M pde ts = (pulse_mem M,
      if pulse_mem M then pde\<lparr>pulses := take n (ts # pulses pde), pd_count := int n, pd_last_ts := ts\<rparr> else pde) \<and>
      n \<le> length (pulses pde) + 1 \<and> int n < max_count pde"
proof (cases "pulse_mem M")
  case True
  have c: "w32 (pd_count pde + 1) = int (length (pulses pde)) + 1"
    using ok by (simp add: queue_ok_def w_id)
  let ?p = "pde\<lparr>pulses := ts # pulses pde, pd_count := int (length (ts # pulses pde)), pd_last_ts := ts\<rparr>"
  have "pd_count ?p = int (length (pulses ?p))" "pd_count ?p < 2 ^ 32"
    using ok by (simp_all add: queue_ok_def)
  from check_window_spec[OF this] obtain n where n: "n \<le> length (ts # pulses pde)"
    "pulse_queue_check_window ?p = ?p\<lparr>pulses := take n (ts # pulses pde), pd_count := int n\<rparr>" by auto
  let ?w = "pde\<lparr>pulses := take n (ts # pulses pde), pd_count := int n, pd_last_ts := ts\<rparr>"
  have w: "pulse_queue_check_window (pde\<lparr>pulses := ts # pulses pde, pd_count := w32 (pd_count pde + 1),
      pd_last_ts := ts\<rparr>) = ?w"
    using n(2) c by (simp add: add.commute)
  show ?thesis
  proof (cases "int n \<ge> max_count pde")
    case over: True
    then have ne: "take n (ts # pulses pde) \<noteq> []" using m by auto
    have b: "butlast (take n (ts # pulses pde)) = take (n - 1) (ts # pulses pde)"
      using n(1) by (intro butlast_take) simp
    have "snd (pulse_queue_dequeue ?w) =
        ?w\<lparr>pulses := butlast (pulses ?w), pd_count := int (length (butlast (pulses ?w)))\<rparr>"
      by (rule dequeue_simps) (use ne n(1) ok in \<open>simp_all add: queue_ok_def min_def\<close>)
    also have "\<dots> = pde\<lparr>pulses := take (n - 1) (ts # pulses pde), pd_count := int (n - 1), pd_last_ts := ts\<rparr>"
      using n(1) by (simp add: b min_def)
    finally have "pulse_queue_enqueue M pde ts = (True,
        pde\<lparr>pulses := take (n - 1) (ts # pulses pde), pd_count := int (n - 1), pd_last_ts := ts\<rparr>)"
      using True over by (simp add: pulse_queue_enqueue_def Let_def w)
    moreover have "int (n - 1) < max_count pde" using n(1) ok over m by (simp add: queue_ok_def)
    ultimately show ?thesis using True n(1) by (intro exI[of _ "n - 1"]) simp
  next
    case False
    then have "pulse_queue_enqueue M pde ts = (True, ?w)"
      using True by (simp add: pulse_queue_enqueue_def Let_def w)
    with True False n(1) show ?thesis by (intro exI[of _ n]) simp
  qed
qed (use assms in \<open>auto simp: pulse_queue_enqueue_def queue_ok_def intro!: exI[of _ 0]\<close>)

lemma enqueue_ok:
  assumes "queue_ok pde" and "1 < max_count pde"
  shows "queue_ok (snd (pulse_queue_enqueue M pde ts))"
    "sequences (snd (pulse_queue_enqueue M pde ts)) = sequences pde"
    "rs (snd (pulse_queue_enqueue M pde ts)) = rs pde"
    "max_count (snd (pulse_queue_enqueue M pde ts)) = max_count pde"
    "window_size (snd (pulse_queue_enqueue M pde ts)) = window_size pde"
    "pd_freq (snd (pulse_queue_enqueue M pde ts)) = pd_freq pde"
    "set (pulses (snd (pulse_queue_enqueue M pde ts))) \<subseteq> insert ts (set (pulses pde))"
    "length (pulses (snd (pulse_queue_enqueue M pde ts))) \<le> length (pulses pde) + 1"
proof -
  from enqueue_spec[OF assms, of M ts] obtain n where e: "pulse_queue_enqueue M pde ts = (pulse_mem M,
      if pulse_mem M then pde\<lparr>pulses := take n (ts # pulses pde), pd_count := int n, pd_last_ts := ts\<rparr> else pde)"
    "n \<le> length (pulses pde) + 1" "int n < max_count pde" by blast
  show "queue_ok (snd (pulse_queue_enqueue M pde ts))"
    using assms(1) e(2,3) by (auto simp: e(1) queue_ok_def)
  have "set (take n (ts # pulses pde)) \<subseteq> insert ts (set (pulses pde))"
    using set_take_subset[of n "ts # pulses pde"] by simp
  then show "set (pulses (snd (pulse_queue_enqueue M pde ts))) \<subseteq> insert ts (set (pulses pde))"
    by (auto simp: e(1))
  show "sequences (snd (pulse_queue_enqueue M pde ts)) = sequences pde"
    "rs (snd (pulse_queue_enqueue M pde ts)) = rs pde"
    "max_count (snd (pulse_queue_enqueue M pde ts)) = max_count pde"
    "window_size (snd (pulse_queue_enqueue M pde ts)) = window_size pde"
    "pd_freq (snd (pulse_queue_enqueue M pde ts)) = pd_freq pde"
    by (simp_all add: e(1))
  show "length (pulses (snd (pulse_queue_enqueue M pde ts))) \<le> length (pulses pde) + 1"
    using e(2) by (simp add: e(1))
qed

end
