(* ===== verification/RadarDetect.thy ===== *)
theory RadarDetect
  imports RadarPulse "HOL-Library.Sublist"
begin

text \<open>
  The two kinds of detectors (\<^verbatim>\<open>pri_detector_short\<close>, \<^verbatim>\<open>pri_detector_long\<close>): their operations,
  the contract \<open>pri_ops\<close> that the pattern detector relies on (\<^verbatim>\<open>struct pri_detector_ops\<close>), and
  both as instances of it.
\<close>

section \<open>Short, weather and interleaved waveforms\<close>

fun scan_back :: "int \<Rightarrow> int \<Rightarrow> int \<Rightarrow> pri_sequence \<Rightarrow> int list \<Rightarrow> pri_sequence" where
  "scan_back tol min_valid_ts tf ps [] = ps"
| "scan_back tol min_valid_ts tf ps (p2 # rest) =
     (if p2 < min_valid_ts then ps
      else if pde_get_multiple (w32 (last_ts ps - p2)) (sq_pri ps) tol > 0
      then scan_back tol min_valid_ts 0
             (ps\<lparr>sq_count := w32 (sq_count ps + 1), first_ts := p2, sq_falses := w32 (sq_falses ps + tf)\<rparr>) rest
      else scan_back tol min_valid_ts (w32 (tf + 1)) ps rest)"

definition seq_thresh :: "radar_detector_specs \<Rightarrow> int \<Rightarrow> int" where
  "seq_thresh r pri = (if wave r = RADAR_WAVEFORM_WEATHER
     then w8 (PPB_THRESH (w8 (19000000 div w32 (360 * pri)))) else ppb_thresh r)"

definition new_sequence :: "radar_detector_specs \<Rightarrow> int \<Rightarrow> int \<Rightarrow> int \<Rightarrow> int list \<Rightarrow> pri_sequence" where
  "new_sequence r ts p idx rest =
     (let pri = w32 (ts - p);
          dur = w32 (pri * (ppb r - 1) + 2 * max_pri_tolerance r);
          ps = \<lparr>sq_pri = pri, sq_dur = dur, sq_count = 2, sq_falses = w32 (idx - 1), first_ts = p,
                last_ts = ts, deadline_ts = 0, sq_thresh = 0\<rparr>
      in scan_back (max_pri_tolerance r) (if dur > ts then 0 else w64 (ts - dur)) 0 ps rest)"

fun create_loop :: "radar_detector_specs \<Rightarrow> int \<Rightarrow> int \<Rightarrow> (nat \<Rightarrow> bool) \<Rightarrow> int \<Rightarrow> nat \<Rightarrow> int list \<Rightarrow>
    pri_sequence list \<Rightarrow> bool \<times> pri_sequence list" where
  "create_loop r ts min_count mem idx k [] seqs = (True, seqs)"
| "create_loop r ts min_count mem idx k (p # rest) seqs =
     (let delta_ts = w32 (ts - p); idx = w16 (idx + 1) in
      if delta_ts < pri_min r then create_loop r ts min_count mem idx k rest seqs
      else if delta_ts > pri_max r then (True, seqs)
      else let ps = new_sequence r ts p idx rest in
        if sq_count ps \<le> min_count then create_loop r ts min_count mem idx k rest seqs
        else let ps = ps\<lparr>deadline_ts := w64 (first_ts ps + sq_dur ps), sq_thresh := seq_thresh r (sq_pri ps)\<rparr> in
          if \<not> mem k then (False, seqs)
          else create_loop r ts min_count mem idx (Suc k) rest (ps # seqs))"

definition pde_short_create_sequences :: "radar_mem \<Rightarrow> pri_detector \<Rightarrow> int \<Rightarrow> int \<Rightarrow> bool \<times> pri_detector" where
  "pde_short_create_sequences M pde ts min_count =
     (case create_loop (rs pde) ts min_count (pseq_mem M) 0 0 (pulses pde) (sequences pde) of
       (b, seqs) \<Rightarrow> (b, pde\<lparr>sequences := seqs\<rparr>))"

fun add_existing :: "int \<Rightarrow> int \<Rightarrow> int \<Rightarrow> pri_sequence list \<Rightarrow> int \<times> pri_sequence list" where
  "add_existing tol ts mx [] = (mx, [])"
| "add_existing tol ts mx (ps # pss) =
     (if ts > deadline_ts ps then add_existing tol ts mx pss
      else if pde_get_multiple (w32 (ts - last_ts ps)) (sq_pri ps) tol > 0
      then let ps = ps\<lparr>last_ts := ts, sq_count := w32 (sq_count ps + 1)\<rparr>;
               mx = (if mx < sq_count ps then sq_count ps else mx);
               (m, r) = add_existing tol ts mx pss in (m, ps # r)
      else let ps = ps\<lparr>sq_falses := w32 (sq_falses ps + 1)\<rparr>;
               (m, r) = add_existing tol ts mx pss in (m, ps # r))"

definition pde_short_add_to_existing_seqs :: "pri_detector \<Rightarrow> int \<Rightarrow> int \<times> pri_detector" where
  "pde_short_add_to_existing_seqs pde ts =
     (case add_existing (max_pri_tolerance (rs pde)) ts 0 (sequences pde) of
       (m, seqs) \<Rightarrow> (m, pde\<lparr>sequences := seqs\<rparr>))"

definition seq_complete :: "radar_detector_specs \<Rightarrow> pri_sequence \<Rightarrow> bool" where
  "seq_complete r ps \<longleftrightarrow> sq_count ps \<ge> sq_thresh ps \<and> w32 (sq_count ps * num_pri r) > sq_falses ps"

definition pde_short_check_detection :: "pri_detector \<Rightarrow> pri_sequence option" where
  "pde_short_check_detection pde = find (seq_complete (rs pde)) (sequences pde)"

definition pde_short_init :: "pri_detector \<Rightarrow> pri_detector" where
  "pde_short_init pde = pde\<lparr>window_size := w32 (pri_max (rs pde) * ppb (rs pde) * num_pri (rs pde)),
     max_count := w32 (ppb (rs pde) * 2)\<rparr>"

definition pde_short_add_pulse :: "radar_mem \<Rightarrow> pri_detector \<Rightarrow> int \<Rightarrow> pri_sequence option \<times> pri_detector" where
  "pde_short_add_pulse M pde ts =
     (if pd_count pde = 0 then (None, snd (pulse_queue_enqueue M pde ts))
      else if w64 (ts - pd_last_ts pde) < max_pri_tolerance (rs pde) then (None, pde)
      else (case pde_short_add_to_existing_seqs pde ts of (max_updated_seq, pde) \<Rightarrow>
            (case pde_short_create_sequences M pde ts max_updated_seq of (ok, pde) \<Rightarrow>
             if \<not> ok then (None, pri_detector_reset pde ts)
             else (case pde_short_check_detection pde of
                     None \<Rightarrow> (None, snd (pulse_queue_enqueue M pde ts))
                   | Some ps \<Rightarrow> (Some ps, pde)))))"

section \<open>Long waveforms\<close>

definition LONG_RADAR_DURATION :: int where "LONG_RADAR_DURATION = 12000000"
definition LONG_RADAR_BURST_MIN_DURATION :: int where
  "LONG_RADAR_BURST_MIN_DURATION = 12000000 div 20"
definition LONG_RADAR_MAX_BURST :: int where "LONG_RADAR_MAX_BURST = 20"

definition pde_long_init :: "pri_detector \<Rightarrow> pri_detector" where
  "pde_long_init pde = pde\<lparr>window_size := LONG_RADAR_DURATION, max_count := LONG_RADAR_MAX_BURST\<rparr>"

function long_trim :: "int \<Rightarrow> pri_detector \<Rightarrow> pri_sequence \<Rightarrow> pri_detector \<times> pri_sequence" where
  "long_trim min_valid_ts pde ps =
     (if pulses pde = [] then (pde, ps)
      else if last (pulses pde) \<ge> min_valid_ts
      then (pde, ps\<lparr>first_ts := last (pulses pde), deadline_ts := w64 (last (pulses pde) + window_size pde)\<rparr>)
      else long_trim min_valid_ts (snd (pulse_queue_dequeue pde)) (ps\<lparr>sq_count := w32 (sq_count ps - 1)\<rparr>))"
  by pat_completeness auto
termination
  by (relation "measure (\<lambda>(m, pde, ps). length (pulses pde))") (simp_all add: pulse_queue_dequeue_def Let_def)

declare long_trim.simps [simp del]

text \<open>\<open>cac\<close>: the radar status is \<^verbatim>\<open>RWNX_RADAR_CAC_BUSY\<close>.\<close>

definition pde_long_add_pulse :: "radar_mem \<Rightarrow> bool \<Rightarrow> pri_detector \<Rightarrow> int \<Rightarrow>
    pri_sequence option \<times> pri_detector" where
  "pde_long_add_pulse M cac pde ts =
     (if \<not> cac then (None, pde)
      else case sequences pde of
        [] \<Rightarrow> (if \<not> pseq_mem M 0 then (None, pde)
           else let ps = (pseq_junk M)\<lparr>sq_count := 1, sq_falses := 1, first_ts := ts, last_ts := ts,
                      deadline_ts := w64 (ts + window_size pde), sq_pri := 0\<rparr>
                in (None, snd (pulse_queue_enqueue M (pde\<lparr>sequences := [ps]\<rparr>) ts)))
      | ps # pss \<Rightarrow>
          let delta_ts = w32 (ts - last_ts ps); ps = ps\<lparr>last_ts := ts\<rparr> in
          if delta_ts < pri_max (rs pde) then (None, pde\<lparr>sequences := ps # pss\<rparr>)
          else if delta_ts \<ge> pri_min (rs pde) \<and> delta_ts \<le> pri_max (rs pde)
          then (None, pde\<lparr>sequences := ps\<lparr>sq_falses := w32 (sq_falses ps + 1)\<rparr> # pss\<rparr>)
          else if sq_count ps > 2 \<and> w32 (sq_dur ps + delta_ts) < LONG_RADAR_BURST_MIN_DURATION
          then (None, pde\<lparr>sequences := ps # pss\<rparr>)
          else let ps = ps\<lparr>sq_count := w32 (sq_count ps + 1), sq_falses := 1\<rparr>;
                   (pde, ps) = (if ts > deadline_ts ps
                     then long_trim (w64 (ts - window_size pde)) pde ps else (pde, ps))
               in if sq_count ps > ppb_thresh (rs pde) \<and> w64 (ts - first_ts ps) > window_size pde div 2
                  then (Some ps, pde\<lparr>sequences := ps # pss\<rparr>)
                  else (None, snd (pulse_queue_enqueue M
                         (pde\<lparr>sequences := ps\<lparr>sq_dur := delta_ts\<rparr> # pss\<rparr>) ts)))"

section \<open>The contract of a detector\<close>

text \<open>Pulses given to a detector one after the other, until it reports a sequence.\<close>

fun feed :: "(pri_detector \<Rightarrow> int \<Rightarrow> pri_sequence option \<times> pri_detector) \<Rightarrow> pri_detector \<Rightarrow> int list \<Rightarrow>
    pri_sequence option \<times> pri_detector" where
  "feed add pde [] = (None, pde)"
| "feed add pde (t # ts) = (case add pde t of
     (None, pde') \<Rightarrow> feed add pde' ts | (Some ps, pde') \<Rightarrow> (Some ps, pde'))"

definition empty_detector :: "pri_detector \<Rightarrow> bool" where
  "empty_detector pde \<longleftrightarrow> sequences pde = [] \<and> pulses pde = [] \<and> pd_count pde = 0"

locale pri_ops =
  fixes init :: "pri_detector \<Rightarrow> pri_detector"
    and add :: "radar_mem \<Rightarrow> bool \<Rightarrow> pri_detector \<Rightarrow> int \<Rightarrow> pri_sequence option \<times> pri_detector"
    and good :: "pri_detector \<Rightarrow> bool"
    and seen :: "pri_detector \<Rightarrow> int \<Rightarrow> bool"
    and enough :: "radar_detector_specs \<Rightarrow> pri_sequence \<Rightarrow> int \<Rightarrow> bool"
  assumes init_good: "spec_ok (rs pde) \<Longrightarrow> empty_detector pde \<Longrightarrow> good (init pde)"
    and init_keeps: "rs (init pde) = rs pde" "pd_freq (init pde) = pd_freq pde"
      "empty_detector pde \<Longrightarrow> empty_detector (init pde)"
    and add_good: "good pde \<Longrightarrow> good (snd (add M cac pde ts))"
    and add_keeps: "good pde \<Longrightarrow> rs (snd (add M cac pde ts)) = rs pde"
      "good pde \<Longrightarrow> pd_freq (snd (add M cac pde ts)) = pd_freq pde"
    and reset_good: "good pde \<Longrightarrow> good (pri_detector_reset pde ts)"
    and good_queue: "good pde \<Longrightarrow> queue_ok pde"
    and empty_seen: "empty_detector pde \<Longrightarrow> seen pde 0"
    and add_seen: "good pde \<Longrightarrow> seen pde n \<Longrightarrow> n + 1 < 2 ^ 32 \<Longrightarrow> seen (snd (add M cac pde ts)) (n + 1)"
    and add_enough: "good pde \<Longrightarrow> seen pde n \<Longrightarrow> n + 1 < 2 ^ 32 \<Longrightarrow>
      add M cac pde ts = (Some ps, pde') \<Longrightarrow> enough (rs pde) ps (n + 1)"
    and enough_mono: "enough r ps n \<Longrightarrow> n \<le> m \<Longrightarrow> enough r ps m"
begin

lemma feed_good: "good pde \<Longrightarrow> good (snd (feed (add M cac) pde ts))"
proof (induction ts arbitrary: pde)
  case (Cons t ts)
  then show ?case using add_good[OF Cons.prems, of M cac t]
    by (cases "add M cac pde t") (auto split: option.split)
qed simp

text \<open>A report needs as many pulses as the type asks for.\<close>

lemma feed_enough:
  "good pde \<Longrightarrow> seen pde n \<Longrightarrow> n + int (length ts) < 2 ^ 32 \<Longrightarrow>
   feed (add M cac) pde ts = (Some ps, pde') \<Longrightarrow> enough (rs pde) ps (n + int (length ts))"
proof (induction ts arbitrary: pde n)
  case (Cons t ts)
  obtain r q where a: "add M cac pde t = (r, q)" by fastforce
  have lim: "n + 1 < 2 ^ 32" using Cons.prems(3) by simp
  show ?case
  proof (cases r)
    case None
    have g: "good q" "seen q (n + 1)" "rs q = rs pde"
      using add_good[OF Cons.prems(1), of M cac t] add_seen[OF Cons.prems(1,2) lim, of M cac t]
        add_keeps(1)[OF Cons.prems(1), of M cac t] a by simp_all
    have "feed (add M cac) q ts = (Some ps, pde')" using Cons.prems(4) a None by simp
    from Cons.IH[OF g(1,2) _ this] g(3) Cons.prems(3) show ?thesis by (simp add: algebra_simps)
  next
    case (Some ps')
    then have "ps' = ps" using Cons.prems(4) a by simp
    with add_enough[OF Cons.prems(1,2) lim] a Some have "enough (rs pde) ps (n + 1)" by simp
    then show ?thesis by (rule enough_mono) simp
  qed
qed simp

lemma fresh_feed:
  assumes "spec_ok (rs pde)" "empty_detector pde" "int (length ts) < 2 ^ 32"
    and "feed (add M cac) (init pde) ts = (Some ps, pde')"
  shows "enough (rs pde) ps (int (length ts))"
  using feed_enough[OF init_good[OF assms(1,2)] empty_seen[OF init_keeps(3)[OF assms(2)]] _ assms(4)] assms(3)
  by (simp add: init_keeps(1))

end

section \<open>The short detector\<close>

definition short_add :: "radar_mem \<Rightarrow> bool \<Rightarrow> pri_detector \<Rightarrow> int \<Rightarrow> pri_sequence option \<times> pri_detector" where
  "short_add M cac pde ts = pde_short_add_pulse M pde ts"

definition seq_ok :: "radar_detector_specs \<Rightarrow> pri_sequence \<Rightarrow> bool" where
  "seq_ok r ps \<longleftrightarrow> sq_thresh ps = seq_thresh r (sq_pri ps) \<and> pri_min r \<le> sq_pri ps \<and> sq_pri ps \<le> pri_max r"

definition good_short :: "pri_detector \<Rightarrow> bool" where
  "good_short pde \<longleftrightarrow> spec_ok (rs pde) \<and> queue_ok pde \<and> max_count pde = ppb (rs pde) * 2 \<and>
     (\<forall>ps \<in> set (sequences pde). seq_ok (rs pde) ps)"

definition seen_short :: "pri_detector \<Rightarrow> int \<Rightarrow> bool" where
  "seen_short pde n \<longleftrightarrow> int (length (pulses pde)) \<le> n \<and>
     (\<forall>ps \<in> set (sequences pde). 0 \<le> sq_count ps \<and> sq_count ps \<le> n)"

lemma w32_le: "0 \<le> x \<Longrightarrow> 0 \<le> w32 x \<and> w32 x \<le> x"
  by (simp add: w32_def zmod_le_nonneg_dividend)

lemma scan_back_count:
  "0 \<le> sq_count ps \<Longrightarrow> 0 \<le> sq_count (scan_back tol m tf ps rest) \<and>
   sq_count (scan_back tol m tf ps rest) \<le> sq_count ps + int (length rest)"
proof (induction tol m tf ps rest rule: scan_back.induct)
  case (2 tol m tf ps p2 rest)
  show ?case
  proof (cases "p2 < m \<or> \<not> pde_get_multiple (w32 (last_ts ps - p2)) (sq_pri ps) tol > 0")
    case True
    with 2 show ?thesis by auto
  next
    case False
    have "0 \<le> w32 (sq_count ps + 1) \<and> w32 (sq_count ps + 1) \<le> sq_count ps + 1"
      using "2.prems" by (intro w32_le) simp
    with 2 False show ?thesis by simp
  qed
qed simp

lemma new_sequence_count:
  "0 \<le> sq_count (new_sequence r ts p idx rest) \<and> sq_count (new_sequence r ts p idx rest) \<le> 2 + int (length rest)"
  using scan_back_count[of "\<lparr>sq_pri = w32 (ts - p), sq_dur = w32 (w32 (ts - p) * (ppb r - 1) + 2 * max_pri_tolerance r),
      sq_count = 2, sq_falses = w32 (idx - 1), first_ts = p, last_ts = ts, deadline_ts = 0, sq_thresh = 0\<rparr>"]
  by (simp add: new_sequence_def Let_def)

text \<open>
  A sequence a pulse at \<open>ts\<close> starts with an earlier one at \<open>p\<close>, and one step of the loop over
  the earlier pulses.
\<close>

definition started :: "radar_detector_specs \<Rightarrow> int \<Rightarrow> int \<Rightarrow> int \<Rightarrow> int list \<Rightarrow> pri_sequence" where
  "started r ts p idx rest = (let ps = new_sequence r ts p idx rest in
     ps\<lparr>deadline_ts := w64 (first_ts ps + sq_dur ps), sq_thresh := seq_thresh r (sq_pri ps)\<rparr>)"

lemma started_simps:
  "sq_count (started r ts p i rest) = sq_count (new_sequence r ts p i rest)"
  "sq_thresh (started r ts p i rest) = seq_thresh r (sq_pri (started r ts p i rest))"
  by (simp_all add: started_def Let_def)

lemma create_loop_step:
  "create_loop r ts mc mem idx k (p # rest) seqs =
     (if w32 (ts - p) < pri_min r then create_loop r ts mc mem (w16 (idx + 1)) k rest seqs
      else if w32 (ts - p) > pri_max r then (True, seqs)
      else if sq_count (started r ts p (w16 (idx + 1)) rest) \<le> mc
      then create_loop r ts mc mem (w16 (idx + 1)) k rest seqs
      else if \<not> mem k then (False, seqs)
      else create_loop r ts mc mem (w16 (idx + 1)) (Suc k) rest (started r ts p (w16 (idx + 1)) rest # seqs))"
  unfolding create_loop.simps(2) Let_def started_simps(1) by (simp only: started_def Let_def)

declare create_loop.simps(2) [simp del]

text \<open>What holds of every sequence there was and of every sequence a pulse can start holds of all.\<close>

lemma create_loop_inv:
  assumes "\<forall>ps \<in> set seqs. Q ps"
    and "\<forall>p rest i. suffix (p # rest) pls \<longrightarrow> pri_min r \<le> w32 (ts - p) \<and> w32 (ts - p) \<le> pri_max r \<longrightarrow>
      Q (started r ts p i rest)"
  shows "\<forall>ps \<in> set (snd (create_loop r ts mc mem idx k pls seqs)). Q ps"
  using assms
proof (induction pls arbitrary: idx k seqs)
  case (Cons p rest)
  let ?i = "w16 (idx + 1)" and ?in = "pri_min r \<le> w32 (ts - p) \<and> w32 (ts - p) \<le> pri_max r"
  have sf: "\<forall>p' rest' i. suffix (p' # rest') rest \<longrightarrow>
      pri_min r \<le> w32 (ts - p') \<and> w32 (ts - p') \<le> pri_max r \<longrightarrow> Q (started r ts p' i rest')"
    by (intro allI impI Cons.prems(2)[rule_format] suffix_ConsI) simp_all
  note IH1 = Cons.IH[OF Cons.prems(1) sf]
  show ?case
  proof (cases ?in)
    case True
    then have "Q (started r ts p ?i rest)" using Cons.prems(2) by blast
    then have s2: "\<forall>ps \<in> set (started r ts p ?i rest # seqs). Q ps" using Cons.prems(1) by simp
    show ?thesis
      unfolding create_loop_step if_distrib[of snd] if_distrib[of set]
      by (intro if_split[of "\<lambda>S. \<forall>ps \<in> S. Q ps", THEN iffD2] conjI impI IH1 Cons.IH[OF s2 sf])
        (simp_all only: snd_conv, (rule Cons.prems(1))+)
  next
    case False
    show ?thesis
    proof (cases "w32 (ts - p) < pri_min r")
      case True
      then show ?thesis using IH1[of ?i k] unfolding create_loop_step by (simp only: if_True)
    next
      case far: False
      with False have "w32 (ts - p) > pri_max r" by simp
      then show ?thesis using far Cons.prems(1) unfolding create_loop_step by (simp only: if_True if_False snd_conv)
    qed
  qed
qed simp

lemma create_loop_count:
  assumes "\<forall>ps \<in> set seqs. 0 \<le> sq_count ps \<and> sq_count ps \<le> n" and "1 + int (length pls) \<le> n"
  shows "\<forall>ps \<in> set (snd (create_loop r ts mc mem idx k pls seqs)). 0 \<le> sq_count ps \<and> sq_count ps \<le> n"
proof (rule create_loop_inv[OF assms(1)], intro allI impI)
  fix p rest i assume "suffix (p # rest) pls" "pri_min r \<le> w32 (ts - p) \<and> w32 (ts - p) \<le> pri_max r"
  from suffix_length_le[OF this(1)] have "length (p # rest) \<le> length pls" .
  then show "0 \<le> sq_count (started r ts p i rest) \<and> sq_count (started r ts p i rest) \<le> n"
    using new_sequence_count[of r ts p i rest] assms(2) by (simp add: started_simps(1))
qed

lemma scan_back_pri: "sq_pri (scan_back tol m tf ps rest) = sq_pri ps"
  by (induction tol m tf ps rest rule: scan_back.induct) simp_all

lemma started_pri: "sq_pri (started r ts p i rest) = w32 (ts - p)"
  by (simp add: started_def new_sequence_def Let_def scan_back_pri)

lemma add_existing_count:
  assumes "\<forall>ps \<in> set pss. 0 \<le> sq_count ps \<and> sq_count ps \<le> n"
  shows "\<forall>ps \<in> set (snd (add_existing tol ts mx pss)). 0 \<le> sq_count ps \<and> sq_count ps \<le> n + 1"
  using assms
proof (induction tol ts mx pss rule: add_existing.induct)
  case (2 tol ts mx ps pss)
  have b: "0 \<le> sq_count ps" "sq_count ps \<le> n" using "2.prems" by simp_all
  then have "0 \<le> w32 (sq_count ps + 1) \<and> w32 (sq_count ps + 1) \<le> n + 1"
    using w32_le[of "sq_count ps + 1"] by simp
  with 2 b show ?case by (auto simp: Let_def split: prod.split)
qed simp


lemma create_loop_thresh:
  "\<forall>ps \<in> set seqs. seq_ok r ps \<Longrightarrow> \<forall>ps \<in> set (snd (create_loop r ts mc mem idx k pls seqs)). seq_ok r ps"
  by (rule create_loop_inv) (simp_all add: seq_ok_def started_simps(2) started_pri)

lemma seq_ok_simps:
  "seq_ok r (ps\<lparr>last_ts := x, sq_count := y\<rparr>) = seq_ok r ps" "seq_ok r (ps\<lparr>sq_falses := z\<rparr>) = seq_ok r ps"
  by (simp_all add: seq_ok_def)

lemma add_existing_thresh:
  "\<forall>ps \<in> set pss. seq_ok r ps \<Longrightarrow> \<forall>ps \<in> set (snd (add_existing tol ts mx pss)). seq_ok r ps"
  by (induction tol ts mx pss rule: add_existing.induct) (auto simp: Let_def seq_ok_simps split: prod.split)

text \<open>The four ways a pulse goes through the short detector.\<close>

lemma short_add_cases [case_names first close nomem quiet found]:
  assumes "pde_short_add_pulse M pde ts = (res, pde')"
  obtains "pd_count pde = 0" "res = None" "pde' = snd (pulse_queue_enqueue M pde ts)"
  | "pd_count pde \<noteq> 0" "w64 (ts - pd_last_ts pde) < max_pri_tolerance (rs pde)" "res = None" "pde' = pde"
  | q where "pd_count pde \<noteq> 0" "res = None" "pde' = pri_detector_reset (pde\<lparr>sequences := q\<rparr>) ts"
  | m q1 q2 where "pd_count pde \<noteq> 0" "\<not> w64 (ts - pd_last_ts pde) < max_pri_tolerance (rs pde)"
      "add_existing (max_pri_tolerance (rs pde)) ts 0 (sequences pde) = (m, q1)"
      "create_loop (rs pde) ts m (pseq_mem M) 0 0 (pulses pde) q1 = (True, q2)"
      "find (seq_complete (rs pde)) q2 = None" "res = None"
      "pde' = snd (pulse_queue_enqueue M (pde\<lparr>sequences := q2\<rparr>) ts)"
  | m q1 q2 ps where "pd_count pde \<noteq> 0"
      "add_existing (max_pri_tolerance (rs pde)) ts 0 (sequences pde) = (m, q1)"
      "create_loop (rs pde) ts m (pseq_mem M) 0 0 (pulses pde) q1 = (True, q2)"
      "find (seq_complete (rs pde)) q2 = Some ps" "res = Some ps" "pde' = pde\<lparr>sequences := q2\<rparr>"
proof -
  obtain m q1 where a: "add_existing (max_pri_tolerance (rs pde)) ts 0 (sequences pde) = (m, q1)" by fastforce
  obtain b q2 where c: "create_loop (rs pde) ts m (pseq_mem M) 0 0 (pulses pde) q1 = (b, q2)" by fastforce
  note d = pde_short_add_pulse_def pde_short_add_to_existing_seqs_def pde_short_create_sequences_def
    pde_short_check_detection_def a c
  have step: "pde_short_add_pulse M pde ts =
     (if pd_count pde = 0 then (None, snd (pulse_queue_enqueue M pde ts))
      else if w64 (ts - pd_last_ts pde) < max_pri_tolerance (rs pde) then (None, pde)
      else if \<not> b then (None, pri_detector_reset (pde\<lparr>sequences := q2\<rparr>) ts)
      else case find (seq_complete (rs pde)) q2 of
        None \<Rightarrow> (None, snd (pulse_queue_enqueue M (pde\<lparr>sequences := q2\<rparr>) ts))
      | Some ps \<Rightarrow> (Some ps, pde\<lparr>sequences := q2\<rparr>))"
    using a c by (simp add: d)
  consider "pd_count pde = 0" | "pd_count pde \<noteq> 0" "w64 (ts - pd_last_ts pde) < max_pri_tolerance (rs pde)"
    | "pd_count pde \<noteq> 0" "\<not> w64 (ts - pd_last_ts pde) < max_pri_tolerance (rs pde)" by blast
  then show thesis
  proof cases
    case 1 with step assms show thesis by (intro that(1)) simp_all
  next
    case 2 with step assms show thesis by (intro that(2)) simp_all
  next
    case 3
    show thesis
    proof (cases b)
      case False
      with 3 step assms show thesis by (intro that(3)) simp_all
    next
      case True
      show thesis
      proof (cases "find (seq_complete (rs pde)) q2")
        case None
        with 3 step assms True c show thesis by (intro that(4)[OF 3 a]) simp_all
      next
        case (Some ps)
        with 3 step assms True c show thesis by (intro that(5)[OF 3(1) a]) simp_all
      qed
    qed
  qed
qed

lemma max_count_short: "spec_ok r \<Longrightarrow> 1 < ppb r * 2 \<and> ppb r * 2 < 2 ^ 32"
  using spec_okD(4,5,10)[of r] by simp

lemma pri_detector_reset_simps:
  "rs (pri_detector_reset pde ts) = rs pde" "pd_freq (pri_detector_reset pde ts) = pd_freq pde"
  "max_count (pri_detector_reset pde ts) = max_count pde" "sequences (pri_detector_reset pde ts) = []"
  "pulses (pri_detector_reset pde ts) = []" "pd_count (pri_detector_reset pde ts) = 0"
  "window_size (pri_detector_reset pde ts) = window_size pde"
  by (simp_all add: pri_detector_reset_def)

lemma reset_queue_ok: "queue_ok pde \<Longrightarrow> queue_ok (pri_detector_reset pde ts)"
  by (auto simp: queue_ok_def pri_detector_reset_simps)

lemma good_short_seqs:
  assumes "good_short pde" and "\<forall>ps \<in> set q. seq_ok (rs pde) ps"
  shows "good_short (pde\<lparr>sequences := q\<rparr>)"
  using assms by (simp add: good_short_def queue_ok_def)

lemma good_short_enqueue:
  assumes "good_short pde"
  shows "good_short (snd (pulse_queue_enqueue M pde ts))"
proof -
  have q: "queue_ok pde" "1 < max_count pde"
    using assms max_count_short[of "rs pde"] by (simp_all add: good_short_def)
  show ?thesis using assms enqueue_ok[OF q, of M ts] by (simp add: good_short_def)
qed

lemma short_add_facts:
  assumes g: "good_short pde" and a: "pde_short_add_pulse M pde ts = (res, pde')"
  shows "good_short pde' \<and> rs pde' = rs pde \<and> pd_freq pde' = pd_freq pde \<and>
    (seen_short pde n \<and> n + 1 < 2 ^ 32 \<longrightarrow> seen_short pde' (n + 1) \<and>
     (\<forall>ps. res = Some ps \<longrightarrow> ps \<in> set (sequences pde') \<and> seq_complete (rs pde) ps \<and> sq_count ps \<le> n + 1))"
proof -
  have thresh: "\<forall>ps \<in> set (sequences pde). seq_ok (rs pde) ps"
    using g by (simp add: good_short_def)
  have enq: "good_short q \<Longrightarrow> rs (snd (pulse_queue_enqueue M q ts)) = rs q \<and>
      pd_freq (snd (pulse_queue_enqueue M q ts)) = pd_freq q \<and>
      sequences (snd (pulse_queue_enqueue M q ts)) = sequences q \<and>
      length (pulses (snd (pulse_queue_enqueue M q ts))) \<le> length (pulses q) + 1" for q
    using enqueue_ok(2,3,6,8)[of q M ts] max_count_short[of "rs q"] by (simp add: good_short_def)
  have upd: "\<forall>ps \<in> set q2. seq_ok (rs pde) ps"
      "seen_short pde n \<Longrightarrow> n + 1 < 2 ^ 32 \<Longrightarrow> \<forall>ps \<in> set q2. 0 \<le> sq_count ps \<and> sq_count ps \<le> n + 1"
    if e: "add_existing (max_pri_tolerance (rs pde)) ts 0 (sequences pde) = (m, q1)"
      and c: "create_loop (rs pde) ts m (pseq_mem M) 0 0 (pulses pde) q1 = (True, q2)" for m q1 q2
  proof -
    have t1: "\<forall>ps \<in> set q1. seq_ok (rs pde) ps"
      using add_existing_thresh[OF thresh, of "max_pri_tolerance (rs pde)" ts 0] e by simp
    show "\<forall>ps \<in> set q2. seq_ok (rs pde) ps"
      using create_loop_thresh[OF t1, of ts m "pseq_mem M" 0 0 "pulses pde"] c by simp
    assume s: "seen_short pde n" and lim: "n + 1 < 2 ^ 32"
    have "\<forall>ps \<in> set (sequences pde). 0 \<le> sq_count ps \<and> sq_count ps \<le> n"
      using s by (simp add: seen_short_def)
    from add_existing_count[OF this, of "max_pri_tolerance (rs pde)" ts 0] e
    have c1: "\<forall>ps \<in> set q1. 0 \<le> sq_count ps \<and> sq_count ps \<le> n + 1" by simp
    have "1 + int (length (pulses pde)) \<le> n + 1" using s by (simp add: seen_short_def)
    from create_loop_count[OF c1 this, of "rs pde" ts m "pseq_mem M" 0 0] c
    show "\<forall>ps \<in> set q2. 0 \<le> sq_count ps \<and> sq_count ps \<le> n + 1" by simp
  qed
  show ?thesis
    using a
  proof (cases rule: short_add_cases)
    case first
    then show ?thesis using good_short_enqueue[OF g] enq[OF g]
      by (force simp: seen_short_def)
  next
    case close
    then show ?thesis using g by (force simp: seen_short_def)
  next
    case (nomem q)
    then have "good_short pde'" using g reset_queue_ok[of "pde\<lparr>sequences := q\<rparr>" ts]
      by (simp add: good_short_def pri_detector_reset_simps queue_ok_def)
    then show ?thesis using nomem by (force simp: seen_short_def pri_detector_reset_simps)
  next
    case (quiet m q1 q2)
    let ?q = "pde\<lparr>sequences := q2\<rparr>"
    have g2: "good_short ?q" by (rule good_short_seqs[OF g upd(1)[OF quiet(3,4)]])
    have "seen_short pde n \<Longrightarrow> n + 1 < 2 ^ 32 \<Longrightarrow> seen_short pde' (n + 1)"
      using upd(2)[OF quiet(3,4)] enq[OF g2] quiet(7) by (simp add: seen_short_def)
    then show ?thesis using good_short_enqueue[OF g2] enq[OF g2] quiet(6,7) by simp
  next
    case (found m q1 q2 ps)
    have g2: "good_short pde'" unfolding found(6) by (rule good_short_seqs[OF g upd(1)[OF found(2,3)]])
    have "ps \<in> set q2" "seq_complete (rs pde) ps" using found(4) by (auto simp: find_Some_iff in_set_conv_nth)
    moreover have "seen_short pde n \<Longrightarrow> n + 1 < 2 ^ 32 \<Longrightarrow> seen_short pde' (n + 1)"
      using upd(2)[OF found(2,3)] found(6) by (simp add: seen_short_def)
    ultimately show ?thesis using g2 found(5,6) upd(2)[OF found(2,3)] by simp
  qed
qed

definition enough_short :: "radar_detector_specs \<Rightarrow> pri_sequence \<Rightarrow> int \<Rightarrow> bool" where
  "enough_short r ps n \<longleftrightarrow> seq_thresh r (sq_pri ps) \<le> n \<and> pri_min r \<le> sq_pri ps \<and> sq_pri ps \<le> pri_max r"

interpretation short: pri_ops pde_short_init short_add good_short seen_short enough_short
proof (unfold_locales, goal_cases)
  case (1 pde)
  then have "max_count (pde_short_init pde) = ppb (rs pde) * 2"
    using max_count_short[of "rs pde"] by (simp add: pde_short_init_def w_id)
  then show ?case using 1 max_count_short[of "rs pde"]
    by (simp add: good_short_def queue_ok_def empty_detector_def pde_short_init_def)
next
  case (5 pde M cac ts)
  then show ?case using short_add_facts[of pde M ts] by (cases "pde_short_add_pulse M pde ts") (simp add: short_add_def)
next
  case (6 pde M cac ts)
  then show ?case using short_add_facts[of pde M ts] by (cases "pde_short_add_pulse M pde ts") (simp add: short_add_def)
next
  case (7 pde M cac ts)
  then show ?case using short_add_facts[of pde M ts] by (cases "pde_short_add_pulse M pde ts") (simp add: short_add_def)
next
  case (8 pde ts)
  then show ?case using reset_queue_ok[of pde ts] by (simp add: good_short_def pri_detector_reset_simps)
next
  case (11 pde n M cac ts)
  then show ?case using short_add_facts[of pde M ts]
    by (cases "pde_short_add_pulse M pde ts") (simp add: short_add_def)
next
  case (12 pde n M cac ts ps pde')
  then have "good_short pde'" "ps \<in> set (sequences pde')" "seq_complete (rs pde) ps" "sq_count ps \<le> n + 1"
    "rs pde' = rs pde"
    using short_add_facts[of pde M ts "Some ps" pde' n] by (simp_all add: short_add_def)
  then show ?case by (auto simp: enough_short_def good_short_def seq_complete_def seq_ok_def)
qed (auto simp: enough_short_def pde_short_init_def empty_detector_def good_short_def seen_short_def)

section \<open>The long detector\<close>

definition good_long :: "pri_detector \<Rightarrow> bool" where
  "good_long pde \<longleftrightarrow> spec_ok (rs pde) \<and> queue_ok pde \<and> max_count pde = LONG_RADAR_MAX_BURST"

definition seen_long :: "pri_detector \<Rightarrow> int \<Rightarrow> bool" where
  "seen_long pde n \<longleftrightarrow> 0 \<le> n \<and> (case sequences pde of [] \<Rightarrow> pulses pde = []
     | ps # pss \<Rightarrow> pss = [] \<and> 1 \<le> sq_count ps \<and> int (length (pulses pde)) \<le> sq_count ps \<and> sq_count ps \<le> n)"

text \<open>Each burst that is too old leaves the queue and the count together.\<close>

lemma long_trim_queue:
  assumes "pd_count pde = int (length (pulses pde))" and "pd_count pde < 2 ^ 32"
    and "long_trim m pde ps = (pde', ps')"
  shows "pde' = pde\<lparr>pulses := pulses pde', pd_count := int (length (pulses pde'))\<rparr> \<and>
    prefix (pulses pde') (pulses pde)"
  using assms
proof (induction m pde ps rule: long_trim.induct)
  case (1 m pde ps)
  show ?case
  proof (cases "pulses pde = [] \<or> last (pulses pde) \<ge> m")
    case True
    then have "pde' = pde" using "1.prems"(3) by (auto simp: long_trim.simps[of m pde] split: if_splits)
    then show ?thesis using "1.prems"(1) by simp
  next
    case False
    let ?q = "snd (pulse_queue_dequeue pde)" and ?s = "ps\<lparr>sq_count := w32 (sq_count ps - 1)\<rparr>"
    have q: "?q = pde\<lparr>pulses := butlast (pulses pde), pd_count := int (length (butlast (pulses pde)))\<rparr>"
      using False "1.prems"(1,2) by (intro dequeue_simps) auto
    have lt: "long_trim m ?q ?s = (pde', ps')"
      using "1.prems"(3) False by (simp add: long_trim.simps[of m pde])
    have "pde' = ?q\<lparr>pulses := pulses pde', pd_count := int (length (pulses pde'))\<rparr> \<and>
      prefix (pulses pde') (pulses ?q)"
      by (rule "1.IH") (use False q lt "1.prems" in auto)
    moreover have "prefix (butlast (pulses pde)) (pulses pde)" by (rule prefixeq_butlast)
    ultimately show ?thesis by (auto simp: q intro: prefix_order.trans)
  qed
qed

lemma long_trim_count:
  assumes "pd_count pde = int (length (pulses pde))" and "pd_count pde < 2 ^ 32"
    and "int (length (pulses pde)) \<le> sq_count ps" and "sq_count ps < 2 ^ 32"
    and "long_trim m pde ps = (pde', ps')"
  shows "sq_count ps' = sq_count ps - (int (length (pulses pde)) - int (length (pulses pde')))"
  using assms
proof (induction m pde ps rule: long_trim.induct)
  case (1 m pde ps)
  show ?case
  proof (cases "pulses pde = [] \<or> last (pulses pde) \<ge> m")
    case True
    then have "pde' = pde" "sq_count ps' = sq_count ps"
      using "1.prems"(5) by (auto simp: long_trim.simps[of m pde] split: if_splits)
    then show ?thesis by simp
  next
    case False
    let ?q = "snd (pulse_queue_dequeue pde)" and ?s = "ps\<lparr>sq_count := w32 (sq_count ps - 1)\<rparr>"
    have q: "?q = pde\<lparr>pulses := butlast (pulses pde), pd_count := int (length (butlast (pulses pde)))\<rparr>"
      using False "1.prems"(1,2) by (intro dequeue_simps) auto
    have l: "0 < length (pulses pde)" using False by simp
    have l2: "int (length (pulses pde) - Suc 0) < sq_count ps" using l "1.prems"(3) by linarith
    have c: "w32 (sq_count ps - 1) = sq_count ps - 1" using l "1.prems"(3,4) by (intro w_id) linarith+
    have lt: "long_trim m ?q ?s = (pde', ps')"
      using "1.prems"(5) False by (simp add: long_trim.simps[of m pde])
    have "sq_count ps' = sq_count ?s - (int (length (pulses ?q)) - int (length (pulses pde')))"
      by (rule "1.IH") (use False l2 c q lt "1.prems" in auto)
    then show ?thesis using l c by (simp add: q of_nat_diff)
  qed
qed

text \<open>The ways a pulse goes through the long detector, with the sequence \<open>ps\<close> it is given.\<close>

lemma long_add_cases [case_names idle nomem first keep burst]:
  assumes "pde_long_add_pulse M cac pde ts = (res, pde')"
  obtains "\<not> cac" "res = None" "pde' = pde"
  | "cac" "sequences pde = []" "res = None" "pde' = pde"
  | ps where "cac" "sequences pde = []" "res = None" "sq_count ps = 1" "first_ts ps = ts"
      "pde' = snd (pulse_queue_enqueue M (pde\<lparr>sequences := [ps]\<rparr>) ts)"
  | ps pss ps1 where "cac" "sequences pde = ps # pss" "res = None" "sq_count ps1 = sq_count ps"
      "pde' = pde\<lparr>sequences := ps1 # pss\<rparr>"
  | ps pss ps1 ps2 pde2 where "cac" "sequences pde = ps # pss"
      "\<not> w32 (ts - last_ts ps) < pri_max (rs pde)"
      "sq_count ps1 = w32 (sq_count ps + 1)" "first_ts ps1 = first_ts ps"
      "(pde2, ps2) = (if ts > deadline_ts ps then long_trim (w64 (ts - window_size pde)) pde ps1 else (pde, ps1))"
      "if sq_count ps2 > ppb_thresh (rs pde2) \<and> w64 (ts - first_ts ps2) > window_size pde2 div 2
       then res = Some ps2 \<and> pde' = pde2\<lparr>sequences := ps2 # pss\<rparr>
       else res = None \<and> pde' = snd (pulse_queue_enqueue M
         (pde2\<lparr>sequences := ps2\<lparr>sq_dur := w32 (ts - last_ts ps)\<rparr> # pss\<rparr>) ts)"
proof (cases "\<not> cac")
  case True
  then show thesis using assms that(1) by (simp add: pde_long_add_pulse_def)
next
  case cac: False
  show thesis
  proof (cases "sequences pde")
    case Nil
    show thesis
    proof (cases "pseq_mem M 0")
      case True
      with cac Nil assms show thesis
        by (intro that(3)[of "(pseq_junk M)\<lparr>sq_count := 1, sq_falses := 1, first_ts := ts, last_ts := ts,
                      deadline_ts := w64 (ts + window_size pde), sq_pri := 0\<rparr>"])
          (simp_all add: pde_long_add_pulse_def)
    next
      case False
      with cac Nil assms show thesis by (intro that(2)) (simp_all add: pde_long_add_pulse_def)
    qed
  next
    case (Cons ps pss)
    let ?d = "w32 (ts - last_ts ps)" and ?s = "ps\<lparr>last_ts := ts\<rparr>"
    let ?n = "?s\<lparr>sq_count := w32 (sq_count ps + 1), sq_falses := 1\<rparr>"
    obtain pde2 ps2 where t: "(pde2, ps2) = (if ts > deadline_ts ps
        then long_trim (w64 (ts - window_size pde)) pde ?n else (pde, ?n))" by (metis surj_pair)
    have e: "pde_long_add_pulse M cac pde ts =
        (if ?d < pri_max (rs pde) then (None, pde\<lparr>sequences := ?s # pss\<rparr>)
         else if ?d \<ge> pri_min (rs pde) \<and> ?d \<le> pri_max (rs pde)
         then (None, pde\<lparr>sequences := ?s\<lparr>sq_falses := w32 (sq_falses ps + 1)\<rparr> # pss\<rparr>)
         else if sq_count ps > 2 \<and> w32 (sq_dur ps + ?d) < LONG_RADAR_BURST_MIN_DURATION
         then (None, pde\<lparr>sequences := ?s # pss\<rparr>)
         else if sq_count ps2 > ppb_thresh (rs pde2) \<and> w64 (ts - first_ts ps2) > window_size pde2 div 2
         then (Some ps2, pde2\<lparr>sequences := ps2 # pss\<rparr>)
         else (None, snd (pulse_queue_enqueue M (pde2\<lparr>sequences := ps2\<lparr>sq_dur := ?d\<rparr> # pss\<rparr>) ts)))"
      using cac Cons t by (auto simp: pde_long_add_pulse_def Let_def split: prod.split)
    consider "?d < pri_max (rs pde)" | "\<not> ?d < pri_max (rs pde)" "?d \<ge> pri_min (rs pde) \<and> ?d \<le> pri_max (rs pde)"
      | "\<not> ?d < pri_max (rs pde)" "\<not> (?d \<ge> pri_min (rs pde) \<and> ?d \<le> pri_max (rs pde))"
        "sq_count ps > 2 \<and> w32 (sq_dur ps + ?d) < LONG_RADAR_BURST_MIN_DURATION"
      | "\<not> ?d < pri_max (rs pde)" "\<not> (?d \<ge> pri_min (rs pde) \<and> ?d \<le> pri_max (rs pde))"
        "\<not> (sq_count ps > 2 \<and> w32 (sq_dur ps + ?d) < LONG_RADAR_BURST_MIN_DURATION)" by blast
    then show thesis
    proof cases
      case 1
      have "(res, pde') = (None, pde\<lparr>sequences := ?s # pss\<rparr>)"
        using assms unfolding e if_P[OF 1] by simp
      then show thesis using cac by (intro that(4)[OF _ Cons, of ?s]) simp_all
    next
      case 2
      have "(res, pde') = (None, pde\<lparr>sequences := ?s\<lparr>sq_falses := w32 (sq_falses ps + 1)\<rparr> # pss\<rparr>)"
        using assms unfolding e if_not_P[OF 2(1)] if_P[OF 2(2)] by simp
      then show thesis using cac
        by (intro that(4)[OF _ Cons, of "?s\<lparr>sq_falses := w32 (sq_falses ps + 1)\<rparr>"]) simp_all
    next
      case 3
      have "(res, pde') = (None, pde\<lparr>sequences := ?s # pss\<rparr>)"
        using assms unfolding e if_not_P[OF 3(1)] if_not_P[OF 3(2)] if_P[OF 3(3)] by simp
      then show thesis using cac by (intro that(4)[OF _ Cons, of ?s]) simp_all
    next
      case 4
      have r: "(res, pde') = (if sq_count ps2 > ppb_thresh (rs pde2) \<and> w64 (ts - first_ts ps2) > window_size pde2 div 2
         then (Some ps2, pde2\<lparr>sequences := ps2 # pss\<rparr>)
         else (None, snd (pulse_queue_enqueue M (pde2\<lparr>sequences := ps2\<lparr>sq_dur := ?d\<rparr> # pss\<rparr>) ts)))"
        using assms unfolding e if_not_P[OF 4(1)] if_not_P[OF 4(2)] if_not_P[OF 4(3)] by simp
      show thesis
      proof (rule that(5)[OF _ Cons 4(1) _ _ t], goal_cases)
        case 4 then show ?case using r by (simp split: if_splits)
      qed (use cac in simp_all)
    qed
  qed
qed

lemma good_long_enqueue:
  assumes "good_long pde"
  shows "good_long (snd (pulse_queue_enqueue M pde ts))"
    "rs (snd (pulse_queue_enqueue M pde ts)) = rs pde"
    "pd_freq (snd (pulse_queue_enqueue M pde ts)) = pd_freq pde"
    "sequences (snd (pulse_queue_enqueue M pde ts)) = sequences pde"
    "length (pulses (snd (pulse_queue_enqueue M pde ts))) \<le> length (pulses pde) + 1"
proof -
  have q: "queue_ok pde" "1 < max_count pde" using assms by (simp_all add: good_long_def LONG_RADAR_MAX_BURST_def)
  show "good_long (snd (pulse_queue_enqueue M pde ts))"
    "rs (snd (pulse_queue_enqueue M pde ts)) = rs pde"
    "pd_freq (snd (pulse_queue_enqueue M pde ts)) = pd_freq pde"
    "sequences (snd (pulse_queue_enqueue M pde ts)) = sequences pde"
    "length (pulses (snd (pulse_queue_enqueue M pde ts))) \<le> length (pulses pde) + 1"
    using assms enqueue_ok[OF q, of M ts] by (simp_all add: good_long_def)
qed

lemma good_long_seqs: "good_long (pde\<lparr>sequences := q\<rparr>) = good_long pde"
  by (simp add: good_long_def queue_ok_def)

lemma long_add_facts:
  assumes g: "good_long pde" and a: "pde_long_add_pulse M cac pde ts = (res, pde')"
  shows "good_long pde' \<and> rs pde' = rs pde \<and> pd_freq pde' = pd_freq pde \<and>
    (seen_long pde n \<and> n + 1 < 2 ^ 32 \<longrightarrow> seen_long pde' (n + 1) \<and>
     (\<forall>ps. res = Some ps \<longrightarrow> ppb_thresh (rs pde) < sq_count ps \<and> sq_count ps \<le> n + 1))"
  using a
proof (cases rule: long_add_cases)
  case (first ps)
  let ?q = "pde\<lparr>sequences := [ps]\<rparr>"
  have "good_long ?q" using g by (simp add: good_long_seqs)
  from good_long_enqueue[OF this, of M ts] first show ?thesis by (auto simp: seen_long_def)
next
  case (keep ps pss ps1)
  then show ?thesis using g by (auto simp: seen_long_def good_long_seqs)
next
  case (burst ps pss ps1 ps2 pde2)
  have q: "pd_count pde = int (length (pulses pde))" "pd_count pde < 2 ^ 32"
    using g by (simp_all add: good_long_def queue_ok_def)
  have p2: "pde2 = pde\<lparr>pulses := pulses pde2, pd_count := int (length (pulses pde2))\<rparr> \<and>
      prefix (pulses pde2) (pulses pde)"
  proof (cases "ts > deadline_ts ps")
    case True
    then have "long_trim (w64 (ts - window_size pde)) pde ps1 = (pde2, ps2)" using burst(6) by simp
    then show ?thesis by (rule long_trim_queue[OF q])
  qed (use burst(6) q in simp)
  then have len: "length (pulses pde2) \<le> length (pulses pde)" by (blast intro: prefix_length_le)
  have keep2: "rs pde2 = rs pde" "pd_freq pde2 = pd_freq pde" "max_count pde2 = max_count pde"
    "pd_count pde2 = int (length (pulses pde2))" "sequences pde2 = sequences pde"
    by (subst conjunct1[OF p2], simp)+
  have g2: "good_long (pde2\<lparr>sequences := x\<rparr>)" for x
    using g len by (simp add: good_long_def queue_ok_def keep2)
  note e = good_long_enqueue[OF g2, where M = M and ts = ts]
  let ?found = "sq_count ps2 > ppb_thresh (rs pde2) \<and> w64 (ts - first_ts ps2) > window_size pde2 div 2"
  have base: "good_long pde' \<and> rs pde' = rs pde \<and> pd_freq pde' = pd_freq pde"
    using burst(7) e g2 keep2 by (cases ?found) simp_all
  have res: "res = Some x \<Longrightarrow> x = ps2 \<and> ppb_thresh (rs pde) < sq_count ps2" for x
    using burst(7) keep2(1) by (cases ?found) simp_all
  have "seen_long pde' (n + 1) \<and> sq_count ps2 \<le> n + 1" if s: "seen_long pde n" "n + 1 < 2 ^ 32"
  proof -
    have s': "pss = []" "1 \<le> sq_count ps" "int (length (pulses pde)) \<le> sq_count ps" "sq_count ps \<le> n" "0 \<le> n"
      using s(1) burst(2) by (simp_all add: seen_long_def)
    have c1: "sq_count ps1 = sq_count ps + 1" using burst(4) s' s(2) by (simp add: w_id)
    have c2: "sq_count ps2 = sq_count ps + 1 - (int (length (pulses pde)) - int (length (pulses pde2)))"
    proof (cases "ts > deadline_ts ps")
      case True
      have "int (length (pulses pde)) \<le> sq_count ps1" "sq_count ps1 < 2 ^ 32" using c1 s' s(2) by simp_all
      from long_trim_count[OF q this, of "w64 (ts - window_size pde)" pde2 ps2] True burst(6) c1
      show ?thesis by simp
    qed (use burst(6) c1 in simp)
    let ?p2 = "pde2\<lparr>sequences := ps2\<lparr>sq_dur := w32 (ts - last_ts ps)\<rparr> # pss\<rparr>"
    have "length (pulses (snd (pulse_queue_enqueue M ?p2 ts))) \<le> length (pulses pde2) + 1"
      using e(5)[of "ps2\<lparr>sq_dur := w32 (ts - last_ts ps)\<rparr> # pss"] by simp
    then have "length (pulses pde') \<le> length (pulses pde2) + 1 \<and>
        (\<exists>x. sequences pde' = [x] \<and> sq_count x = sq_count ps2)"
      using burst(7) s'(1) e(4)[of "ps2\<lparr>sq_dur := w32 (ts - last_ts ps)\<rparr> # pss"]
      by (cases ?found) simp_all
    then show ?thesis using c2 s' len by (auto simp: seen_long_def)
  qed
  then show ?thesis using base res by blast
qed (use g in \<open>auto simp: seen_long_def split: list.splits\<close>)

definition enough_long :: "radar_detector_specs \<Rightarrow> pri_sequence \<Rightarrow> int \<Rightarrow> bool" where
  "enough_long r ps n \<longleftrightarrow> ppb_thresh r < n"

interpretation long: pri_ops pde_long_init pde_long_add_pulse good_long seen_long enough_long
proof (unfold_locales, goal_cases)
  case (5 pde M cac ts)
  then show ?case using long_add_facts[of pde M cac ts] by (cases "pde_long_add_pulse M cac pde ts") simp
next
  case (6 pde M cac ts)
  then show ?case using long_add_facts[of pde M cac ts] by (cases "pde_long_add_pulse M cac pde ts") simp
next
  case (7 pde M cac ts)
  then show ?case using long_add_facts[of pde M cac ts] by (cases "pde_long_add_pulse M cac pde ts") simp
next
  case (8 pde ts)
  then show ?case using reset_queue_ok[of pde ts] by (simp add: good_long_def pri_detector_reset_simps)
next
  case (11 pde n M cac ts)
  then show ?case using long_add_facts[of pde M cac ts] by (cases "pde_long_add_pulse M cac pde ts") simp
next
  case (12 pde n M cac ts ps pde')
  then have "ppb_thresh (rs pde) < sq_count ps" "sq_count ps \<le> n + 1"
    using long_add_facts[of pde M cac ts "Some ps" pde' n] by simp_all
  then show ?case by (simp add: enough_long_def)
qed (auto simp: enough_long_def pde_long_init_def empty_detector_def good_long_def seen_long_def queue_ok_def
    LONG_RADAR_MAX_BURST_def)

end
