(* ===== verification/RadarTrain.thy ===== *)
theory RadarTrain
  imports RadarDetect
begin

text \<open>
  What the short detector makes of a regular train of pulses: it follows the train as one sequence
  and reports it with the pulse that reaches the threshold.
\<close>

section \<open>The pulse just put in stays\<close>

lemma check_window_keeps_head:
  assumes "pd_count pde = int (length (pulses pde))" "pd_count pde < 2 ^ 32"
    and "pulses pde = pd_last_ts pde # rest" "pd_last_ts pde < 2 ^ 64" "0 < window_size pde"
  shows "pulses (pulse_queue_check_window pde) \<noteq> []"
proof (cases "pd_count pde < 2 \<or> pd_last_ts pde \<le> window_size pde")
  case True
  then have "pulse_queue_check_window pde = pde" by (auto simp: pulse_queue_check_window_def)
  then show ?thesis using assms(3) by simp
next
  case False
  let ?m = "w64 (pd_last_ts pde - window_size pde)"
  from queue_trim_spec[OF assms(1,2), of ?m] obtain n where n: "n \<le> length (pulses pde)"
    "queue_trim ?m pde = pde\<lparr>pulses := take n (pulses pde), pd_count := int n\<rparr>"
    "\<forall>x \<in> set (drop n (pulses pde)). x < ?m" by blast
  have "?m < pd_last_ts pde" using False assms(4,5) by (simp add: w_id)
  then have "n \<noteq> 0" using n(3) assms(3) by (intro notI) simp
  moreover have "pulse_queue_check_window pde = queue_trim ?m pde"
    using False by (simp add: pulse_queue_check_window_def)
  ultimately show ?thesis using n(2) assms(3) by simp
qed

lemma enqueue_nonempty:
  assumes ok: "queue_ok pde" and m: "2 < max_count pde" and w: "0 < window_size pde" "ts < 2 ^ 64"
    and mem: "pulse_mem M"
  shows "0 < pd_count (snd (pulse_queue_enqueue M pde ts))"
    "pd_last_ts (snd (pulse_queue_enqueue M pde ts)) = ts"
proof -
  let ?p = "pde\<lparr>pulses := ts # pulses pde, pd_count := w32 (pd_count pde + 1), pd_last_ts := ts\<rparr>"
  let ?w = "pulse_queue_check_window ?p"
  have c: "w32 (pd_count pde + 1) = int (length (pulses pde)) + 1"
    using ok by (simp add: queue_ok_def w_id)
  have p: "pd_count ?p = int (length (pulses ?p))" "pd_count ?p < 2 ^ 32"
    using ok c by (simp_all add: queue_ok_def)
  from check_window_spec[OF p] obtain n where n: "?w = ?p\<lparr>pulses := take n (pulses ?p), pd_count := int n\<rparr>" by blast
  have ne: "pulses ?w \<noteq> []" using p w by (intro check_window_keeps_head[where rest = "pulses pde"]) simp_all
  then have n0: "0 < n" unfolding n by (cases n) simp_all
  from enqueue_spec[OF ok, of M ts] m mem obtain k where k: "pulse_queue_enqueue M pde ts =
      (True, pde\<lparr>pulses := take k (ts # pulses pde), pd_count := int k, pd_last_ts := ts\<rparr>)" by auto
  show "pd_last_ts (snd (pulse_queue_enqueue M pde ts)) = ts" by (simp add: k)
  show "0 < pd_count (snd (pulse_queue_enqueue M pde ts))"
  proof (cases "int n \<ge> max_count pde")
    case True
    have "pd_count (snd (pulse_queue_dequeue ?w)) = int n - 1"
    proof -
      have "w32 (int n - 1) = int n - 1"
      proof (rule w_id)
        have "int n \<le> int (length (ts # pulses pde)) \<or> True" by simp
        show "0 \<le> int n - 1" using n0 by simp
        have "\<exists>n' \<le> length (pulses ?p). ?w = ?p\<lparr>pulses := take n' (pulses ?p), pd_count := int n'\<rparr>"
          by (rule check_window_spec[OF p])
        then obtain n' where "n' \<le> length (pulses ?p)" "pd_count ?w = int n'" by auto
        then have "int n \<le> pd_count ?p" using p(1) by (simp add: n)
        then show "int n - 1 < 2 ^ 32" using p(2) by linarith
      qed
      then show ?thesis using ne by (simp add: pulse_queue_dequeue_def n)
    qed
    then show ?thesis using mem True m by (simp add: pulse_queue_enqueue_def Let_def n)
  next
    case False
    then show ?thesis using mem n0 by (simp add: pulse_queue_enqueue_def Let_def n)
  qed
qed

section \<open>The train\<close>

text \<open>
  Pulses after one at \<open>t\<close>: each is between 16 us and the deadline \<open>dl\<close>, and the interval to the
  one before differs from \<open>p\<close> by no more than the tolerance.
\<close>

fun train :: "int \<Rightarrow> int \<Rightarrow> int \<Rightarrow> int list \<Rightarrow> bool" where
  "train p dl t [] = True"
| "train p dl t (x # xs) = (t + 16 \<le> x \<and> \<bar>x - t - p\<bar> \<le> 16 \<and> x \<le> dl \<and> train p dl x xs)"

definition mem_ok :: "radar_mem \<Rightarrow> bool" where
  "mem_ok M \<longleftrightarrow> pulse_mem M \<and> (\<forall>k. pseq_mem M k)"

text \<open>The detector follows one sequence of \<open>k\<close> pulses, the last one at \<open>t\<close>.\<close>

definition following :: "pri_detector \<Rightarrow> int \<Rightarrow> int \<Rightarrow> int \<Rightarrow> int \<Rightarrow> bool" where
  "following pde p dl k t \<longleftrightarrow> good_short pde \<and> seen_short pde k \<and> 0 < pd_count pde \<and> pd_last_ts pde = t \<and>
     2 \<le> k \<and> 0 < window_size pde \<and>
     (\<exists>ps. sequences pde = [ps] \<and> sq_pri ps = p \<and> sq_count ps = k \<and> sq_falses ps = 0 \<and>
        last_ts ps = t \<and> deadline_ts ps = dl)"

lemma create_none:
  assumes "\<forall>p rest i. suffix (p # rest) pls \<longrightarrow> sq_count (started r ts p i rest) \<le> mc"
  shows "create_loop r ts mc mem idx k pls seqs = (True, seqs)"
  using assms
proof (induction pls arbitrary: idx)
  case (Cons p rest)
  have "sq_count (started r ts p (w16 (idx + 1)) rest) \<le> mc" using Cons.prems by blast
  moreover have "create_loop r ts mc mem (w16 (idx + 1)) k rest seqs = (True, seqs)"
    by (rule Cons.IH) (intro allI impI Cons.prems[rule_format] suffix_ConsI)
  ultimately show ?case unfolding create_loop_step by presburger
qed simp

lemma multiple_one: "0 < f \<Longrightarrow> \<bar>v - f\<bar> \<le> tol \<Longrightarrow> pde_get_multiple v f tol = 1"
  by (auto simp: pde_get_multiple_def Let_def)

lemma count_fits:
  assumes "spec_ok r" and "1 \<le> k" and "k \<le> ppb r"
  shows "0 < w32 (k * num_pri r)"
proof -
  have s: "1 \<le> num_pri r" "16 \<le> pri_max r" "pri_max r * ppb r * num_pri r < 2 ^ 32"
    using spec_okD[OF assms(1)] by simp_all
  have "k * num_pri r \<le> ppb r * num_pri r" using assms(3) s(1) by (intro mult_right_mono) simp_all
  also have "\<dots> \<le> pri_max r * (ppb r * num_pri r)"
    using s assms(2,3) mult_right_mono[of 1 "pri_max r" "ppb r * num_pri r"] by simp
  finally have "k * num_pri r < 2 ^ 32" using s(3) by (simp add: mult.assoc)
  moreover have "1 * 1 \<le> k * num_pri r" using assms(2) s(1) by (intro mult_mono) simp_all
  ultimately have "w32 (k * num_pri r) = k * num_pri r" "0 < k * num_pri r" by (simp_all add: w_id)
  then show ?thesis by simp
qed

lemma short_window: "spec_ok r \<Longrightarrow> 0 < w32 (pri_max r * ppb r * num_pri r)"
proof -
  assume sp: "spec_ok r"
  have "1 * 1 * 1 \<le> pri_max r * ppb r * num_pri r"
    using spec_okD[OF sp] by (intro mult_mono) simp_all
  then show ?thesis using spec_okD(9)[OF sp] by (simp add: w_id)
qed

text \<open>One more pulse of the train.\<close>

lemma following_step:
  assumes f: "following pde p dl k t" and M: "mem_ok M"
    and x: "t + 16 \<le> x" "\<bar>x - t - p\<bar> \<le> 16" "x \<le> dl" "0 \<le> t" "x < 2 ^ 64" "0 < p" "p < 2 ^ 16"
    and k: "k + 1 \<le> ppb (rs pde)" and r: "pde_short_add_pulse M pde x = (res, pde')"
  shows "if k + 1 \<ge> seq_thresh (rs pde) p then \<exists>ps. res = Some ps \<and> sq_pri ps = p \<and> sq_count ps = k + 1
    else res = None \<and> following pde' p dl (k + 1) x \<and> rs pde' = rs pde"
proof -
  obtain ps where ps: "sequences pde = [ps]" "sq_pri ps = p" "sq_count ps = k" "sq_falses ps = 0"
    "last_ts ps = t" "deadline_ts ps = dl" using f by (auto simp: following_def)
  have g: "good_short pde" "seen_short pde k" and c0: "0 < pd_count pde" and lt: "pd_last_ts pde = t"
    and k2: "2 \<le> k" and win: "0 < window_size pde"
    using f by (simp_all add: following_def)
  have sp: "spec_ok (rs pde)" using g(1) by (simp add: good_short_def)
  have tol: "max_pri_tolerance (rs pde) = 16" and kk: "k + 1 < 256" using spec_okD[OF sp] k by simp_all
  let ?ps = "ps\<lparr>last_ts := x, sq_count := k + 1\<rparr>"
  have xt: "0 \<le> x - t" "x - t < 2 ^ 32" using x by auto
  have w: "w32 (x - t) = x - t" by (rule w_id(3)[OF xt])
  have wk: "w32 (k + 1) = k + 1" using kk k2 by (intro w_id) simp_all
  have m1: "pde_get_multiple (x - t) p 16 = 1" using x by (intro multiple_one) linarith+
  have e: "add_existing 16 x 0 (sequences pde) = (k + 1, [?ps])"
    using ps x(3) k2 by (simp add: w m1 wk)
  have few: "\<forall>p' rest i. suffix (p' # rest) (pulses pde) \<longrightarrow> sq_count (started (rs pde) x p' i rest) \<le> k + 1"
  proof (intro allI impI)
    fix p' rest i assume "suffix (p' # rest) (pulses pde)"
    then have "length (p' # rest) \<le> length (pulses pde)" by (rule suffix_length_le)
    then have "int (length (p' # rest)) \<le> k" using g(2) by (simp add: seen_short_def)
    then show "sq_count (started (rs pde) x p' i rest) \<le> k + 1"
      using new_sequence_count[of "rs pde" x p' i rest] by (simp add: started_simps)
  qed
  have c: "create_loop (rs pde) x (k + 1) (pseq_mem M) 0 0 (pulses pde) [?ps] = (True, [?ps])"
    by (rule create_none[OF few])
  have far: "\<not> w64 (x - pd_last_ts pde) < max_pri_tolerance (rs pde)"
    using x(1,4,5) by (simp add: lt tol w_id)
  have th: "sq_thresh ps = seq_thresh (rs pde) p" using g(1) ps by (simp add: good_short_def seq_ok_def)
  have complete: "seq_complete (rs pde) ?ps \<longleftrightarrow> k + 1 \<ge> seq_thresh (rs pde) p"
    using ps th count_fits[OF sp _ k] k2 by (simp add: seq_complete_def)
  let ?q = "pde\<lparr>sequences := [?ps]\<rparr>"
  have step: "pde_short_add_pulse M pde x = (if k + 1 \<ge> seq_thresh (rs pde) p then (Some ?ps, ?q)
      else (None, snd (pulse_queue_enqueue M ?q x)))"
    using c0 far e c complete unfolding pde_short_add_pulse_def pde_short_add_to_existing_seqs_def
      pde_short_create_sequences_def pde_short_check_detection_def tol by simp
  have facts: "good_short pde'" "seen_short pde' (k + 1)" "rs pde' = rs pde"
    using short_add_facts[OF g(1) r, of k] g(2) kk by simp_all
  show ?thesis
  proof (cases "k + 1 \<ge> seq_thresh (rs pde) p")
    case True
    then show ?thesis using step r ps by auto
  next
    case False
    then have p': "pde' = snd (pulse_queue_enqueue M ?q x)" and res: "res = None" using step r by simp_all
    have q: "queue_ok ?q" "2 < max_count ?q"
      using g(1) spec_okD[OF sp] by (simp_all add: good_short_def queue_ok_def)
    have pm: "pulse_mem M" using M by (simp add: mem_ok_def)
    have "1 < max_count ?q" "0 < window_size ?q" using q(2) win by simp_all
    note en = enqueue_nonempty[OF q this(2) x(5) pm] and eo = enqueue_ok[OF q(1) this(1), of M x]
    have "following pde' p dl (k + 1) x"
      using facts en eo(2,5) p' ps k2 win by (simp add: following_def)
    then show ?thesis using False res facts(3) by simp
  qed
qed

lemma train_run:
  assumes "following pde p dl k t" and "mem_ok M" and "train p dl t xs" and "0 \<le> t" "dl < 2 ^ 64" "0 < p" "p < 2 ^ 16"
    and "k < seq_thresh (rs pde) p" "seq_thresh (rs pde) p = k + int (length xs)"
    and "seq_thresh (rs pde) p \<le> ppb (rs pde)"
  shows "\<exists>ps pde'. feed (short_add M cac) pde xs = (Some ps, pde') \<and> sq_pri ps = p \<and>
    sq_count ps = seq_thresh (rs pde) p"
  using assms
proof (induction xs arbitrary: pde k t)
  case (Cons x xs)
  obtain res q where r: "pde_short_add_pulse M pde x = (res, q)" by fastforce
  have x: "t + 16 \<le> x" "\<bar>x - t - p\<bar> \<le> 16" "x \<le> dl" "x < 2 ^ 64" "train p dl x xs"
    using Cons.prems(3,5) by simp_all
  have k: "k + 1 \<le> ppb (rs pde)" using Cons.prems(9,10) by simp
  note s = following_step[OF Cons.prems(1,2) x(1-3) Cons.prems(4) x(4) Cons.prems(6,7) k r]
  show ?case
  proof (cases "k + 1 \<ge> seq_thresh (rs pde) p")
    case True
    then show ?thesis using s Cons.prems(8) r by (auto simp: short_add_def)
  next
    case False
    with s have s': "res = None" "following q p dl (k + 1) x" "rs q = rs pde" by simp_all
    from Cons.IH[OF s'(2) Cons.prems(2) x(5) _ Cons.prems(5-7)] Cons.prems(4,9,10) x(1) False s'(3)
    show ?thesis using r s'(1) by (simp add: short_add_def)
  qed
qed simp

section \<open>From the first pulse\<close>

lemma first_pulse:
  assumes "good_short pde" "pulses pde = []" "pd_count pde = 0" "sequences pde = []" "pulse_mem M"
    and "pde_short_add_pulse M pde t = (res, q)"
  shows "res = None \<and> pulses q = [t] \<and> pd_count q = 1 \<and> pd_last_ts q = t \<and> sequences q = [] \<and>
    rs q = rs pde \<and> window_size q = window_size pde \<and> max_count q = max_count pde"
proof -
  have "2 \<le> max_count pde" using assms(1) max_count_short[of "rs pde"] by (auto simp: good_short_def)
  then show ?thesis using assms(2-6)
    by (auto simp: pde_short_add_pulse_def pulse_queue_enqueue_def pulse_queue_check_window_def Let_def w_id)
qed

lemma started_alone:
  assumes "0 \<le> t" "0 \<le> p" "p < 2 ^ 16" "spec_ok r" and "t + p * (ppb r - 1) + 32 < 2 ^ 64"
  shows "started r (t + p) t 1 [] = \<lparr>sq_pri = p, sq_dur = p * (ppb r - 1) + 32, sq_count = 2, sq_falses = 0,
    first_ts = t, last_ts = t + p, deadline_ts = t + p * (ppb r - 1) + 32, sq_thresh = seq_thresh r p\<rparr>"
proof -
  have r: "2 \<le> ppb r" "ppb r < 256" "max_pri_tolerance r = 16" using spec_okD[OF assms(4)] by simp_all
  have "p * (ppb r - 1) \<le> 65535 * 255" using assms(2,3) r by (intro mult_mono) simp_all
  then have d: "p * (ppb r - 1) + 32 < 2 ^ 32" by simp
  have z: "0 \<le> p * (ppb r - 1)" using assms(2) r by simp
  have p: "w32 p = p" and d': "w32 (p * (ppb r - 1) + 32) = p * (ppb r - 1) + 32"
    using assms(2,3) d z by (simp_all add: w_id)
  have "w64 (t + (p * (ppb r - 1) + 32)) = t + p * (ppb r - 1) + 32"
    using assms(1,5) z by (simp add: w_id)
  then show ?thesis using p d' r by (simp add: started_def new_sequence_def Let_def w32_def[of 0])
qed

lemma second_pulse:
  assumes g: "good_short pde" and q: "pulses pde = [t]" "pd_count pde = 1" "pd_last_ts pde = t" "sequences pde = []"
    and win: "0 < window_size pde" and M: "mem_ok M"
    and p: "pri_min (rs pde) \<le> p" "p \<le> pri_max (rs pde)" and t: "0 \<le> t" "t + p * (ppb (rs pde) - 1) + 32 < 2 ^ 64"
    and r: "pde_short_add_pulse M pde (t + p) = (res, pde')"
  shows "if 2 \<ge> seq_thresh (rs pde) p then \<exists>ps. res = Some ps \<and> sq_pri ps = p \<and> sq_count ps = 2
    else res = None \<and> following pde' p (t + p * (ppb (rs pde) - 1) + 32) 2 (t + p) \<and> rs pde' = rs pde"
proof -
  have sp: "spec_ok (rs pde)" using g by (simp add: good_short_def)
  note s = spec_okD[OF sp]
  have pp: "16 \<le> p" "p < 2 ^ 16" using p s by simp_all
  have pb: "2 \<le> ppb (rs pde)" using s by simp
  have "p * 1 \<le> p * (ppb (rs pde) - 1)" using pp pb by (intro mult_left_mono) simp_all
  then have x: "t + p < 2 ^ 64" using t(2) by simp
  let ?ps = "started (rs pde) (t + p) t 1 []"
  note st = started_alone[OF t(1) _ pp(2) sp t(2)]
  have w: "w32 p = p" using pp by (simp add: w_id)
  have c: "create_loop (rs pde) (t + p) 0 (pseq_mem M) 0 0 [t] [] = (True, [?ps])"
    using p M pp by (simp add: create_loop_step w st w_id mem_ok_def)
  have far: "\<not> w64 (t + p - pd_last_ts pde) < max_pri_tolerance (rs pde)"
    using pp s(6) by (simp add: q(3) w_id)
  have complete: "seq_complete (rs pde) ?ps \<longleftrightarrow> 2 \<ge> seq_thresh (rs pde) p"
    using count_fits[OF sp, of 2] pb pp by (simp add: seq_complete_def st)
  let ?q = "pde\<lparr>sequences := [?ps]\<rparr>"
  have step: "pde_short_add_pulse M pde (t + p) = (if 2 \<ge> seq_thresh (rs pde) p then (Some ?ps, ?q)
      else (None, snd (pulse_queue_enqueue M ?q (t + p))))"
    using q far c complete unfolding pde_short_add_pulse_def pde_short_add_to_existing_seqs_def
      pde_short_create_sequences_def pde_short_check_detection_def by simp
  have "seen_short pde 1" using q by (simp add: seen_short_def)
  then have facts: "good_short pde'" "seen_short pde' 2" "rs pde' = rs pde"
    using short_add_facts[OF g r, of 1] by simp_all
  show ?thesis
  proof (cases "2 \<ge> seq_thresh (rs pde) p")
    case True
    then show ?thesis using step r st pp by auto
  next
    case False
    then have p': "pde' = snd (pulse_queue_enqueue M ?q (t + p))" and res: "res = None" using step r by simp_all
    have qq: "queue_ok ?q" "2 < max_count ?q"
      using g pb by (simp_all add: good_short_def queue_ok_def)
    have pm: "pulse_mem M" using M by (simp add: mem_ok_def)
    have "1 < max_count ?q" "0 < window_size ?q" using qq(2) win by simp_all
    note en = enqueue_nonempty[OF qq this(2) x pm] and eo = enqueue_ok[OF qq(1) this(1), of M "t + p"]
    have "following pde' p (t + p * (ppb (rs pde) - 1) + 32) 2 (t + p)"
      using facts en eo(2,5) p' win st pp by (simp add: following_def)
    then show ?thesis using False res facts(3) by simp
  qed
qed

text \<open>
  The thresholds of the rows: at least five pulses or bursts, and for weather rows the threshold
  that depends on the interval stays within a burst.
\<close>

definition weather_row :: "radar_detector_specs \<Rightarrow> bool" where
  "weather_row r \<longleftrightarrow> (if wave r = RADAR_WAVEFORM_WEATHER then pri_min r = 502 \<and> pri_max r = 3082 \<and> ppb r = 102
     else if wave r = RADAR_WAVEFORM_LONG then 4 \<le> ppb_thresh r else 5 \<le> ppb_thresh r)"

lemma all_weather_rows: "list_all weather_row all_specs"
  by code_simp

lemma thresh_range:
  assumes "r \<in> set all_specs" and "pri_min r \<le> p" "p \<le> pri_max r" and "wave r \<noteq> RADAR_WAVEFORM_LONG"
  shows "5 \<le> seq_thresh r p \<and> seq_thresh r p \<le> ppb r"
proof (cases "wave r = RADAR_WAVEFORM_WEATHER")
  case True
  then have w: "pri_min r = 502" "pri_max r = 3082" "ppb r = 102"
    using bspec[OF all_weather_rows[unfolded list_all_iff] assms(1)] by (simp_all add: weather_row_def)
  then have p: "502 \<le> p" "p \<le> 3082" using assms by simp_all
  have e: "w32 (360 * p) = 360 * p" using p by (simp add: w_id)
  have "19000000 div (360 * p) \<le> 19000000 div (360 * 502)" using p by (intro zdiv_mono2) simp_all
  moreover have "19000000 div (360 * 3082) \<le> 19000000 div (360 * p)" using p by (intro zdiv_mono2) simp_all
  ultimately have d: "17 \<le> 19000000 div (360 * p)" "19000000 div (360 * p) \<le> 105" by simp_all
  define n where "n = 19000000 div (360 * p)"
  have n: "17 \<le> n" "n \<le> 105" using d by (simp_all only: n_def)
  then have t: "9 \<le> PPB_THRESH n" "PPB_THRESH n \<le> 53" by (auto simp: PPB_THRESH_def MIN_PPB_THRESH_def)
  have "seq_thresh r p = w8 (PPB_THRESH (w8 n))" unfolding seq_thresh_def e n_def[symmetric] using True by simp
  also have "\<dots> = PPB_THRESH n" using n t by (simp add: w_id)
  finally have "9 \<le> seq_thresh r p \<and> seq_thresh r p \<le> 53" using t by simp
  then show ?thesis using w by simp
next
  case False
  have "weather_row r" "spec_ok r" using all_weather_rows all_specs_ok assms(1) by (simp_all add: list_all_iff)
  then show ?thesis using False assms(4) spec_okD(5)[of r] by (simp add: weather_row_def seq_thresh_def)
qed

lemma fresh_train:
  assumes "good_short pde" "empty_detector pde" "0 < window_size pde" "mem_ok M"
    and "pri_min (rs pde) \<le> p" "p \<le> pri_max (rs pde)" "0 \<le> t" "t + p * (ppb (rs pde) - 1) + 32 < 2 ^ 64"
    and "train p (t + p * (ppb (rs pde) - 1) + 32) (t + p) xs"
    and "2 \<le> seq_thresh (rs pde) p" "seq_thresh (rs pde) p \<le> ppb (rs pde)"
    and "seq_thresh (rs pde) p = 2 + int (length xs)"
  shows "\<exists>ps pde'. feed (short_add M cac) pde (t # (t + p) # xs) = (Some ps, pde') \<and> sq_pri ps = p \<and>
    sq_count ps = seq_thresh (rs pde) p"
proof -
  obtain r1 q1 where a1: "pde_short_add_pulse M pde t = (r1, q1)" by fastforce
  have "pulse_mem M" using assms(4) by (simp add: mem_ok_def)
  from first_pulse[OF assms(1) _ _ _ this a1] assms(2)
  have f: "r1 = None" "pulses q1 = [t]" "pd_count q1 = 1" "pd_last_ts q1 = t" "sequences q1 = []"
    "rs q1 = rs pde" "window_size q1 = window_size pde" by (simp_all add: empty_detector_def)
  have g1: "good_short q1" using short_add_facts[OF assms(1) a1, of 0] by blast
  obtain r2 q2 where a2: "pde_short_add_pulse M q1 (t + p) = (r2, q2)" by fastforce
  have s: "if 2 \<ge> seq_thresh (rs q1) p then \<exists>ps. r2 = Some ps \<and> sq_pri ps = p \<and> sq_count ps = 2
    else r2 = None \<and> following q2 p (t + p * (ppb (rs q1) - 1) + 32) 2 (t + p) \<and> rs q2 = rs q1"
    by (rule second_pulse[OF g1 f(2-5) _ assms(4) _ _ assms(7) _ a2]) (use assms f in simp_all)
  show ?thesis
  proof (cases "2 \<ge> seq_thresh (rs pde) p")
    case True
    then have "seq_thresh (rs pde) p = 2" using assms(10) by simp
    with s f(6) a1 a2 f(1) show ?thesis by (auto simp: short_add_def)
  next
    case False
    with s f(6) have s': "r2 = None" "following q2 p (t + p * (ppb (rs pde) - 1) + 32) 2 (t + p)" "rs q2 = rs pde"
      by simp_all
    have sp: "spec_ok (rs pde)" using assms(1) by (simp add: good_short_def)
    have p: "0 < p" "p < 2 ^ 16" using spec_okD[OF sp] assms(5,6) by simp_all
    have "0 \<le> t + p" using assms(7) p by simp
    from train_run[OF s'(2) assms(4,9) this assms(8) p, of cac] s'(3) False assms(11,12)
    show ?thesis using a1 a2 f(1) s'(1) by (simp add: short_add_def)
  qed
qed

end
