(* ===== verification/RadarDfs.thy ===== *)
theory RadarDfs
  imports RadarDetect
begin

text \<open>
  The pattern detector of one receive chain (\<^verbatim>\<open>struct dfs_pattern_detector\<close>,
  \<^verbatim>\<open>rwnx_radar.c\<close> from \<^verbatim>\<open>pri_detector_init\<close> to \<^verbatim>\<open>dfs_pattern_detector_init\<close>): a list of detectors
  for each radar type of the regulatory domain, the newest first, one detector for each frequency.
\<close>

section \<open>State and environment\<close>

record dfs_pattern_detector =
  region :: dfs_region
  dfs_enabled :: int
  num_types :: int
  last_pulse_ts :: int
  prev_jiffies :: int
  radar_spec :: "radar_detector_specs list"
  detectors :: "pri_detector list list"

text \<open>
  What one call meets: whether \<^verbatim>\<open>kzalloc\<close> of a detector for type \<open>i\<close> succeeds and the memory of the
  detector of type \<open>i\<close>, whether the radar status is \<^verbatim>\<open>RWNX_RADAR_CAC_BUSY\<close>, the kernel's tick counter
  and its conversion to microseconds.
\<close>

record dfs_env =
  pde_mem :: "nat \<Rightarrow> bool"
  elem_mem :: "nat \<Rightarrow> radar_mem"
  cac_busy :: bool
  jiffies_now :: int
  jiffies_to_usecs :: "int \<Rightarrow> int"

datatype chain = RIU | FCU

section \<open>Detectors\<close>

definition add_pulse_op :: "radar_mem \<Rightarrow> bool \<Rightarrow> pri_detector \<Rightarrow> int \<Rightarrow> pri_sequence option \<times> pri_detector" where
  "add_pulse_op M cac pde ts =
     (if wave (rs pde) = RADAR_WAVEFORM_LONG then pde_long_add_pulse M cac pde ts
      else pde_short_add_pulse M pde ts)"

definition reset_on_pri_overflow :: "pri_detector \<Rightarrow> bool" where
  "reset_on_pri_overflow pde \<longleftrightarrow> wave (rs pde) \<noteq> RADAR_WAVEFORM_LONG"

definition pri_detector_init :: "radar_detector_specs \<Rightarrow> int \<Rightarrow> pri_detector" where
  "pri_detector_init r freq =
     (let pde = \<lparr>rs = r, pd_last_ts = 0, sequences = [], pulses = [], pd_count = 0, max_count = 0,
                 window_size = 0, pd_freq = freq\<rparr>
      in if wave r = RADAR_WAVEFORM_LONG then pde_long_init pde else pde_short_init pde)"

text \<open>
  The loop over the detectors of a type: the one to use at once, or else the last empty one of this
  very frequency.
\<close>

fun scan_detectors :: "int \<Rightarrow> nat \<Rightarrow> nat option \<Rightarrow> pri_detector list \<Rightarrow> nat option" where
  "scan_detectors freq k cur [] = cur"
| "scan_detectors freq k cur (pde # pdes) =
     (if pd_freq pde = freq
      then if pd_count pde \<noteq> 0 then Some k else scan_detectors freq (Suc k) (Some k) pdes
      else if pd_freq pde - 2 = freq \<and> pd_count pde \<noteq> 0 then Some k
      else if pd_freq pde + 2 = freq \<and> pd_count pde \<noteq> 0 then Some k
      else scan_detectors freq (Suc k) cur pdes)"

text \<open>The detectors of the type with the position of the one to use, or none when there is no memory.\<close>

definition pri_detector_get :: "bool \<Rightarrow> radar_detector_specs \<Rightarrow> int \<Rightarrow> pri_detector list \<Rightarrow>
    (pri_detector list \<times> nat) option" where
  "pri_detector_get mem r freq pdes =
     (case scan_detectors freq 0 None pdes of
        Some k \<Rightarrow> Some (pdes, k)
      | None \<Rightarrow> if mem then Some (pri_detector_init r freq # pdes, 0) else None)"

section \<open>The pattern detector\<close>

definition for_types :: "dfs_pattern_detector \<Rightarrow> (pri_detector \<Rightarrow> pri_detector) \<Rightarrow> dfs_pattern_detector" where
  "for_types dpd f = dpd\<lparr>detectors := map (map f) (take (nat (num_types dpd)) (detectors dpd)) @
     drop (nat (num_types dpd)) (detectors dpd)\<rparr>"

definition dfs_pattern_detector_reset :: "dfs_env \<Rightarrow> dfs_pattern_detector \<Rightarrow> dfs_pattern_detector" where
  "dfs_pattern_detector_reset E dpd =
     (for_types dpd (\<lambda>pde. pri_detector_reset pde (last_pulse_ts dpd)))
       \<lparr>last_pulse_ts := 0, prev_jiffies := w32 (jiffies_now E)\<rparr>"

definition dfs_pattern_detector_pri_overflow :: "dfs_pattern_detector \<Rightarrow> dfs_pattern_detector" where
  "dfs_pattern_detector_pri_overflow dpd =
     for_types dpd (\<lambda>pde. if reset_on_pri_overflow pde then pri_detector_reset pde (last_pulse_ts dpd) else pde)"

definition pulse_time :: "dfs_env \<Rightarrow> dfs_pattern_detector \<Rightarrow> int \<Rightarrow> int \<Rightarrow> dfs_pattern_detector" where
  "pulse_time E dpd pri now =
     (if pri = 0 then
        let delta_jiffie = (if now < prev_jiffies dpd then w32 (0xffffffff - prev_jiffies dpd + now)
                            else w32 (now - prev_jiffies dpd))
        in dfs_pattern_detector_pri_overflow (dpd
             \<lparr>last_pulse_ts := w64 (last_pulse_ts dpd + jiffies_to_usecs E delta_jiffie), prev_jiffies := now\<rparr>)
      else dpd\<lparr>last_pulse_ts := w64 (last_pulse_ts dpd + pri)\<rparr>)"

text \<open>
  The loop over the types from \<open>i\<close> on, \<open>m\<close> of them. No result: the pointer that \<^verbatim>\<open>pri_detector_get\<close>
  failed to allocate is followed.
\<close>

fun type_loop :: "dfs_env \<Rightarrow> int \<Rightarrow> int \<Rightarrow> nat \<Rightarrow> nat \<Rightarrow> dfs_pattern_detector \<Rightarrow>
    (bool \<times> dfs_pattern_detector) option" where
  "type_loop E freq len i 0 dpd = Some (False, dpd)"
| "type_loop E freq len i (Suc m) dpd =
     (let r = radar_spec dpd ! i in
      if width_min r > len \<or> width_max r < len then type_loop E freq len (Suc i) m dpd
      else case pri_detector_get (pde_mem E i) r freq (detectors dpd ! i) of
        None \<Rightarrow> None
      | Some (pdes, k) \<Rightarrow>
          (case add_pulse_op (elem_mem E i) (cac_busy E) (pdes ! k) (last_pulse_ts dpd) of
             (found, pde) \<Rightarrow>
               let dpd = dpd\<lparr>detectors := (detectors dpd)[i := pdes[k := pde]]\<rparr> in
               (case found of
                  Some ps \<Rightarrow> Some (True, dfs_pattern_detector_reset E dpd)
                | None \<Rightarrow> type_loop E freq len (Suc i) m dpd)))"

definition dfs_pattern_detector_add_pulse :: "dfs_env \<Rightarrow> dfs_pattern_detector \<Rightarrow> int \<Rightarrow> int \<Rightarrow> int \<Rightarrow> int \<Rightarrow>
    (bool \<times> dfs_pattern_detector) option" where
  "dfs_pattern_detector_add_pulse E dpd freq pri len now =
     (if region dpd = DFS_UNSET then Some (True, dpd)
      else type_loop E freq len 0 (nat (num_types dpd)) (pulse_time E dpd pri now))"

definition get_dfs_domain_radar_types :: "dfs_region \<Rightarrow> radar_types option" where
  "get_dfs_domain_radar_types rg = find (\<lambda>t. rt_region t = rg) dfs_domains"

definition get_dfs_max_radar_types :: int where
  "get_dfs_max_radar_types = fold (\<lambda>t m. if num_radar_types t > m then num_radar_types t else m) dfs_domains 0"

definition dfs_pattern_detector_set_domain :: "dfs_pattern_detector \<Rightarrow> dfs_region \<Rightarrow> chain \<Rightarrow>
    bool \<times> dfs_pattern_detector" where
  "dfs_pattern_detector_set_domain dpd rg ch =
     (if region dpd = rg then (True, dpd)
      else let dpd = dpd\<lparr>region := DFS_UNSET\<rparr> in
        case get_dfs_domain_radar_types rg of
          None \<Rightarrow> (False, dpd)
        | Some rt \<Rightarrow>
            (True, dpd\<lparr>detectors := map (\<lambda>_. []) (take (nat (num_types dpd)) (detectors dpd)) @
                          drop (nat (num_types dpd)) (detectors dpd),
                        radar_spec := (if ch = RIU then spec_riu rt else spec_fcu rt),
                        num_types := w8 (num_radar_types rt), region := rg\<rparr>))"

definition dfs_pattern_detector_init :: "dfs_env \<Rightarrow> bool \<Rightarrow> dfs_region \<Rightarrow> chain \<Rightarrow>
    dfs_pattern_detector option" where
  "dfs_pattern_detector_init E mem rg ch =
     (if \<not> mem then None
      else let dpd = \<lparr>region = DFS_UNSET, dfs_enabled = 0, num_types = 0, last_pulse_ts = 0,
                      prev_jiffies = w32 (jiffies_now E), radar_spec = [],
                      detectors = replicate (nat get_dfs_max_radar_types) []\<rparr>
           in (case dfs_pattern_detector_set_domain dpd rg ch of
                 (True, dpd) \<Rightarrow> Some dpd | (False, dpd) \<Rightarrow> None))"

end
