(* ===== verification/RadarProps.thy ===== *)
theory RadarProps
  imports RadarTrain RadarDfs
begin

text \<open>
  The properties of the radar detection: multiples of an interval, what it takes to report a radar
  and what is reported for certain, the state of the pattern detector over any history.
\<close>

section \<open>Intervals\<close>

lemma div_distance:
  fixes v f :: int
  assumes "0 < f"
  shows "k \<le> v div f \<Longrightarrow> v mod f \<le> v - k * f" "v div f + 1 \<le> k \<Longrightarrow> f - v mod f \<le> k * f - v"
proof -
  have e: "v = (v div f) * f + v mod f" by simp
  show "v mod f \<le> v - k * f" if "k \<le> v div f"
  proof -
    have "k * f \<le> (v div f) * f" using that assms by (intro mult_right_mono) simp_all
    with e show ?thesis by linarith
  qed
  show "f - v mod f \<le> k * f - v" if "v div f + 1 \<le> k"
  proof -
    have "(v div f + 1) * f \<le> k * f" using that assms by (intro mult_right_mono) simp_all
    then have "(v div f) * f + f \<le> k * f" by (simp only: distrib_right mult_1)
    with e show ?thesis by linarith
  qed
qed

text \<open>
  \<^verbatim>\<open>pde_get_multiple\<close> returns, for every value and interval, a factor of at least one whose
  multiple of the interval lies within the tolerance of the value, and zero exactly when there is
  none; no intermediate value overflows.
\<close>

theorem get_multiple_correct:
  assumes "0 \<le> v" "v < 2 ^ 32" "0 < f" "f < 2 ^ 32" "0 \<le> tol"
  shows "(pde_get_multiple v f tol = 0 \<longleftrightarrow> (\<forall>k \<ge> 1. \<bar>v - k * f\<bar> > tol)) \<and>
    (0 < pde_get_multiple v f tol \<longrightarrow> \<bar>v - pde_get_multiple v f tol * f\<bar> \<le> tol) \<and>
    0 \<le> pde_get_multiple v f tol"
proof -
  let ?q = "v div f" and ?r = "v mod f" and ?d = "if v < f then f - v else v - f"
  have v: "v = ?q * f + ?r" "0 \<le> ?r" "?r < f" "0 \<le> ?q" using assms by (simp_all add: pos_imp_zdiv_nonneg_iff)
  have d: "?d = \<bar>v - 1 * f\<bar>" by simp
  note dist = div_distance[OF assms(3), where v = v]
  consider "?d \<le> tol" | "\<not> ?d \<le> tol" "?r > tol" "f - ?r \<le> tol" | "\<not> ?d \<le> tol" "?r > tol" "\<not> f - ?r \<le> tol"
    | "\<not> ?d \<le> tol" "\<not> ?r > tol" by blast
  then show ?thesis
  proof cases
    case 1
    then have "pde_get_multiple v f tol = 1" using assms(3) by (simp add: pde_get_multiple_def Let_def)
    then show ?thesis using 1 d by auto
  next
    case 2
    have "?q * 2 \<le> ?q * f" using 2 v assms(5) by (intro mult_left_mono) linarith+
    then have "?q * 2 \<le> v" using v(1,2) by linarith
    then have "?q + 1 < 2 ^ 32" using assms(2) by simp
    then have w: "w32 (?q + 1) = ?q + 1" using v(4) by (intro w_id) simp_all
    then have p: "pde_get_multiple v f tol = ?q + 1"
      using 2 assms(3) unfolding pde_get_multiple_def Let_def by simp
    have "(?q + 1) * f - v = f - ?r" using v(1) unfolding distrib_right by linarith
    then have "\<bar>v - (?q + 1) * f\<bar> \<le> tol" using 2(3) v(3) by linarith
    then show ?thesis unfolding p using v(4) by (auto intro!: exI[of _ "?q + 1"] simp: not_less)
  next
    case 3
    then have p: "pde_get_multiple v f tol = 0" using assms(3) unfolding pde_get_multiple_def Let_def by simp
    have "\<bar>v - k * f\<bar> > tol" for k using dist[of k] 3 by (cases "k \<le> ?q") linarith+
    then show ?thesis unfolding p by simp
  next
    case 4
    then have p: "pde_get_multiple v f tol = ?q" using assms(3) unfolding pde_get_multiple_def Let_def by simp
    show ?thesis
    proof (cases "?q = 0")
      case True
      then have "v = ?r" using v(1) by simp
      then have f: "f - v > tol" using 4 v(3) by (auto split: if_splits)
      have "\<bar>v - k * f\<bar> > tol" if "k \<ge> 1" for k
        using dist(2)[of k] that f True \<open>v = ?r\<close> by simp
      then show ?thesis unfolding p using True by simp
    next
      case False
      have "\<bar>v - ?q * f\<bar> \<le> tol" using v(1,2) 4(2) by linarith
      then show ?thesis unfolding p using False v(4) by (auto intro!: exI[of _ ?q] simp: not_less)
    qed
  qed
qed

lemma get_multiple_correct_witness:
  "pde_get_multiple 2990 1000 16 = 3 \<and> \<bar>2990 - 3 * 1000\<bar> \<le> (16 :: int) \<and> pde_get_multiple 1500 1000 16 = 0"
proof -
  have e: "pde_get_multiple 2990 1000 16 = 3" "pde_get_multiple 1500 1000 16 = 0" by code_simp+
  have "0 < pde_get_multiple 2990 1000 16 \<longrightarrow> \<bar>2990 - pde_get_multiple 2990 1000 16 * 1000\<bar> \<le> (16 :: int)"
    using get_multiple_correct[of 2990 1000 16] by simp
  then show ?thesis using e by simp
qed

section \<open>One detector\<close>

lemma feed_op_short:
  "good_short pde \<Longrightarrow> wave (rs pde) \<noteq> RADAR_WAVEFORM_LONG \<Longrightarrow>
   feed (add_pulse_op M cac) pde ts = feed (short_add M cac) pde ts"
proof (induction ts arbitrary: pde)
  case (Cons t ts)
  obtain r q where a: "pde_short_add_pulse M pde t = (r, q)" by fastforce
  have "good_short q" "rs q = rs pde" using short_add_facts[OF Cons.prems(1) a, of 0] by simp_all
  then show ?case using Cons a by (simp add: add_pulse_op_def short_add_def split: option.split)
qed simp

lemma feed_op_long:
  "good_long pde \<Longrightarrow> wave (rs pde) = RADAR_WAVEFORM_LONG \<Longrightarrow>
   feed (add_pulse_op M cac) pde ts = feed (pde_long_add_pulse M cac) pde ts"
proof (induction ts arbitrary: pde)
  case (Cons t ts)
  obtain r q where a: "pde_long_add_pulse M cac pde t = (r, q)" by fastforce
  have "good_long q" "rs q = rs pde" using long_add_facts[OF Cons.prems(1) a, of 0] by simp_all
  then show ?case using Cons a by (simp add: add_pulse_op_def split: option.split)
qed simp

definition blank :: "radar_detector_specs \<Rightarrow> int \<Rightarrow> pri_detector" where
  "blank r freq = \<lparr>rs = r, pd_last_ts = 0, sequences = [], pulses = [], pd_count = 0, max_count = 0,
     window_size = 0, pd_freq = freq\<rparr>"

lemma blank_simps [simp]: "empty_detector (blank r freq)" "rs (blank r freq) = r" "pd_freq (blank r freq) = freq"
  by (simp_all add: blank_def empty_detector_def)

lemma pri_detector_init_blank:
  "pri_detector_init r freq = (if wave r = RADAR_WAVEFORM_LONG then pde_long_init (blank r freq)
     else pde_short_init (blank r freq))"
  by (simp add: pri_detector_init_def blank_def)

lemma init_facts:
  assumes "spec_ok r"
  shows "empty_detector (pri_detector_init r freq) \<and> rs (pri_detector_init r freq) = r \<and>
    pd_freq (pri_detector_init r freq) = freq \<and>
    (if wave r = RADAR_WAVEFORM_LONG then good_long (pri_detector_init r freq)
     else good_short (pri_detector_init r freq) \<and> 0 < window_size (pri_detector_init r freq))"
  using assms short.init_good[of "blank r freq"] long.init_good[of "blank r freq"] short_window[of r]
    short.init_keeps(3)[of "blank r freq"] long.init_keeps(3)[of "blank r freq"]
  by (simp add: pri_detector_init_blank short.init_keeps(1,2) long.init_keeps(1,2))
    (simp add: pde_short_init_def)

text \<open>
  C14: For every row of the tables that is not a long waveform, a train of pulses is reported with
  exactly the pulse that reaches the threshold of the row: the second pulse follows the first one
  after an interval within the row's limits, every other one follows its predecessor after this
  interval give or take the tolerance, at least 16 us apart and within the length of a burst, and
  memory is at hand. The report names the interval and the number of pulses.
\<close>

theorem radar_train_detected:
  assumes "r \<in> set all_specs" and "wave r \<noteq> RADAR_WAVEFORM_LONG" and "mem_ok M"
    and "pri_min r \<le> p" "p \<le> pri_max r" and "0 \<le> t" "t + p * (ppb r - 1) + 32 < 2 ^ 64"
    and "train p (t + p * (ppb r - 1) + 32) (t + p) xs" and "2 + int (length xs) = seq_thresh r p"
  shows "\<exists>ps pde'. feed (add_pulse_op M cac) (pri_detector_init r freq) (t # (t + p) # xs) = (Some ps, pde') \<and>
    sq_pri ps = p \<and> sq_count ps = seq_thresh r p"
proof -
  have sp: "spec_ok r" using assms(1) all_specs_ok by (simp add: list_all_iff)
  let ?d = "pri_detector_init r freq"
  have d: "good_short ?d" "empty_detector ?d" "0 < window_size ?d" "rs ?d = r"
    using init_facts[OF sp, of freq] assms(2) by simp_all
  note th = thresh_range[OF assms(1,4,5,2)]
  have "\<exists>ps pde'. feed (short_add M cac) ?d (t # (t + p) # xs) = (Some ps, pde') \<and> sq_pri ps = p \<and>
      sq_count ps = seq_thresh (rs ?d) p"
    by (rule fresh_train) (use d assms th in simp_all)
  then show ?thesis using feed_op_short[OF d(1)] d(4) assms(2) by (simp del: feed.simps)
qed

definition demo_mem :: radar_mem where
  "demo_mem = \<lparr>pulse_mem = True, pseq_mem = (\<lambda>_. True), pseq_junk = \<lparr>sq_pri = 0, sq_dur = 0, sq_count = 0,
     sq_falses = 0, first_ts = 0, last_ts = 0, deadline_ts = 0, sq_thresh = 0\<rparr>\<rparr>"

text \<open>The last row of the first chain for FCC: nine pulses, 333 us apart; five are enough.\<close>

definition demo_row :: radar_detector_specs where
  "demo_row = fcc_radar_ref_types_riu ! 6"

lemma radar_train_detected_witness:
  "\<exists>ps pde'. feed (add_pulse_op demo_mem False) (pri_detector_init demo_row 5500) [1000, 1333, 1660, 2000, 2333]
     = (Some ps, pde') \<and> sq_pri ps = 333 \<and> sq_count ps = 5"
proof -
  have th: "seq_thresh demo_row 333 = 5" "ppb demo_row = 9" "demo_row \<in> set all_specs"
    "wave demo_row \<noteq> RADAR_WAVEFORM_LONG" "pri_min demo_row \<le> 333" "333 \<le> pri_max demo_row" by code_simp+
  have "mem_ok demo_mem" by (simp add: mem_ok_def demo_mem_def)
  from radar_train_detected[OF th(3,4) this th(5,6), of 1000 "[1660, 2000, 2333]" False 5500] th(1,2)
  show ?thesis by simp
qed

text \<open>
  No report without enough pulses. From a detector just set up for a row of the tables,
  whatever pulses come in and whether memory is at hand or not, a report needs at least as many
  pulses as the threshold of the row asks for (the one that goes with the interval for weather
  radars; for long waveforms more bursts than the threshold), and the interval of the report is
  within the limits of the row.
\<close>

theorem radar_needs_pulses:
  assumes "r \<in> set all_specs" and "int (length ts) < 2 ^ 32"
    and "feed (add_pulse_op M cac) (pri_detector_init r freq) ts = (Some ps, pde')"
  shows "if wave r = RADAR_WAVEFORM_LONG then ppb_thresh r < int (length ts)
    else seq_thresh r (sq_pri ps) \<le> int (length ts) \<and> pri_min r \<le> sq_pri ps \<and> sq_pri ps \<le> pri_max r"
proof -
  have sp: "spec_ok r" using assms(1) all_specs_ok by (simp add: list_all_iff)
  note i = init_facts[OF sp, of freq]
  show ?thesis
  proof (cases "wave r = RADAR_WAVEFORM_LONG")
    case True
    then have "feed (pde_long_add_pulse M cac) (pde_long_init (blank r freq)) ts = (Some ps, pde')"
      using assms(3) feed_op_long[of "pri_detector_init r freq" M cac ts] i
      by (simp add: pri_detector_init_blank)
    from long.fresh_feed[OF _ _ assms(2) this] sp True show ?thesis by (simp add: enough_long_def)
  next
    case False
    then have "feed (short_add M cac) (pde_short_init (blank r freq)) ts = (Some ps, pde')"
      using assms(3) feed_op_short[of "pri_detector_init r freq" M cac ts] i
      by (simp add: pri_detector_init_blank)
    from short.fresh_feed[OF _ _ assms(2) this] sp False show ?thesis by (simp add: enough_short_def)
  qed
qed

lemma radar_needs_pulses_witness:
  "\<exists>ps pde'. feed (add_pulse_op demo_mem False) (pri_detector_init demo_row 5500) [1000, 1333, 1666, 1999, 2332]
     = (Some ps, pde') \<and> seq_thresh demo_row (sq_pri ps) \<le> 5"
proof -
  let ?f = "feed (add_pulse_op demo_mem False) (pri_detector_init demo_row 5500) [1000, 1333, 1666, 1999, 2332]"
  have "fst ?f \<noteq> None" and w: "wave demo_row \<noteq> RADAR_WAVEFORM_LONG" "demo_row \<in> set all_specs" by code_simp+
  then obtain ps pde' where f: "?f = (Some ps, pde')" by (cases ?f) auto
  have l: "int (length [1000, 1333, 1666, 1999, 2332 :: int]) < 2 ^ 32" by simp
  from radar_needs_pulses[OF w(2) l f] w(1) f show ?thesis by simp
qed

end
