(* ===== verification/RadarState.thy ===== *)
theory RadarState
  imports RadarProps
begin

text \<open>
  The pattern detector over any history of calls: its state stays well formed, it reports no radar
  before enough pulses came in, and it treats every pulse as a radar while it has no domain.
\<close>

section \<open>One detector of a row\<close>

definition det_good :: "pri_detector \<Rightarrow> bool" where
  "det_good pde \<longleftrightarrow> (if wave (rs pde) = RADAR_WAVEFORM_LONG then good_long pde else good_short pde)"

definition det_seen :: "pri_detector \<Rightarrow> int \<Rightarrow> bool" where
  "det_seen pde n \<longleftrightarrow> (if wave (rs pde) = RADAR_WAVEFORM_LONG then seen_long pde n else seen_short pde n)"

definition det_enough :: "radar_detector_specs \<Rightarrow> int \<Rightarrow> bool" where
  "det_enough r n \<longleftrightarrow> (if wave r = RADAR_WAVEFORM_LONG then ppb_thresh r < n
     else \<exists>p. pri_min r \<le> p \<and> p \<le> pri_max r \<and> seq_thresh r p \<le> n)"

lemma det_seen_mono: "det_seen pde n \<Longrightarrow> n \<le> m \<Longrightarrow> det_seen pde m"
  by (fastforce simp: det_seen_def seen_short_def seen_long_def split: list.splits if_splits)

lemma det_op_facts:
  assumes "det_good pde" and a: "add_pulse_op M cac pde ts = (res, q)"
  shows "det_good q \<and> rs q = rs pde \<and> pd_freq q = pd_freq pde \<and>
    (det_seen pde n \<and> n + 1 < 2 ^ 32 \<longrightarrow> det_seen q (n + 1) \<and> (res \<noteq> None \<longrightarrow> det_enough (rs pde) (n + 1)))"
proof (cases "wave (rs pde) = RADAR_WAVEFORM_LONG")
  case True
  then have g: "good_long pde" and a': "pde_long_add_pulse M cac pde ts = (res, q)"
    using assms by (simp_all add: det_good_def add_pulse_op_def)
  from long_add_facts[OF g a', of n] True show ?thesis
    by (auto simp: det_good_def det_seen_def det_enough_def)
next
  case False
  then have g: "good_short pde" and a': "pde_short_add_pulse M pde ts = (res, q)"
    using assms by (simp_all add: det_good_def add_pulse_op_def)
  have s: "short_add M cac pde ts = (res, q)" using a' by (simp add: short_add_def)
  have "res \<noteq> None \<longrightarrow> det_enough (rs pde) (n + 1)" if "seen_short pde n" "n + 1 < 2 ^ 32"
    using short.add_enough[OF g that, of M cac ts] s False by (auto simp: enough_short_def det_enough_def)
  with short_add_facts[OF g a', of n] False show ?thesis by (auto simp: det_good_def det_seen_def)
qed

lemma det_reset_facts:
  "det_good pde \<Longrightarrow> det_good (pri_detector_reset pde ts) \<and> rs (pri_detector_reset pde ts) = rs pde \<and>
    pd_freq (pri_detector_reset pde ts) = pd_freq pde \<and> (0 \<le> n \<longrightarrow> det_seen (pri_detector_reset pde ts) n)"
  using short.reset_good[of pde ts] long.reset_good[of pde ts]
  by (simp add: det_good_def det_seen_def seen_short_def seen_long_def pri_detector_reset_simps)

lemma det_init_facts:
  assumes "r \<in> set all_specs"
  shows "det_good (pri_detector_init r freq) \<and> rs (pri_detector_init r freq) = r \<and>
    pd_freq (pri_detector_init r freq) = freq \<and> det_seen (pri_detector_init r freq) 0"
proof -
  have sp: "spec_ok r" using assms all_specs_ok by (simp add: list_all_iff)
  show ?thesis using init_facts[OF sp, of freq]
    by (simp add: det_good_def det_seen_def empty_detector_def seen_short_def seen_long_def)
qed

section \<open>The detectors of a row\<close>

definition row_ok :: "radar_detector_specs \<Rightarrow> pri_detector list \<Rightarrow> bool" where
  "row_ok r pdes \<longleftrightarrow> distinct (map pd_freq pdes) \<and> (\<forall>pde \<in> set pdes. rs pde = r \<and> det_good pde)"

lemma scan_None: "scan_detectors freq k cur pdes = None \<Longrightarrow> cur = None \<and> freq \<notin> pd_freq ` set pdes"
proof (induction freq k cur pdes rule: scan_detectors.induct)
  case (2 freq k cur pde pdes)
  then show ?case by (auto split: if_splits)
qed simp

lemma scan_Some: "scan_detectors freq k cur pdes = Some j \<Longrightarrow> cur = Some j \<or> (k \<le> j \<and> j < k + length pdes)"
proof (induction freq k cur pdes rule: scan_detectors.induct)
  case (2 freq k cur pde pdes)
  then show ?case by (fastforce split: if_splits)
qed simp

lemma get_facts:
  assumes "pri_detector_get mem r freq pdes = Some (pdes', k)" and "row_ok r pdes" and "r \<in> set all_specs"
  shows "row_ok r pdes' \<and> k < length pdes' \<and> ((\<forall>pde \<in> set pdes. det_seen pde n) \<and> 0 \<le> n \<longrightarrow> (\<forall>pde \<in> set pdes'. det_seen pde n))"
proof (cases "scan_detectors freq 0 None pdes")
  case None
  then have p: "pdes' = pri_detector_init r freq # pdes" "k = 0"
    using assms(1) by (auto simp: pri_detector_get_def split: if_splits)
  show ?thesis using assms(2) scan_None[OF None] det_init_facts[OF assms(3), of freq] det_seen_mono[of _ 0 n]
    by (auto simp: p row_ok_def)
next
  case (Some j)
  then show ?thesis using assms(1,2) scan_Some[OF Some] by (auto simp: pri_detector_get_def)
qed

lemma row_update:
  assumes "row_ok r pdes" and "k < length pdes" and "rs q = r" "det_good q" "pd_freq q = pd_freq (pdes ! k)"
  shows "row_ok r (pdes[k := q])"
proof -
  have "map pd_freq (pdes[k := q]) = map pd_freq pdes"
    using assms(2,5) by (metis map_update list_update_id nth_map)
  moreover have "\<forall>pde \<in> set (pdes[k := q]). rs pde = r \<and> det_good pde"
    using assms by (auto simp: row_ok_def dest: set_update_subset_insert[THEN subsetD])
  ultimately show ?thesis using assms(1) by (simp add: row_ok_def)
qed

section \<open>The state of the pattern detector\<close>

definition dfs_ok :: "dfs_pattern_detector \<Rightarrow> bool" where
  "dfs_ok dpd \<longleftrightarrow> num_types dpd = int (length (radar_spec dpd)) \<and> length (radar_spec dpd) \<le> length (detectors dpd) \<and>
     length (detectors dpd) = nat get_dfs_max_radar_types \<and> set (radar_spec dpd) \<subseteq> set all_specs \<and>
     (\<forall>i < length (radar_spec dpd). row_ok (radar_spec dpd ! i) (detectors dpd ! i)) \<and>
     (\<forall>i < length (detectors dpd). length (radar_spec dpd) \<le> i \<longrightarrow> detectors dpd ! i = []) \<and>
     (region dpd \<noteq> DFS_UNSET \<longrightarrow> (\<exists>rt \<in> set dfs_domains. rt_region rt = region dpd \<and>
        (radar_spec dpd = spec_riu rt \<or> radar_spec dpd = spec_fcu rt)))"

text \<open>The rows below \<open>i\<close> have seen at most \<open>n + 1\<close> pulses, the others at most \<open>n\<close>.\<close>

definition dfs_seen :: "dfs_pattern_detector \<Rightarrow> nat \<Rightarrow> int \<Rightarrow> bool" where
  "dfs_seen dpd i n \<longleftrightarrow> (\<forall>j < length (radar_spec dpd). \<forall>pde \<in> set (detectors dpd ! j).
     det_seen pde (if j < i then n + 1 else n))"

lemma for_types_nth:
  assumes "j < length (detectors dpd)"
  shows "detectors (for_types dpd f) ! j = (if j < nat (num_types dpd) then map f (detectors dpd ! j) else detectors dpd ! j)"
  using assms by (auto simp: for_types_def nth_append min_def)

lemma for_types_simps [simp]:
  "region (for_types dpd f) = region dpd" "num_types (for_types dpd f) = num_types dpd"
  "radar_spec (for_types dpd f) = radar_spec dpd" "length (detectors (for_types dpd f)) = length (detectors dpd)"
  "last_pulse_ts (for_types dpd f) = last_pulse_ts dpd" "dfs_enabled (for_types dpd f) = dfs_enabled dpd"
  by (auto simp: for_types_def)

lemma for_types_ok:
  assumes ok: "dfs_ok dpd" and f: "\<forall>pde. det_good pde \<longrightarrow> det_good (f pde) \<and> rs (f pde) = rs pde \<and> pd_freq (f pde) = pd_freq pde"
  shows "dfs_ok (for_types dpd f)"
proof -
  have "row_ok r (map f pdes)" if "row_ok r pdes" for r pdes
  proof -
    have "map pd_freq (map f pdes) = map pd_freq pdes" using that f by (simp add: row_ok_def)
    then show ?thesis using that f by (simp add: row_ok_def del: map_map)
  qed
  then show ?thesis using ok by (auto simp: dfs_ok_def for_types_nth)
qed

lemma for_types_seen:
  assumes "dfs_ok dpd" and f: "\<forall>j < length (radar_spec dpd). \<forall>pde \<in> set (detectors dpd ! j). det_seen (f pde) n"
  shows "dfs_seen (for_types dpd f) 0 n"
  using assms by (auto simp: dfs_seen_def dfs_ok_def for_types_nth)

lemma dfs_fields [simp]:
  "dfs_ok (dpd\<lparr>last_pulse_ts := x\<rparr>) = dfs_ok dpd" "dfs_ok (dpd\<lparr>prev_jiffies := y\<rparr>) = dfs_ok dpd"
  "dfs_ok (dpd\<lparr>dfs_enabled := z\<rparr>) = dfs_ok dpd"
  "dfs_seen (dpd\<lparr>last_pulse_ts := x\<rparr>) i n = dfs_seen dpd i n" "dfs_seen (dpd\<lparr>prev_jiffies := y\<rparr>) i n = dfs_seen dpd i n"
  "dfs_seen (dpd\<lparr>dfs_enabled := z\<rparr>) i n = dfs_seen dpd i n"
  by (simp_all add: dfs_ok_def dfs_seen_def)

lemma reset_facts:
  assumes "dfs_ok dpd"
  shows "dfs_ok (dfs_pattern_detector_reset E dpd) \<and> dfs_seen (dfs_pattern_detector_reset E dpd) 0 0 \<and>
    region (dfs_pattern_detector_reset E dpd) = region dpd \<and> radar_spec (dfs_pattern_detector_reset E dpd) = radar_spec dpd"
proof -
  let ?f = "\<lambda>pde. pri_detector_reset pde (last_pulse_ts dpd)"
  have "dfs_ok (for_types dpd ?f)" by (rule for_types_ok[OF assms]) (simp add: det_reset_facts)
  moreover have "dfs_seen (for_types dpd ?f) 0 0"
    by (rule for_types_seen[OF assms]) (use assms in \<open>auto simp: dfs_ok_def row_ok_def det_reset_facts\<close>)
  ultimately show ?thesis by (simp add: dfs_pattern_detector_reset_def)
qed

lemma pulse_time_facts:
  assumes "dfs_ok dpd"
  shows "dfs_ok (pulse_time E dpd pri now) \<and> radar_spec (pulse_time E dpd pri now) = radar_spec dpd \<and>
    region (pulse_time E dpd pri now) = region dpd \<and> num_types (pulse_time E dpd pri now) = num_types dpd \<and>
    (dfs_seen dpd 0 n \<and> 0 \<le> n \<longrightarrow> dfs_seen (pulse_time E dpd pri now) 0 n)"
proof -
  have o: "dfs_ok (dfs_pattern_detector_pri_overflow d) \<and> radar_spec (dfs_pattern_detector_pri_overflow d) = radar_spec d \<and>
      region (dfs_pattern_detector_pri_overflow d) = region d \<and> num_types (dfs_pattern_detector_pri_overflow d) = num_types d \<and>
      (dfs_seen d 0 n \<and> 0 \<le> n \<longrightarrow> dfs_seen (dfs_pattern_detector_pri_overflow d) 0 n)" if "dfs_ok d" for d
  proof -
    let ?f = "\<lambda>pde. if reset_on_pri_overflow pde then pri_detector_reset pde (last_pulse_ts d) else pde"
    have ok: "dfs_ok (for_types d ?f)" by (rule for_types_ok[OF that]) (simp add: det_reset_facts)
    have seen: "dfs_seen (for_types d ?f) 0 n" if s: "dfs_seen d 0 n" "0 \<le> n"
      by (rule for_types_seen[OF \<open>dfs_ok d\<close>])
        (use s \<open>dfs_ok d\<close> in \<open>auto simp: dfs_ok_def row_ok_def dfs_seen_def det_reset_facts\<close>)
    show ?thesis using ok seen by (simp add: dfs_pattern_detector_pri_overflow_def)
  qed
  show ?thesis using o[of "dpd\<lparr>last_pulse_ts := x, prev_jiffies := now\<rparr>" for x] assms
    by (simp add: pulse_time_def Let_def)
qed

text \<open>One row takes its pulse.\<close>

lemma row_step:
  assumes ok: "dfs_ok dpd" and i: "i < length (radar_spec dpd)"
    and g: "pri_detector_get mem (radar_spec dpd ! i) freq (detectors dpd ! i) = Some (pdes, k)"
    and a: "add_pulse_op M cac (pdes ! k) ts = (found, pde)"
  defines "dpd' \<equiv> dpd\<lparr>detectors := (detectors dpd)[i := pdes[k := pde]]\<rparr>"
  shows "dfs_ok dpd'" "dfs_seen dpd i n \<Longrightarrow> 0 \<le> n \<Longrightarrow> n + 1 < 2 ^ 32 \<Longrightarrow> dfs_seen dpd' (Suc i) n"
    "dfs_seen dpd i n \<Longrightarrow> 0 \<le> n \<Longrightarrow> n + 1 < 2 ^ 32 \<Longrightarrow> found \<noteq> None \<Longrightarrow> det_enough (radar_spec dpd ! i) (n + 1)"
proof -
  let ?r = "radar_spec dpd ! i"
  have il: "i < length (detectors dpd)" using ok i by (simp add: dfs_ok_def)
  have row: "row_ok ?r (detectors dpd ! i)" using ok i by (simp add: dfs_ok_def)
  have "set (radar_spec dpd) \<subseteq> set all_specs" using ok by (simp only: dfs_ok_def)
  then have rr: "?r \<in> set all_specs" using nth_mem[OF i] by (rule subsetD)
  have p: "row_ok ?r pdes" "k < length pdes"
    "(\<forall>pde \<in> set (detectors dpd ! i). det_seen pde n) \<and> 0 \<le> n \<longrightarrow> (\<forall>pde \<in> set pdes. det_seen pde n)" for n
    using get_facts[OF g row rr, of n] by blast+
  have pk: "rs (pdes ! k) = ?r" "det_good (pdes ! k)" using p(1,2) by (simp_all add: row_ok_def)
  have q: "det_good pde" "rs pde = ?r" "pd_freq pde = pd_freq (pdes ! k)"
    "det_seen (pdes ! k) n \<and> n + 1 < 2 ^ 32 \<longrightarrow> det_seen pde (n + 1) \<and> (found \<noteq> None \<longrightarrow> det_enough ?r (n + 1))" for n
    using det_op_facts[OF pk(2) a, of n] pk(1) by simp_all
  have up: "row_ok ?r (pdes[k := pde])" by (rule row_update[OF p(1,2) q(2,1,3)])
  show "dfs_ok dpd'" using ok up i il by (auto simp: dfs_ok_def dpd'_def nth_list_update)
  assume s: "dfs_seen dpd i n" "0 \<le> n" "n + 1 < 2 ^ 32"
  have old: "\<forall>pde \<in> set pdes. det_seen pde n" 
    using spec[OF s(1)[unfolded dfs_seen_def], of i] s(2) i p(3)[of n] by simp
  then have new: "det_seen pde (n + 1)" "found \<noteq> None \<longrightarrow> det_enough ?r (n + 1)"
    using q(4)[of n] p(2) s(3) by simp_all
  have "\<forall>x \<in> set (pdes[k := pde]). det_seen x (n + 1)"
    using old new(1) det_seen_mono[of _ n "n + 1"] set_update_subset_insert[of pdes k pde] by auto
  then show "dfs_seen dpd' (Suc i) n"
    using s(1) il by (auto simp: dfs_seen_def dpd'_def nth_list_update less_Suc_eq)
  show "det_enough ?r (n + 1)" if "found \<noteq> None" using new(2) that by blast
qed

lemma dfs_seen_Suc: "dfs_seen dpd i n \<Longrightarrow> dfs_seen dpd (Suc i) n"
  using det_seen_mono[of _ n "n + 1"] by (auto simp: dfs_seen_def less_Suc_eq split: if_splits)

lemma type_loop_facts:
  "type_loop E freq len i m dpd = Some (b, dpd') \<Longrightarrow> dfs_ok dpd \<Longrightarrow> i + m = length (radar_spec dpd) \<Longrightarrow>
   dfs_ok dpd' \<and> radar_spec dpd' = radar_spec dpd \<and> region dpd' = region dpd \<and>
   (dfs_seen dpd i n \<and> 0 \<le> n \<and> n + 1 < 2 ^ 32 \<longrightarrow>
    (if b then dfs_seen dpd' 0 0 \<and> (\<exists>r \<in> set (radar_spec dpd). width_min r \<le> len \<and> len \<le> width_max r \<and> det_enough r (n + 1))
     else dfs_seen dpd' 0 (n + 1)))"
proof (induction m arbitrary: i dpd)
  case 0
  have "dfs_seen dpd i n \<Longrightarrow> dfs_seen dpd 0 (n + 1)" using 0 by (simp add: dfs_seen_def)
  then show ?case using 0 by simp
next
  case (Suc m)
  let ?r = "radar_spec dpd ! i"
  have i: "i < length (radar_spec dpd)" using Suc.prems(3) by simp
  show ?case
  proof (cases "width_min ?r > len \<or> width_max ?r < len")
    case True
    then have t: "type_loop E freq len (Suc i) m dpd = Some (b, dpd')" using Suc.prems(1) by (simp add: Let_def)
    from Suc.IH[OF t Suc.prems(2)] Suc.prems(3) dfs_seen_Suc show ?thesis by simp
  next
    case False
    then obtain pdes k where g: "pri_detector_get (pde_mem E i) ?r freq (detectors dpd ! i) = Some (pdes, k)"
      using Suc.prems(1) by (auto simp: Let_def split: option.splits)
    obtain found pde where a: "add_pulse_op (elem_mem E i) (cac_busy E) (pdes ! k) (last_pulse_ts dpd) = (found, pde)"
      by fastforce
    let ?d = "dpd\<lparr>detectors := (detectors dpd)[i := pdes[k := pde]]\<rparr>"
    note st = row_step[OF Suc.prems(2) i g a]
    show ?thesis
    proof (cases found)
      case None
      then have t: "type_loop E freq len (Suc i) m ?d = Some (b, dpd')"
        using Suc.prems(1) False g a by (simp add: Let_def)
      have "Suc i + m = length (radar_spec ?d)" using Suc.prems(3) by simp
      from Suc.IH[OF t st(1) this] st(2)[of n] show ?thesis by (cases b) simp_all
    next
      case (Some ps)
      then have t: "b" "dpd' = dfs_pattern_detector_reset E ?d"
        using Suc.prems(1) False g a by (simp_all add: Let_def)
      have "dfs_seen dpd i n \<Longrightarrow> 0 \<le> n \<Longrightarrow> n + 1 < 2 ^ 32 \<Longrightarrow>
          \<exists>r \<in> set (radar_spec dpd). width_min r \<le> len \<and> len \<le> width_max r \<and> det_enough r (n + 1)"
        using st(3)[of n] Some False i by (intro bexI[of _ ?r]) simp_all
      then show ?thesis using reset_facts[OF st(1), of E] t by simp
    qed
  qed
qed

lemma add_pulse_facts:
  assumes "dfs_pattern_detector_add_pulse E dpd freq pri len now = Some (b, dpd')" and ok: "dfs_ok dpd"
  shows "dfs_ok dpd' \<and> radar_spec dpd' = radar_spec dpd \<and> region dpd' = region dpd \<and>
    (region dpd \<noteq> DFS_UNSET \<and> dfs_seen dpd 0 n \<and> 0 \<le> n \<and> n + 1 < 2 ^ 32 \<longrightarrow>
     (if b then dfs_seen dpd' 0 0 \<and> (\<exists>r \<in> set (radar_spec dpd). width_min r \<le> len \<and> len \<le> width_max r \<and> det_enough r (n + 1))
      else dfs_seen dpd' 0 (n + 1)))"
proof (cases "region dpd = DFS_UNSET")
  case True
  then show ?thesis using assms by (simp add: dfs_pattern_detector_add_pulse_def)
next
  case False
  let ?d = "pulse_time E dpd pri now"
  note p = pulse_time_facts[OF ok, of E pri now]
  have t: "type_loop E freq len 0 (nat (num_types dpd)) ?d = Some (b, dpd')"
    using assms(1) False by (simp add: dfs_pattern_detector_add_pulse_def)
  have "0 + nat (num_types dpd) = length (radar_spec ?d)" using ok p by (simp add: dfs_ok_def)
  from type_loop_facts[OF t conjunct1[OF p] this, of n] p[of n] show ?thesis by auto
qed

section \<open>Domains\<close>

lemma domain_tables:
  "list_all (\<lambda>rt. num_radar_types rt = int (length (spec_riu rt)) \<and> num_radar_types rt = int (length (spec_fcu rt)) \<and>
     num_radar_types rt \<le> get_dfs_max_radar_types \<and> num_radar_types rt < 256 \<and>
     rt_region rt \<noteq> DFS_UNSET) dfs_domains"
  by code_simp

lemma domain_specs: "rt \<in> set dfs_domains \<Longrightarrow> set (spec_riu rt) \<subseteq> set all_specs \<and> set (spec_fcu rt) \<subseteq> set all_specs"
  by (auto simp: all_specs_def)

lemma set_domain_facts:
  assumes "dfs_pattern_detector_set_domain dpd rg ch = (b, dpd')" and ok: "dfs_ok dpd"
  shows "dfs_ok dpd' \<and> (b \<longrightarrow> region dpd' = rg) \<and> (\<not> b \<longrightarrow> region dpd' = DFS_UNSET) \<and>
    (b \<and> region dpd \<noteq> rg \<longrightarrow> dfs_seen dpd' 0 0)"
proof (cases "region dpd = rg \<or> get_dfs_domain_radar_types rg = None")
  case True
  show ?thesis using True assms
    by (auto simp: dfs_pattern_detector_set_domain_def dfs_ok_def split: if_splits)
next
  case False
  then obtain rt where rt: "get_dfs_domain_radar_types rg = Some rt" by auto
  then have m: "rt \<in> set dfs_domains" "rt_region rt = rg"
    by (auto simp: get_dfs_domain_radar_types_def find_Some_iff)
  let ?s = "if ch = RIU then spec_riu rt else spec_fcu rt"
  have n: "num_radar_types rt = int (length ?s)" "num_radar_types rt \<le> get_dfs_max_radar_types" "num_radar_types rt < 256"
    using bspec[OF domain_tables[unfolded list_all_iff] m(1)] by (cases ch; simp)+
  have d: "b" "dpd' = dpd\<lparr>detectors := map (\<lambda>_. []) (take (nat (num_types dpd)) (detectors dpd)) @
       drop (nat (num_types dpd)) (detectors dpd), radar_spec := ?s, num_types := w8 (num_radar_types rt), region := rg\<rparr>"
    using assms(1) False rt by (simp_all add: dfs_pattern_detector_set_domain_def)
  have e: "detectors dpd' ! i = []" if "i < length (detectors dpd)" for i
    using ok that by (auto simp: d dfs_ok_def nth_append min_def)
  have l: "length (detectors dpd') = length (detectors dpd)" by (simp add: d)
  have w: "w8 (num_radar_types rt) = int (length ?s)" using n by (simp add: w_id)
  have s: "length ?s \<le> length (detectors dpd)" using ok n by (simp add: dfs_ok_def)
  have sub: "set ?s \<subseteq> set all_specs" using domain_specs[OF m(1)] by simp
  have sp: "radar_spec dpd' = ?s" "num_types dpd' = int (length ?s)" "region dpd' = rg" using w by (simp_all add: d)
  have "dfs_ok dpd'"
    unfolding dfs_ok_def using ok e l s sub sp m by (auto simp: dfs_ok_def row_ok_def)
  moreover have "dfs_seen dpd' 0 0" using e s by (auto simp: dfs_seen_def sp)
  ultimately show ?thesis using d(1) sp by simp
qed

lemma init_ok:
  assumes "dfs_pattern_detector_init E mem rg ch = Some dpd"
  shows "dfs_ok dpd \<and> region dpd = rg \<and> dfs_seen dpd 0 0"
proof -
  let ?d = "\<lparr>region = DFS_UNSET, dfs_enabled = 0, num_types = 0, last_pulse_ts = 0, prev_jiffies = w32 (jiffies_now E),
     radar_spec = [], detectors = replicate (nat get_dfs_max_radar_types) []\<rparr>"
  have ok: "dfs_ok ?d" and s: "dfs_seen ?d 0 0" by (simp_all add: dfs_ok_def dfs_seen_def)
  obtain b d where sd: "dfs_pattern_detector_set_domain ?d rg ch = (b, d)" by fastforce
  have "b" "d = dpd" using assms sd by (auto simp: dfs_pattern_detector_init_def Let_def split: if_splits bool.splits)
  with set_domain_facts[OF sd ok] s sd show ?thesis
    by (cases "rg = DFS_UNSET") (auto simp: dfs_pattern_detector_set_domain_def)
qed

lemma det_enough_five:
  assumes "r \<in> set all_specs" and "det_enough r n"
  shows "5 \<le> n"
proof (cases "wave r = RADAR_WAVEFORM_LONG")
  case True
  have "weather_row r" using all_weather_rows assms(1) by (simp add: list_all_iff)
  then show ?thesis using True assms(2) by (simp add: weather_row_def det_enough_def)
next
  case False
  then obtain p where "pri_min r \<le> p" "p \<le> pri_max r" "seq_thresh r p \<le> n" using assms(2) by (auto simp: det_enough_def)
  then show ?thesis using thresh_range[OF assms(1) _ _ False] by fastforce
qed

section \<open>Histories\<close>

text \<open>What the driver does with a pattern detector once it is set up.\<close>

inductive dfs_reach :: "dfs_pattern_detector \<Rightarrow> bool" where
  init: "dfs_pattern_detector_init E mem rg ch = Some dpd \<Longrightarrow> dfs_reach dpd"
| domain: "dfs_reach dpd \<Longrightarrow> dfs_pattern_detector_set_domain dpd rg ch = (b, dpd') \<Longrightarrow> dfs_reach dpd'"
| pulse: "dfs_reach dpd \<Longrightarrow> dfs_pattern_detector_add_pulse E dpd freq pri len now = Some (b, dpd') \<Longrightarrow> dfs_reach dpd'"
| enable: "dfs_reach dpd \<Longrightarrow> dfs_reach (dpd\<lparr>dfs_enabled := en\<rparr>)"

lemma reach_ok: "dfs_reach dpd \<Longrightarrow> dfs_ok dpd"
proof (induction rule: dfs_reach.induct)
  case (init E mem rg ch dpd) then show ?case using init_ok by blast
next
  case (domain dpd rg ch b dpd') then show ?case using set_domain_facts by blast
next
  case (pulse dpd E freq pri len now b dpd') then show ?case using add_pulse_facts by blast
qed simp


definition demo_dfs_env :: dfs_env where
  "demo_dfs_env = \<lparr>pde_mem = (\<lambda>_. True), elem_mem = (\<lambda>_. demo_mem), cac_busy = True, jiffies_now = 100,
     jiffies_to_usecs = (\<lambda>j. 10000 * j)\<rparr>"

definition demo_dpd :: dfs_pattern_detector where
  "demo_dpd = the (dfs_pattern_detector_init demo_dfs_env True DFS_FCC RIU)"

lemma demo_dpd_reach: "dfs_reach demo_dpd"
proof (rule dfs_reach.init)
  have "dfs_pattern_detector_init demo_dfs_env True DFS_FCC RIU \<noteq> None" by code_simp
  then show "dfs_pattern_detector_init demo_dfs_env True DFS_FCC RIU = Some demo_dpd" by (simp add: demo_dpd_def)
qed




section \<open>Reports\<close>

text \<open>Pulses one after the other until one completes a pattern.\<close>

type_synonym dfs_pulse = "dfs_env \<times> int \<times> int \<times> int \<times> int"

fun dfs_run :: "dfs_pulse list \<Rightarrow> dfs_pattern_detector \<Rightarrow> (bool \<times> dfs_pattern_detector) option" where
  "dfs_run [] dpd = Some (False, dpd)"
| "dfs_run ((E, freq, pri, len, now) # xs) dpd =
     (case dfs_pattern_detector_add_pulse E dpd freq pri len now of
        None \<Rightarrow> None
      | Some (True, dpd') \<Rightarrow> Some (True, dpd')
      | Some (False, dpd') \<Rightarrow> dfs_run xs dpd')"

definition dfs_clear :: "dfs_pattern_detector \<Rightarrow> bool" where
  "dfs_clear dpd \<longleftrightarrow> list_all (list_all (\<lambda>pde. sequences pde = [] \<and> pulses pde = [])) (detectors dpd)"

lemma clear_seen:
  assumes "dfs_ok dpd" and "dfs_clear dpd"
  shows "dfs_seen dpd 0 0"
proof -
  have "det_seen pde 0" if "j < length (radar_spec dpd)" "pde \<in> set (detectors dpd ! j)" for j pde
  proof -
    have "detectors dpd ! j \<in> set (detectors dpd)" using that(1) assms(1) by (simp add: dfs_ok_def)
    then have "sequences pde = []" "pulses pde = []" using assms(2) that(2) by (auto simp: dfs_clear_def list_all_iff)
    then show ?thesis by (simp add: det_seen_def seen_short_def seen_long_def)
  qed
  then show ?thesis by (simp add: dfs_seen_def)
qed

lemma dfs_run_enough:
  "dfs_run xs dpd = Some (True, dpd') \<Longrightarrow> dfs_ok dpd \<Longrightarrow> region dpd \<noteq> DFS_UNSET \<Longrightarrow> dfs_seen dpd 0 n \<Longrightarrow> 0 \<le> n \<Longrightarrow>
   n + int (length xs) < 2 ^ 32 \<Longrightarrow> \<exists>r \<in> set (radar_spec dpd). \<exists>m \<le> n + int (length xs). det_enough r m"
proof (induction xs arbitrary: dpd n)
  case (Cons x xs)
  obtain E freq pri len now where x: "x = (E, freq, pri, len, now)" by (cases x)
  obtain b d where a: "dfs_pattern_detector_add_pulse E dpd freq pri len now = Some (b, d)"
    using Cons.prems(1) by (auto simp: x split: option.splits)
  note f = add_pulse_facts[OF a Cons.prems(2), of n]
  show ?case
  proof (cases b)
    case True
    then show ?thesis using f Cons.prems(3-6) by (fastforce intro: bexI exI[of _ "n + 1"])
  next
    case False
    have r: "dfs_run xs d = Some (True, dpd')" using Cons.prems(1) a False by (simp add: x)
    have "dfs_ok d" "region d \<noteq> DFS_UNSET" "dfs_seen d 0 (n + 1)" "radar_spec d = radar_spec dpd"
      using f False Cons.prems(3-6) by simp_all
    with Cons.IH[OF r this(1-3)] Cons.prems(5,6) show ?thesis by (simp add: algebra_simps)
  qed
qed simp

text \<open>
  From any reached state with a domain in which no pulse is remembered, as after a report or a
  change of the domain, no pattern is reported before the fifth pulse, on whatever frequencies
  and with whatever intervals they come; and some row of the domain has reached its threshold.
\<close>

theorem dfs_report_needs_pulses:
  assumes "dfs_reach dpd" and "dfs_clear dpd" and "region dpd \<noteq> DFS_UNSET" and "int (length xs) < 2 ^ 32"
    and "dfs_run xs dpd = Some (True, dpd')"
  shows "5 \<le> length xs \<and> (\<exists>r \<in> set (radar_spec dpd). \<exists>m \<le> int (length xs). det_enough r m)"
proof -
  have ok: "dfs_ok dpd" by (rule reach_ok[OF assms(1)])
  from dfs_run_enough[OF assms(5) ok assms(3) clear_seen[OF ok assms(2)]] assms(4)
  obtain r m where r: "r \<in> set (radar_spec dpd)" "m \<le> int (length xs)" "det_enough r m" by auto
  have "r \<in> set all_specs" using ok r(1) by (auto simp: dfs_ok_def)
  from det_enough_five[OF this r(3)] r show ?thesis by auto
qed

lemma dfs_report_needs_pulses_witness:
  "\<exists>dpd'. dfs_run (replicate 5 (demo_dfs_env, 5500, 333, 4, 100)) demo_dpd = Some (True, dpd') \<and>
     5 \<le> length (replicate 5 (0 :: nat)) \<and> dfs_clear dpd'"
proof -
  let ?xs = "replicate 5 (demo_dfs_env, 5500, 333, 4, 100 :: int)"
  have "map_option (\<lambda>(b, d). (b, dfs_clear d)) (dfs_run ?xs demo_dpd) = Some (True, True)"
    and c: "dfs_clear demo_dpd" "region demo_dpd \<noteq> DFS_UNSET" by code_simp+
  then obtain d where d: "dfs_run ?xs demo_dpd = Some (True, d)" "dfs_clear d" by auto
  have "int (length ?xs) < 2 ^ 32" by simp
  from dfs_report_needs_pulses[OF demo_dpd_reach c this d(1)] d show ?thesis by auto
qed

text \<open>
  After a change to a domain without tables the detector has no domain, and from then on every
  pulse counts as a radar, without any change of the state, until a domain is set.
\<close>

theorem dfs_unset_fails_safe:
  assumes "get_dfs_domain_radar_types rg = None" and "region dpd \<noteq> rg"
  shows "\<exists>dpd'. dfs_pattern_detector_set_domain dpd rg ch = (False, dpd') \<and> region dpd' = DFS_UNSET \<and>
    (\<forall>E freq pri len now. dfs_pattern_detector_add_pulse E dpd' freq pri len now = Some (True, dpd'))"
  using assms by (simp add: dfs_pattern_detector_set_domain_def dfs_pattern_detector_add_pulse_def)

lemma dfs_unset_fails_safe_witness:
  "\<exists>dpd'. dfs_pattern_detector_set_domain demo_dpd DFS_UNSET RIU = (False, dpd') \<and>
     dfs_pattern_detector_add_pulse demo_dfs_env dpd' 5500 0 0 0 = Some (True, dpd')"
proof -
  have "get_dfs_domain_radar_types DFS_UNSET = None" "region demo_dpd \<noteq> DFS_UNSET" by code_simp+
  from dfs_unset_fails_safe[OF this] show ?thesis by blast
qed

text \<open>
  The time of a pulse that follows after a long gap. With \<open>e\<close> the ticks that really passed,
  modulo the width of the counter, the time advances by the microseconds of \<open>e\<close>, but of
  \<open>e - 1\<close> when the counter wrapped around in between; a pulse with an interval advances it by the
  interval. The detectors that need regular pulses are cleared by a long gap and by nothing else.
\<close>

theorem pulse_time_advances:
  assumes "0 \<le> now" "now < 2 ^ 32" "0 \<le> prev_jiffies dpd" "prev_jiffies dpd < 2 ^ 32"
  shows "last_pulse_ts (pulse_time E dpd pri now) =
      w64 (last_pulse_ts dpd + (if pri = 0 then jiffies_to_usecs E
        (if now < prev_jiffies dpd then w32 (now - prev_jiffies dpd) - 1 else w32 (now - prev_jiffies dpd)) else pri)) \<and>
    (pri \<noteq> 0 \<longrightarrow> detectors (pulse_time E dpd pri now) = detectors dpd) \<and>
    (pri = 0 \<longrightarrow> (\<forall>i < min (length (detectors dpd)) (nat (num_types dpd)). \<forall>pde \<in> set (detectors (pulse_time E dpd pri now) ! i).
       reset_on_pri_overflow pde \<longrightarrow> sequences pde = [] \<and> pulses pde = []))"
proof (cases "pri = 0")
  case True
  have wrap: "w32 (0xffffffff - prev_jiffies dpd + now) = w32 (now - prev_jiffies dpd) - 1" if "now < prev_jiffies dpd"
  proof -
    have "w32 (now - prev_jiffies dpd) = w32 (now - prev_jiffies dpd + 2 ^ 32)" by (simp add: w32_def)
    also have "\<dots> = now - prev_jiffies dpd + 2 ^ 32" using that assms by (intro w_id) simp_all
    finally show ?thesis using that assms by (simp add: w_id)
  qed
  have r: "reset_on_pri_overflow (pri_detector_reset pde x) = reset_on_pri_overflow pde" for pde x
    by (simp add: reset_on_pri_overflow_def pri_detector_reset_simps)
  show ?thesis using True wrap
    by (auto simp: pulse_time_def Let_def dfs_pattern_detector_pri_overflow_def for_types_nth pri_detector_reset_simps r
        split: if_splits)
qed (simp add: pulse_time_def)

lemma pulse_time_advances_witness:
  "last_pulse_ts (pulse_time demo_dfs_env demo_dpd 0 99) = 10000 * (2 ^ 32 - 2)"
proof -
  have e: "0 \<le> (99 :: int)" "(99 :: int) < 2 ^ 32" "0 \<le> prev_jiffies demo_dpd" "prev_jiffies demo_dpd < 2 ^ 32" by code_simp+
  have v: "prev_jiffies demo_dpd = 100" "last_pulse_ts demo_dpd = 0" by code_simp+
  have "w32 (99 - 100) = 2 ^ 32 - 1" by (simp add: w32_def)
  then show ?thesis using pulse_time_advances[OF e, of demo_dfs_env 0] v by (simp add: demo_dfs_env_def w_id)
qed

text \<open>
  When no detector can be allocated for a pulse that is wide enough for a row and whose
  frequency is new, the null pointer is followed: the call has no result.
\<close>

theorem dfs_no_memory_faults:
  assumes "region dpd \<noteq> DFS_UNSET" and "0 < num_types dpd" and "width_min (radar_spec dpd ! 0) \<le> len"
    and "len \<le> width_max (radar_spec dpd ! 0)" and "detectors dpd ! 0 = []" "detectors dpd \<noteq> []" and "\<not> pde_mem E 0"
  shows "dfs_pattern_detector_add_pulse E dpd freq pri len now = None"
proof -
  obtain m where m: "nat (num_types dpd) = Suc m" using assms(2) by (cases "nat (num_types dpd)") simp_all
  have p: "radar_spec (pulse_time E dpd pri now) = radar_spec dpd" "detectors (pulse_time E dpd pri now) ! 0 = []"
    using assms(5,6) for_types_nth[of 0 "dpd\<lparr>last_pulse_ts := x, prev_jiffies := now\<rparr>" for x]
    by (auto simp: pulse_time_def Let_def dfs_pattern_detector_pri_overflow_def)
  show ?thesis using assms p m
    by (simp add: dfs_pattern_detector_add_pulse_def Let_def pri_detector_get_def)
qed

lemma dfs_no_memory_faults_witness:
  "dfs_pattern_detector_add_pulse (demo_dfs_env\<lparr>pde_mem := (\<lambda>_. False)\<rparr>) demo_dpd 5500 333 4 100 = None"
proof -
  have e: "region demo_dpd \<noteq> DFS_UNSET" "0 < num_types demo_dpd" "width_min (radar_spec demo_dpd ! 0) \<le> 4"
    "4 \<le> width_max (radar_spec demo_dpd ! 0)" "detectors demo_dpd ! 0 = []" "detectors demo_dpd \<noteq> []"
    "\<not> pde_mem (demo_dfs_env\<lparr>pde_mem := (\<lambda>_. False)\<rparr>) 0" by code_simp+
  from dfs_no_memory_faults[OF e] show ?thesis by simp
qed

end
