(* ===== verification/RadarHost.thy ===== *)
theory RadarHost
  imports RadarState "HOL-Library.Word"
begin

unbundle bit_operations_syntax

text \<open>
  The driver's side of the radar detection: the rings of pulses filled by the firmware's messages,
  the work item that hands them to the pattern detectors, the channel contexts and the channel
  availability check (CAC) (\<^verbatim>\<open>rwnx_radar.c\<close> from \<^verbatim>\<open>rwnx_radar_get_center_freq\<close> on, with
  \<^verbatim>\<open>rwnx_radar_detect_ind\<close> of \<^verbatim>\<open>rwnx_msg_rx.c\<close> and the channel contexts of \<^verbatim>\<open>rwnx_main.c\<close>).
\<close>

section \<open>State\<close>

definition RWNX_RADAR_PULSE_MAX :: nat where "RWNX_RADAR_PULSE_MAX = 32"
definition RADAR_PULSE_MAX :: nat where "RADAR_PULSE_MAX = 4"
definition NX_NB_RADAR_DETECTED :: nat where "NX_NB_RADAR_DETECTED = 4"
definition RWNX_CH_NOT_SET :: nat where "RWNX_CH_NOT_SET = 255"
definition NX_CHAN_CTXT_CNT :: nat where "NX_CHAN_CTXT_CNT = 3"

record rwnx_radar_pulses =
  rp_index :: nat
  rp_count :: nat
  rp_buffer :: "u32 list"

record radar_detected =
  rd_index :: nat
  rd_count :: nat
  rd_time :: "int list"
  rd_freq :: "int list"

datatype rwnx_radar_status = RADAR_IDLE | RADAR_CAC_BUSY | RADAR_CAC_DONE | RADAR_INSERVICE_BUSY | RADAR_INSERVICE_DONE

datatype radar_enable = DETECT_DISABLE | DETECT_ENABLE | DETECT_REPORT

fun enable_code :: "radar_enable \<Rightarrow> int" where
  "enable_code DETECT_DISABLE = 0"
| "enable_code DETECT_ENABLE = 1"
| "enable_code DETECT_REPORT = 2"

text \<open>A channel definition: the first centre frequency, and whether the channel needs radar detection.\<close>

record chan_def =
  cd_freq1 :: int
  cd_radar :: bool

record chanctx =
  ctx_count :: nat
  ctx_chan :: "chan_def option"

record radar_vif =
  ch_index :: nat

record radar_hw =
  ring :: "chain \<Rightarrow> rwnx_radar_pulses"
  dpd_of :: "chain \<Rightarrow> dfs_pattern_detector"
  detected :: "chain \<Rightarrow> radar_detected"
  status :: rwnx_radar_status
  sta_num :: nat
  work_queued :: bool
  cac_vif :: "nat option"
  cac_timer :: bool
  chanctx_table :: "chanctx list"
  rvifs :: "radar_vif list"
  cur_chanctx :: nat
  sec_freq1 :: int

text \<open>What leaves the driver: requests to the firmware and events to the wireless stack.\<close>

datatype radar_out = StopCac nat | CacFinished nat "chan_def option" | CacAborted nat "chan_def option" | RadarEvent chan_def

section \<open>Channel contexts\<close>

definition rwnx_chanctx_valid :: "radar_hw \<Rightarrow> nat \<Rightarrow> bool" where
  "rwnx_chanctx_valid H i \<longleftrightarrow> \<not> (i \<ge> NX_CHAN_CTXT_CNT \<or> ctx_chan (chanctx_table H ! i) = None)"

definition rwnx_radar_detection_enable :: "radar_hw \<Rightarrow> radar_enable \<Rightarrow> chain \<Rightarrow> radar_hw" where
  "rwnx_radar_detection_enable H en ch =
     H\<lparr>dpd_of := (dpd_of H)(ch := (dpd_of H ch)\<lparr>dfs_enabled := enable_code en\<rparr>)\<rparr>"

definition rwnx_radar_detection_is_enable :: "radar_hw \<Rightarrow> chain \<Rightarrow> bool" where
  "rwnx_radar_detection_is_enable H ch \<longleftrightarrow> dfs_enabled (dpd_of H ch) \<noteq> enable_code DETECT_DISABLE"

definition rwnx_chanctx_link :: "radar_hw \<Rightarrow> nat \<Rightarrow> nat \<Rightarrow> chan_def option \<Rightarrow> radar_hw" where
  "rwnx_chanctx_link H v i chandef =
     (if i \<ge> NX_CHAN_CTXT_CNT then H
      else let c = chanctx_table H ! i;
               c = c\<lparr>ctx_count := ctx_count c + 1\<rparr>;
               c = (case chandef of None \<Rightarrow> c | Some d \<Rightarrow> if ctx_chan c = None then c\<lparr>ctx_chan := Some d\<rparr> else c)
           in H\<lparr>rvifs := (rvifs H)[v := (rvifs H ! v)\<lparr>ch_index := i\<rparr>], chanctx_table := (chanctx_table H)[i := c]\<rparr>)"

definition rwnx_chanctx_unlink :: "radar_hw \<Rightarrow> nat \<Rightarrow> radar_hw option" where
  "rwnx_chanctx_unlink H v =
     (let i = ch_index (rvifs H ! v) in
      if i = RWNX_CH_NOT_SET then Some H
      else if i \<ge> length (chanctx_table H) then None
      else let c = chanctx_table H ! i;
               c = (if ctx_count c = 0 then c else c\<lparr>ctx_count := ctx_count c - 1\<rparr>);
               H' = H\<lparr>chanctx_table := (chanctx_table H)[i := c]\<rparr>;
               H' = (if ctx_count c = 0
                     then (let H'' = (if i = cur_chanctx H' then rwnx_radar_detection_enable H' DETECT_DISABLE RIU else H')
                           in H''\<lparr>chanctx_table := (chanctx_table H'')[i := c\<lparr>ctx_chan := None\<rparr>]\<rparr>)
                     else H')
           in Some (H'\<lparr>rvifs := (rvifs H')[v := (rvifs H' ! v)\<lparr>ch_index := RWNX_CH_NOT_SET\<rparr>]\<rparr>))"

definition rwnx_radar_detection_enable_on_cur_channel :: "radar_hw \<Rightarrow> radar_hw" where
  "rwnx_radar_detection_enable_on_cur_channel H =
     (if \<not> rwnx_chanctx_valid H (cur_chanctx H) then H
      else case ctx_chan (chanctx_table H ! cur_chanctx H) of
        None \<Rightarrow> H
      | Some d \<Rightarrow> if cd_radar d then rwnx_radar_detection_enable H DETECT_REPORT RIU
                  else rwnx_radar_detection_enable H DETECT_DISABLE RIU)"

section \<open>The channel availability check\<close>

text \<open>
  \<open>ir\<close>: whether the driver is built with \<^verbatim>\<open>CONFIG_RADAR_OR_IR_DETECT\<close>, which is the only code that
  changes the radar status after the initialisation.
\<close>

definition rwnx_send_apm_stop_cac_req :: "bool \<Rightarrow> radar_hw \<Rightarrow> radar_hw" where
  "rwnx_send_apm_stop_cac_req ir H = (if ir then H\<lparr>status := RADAR_CAC_DONE\<rparr> else H)"

definition rwnx_send_apm_start_cac_req :: "bool \<Rightarrow> radar_hw \<Rightarrow> radar_hw" where
  "rwnx_send_apm_start_cac_req ir H = (if ir then H\<lparr>status := RADAR_CAC_BUSY\<rparr> else H)"

definition rwnx_radar_start_cac :: "nat \<Rightarrow> radar_hw \<Rightarrow> radar_hw" where
  "rwnx_radar_start_cac v H = H\<lparr>cac_vif := Some v, cac_timer := True\<rparr>"

text \<open>The entry of the context table for an interface; none when the table is left.\<close>

definition vif_ctx :: "radar_hw \<Rightarrow> nat \<Rightarrow> chanctx option" where
  "vif_ctx H v = (let i = ch_index (rvifs H ! v) in
     if i < length (chanctx_table H) then Some (chanctx_table H ! i) else None)"

definition rwnx_radar_cac_work :: "bool \<Rightarrow> radar_hw \<Rightarrow> (radar_hw \<times> radar_out list) option" where
  "rwnx_radar_cac_work ir H0 =
     (let H = H0\<lparr>cac_timer := False\<rparr> in
      case cac_vif H of
        None \<Rightarrow> Some (H, [])
      | Some v \<Rightarrow> do {
          ctxt \<leftarrow> vif_ctx H v;
          H \<leftarrow> rwnx_chanctx_unlink (rwnx_send_apm_stop_cac_req ir H) v;
          Some (H\<lparr>cac_vif := None\<rparr>, [CacFinished v (ctx_chan ctxt), StopCac v]) })"

definition rwnx_radar_cancel_cac :: "bool \<Rightarrow> radar_hw \<Rightarrow> (radar_hw \<times> radar_out list) option" where
  "rwnx_radar_cancel_cac ir H =
     (case cac_vif H of
        None \<Rightarrow> Some (H, [])
      | Some v \<Rightarrow>
          if cac_timer H then do {
            ctxt \<leftarrow> vif_ctx H v;
            H \<leftarrow> rwnx_chanctx_unlink (rwnx_send_apm_stop_cac_req ir (H\<lparr>cac_timer := False\<rparr>)) v;
            Some (H\<lparr>cac_vif := None\<rparr>, [StopCac v, CacAborted v (ctx_chan ctxt)]) }
          else Some (H\<lparr>cac_vif := None\<rparr>, []))"

text \<open>
  \<open>cfm\<close>: what the firmware confirms, the index of the context when it accepts. The return value
  is 0 or \<^verbatim>\<open>-EIO\<close>.
\<close>

definition rwnx_cfg80211_start_radar_detection :: "bool \<Rightarrow> nat \<Rightarrow> chan_def \<Rightarrow> nat option \<Rightarrow> radar_hw \<Rightarrow> int \<times> radar_hw" where
  "rwnx_cfg80211_start_radar_detection ir v chandef cfm H =
     (let H = rwnx_send_apm_start_cac_req ir (rwnx_radar_start_cac v H) in
      case cfm of
        None \<Rightarrow> (-5, H)
      | Some ch_idx \<Rightarrow>
          let H = rwnx_chanctx_link H v ch_idx (Some chandef);
              H = (if cur_chanctx H = ch_index (rvifs H ! v) then rwnx_radar_detection_enable H DETECT_REPORT RIU else H)
          in (0, H))"

definition rwnx_send_me_sta_add :: "bool \<Rightarrow> radar_hw \<Rightarrow> radar_hw" where
  "rwnx_send_me_sta_add ir H = (if ir then
     (let H = (if sta_num H = 0 \<and> status H \<noteq> RADAR_INSERVICE_BUSY then H\<lparr>status := RADAR_INSERVICE_BUSY\<rparr> else H)
      in if sta_num H < 0x0FFF then H\<lparr>sta_num := sta_num H + 1\<rparr> else H) else H)"

definition rwnx_send_me_sta_del :: "bool \<Rightarrow> radar_hw \<Rightarrow> radar_hw" where
  "rwnx_send_me_sta_del ir H = (if ir then
     (let H = (if sta_num H = 1 \<and> status H = RADAR_INSERVICE_BUSY then H\<lparr>status := RADAR_INSERVICE_DONE\<rparr> else H)
      in if sta_num H > 0 then H\<lparr>sta_num := sta_num H - 1\<rparr> else H) else H)"

section \<open>The rings\<close>

definition ring_put :: "u32 \<Rightarrow> rwnx_radar_pulses \<Rightarrow> rwnx_radar_pulses" where
  "ring_put x r = r\<lparr>rp_buffer := (rp_buffer r)[rp_index r := x],
     rp_index := (rp_index r + 1) mod RWNX_RADAR_PULSE_MAX,
     rp_count := (if rp_count r < RWNX_RADAR_PULSE_MAX then rp_count r + 1 else rp_count r)\<rparr>"

text \<open>
  A message of the firmware: its array of four pulses, the number of the chain and the number of
  valid pulses. No result: the array or the table of chains is left.
\<close>

definition rwnx_radar_detect_ind :: "u32 list \<Rightarrow> nat \<Rightarrow> nat \<Rightarrow> radar_hw \<Rightarrow> (int \<times> radar_hw) option" where
  "rwnx_radar_detect_ind pulse idx cnt H =
     (if cnt = 0 then Some (-1, H)
      else if idx > 1 then None
      else let ch = (if idx = 0 then RIU else FCU) in
        if rwnx_radar_detection_is_enable H ch
        then (if cnt > RADAR_PULSE_MAX then None
              else Some (0, H\<lparr>ring := (ring H)(ch := fold ring_put (take cnt pulse) (ring H ch)), work_queued := True\<rparr>))
        else Some (0, H))"

definition ring_take :: "rwnx_radar_pulses \<Rightarrow> u32 list \<times> rwnx_radar_pulses" where
  "ring_take r =
     (let count = rp_count r;
          start = (if rp_index r < count then rp_index r + RWNX_RADAR_PULSE_MAX - count else rp_index r - count)
      in if count = 0 then ([], r)
         else (if start + count > RWNX_RADAR_PULSE_MAX
               then let count1 = RWNX_RADAR_PULSE_MAX - start
                    in take count1 (drop start (rp_buffer r)) @ take (count - count1) (rp_buffer r)
               else take count (drop start (rp_buffer r)), r\<lparr>rp_count := 0\<rparr>))"

section \<open>The work item\<close>

definition p_freq :: "u32 \<Rightarrow> int" where
  "p_freq w = (let v = uint (w AND 63) in if v \<ge> 32 then v - 64 else v)"

definition p_len :: "u32 \<Rightarrow> int" where "p_len w = uint (drop_bit 10 w AND 63)"
definition p_rep :: "u32 \<Rightarrow> int" where "p_rep w = uint (drop_bit 16 w)"

definition s16 :: "int \<Rightarrow> int" where
  "s16 x = (let v = x mod 2 ^ 16 in if v \<ge> 2 ^ 15 then v - 2 ^ 16 else v)"

definition rwnx_radar_get_center_freq :: "radar_hw \<Rightarrow> chain \<Rightarrow> int" where
  "rwnx_radar_get_center_freq H ch =
     (if ch = FCU then w16 (sec_freq1 H)
      else if rwnx_chanctx_valid H (cur_chanctx H)
      then (case ctx_chan (chanctx_table H ! cur_chanctx H) of None \<Rightarrow> 0 | Some d \<Rightarrow> w16 (cd_freq1 d)) else 0)"

definition rwnx_radar_detected :: "bool \<Rightarrow> radar_hw \<Rightarrow> (radar_hw \<times> radar_out list) option" where
  "rwnx_radar_detected ir H =
     (if \<not> rwnx_chanctx_valid H (cur_chanctx H) then Some (H, [])
      else case ctx_chan (chanctx_table H ! cur_chanctx H) of
        None \<Rightarrow> Some (H, [])
      | Some d \<Rightarrow> do { (H, out) \<leftarrow> rwnx_radar_cancel_cac ir H; Some (H, out @ [RadarEvent d]) })"

definition note_detected :: "int \<Rightarrow> int \<Rightarrow> radar_detected \<Rightarrow> radar_detected" where
  "note_detected secs freq d =
     d\<lparr>rd_freq := (rd_freq d)[rd_index d := freq], rd_time := (rd_time d)[rd_index d := secs],
       rd_index := (rd_index d + 1) mod NX_NB_RADAR_DETECTED, rd_count := (rd_count d + 1) mod 65536\<rparr>"

text \<open>What a detected pattern leads to.\<close>

definition pulse_found :: "bool \<Rightarrow> int \<Rightarrow> int \<Rightarrow> chain \<Rightarrow> radar_hw \<Rightarrow> (radar_hw \<times> radar_out list) option" where
  "pulse_found ir secs freq ch H = do {
     (H, out) \<leftarrow> (if ch = RIU \<and> dfs_enabled (dpd_of H RIU) = enable_code DETECT_REPORT
       then do {
         (H, out) \<leftarrow> rwnx_radar_detected ir H;
         let H = rwnx_radar_detection_enable H DETECT_DISABLE RIU;
         Some (H\<lparr>ring := (ring H)(RIU := (ring H RIU)\<lparr>rp_count := 0\<rparr>)\<rparr>, out) }
       else Some (H, []));
     Some (H\<lparr>detected := (detected H)(ch := note_detected secs freq (detected H ch))\<rparr>, out) }"

text \<open>The pulses of one chain; \<open>E k\<close> is what the pattern detector meets with the \<open>k\<close>-th one.\<close>

fun pulse_loop :: "bool \<Rightarrow> (nat \<Rightarrow> dfs_env) \<Rightarrow> int \<Rightarrow> int \<Rightarrow> int \<Rightarrow> chain \<Rightarrow> nat \<Rightarrow> u32 list \<Rightarrow> radar_hw \<Rightarrow>
    (radar_hw \<times> radar_out list) option" where
  "pulse_loop ir E secs now freq ch k [] H = Some (H, [])"
| "pulse_loop ir E secs now freq ch k (p # ps) H =
     (if status H \<noteq> RADAR_CAC_BUSY \<and> status H \<noteq> RADAR_INSERVICE_BUSY then Some (H, [])
      else case dfs_pattern_detector_add_pulse ((E k)\<lparr>cac_busy := (status H = RADAR_CAC_BUSY)\<rparr>) (dpd_of H ch)
             (w16 (s16 freq + 2 * p_freq p)) (p_rep p) (p_len p * 2) now of
        None \<Rightarrow> None
      | Some (b, d) \<Rightarrow>
          let H = H\<lparr>dpd_of := (dpd_of H)(ch := d)\<rparr> in
          if b then pulse_found ir secs (s16 (s16 freq + 2 * p_freq p)) ch H
          else pulse_loop ir E secs now freq ch (Suc k) ps H)"

text \<open>Both rings are copied first, then the chains are served one after the other.\<close>

definition rwnx_radar_process_pulse :: "bool \<Rightarrow> (chain \<Rightarrow> nat \<Rightarrow> dfs_env) \<Rightarrow> int \<Rightarrow> int \<Rightarrow> radar_hw \<Rightarrow>
    (radar_hw \<times> radar_out list) option" where
  "rwnx_radar_process_pulse ir E secs now H0 =
     (let (ps_riu, r_riu) = ring_take (ring H0 RIU);
          (ps_fcu, r_fcu) = ring_take (ring H0 FCU);
          H = H0\<lparr>work_queued := False, ring := (ring H0)(RIU := r_riu, FCU := r_fcu)\<rparr>
      in do {
        (H, out1) \<leftarrow> pulse_loop ir (E RIU) secs now (rwnx_radar_get_center_freq H RIU) RIU 0 ps_riu H;
        (H, out2) \<leftarrow> pulse_loop ir (E FCU) secs now (rwnx_radar_get_center_freq H FCU) FCU 0 ps_fcu H;
        Some (H, out1 @ out2) })"

section \<open>Set-up\<close>

definition rwnx_radar_set_domain :: "dfs_region \<Rightarrow> radar_hw \<Rightarrow> bool \<times> radar_hw" where
  "rwnx_radar_set_domain rg H =
     (let (b1, d1) = dfs_pattern_detector_set_domain (dpd_of H RIU) rg RIU;
          H = H\<lparr>dpd_of := (dpd_of H)(RIU := d1)\<rparr>
      in if \<not> b1 then (False, H)
         else let (b2, d2) = dfs_pattern_detector_set_domain (dpd_of H FCU) rg FCU
              in (b2, H\<lparr>dpd_of := (dpd_of H)(FCU := d2)\<rparr>))"

text \<open>No result: an allocation fails, and the initialisation with it.\<close>

definition rwnx_radar_detection_init :: "dfs_env \<Rightarrow> bool \<Rightarrow> bool \<Rightarrow> radar_hw \<Rightarrow> radar_hw option" where
  "rwnx_radar_detection_init E mem1 mem2 H = do {
     d1 \<leftarrow> dfs_pattern_detector_init E mem1 DFS_UNSET RIU;
     d2 \<leftarrow> dfs_pattern_detector_init E mem2 DFS_UNSET FCU;
     Some (H\<lparr>dpd_of := (dpd_of H)(RIU := d1, FCU := d2), status := RADAR_IDLE, cac_vif := None\<rparr>) }"

end
