(* ===== verification/RadarHostProps.thy ===== *)
theory RadarHostProps
  imports RadarHost
begin

text \<open>
  The properties of the driver's side of the radar detection: the rings as bounded queues, the
  reference counts of the channel contexts, reports and the availability check.
\<close>

section \<open>The rings are queues of the newest pulses\<close>

definition ring_rep :: "rwnx_radar_pulses \<Rightarrow> u32 list \<Rightarrow> bool" where
  "ring_rep r q \<longleftrightarrow> length (rp_buffer r) = 32 \<and> rp_index r < 32 \<and> rp_count r = length q \<and> length q \<le> 32 \<and>
     (\<forall>k < length q. q ! k = rp_buffer r ! ((rp_index r + 32 - length q + k) mod 32))"

definition newest :: "nat \<Rightarrow> 'a list \<Rightarrow> 'a list" where
  "newest n xs = drop (length xs - n) xs"

lemma newest_id: "length xs \<le> n \<Longrightarrow> newest n xs = xs"
  by (simp add: newest_def)

lemma newest_append1: "newest n (newest n xs @ [x]) = newest n (xs @ [x])"
  by (cases "length xs \<le> n") (simp_all add: newest_def drop_append Suc_diff_le)

lemma mod_32: "x < 64 \<Longrightarrow> x mod 32 = (if x < 32 then x else x - 32)" for x :: nat
  by (simp add: mod_if)

lemma ring_put_rep:
  assumes "ring_rep r q"
  shows "ring_rep (ring_put x r) (newest 32 (q @ [x]))"
proof -
  let ?i = "rp_index r" and ?n = "length q"
  have r: "length (rp_buffer r) = 32" "?i < 32" "rp_count r = ?n" "?n \<le> 32"
    "\<And>k. k < ?n \<Longrightarrow> q ! k = rp_buffer r ! ((?i + 32 - ?n + k) mod 32)"
    using assms by (simp_all add: ring_rep_def)
  have old: "(?i + 32 - ?n + k) mod 32 \<noteq> ?i" if "k < ?n" "0 < k \<or> ?n < 32" for k
  proof -
    have b: "?i + 32 - ?n + k < ?i + 32" "?i < ?i + 32 - ?n + k" using that r(4) by linarith+
    then have "?i + 32 - ?n + k < 64" using r(2) by linarith
    from mod_32[OF this] show ?thesis using b r(2) by (simp split: if_splits)
  qed
  have self: "(?i + 32) mod 32 = ?i" using r(2) by simp
  show ?thesis
  proof (cases "?n < 32")
    case True
    have "(q @ [x]) ! k = (rp_buffer r)[?i := x] ! (((?i + 1) mod 32 + 32 - Suc ?n + k) mod 32)" if "k < Suc ?n" for k
    proof -
      have m: "((?i + 1) mod 32 + 32 - Suc ?n + k) mod 32 = (?i + 32 - ?n + k) mod 32"
      proof (cases "?i = 31")
        case i: True
        have "?i + 32 - ?n + k = (31 - ?n + k) + 32" using i True by linarith
        then have "(?i + 32 - ?n + k) mod 32 = (31 - ?n + k) mod 32" by (simp only: mod_add_self2)
        then show ?thesis using i by simp
      next
        case False
        then have "(?i + 1) mod 32 = ?i + 1" using r(2) by simp
        moreover have "?i + 1 + 32 - Suc ?n + k = ?i + 32 - ?n + k" by simp
        ultimately show ?thesis by presburger
      qed
      show ?thesis
      proof (cases "k = ?n")
        case True
        then show ?thesis using m r(1,2) self r(4) by simp
      next
        case False
        with that have "k < ?n" by simp
        then show ?thesis unfolding m using old[of k] True r(5)[of k] by (simp add: nth_append)
      qed
    qed
    then show ?thesis using True r by (simp add: ring_rep_def ring_put_def RWNX_RADAR_PULSE_MAX_def newest_id)
  next
    case False
    then have n: "?n = 32" using r(4) by simp
    then obtain y q' where q: "q = y # q'" by (cases q) simp_all
    have l: "length q' = 31" using n q by simp
    have nw: "newest 32 (q @ [x]) = q' @ [x]" using l by (simp add: newest_def q)
    have "(q' @ [x]) ! k = (rp_buffer r)[?i := x] ! (((?i + 1) mod 32 + k) mod 32)" if "k < 32" for k
    proof -
      have m: "((?i + 1) mod 32 + k) mod 32 = (?i + Suc k) mod 32" by (simp add: mod_add_left_eq)
      show ?thesis
      proof (cases "k = 31")
        case True
        then show ?thesis using m r(1,2) self l by (simp add: nth_append)
      next
        case False
        with that have k: "Suc k < ?n" "k < 31" using n by simp_all
        have "q ! Suc k = rp_buffer r ! ((?i + Suc k) mod 32)" using r(5)[OF k(1)] n by simp
        then show ?thesis unfolding m using old[of "Suc k"] k n l by (simp add: nth_append q)
      qed
    qed
    then show ?thesis using n r l by (simp add: ring_rep_def ring_put_def RWNX_RADAR_PULSE_MAX_def nw)
  qed
qed

lemma ring_puts_rep: "ring_rep r q \<Longrightarrow> ring_rep (fold ring_put xs r) (newest 32 (q @ xs))"
proof (induction xs rule: rev_induct)
  case (snoc x xs)
  from ring_put_rep[OF snoc.IH[OF snoc.prems], of x] show ?case by (simp add: newest_append1)
qed (simp add: newest_id ring_rep_def)

lemma ring_take_rep:
  assumes "ring_rep r q"
  shows "fst (ring_take r) = q \<and> ring_rep (snd (ring_take r)) []"
proof -
  let ?i = "rp_index r" and ?n = "length q"
  have r: "length (rp_buffer r) = 32" "?i < 32" "rp_count r = ?n" "?n \<le> 32"
    "\<And>k. k < ?n \<Longrightarrow> q ! k = rp_buffer r ! ((?i + 32 - ?n + k) mod 32)"
    using assms by (simp_all add: ring_rep_def)
  define s where "s = (if ?i < ?n then ?i + 32 - ?n else ?i - ?n)"
  have s: "s < 32" "(?i + 32 - ?n + k) mod 32 = (s + k) mod 32" for k
  proof -
    show "s < 32" using r(2,4) by (auto simp: s_def)
    have "?i + 32 - ?n + k = s + k \<or> ?i + 32 - ?n + k = (s + k) + 32" using r(4) by (auto simp: s_def)
    then show "(?i + 32 - ?n + k) mod 32 = (s + k) mod 32" by (elim disjE) (simp_all only: mod_add_self2)
  qed
  let ?out = "if s + ?n > 32 then take (32 - s) (drop s (rp_buffer r)) @ take (?n - (32 - s)) (rp_buffer r)
    else take ?n (drop s (rp_buffer r))"
  have t: "ring_take r = (if ?n = 0 then ([], r) else (?out, r\<lparr>rp_count := 0\<rparr>))"
    using r(3) by (simp add: ring_take_def RWNX_RADAR_PULSE_MAX_def Let_def s_def)
  have out: "?out = q" if "?n \<noteq> 0"
  proof (rule nth_equalityI)
    show "length ?out = ?n" using r(1,4) s(1) that by (auto simp: min_def)
    fix k assume "k < length ?out"
    then have k: "k < ?n" using r(1,4) s(1) that by (auto simp: min_def split: if_splits)
    have q: "q ! k = rp_buffer r ! (if s + k < 32 then s + k else s + k - 32)"
      using r(5)[OF k] s(2)[of k] mod_32[of "s + k"] s(1) k r(4) by simp
    show "?out ! k = q ! k"
    proof (cases "s + ?n > 32")
      case True
      have l: "length (take (32 - s) (drop s (rp_buffer r))) = 32 - s" using r(1) by simp
      show ?thesis
      proof (cases "k < 32 - s")
        case inner: True
        then have "s + k < 32" by linarith
        then show ?thesis using True q l r(1) inner by (simp add: nth_append)
      next
        case False
        then have e: "k - (32 - s) = s + k - 32" "\<not> s + k < 32" "k - (32 - s) < ?n - (32 - s)" using s(1) that k by auto
        have "?out ! k = take (?n - (32 - s)) (rp_buffer r) ! (k - (32 - s))"
          using True l False by (simp add: nth_append)
        also have "\<dots> = rp_buffer r ! (k - (32 - s))" by (rule nth_take[OF e(3)])
        finally show ?thesis using q e(2) unfolding e(1) by simp
      qed
    next
      case False
      then have "s + k < 32" "s + ?n \<le> 32" using k by linarith+
      then show ?thesis using False q k r(1) by simp
    qed
  qed
  show ?thesis using t out r by (auto simp: ring_rep_def)
qed

text \<open>
  The ring of a chain behaves as a queue that keeps the newest 32 pulses. However the pulses
  of the firmware's messages and the rounds of the work item alternate, a round gets the newest
  (at most 32) pulses put in since the round before, in the order in which they came.
\<close>

theorem ring_keeps_newest:
  assumes "length (rp_buffer r) = 32" and "rp_index r < 32" and "rp_count r = 0"
  shows "fst (ring_take (fold ring_put xs r)) = newest 32 xs \<and>
    fst (ring_take (fold ring_put ys (snd (ring_take (fold ring_put xs r))))) = newest 32 ys"
proof -
  have r: "ring_rep r []" using assms by (simp add: ring_rep_def)
  from ring_take_rep[OF ring_puts_rep[OF r, of xs]]
  have 1: "fst (ring_take (fold ring_put xs r)) = newest 32 xs" "ring_rep (snd (ring_take (fold ring_put xs r))) []"
    by simp_all
  from ring_take_rep[OF ring_puts_rep[OF 1(2), of ys]] 1(1) show ?thesis by simp
qed

lemma ring_keeps_newest_witness:
  "fst (ring_take (fold ring_put (map of_nat [0..<40]) \<lparr>rp_index = 30, rp_count = 0, rp_buffer = replicate 32 0\<rparr>)) =
     map of_nat [8..<40]"
  using ring_keeps_newest[of "\<lparr>rp_index = 30, rp_count = 0, rp_buffer = replicate 32 0\<rparr>" "map of_nat [0..<40]"]
  by (simp add: newest_def drop_map)

section \<open>Channel contexts\<close>

text \<open>Interfaces join a context only when they are in none, and leave it.\<close>

inductive ctx_reach :: "radar_hw \<Rightarrow> bool" where
  start: "length (chanctx_table H) = NX_CHAN_CTXT_CNT \<Longrightarrow> \<forall>c \<in> set (chanctx_table H). ctx_count c = 0 \<and> ctx_chan c = None \<Longrightarrow>
    \<forall>v \<in> set (rvifs H). ch_index v = RWNX_CH_NOT_SET \<Longrightarrow> ctx_reach H"
| link: "ctx_reach H \<Longrightarrow> v < length (rvifs H) \<Longrightarrow> ch_index (rvifs H ! v) = RWNX_CH_NOT_SET \<Longrightarrow>
    ctx_reach (rwnx_chanctx_link H v i d)"
| unlink: "ctx_reach H \<Longrightarrow> v < length (rvifs H) \<Longrightarrow> rwnx_chanctx_unlink H v = Some H' \<Longrightarrow> ctx_reach H'"
| switch: "ctx_reach H \<Longrightarrow> ctx_reach (H\<lparr>cur_chanctx := c\<rparr>)"

definition users :: "radar_hw \<Rightarrow> nat \<Rightarrow> nat" where
  "users H i = length (filter (\<lambda>v. ch_index v = i) (rvifs H))"

definition ctx_ok :: "radar_hw \<Rightarrow> bool" where
  "ctx_ok H \<longleftrightarrow> length (chanctx_table H) = 3 \<and> (\<forall>v \<in> set (rvifs H). ch_index v < 3 \<or> ch_index v = RWNX_CH_NOT_SET) \<and>
     (\<forall>i < 3. ctx_count (chanctx_table H ! i) = users H i \<and> (users H i = 0 \<longrightarrow> ctx_chan (chanctx_table H ! i) = None))"

lemma filter_update:
  assumes "v < length xs"
  shows "length (filter P (xs[v := y])) + (if P (xs ! v) then 1 else 0) = length (filter P xs) + (if P y then 1 else 0)"
proof -
  have "xs = take v xs @ xs ! v # drop (Suc v) xs" using assms by (rule id_take_nth_drop)
  then have "length (filter P xs) = length (filter P (take v xs @ xs ! v # drop (Suc v) xs))" by simp
  then show ?thesis using assms by (simp add: upd_conv_take_nth_drop)
qed

lemma users_update:
  assumes "v < length (rvifs H)"
  shows "length (filter (\<lambda>w. ch_index w = i) ((rvifs H)[v := (rvifs H ! v)\<lparr>ch_index := j\<rparr>])) +
      (if ch_index (rvifs H ! v) = i then 1 else 0) = users H i + (if j = i then 1 else 0)"
  using filter_update[OF assms, of "\<lambda>w. ch_index w = i" "(rvifs H ! v)\<lparr>ch_index := j\<rparr>"] by (simp add: users_def)

lemma link_ok:
  assumes ok: "ctx_ok H" and v: "v < length (rvifs H)" and free: "ch_index (rvifs H ! v) = RWNX_CH_NOT_SET"
  shows "ctx_ok (rwnx_chanctx_link H v i d)"
proof (cases "i \<ge> 3")
  case True
  then show ?thesis using ok by (simp add: rwnx_chanctx_link_def NX_CHAN_CTXT_CNT_def)
next
  case False
  let ?H = "rwnx_chanctx_link H v i d"
  have rv: "rvifs ?H = (rvifs H)[v := (rvifs H ! v)\<lparr>ch_index := i\<rparr>]"
    using False by (simp add: rwnx_chanctx_link_def NX_CHAN_CTXT_CNT_def Let_def)
  have u: "users ?H j = (if j = i then users H j + 1 else users H j)" if "j < 3" for j
    using users_update[OF v, of j i] free that by (simp add: users_def rv RWNX_CH_NOT_SET_def)
  have t: "length (chanctx_table ?H) = 3" "\<And>j. j < 3 \<Longrightarrow> j \<noteq> i \<Longrightarrow> chanctx_table ?H ! j = chanctx_table H ! j"
    "ctx_count (chanctx_table ?H ! i) = ctx_count (chanctx_table H ! i) + 1"
    using ok False by (auto simp: ctx_ok_def rwnx_chanctx_link_def NX_CHAN_CTXT_CNT_def Let_def split: option.split)
  have r: "\<forall>w \<in> set (rvifs ?H). ch_index w < 3 \<or> ch_index w = RWNX_CH_NOT_SET"
    using ok False unfolding rv ctx_ok_def by (auto dest: set_update_subset_insert[THEN subsetD])
  show ?thesis unfolding ctx_ok_def
  proof (intro conjI allI impI)
    fix j :: nat assume j: "j < 3"
    show "ctx_count (chanctx_table ?H ! j) = users ?H j"
      using u[OF j] t j ok by (cases "j = i") (simp_all add: ctx_ok_def)
    assume "users ?H j = 0"
    then show "ctx_chan (chanctx_table ?H ! j) = None" using u[OF j] t(2)[OF j] j ok
      by (cases "j = i") (simp_all add: ctx_ok_def)
  qed (use t r in auto)
qed

lemma unlink_ok:
  assumes ok: "ctx_ok H" and v: "v < length (rvifs H)" and u: "rwnx_chanctx_unlink H v = Some H'"
  shows "ctx_ok H'"
proof (cases "ch_index (rvifs H ! v) = RWNX_CH_NOT_SET")
  case True
  then show ?thesis using ok u by (simp add: rwnx_chanctx_unlink_def)
next
  case False
  define i where "i = ch_index (rvifs H ! v)"
  have i: "i < 3" "i \<noteq> RWNX_CH_NOT_SET" using ok v False nth_mem[OF v] unfolding ctx_ok_def i_def by blast+
  have rv: "rvifs H' = (rvifs H)[v := (rvifs H ! v)\<lparr>ch_index := RWNX_CH_NOT_SET\<rparr>]"
    using u i ok by (auto simp: rwnx_chanctx_unlink_def i_def[symmetric] Let_def rwnx_radar_detection_enable_def ctx_ok_def
        split: if_splits)
  have us: "users H i > 0" using v nth_mem[OF v] by (auto simp: users_def i_def filter_empty_conv)
  have uu: "users H' j = (if j = i then users H j - 1 else users H j)" if "j < 3" for j
    using users_update[OF v, of j RWNX_CH_NOT_SET] that i by (auto simp: users_def rv i_def[symmetric] RWNX_CH_NOT_SET_def)
  have t: "length (chanctx_table H') = 3" "\<And>j. j < 3 \<Longrightarrow> j \<noteq> i \<Longrightarrow> chanctx_table H' ! j = chanctx_table H ! j"
    "ctx_count (chanctx_table H' ! i) = users H i - 1"
    "users H i = 1 \<Longrightarrow> ctx_chan (chanctx_table H' ! i) = None"
    using u i us ok
    by (auto simp: rwnx_chanctx_unlink_def i_def[symmetric] Let_def rwnx_radar_detection_enable_def ctx_ok_def
        split: if_splits)
  have r: "\<forall>w \<in> set (rvifs H'). ch_index w < 3 \<or> ch_index w = RWNX_CH_NOT_SET"
    using ok unfolding rv ctx_ok_def by (auto dest: set_update_subset_insert[THEN subsetD])
  show ?thesis unfolding ctx_ok_def
  proof (intro conjI allI impI)
    fix j :: nat assume j: "j < 3"
    show "ctx_count (chanctx_table H' ! j) = users H' j"
      using uu[OF j] t j ok by (cases "j = i") (simp_all add: ctx_ok_def)
    assume "users H' j = 0"
    then show "ctx_chan (chanctx_table H' ! j) = None" using uu[OF j] t(2)[OF j] t(4) j ok us
      by (cases "j = i") (auto simp: ctx_ok_def)
  qed (use t r in auto)
qed

lemma ctx_reach_ok: "ctx_reach H \<Longrightarrow> ctx_ok H"
proof (induction rule: ctx_reach.induct)
  case (start H)
  have "users H i = 0" if "i < 3" for i
    using start(3) that by (auto simp: users_def filter_empty_conv RWNX_CH_NOT_SET_def)
  then show ?case using start by (auto simp: ctx_ok_def NX_CHAN_CTXT_CNT_def)
next
  case (link H v i d) then show ?case using link_ok by blast
next
  case (unlink H v H') then show ?case using unlink_ok by blast
next
  case (switch H c) then show ?case by (simp add: ctx_ok_def users_def)
qed


definition demo_pulses :: rwnx_radar_pulses where
  "demo_pulses = \<lparr>rp_index = 0, rp_count = 0, rp_buffer = replicate 32 0\<rparr>"

definition demo_hw :: radar_hw where
  "demo_hw = \<lparr>ring = (\<lambda>_. demo_pulses), dpd_of = (\<lambda>_. demo_dpd),
     detected = (\<lambda>_. \<lparr>rd_index = 0, rd_count = 0, rd_time = replicate 4 0, rd_freq = replicate 4 0\<rparr>),
     status = RADAR_IDLE, sta_num = 0, work_queued = False, cac_vif = None, cac_timer = False,
     chanctx_table = replicate 3 \<lparr>ctx_count = 0, ctx_chan = None\<rparr>, rvifs = replicate 2 \<lparr>ch_index = 255\<rparr>,
     cur_chanctx = 1, sec_freq1 = 5600\<rparr>"

definition demo_chan :: chan_def where
  "demo_chan = \<lparr>cd_freq1 = 5500, cd_radar = True\<rparr>"



section \<open>The availability check\<close>

text \<open>
  When the firmware refuses to start the availability check, the call returns the error but
  leaves the timer armed for an interface that has no channel context: the work item, or an
  attempt to cancel it, then reads the context table far outside its three entries.
\<close>

theorem cac_refused_faults:
  assumes "length (chanctx_table H) = NX_CHAN_CTXT_CNT" and "ch_index (rvifs H ! v) = RWNX_CH_NOT_SET"
  shows "\<exists>H'. rwnx_cfg80211_start_radar_detection ir v d None H = (-5, H') \<and> cac_timer H' \<and>
    rwnx_radar_cac_work ir H' = None \<and> rwnx_radar_cancel_cac ir H' = None"
  using assms
  by (simp add: rwnx_cfg80211_start_radar_detection_def rwnx_radar_start_cac_def rwnx_send_apm_start_cac_req_def
      rwnx_radar_cac_work_def rwnx_radar_cancel_cac_def vif_ctx_def NX_CHAN_CTXT_CNT_def RWNX_CH_NOT_SET_def)

lemma cac_refused_faults_witness:
  "\<exists>H'. rwnx_cfg80211_start_radar_detection True 0 demo_chan None demo_hw = (-5, H') \<and> rwnx_radar_cac_work True H' = None"
proof -
  have "length (chanctx_table demo_hw) = NX_CHAN_CTXT_CNT" "ch_index (rvifs demo_hw ! 0) = RWNX_CH_NOT_SET" by code_simp+
  from cac_refused_faults[OF this, of True demo_chan] show ?thesis by blast
qed

text \<open>
  A check that has been started ends once. With the timer armed for an interface in a channel
  context, both the work item and a cancellation (but only the first of the two) tell the stack,
  ask the firmware to stop, and take the interface out of its context; a second call does nothing.
\<close>

theorem cac_ends_once:
  assumes "ctx_reach H" and "cac_vif H = Some v" and "cac_timer H" and "v < length (rvifs H)"
    and "ch_index (rvifs H ! v) < NX_CHAN_CTXT_CNT"
  shows "\<exists>H1 H2. rwnx_radar_cac_work ir H =
        Some (H1, [CacFinished v (ctx_chan (chanctx_table H ! ch_index (rvifs H ! v))), StopCac v]) \<and>
      rwnx_radar_cancel_cac ir H =
        Some (H2, [StopCac v, CacAborted v (ctx_chan (chanctx_table H ! ch_index (rvifs H ! v)))]) \<and>
      rwnx_radar_cancel_cac ir H1 = Some (H1, []) \<and> rwnx_radar_cac_work ir H1 = Some (H1, []) \<and>
      rwnx_radar_cancel_cac ir H2 = Some (H2, []) \<and> rwnx_radar_cac_work ir H2 = Some (H2, []) \<and>
      ch_index (rvifs H1 ! v) = RWNX_CH_NOT_SET \<and> ch_index (rvifs H2 ! v) = RWNX_CH_NOT_SET"
proof -
  have l: "length (chanctx_table H) = 3" using ctx_reach_ok[OF assms(1)] by (simp add: ctx_ok_def)
  have i: "ch_index (rvifs H ! v) < 3" "ch_index (rvifs H ! v) \<noteq> RWNX_CH_NOT_SET"
    using assms(5) by (simp_all add: NX_CHAN_CTXT_CNT_def RWNX_CH_NOT_SET_def)
  let ?G = "rwnx_send_apm_stop_cac_req ir (H\<lparr>cac_timer := False\<rparr>)"
  have g: "rvifs ?G = rvifs H" "chanctx_table ?G = chanctx_table H" "cac_timer ?G = False"
    by (simp_all add: rwnx_send_apm_stop_cac_req_def)
  have "\<exists>G'. rwnx_chanctx_unlink ?G v = Some G' \<and> cac_timer G' = False \<and> ch_index (rvifs G' ! v) = RWNX_CH_NOT_SET"
    using i l assms(4) g by (auto simp: rwnx_chanctx_unlink_def Let_def rwnx_radar_detection_enable_def)
  then obtain G' where G: "rwnx_chanctx_unlink ?G v = Some G'" "\<not> cac_timer G'" "ch_index (rvifs G' ! v) = RWNX_CH_NOT_SET"
    by auto
  let ?R = "G'\<lparr>cac_vif := None\<rparr>"
  have c: "vif_ctx (H\<lparr>cac_timer := False\<rparr>) v = Some (chanctx_table H ! ch_index (rvifs H ! v))"
    "vif_ctx H v = Some (chanctx_table H ! ch_index (rvifs H ! v))" using i l by (simp_all add: vif_ctx_def)
  have again: "rwnx_radar_cancel_cac ir ?R = Some (?R, [])" "rwnx_radar_cac_work ir ?R = Some (?R, [])"
    using G(2) by (simp_all add: rwnx_radar_cancel_cac_def rwnx_radar_cac_work_def)
  show ?thesis
    using assms(2,3) c G again
    by (intro exI[of _ ?R]) (simp add: rwnx_radar_cac_work_def rwnx_radar_cancel_cac_def)
qed

definition demo_cac :: radar_hw where
  "demo_cac = (rwnx_chanctx_link demo_hw 0 1 (Some demo_chan))\<lparr>cac_vif := Some 0, cac_timer := True\<rparr>"

lemma cac_ends_once_witness:
  "\<exists>H1. rwnx_radar_cac_work True demo_cac = Some (H1, [CacFinished 0 (Some demo_chan), StopCac 0]) \<and>
     rwnx_radar_cancel_cac True H1 = Some (H1, [])"
proof -
  have "ctx_reach (rwnx_chanctx_link (demo_hw\<lparr>cac_vif := Some 0, cac_timer := True\<rparr>) 0 1 (Some demo_chan))"
    by (rule ctx_reach.link[OF ctx_reach.start]) (simp_all add: demo_hw_def NX_CHAN_CTXT_CNT_def RWNX_CH_NOT_SET_def)
  also have "rwnx_chanctx_link (demo_hw\<lparr>cac_vif := Some 0, cac_timer := True\<rparr>) 0 1 (Some demo_chan) = demo_cac"
    by (simp add: demo_cac_def rwnx_chanctx_link_def NX_CHAN_CTXT_CNT_def demo_hw_def Let_def)
  finally have r: "ctx_reach demo_cac" .
  have e: "cac_vif demo_cac = Some 0" "cac_timer demo_cac" "0 < length (rvifs demo_cac)"
    "ch_index (rvifs demo_cac ! 0) < NX_CHAN_CTXT_CNT"
    "ctx_chan (chanctx_table demo_cac ! ch_index (rvifs demo_cac ! 0)) = Some demo_chan" by code_simp+
  from cac_ends_once[OF r e(1-4), of True] e(5) show ?thesis by auto
qed

section \<open>Reports\<close>

lemma type_loop_enabled: "type_loop E freq len i m dpd = Some (b, dpd') \<Longrightarrow> dfs_enabled dpd' = dfs_enabled dpd"
proof (induction m arbitrary: i dpd)
  case (Suc m)
  have r: "dfs_enabled (dfs_pattern_detector_reset E d) = dfs_enabled d" for d
    by (simp add: dfs_pattern_detector_reset_def)
  from Suc.prems show ?case
    by (auto simp: Let_def r dest!: Suc.IH split: if_splits option.splits prod.splits)
qed simp

lemma add_pulse_enabled:
  "dfs_pattern_detector_add_pulse E dpd freq pri len now = Some (b, dpd') \<Longrightarrow> dfs_enabled dpd' = dfs_enabled dpd"
  by (auto simp: dfs_pattern_detector_add_pulse_def pulse_time_def Let_def dfs_pattern_detector_pri_overflow_def
      dest!: type_loop_enabled split: if_splits)

definition reports :: "radar_out list \<Rightarrow> chan_def list" where
  "reports out = List.map_filter (\<lambda>x. case x of RadarEvent d \<Rightarrow> Some d | _ \<Rightarrow> None) out"

lemma reports_simps [simp]:
  "reports [] = []" "reports (xs @ ys) = reports xs @ reports ys" "reports [RadarEvent d] = [d]"
  "reports [StopCac v, CacAborted v c] = []"
  by (simp_all add: reports_def map_filter_def)

lemma cancel_reports: "rwnx_radar_cancel_cac ir H = Some (H', out) \<Longrightarrow> reports out = []"
  by (auto simp: rwnx_radar_cancel_cac_def bind_eq_Some_conv split: option.splits if_splits)

lemma found_reports:
  assumes "pulse_found ir secs freq ch H = Some (H', out)"
  shows "(reports out = [] \<and> (ch = FCU \<or> dfs_enabled (dpd_of H RIU) \<noteq> 2 \<or> \<not> rwnx_chanctx_valid H (cur_chanctx H))) \<or>
    (ch = RIU \<and> dfs_enabled (dpd_of H RIU) = 2 \<and> length (reports out) = 1 \<and> dfs_enabled (dpd_of H' RIU) = 0 \<and> rp_count (ring H' RIU) = 0)"
proof (cases "ch = RIU \<and> dfs_enabled (dpd_of H RIU) = 2")
  case True
  then obtain H1 where d: "rwnx_radar_detected ir H = Some (H1, out)"
    and H': "dfs_enabled (dpd_of H' RIU) = 0" "rp_count (ring H' RIU) = 0"
    using assms by (auto simp: pulse_found_def bind_eq_Some_conv Let_def rwnx_radar_detection_enable_def split: if_splits)
  show ?thesis
  proof (cases "rwnx_chanctx_valid H (cur_chanctx H)")
    case valid: True
    then obtain c where c: "ctx_chan (chanctx_table H ! cur_chanctx H) = Some c"
      by (auto simp: rwnx_chanctx_valid_def)
    then obtain out' where "rwnx_radar_cancel_cac ir H = Some (H1, out')" "out = out' @ [RadarEvent c]"
      using d valid by (auto simp: rwnx_radar_detected_def bind_eq_Some_conv)
    then have "reports out = [c]" using cancel_reports by simp
    then show ?thesis using True H' by simp
  next
    case False
    then show ?thesis using d by (simp add: rwnx_radar_detected_def)
  qed
next
  case False
  then have "out = []" using assms by (auto simp: pulse_found_def bind_eq_Some_conv split: if_splits)
  then show ?thesis using False by (cases ch) auto
qed

lemma loop_reports:
  "pulse_loop ir E secs now freq ch k ps H = Some (H', out) \<Longrightarrow>
   reports out = [] \<or> (ch = RIU \<and> dfs_enabled (dpd_of H RIU) = 2 \<and> length (reports out) = 1 \<and>
     dfs_enabled (dpd_of H' RIU) = 0 \<and> rp_count (ring H' RIU) = 0)"
proof (induction ps arbitrary: k H)
  case (Cons p ps)
  show ?case
  proof (cases "status H \<noteq> RADAR_CAC_BUSY \<and> status H \<noteq> RADAR_INSERVICE_BUSY")
    case True
    then have "out = []" using Cons.prems by auto
    then show ?thesis by simp
  next
    case False
    obtain b d where a: "dfs_pattern_detector_add_pulse ((E k)\<lparr>cac_busy := (status H = RADAR_CAC_BUSY)\<rparr>) (dpd_of H ch)
        (w16 (s16 freq + 2 * p_freq p)) (p_rep p) (p_len p * 2) now = Some (b, d)"
      using Cons.prems False by (auto split: option.splits)
    let ?H = "H\<lparr>dpd_of := (dpd_of H)(ch := d)\<rparr>"
    have en: "dfs_enabled (dpd_of ?H RIU) = dfs_enabled (dpd_of H RIU)" using add_pulse_enabled[OF a] by simp
    show ?thesis
    proof (cases b)
      case True
      then have "pulse_found ir secs (s16 (s16 freq + 2 * p_freq p)) ch ?H = Some (H', out)"
        using Cons.prems False a by (auto simp: Let_def)
      from found_reports[OF this] en show ?thesis by auto
    next
      case notb: False
      then have "pulse_loop ir E secs now freq ch (Suc k) ps ?H = Some (H', out)"
        using Cons.prems False a by (auto simp: Let_def)
      from Cons.IH[OF this] en show ?thesis by auto
    qed
  qed
qed simp

lemma found_fcu:
  "pulse_found ir secs freq FCU H = Some (H', out) \<Longrightarrow> dpd_of H' RIU = dpd_of H RIU \<and> ring H' = ring H"
  by (auto simp: pulse_found_def)

lemma loop_fcu:
  "pulse_loop ir E secs now freq FCU k ps H = Some (H', out) \<Longrightarrow> dpd_of H' RIU = dpd_of H RIU \<and> ring H' = ring H"
proof (induction ps arbitrary: k H)
  case (Cons p ps)
  from Cons.prems show ?case
    by (auto simp: Let_def dest!: found_fcu Cons.IH split: if_splits option.splits prod.splits)
qed simp

text \<open>
  C25: One round of the work item reports at most one radar, and only when reports were enabled for
  the operating chain. After a report, detection is disabled and the ring is empty, so nothing is
  reported again until detection is enabled anew.
\<close>

theorem radar_reported_once:
  assumes "rwnx_radar_process_pulse ir E secs now H = Some (H', out)"
  shows "reports out = [] \<or> (length (reports out) = 1 \<and> dfs_enabled (dpd_of H RIU) = enable_code DETECT_REPORT \<and>
    dfs_enabled (dpd_of H' RIU) = enable_code DETECT_DISABLE \<and> rp_count (ring H' RIU) = 0 \<and>
    (\<forall>E2 secs2 now2 H2 out2. rwnx_radar_process_pulse ir E2 secs2 now2 H' = Some (H2, out2) \<longrightarrow> reports out2 = []))"
proof -
  have one: "reports out = [] \<or> (length (reports out) = 1 \<and> dfs_enabled (dpd_of H RIU) = 2 \<and>
    dfs_enabled (dpd_of H' RIU) = 0 \<and> rp_count (ring H' RIU) = 0)"
    if p: "rwnx_radar_process_pulse ir E secs now H = Some (H', out)" for E secs now H H' out
  proof -
    obtain ps1 r1 where t1: "ring_take (ring H RIU) = (ps1, r1)" by fastforce
    obtain ps2 r2 where t2: "ring_take (ring H FCU) = (ps2, r2)" by fastforce
    let ?H = "H\<lparr>work_queued := False, ring := (ring H)(RIU := r1, FCU := r2)\<rparr>"
    obtain H1 o1 o2 f1 f2 where l: "pulse_loop ir (E RIU) secs now f1 RIU 0 ps1 ?H = Some (H1, o1)"
      "pulse_loop ir (E FCU) secs now f2 FCU 0 ps2 H1 = Some (H', o2)" "out = o1 @ o2"
      using p by (auto simp: rwnx_radar_process_pulse_def t1 t2 Let_def bind_eq_Some_conv)
    have "reports o2 = []" using loop_reports[OF l(2)] by auto
    then show ?thesis using loop_reports[OF l(1)] loop_fcu[OF l(2)] l(3) by auto
  qed
  have quiet: "reports out2 = []" if "dfs_enabled (dpd_of H' RIU) = 0"
    "rwnx_radar_process_pulse ir E2 secs2 now2 H' = Some (H2, out2)" for E2 secs2 now2 H2 out2
    using one[OF that(2)] that(1) by auto
  show ?thesis using one[OF assms] quiet by auto
qed

text \<open>Pulses of 4 us, 333 us apart, on a channel that is being checked: four were seen, the fifth waits.\<close>

definition demo_word :: u32 where "demo_word = push_bit 16 333 OR push_bit 10 2"

definition demo_dpd4 :: dfs_pattern_detector where
  "demo_dpd4 = snd (the (dfs_run (replicate 4 (demo_dfs_env, 5500, 333, 4, 100)) (demo_dpd\<lparr>dfs_enabled := 2\<rparr>)))"

definition demo_ring :: rwnx_radar_pulses where
  "demo_ring = \<lparr>rp_index = 1, rp_count = 1, rp_buffer = [demo_word] @ replicate 31 0\<rparr>"

definition demo_busy :: radar_hw where
  "demo_busy = demo_cac\<lparr>status := RADAR_CAC_BUSY, dpd_of := (dpd_of demo_cac)(RIU := demo_dpd4),
      ring := (\<lambda>_. demo_pulses)(RIU := demo_ring)\<rparr>"

lemma demo_dpd4_enabled: "dfs_enabled demo_dpd4 = 2"
proof -
  have "map_option (\<lambda>(b, d). dfs_enabled d) (dfs_run (replicate 4 (demo_dfs_env, 5500, 333, 4, 100)) (demo_dpd\<lparr>dfs_enabled := 2\<rparr>))
      = Some 2" by code_simp
  then show ?thesis by (auto simp: demo_dpd4_def)
qed

lemma demo_word_sel: "p_freq demo_word = 0" "p_rep demo_word = 333" "p_len demo_word = 2"
  by (simp_all add: p_freq_def p_rep_def p_len_def demo_word_def)

lemma demo_ring_take:
  "ring_take (ring demo_busy RIU) = ([demo_word], demo_ring\<lparr>rp_count := 0\<rparr>)"
  "ring_take (ring demo_busy FCU) = ([], demo_pulses)"
  by (simp_all add: ring_take_def demo_busy_def demo_ring_def demo_pulses_def RWNX_RADAR_PULSE_MAX_def)

lemma demo_busy_sel:
  "status demo_busy = RADAR_CAC_BUSY" "dpd_of demo_busy RIU = demo_dpd4" "dfs_enabled demo_dpd4 = 2"
  "cur_chanctx demo_busy = 1" "ctx_chan (chanctx_table demo_busy ! 1) = Some demo_chan"
  "chanctx_table demo_busy ! 1 = \<lparr>ctx_count = 1, ctx_chan = Some demo_chan\<rparr>"
  "cac_vif demo_busy = Some 0" "cac_timer demo_busy" "ch_index (rvifs demo_busy ! 0) = 1" "length (chanctx_table demo_busy) = 3"
  by (simp_all add: demo_busy_def demo_cac_def demo_dpd4_enabled rwnx_chanctx_link_def NX_CHAN_CTXT_CNT_def demo_hw_def)

lemma radar_reported_once_witness:
  "\<exists>H' out. rwnx_radar_process_pulse True (\<lambda>_ _. demo_dfs_env) 0 100 demo_busy = Some (H', out) \<and>
     reports out = [demo_chan] \<and> dfs_enabled (dpd_of H' RIU) = 0"
proof -
  have f: "w16 (s16 (w16 (cd_freq1 demo_chan))) = 5500" by code_simp
  have "map_option fst (dfs_pattern_detector_add_pulse demo_dfs_env demo_dpd4 5500 333 4 100) = Some True" by code_simp
  then obtain d where d: "dfs_pattern_detector_add_pulse demo_dfs_env demo_dpd4 5500 333 4 100 = Some (True, d)"
    by (auto simp: map_option_case split: option.splits)
  have env: "demo_dfs_env\<lparr>cac_busy := True\<rparr> = demo_dfs_env" by (simp add: demo_dfs_env_def)
  have "dfs_enabled d = 2" using add_pulse_enabled[OF d] by (simp add: demo_busy_sel)
  let ?H = "demo_busy\<lparr>work_queued := False, ring := (ring demo_busy)(RIU := demo_ring\<lparr>rp_count := 0\<rparr>, FCU := demo_pulses)\<rparr>"
  note sel = demo_busy_sel[unfolded One_nat_def] demo_word_sel
  have c: "rwnx_radar_get_center_freq ?H RIU = w16 (cd_freq1 demo_chan)"
    by (simp add: rwnx_radar_get_center_freq_def rwnx_chanctx_valid_def NX_CHAN_CTXT_CNT_def sel)
  have pf: "\<exists>H' out. pulse_found True 0 x RIU (?H\<lparr>dpd_of := (dpd_of ?H)(RIU := d)\<rparr>) = Some (H', out) \<and>
      reports out = [demo_chan]" for x
    using \<open>dfs_enabled d = 2\<close>
    by (simp add: pulse_found_def rwnx_radar_detected_def rwnx_chanctx_valid_def NX_CHAN_CTXT_CNT_def sel
        rwnx_radar_cancel_cac_def vif_ctx_def rwnx_send_apm_stop_cac_req_def rwnx_chanctx_unlink_def RWNX_CH_NOT_SET_def
        rwnx_radar_detection_enable_def Let_def reports_def List.map_filter_simps)
  have pl: "pulse_loop True (\<lambda>_. demo_dfs_env) 0 100 (w16 (cd_freq1 demo_chan)) RIU 0 [demo_word] ?H =
      pulse_found True 0 (s16 (s16 (w16 (cd_freq1 demo_chan)))) RIU (?H\<lparr>dpd_of := (dpd_of ?H)(RIU := d)\<rparr>)"
    using d f by (simp add: sel env Let_def)
  have "\<exists>H' out. rwnx_radar_process_pulse True (\<lambda>_ _. demo_dfs_env) 0 100 demo_busy = Some (H', out) \<and>
      reports out = [demo_chan]"
    unfolding rwnx_radar_process_pulse_def demo_ring_take Let_def prod.case c pl using pf[of "s16 (s16 (w16 (cd_freq1 demo_chan)))"]
    by (auto simp: bind_eq_Some_conv)
  then obtain H' out where p: "rwnx_radar_process_pulse True (\<lambda>_ _. demo_dfs_env) 0 100 demo_busy = Some (H', out)"
    "reports out = [demo_chan]" by blast
  from radar_reported_once[OF p(1)] p show ?thesis by auto
qed

section \<open>The build of this package\<close>

text \<open>
  What the driver does when it is built without \<^verbatim>\<open>CONFIG_RADAR_OR_IR_DETECT\<close>, as its Makefile says.
\<close>

inductive plain_reach :: "radar_hw \<Rightarrow> bool" where
  init: "rwnx_radar_detection_init E m1 m2 H0 = Some H \<Longrightarrow> plain_reach H"
| pulses: "plain_reach H \<Longrightarrow> rwnx_radar_detect_ind ps i n H = Some (r, H') \<Longrightarrow> plain_reach H'"
| work: "plain_reach H \<Longrightarrow> rwnx_radar_process_pulse False E secs now H = Some (H', out) \<Longrightarrow> plain_reach H'"
| cac: "plain_reach H \<Longrightarrow> rwnx_cfg80211_start_radar_detection False v c cfm H = (r, H') \<Longrightarrow> plain_reach H'"
| cac_work: "plain_reach H \<Longrightarrow> rwnx_radar_cac_work False H = Some (H', out) \<Longrightarrow> plain_reach H'"
| cancel: "plain_reach H \<Longrightarrow> rwnx_radar_cancel_cac False H = Some (H', out) \<Longrightarrow> plain_reach H'"
| enable: "plain_reach H \<Longrightarrow> plain_reach (rwnx_radar_detection_enable_on_cur_channel H)"
| domain: "plain_reach H \<Longrightarrow> rwnx_radar_set_domain rg H = (b, H') \<Longrightarrow> plain_reach H'"
| sta: "plain_reach H \<Longrightarrow> plain_reach (rwnx_send_me_sta_add False H)"
| link: "plain_reach H \<Longrightarrow> plain_reach (rwnx_chanctx_link H v i d)"
| unlink: "plain_reach H \<Longrightarrow> rwnx_chanctx_unlink H v = Some H' \<Longrightarrow> plain_reach H'"
| switch: "plain_reach H \<Longrightarrow> plain_reach (H\<lparr>cur_chanctx := c\<rparr>)"

lemma status_simps [simp]:
  "status (rwnx_radar_detection_enable H en ch) = status H" "status (rwnx_chanctx_link H v i d) = status H"
  "status (rwnx_radar_detection_enable_on_cur_channel H) = status H"
  "status (rwnx_send_apm_stop_cac_req False H) = status H" "status (rwnx_send_apm_start_cac_req False H) = status H"
  "status (rwnx_send_me_sta_add False H) = status H" "status (rwnx_radar_start_cac v H) = status H"
  by (auto simp: rwnx_radar_detection_enable_def rwnx_chanctx_link_def rwnx_radar_detection_enable_on_cur_channel_def
      rwnx_send_apm_stop_cac_req_def rwnx_send_apm_start_cac_req_def rwnx_send_me_sta_add_def rwnx_radar_start_cac_def
      Let_def split: option.split)

lemma unlink_status: "rwnx_chanctx_unlink H v = Some H' \<Longrightarrow> status H' = status H"
  by (auto simp: rwnx_chanctx_unlink_def Let_def split: if_splits)

lemma loop_idle:
  assumes "status H = RADAR_IDLE"
  shows "pulse_loop ir E secs now freq ch k ps H = Some (H, [])"
  using assms by (cases ps) simp_all

lemma process_idle:
  assumes "status H = RADAR_IDLE"
  shows "\<exists>H'. rwnx_radar_process_pulse ir E secs now H = Some (H', []) \<and> dpd_of H' = dpd_of H \<and> status H' = RADAR_IDLE"
  using assms by (auto simp: rwnx_radar_process_pulse_def Let_def loop_idle split: prod.split)

lemma plain_idle: "plain_reach H \<Longrightarrow> status H = RADAR_IDLE"
proof (induction rule: plain_reach.induct)
  case (init E m1 m2 H0 H)
  then show ?case by (auto simp: rwnx_radar_detection_init_def bind_eq_Some_conv)
next
  case (pulses H ps i n r H')
  then show ?case by (auto simp: rwnx_radar_detect_ind_def Let_def split: if_splits)
next
  case (work H E secs now H' out)
  then show ?case using process_idle[of H False E secs now] by auto
next
  case (cac H v c cfm r H')
  then show ?case by (auto simp: rwnx_cfg80211_start_radar_detection_def Let_def split: option.splits if_splits)
next
  case (cac_work H H' out)
  then show ?case
    by (auto simp: rwnx_radar_cac_work_def Let_def bind_eq_Some_conv dest!: unlink_status split: option.splits)
next
  case (cancel H H' out)
  then show ?case
    by (auto simp: rwnx_radar_cancel_cac_def bind_eq_Some_conv dest!: unlink_status split: option.splits if_splits)
next
  case (domain H rg b H')
  then show ?case by (auto simp: rwnx_radar_set_domain_def Let_def split: prod.splits if_splits)
qed (auto dest: unlink_status)

text \<open>
  As this package builds the driver, with radar detection but without
  \<^verbatim>\<open>CONFIG_RADAR_OR_IR_DETECT\<close>, the radar status never leaves idle: whatever the firmware sends and
  whatever check is started, the work item drops every pulse before it reaches a pattern detector
  and no radar is ever reported.
\<close>

theorem plain_build_reports_nothing:
  assumes "plain_reach H"
  shows "\<exists>H'. rwnx_radar_process_pulse False E secs now H = Some (H', []) \<and> dpd_of H' = dpd_of H \<and>
    plain_reach H'"
proof -
  from process_idle[OF plain_idle[OF assms], of False E secs now] obtain H' where
    p: "rwnx_radar_process_pulse False E secs now H = Some (H', [])" "dpd_of H' = dpd_of H" by blast
  from plain_reach.work[OF assms p(1)] p show ?thesis by blast
qed

definition demo_plain :: radar_hw where
  "demo_plain = snd (the (rwnx_radar_detect_ind (replicate 4 demo_word) 0 4
     (rwnx_radar_detection_enable_on_cur_channel (snd (rwnx_cfg80211_start_radar_detection False 0 demo_chan (Some 1)
       (the (rwnx_radar_detection_init demo_dfs_env True True demo_hw)))))))"

lemma plain_build_reports_nothing_witness:
  "\<exists>H'. rwnx_radar_process_pulse False (\<lambda>_ _. demo_dfs_env) 0 100 demo_plain = Some (H', []) \<and>
     rp_count (ring demo_plain RIU) = 4 \<and> dpd_of H' = dpd_of demo_plain"
proof -
  let ?H0 = "the (rwnx_radar_detection_init demo_dfs_env True True demo_hw)"
  let ?s = "rwnx_cfg80211_start_radar_detection False 0 demo_chan (Some 1) ?H0"
  let ?e = "rwnx_radar_detection_enable_on_cur_channel (snd ?s)"
  have e: "map_option status (rwnx_radar_detection_init demo_dfs_env True True demo_hw) = Some RADAR_IDLE"
    "map_option (\<lambda>(r, H). rp_count (ring H RIU)) (rwnx_radar_detect_ind (replicate 4 demo_word) 0 4 ?e) = Some 4"
    by code_simp+
  then have "rwnx_radar_detection_init demo_dfs_env True True demo_hw = Some ?H0" by auto
  then have "plain_reach ?H0" by (rule plain_reach.init)
  then have "plain_reach (snd ?s)" using plain_reach.cac surjective_pairing by metis
  then have r: "plain_reach ?e" by (rule plain_reach.enable)
  obtain r' H1 where d: "rwnx_radar_detect_ind (replicate 4 demo_word) 0 4 ?e = Some (r', H1)" "rp_count (ring H1 RIU) = 4"
    using e(2) by auto
  have "demo_plain = H1" using d by (simp add: demo_plain_def)
  with plain_reach.pulses[OF r d(1)] d(2) have "plain_reach demo_plain" "rp_count (ring demo_plain RIU) = 4" by simp_all
  with plain_build_reports_nothing[of demo_plain "\<lambda>_ _. demo_dfs_env" 0 100] show ?thesis by blast
qed

text \<open>
  The message of the firmware is trusted: a chain number above one, or a count above the four
  pulses of the message's array for a chain that is enabled, leaves the arrays.
\<close>

theorem detect_ind_bounds:
  "rwnx_radar_detect_ind pulse idx cnt H = None \<longleftrightarrow>
     cnt \<noteq> 0 \<and> (idx > 1 \<or> (cnt > 4 \<and> rwnx_radar_detection_is_enable H (if idx = 0 then RIU else FCU)))"
  by (simp add: rwnx_radar_detect_ind_def Let_def RADAR_PULSE_MAX_def)

end
