(* ===== verification/CmdMgr.thy ===== *)
theory CmdMgr
  imports Prelude
begin

text \<open>
  The command manager (\<^verbatim>\<open>rwnx_cmds.c\<close>) and the part of \<^verbatim>\<open>rwnx_msg_tx.c\<close> that hands it
  requests: the pool of command slots, the queue of commands on their way to the firmware, the
  confirmation of a command, and the worker for deferred commands. The critical sections of
  \<^verbatim>\<open>cmd_mgr_queue\<close> and of the worker are definitions of their own, so that the steps of
  several callers can be interleaved.
\<close>

section \<open>Data\<close>

datatype cmd_flag = NONBLOCK | REQ_CFM | WAIT_PUSH | WAIT_ACK | WAIT_CFM | DONE

definition RWNX_CMD_WAIT_COMPLETE :: "cmd_flag set \<Rightarrow> bool" where
  "RWNX_CMD_WAIT_COMPLETE fl \<longleftrightarrow> fl \<inter> {WAIT_ACK, WAIT_CFM} = {}"

definition RWNX_CMD_MAX_QUEUED :: u32 where "RWNX_CMD_MAX_QUEUED = 16"
definition RWNX_CMD_ARRAY_SIZE :: nat where "RWNX_CMD_ARRAY_SIZE = 40"
definition RWNX_CMD_E2AMSG_LEN_MAX :: nat where "RWNX_CMD_E2AMSG_LEN_MAX = 256 * 4"
definition CMD_BUF_MAX :: nat where "CMD_BUF_MAX = 1536"
definition MM_SET_ARPOFFLOAD_REQ :: u16 where "MM_SET_ARPOFFLOAD_REQ = 97"
definition ME_TRAFFIC_IND_REQ :: u16 where "ME_TRAFFIC_IND_REQ = push_bit 10 5 + 12"

definition EINTR :: int where "EINTR = 4"
definition EIO :: int where "EIO = 5"
definition ENOMEM :: int where "ENOMEM = 12"
definition EPIPE :: int where "EPIPE = 32"
definition ETIMEDOUT :: int where "ETIMEDOUT = 110"

record lmac_msg =
  lm_id :: u16
  lm_dest :: u16
  lm_src :: u16
  lm_param :: bytes

text \<open>A slot of the pool. The confirmation goes to a buffer of the requester, named by a number.\<close>

record rwnx_cmd =
  c_reqid :: u16
  c_msg :: lmac_msg
  c_e2a :: "nat option"
  c_tkn :: u32
  c_flags :: "cmd_flag set"
  c_complete :: nat
  c_result :: int
  c_used :: bool

datatype cmd_mgr_state = DEINIT | INITED | CRASHED

text \<open>The manager with the pool; \<open>cmds\<close> is the queue, as indices of slots.\<close>

record rwnx_cmd_mgr =
  mstate :: cmd_mgr_state
  next_tkn :: u32
  queue_sz :: u32
  max_queue_sz :: u32
  cmds :: "nat list"
  cmd_array :: "rwnx_cmd list"
  ws_tx :: bool

datatype usb_state = USB_DOWN_ST | USB_UP_ST | USB_SLEEP_ST

text \<open>What leaves: a message to the firmware, a confirmation copied to a requester's buffer.\<close>

datatype cmd_out = Tx lmac_msg | Copy nat bytes

definition slot :: "rwnx_cmd_mgr \<Rightarrow> nat \<Rightarrow> rwnx_cmd" where
  "slot M i = cmd_array M ! i"

definition upd_slot :: "nat \<Rightarrow> (rwnx_cmd \<Rightarrow> rwnx_cmd) \<Rightarrow> rwnx_cmd_mgr \<Rightarrow> rwnx_cmd_mgr" where
  "upd_slot i f M = M\<lparr>cmd_array := (cmd_array M)[i := f (cmd_array M ! i)]\<rparr>"

abbreviation set_flag :: "cmd_flag \<Rightarrow> rwnx_cmd \<Rightarrow> rwnx_cmd" where
  "set_flag x c \<equiv> c\<lparr>c_flags := insert x (c_flags c)\<rparr>"

abbreviation clear_flag :: "cmd_flag \<Rightarrow> rwnx_cmd \<Rightarrow> rwnx_cmd" where
  "clear_flag x c \<equiv> c\<lparr>c_flags := c_flags c - {x}\<rparr>"

section \<open>The pool\<close>

definition rwnx_cmd_malloc :: "rwnx_cmd_mgr \<Rightarrow> nat option \<times> rwnx_cmd_mgr" where
  "rwnx_cmd_malloc M =
     (let k = first_idx (\<lambda>c. \<not> c_used c) (cmd_array M) in
      if k < 0 then (None, M) else (Some (nat k), upd_slot (nat k) (\<lambda>c. c\<lparr>c_used := True\<rparr>) M))"

definition rwnx_cmd_free :: "nat \<Rightarrow> rwnx_cmd_mgr \<Rightarrow> rwnx_cmd_mgr" where
  "rwnx_cmd_free i = upd_slot i (\<lambda>c. c\<lparr>c_used := False\<rparr>)"

definition rwnx_init_cmd_array :: "rwnx_cmd_mgr \<Rightarrow> rwnx_cmd_mgr" where
  "rwnx_init_cmd_array M = M\<lparr>cmd_array := map (\<lambda>c. c\<lparr>c_used := False\<rparr>) (cmd_array M)\<rparr>"

section \<open>A message on the bus\<close>

definition put_u16 :: "u16 \<Rightarrow> bytes" where
  "put_u16 x = [ucast (x AND 0xff), ucast (drop_bit 8 x AND 0xff)]"

text \<open>\<open>len\<close> is the size of the message with its header of eight bytes.\<close>

definition cmd_bytes :: "lmac_msg \<Rightarrow> bytes" where
  "cmd_bytes m =
     (let len = word_of_nat (8 + length (lm_param m)) :: u32
      in [ucast ((len + 4) AND 0xff), ucast (drop_bit 8 (len + 4) AND 0x0f), 0x11, 0, 0, 0, 0, 0]
         @ put_u16 (lm_id m) @ put_u16 (lm_dest m) @ put_u16 (lm_src m)
         @ put_u16 (word_of_nat (length (lm_param m))) @ lm_param m)"

text \<open>
  \<open>tx\<close>: what the bus returns for the transfer. The result is the transfers made; none when the
  command does not fit the buffer of the bus.
\<close>

definition aicwf_set_cmd_tx :: "usb_state \<Rightarrow> int \<Rightarrow> lmac_msg \<Rightarrow> bytes list option" where
  "aicwf_set_cmd_tx usb tx m =
     (if usb = USB_DOWN_ST then Some []
      else if 16 + length (lm_param m) > CMD_BUF_MAX then None
      else Some (if tx = - EIO then [cmd_bytes m, cmd_bytes m] else [cmd_bytes m]))"

definition set_tx :: "usb_state \<Rightarrow> lmac_msg \<Rightarrow> cmd_out list" where
  "set_tx usb m = (if usb = USB_DOWN_ST then [] else [Tx m])"

section \<open>Queueing\<close>

definition cmd_complete :: "nat \<Rightarrow> rwnx_cmd_mgr \<Rightarrow> rwnx_cmd_mgr" where
  "cmd_complete i M =
     (let M = upd_slot i (set_flag DONE) M;
          M = (if NONBLOCK \<in> c_flags (slot M i) then rwnx_cmd_free i M
               else if RWNX_CMD_WAIT_COMPLETE (c_flags (slot M i))
               then upd_slot i (\<lambda>c. c\<lparr>c_result := 0, c_complete := c_complete c + 1\<rparr>) M
               else M)
      in if queue_sz M = 0 then M\<lparr>ws_tx := False\<rparr> else M)"

text \<open>
  The critical section of \<^verbatim>\<open>cmd_mgr_queue\<close>: the caller sleeps and asks again, returns an error (and
  whether it releases a lock that it holds), sends the command itself, or leaves it to the worker.
\<close>

datatype queue_res = QWait | QErr bool int | QPush | QDefer

definition enqueue :: "bool \<Rightarrow> nat \<Rightarrow> rwnx_cmd_mgr \<Rightarrow> rwnx_cmd_mgr" where
  "enqueue defer i M =
     (let M = (if defer then upd_slot i (set_flag WAIT_PUSH) M else M);
          M = (if REQ_CFM \<in> c_flags (slot M i) then upd_slot i (set_flag WAIT_CFM) M else M);
          M = upd_slot i (\<lambda>c. c\<lparr>c_tkn := next_tkn M, c_result := - EINTR\<rparr>) (M\<lparr>next_tkn := next_tkn M + 1\<rparr>);
          M = (if NONBLOCK \<notin> c_flags (slot M i) then upd_slot i (\<lambda>c. c\<lparr>c_complete := 0\<rparr>) M else M);
          M = M\<lparr>cmds := cmds M @ [i], ws_tx := (if queue_sz M = 0 then True else ws_tx M)\<rparr>
      in M\<lparr>queue_sz := queue_sz M + 1\<rparr>)"

definition cmd_mgr_queue :: "nat \<Rightarrow> rwnx_cmd_mgr \<Rightarrow> queue_res \<times> rwnx_cmd_mgr" where
  "cmd_mgr_queue i M =
     (if mstate M = CRASHED
      then (QErr (c_e2a (slot M i) = None) (- EPIPE), upd_slot i (\<lambda>c. c\<lparr>c_result := - EPIPE\<rparr>) M)
      else if c_e2a (slot M i) \<noteq> None \<and> cmds M \<noteq> [] then (QWait, M)
      else if cmds M \<noteq> [] \<and> queue_sz M = max_queue_sz M
      then (QErr True (- ENOMEM), upd_slot i (\<lambda>c. c\<lparr>c_result := - ENOMEM\<rparr>) M)
      else let defer = (cmds M \<noteq> [] \<and> c_flags (slot M (last (cmds M))) \<inter> {WAIT_ACK, WAIT_PUSH, WAIT_CFM} \<noteq> {});
               M = enqueue defer i M;
               late = (lm_id (c_msg (slot M i)) = ME_TRAFFIC_IND_REQ \<or> lm_id (c_msg (slot M i)) = MM_SET_ARPOFFLOAD_REQ);
               M = (if late then upd_slot i (set_flag WAIT_PUSH) M else M)
           in (if defer \<or> late then QDefer else QPush, M))"

definition cmd_mgr_queue_force_defer :: "nat \<Rightarrow> rwnx_cmd_mgr \<Rightarrow> queue_res \<times> rwnx_cmd_mgr" where
  "cmd_mgr_queue_force_defer i M =
     (if mstate M = CRASHED then (QErr True (- EPIPE), upd_slot i (\<lambda>c. c\<lparr>c_result := - EPIPE\<rparr>) M)
      else if cmds M \<noteq> [] \<and> queue_sz M = max_queue_sz M
      then (QErr True (- ENOMEM), upd_slot i (\<lambda>c. c\<lparr>c_result := - ENOMEM\<rparr>) M)
      else (QDefer, enqueue True i M))"

text \<open>The wait for the completion runs out: the manager is given up.\<close>

definition wait_timed_out :: "nat \<Rightarrow> rwnx_cmd_mgr \<Rightarrow> rwnx_cmd_mgr" where
  "wait_timed_out i M =
     (let M = M\<lparr>mstate := CRASHED\<rparr>
      in if DONE \<notin> c_flags (slot M i)
         then cmd_complete i (upd_slot i (\<lambda>c. c\<lparr>c_result := - ETIMEDOUT\<rparr>) M) else M)"

text \<open>
  The wait ends: the command leaves the queue and its slot is free again. No result when the entry
  is not in the queue any more: \<^verbatim>\<open>list_del\<close> follows the poison it left there.
\<close>

definition wait_ended :: "nat \<Rightarrow> rwnx_cmd_mgr \<Rightarrow> rwnx_cmd_mgr option" where
  "wait_ended i M =
     (if i \<notin> set (cmds M) then None
      else let M = M\<lparr>cmds := remove1 i (cmds M), queue_sz := queue_sz M - 1\<rparr>;
               M = (if queue_sz M = 0 then M\<lparr>ws_tx := False\<rparr> else M)
           in Some (rwnx_cmd_free i M))"

section \<open>The worker\<close>

text \<open>One turn of the loop of \<^verbatim>\<open>cmd_mgr_task_process\<close> up to the wait: only the first command counts.\<close>

definition task_next :: "rwnx_cmd_mgr \<Rightarrow> nat option" where
  "task_next M = (case cmds M of [] \<Rightarrow> None
     | i # _ \<Rightarrow> if WAIT_PUSH \<in> c_flags (slot M i) then Some i else None)"

definition task_push :: "nat \<Rightarrow> rwnx_cmd_mgr \<Rightarrow> rwnx_cmd_mgr" where
  "task_push i = upd_slot i (clear_flag WAIT_PUSH)"

section \<open>What the firmware answers\<close>

fun llind_walk :: "rwnx_cmd_mgr \<Rightarrow> u32 \<Rightarrow> nat list \<Rightarrow> bool" where
  "llind_walk M t [] = False"
| "llind_walk M t (j # js) =
     (if c_tkn (slot M j) = t then True
      else if WAIT_PUSH \<in> c_flags (slot M j) then False
      else llind_walk M t js)"

definition cmd_mgr_llind :: "nat \<Rightarrow> rwnx_cmd_mgr \<Rightarrow> rwnx_cmd_mgr" where
  "cmd_mgr_llind i M =
     (if llind_walk M (c_tkn (slot M i)) (cmds M)
      then let M = upd_slot i (clear_flag WAIT_ACK) M
           in if RWNX_CMD_WAIT_COMPLETE (c_flags (slot M i)) then cmd_complete i M else M
      else M)"

text \<open>
  \<open>cb\<close>: whether the handler of the message, if there is one, accepts it for a command.
\<close>

fun find_cfm :: "(nat \<Rightarrow> bool) \<Rightarrow> rwnx_cmd_mgr \<Rightarrow> u16 \<Rightarrow> nat list \<Rightarrow> nat option" where
  "find_cfm cb M mid [] = None"
| "find_cfm cb M mid (j # js) =
     (if c_reqid (slot M j) = mid \<and> WAIT_CFM \<in> c_flags (slot M j) \<and> cb j then Some j else find_cfm cb M mid js)"

definition cmd_mgr_msgind :: "(nat \<Rightarrow> bool) \<Rightarrow> u16 \<Rightarrow> bytes \<Rightarrow> rwnx_cmd_mgr \<Rightarrow> rwnx_cmd_mgr \<times> cmd_out list" where
  "cmd_mgr_msgind cb mid param M =
     (case find_cfm cb M mid (cmds M) of
        None \<Rightarrow> (M, [])
      | Some i \<Rightarrow>
          let M = upd_slot i (clear_flag WAIT_CFM) M;
              param = take RWNX_CMD_E2AMSG_LEN_MAX param;
              out = (case c_e2a (slot M i) of Some b \<Rightarrow> if param \<noteq> [] then [Copy b param] else [] | None \<Rightarrow> [])
          in (if RWNX_CMD_WAIT_COMPLETE (c_flags (slot M i)) then cmd_complete i M else M, out))"

section \<open>Requests\<close>

text \<open>
  \<^verbatim>\<open>rwnx_send_msg\<close> up to the queueing. The flags of the slot are those of its last use; the ones of
  a request are added. No result: the pool is empty and the code follows a null pointer.
\<close>

datatype send_res = Returned int | ToQueue nat

definition fill_cmd :: "lmac_msg \<Rightarrow> bool \<Rightarrow> u16 \<Rightarrow> nat option \<Rightarrow> rwnx_cmd \<Rightarrow> rwnx_cmd" where
  "fill_cmd m reqcfm reqid cfm c =
     c\<lparr>c_result := - EINTR, c_reqid := reqid, c_msg := m, c_e2a := cfm,
       c_flags := (if reqcfm then insert REQ_CFM (c_flags c) else c_flags c)\<rparr>"

definition rwnx_send_msg :: "usb_state \<Rightarrow> lmac_msg \<Rightarrow> bool \<Rightarrow> u16 \<Rightarrow> nat option \<Rightarrow> rwnx_cmd_mgr \<Rightarrow>
    (send_res \<times> rwnx_cmd_mgr \<times> cmd_out list) option" where
  "rwnx_send_msg usb m reqcfm reqid cfm M =
     (if usb = USB_DOWN_ST then Some (Returned 0, M, [])
      else case rwnx_cmd_malloc M of
        (None, _) \<Rightarrow> None
      | (Some i, M) \<Rightarrow>
          let M = upd_slot i (fill_cmd m reqcfm reqid cfm) M
          in if reqcfm then Some (ToQueue i, upd_slot i (clear_flag WAIT_ACK) M, [])
             else Some (Returned 0, rwnx_cmd_free i M, set_tx usb m))"

definition rwnx_send_msg1 :: "usb_state \<Rightarrow> lmac_msg \<Rightarrow> bool \<Rightarrow> u16 \<Rightarrow> nat option \<Rightarrow> rwnx_cmd_mgr \<Rightarrow>
    (send_res \<times> rwnx_cmd_mgr) option" where
  "rwnx_send_msg1 usb m reqcfm reqid cfm M =
     (if usb = USB_DOWN_ST then Some (Returned 0, M)
      else case rwnx_cmd_malloc M of
        (None, _) \<Rightarrow> None
      | (Some i, M) \<Rightarrow>
          let M = upd_slot i (fill_cmd m reqcfm reqid cfm) M
          in if reqcfm then Some (ToQueue i, upd_slot i (clear_flag WAIT_ACK) M)
             else Some (Returned 0, rwnx_cmd_free i M))"

section \<open>Set-up and removal\<close>

definition rwnx_cmd_mgr_init :: "rwnx_cmd_mgr \<Rightarrow> rwnx_cmd_mgr" where
  "rwnx_cmd_mgr_init M = M\<lparr>cmds := [], mstate := INITED, max_queue_sz := RWNX_CMD_MAX_QUEUED\<rparr>"

definition cmd_mgr_drain :: "rwnx_cmd_mgr \<Rightarrow> rwnx_cmd_mgr" where
  "cmd_mgr_drain M =
     fold (\<lambda>i M. if NONBLOCK \<notin> c_flags (slot M i) then upd_slot i (\<lambda>c. c\<lparr>c_complete := c_complete c + 1\<rparr>) M else M)
       (cmds M) (M\<lparr>cmds := []\<rparr>)"

end
