(* ===== verification/CmdSys.thy ===== *)
theory CmdSys
  imports CmdMgr
begin

text \<open>
  The command manager with several callers, the worker and the firmware's confirmations. A step is
  one critical section: a caller in \<^verbatim>\<open>cmd_mgr_queue\<close> is, one after the other, asking for its
  place in the queue, looking whether to wake the worker (when its command was deferred), or waiting
  for its confirmation.
\<close>

section \<open>Steps\<close>

datatype worker = WIdle | WScan | WWait nat

text \<open>
  \<open>asking\<close>: slots of callers about to queue, with the flag that they force the deferral;
  \<open>to_check\<close>: how many callers have queued a deferred command and not yet looked at the length of
  the queue; \<open>waiting\<close>: slots whose callers wait; \<open>pending\<close>: whether the worker has been woken.
\<close>

record cmd_sys =
  mgr :: rwnx_cmd_mgr
  asking :: "(nat \<times> bool) list"
  to_check :: nat
  waiting :: "nat list"
  pending :: bool
  worker :: worker

text \<open>The first argument is the state of the bus during the step.\<close>

inductive cmd_step :: "usb_state \<Rightarrow> cmd_sys \<Rightarrow> cmd_out list \<Rightarrow> cmd_sys \<Rightarrow> bool" where
  ask: "rwnx_send_msg usb m True reqid cfm (mgr S) = Some (ToQueue i, M, out) \<Longrightarrow>
    cmd_step usb S out (S\<lparr>mgr := M, asking := (i, False) # asking S\<rparr>)"
| ask1: "rwnx_send_msg1 usb m True reqid cfm (mgr S) = Some (ToQueue i, M) \<Longrightarrow>
    cmd_step usb S [] (S\<lparr>mgr := M, asking := (i, defer) # asking S\<rparr>)"
| refuse: "(i, defer) \<in> set (asking S) \<Longrightarrow>
    (if defer then cmd_mgr_queue_force_defer i (mgr S) else cmd_mgr_queue i (mgr S)) = (QErr held e, M) \<Longrightarrow>
    cmd_step usb S [] (S\<lparr>mgr := rwnx_cmd_free i M, asking := remove1 (i, defer) (asking S)\<rparr>)"
| push: "(i, False) \<in> set (asking S) \<Longrightarrow> cmd_mgr_queue i (mgr S) = (QPush, M) \<Longrightarrow>
    cmd_step usb S (set_tx usb (c_msg (slot M i)))
      (S\<lparr>mgr := M, asking := remove1 (i, False) (asking S), waiting := i # waiting S\<rparr>)"
| put_off: "(i, False) \<in> set (asking S) \<Longrightarrow> cmd_mgr_queue i (mgr S) = (QDefer, M) \<Longrightarrow>
    cmd_step usb S [] (S\<lparr>mgr := M, asking := remove1 (i, False) (asking S), to_check := to_check S + 1\<rparr>)"
| check: "0 < to_check S \<Longrightarrow>
    cmd_step usb S [] (S\<lparr>to_check := to_check S - 1, pending := (pending S \<or> queue_sz (mgr S) \<le> 1)\<rparr>)"
| force: "(i, True) \<in> set (asking S) \<Longrightarrow> cmd_mgr_queue_force_defer i (mgr S) = (QDefer, M) \<Longrightarrow>
    cmd_step usb S [] (S\<lparr>mgr := M, asking := remove1 (i, True) (asking S), pending := True\<rparr>)"
| confirmed: "i \<in> set (waiting S) \<Longrightarrow> 0 < c_complete (slot (mgr S) i) \<Longrightarrow> wait_ended i (mgr S) = Some M \<Longrightarrow>
    cmd_step usb S [] (S\<lparr>mgr := M, waiting := remove1 i (waiting S),
      pending := (pending S \<or> (cmds M \<noteq> [] \<and> usb = USB_UP_ST))\<rparr>)"
| timed_out: "i \<in> set (waiting S) \<Longrightarrow> c_complete (slot (mgr S) i) = 0 \<Longrightarrow>
    cmd_step usb S [] (S\<lparr>mgr := rwnx_cmd_free i (wait_timed_out i (mgr S)), waiting := remove1 i (waiting S)\<rparr>)"
| wake: "pending S \<Longrightarrow> worker S = WIdle \<Longrightarrow> cmd_step usb S [] (S\<lparr>pending := False, worker := WScan\<rparr>)"
| work: "worker S = WScan \<Longrightarrow> task_next (mgr S) = Some i \<Longrightarrow>
    cmd_step usb S (set_tx usb (c_msg (slot (mgr S) i))) (S\<lparr>mgr := task_push i (mgr S), worker := WWait i\<rparr>)"
| rest: "worker S = WScan \<Longrightarrow> task_next (mgr S) = None \<Longrightarrow> cmd_step usb S [] (S\<lparr>worker := WIdle\<rparr>)"
| work_confirmed: "worker S = WWait i \<Longrightarrow> 0 < c_complete (slot (mgr S) i) \<Longrightarrow> wait_ended i (mgr S) = Some M \<Longrightarrow>
    cmd_step usb S [] (S\<lparr>mgr := M, worker := WScan\<rparr>)"
| work_timed_out: "worker S = WWait i \<Longrightarrow> c_complete (slot (mgr S) i) = 0 \<Longrightarrow>
    cmd_step usb S [] (S\<lparr>mgr := wait_timed_out i (mgr S), worker := WScan\<rparr>)"
| answer: "cmd_mgr_msgind cb mid param (mgr S) = (M, out) \<Longrightarrow> cmd_step usb S out (S\<lparr>mgr := M\<rparr>)"

inductive_cases cmd_stepE: "cmd_step usb S out S'"

definition fresh_mgr :: rwnx_cmd_mgr where
  "fresh_mgr = rwnx_cmd_mgr_init (rwnx_init_cmd_array
     \<lparr>mstate = DEINIT, next_tkn = 0, queue_sz = 0, max_queue_sz = 0, cmds = [],
      cmd_array = replicate RWNX_CMD_ARRAY_SIZE
        \<lparr>c_reqid = 0, c_msg = \<lparr>lm_id = 0, lm_dest = 0, lm_src = 0, lm_param = []\<rparr>, c_e2a = None, c_tkn = 0,
         c_flags = {}, c_complete = 0, c_result = 0, c_used = False\<rparr>, ws_tx = False\<rparr>)"

definition fresh_sys :: cmd_sys where
  "fresh_sys = \<lparr>mgr = fresh_mgr, asking = [], to_check = 0, waiting = [], pending = False, worker = WIdle\<rparr>"

inductive cmd_reach :: "cmd_sys \<Rightarrow> bool" where
  start: "cmd_reach fresh_sys"
| step: "cmd_reach S \<Longrightarrow> cmd_step usb S out S' \<Longrightarrow> cmd_reach S'"

section \<open>The invariant\<close>

text \<open>A command that is confirmed, one that the firmware works on, one that waits for the worker.\<close>

definition settled :: "rwnx_cmd_mgr \<Rightarrow> nat \<Rightarrow> bool" where
  "settled M i \<longleftrightarrow> WAIT_CFM \<notin> c_flags (slot M i) \<and> WAIT_PUSH \<notin> c_flags (slot M i)"

definition awaiting :: "rwnx_cmd_mgr \<Rightarrow> nat \<Rightarrow> bool" where
  "awaiting M i \<longleftrightarrow> WAIT_CFM \<in> c_flags (slot M i) \<and> WAIT_PUSH \<notin> c_flags (slot M i)"

definition deferred :: "rwnx_cmd_mgr \<Rightarrow> nat \<Rightarrow> bool" where
  "deferred M i \<longleftrightarrow> WAIT_PUSH \<in> c_flags (slot M i)"

text \<open>Confirmed commands first, then at most one with the firmware, then the deferred ones.\<close>

fun in_line :: "rwnx_cmd_mgr \<Rightarrow> nat list \<Rightarrow> bool" where
  "in_line M [] = True"
| "in_line M (i # js) =
     ((settled M i \<and> in_line M js) \<or> ((awaiting M i \<or> deferred M i) \<and> (\<forall>j\<in>set js. deferred M j)))"

definition mgr_ok :: "rwnx_cmd_mgr \<Rightarrow> bool" where
  "mgr_ok M \<longleftrightarrow> length (cmd_array M) = RWNX_CMD_ARRAY_SIZE \<and> max_queue_sz M = 16 \<and>
     queue_sz M = of_nat (length (cmds M)) \<and> length (cmds M) \<le> 16 \<and> distinct (cmds M) \<and>
     (\<forall>i \<in> set (cmds M). i < RWNX_CMD_ARRAY_SIZE \<and> c_used (slot M i) \<and>
        (0 < c_complete (slot M i) \<longleftrightarrow> WAIT_CFM \<notin> c_flags (slot M i))) \<and>
     (\<forall>i < RWNX_CMD_ARRAY_SIZE. NONBLOCK \<notin> c_flags (slot M i) \<and> WAIT_ACK \<notin> c_flags (slot M i) \<and>
        (i \<notin> set (cmds M) \<longrightarrow> WAIT_PUSH \<notin> c_flags (slot M i))) \<and>
     in_line M (cmds M) \<and> ws_tx M = (cmds M \<noteq> [])"

definition owned :: "cmd_sys \<Rightarrow> nat list" where
  "owned S = waiting S @ (case worker S of WWait i \<Rightarrow> [i] | _ \<Rightarrow> [])"

definition cmd_ok :: "cmd_sys \<Rightarrow> bool" where
  "cmd_ok S \<longleftrightarrow> mgr_ok (mgr S) \<and> distinct (map fst (asking S)) \<and>
     (\<forall>x \<in> set (asking S). fst x < RWNX_CMD_ARRAY_SIZE \<and> fst x \<notin> set (cmds (mgr S)) \<and>
        c_used (slot (mgr S) (fst x)) \<and> REQ_CFM \<in> c_flags (slot (mgr S) (fst x))) \<and>
     distinct (owned S) \<and>
     set (owned S) = {i \<in> set (cmds (mgr S)). \<not> deferred (mgr S) i}"

section \<open>Slots\<close>

lemma slot_upd: "slot (upd_slot i f M) j = (if j = i \<and> i < length (cmd_array M) then f (slot M i) else slot M j)"
  by (cases "i < length (cmd_array M)"; cases "j = i") (simp_all add: slot_def upd_slot_def list_update_beyond not_less)

lemma upd_slot_sel [simp]:
  "mstate (upd_slot i f M) = mstate M" "next_tkn (upd_slot i f M) = next_tkn M" "queue_sz (upd_slot i f M) = queue_sz M"
  "max_queue_sz (upd_slot i f M) = max_queue_sz M" "cmds (upd_slot i f M) = cmds M" "ws_tx (upd_slot i f M) = ws_tx M"
  "length (cmd_array (upd_slot i f M)) = length (cmd_array M)"
  by (simp_all add: upd_slot_def)

lemma slot_other [simp]:
  "slot (M\<lparr>mstate := a\<rparr>) j = slot M j" "slot (M\<lparr>next_tkn := b\<rparr>) j = slot M j" "slot (M\<lparr>queue_sz := b\<rparr>) j = slot M j"
  "slot (M\<lparr>cmds := js\<rparr>) j = slot M j" "slot (M\<lparr>ws_tx := w\<rparr>) j = slot M j" "slot (M\<lparr>cmds := js, ws_tx := w\<rparr>) j = slot M j"
  "slot (M\<lparr>cmds := js, queue_sz := b\<rparr>) j = slot M j"
  by (simp_all add: slot_def)

lemma of_nat_small: "n \<le> 16 \<Longrightarrow> (of_nat n :: u32) = 16 \<longleftrightarrow> n = 16"
  "n \<le> 16 \<Longrightarrow> (of_nat n :: u32) = 0 \<longleftrightarrow> n = 0"
  "n \<le> 16 \<Longrightarrow> (of_nat n :: u32) \<le> 1 \<longleftrightarrow> n \<le> 1"
  by (auto simp: word_unat_eq_iff word_le_nat_alt unat_of_nat)

section \<open>The line\<close>

lemma kinds: "deferred M i \<Longrightarrow> \<not> awaiting M i \<and> \<not> settled M i" "awaiting M i \<Longrightarrow> \<not> settled M i"
  by (auto simp: deferred_def awaiting_def settled_def)

lemma kinds_cong:
  assumes "c_flags (slot M' i) = c_flags (slot M i)"
  shows "settled M' i = settled M i" "awaiting M' i = awaiting M i" "deferred M' i = deferred M i"
  using assms by (simp_all add: deferred_def awaiting_def settled_def)

lemma in_line_cong:
  assumes "\<forall>j\<in>set js. c_flags (slot M' j) = c_flags (slot M j)"
  shows "in_line M' js = in_line M js"
  using assms
proof (induction js)
  case (Cons a js)
  then have k: "settled M' a = settled M a" "awaiting M' a = awaiting M a" "deferred M' a = deferred M a"
    using kinds_cong[of M' a M] by simp_all
  have "(\<forall>j\<in>set js. deferred M' j) = (\<forall>j\<in>set js. deferred M j)"
    using Cons.prems kinds_cong(3)[of M' _ M] by simp
  then show ?case using Cons k by simp
qed simp

lemma in_line_snoc_deferred: "in_line M js \<Longrightarrow> deferred M i \<Longrightarrow> in_line M (js @ [i])"
  by (induction js) auto

lemma in_line_snoc_awaiting: "\<forall>j\<in>set js. settled M j \<Longrightarrow> awaiting M i \<Longrightarrow> in_line M (js @ [i])"
  by (induction js) auto

lemma in_line_last: "in_line M js \<Longrightarrow> js \<noteq> [] \<Longrightarrow> settled M (last js) \<Longrightarrow> \<forall>j\<in>set js. settled M j"
proof (induction js)
  case (Cons a js)
  show ?case
  proof (cases "js = []")
    case True
    then show ?thesis using Cons.prems by simp
  next
    case False
    then have "\<not> deferred M (last js)" using Cons.prems kinds(1) by fastforce
    then have "settled M a" "in_line M js" using Cons.prems False last_in_set[OF False] by auto
    then show ?thesis using Cons.IH Cons.prems False by simp
  qed
qed simp

lemma in_line_member: "in_line M js \<Longrightarrow> i \<in> set js \<Longrightarrow> settled M i \<or> awaiting M i \<or> deferred M i"
  by (induction js) auto

lemma in_line_remove: "in_line M js \<Longrightarrow> in_line M (remove1 i js)"
proof (induction js)
  case (Cons a js)
  then show ?case using set_remove1_subset[of i js] by (cases js) auto
qed simp

lemma in_line_change:
  assumes "in_line M js" "distinct js" "awaiting M i"
    and "\<forall>j. j \<noteq> i \<longrightarrow> c_flags (slot M' j) = c_flags (slot M j)" "settled M' i"
  shows "in_line M' js"
  using assms(1,2)
proof (induction js)
  case (Cons a js)
  show ?case
  proof (cases "a = i")
    case True
    have "\<forall>j\<in>set js. deferred M j" using Cons.prems True assms(3) kinds by auto
    then have "\<forall>j\<in>set js. deferred M' j" using assms(4) True Cons.prems(2) kinds_cong(3)[of M' _ M]
      by (metis distinct.simps(2))
    then have "in_line M' js" by (induction js) auto
    then show ?thesis using True assms(5) by simp
  next
    case False
    then have k: "settled M' a = settled M a" "awaiting M' a = awaiting M a" "deferred M' a = deferred M a"
      using assms(4) kinds_cong[of M' a M] by simp_all
    show ?thesis
    proof (cases "settled M a")
      case True
      then have "in_line M js" using Cons.prems kinds by auto
      then show ?thesis using Cons.IH Cons.prems(2) True k by simp
    next
      case ns: False
      then have d: "\<forall>j\<in>set js. deferred M j" "awaiting M a \<or> deferred M a" using Cons.prems by auto
      then have "\<forall>j\<in>set js. deferred M' j" using assms(3,4) kinds kinds_cong(3)[of M' _ M] by metis
      then show ?thesis using d(2) k by simp
    qed
  qed
qed simp

lemma in_line_kinds:
  assumes "\<forall>j\<in>set js. settled M' j = settled M j \<and> deferred M' j = deferred M j"
  shows "in_line M' js = in_line M js"
proof -
  have "awaiting M' j = awaiting M j" if "j \<in> set js" for j
    using assms that by (auto simp: awaiting_def settled_def deferred_def)
  then show ?thesis using assms by (induction js) auto
qed

lemma in_line_deferred: "\<forall>j\<in>set js. deferred M j \<Longrightarrow> in_line M js"
  by (induction js) auto

lemma in_line_awaiting: "in_line M js \<Longrightarrow> length (filter (awaiting M) js) \<le> 1"
proof (induction js)
  case (Cons a js)
  have "filter (awaiting M) js = []" if "\<forall>j\<in>set js. deferred M j"
    using that kinds by (auto simp: filter_empty_conv)
  then show ?case using Cons kinds by auto
qed simp

end
