(* ===== verification/CmdInv.thy ===== *)
theory CmdInv
  imports CmdSys
begin

text \<open>
  Every step of the command manager, of its callers, its worker and the firmware keeps the
  invariant \<open>cmd_ok\<close>, as long as no command times out.
\<close>

section \<open>The sections of the manager\<close>

lemma mgr_ok_upd:
  assumes "mgr_ok M" "i < RWNX_CMD_ARRAY_SIZE" "i \<notin> set (cmds M)"
    and "c_flags (f (slot M i)) \<inter> {NONBLOCK, WAIT_ACK, WAIT_PUSH} = {}"
  shows "mgr_ok (upd_slot i f M)"
proof -
  have l: "length (cmd_array M) = RWNX_CMD_ARRAY_SIZE" using assms(1) by (simp add: mgr_ok_def)
  have o: "slot (upd_slot i f M) j = slot M j" if "j \<in> set (cmds M)" for j
    using that assms(3) by (auto simp: slot_upd)
  have i: "slot (upd_slot i f M) i = f (slot M i)" using l assms(2) by (simp add: slot_upd)
  have "in_line (upd_slot i f M) (cmds M)" using assms(1) o in_line_cong[of "cmds M" "upd_slot i f M" M]
    by (simp add: mgr_ok_def)
  moreover have "NONBLOCK \<notin> c_flags (slot (upd_slot i f M) j) \<and> WAIT_ACK \<notin> c_flags (slot (upd_slot i f M) j) \<and>
      (j \<notin> set (cmds M) \<longrightarrow> WAIT_PUSH \<notin> c_flags (slot (upd_slot i f M) j))" if "j < RWNX_CMD_ARRAY_SIZE" for j
    using assms(1,4) that i by (cases "j = i") (auto simp: mgr_ok_def slot_upd)
  ultimately show ?thesis using assms(1) o by (simp add: mgr_ok_def)
qed

lemma enqueue_sel:
  assumes "i < length (cmd_array M)" "REQ_CFM \<in> c_flags (slot M i)" "NONBLOCK \<notin> c_flags (slot M i)"
  shows "cmds (enqueue d i M) = cmds M @ [i]" "queue_sz (enqueue d i M) = queue_sz M + 1"
    "ws_tx (enqueue d i M) = (queue_sz M = 0 \<or> ws_tx M)" "max_queue_sz (enqueue d i M) = max_queue_sz M"
    "mstate (enqueue d i M) = mstate M" "length (cmd_array (enqueue d i M)) = length (cmd_array M)"
    "slot (enqueue d i M) j = (if j = i then (slot M i)\<lparr>c_flags := insert WAIT_CFM
        (if d then insert WAIT_PUSH (c_flags (slot M i)) else c_flags (slot M i)),
        c_tkn := next_tkn M, c_result := - EINTR, c_complete := 0\<rparr> else slot M j)"
  using assms by (auto simp: enqueue_def Let_def slot_def upd_slot_def)

lemma mgr_ok_add:
  assumes ok: "mgr_ok M" and i: "i < RWNX_CMD_ARRAY_SIZE" "i \<notin> set (cmds M)" "c_used (slot M i)" "length (cmds M) < 16"
    and sel: "cmds M' = cmds M @ [i]" "queue_sz M' = queue_sz M + 1" "ws_tx M' = (queue_sz M = 0 \<or> ws_tx M)"
      "max_queue_sz M' = max_queue_sz M" "length (cmd_array M') = length (cmd_array M)"
      "\<forall>j. j \<noteq> i \<longrightarrow> slot M' j = slot M j"
    and s: "c_used (slot M' i)" "c_complete (slot M' i) = 0" "c_flags (slot M' i) \<inter> {NONBLOCK, WAIT_ACK} = {}"
      "WAIT_CFM \<in> c_flags (slot M' i)"
    and l: "WAIT_PUSH \<notin> c_flags (slot M' i) \<Longrightarrow> \<forall>j\<in>set (cmds M). settled M j"
  shows "mgr_ok M'"
proof -
  have o: "slot M' j = slot M j" if "j \<in> set (cmds M)" for j using that i(2) sel(6) by metis
  have "in_line M' (cmds M)" using ok o in_line_cong[of "cmds M" M' M] by (simp add: mgr_ok_def)
  moreover have "\<forall>j\<in>set (cmds M). settled M' j = settled M j" using o by (simp add: settled_def)
  ultimately have "in_line M' (cmds M')"
    using in_line_snoc_deferred[of M' "cmds M" i] in_line_snoc_awaiting[of "cmds M" M' i] l s(4) sel(1)
    by (cases "WAIT_PUSH \<in> c_flags (slot M' i)") (auto simp: deferred_def awaiting_def)
  moreover have "\<forall>j \<in> set (cmds M'). j < RWNX_CMD_ARRAY_SIZE \<and> c_used (slot M' j) \<and> (0 < c_complete (slot M' j) \<longleftrightarrow> WAIT_CFM \<notin> c_flags (slot M' j))"
  proof
    fix j assume "j \<in> set (cmds M')"
    then consider "j \<in> set (cmds M)" | "j = i" using sel(1) by auto
    then show "j < RWNX_CMD_ARRAY_SIZE \<and> c_used (slot M' j) \<and> (0 < c_complete (slot M' j) \<longleftrightarrow> WAIT_CFM \<notin> c_flags (slot M' j))"
    proof cases
      case 1
      then show ?thesis using ok o[OF 1] by (simp add: mgr_ok_def settled_def)
    next
      case 2
      then show ?thesis using s i(1) by (simp add: settled_def)
    qed
  qed
  moreover have "\<forall>j < RWNX_CMD_ARRAY_SIZE. NONBLOCK \<notin> c_flags (slot M' j) \<and> WAIT_ACK \<notin> c_flags (slot M' j) \<and>
        (j \<notin> set (cmds M') \<longrightarrow> WAIT_PUSH \<notin> c_flags (slot M' j))"
  proof (intro allI impI)
    fix j assume "j < RWNX_CMD_ARRAY_SIZE"
    then show "NONBLOCK \<notin> c_flags (slot M' j) \<and> WAIT_ACK \<notin> c_flags (slot M' j) \<and>
        (j \<notin> set (cmds M') \<longrightarrow> WAIT_PUSH \<notin> c_flags (slot M' j))"
      using ok s(3) sel(1,6) by (cases "j = i") (auto simp: mgr_ok_def)
  qed
  moreover have "ws_tx M' = (cmds M' \<noteq> [])"
    using ok i(4) sel(1,3) of_nat_small(2)[of "length (cmds M)"] by (auto simp: mgr_ok_def)
  ultimately show ?thesis using ok i(2,4) sel by (simp add: mgr_ok_def)
qed

lemma mgr_ok_drop:
  assumes ok: "mgr_ok M" and i: "settled M i" and w: "wait_ended i M = Some M'"
  shows "mgr_ok M'" and "i \<in> set (cmds M)" and "cmds M' = remove1 i (cmds M)" and "mstate M' = mstate M"
    and "\<forall>j. c_flags (slot M' j) = c_flags (slot M j)" and "\<forall>j. j \<noteq> i \<longrightarrow> slot M' j = slot M j"
proof -
  show m: "i \<in> set (cmds M)" using w by (simp add: wait_ended_def split: if_splits)
  have M': "M' = rwnx_cmd_free i (let M = M\<lparr>cmds := remove1 i (cmds M), queue_sz := queue_sz M - 1\<rparr>
      in if queue_sz M = 0 then M\<lparr>ws_tx := False\<rparr> else M)"
    using w m by (simp add: wait_ended_def Let_def split: if_splits)
  then show c: "cmds M' = remove1 i (cmds M)" and s: "mstate M' = mstate M" by (simp_all add: rwnx_cmd_free_def Let_def)
  have sl: "slot M' j = (if j = i \<and> i < length (cmd_array M) then (slot M i)\<lparr>c_used := False\<rparr> else slot M j)" for j
    by (simp add: M' rwnx_cmd_free_def Let_def slot_upd)
  then show fl: "\<forall>j. c_flags (slot M' j) = c_flags (slot M j)" and ot: "\<forall>j. j \<noteq> i \<longrightarrow> slot M' j = slot M j" by simp_all
  have n: "0 < length (cmds M)" "length (cmds M) \<le> 16" using m ok by (auto simp: mgr_ok_def)
  have "queue_sz M' = queue_sz M - 1" by (simp add: M' rwnx_cmd_free_def Let_def)
  moreover have "(of_nat (length (cmds M) - 1) :: u32) = of_nat (length (cmds M)) - 1"
    using n(1) by (cases "length (cmds M)") auto
  ultimately have q: "queue_sz M' = of_nat (length (cmds M) - 1)" using ok by (simp add: mgr_ok_def)
  have lr: "length (cmds M') = length (cmds M) - 1" using c m by (simp add: length_remove1)
  have "ws_tx M' = (if queue_sz M' = 0 then False else ws_tx M)" by (simp add: M' rwnx_cmd_free_def Let_def)
  then have ws: "ws_tx M' = (cmds M' \<noteq> [])"
    using q of_nat_small(2)[of "length (cmds M) - 1"] n lr ok m by (auto simp: mgr_ok_def)
  have d: "distinct (cmds M)" using ok by (simp add: mgr_ok_def)
  have "in_line M' (cmds M')" using ok fl c in_line_remove[of M "cmds M" i] in_line_cong[of "cmds M'" M' M]
    by (simp add: mgr_ok_def)
  moreover have "\<forall>j \<in> set (cmds M'). j < RWNX_CMD_ARRAY_SIZE \<and> c_used (slot M' j) \<and> (0 < c_complete (slot M' j) \<longleftrightarrow> WAIT_CFM \<notin> c_flags (slot M' j))"
  proof
    fix j assume "j \<in> set (cmds M')"
    then have "j \<in> set (cmds M)" "slot M' j = slot M j" using c d ot by auto
    then show "j < RWNX_CMD_ARRAY_SIZE \<and> c_used (slot M' j) \<and> (0 < c_complete (slot M' j) \<longleftrightarrow> WAIT_CFM \<notin> c_flags (slot M' j))"
      using ok by (simp add: mgr_ok_def settled_def)
  qed
  moreover have "j \<notin> set (cmds M') \<longrightarrow> WAIT_PUSH \<notin> c_flags (slot M' j)" if "j < RWNX_CMD_ARRAY_SIZE" for j
    using that c d fl i ok by (cases "j = i") (auto simp: mgr_ok_def settled_def)
  moreover have "max_queue_sz M' = max_queue_sz M" "length (cmd_array M') = length (cmd_array M)"
    by (simp_all add: M' rwnx_cmd_free_def Let_def)
  moreover have "queue_sz M' = of_nat (length (cmds M'))" "length (cmds M') \<le> 16" using n by (simp_all only: q lr)
  ultimately show "mgr_ok M'" using ok fl c d ws by (simp add: mgr_ok_def)
qed

section \<open>Changes of the flags\<close>

text \<open>The worker takes the first command, which is deferred; the firmware confirms a command.\<close>

lemma mgr_ok_change:
  assumes ok: "mgr_ok M" and i: "i \<in> set (cmds M)"
    and sel: "cmds M' = cmds M" "queue_sz M' = queue_sz M" "ws_tx M' = ws_tx M" "max_queue_sz M' = max_queue_sz M"
      "length (cmd_array M') = length (cmd_array M)" "\<forall>j. j \<noteq> i \<longrightarrow> slot M' j = slot M j"
    and s: "c_used (slot M' i)" "0 < c_complete (slot M' i) \<longleftrightarrow> WAIT_CFM \<notin> c_flags (slot M' i)" "c_flags (slot M' i) \<inter> {NONBLOCK, WAIT_ACK} = {}"
    and l: "in_line M' (cmds M)"
  shows "mgr_ok M'"
proof -
  have "j < RWNX_CMD_ARRAY_SIZE \<and> c_used (slot M' j) \<and> (0 < c_complete (slot M' j) \<longleftrightarrow> WAIT_CFM \<notin> c_flags (slot M' j))"
    if "j \<in> set (cmds M)" for j
    using that ok sel(6) s by (cases "j = i") (auto simp: mgr_ok_def settled_def)
  moreover have "NONBLOCK \<notin> c_flags (slot M' j) \<and> WAIT_ACK \<notin> c_flags (slot M' j) \<and>
        (j \<notin> set (cmds M) \<longrightarrow> WAIT_PUSH \<notin> c_flags (slot M' j))" if "j < RWNX_CMD_ARRAY_SIZE" for j
    using that ok i sel(6) s(3) by (cases "j = i") (auto simp: mgr_ok_def)
  ultimately show ?thesis using ok sel l by (simp add: mgr_ok_def)
qed

lemma task_push_ok:
  assumes ok: "mgr_ok M" and n: "task_next M = Some i"
  shows "mgr_ok (task_push i M)" and "i \<in> set (cmds M)" and "deferred M i" and "\<not> deferred (task_push i M) i"
    and "\<forall>j. j \<noteq> i \<longrightarrow> slot (task_push i M) j = slot M j" and "\<forall>j \<in> set (cmds M). deferred M j"
proof -
  obtain js where c: "cmds M = i # js" and f: "WAIT_PUSH \<in> c_flags (slot M i)"
    using n by (auto simp: task_next_def split: list.splits if_splits)
  show m: "i \<in> set (cmds M)" using c by simp
  show d: "deferred M i" using f by (simp add: deferred_def)
  have "in_line M (i # js)" using ok c by (simp add: mgr_ok_def)
  then have rest: "\<forall>j\<in>set js. deferred M j" using d kinds(1) by auto
  then show "\<forall>j \<in> set (cmds M). deferred M j" using c d by simp
  have l: "i < length (cmd_array M)" using ok m by (simp add: mgr_ok_def)
  have sl: "slot (task_push i M) j = (if j = i then clear_flag WAIT_PUSH (slot M i) else slot M j)" for j
    using l by (simp add: task_push_def slot_upd)
  then show o: "\<forall>j. j \<noteq> i \<longrightarrow> slot (task_push i M) j = slot M j" by simp
  show a: "\<not> deferred (task_push i M) i" using sl by (simp add: deferred_def)
  have "i \<notin> set js" using ok c by (simp add: mgr_ok_def)
  then have rest': "\<forall>j\<in>set js. deferred (task_push i M) j" using rest o by (auto simp: deferred_def)
  have "settled (task_push i M) i \<or> awaiting (task_push i M) i" using a by (auto simp: settled_def awaiting_def deferred_def)
  then have lin: "in_line (task_push i M) (cmds M)" using rest' in_line_deferred[OF rest'] c by auto
  have "c_used (slot M i)" "0 < c_complete (slot M i) \<longleftrightarrow> WAIT_CFM \<notin> c_flags (slot M i)"
    "c_flags (slot M i) \<inter> {NONBLOCK, WAIT_ACK} = {}"
    using ok m by (auto simp: mgr_ok_def)
  then show "mgr_ok (task_push i M)"
    by (intro mgr_ok_change[OF ok m _ _ _ _ _ o]) (auto simp: task_push_def slot_upd l lin[unfolded task_push_def])
qed

lemma find_cfm_some:
  "find_cfm cb M mid js = Some i \<Longrightarrow> i \<in> set js \<and> c_reqid (slot M i) = mid \<and> WAIT_CFM \<in> c_flags (slot M i) \<and> cb i"
  by (induction js) (auto split: if_splits)

lemma cmd_complete_sel:
  assumes "i < length (cmd_array M)" "NONBLOCK \<notin> c_flags (slot M i)" "RWNX_CMD_WAIT_COMPLETE (c_flags (slot M i))"
  shows "slot (cmd_complete i M) j = (if j = i then (slot M i)\<lparr>c_flags := insert DONE (c_flags (slot M i)), c_result := 0,
      c_complete := c_complete (slot M i) + 1\<rparr> else slot M j)"
    "cmds (cmd_complete i M) = cmds M" "queue_sz (cmd_complete i M) = queue_sz M" "max_queue_sz (cmd_complete i M) = max_queue_sz M"
    "length (cmd_array (cmd_complete i M)) = length (cmd_array M)" "mstate (cmd_complete i M) = mstate M"
    "queue_sz M \<noteq> 0 \<Longrightarrow> ws_tx (cmd_complete i M) = ws_tx M"
  using assms by (auto simp: cmd_complete_def Let_def slot_upd RWNX_CMD_WAIT_COMPLETE_def)

text \<open>
  A confirmation settles the command it is for, or changes nothing. A command that still waits for
  the worker may be confirmed as well: then it is no longer one the firmware has to answer.
\<close>

lemma msgind_cases:
  assumes ok: "mgr_ok M" and m: "cmd_mgr_msgind cb mid param M = (M', out)"
  shows "M' = M \<and> out = [] \<or> (\<exists>i \<in> set (cmds M). c_reqid (slot M i) = mid \<and> WAIT_CFM \<in> c_flags (slot M i) \<and>
    cmds M' = cmds M \<and> queue_sz M' = queue_sz M \<and> ws_tx M' = ws_tx M \<and> max_queue_sz M' = max_queue_sz M \<and>
    length (cmd_array M') = length (cmd_array M) \<and> mstate M' = mstate M \<and> (\<forall>j. j \<noteq> i \<longrightarrow> slot M' j = slot M j) \<and>
    slot M' i = (slot M i)\<lparr>c_flags := insert DONE (c_flags (slot M i) - {WAIT_CFM}), c_result := 0,
       c_complete := c_complete (slot M i) + 1\<rparr>)"
proof (cases "find_cfm cb M mid (cmds M)")
  case None
  then show ?thesis using m by (simp add: cmd_mgr_msgind_def)
next
  case (Some i)
  note f = find_cfm_some[OF Some]
  have l: "i < length (cmd_array M)" "NONBLOCK \<notin> c_flags (slot M i)" "WAIT_ACK \<notin> c_flags (slot M i)" "queue_sz M \<noteq> 0"
    using ok f of_nat_small(2)[of "length (cmds M)"] by (auto simp: mgr_ok_def)
  let ?M = "upd_slot i (clear_flag WAIT_CFM) M"
  have s: "slot ?M i = clear_flag WAIT_CFM (slot M i)" "\<forall>j. j \<noteq> i \<longrightarrow> slot ?M j = slot M j" using l(1) by (simp_all add: slot_upd)
  have w: "RWNX_CMD_WAIT_COMPLETE (c_flags (slot ?M i))" using l s by (auto simp: RWNX_CMD_WAIT_COMPLETE_def)
  have M': "M' = cmd_complete i ?M" using m Some w by (simp add: cmd_mgr_msgind_def Let_def)
  note c = cmd_complete_sel[of i ?M, OF _ _ w]
  show ?thesis using f l s c unfolding M' by auto
qed

section \<open>Requests\<close>

lemma upd_slot_twice: "upd_slot i f (upd_slot i g M) = upd_slot i (\<lambda>c. f (g c)) M"
proof (cases "i < length (cmd_array M)")
  case False
  then show ?thesis by (simp add: upd_slot_def list_update_beyond not_less)
qed (simp add: upd_slot_def)

definition asks :: "nat \<Rightarrow> rwnx_cmd_mgr \<Rightarrow> bool" where
  "asks i M \<longleftrightarrow> i < RWNX_CMD_ARRAY_SIZE \<and> i \<notin> set (cmds M) \<and> c_used (slot M i) \<and> REQ_CFM \<in> c_flags (slot M i)"

definition same_but :: "nat \<Rightarrow> rwnx_cmd_mgr \<Rightarrow> rwnx_cmd_mgr \<Rightarrow> bool" where
  "same_but i M M' \<longleftrightarrow> mstate M' = mstate M \<and> (\<forall>j. j \<noteq> i \<longrightarrow> slot M' j = slot M j)"

lemma malloc_new:
  assumes "mgr_ok M" and m: "rwnx_cmd_malloc M = (Some i, M')"
  shows "i < RWNX_CMD_ARRAY_SIZE" "\<not> c_used (slot M i)" "M' = upd_slot i (\<lambda>c. c\<lparr>c_used := True\<rparr>) M"
proof -
  have l: "length (cmd_array M) = RWNX_CMD_ARRAY_SIZE" using assms(1) by (simp add: mgr_ok_def)
  show "i < RWNX_CMD_ARRAY_SIZE" "\<not> c_used (slot M i)" "M' = upd_slot i (\<lambda>c. c\<lparr>c_used := True\<rparr>) M"
    by (cases rule: first_idx_cases[of "\<lambda>c. \<not> c_used c" "cmd_array M"]; use m l in \<open>auto simp: rwnx_cmd_malloc_def slot_def Let_def\<close>)+
qed

text \<open>The slot of a new request: taken from the free ones, marked and filled.\<close>

lemma ask_new:
  assumes ok: "mgr_ok M" and m: "rwnx_cmd_malloc M = (Some i, M1)"
    and M': "M' = upd_slot i (clear_flag WAIT_ACK) (upd_slot i (fill_cmd m True reqid cfm) M1)"
  shows "mgr_ok M'" "\<not> c_used (slot M i)" "asks i M'" "same_but i M M'" "cmds M' = cmds M"
    "c_reqid (slot M' i) = reqid" "c_msg (slot M' i) = m" "c_e2a (slot M' i) = cfm"
proof -
  note n = malloc_new[OF ok m]
  show "\<not> c_used (slot M i)" by (rule n(2))
  have e: "M' = upd_slot i (\<lambda>c. clear_flag WAIT_ACK (fill_cmd m True reqid cfm (c\<lparr>c_used := True\<rparr>))) M"
    unfolding M' n(3) by (simp add: upd_slot_twice)
  have l: "i < length (cmd_array M)" "i \<notin> set (cmds M)" "c_flags (slot M i) \<inter> {NONBLOCK, WAIT_PUSH} = {}"
    using ok n by (auto simp: mgr_ok_def)
  show "mgr_ok M'" unfolding e by (rule mgr_ok_upd[OF ok n(1) l(2)]) (use l(3) in \<open>auto simp: fill_cmd_def\<close>)
  show "asks i M'" "same_but i M M'" "cmds M' = cmds M"
    "c_reqid (slot M' i) = reqid" "c_msg (slot M' i) = m" "c_e2a (slot M' i) = cfm"
    unfolding e asks_def same_but_def using l n(1) by (simp_all add: slot_upd fill_cmd_def)
qed

lemma send_msg_ask:
  assumes "rwnx_send_msg usb m True reqid cfm M = Some (ToQueue i, M', out)"
  shows "\<exists>M1. rwnx_cmd_malloc M = (Some i, M1) \<and>
    M' = upd_slot i (clear_flag WAIT_ACK) (upd_slot i (fill_cmd m True reqid cfm) M1) \<and> out = []"
  using assms by (auto simp: rwnx_send_msg_def Let_def split: if_splits option.splits prod.splits)

lemma send_msg1_ask:
  assumes "rwnx_send_msg1 usb m True reqid cfm M = Some (ToQueue i, M')"
  shows "\<exists>M1. rwnx_cmd_malloc M = (Some i, M1) \<and>
    M' = upd_slot i (clear_flag WAIT_ACK) (upd_slot i (fill_cmd m True reqid cfm) M1)"
  using assms by (auto simp: rwnx_send_msg1_def Let_def split: if_splits option.splits prod.splits)

text \<open>A refused request leaves the queue as it was.\<close>

lemma refused:
  assumes ok: "mgr_ok M" and a: "asks i M"
    and r: "(if d then cmd_mgr_queue_force_defer i M else cmd_mgr_queue i M) = (QErr held e, M')"
  shows "mgr_ok (rwnx_cmd_free i M')" "same_but i M (rwnx_cmd_free i M')" "cmds (rwnx_cmd_free i M') = cmds M"
proof -
  obtain x where "M' = upd_slot i (\<lambda>c. c\<lparr>c_result := x\<rparr>) M"
    using r by (auto simp: cmd_mgr_queue_def cmd_mgr_queue_force_defer_def Let_def split: if_splits)
  then have e: "rwnx_cmd_free i M' = upd_slot i (\<lambda>c. c\<lparr>c_result := x, c_used := False\<rparr>) M"
    by (simp add: rwnx_cmd_free_def upd_slot_twice)
  have f: "c_flags (slot M i) \<inter> {NONBLOCK, WAIT_ACK, WAIT_PUSH} = {}" using ok a by (auto simp: mgr_ok_def asks_def)
  show "mgr_ok (rwnx_cmd_free i M')" unfolding e by (rule mgr_ok_upd[OF ok]) (use a f in \<open>auto simp: asks_def\<close>)
  show "same_but i M (rwnx_cmd_free i M')" "cmds (rwnx_cmd_free i M') = cmds M"
    unfolding e same_but_def by (simp_all add: slot_upd)
qed

lemma room:
  assumes "mgr_ok M" "\<not> (cmds M \<noteq> [] \<and> queue_sz M = max_queue_sz M)"
  shows "length (cmds M) < 16"
  using assms of_nat_small(1)[of "length (cmds M)"] by (cases "cmds M = []") (auto simp: mgr_ok_def)

lemma cmd_enqueue_ok:
  assumes ok: "mgr_ok M" and a: "asks i M" and r: "length (cmds M) < 16"
    and p: "\<not> d \<Longrightarrow> \<forall>j\<in>set (cmds M). settled M j"
  shows "mgr_ok (enqueue d i M)" "same_but i M (enqueue d i M)" "cmds (enqueue d i M) = cmds M @ [i]"
    "deferred (enqueue d i M) i \<longleftrightarrow> d" "c_msg (slot (enqueue d i M) i) = c_msg (slot M i)"
    "WAIT_CFM \<in> c_flags (slot (enqueue d i M) i)"
proof -
  have l: "i < length (cmd_array M)" "REQ_CFM \<in> c_flags (slot M i)" "NONBLOCK \<notin> c_flags (slot M i)"
    "WAIT_ACK \<notin> c_flags (slot M i)" "WAIT_PUSH \<notin> c_flags (slot M i)"
    using ok a by (auto simp: mgr_ok_def asks_def)
  note s = enqueue_sel[OF l(1-3), of d]
  show c: "cmds (enqueue d i M) = cmds M @ [i]" "same_but i M (enqueue d i M)"
    "deferred (enqueue d i M) i \<longleftrightarrow> d" "c_msg (slot (enqueue d i M) i) = c_msg (slot M i)"
    "WAIT_CFM \<in> c_flags (slot (enqueue d i M) i)"
    using l(5) by (auto simp: s same_but_def deferred_def)
  show "mgr_ok (enqueue d i M)"
  proof (rule mgr_ok_add[OF ok _ _ _ r s(1-4) s(6)])
    show "\<forall>j\<in>set (cmds M). settled M j" if "WAIT_PUSH \<notin> c_flags (slot (enqueue d i M) i)"
      using that p by (auto simp: s split: if_splits)
  qed (use a l in \<open>auto simp: s asks_def\<close>)
qed

text \<open>A request that finds its place, at once or deferred.\<close>

lemma force_ok:
  assumes ok: "mgr_ok M" and a: "asks i M" and r: "cmd_mgr_queue_force_defer i M = (QDefer, M')"
  shows "mgr_ok M'" "same_but i M M'" "cmds M' = cmds M @ [i]" "deferred M' i"
proof -
  have "M' = enqueue True i M" "length (cmds M) < 16"
    using r room[OF ok] by (auto simp: cmd_mgr_queue_force_defer_def split: if_splits)
  then show "mgr_ok M'" "same_but i M M'" "cmds M' = cmds M @ [i]" "deferred M' i"
    using cmd_enqueue_ok[OF ok a, of True] by simp_all
qed

lemma queue_ok:
  assumes ok: "mgr_ok M" and a: "asks i M" and r: "cmd_mgr_queue i M = (r, M')" "r = QPush \<or> r = QDefer"
  shows "mgr_ok M'" "same_but i M M'" "cmds M' = cmds M @ [i]" "deferred M' i \<longleftrightarrow> r = QDefer"
    "c_msg (slot M' i) = c_msg (slot M i)" "WAIT_CFM \<in> c_flags (slot M' i)"
proof -
  define d where "d = (cmds M \<noteq> [] \<and> c_flags (slot M (last (cmds M))) \<inter> {WAIT_ACK, WAIT_PUSH, WAIT_CFM} \<noteq> {})"
  let ?M = "enqueue d i M"
  define late where "late = (lm_id (c_msg (slot ?M i)) = ME_TRAFFIC_IND_REQ \<or> lm_id (c_msg (slot ?M i)) = MM_SET_ARPOFFLOAD_REQ)"
  have g: "\<not> (cmds M \<noteq> [] \<and> queue_sz M = max_queue_sz M)"
    and M': "M' = (if late then upd_slot i (set_flag WAIT_PUSH) ?M else ?M)" and rr: "r = (if d \<or> late then QDefer else QPush)"
    using r by (auto simp: cmd_mgr_queue_def Let_def d_def late_def split: if_splits)
  have line: "in_line M (cmds M)" using ok by (simp add: mgr_ok_def)
  have "\<not> d \<Longrightarrow> \<forall>j\<in>set (cmds M). settled M j"
    using in_line_last[OF line] by (cases "cmds M = []") (auto simp: d_def settled_def)
  then have e: "mgr_ok ?M" "same_but i M ?M" "cmds ?M = cmds M @ [i]" "deferred ?M i \<longleftrightarrow> d"
    "c_msg (slot ?M i) = c_msg (slot M i)" "WAIT_CFM \<in> c_flags (slot ?M i)"
    using cmd_enqueue_ok[OF ok a room[OF ok g], of d] by blast+
  show "mgr_ok M'" "same_but i M M'" "cmds M' = cmds M @ [i]" "deferred M' i \<longleftrightarrow> r = QDefer"
    "c_msg (slot M' i) = c_msg (slot M i)" "WAIT_CFM \<in> c_flags (slot M' i)"
  proof -
    have l: "i < length (cmd_array ?M)" using a e(1) by (simp add: asks_def mgr_ok_def)
    have i: "i \<in> set (cmds ?M)" "i \<notin> set (cmds M)" using e(3) a by (simp_all add: asks_def)
    have o: "\<forall>j. j \<noteq> i \<longrightarrow> slot (upd_slot i (set_flag WAIT_PUSH) ?M) j = slot ?M j" by (simp add: slot_upd)
    have line1: "in_line (upd_slot i (set_flag WAIT_PUSH) ?M) (cmds ?M)"
      unfolding e(3)
    proof (rule in_line_snoc_deferred)
      show "in_line (upd_slot i (set_flag WAIT_PUSH) ?M) (cmds M)"
        using line in_line_cong[of "cmds M" "upd_slot i (set_flag WAIT_PUSH) ?M" M] o e(2) i(2)
        unfolding same_but_def by metis
    qed (use l in \<open>simp add: deferred_def slot_upd\<close>)
    have "mgr_ok (upd_slot i (set_flag WAIT_PUSH) ?M)"
      by (rule mgr_ok_change[OF e(1) i(1) _ _ _ _ _ o _ _ _ line1]) (use e(1) i(1) l in \<open>auto simp: mgr_ok_def slot_upd\<close>)
    then show "mgr_ok M'" using e(1) M' by simp
    show "same_but i M M'" using e(2) M' by (auto simp: same_but_def slot_upd)
    show "cmds M' = cmds M @ [i]" using e(3) M' by simp
    show "deferred M' i \<longleftrightarrow> r = QDefer" using e(4) M' rr l by (auto simp: deferred_def slot_upd)
    show "c_msg (slot M' i) = c_msg (slot M i)" using e(5) M' l by (simp add: slot_upd)
    show "WAIT_CFM \<in> c_flags (slot M' i)" using e(6) M' l by (simp add: slot_upd)
  qed
qed

section \<open>The system\<close>

lemma msgind_ok:
  assumes ok: "mgr_ok M" and m: "cmd_mgr_msgind cb mid param M = (M', out)"
  shows "mgr_ok M'" "cmds M' = cmds M" "mstate M' = mstate M" "\<forall>j. deferred M' j = deferred M j"
    "\<forall>j. j \<notin> set (cmds M) \<longrightarrow> slot M' j = slot M j"
proof -
  consider "M' = M" | i where "i \<in> set (cmds M)" "WAIT_CFM \<in> c_flags (slot M i)" "cmds M' = cmds M" "queue_sz M' = queue_sz M"
    "ws_tx M' = ws_tx M" "max_queue_sz M' = max_queue_sz M" "length (cmd_array M') = length (cmd_array M)"
    "mstate M' = mstate M" "\<forall>j. j \<noteq> i \<longrightarrow> slot M' j = slot M j"
    "slot M' i = (slot M i)\<lparr>c_flags := insert DONE (c_flags (slot M i) - {WAIT_CFM}), c_result := 0,
       c_complete := c_complete (slot M i) + 1\<rparr>"
    using msgind_cases[OF ok m] by blast
  note two = this
  have d: "deferred M' j = deferred M j" for j
    using two
  proof cases
    case (2 i)
    then show ?thesis by (cases "j = i") (auto simp: deferred_def)
  qed simp
  then show "\<forall>j. deferred M' j = deferred M j" by simp
  show "cmds M' = cmds M" using two by cases simp_all
  show "mstate M' = mstate M" using two by cases simp_all
  show "\<forall>j. j \<notin> set (cmds M) \<longrightarrow> slot M' j = slot M j"
    using two
  proof cases
    case (2 i)
    then show ?thesis by metis
  qed simp
  show "mgr_ok M'"
    using two
  proof cases
    case (2 i)
    have ln: "in_line M (cmds M)" "distinct (cmds M)" using ok by (simp_all add: mgr_ok_def)
    have "in_line M' (cmds M)"
    proof (cases "deferred M i")
      case True
      have "settled M' j = settled M j" for j
        using 2(9,10) True by (cases "j = i") (auto simp: settled_def deferred_def)
      then show ?thesis using in_line_kinds[of "cmds M" M' M] d ln by simp
    next
      case False
      then have "awaiting M i" "settled M' i" using 2(2,10) by (auto simp: awaiting_def settled_def deferred_def)
      then show ?thesis using in_line_change[OF ln] 2(9) by simp
    qed
    then show ?thesis
      using mgr_ok_change[OF ok 2(1,3-7,9)] ok 2(1,10) by (auto simp: mgr_ok_def)
  qed (simp add: ok)
qed

lemma owned_upd:
  "owned (S\<lparr>mgr := M\<rparr>) = owned S" "owned (S\<lparr>asking := as\<rparr>) = owned S" "owned (S\<lparr>pending := b\<rparr>) = owned S"
  "owned (S\<lparr>to_check := n\<rparr>) = owned S" "owned (S\<lparr>mgr := M, asking := as\<rparr>) = owned S"
  "owned (S\<lparr>mgr := M, asking := as, to_check := n\<rparr>) = owned S" "owned (S\<lparr>mgr := M, asking := as, pending := b\<rparr>) = owned S"
  "owned (S\<lparr>to_check := n, pending := b\<rparr>) = owned S"
  by (simp_all add: owned_def)

text \<open>How the sections of the manager move a command between the parts of the system.\<close>

lemma cmd_ok_asks:
  assumes "cmd_ok S" "(i, d) \<in> set (asking S)"
  shows "mgr_ok (mgr S)" "asks i (mgr S)" "i \<notin> fst ` set (remove1 (i, d) (asking S))" "i \<notin> set (owned S)"
proof -
  show "mgr_ok (mgr S)" "asks i (mgr S)" using assms by (auto simp: cmd_ok_def asks_def)
  then show "i \<notin> set (owned S)" using assms by (auto simp: cmd_ok_def asks_def)
  obtain as bs where e: "asking S = as @ (i, d) # bs" "(i, d) \<notin> set as" using split_list_first[OF assms(2)] by blast
  have "distinct (map fst (asking S))" using assms(1) by (simp add: cmd_ok_def)
  then show "i \<notin> fst ` set (remove1 (i, d) (asking S))" using e by (auto simp: remove1_append)
qed

lemma distinct_map_remove1: "distinct (map f xs) \<Longrightarrow> distinct (map f (remove1 x xs))"
proof (induction xs)
  case (Cons a xs)
  then show ?case using set_remove1_subset[of x xs] by auto
qed simp

lemma cmd_ok_queued:
  assumes ok: "cmd_ok S" and a: "(i, d) \<in> set (asking S)" and m: "mgr_ok M" "same_but i (mgr S) M" "cmds M = cmds (mgr S) @ [i]"
    and o: "owned S' = (if deferred M i then owned S else i # owned S)" "mgr S' = M" "asking S' = remove1 (i, d) (asking S)"
      "set (owned S') = insert i (set (owned S)) \<or> deferred M i"
  shows "cmd_ok S'"
proof -
  note b = cmd_ok_asks[OF ok a]
  have r: "set (asking S') \<subseteq> set (asking S)" using o(3) set_remove1_subset by metis
  have "j \<noteq> i" if "j \<in> set (cmds (mgr S))" for j using b(2) that by (auto simp: asks_def)
  then have od: "deferred M j = deferred (mgr S) j" if "j \<in> set (cmds (mgr S))" for j
    using m(2) that by (simp add: same_but_def deferred_def)
  have "fst x \<noteq> i" if "x \<in> set (asking S')" for x using that b(3) o(3) by auto
  moreover have "distinct (map fst (asking S'))" using ok distinct_map_remove1[of fst "asking S" "(i, d)"] o(3) by (simp add: cmd_ok_def)
  moreover have "set (owned S') = {j \<in> set (cmds M). \<not> deferred M j}"
    using ok o(1) m(3) od by (auto simp: cmd_ok_def)
  moreover have "distinct (owned S')" using ok o(1) b(4) by (simp add: cmd_ok_def)
  ultimately show ?thesis using ok m o(2) r unfolding cmd_ok_def same_but_def by (auto simp: subset_iff)
qed

lemma cmd_ok_asked:
  assumes ok: "cmd_ok S" and m: "mgr_ok M" "\<not> c_used (slot (mgr S) i)" "asks i M" "same_but i (mgr S) M" "cmds M = cmds (mgr S)"
  shows "cmd_ok (S\<lparr>mgr := M, asking := (i, d) # asking S\<rparr>)"
proof -
  have u: "c_used (slot (mgr S) j)" if "j \<in> set (cmds (mgr S)) \<or> j \<in> fst ` set (asking S)" for j
    using that ok by (auto simp: cmd_ok_def mgr_ok_def)
  then have n: "i \<notin> set (cmds (mgr S))" "i \<notin> fst ` set (asking S)" using m(2) by blast+
  have "deferred M j = deferred (mgr S) j" if "j \<in> set (cmds (mgr S))" for j
    using that n(1) m(4) by (metis same_but_def deferred_def)
  moreover have "slot M (fst x) = slot (mgr S) (fst x)" if "x \<in> set (asking S)" for x
    using that n(2) m(4) by (metis same_but_def imageI)
  ultimately show ?thesis using ok m n by (auto simp: cmd_ok_def asks_def owned_upd)
qed

lemma cmd_ok_refused:
  assumes ok: "cmd_ok S" and a: "(i, d) \<in> set (asking S)" and m: "mgr_ok M" "same_but i (mgr S) M" "cmds M = cmds (mgr S)"
  shows "cmd_ok (S\<lparr>mgr := M, asking := remove1 (i, d) (asking S)\<rparr>)"
proof -
  note b = cmd_ok_asks[OF ok a]
  have "deferred M j = deferred (mgr S) j" if "j \<in> set (cmds (mgr S))" for j
    using that b(2) m(2) by (metis same_but_def deferred_def asks_def)
  moreover have "slot M (fst x) = slot (mgr S) (fst x) \<and> x \<in> set (asking S)" if "x \<in> set (remove1 (i, d) (asking S))" for x
    using that b(3) m(2) set_remove1_subset by (metis same_but_def imageI subsetD)
  ultimately show ?thesis using ok m distinct_map_remove1[of fst "asking S" "(i, d)"]
    by (auto simp: cmd_ok_def owned_upd)
qed

text \<open>The end of a wait: the caller's command is confirmed, and leaves the queue.\<close>

lemma cmd_ok_ended:
  assumes ok: "cmd_ok S" and o: "i \<in> set (owned S)" "0 < c_complete (slot (mgr S) i)" "wait_ended i (mgr S) = Some M"
    and S': "mgr S' = M" "asking S' = asking S" "distinct (owned S')" "set (owned S') = set (owned S) - {i}"
  shows "cmd_ok S'"
proof -
  have m: "mgr_ok (mgr S)" and i: "i \<in> set (cmds (mgr S))" "\<not> deferred (mgr S) i" using ok o(1) by (auto simp: cmd_ok_def)
  then have "settled (mgr S) i" using o(2) by (auto simp: settled_def mgr_ok_def deferred_def)
  note e = mgr_ok_drop[OF m this o(3)]
  have "deferred M j = deferred (mgr S) j" for j using e(5) by (simp add: deferred_def)
  moreover have "set (cmds M) = set (cmds (mgr S)) - {i}" using e(3) m by (simp add: mgr_ok_def)
  moreover have "slot M (fst x) = slot (mgr S) (fst x)" if "x \<in> set (asking S)" for x
    using that ok i(1) e(6) by (auto simp: cmd_ok_def)
  ultimately show ?thesis using ok e(1) S' by (auto simp: cmd_ok_def)
qed

lemma crashed [simp]: "mstate (wait_timed_out i M) = CRASHED" "mstate (rwnx_cmd_free i M) = mstate M"
proof -
  have "mstate (cmd_complete i M) = mstate M" for M by (simp add: cmd_complete_def Let_def rwnx_cmd_free_def)
  then show "mstate (wait_timed_out i M) = CRASHED" by (simp add: wait_timed_out_def Let_def)
qed (simp add: rwnx_cmd_free_def)

lemma cmd_ok_step:
  assumes st: "cmd_step usb S out S'" and ok: "cmd_ok S" and run: "mstate (mgr S') \<noteq> CRASHED"
  shows "cmd_ok S'"
  using st
proof cases
  case (ask m reqid cfm i M)
  obtain M1 where "rwnx_cmd_malloc (mgr S) = (Some i, M1)"
    "M = upd_slot i (clear_flag WAIT_ACK) (upd_slot i (fill_cmd m True reqid cfm) M1)" using send_msg_ask[OF ask(2)] by blast
  from ask_new[OF _ this] ok show ?thesis unfolding ask(1) by (intro cmd_ok_asked) (simp_all add: cmd_ok_def)
next
  case (ask1 m reqid cfm i M d)
  obtain M1 where "rwnx_cmd_malloc (mgr S) = (Some i, M1)"
    "M = upd_slot i (clear_flag WAIT_ACK) (upd_slot i (fill_cmd m True reqid cfm) M1)" using send_msg1_ask[OF ask1(3)] by blast
  from ask_new[OF _ this] ok show ?thesis unfolding ask1(2) by (intro cmd_ok_asked) (simp_all add: cmd_ok_def)
next
  case (refuse i d held e M)
  note b = cmd_ok_asks[OF ok refuse(3)]
  from refused[OF b(1,2) refuse(4)] show ?thesis unfolding refuse(2) by (intro cmd_ok_refused[OF ok refuse(3)])
next
  case (push i M)
  note b = cmd_ok_asks[OF ok push(3)]
  note q = queue_ok[OF b(1,2) push(4)]
  show ?thesis by (rule cmd_ok_queued[OF ok push(3) q(1-3)]) (use q(4) in \<open>auto simp: push(2) owned_def split: worker.split\<close>)
next
  case (put_off i M)
  note b = cmd_ok_asks[OF ok put_off(3)]
  note q = queue_ok[OF b(1,2) put_off(4)]
  show ?thesis by (rule cmd_ok_queued[OF ok put_off(3) q(1-3)]) (use q(4) in \<open>auto simp: put_off(2) owned_upd\<close>)
next
  case check
  then show ?thesis using ok by (simp add: cmd_ok_def owned_upd)
next
  case (force i M)
  note b = cmd_ok_asks[OF ok force(3)]
  note q = force_ok[OF b(1,2) force(4)]
  show ?thesis by (rule cmd_ok_queued[OF ok force(3) q(1-3)]) (use q(4) in \<open>auto simp: force(2) owned_upd\<close>)
next
  case (confirmed i M)
  show ?thesis by (rule cmd_ok_ended[OF ok _ confirmed(4,5)])
    (use confirmed ok in \<open>auto simp: owned_def cmd_ok_def split: worker.splits\<close>)
next
  case (timed_out i)
  then show ?thesis using run by simp
next
  case wake
  then show ?thesis using ok by (simp add: cmd_ok_def owned_def)
next
  case (work i)
  have m: "mgr_ok (mgr S)" using ok by (simp add: cmd_ok_def)
  note t = task_push_ok[OF m work(4)]
  have "set (waiting S) = {}" using ok t(6) work(3) by (simp add: cmd_ok_def owned_def)
  then have w: "waiting S = []" by simp
  have o: "owned S' = [i]" using w by (simp add: work owned_def)
  have c: "cmds (task_push i (mgr S)) = cmds (mgr S)" by (simp add: task_push_def)
  have d: "deferred (task_push i (mgr S)) j" if "j \<in> set (cmds (mgr S))" "j \<noteq> i" for j
    using t(5,6) that by (simp add: deferred_def)
  have "slot (task_push i (mgr S)) (fst x) = slot (mgr S) (fst x)" if "x \<in> set (asking S)" for x
    using that ok t(2,5) by (auto simp: cmd_ok_def)
  moreover have "set (owned S') = {j \<in> set (cmds (mgr S')). \<not> deferred (mgr S') j}"
    using o t(2,4) d c by (auto simp: work)
  ultimately show ?thesis using ok t(1) c o unfolding cmd_ok_def by (simp add: work)
next
  case rest
  then show ?thesis using ok by (simp add: cmd_ok_def owned_def)
next
  case (work_confirmed i M)
  show ?thesis by (rule cmd_ok_ended[OF ok _ work_confirmed(4,5)])
    (use work_confirmed ok in \<open>auto simp: owned_def cmd_ok_def\<close>)
next
  case (work_timed_out i)
  then show ?thesis using run by simp
next
  case (answer cb mid param M)
  have m: "mgr_ok (mgr S)" using ok by (simp add: cmd_ok_def)
  note a = msgind_ok[OF m answer(2)]
  have "slot M (fst x) = slot (mgr S) (fst x)" if "x \<in> set (asking S)" for x
    using that ok a(5) by (auto simp: cmd_ok_def)
  then show ?thesis using ok a unfolding answer(1) by (auto simp: cmd_ok_def owned_upd)
qed

lemma fresh_ok: "cmd_ok fresh_sys"
proof -
  have "slot fresh_mgr i = \<lparr>c_reqid = 0, c_msg = \<lparr>lm_id = 0, lm_dest = 0, lm_src = 0, lm_param = []\<rparr>, c_e2a = None, c_tkn = 0,
         c_flags = {}, c_complete = 0, c_result = 0, c_used = False\<rparr>" if "i < RWNX_CMD_ARRAY_SIZE" for i
    using that by (simp add: fresh_mgr_def slot_def rwnx_cmd_mgr_init_def rwnx_init_cmd_array_def)
  then show ?thesis
    by (simp add: cmd_ok_def mgr_ok_def fresh_sys_def owned_def)
      (simp add: fresh_mgr_def rwnx_cmd_mgr_init_def rwnx_init_cmd_array_def RWNX_CMD_MAX_QUEUED_def)
qed

text \<open>Once the manager is given up it stays so.\<close>

lemma crashed_stays:
  assumes "cmd_step usb S out S'" "mstate (mgr S') \<noteq> CRASHED"
  shows "mstate (mgr S) \<noteq> CRASHED"
proof
  assume c: "mstate (mgr S) = CRASHED"
  from assms show False
  proof cases
    case (ask m reqid cfm i M)
    then show False using send_msg_ask[OF ask(2)] assms(2) c
      by (auto simp: rwnx_cmd_malloc_def Let_def split: if_splits)
  next
    case (ask1 m reqid cfm i M d)
    then show False using send_msg1_ask[OF ask1(3)] assms(2) c
      by (auto simp: rwnx_cmd_malloc_def Let_def split: if_splits)
  qed (use assms(2) c in \<open>auto simp: cmd_mgr_queue_def cmd_mgr_queue_force_defer_def wait_ended_def task_push_def
      cmd_mgr_msgind_def cmd_complete_def Let_def split: if_splits option.splits\<close>)
qed

theorem cmd_reach_ok: "cmd_reach S \<Longrightarrow> mstate (mgr S) \<noteq> CRASHED \<Longrightarrow> cmd_ok S"
proof (induction rule: cmd_reach.induct)
  case start
  show ?case by (rule fresh_ok)
next
  case (step S usb out S')
  then show ?case using cmd_ok_step crashed_stays by blast
qed

end
