(* ===== verification/CmdProps.thy ===== *)
theory CmdProps
  imports CmdInv
begin

text \<open>
  What the command manager promises: one command at a time at the firmware, deferred commands that
  are sent, and where it breaks these promises: two deferrals at once, and a confirmation after the
  caller has given up. Last, the layout of a command on the bus.
\<close>

section \<open>One command at a time\<close>


text \<open>A request that goes out at once, and one that is deferred behind it.\<close>

definition demo_msg :: "u16 \<Rightarrow> lmac_msg" where
  "demo_msg x = \<lparr>lm_id = x, lm_dest = 0, lm_src = 100, lm_param = [1, 2]\<rparr>"

definition demo_ask :: "u16 \<Rightarrow> nat option \<Rightarrow> cmd_sys \<Rightarrow> cmd_sys" where
  "demo_ask x b S = (case rwnx_send_msg USB_UP_ST (demo_msg x) True (x + 1) b (mgr S) of
     Some (ToQueue i, M, out) \<Rightarrow> S\<lparr>mgr := M, asking := (i, False) # asking S\<rparr> | _ \<Rightarrow> S)"

definition demo_push :: "nat \<Rightarrow> cmd_sys \<Rightarrow> cmd_sys" where
  "demo_push i S = S\<lparr>mgr := snd (cmd_mgr_queue i (mgr S)), asking := remove1 (i, False) (asking S), waiting := i # waiting S\<rparr>"

definition demo_put_off :: "nat \<Rightarrow> cmd_sys \<Rightarrow> cmd_sys" where
  "demo_put_off i S = S\<lparr>mgr := snd (cmd_mgr_queue i (mgr S)), asking := remove1 (i, False) (asking S), to_check := to_check S + 1\<rparr>"

definition demo_check :: "cmd_sys \<Rightarrow> cmd_sys" where
  "demo_check S = S\<lparr>to_check := to_check S - 1, pending := (pending S \<or> queue_sz (mgr S) \<le> 1)\<rparr>"

lemma demo_ask_step:
  assumes "map_option fst (rwnx_send_msg USB_UP_ST (demo_msg x) True (x + 1) b (mgr S)) = Some (ToQueue i)"
  shows "cmd_step USB_UP_ST S [] (demo_ask x b S)"
proof -
  obtain M out where r: "rwnx_send_msg USB_UP_ST (demo_msg x) True (x + 1) b (mgr S) = Some (ToQueue i, M, out)"
    using assms by (auto simp: map_option_case split: option.splits)
  then have "out = []" using send_msg_ask by blast
  with cmd_step.ask[OF r] show ?thesis by (simp add: demo_ask_def r)
qed

lemma demo_push_step:
  assumes "(i, False) \<in> set (asking S)" "fst (cmd_mgr_queue i (mgr S)) = QPush"
  shows "cmd_step USB_UP_ST S [Tx (c_msg (slot (snd (cmd_mgr_queue i (mgr S))) i))] (demo_push i S)"
proof -
  have r: "cmd_mgr_queue i (mgr S) = (QPush, snd (cmd_mgr_queue i (mgr S)))" using assms(2) by (simp add: prod_eq_iff)
  show ?thesis using cmd_step.push[OF assms(1) r, of USB_UP_ST] by (simp add: demo_push_def set_tx_def)
qed

lemma demo_put_off_step:
  assumes "(i, False) \<in> set (asking S)" "fst (cmd_mgr_queue i (mgr S)) = QDefer"
  shows "cmd_step USB_UP_ST S [] (demo_put_off i S)"
proof -
  have r: "cmd_mgr_queue i (mgr S) = (QDefer, snd (cmd_mgr_queue i (mgr S)))" using assms(2) by (simp add: prod_eq_iff)
  show ?thesis using cmd_step.put_off[OF assms(1) r] by (simp add: demo_put_off_def)
qed

lemma demo_check_step: "0 < to_check S \<Longrightarrow> cmd_step USB_UP_ST S [] (demo_check S)"
  unfolding demo_check_def by (rule cmd_step.check)

definition demo_one :: cmd_sys where "demo_one = demo_push 0 (demo_ask 2 (Some 7) fresh_sys)"

lemma demo_one_reach: "cmd_reach demo_one"
proof -
  let ?a = "demo_ask 2 (Some 7) fresh_sys"
  have "cmd_step USB_UP_ST fresh_sys [] ?a" by (rule demo_ask_step[of _ _ _ 0]) code_simp
  note r = cmd_reach.step[OF cmd_reach.start this]
  have "(0, False) \<in> set (asking ?a)" "fst (cmd_mgr_queue 0 (mgr ?a)) = QPush" by code_simp+
  from cmd_reach.step[OF r demo_push_step[OF this]] show ?thesis by (simp add: demo_one_def)
qed




section \<open>Deferred commands are sent\<close>

text \<open>
  Runs in which every caller that has queued a deferred command looks at the length of the queue
  before anyone else moves, on a bus that is up.
\<close>

inductive calm_reach :: "cmd_sys \<Rightarrow> bool" where
  start: "calm_reach fresh_sys"
| step: "calm_reach S \<Longrightarrow> cmd_step USB_UP_ST S out S' \<Longrightarrow> to_check S = 0 \<or> to_check S' < to_check S \<Longrightarrow> calm_reach S'"

lemma calm_reach: "calm_reach S \<Longrightarrow> cmd_reach S"
  by (induction rule: calm_reach.induct) (auto intro: cmd_reach.intros)

definition will_wake :: "cmd_sys \<Rightarrow> bool" where
  "will_wake S \<longleftrightarrow> to_check S \<le> 1 \<and> (task_next (mgr S) = None \<or> pending S \<or> worker S = WScan \<or>
     (to_check S = 1 \<and> length (cmds (mgr S)) = 1))"

lemma task_next_same:
  assumes "cmds M' = cmds M" "\<forall>j \<in> set (cmds M). deferred M' j = deferred M j"
  shows "task_next M' = task_next M"
  using assms by (auto simp: task_next_def deferred_def split: list.splits)

lemma task_next_snoc:
  assumes "cmds M' = cmds M @ [i]" "\<forall>j \<in> set (cmds M). deferred M' j = deferred M j" "cmds M \<noteq> []"
  shows "task_next M' = task_next M"
  using assms by (auto simp: task_next_def deferred_def split: list.splits)

lemma same_but_deferred:
  assumes "same_but i M M'" "i \<notin> set (cmds M)"
  shows "\<forall>j \<in> set (cmds M). deferred M' j = deferred M j"
  using assms unfolding same_but_def deferred_def by metis

lemma will_wake_step:
  assumes st: "cmd_step USB_UP_ST S out S'" and ok: "cmd_ok S" and w: "will_wake S"
    and calm: "to_check S = 0 \<or> to_check S' < to_check S" and run: "mstate (mgr S') \<noteq> CRASHED"
  shows "will_wake S'"
  using st
proof cases
  case (ask m reqid cfm i M)
  have mo: "mgr_ok (mgr S)" using ok by (simp add: cmd_ok_def)
  obtain M1 where "rwnx_cmd_malloc (mgr S) = (Some i, M1)"
    "M = upd_slot i (clear_flag WAIT_ACK) (upd_slot i (fill_cmd m True reqid cfm) M1)" using send_msg_ask[OF ask(2)] by blast
  note n = ask_new[OF mo this]
  have "task_next M = task_next (mgr S)"
    using task_next_same[OF n(5) same_but_deferred[OF n(4)]] n(3,5) by (simp add: asks_def)
  then show ?thesis using w ask(1) n(5) by (simp add: will_wake_def)
next
  case (ask1 m reqid cfm i M d)
  have mo: "mgr_ok (mgr S)" using ok by (simp add: cmd_ok_def)
  obtain M1 where "rwnx_cmd_malloc (mgr S) = (Some i, M1)"
    "M = upd_slot i (clear_flag WAIT_ACK) (upd_slot i (fill_cmd m True reqid cfm) M1)" using send_msg1_ask[OF ask1(3)] by blast
  note n = ask_new[OF mo this]
  have "task_next M = task_next (mgr S)"
    using task_next_same[OF n(5) same_but_deferred[OF n(4)]] n(3,5) by (simp add: asks_def)
  then show ?thesis using w ask1(2) n(5) by (simp add: will_wake_def)
next
  case (refuse i d held e M)
  note b = cmd_ok_asks[OF ok refuse(3)]
  note r = refused[OF b(1,2) refuse(4)]
  have "task_next (rwnx_cmd_free i M) = task_next (mgr S)"
    using task_next_same[OF r(3) same_but_deferred[OF r(2)]] b(2) by (simp add: asks_def)
  then show ?thesis using w refuse(2) r(3) by (simp add: will_wake_def)
next
  case (push i M)
  note b = cmd_ok_asks[OF ok push(3)]
  note q = queue_ok[OF b(1,2) push(4)]
  have "to_check S = 0" using calm push by auto
  then have n: "task_next (mgr S) = None \<or> pending S \<or> worker S = WScan" using w by (simp add: will_wake_def)
  show ?thesis
  proof (cases "cmds (mgr S) = []")
    case True
    then have "task_next M = None" using q(3,4) by (simp add: task_next_def deferred_def)
    then show ?thesis using \<open>to_check S = 0\<close> push by (simp add: will_wake_def)
  next
    case False
    then have "task_next M = task_next (mgr S)"
      using task_next_snoc[OF q(3) same_but_deferred[OF q(2)]] b(2) by (simp add: asks_def)
    then show ?thesis using n \<open>to_check S = 0\<close> push by (simp add: will_wake_def)
  qed
next
  case (put_off i M)
  note b = cmd_ok_asks[OF ok put_off(3)]
  note q = queue_ok[OF b(1,2) put_off(4)]
  have "to_check S = 0" using calm put_off by auto
  then have n: "task_next (mgr S) = None \<or> pending S \<or> worker S = WScan" using w by (simp add: will_wake_def)
  show ?thesis
  proof (cases "cmds (mgr S) = []")
    case True
    then show ?thesis using \<open>to_check S = 0\<close> put_off q(3) by (simp add: will_wake_def)
  next
    case False
    then have "task_next M = task_next (mgr S)"
      using task_next_snoc[OF q(3) same_but_deferred[OF q(2)]] b(2) by (simp add: asks_def)
    then show ?thesis using n \<open>to_check S = 0\<close> put_off by (auto simp: will_wake_def)
  qed
next
  case check
  have q: "queue_sz (mgr S) = of_nat (length (cmds (mgr S)))" using ok by (simp add: cmd_ok_def mgr_ok_def)
  have "length (cmds (mgr S)) = 1 \<longrightarrow> queue_sz (mgr S) \<le> 1" by (simp add: q)
  then show ?thesis using w check by (auto simp: will_wake_def)
next
  case (force i M)
  then show ?thesis using calm by (simp add: will_wake_def)
next
  case (confirmed i M)
  then show ?thesis using calm by (cases "cmds M") (simp_all add: will_wake_def task_next_def HOL.induct_true_def)
next
  case wake
  then show ?thesis using calm by (simp add: will_wake_def)
next
  case (work i)
  have "mgr_ok (mgr S)" using ok by (simp add: cmd_ok_def)
  note t = task_push_ok[OF this work(4)]
  obtain js where "cmds (mgr S) = i # js" using work(4) by (auto simp: task_next_def split: list.splits if_splits)
  then have "task_next (task_push i (mgr S)) = None" using t(4) by (simp add: task_next_def deferred_def task_push_def)
  then show ?thesis using work calm by (simp add: will_wake_def)
next
  case rest
  then show ?thesis using w by (simp add: will_wake_def)
next
  case (work_confirmed i M)
  then show ?thesis using calm by (simp add: will_wake_def)
next
  case (answer cb mid param M)
  have "mgr_ok (mgr S)" using ok by (simp add: cmd_ok_def)
  note a = msgind_ok[OF this answer(2)]
  have "task_next M = task_next (mgr S)" using task_next_same[OF a(2)] a(4) by simp
  then show ?thesis using w answer(1) a(2) by (simp add: will_wake_def)
qed (use run in simp_all)

lemma calm_wakes: "calm_reach S \<Longrightarrow> mstate (mgr S) \<noteq> CRASHED \<Longrightarrow> will_wake S"
proof (induction rule: calm_reach.induct)
  case start
  show ?case by (simp add: will_wake_def fresh_sys_def task_next_def fresh_mgr_def rwnx_cmd_mgr_init_def)
next
  case (step S out S')
  then show ?case using will_wake_step[OF step(2)] cmd_reach_ok[OF calm_reach[OF step(1)]] crashed_stays[OF step(2)] by blast
qed

text \<open>
  C16: A deferred command at the head of the queue is sent. When nobody moves between a deferral and
  the look at the queue, the worker is scanning the queue or has been woken, and what it does next
  is to hand this command to the firmware.
\<close>

theorem deferred_is_sent:
  assumes "calm_reach S" and "mstate (mgr S) \<noteq> CRASHED" and "to_check S = 0"
    and "cmds (mgr S) = i # js" and "deferred (mgr S) i"
  shows "\<exists>S1 S2. (S1 = S \<or> cmd_step USB_UP_ST S [] S1) \<and>
    cmd_step USB_UP_ST S1 [Tx (c_msg (slot (mgr S) i))] S2 \<and> worker S2 = WWait i"
proof -
  have n: "task_next (mgr S) = Some i" using assms(4,5) by (simp add: task_next_def deferred_def)
  have push: "cmd_step USB_UP_ST S1 [Tx (c_msg (slot (mgr S1) i))] (S1\<lparr>mgr := task_push i (mgr S1), worker := WWait i\<rparr>)"
    if "worker S1 = WScan" "mgr S1 = mgr S" for S1
    using cmd_step.work[of S1 i USB_UP_ST] that n by (simp add: set_tx_def)
  have ok: "cmd_ok S" by (rule cmd_reach_ok[OF calm_reach[OF assms(1)] assms(2)])
  have line: "\<forall>j \<in> set (i # js). deferred (mgr S) j" using ok assms(4,5) kinds(1) by (auto simp: cmd_ok_def mgr_ok_def)
  have "worker S \<noteq> WWait k" for k
  proof
    assume "worker S = WWait k"
    then have "k \<in> set (cmds (mgr S))" "\<not> deferred (mgr S) k" using ok by (auto simp: cmd_ok_def owned_def)
    then show False using line assms(4) by auto
  qed
  then consider "worker S = WScan" | "worker S = WIdle" "pending S"
    using calm_wakes[OF assms(1,2)] n assms(3) by (cases "worker S") (auto simp: will_wake_def)
  then show ?thesis
  proof cases
    case 1
    from push[OF this refl] show ?thesis by fastforce
  next
    case 2
    let ?S = "S\<lparr>pending := False, worker := WScan\<rparr>"
    have "cmd_step USB_UP_ST S [] ?S" by (rule cmd_step.wake[OF 2(2,1)])
    moreover have "worker ?S = WScan" "mgr ?S = mgr S" by simp_all
    ultimately show ?thesis using push[of ?S] by fastforce
  qed
qed

definition demo_traffic :: "cmd_sys \<Rightarrow> cmd_sys" where "demo_traffic = demo_ask ME_TRAFFIC_IND_REQ None"

definition demo_late :: cmd_sys where "demo_late = demo_check (demo_put_off 0 (demo_traffic fresh_sys))"

lemma demo_late_calm: "calm_reach demo_late"
proof -
  let ?a = "demo_traffic fresh_sys" and ?b = "demo_put_off 0 (demo_traffic fresh_sys)"
  have "cmd_step USB_UP_ST fresh_sys [] ?a" unfolding demo_traffic_def by (rule demo_ask_step[of _ _ _ 0]) code_simp
  moreover have "to_check fresh_sys = 0" by code_simp
  ultimately have a: "calm_reach ?a" using calm_reach.intros by blast
  have b: "(0, False) \<in> set (asking ?a)" "fst (cmd_mgr_queue 0 (mgr ?a)) = QDefer" "to_check ?a = 0" "to_check ?b = 1" by code_simp+
  from calm_reach.step[OF a demo_put_off_step[OF b(1,2)]] b(3) have "calm_reach ?b" by simp
  moreover have "cmd_step USB_UP_ST ?b [] demo_late" unfolding demo_late_def using b(4) by (intro demo_check_step) simp
  moreover have "to_check demo_late < to_check ?b" using b(4) by (simp add: demo_late_def demo_check_def)
  ultimately show ?thesis using calm_reach.step by blast
qed

lemma deferred_is_sent_witness:
  "\<exists>S1 S2. (S1 = demo_late \<or> cmd_step USB_UP_ST demo_late [] S1) \<and>
    cmd_step USB_UP_ST S1 [Tx (demo_msg ME_TRAFFIC_IND_REQ)] S2 \<and> worker S2 = WWait 0"
proof -
  have e: "mstate (mgr demo_late) \<noteq> CRASHED" "to_check demo_late = 0" "cmds (mgr demo_late) = [0]"
    "deferred (mgr demo_late) 0" "c_msg (slot (mgr demo_late) 0) = demo_msg ME_TRAFFIC_IND_REQ" by code_simp+
  from deferred_is_sent[OF demo_late_calm e(1-4)] show ?thesis by (simp only: e(5))
qed

section \<open>A lost wake-up\<close>

text \<open>Nobody is left to wake the worker, and only deferred commands are in the queue.\<close>

definition stuck :: "cmd_sys \<Rightarrow> bool" where
  "stuck S \<longleftrightarrow> cmd_ok S \<and> mstate (mgr S) \<noteq> CRASHED \<and> 2 \<le> length (cmds (mgr S)) \<and>
     (\<forall>i \<in> set (cmds (mgr S)). deferred (mgr S) i) \<and> \<not> pending S \<and> worker S = WIdle \<and> (\<forall>x \<in> set (asking S). \<not> snd x)"

text \<open>Steps in which no request forces its deferral (\<^verbatim>\<open>rwnx_send_msg1\<close> with \<^verbatim>\<open>defer\<close>).\<close>

inductive plain_run :: "cmd_sys \<Rightarrow> cmd_out list \<Rightarrow> cmd_sys \<Rightarrow> bool" where
  refl: "plain_run S [] S"
| step: "plain_run S out S' \<Longrightarrow> cmd_step usb S' out' S'' \<Longrightarrow> \<forall>x \<in> set (asking S''). \<not> snd x \<Longrightarrow> plain_run S (out @ out') S''"

lemma stuck_step:
  assumes st: "cmd_step usb S out S'" and s: "stuck S" and plain: "\<forall>x \<in> set (asking S'). \<not> snd x"
  shows "stuck S' \<and> (\<forall>m. Tx m \<notin> set out)"
proof -
  have ok: "cmd_ok S" "mgr_ok (mgr S)" and run: "mstate (mgr S) \<noteq> CRASHED" using s by (simp_all add: stuck_def cmd_ok_def)
  have ne: "cmds (mgr S) \<noteq> []" and two: "2 \<le> length (cmds (mgr S))" using s by (auto simp: stuck_def)
  have df: "\<forall>i \<in> set (cmds (mgr S)). deferred (mgr S) i" and idle: "worker S = WIdle" "\<not> pending S" using s by (simp_all add: stuck_def)
  have "set (owned S) = {}" using ok(1) df by (simp add: cmd_ok_def)
  then have nw: "waiting S = []" by (simp add: owned_def)
  have fin: "stuck S' \<and> (\<forall>m. Tx m \<notin> set out)" if "mstate (mgr S') = mstate (mgr S)" "\<exists>js. cmds (mgr S') = cmds (mgr S) @ js"
    "\<forall>i \<in> set (cmds (mgr S')). deferred (mgr S') i" "\<not> pending S'" "worker S' = WIdle" "\<forall>m. Tx m \<notin> set out"
    using that two plain cmd_ok_step[OF st ok(1)] run by (auto simp: stuck_def)
  from st show ?thesis
  proof cases
    case (ask m reqid cfm i M)
    obtain M1 where "rwnx_cmd_malloc (mgr S) = (Some i, M1)" and o: "out = []"
      "M = upd_slot i (clear_flag WAIT_ACK) (upd_slot i (fill_cmd m True reqid cfm) M1)" using send_msg_ask[OF ask(2)] by blast
    note n = ask_new[OF ok(2) this(1,3)]
    then show ?thesis using df idle same_but_deferred[OF n(4)] unfolding ask(1) o(1)
      by (intro fin[unfolded ask(1) o(1)]) (auto simp: asks_def same_but_def)
  next
    case (ask1 m reqid cfm i M d)
    obtain M1 where "rwnx_cmd_malloc (mgr S) = (Some i, M1)"
      "M = upd_slot i (clear_flag WAIT_ACK) (upd_slot i (fill_cmd m True reqid cfm) M1)" using send_msg1_ask[OF ask1(3)] by blast
    note n = ask_new[OF ok(2) this]
    then show ?thesis using df idle same_but_deferred[OF n(4)] unfolding ask1(1,2)
      by (intro fin[unfolded ask1(1,2)]) (auto simp: asks_def same_but_def)
  next
    case (refuse i d held e M)
    note b = cmd_ok_asks[OF ok(1) refuse(3)]
    note r = refused[OF b(1,2) refuse(4)]
    show ?thesis unfolding refuse(1,2)
      by (rule fin[unfolded refuse(1,2)]) (use r df idle b(2) same_but_deferred[OF r(2)] in \<open>auto simp: asks_def same_but_def\<close>)
  next
    case (push i M)
    note b = cmd_ok_asks[OF ok(1) push(3)]
    note q = queue_ok[OF b(1,2) push(4)]
    have "deferred (mgr S) (last (cmds (mgr S)))" using df ne by simp
    then have False using push(4) ne by (auto simp: cmd_mgr_queue_def Let_def deferred_def split: if_splits)
    then show ?thesis ..
  next
    case (put_off i M)
    note b = cmd_ok_asks[OF ok(1) put_off(3)]
    note q = queue_ok[OF b(1,2) put_off(4)]
    show ?thesis unfolding put_off(1,2)
      by (rule fin[unfolded put_off(1,2)]) (use q df idle b(2) same_but_deferred[OF q(2)] in \<open>auto simp: asks_def same_but_def\<close>)
  next
    case check
    have "queue_sz (mgr S) = of_nat (length (cmds (mgr S)))" "length (cmds (mgr S)) \<le> 16" using ok(2) by (simp_all add: mgr_ok_def)
    then have "\<not> queue_sz (mgr S) \<le> 1" using two of_nat_small(3)[of "length (cmds (mgr S))"] by simp
    then show ?thesis unfolding check(1,2) by (intro fin[unfolded check(1,2)]) (use df idle in auto)
  next
    case (answer cb mid param M)
    note a = msgind_ok[OF ok(2) answer(2)]
    have "Tx m \<notin> set out" for m
      using answer(2) by (auto simp: cmd_mgr_msgind_def Let_def split: option.splits if_splits)
    then show ?thesis unfolding answer(1) by (intro fin[unfolded answer(1)]) (use df idle a in auto)
  qed (use s nw idle in \<open>auto simp: stuck_def\<close>)
qed

lemma stuck_run: "plain_run S out S' \<Longrightarrow> stuck S \<Longrightarrow> stuck S' \<and> (\<forall>m. Tx m \<notin> set out)"
proof (induction rule: plain_run.induct)
  case (step S out S' usb out' S'')
  then show ?case using stuck_step[OF step(2)] by auto
qed simp

definition demo_stuck :: cmd_sys where
  "demo_stuck = demo_check (demo_check (demo_put_off 1 (demo_put_off 0 (demo_traffic (demo_traffic fresh_sys)))))"

lemma demo_stuck_reach: "cmd_reach demo_stuck"
proof -
  let ?a = "demo_traffic fresh_sys"
  let ?b = "demo_traffic ?a"
  let ?c = "demo_put_off 0 ?b"
  let ?d = "demo_put_off 1 ?c"
  have "cmd_step USB_UP_ST fresh_sys [] ?a" unfolding demo_traffic_def by (rule demo_ask_step[of _ _ _ 0]) code_simp
  note a = cmd_reach.step[OF cmd_reach.start this]
  have "cmd_step USB_UP_ST ?a [] ?b" unfolding demo_traffic_def by (rule demo_ask_step[of _ _ _ 1]) code_simp
  note b = cmd_reach.step[OF a this]
  have "(0, False) \<in> set (asking ?b)" "fst (cmd_mgr_queue 0 (mgr ?b)) = QDefer" by code_simp+
  note c = cmd_reach.step[OF b demo_put_off_step[OF this]]
  have "(1, False) \<in> set (asking ?c)" "fst (cmd_mgr_queue 1 (mgr ?c)) = QDefer" by code_simp+
  note d = cmd_reach.step[OF c demo_put_off_step[OF this]]
  have t: "to_check ?d = 2" by code_simp
  have "cmd_step USB_UP_ST ?d [] (demo_check ?d)" using t by (intro demo_check_step) simp
  note e = cmd_reach.step[OF d this]
  have "cmd_step USB_UP_ST (demo_check ?d) [] demo_stuck"
    unfolding demo_stuck_def using t by (intro demo_check_step) (simp add: demo_check_def)
  from cmd_reach.step[OF e this] show ?thesis .
qed

text \<open>
  A wake-up can get lost. Two requests that are always deferred may both be in the queue before
  the first of their callers looks at its length: then neither wakes the worker, and from there no
  step of callers and firmware sends any message, unless a request forces its deferral.
\<close>

theorem wakeup_lost:
  "\<exists>S. cmd_reach S \<and> mstate (mgr S) = INITED \<and> cmds (mgr S) = [0, 1] \<and> asking S = [] \<and> to_check S = 0 \<and>
     \<not> (\<exists>out S' m. plain_run S out S' \<and> Tx m \<in> set out)"
proof -
  have e: "mstate (mgr demo_stuck) = INITED" "cmds (mgr demo_stuck) = [0, 1]" "asking demo_stuck = []" "to_check demo_stuck = 0"
    "\<not> pending demo_stuck" "worker demo_stuck = WIdle" "deferred (mgr demo_stuck) 0" "deferred (mgr demo_stuck) 1" by code_simp+
  then have "stuck demo_stuck" using cmd_reach_ok[OF demo_stuck_reach] by (simp add: stuck_def)
  with e demo_stuck_reach stuck_run show ?thesis by blast
qed

section \<open>After a timeout\<close>

lemma find_cfm_awaiting:
  assumes "in_line M js" "i \<in> set js" "awaiting M i" "\<forall>j. c_reqid (slot M' j) = c_reqid (slot M j) \<and>
    (WAIT_CFM \<in> c_flags (slot M' j) \<longleftrightarrow> WAIT_CFM \<in> c_flags (slot M j))"
  shows "find_cfm (\<lambda>_. True) M' (c_reqid (slot M i)) js = Some i"
  using assms
proof (induction js)
  case (Cons a js)
  show ?case
  proof (cases "a = i")
    case True
    then show ?thesis using Cons.prems(3,4) by (simp add: awaiting_def)
  next
    case False
    then have "i \<in> set js" using Cons.prems(2) by simp
    moreover have "\<not> deferred M i" using Cons.prems(3) kinds(1) by blast
    ultimately have "settled M a" "in_line M js" using Cons.prems(1) by auto
    then show ?thesis using Cons \<open>i \<in> set js\<close> by (simp add: settled_def)
  qed
qed simp

text \<open>What a timeout leaves of the queue: all of it, with the flags of the command that ran out.\<close>

lemma timed_out_keeps:
  assumes "NONBLOCK \<notin> c_flags (slot M i)" "WAIT_CFM \<in> c_flags (slot M i)" "i < length (cmd_array M)"
  shows "cmds (rwnx_cmd_free i (wait_timed_out i M)) = cmds M"
    and "c_reqid (slot (rwnx_cmd_free i (wait_timed_out i M)) j) = c_reqid (slot M j)"
    and "c_e2a (slot (rwnx_cmd_free i (wait_timed_out i M)) j) = c_e2a (slot M j)"
    and "WAIT_CFM \<in> c_flags (slot (rwnx_cmd_free i (wait_timed_out i M)) j) \<longleftrightarrow> WAIT_CFM \<in> c_flags (slot M j)"
    and "\<not> c_used (slot (rwnx_cmd_free i (wait_timed_out i M)) i)"
  using assms by (auto simp: wait_timed_out_def cmd_complete_def rwnx_cmd_free_def Let_def slot_upd RWNX_CMD_WAIT_COMPLETE_def)

text \<open>
  C34: A confirmation that comes too late is written all the same. When the wait for a command runs
  out, its caller returns and the slot is free, but the command stays in the queue: the confirmation
  that comes next is copied to the buffer of the caller that has returned.
\<close>

theorem late_confirmation_written:
  assumes "cmd_reach S" and "mstate (mgr S) \<noteq> CRASHED" and "i \<in> set (waiting S)" and "c_complete (slot (mgr S) i) = 0"
    and "c_e2a (slot (mgr S) i) = Some b" and "param \<noteq> []" and "length param \<le> RWNX_CMD_E2AMSG_LEN_MAX"
  shows "\<exists>S1 S2. cmd_step usb S [] S1 \<and> i \<notin> set (waiting S1) \<and> \<not> c_used (slot (mgr S1) i) \<and>
    cmd_step usb S1 [Copy b param] S2"
proof -
  let ?M = "rwnx_cmd_free i (wait_timed_out i (mgr S))"
  let ?S1 = "S\<lparr>mgr := ?M, waiting := remove1 i (waiting S)\<rparr>"
  have ok: "cmd_ok S" by (rule cmd_reach_ok[OF assms(1,2)])
  then have m: "mgr_ok (mgr S)" and i: "i \<in> set (cmds (mgr S))" "\<not> deferred (mgr S) i" and d: "distinct (waiting S)"
    using assms(3) by (auto simp: cmd_ok_def owned_def)
  have l: "in_line (mgr S) (cmds (mgr S))" "i < length (cmd_array (mgr S))" "NONBLOCK \<notin> c_flags (slot (mgr S) i)"
    using m i by (simp_all add: mgr_ok_def)
  have a: "awaiting (mgr S) i" using m i assms(4) by (auto simp: mgr_ok_def awaiting_def deferred_def)
  then have w: "WAIT_CFM \<in> c_flags (slot (mgr S) i)" by (simp add: awaiting_def)
  note t = timed_out_keeps[OF l(3) w l(2)]
  have f: "find_cfm (\<lambda>_. True) ?M (c_reqid (slot (mgr S) i)) (cmds ?M) = Some i"
    unfolding t(1) by (rule find_cfm_awaiting[OF l(1) i(1) a]) (simp add: t(2,4))
  have len: "i < length (cmd_array ?M)"
    using l(2) by (simp add: rwnx_cmd_free_def wait_timed_out_def cmd_complete_def Let_def)
  obtain M2 where "cmd_mgr_msgind (\<lambda>_. True) (c_reqid (slot (mgr S) i)) param ?M = (M2, [Copy b param])"
    using assms(5-7) len by (auto simp: cmd_mgr_msgind_def f Let_def slot_upd t(3))
  then have "cmd_step usb ?S1 [Copy b param] (?S1\<lparr>mgr := M2\<rparr>)" by (intro cmd_step.answer) simp
  moreover have "cmd_step usb S [] ?S1" by (rule cmd_step.timed_out[OF assms(3,4)])
  moreover have "i \<notin> set (waiting ?S1)" "\<not> c_used (slot (mgr ?S1) i)" using d t(5) by simp_all
  ultimately show ?thesis by blast
qed

lemma late_confirmation_written_witness:
  "\<exists>S1 S2. cmd_step USB_UP_ST demo_one [] S1 \<and> \<not> c_used (slot (mgr S1) 0) \<and> cmd_step USB_UP_ST S1 [Copy 7 [5]] S2"
proof -
  have "mstate (mgr demo_one) \<noteq> CRASHED" "0 \<in> set (waiting demo_one)" "c_complete (slot (mgr demo_one) 0) = 0"
    "c_e2a (slot (mgr demo_one) 0) = Some 7" "[5 :: u8] \<noteq> []" "length [5 :: u8] \<le> RWNX_CMD_E2AMSG_LEN_MAX" by code_simp+
  from late_confirmation_written[OF demo_one_reach this, of USB_UP_ST] show ?thesis by blast
qed

section \<open>A command on the bus\<close>

text \<open>How the firmware reads a command: behind eight bytes of bus header.\<close>

definition read_cmd :: "bytes \<Rightarrow> lmac_msg option" where
  "read_cmd b = do { i \<leftarrow> rd_le16 b 8; d \<leftarrow> rd_le16 b 10; s \<leftarrow> rd_le16 b 12; n \<leftarrow> rd_le16 b 14;
     Some \<lparr>lm_id = i, lm_dest = d, lm_src = s, lm_param = take (unat n) (drop 16 b)\<rparr> }"

lemma unat_and_mask:
  fixes x :: "'a :: len word"
  shows "unat (x AND 255) = unat x mod 256" and "unat (x AND 15) = unat x mod 16"
proof -
  have "(255 :: 'a word) = mask 8" "(15 :: 'a word) = mask 4" by (simp_all add: mask_eq_exp_minus_1)
  then have t: "x AND 255 = take_bit 8 x" "x AND 15 = take_bit 4 x" by (simp_all only: take_bit_eq_mask)
  have m: "unat (take_bit k x) = unat x mod 2 ^ k" for k
    by (subst unsigned_take_bit_eq) (simp add: take_bit_eq_mod)
  show "unat (x AND 255) = unat x mod 256" "unat (x AND 15) = unat x mod 16" unfolding t m by simp_all
qed

lemma unat_drop8: "unat (drop_bit 8 x) = unat x div 256" for x :: "'a :: len word"
proof -
  have "take_bit LENGTH('a) (unat x) = unat x" by (simp add: take_bit_nat_eq_self)
  then have "unat (drop_bit 8 x) = drop_bit 8 (unat x)" by (subst unsigned_drop_bit_eq) simp
  then show ?thesis by (simp only: drop_bit_eq_div) simp
qed

lemma le16_put: "le16 (ucast (x AND 255)) (ucast (drop_bit 8 x AND 255)) = x" for x :: u16
proof -
  have "unat x < 65536" using unsigned_less[of x, where ?'a = nat] by simp
  then have "unat x div 256 < 256" by (simp add: less_mult_imp_div_less)
  then show ?thesis
    by (simp add: word_unat_eq_iff unat_le16 unsigned_ucast_eq take_bit_eq_mod unat_and_mask unat_drop8)
qed

lemma le16_len:
  assumes "n < 4096"
  shows "unat (le16 (ucast ((of_nat n :: u32) AND 255)) (ucast (drop_bit 8 (of_nat n :: u32) AND 15))) = n"
proof -
  have "unat (of_nat n :: u32) = n" using assms by (simp add: unat_of_nat)
  moreover have "n div 256 < 16" using assms by (simp add: less_mult_imp_div_less)
  ultimately show ?thesis
    by (simp add: unat_le16 unsigned_ucast_eq take_bit_eq_mod unat_and_mask unat_drop8)
qed

text \<open>
  C31: A command that fits the buffer of the bus goes out once, or twice when the first transfer
  fails with an input/output error; its length field counts what follows the first four bytes, and
  the firmware reads from it the identifiers and parameters that were sent. A command that does not
  fit overruns the buffer.
\<close>

theorem set_cmd_tx_roundtrip:
  "if 16 + length (lm_param m) \<le> CMD_BUF_MAX
   then \<exists>b. aicwf_set_cmd_tx USB_UP_ST tx m = Some (if tx = - EIO then [b, b] else [b]) \<and> read_cmd b = Some m \<and>
     length b = 16 + length (lm_param m) \<and> map_option unat (rd_le16 b 0) = Some (length b - 4)
   else aicwf_set_cmd_tx USB_UP_ST tx m = None"
proof (cases "16 + length (lm_param m) \<le> CMD_BUF_MAX")
  case True
  then have n: "length (lm_param m) \<le> 1520" by (simp add: CMD_BUF_MAX_def)
  let ?n = "length (lm_param m)" and ?b = "cmd_bytes m"
  have len: "(word_of_nat (8 + ?n) + 4 :: u32) = of_nat (12 + ?n)" by simp
  have b: "?b = [ucast ((of_nat (12 + ?n) :: u32) AND 255), ucast (drop_bit 8 (of_nat (12 + ?n) :: u32) AND 15), 0x11, 0, 0, 0, 0, 0]
      @ put_u16 (lm_id m) @ put_u16 (lm_dest m) @ put_u16 (lm_src m) @ put_u16 (word_of_nat ?n) @ lm_param m"
    unfolding cmd_bytes_def Let_def len ..
  have l: "length ?b = 16 + ?n" by (simp add: b put_u16_def)
  have f: "rd_le16 ?b 0 = Some (le16 (ucast ((of_nat (12 + ?n) :: u32) AND 255)) (ucast (drop_bit 8 (of_nat (12 + ?n) :: u32) AND 15)))"
    by (simp add: b rd_le16_def rd8_def)
  have "unat (word_of_nat ?n :: u16) = ?n" using n by (simp add: unat_of_nat)
  then have "read_cmd ?b = Some m"
    by (simp add: read_cmd_def b put_u16_def rd_le16_def rd8_def le16_put)
  then show ?thesis using True l f n le16_len[of "12 + ?n"]
    by (simp add: aicwf_set_cmd_tx_def)
qed (simp add: aicwf_set_cmd_tx_def)

end
