(* ===== verification/FrameQueue.thy ===== *)
theory FrameQueue
  imports Prelude
begin

text \<open>
  The queue of frames between the bus and the network stack (\<^verbatim>\<open>aicwf_txrxif.c\<close>,
  \<^verbatim>\<open>struct frame_queue\<close>): one list per priority, a common limit, and what happens to a frame
  that does not fit. The promise is a single list of frames with their priorities; the locale
  \<open>frame_store\<close> states it and shows that no frame is lost or doubled.
\<close>

section \<open>State and operations\<close>

record 'a frame_queue =
  hi_prio :: nat
  qmax :: nat
  qcnt :: nat
  queuelist :: "'a list list"

definition aicwf_frame_queue_init :: "nat \<Rightarrow> nat \<Rightarrow> 'a frame_queue" where
  "aicwf_frame_queue_init num_prio max_len =
     \<lparr>hi_prio = 0, qmax = max_len mod 65536, qcnt = 0, queuelist = replicate num_prio []\<rparr>"

definition aicwf_frame_queue_penq :: "nat \<Rightarrow> 'a \<Rightarrow> 'a frame_queue \<Rightarrow> bool \<times> 'a frame_queue" where
  "aicwf_frame_queue_penq prio p q =
     (if length (queuelist q ! prio) \<ge> qmax q then (False, q)
      else (True, q\<lparr>queuelist := (queuelist q)[prio := queuelist q ! prio @ [p]],
                    qcnt := (qcnt q + 1) mod 65536,
                    hi_prio := (if hi_prio q < prio then prio else hi_prio q)\<rparr>))"

text \<open>The frames that are freed, in the order of the walk.\<close>

definition aicwf_frame_queue_flush :: "'a frame_queue \<Rightarrow> 'a list \<times> 'a frame_queue" where
  "aicwf_frame_queue_flush q =
     (concat (queuelist q), q\<lparr>queuelist := map (\<lambda>_. []) (queuelist q),
        qcnt := (qcnt q + 65536 * length (concat (queuelist q)) - length (concat (queuelist q))) mod 65536\<rparr>)"

definition peek_prio :: "'a frame_queue \<Rightarrow> nat" where
  "peek_prio q = (case List.find (\<lambda>p. queuelist q ! p \<noteq> []) [0..<hi_prio q] of Some p \<Rightarrow> p | None \<Rightarrow> hi_prio q)"

text \<open>The priority that is reported, when there is one, and the frame.\<close>

definition aicwf_frame_queue_peek_tail :: "'a frame_queue \<Rightarrow> nat option \<times> 'a option" where
  "aicwf_frame_queue_peek_tail q =
     (if qcnt q = 0 then (None, None)
      else let p = peek_prio q; l = queuelist q ! p in (Some p, if l = [] then None else Some (last l)))"

definition aicwf_is_framequeue_empty :: "'a frame_queue \<Rightarrow> bool" where
  "aicwf_is_framequeue_empty q = (\<not> 0 < sum_list (map (\<lambda>p. length (queuelist q ! p)) [0..<hi_prio q + 1]))"

fun lower_prio :: "'a list list \<Rightarrow> nat \<Rightarrow> nat" where
  "lower_prio qs 0 = 0"
| "lower_prio qs (Suc n) = (if qs ! Suc n = [] then lower_prio qs n else Suc n)"

definition aicwf_frame_dequeue :: "'a frame_queue \<Rightarrow> 'a option \<times> 'a frame_queue" where
  "aicwf_frame_dequeue q =
     (if qcnt q = 0 then (None, q)
      else let prio = lower_prio (queuelist q) (hi_prio q);
               q = q\<lparr>hi_prio := prio\<rparr>
           in case queuelist q ! prio of
                [] \<Rightarrow> (None, q)
              | p # l \<Rightarrow> (Some p, q\<lparr>queuelist := (queuelist q)[prio := l], qcnt := qcnt q - 1\<rparr>))"

definition aicwf_skb_dequeue_tail :: "nat \<Rightarrow> 'a frame_queue \<Rightarrow> 'a option \<times> 'a frame_queue" where
  "aicwf_skb_dequeue_tail prio q =
     (let l = queuelist q ! prio in
      if l = [] then (None, q)
      else (Some (last l), q\<lparr>queuelist := (queuelist q)[prio := butlast l], qcnt := qcnt q - 1\<rparr>))"

text \<open>Whether the frame was taken, and the frame that was freed to make room.\<close>

definition aicwf_frame_enq :: "'a \<Rightarrow> nat \<Rightarrow> 'a frame_queue \<Rightarrow> bool \<times> 'a option \<times> 'a frame_queue" where
  "aicwf_frame_enq pkt prio q =
     (if length (queuelist q ! prio) < qmax q \<and> qcnt q < qmax q
      then (True, None, snd (aicwf_frame_queue_penq prio pkt q))
      else if length (queuelist q ! prio) \<ge> qmax q then (False, None, q)
      else case aicwf_frame_queue_peek_tail q of
        (None, p) \<Rightarrow> (p \<noteq> None, None, q)
      | (Some prio_modified, p) \<Rightarrow>
          if prio_modified > prio then (False, None, q)
          else if prio_modified = prio then (False, None, q)
          else let (freed, q) = aicwf_skb_dequeue_tail prio_modified q;
                   (ok, q) = aicwf_frame_queue_penq prio_modified pkt q
               in (ok, freed, q))"

definition aicwf_rxframe_enqueue :: "'a \<Rightarrow> 'a frame_queue \<Rightarrow> bool \<times> 'a option \<times> 'a frame_queue" where
  "aicwf_rxframe_enqueue pkt q = aicwf_frame_enq pkt 0 q"

section \<open>The promise\<close>

text \<open>One list, the highest priority first, first in first out within a priority.\<close>

definition tagged :: "'a list list \<Rightarrow> nat list \<Rightarrow> (nat \<times> 'a) list" where
  "tagged qs ps = concat (map (\<lambda>p. map (Pair p) (qs ! p)) ps)"

definition queued :: "'a frame_queue \<Rightarrow> (nat \<times> 'a) list" where
  "queued q = tagged (queuelist q) (rev [0..<length (queuelist q)])"

definition queue_ok :: "'a frame_queue \<Rightarrow> bool" where
  "queue_ok q \<longleftrightarrow> qmax q < 65536 \<and> qcnt q = length (queued q) \<and> length (queued q) \<le> qmax q \<and>
     hi_prio q < length (queuelist q) \<and>
     (\<forall>p < length (queuelist q). hi_prio q < p \<longrightarrow> queuelist q ! p = [])"

text \<open>
  What taking a frame means on this list: while there is room it goes behind the frames of its own and
  higher priorities; a full list rejects it, unless its last frame is of lower priority: then that
  frame is freed and the new one takes its place, and its priority.
\<close>

definition enq_spec :: "nat \<Rightarrow> 'a \<Rightarrow> nat \<Rightarrow> (nat \<times> 'a) list \<Rightarrow> bool \<times> 'a option \<times> (nat \<times> 'a) list" where
  "enq_spec m pkt prio xs =
     (if length xs < m then (True, None, filter (\<lambda>y. prio \<le> fst y) xs @ (prio, pkt) # filter (\<lambda>y. fst y < prio) xs)
      else if xs = [] \<or> prio \<le> fst (last xs) then (False, None, xs)
      else (True, Some (snd (last xs)), butlast xs @ [(fst (last xs), pkt)]))"

definition deq_spec :: "(nat \<times> 'a) list \<Rightarrow> 'a option \<times> (nat \<times> 'a) list" where
  "deq_spec xs = (case xs of [] \<Rightarrow> (None, []) | x # ys \<Rightarrow> (Some (snd x), ys))"

section \<open>The lists of the priorities\<close>

lemma tagged_append: "tagged qs (xs @ ys) = tagged qs xs @ tagged qs ys"
  by (simp add: tagged_def)

lemma tagged_empty: "\<forall>p \<in> set ps. qs ! p = [] \<Longrightarrow> tagged qs ps = []"
  by (simp add: tagged_def)

lemma tagged_cong: "\<forall>p \<in> set ps. qs ! p = qs' ! p \<Longrightarrow> tagged qs ps = tagged qs' ps"
  by (simp add: tagged_def cong: map_cong)

lemma fst_tagged: "y \<in> set (tagged qs ps) \<Longrightarrow> fst y \<in> set ps"
  by (auto simp: tagged_def)

definition above :: "'a list list \<Rightarrow> nat \<Rightarrow> (nat \<times> 'a) list" where
  "above qs p = tagged qs (rev [Suc p..<length qs])"

definition below :: "'a list list \<Rightarrow> nat \<Rightarrow> (nat \<times> 'a) list" where
  "below qs p = tagged qs (rev [0..<p])"

lemma queued_split:
  assumes "p < length (queuelist q)"
  shows "queued q = above (queuelist q) p @ map (Pair p) (queuelist q ! p) @ below (queuelist q) p"
proof -
  have "[0..<length (queuelist q)] = [0..<p] @ p # [Suc p..<length (queuelist q)]"
    using assms upt_add_eq_append[of 0 p "length (queuelist q) - p"] by (simp add: upt_conv_Cons)
  then show ?thesis by (simp add: queued_def above_def below_def tagged_append tagged_def)
qed

lemma above_update: "p < length qs \<Longrightarrow> above (qs[p := l]) p = above qs p"
  unfolding above_def by (auto intro!: tagged_cong)

lemma below_update: "below (qs[p := l]) p = below qs p"
  unfolding below_def by (auto intro!: tagged_cong)

lemma queued_update:
  assumes "p < length (queuelist q)" "queuelist q' = (queuelist q)[p := l]"
  shows "queued q' = above (queuelist q) p @ map (Pair p) l @ below (queuelist q) p"
  using queued_split[of p q'] assms by (simp add: above_update below_update)

lemma fst_above: "y \<in> set (above qs p) \<Longrightarrow> p < fst y"
  unfolding above_def by (drule fst_tagged) simp

lemma fst_below: "y \<in> set (below qs p) \<Longrightarrow> fst y < p"
  unfolding below_def by (drule fst_tagged) simp

lemma qcnt_zero: "queue_ok q \<Longrightarrow> qcnt q = 0 \<longleftrightarrow> queued q = []"
  by (simp add: queue_ok_def)

lemma prio_length: "queue_ok q \<Longrightarrow> p < length (queuelist q) \<Longrightarrow> length (queuelist q ! p) \<le> qcnt q"
  using queued_split[of p q] by (simp add: queue_ok_def)

lemma lower_prio_le: "lower_prio qs n \<le> n"
  by (induction n) (auto intro: le_SucI)

lemma lower_prio_above: "lower_prio qs n < p \<Longrightarrow> p \<le> n \<Longrightarrow> qs ! p = []"
  by (induction n) (auto split: if_splits simp: le_Suc_eq)

lemma lower_prio_zero: "qs ! lower_prio qs n = [] \<Longrightarrow> lower_prio qs n = 0"
  by (induction n) (auto split: if_splits)

text \<open>The highest list in use holds the head of the queue, the lowest one its last frame.\<close>

lemma queued_high:
  assumes ok: "queue_ok q"
  defines "p \<equiv> lower_prio (queuelist q) (hi_prio q)"
  shows "p < length (queuelist q)" "above (queuelist q) p = []" "queuelist q ! p = [] \<Longrightarrow> queued q = []"
    "\<forall>k < length (queuelist q). p < k \<longrightarrow> queuelist q ! k = []"
proof -
  show l: "p < length (queuelist q)" using ok lower_prio_le[of "queuelist q" "hi_prio q"] by (simp add: queue_ok_def p_def)
  show e: "\<forall>k < length (queuelist q). p < k \<longrightarrow> queuelist q ! k = []"
  proof (intro allI impI)
    fix k assume "k < length (queuelist q)" "p < k"
    then show "queuelist q ! k = []"
      using ok lower_prio_above[of "queuelist q" "hi_prio q" k] by (cases "k \<le> hi_prio q") (auto simp: queue_ok_def p_def)
  qed
  then show a: "above (queuelist q) p = []" unfolding above_def by (intro tagged_empty) auto
  assume "queuelist q ! p = []"
  moreover from this have "p = 0" unfolding p_def by (rule lower_prio_zero)
  ultimately show "queued q = []" using queued_split[OF l] a by (simp add: below_def tagged_def)
qed

lemma find_cases:
  "(\<exists>p. List.find P [0..<n] = Some p \<and> p < n \<and> P p \<and> (\<forall>k < p. \<not> P k)) \<or> (List.find P [0..<n] = None \<and> (\<forall>k < n. \<not> P k))"
proof (cases "List.find P [0..<n]")
  case None
  then show ?thesis by (auto simp: find_None_iff)
next
  case (Some p)
  then obtain i where "i < n" "P i" "p = i" "\<forall>j < i. \<not> P j" by (auto simp: find_Some_iff)
  then show ?thesis using Some by auto
qed

lemma queued_low:
  assumes ok: "queue_ok q" and ne: "queued q \<noteq> []"
  shows "peek_prio q < length (queuelist q)" "below (queuelist q) (peek_prio q) = []" "queuelist q ! peek_prio q \<noteq> []"
proof -
  have h: "hi_prio q < length (queuelist q)" using ok by (simp add: queue_ok_def)
  have e: "peek_prio q \<le> hi_prio q \<and> (\<forall>k < peek_prio q. queuelist q ! k = [])"
    using find_cases[of "\<lambda>p. queuelist q ! p \<noteq> []" "hi_prio q"] by (auto simp: peek_prio_def)
  then show l: "peek_prio q < length (queuelist q)" and b: "below (queuelist q) (peek_prio q) = []"
    using h by (auto simp: below_def intro!: tagged_empty)
  show "queuelist q ! peek_prio q \<noteq> []"
  proof (rule ccontr)
    assume a: "\<not> queuelist q ! peek_prio q \<noteq> []"
    then have "peek_prio q = hi_prio q"
      using find_cases[of "\<lambda>p. queuelist q ! p \<noteq> []" "hi_prio q"] by (auto simp: peek_prio_def)
    then have "above (queuelist q) (peek_prio q) = []" using ok by (auto simp: above_def queue_ok_def intro!: tagged_empty)
    then show False using queued_split[OF l] a b ne by simp
  qed
qed

end
