(* ===== verification/FrameQueueProps.thy ===== *)
theory FrameQueueProps
  imports FrameQueue
begin

text \<open>
  The frame queue keeps its promise: the operations refine the single list, and no frame is lost.
  The second part is proved once for every store of frames that meets the specification, in the
  locale \<open>frame_store\<close>.
\<close>

section \<open>Stores of frames\<close>

datatype 'a frame_op = Put 'a nat | Get

text \<open>A run, with the frames that were taken, handed out and freed.\<close>

record ('q, 'a) frame_log =
  fq :: 'q
  taken :: "'a list"
  handed :: "'a list"
  freed :: "'a list"

fun frame_step :: "('a \<Rightarrow> nat \<Rightarrow> 'q \<Rightarrow> bool \<times> 'a option \<times> 'q) \<Rightarrow> ('q \<Rightarrow> 'a option \<times> 'q) \<Rightarrow> 'a frame_op \<Rightarrow>
    ('q, 'a) frame_log \<Rightarrow> ('q, 'a) frame_log" where
  "frame_step enq deq (Put x p) L = (case enq x p (fq L) of (b, f, q) \<Rightarrow>
     L\<lparr>fq := q, taken := (if b then x # taken L else taken L),
       freed := (case f of Some y \<Rightarrow> y # freed L | None \<Rightarrow> freed L)\<rparr>)"
| "frame_step enq deq Get L = (case deq (fq L) of (r, q) \<Rightarrow>
     L\<lparr>fq := q, handed := (case r of Some y \<Rightarrow> y # handed L | None \<Rightarrow> handed L)\<rparr>)"

definition frame_run where
  "frame_run enq deq ops q = fold (frame_step enq deq) ops \<lparr>fq = q, taken = [], handed = [], freed = []\<rparr>"

definition op_ok :: "nat \<Rightarrow> 'a frame_op \<Rightarrow> bool" where
  "op_ok n x = (case x of Put y p \<Rightarrow> p < n | Get \<Rightarrow> True)"

locale frame_store =
  fixes inv :: "nat \<Rightarrow> nat \<Rightarrow> 'q \<Rightarrow> bool"
    and view :: "'q \<Rightarrow> (nat \<times> 'a) list"
    and enq :: "'a \<Rightarrow> nat \<Rightarrow> 'q \<Rightarrow> bool \<times> 'a option \<times> 'q"
    and deq :: "'q \<Rightarrow> 'a option \<times> 'q"
  assumes enq_meets: "inv n m q \<Longrightarrow> p < n \<Longrightarrow> enq x p q = (b, f, q') \<Longrightarrow>
      (b, f, view q') = enq_spec m x p (view q) \<and> inv n m q'"
    and deq_meets: "inv n m q \<Longrightarrow> deq q = (r, q') \<Longrightarrow> (r, view q') = deq_spec (view q) \<and> inv n m q'"
    and fits: "inv n m q \<Longrightarrow> length (view q) \<le> m"
begin

definition balanced :: "('q, 'a) frame_log \<Rightarrow> bool" where
  "balanced L \<longleftrightarrow> mset (taken L) = mset (handed L) + mset (freed L) + mset (map snd (view (fq L)))"

definition sorted_view :: "('q, 'a) frame_log \<Rightarrow> bool" where
  "sorted_view L \<longleftrightarrow> sorted_wrt (\<ge>) (map fst (view (fq L)))"

lemma enq_spec_balanced:
  assumes "enq_spec m x p xs = (b, f, ys)"
  shows "mset (map snd ys) + mset (case f of Some y \<Rightarrow> [y] | None \<Rightarrow> []) = mset (map snd xs) + mset (if b then [x] else [])"
proof (cases "length xs < m")
  case True
  have "mset (filter (\<lambda>y. p \<le> fst y) xs) + mset (filter (\<lambda>y. fst y < p) xs) = mset xs"
    by (induction xs) auto
  then have "image_mset snd (mset (filter (\<lambda>y. p \<le> fst y) xs)) + image_mset snd (mset (filter (\<lambda>y. fst y < p) xs))
      = image_mset snd (mset xs)" by (metis image_mset_union)
  then show ?thesis using assms True by (auto simp: enq_spec_def)
next
  case False
  show ?thesis
  proof (cases "xs = [] \<or> p \<le> fst (last xs)")
    case True
    then show ?thesis using assms False by (auto simp: enq_spec_def)
  next
    case r: False
    then have "mset (map snd xs) = mset (map snd (butlast xs)) + {#snd (last xs)#}"
      using append_butlast_last_id[of xs] by (metis map_append mset_append list.simps(8,9) mset_single_iff_right)
    then show ?thesis using assms False r by (auto simp: enq_spec_def)
  qed
qed

lemma enq_spec_sorted:
  assumes "enq_spec m x p xs = (b, f, ys)" "sorted_wrt (\<ge>) (map fst xs)"
  shows "sorted_wrt (\<ge>) (map fst ys)"
proof (cases "length xs < m")
  case True
  have s: "sorted_wrt (\<ge>) (map fst (filter P xs))" for P
    using assms(2) by (simp add: sorted_wrt_map sorted_wrt_filter)
  then show ?thesis using assms(1) True s[of "\<lambda>y. p \<le> fst y"] s[of "\<lambda>y. fst y < p"]
    by (auto simp: enq_spec_def sorted_wrt_append)
next
  case False
  show ?thesis
  proof (cases "xs = [] \<or> p \<le> fst (last xs)")
    case r: False
    then have "xs = butlast xs @ [last xs]" by simp
    then have "sorted_wrt (\<ge>) (map fst (butlast xs) @ [fst (last xs)])"
      using assms(2) by (metis map_append list.simps(8,9))
    then show ?thesis using assms(1) False r by (auto simp: enq_spec_def)
  qed (use assms False in \<open>auto simp: enq_spec_def\<close>)
qed

lemma step_keeps:
  assumes "inv n m (fq L)" "balanced L" "sorted_view L" "op_ok n x"
  shows "inv n m (fq (frame_step enq deq x L))" "balanced (frame_step enq deq x L)" "sorted_view (frame_step enq deq x L)"
proof -
  have "inv n m (fq (frame_step enq deq x L)) \<and> balanced (frame_step enq deq x L) \<and> sorted_view (frame_step enq deq x L)"
  proof (cases x)
    case (Put y p)
    obtain b f q where e: "enq y p (fq L) = (b, f, q)" by (metis prod_cases3)
    have p: "p < n" using assms(4) Put by (simp add: op_ok_def)
    note s = enq_meets[OF assms(1) p e]
    then have sp: "enq_spec m y p (view (fq L)) = (b, f, view q)" by simp
    have "sorted_wrt (\<ge>) (map fst (view q))" using enq_spec_sorted[OF sp] assms(3) by (simp add: sorted_view_def)
    moreover have "mset (taken (frame_step enq deq x L)) = mset (handed L) + mset (freed (frame_step enq deq x L)) + mset (map snd (view q))"
      using enq_spec_balanced[OF sp] assms(2) Put e by (cases f; cases b) (auto simp: balanced_def)
    ultimately show ?thesis using s Put e by (simp add: balanced_def sorted_view_def)
  next
    case Get
    obtain r q where e: "deq (fq L) = (r, q)" by fastforce
    note s = deq_meets[OF assms(1) e]
    then show ?thesis using assms(2,3) Get e
      by (cases "view (fq L)") (auto simp: deq_spec_def balanced_def sorted_view_def)
  qed
  then show "inv n m (fq (frame_step enq deq x L))" "balanced (frame_step enq deq x L)" "sorted_view (frame_step enq deq x L)" by simp_all
qed

lemma run_keeps:
  assumes "inv n m q" "view q = []" "list_all (op_ok n) ops"
  shows "mset (taken (frame_run enq deq ops q)) = mset (handed (frame_run enq deq ops q)) + mset (freed (frame_run enq deq ops q))
      + mset (map snd (view (fq (frame_run enq deq ops q)))) \<and>
    sorted_wrt (\<ge>) (map fst (view (fq (frame_run enq deq ops q)))) \<and> length (view (fq (frame_run enq deq ops q))) \<le> m"
proof -
  have "inv n m (fq (fold (frame_step enq deq) ops L)) \<and> balanced (fold (frame_step enq deq) ops L) \<and>
      sorted_view (fold (frame_step enq deq) ops L)" if "inv n m (fq L)" "balanced L" "sorted_view L" for L
    using assms(3) that
  proof (induction ops arbitrary: L)
    case (Cons x ops)
    then show ?case using step_keeps[OF Cons.prems(2-4)] by simp
  qed simp
  from this[of "\<lparr>fq = q, taken = [], handed = [], freed = []\<rparr>"] show ?thesis
    using assms fits[of n m] by (simp add: frame_run_def balanced_def sorted_view_def)
qed

end

section \<open>The frame queue is such a store\<close>

definition queue_inv :: "nat \<Rightarrow> nat \<Rightarrow> 'a frame_queue \<Rightarrow> bool" where
  "queue_inv n m q \<longleftrightarrow> queue_ok q \<and> length (queuelist q) = n \<and> qmax q = m"

lemma filter_split:
  assumes "p < length (queuelist q)"
  shows "filter (\<lambda>y. p \<le> fst y) (queued q) = above (queuelist q) p @ map (Pair p) (queuelist q ! p)"
    "filter (\<lambda>y. fst y < p) (queued q) = below (queuelist q) p"
proof -
  have "filter (\<lambda>y. p \<le> fst y) (above (queuelist q) p) = above (queuelist q) p"
    "filter (\<lambda>y. p \<le> fst y) (below (queuelist q) p) = []" "filter (\<lambda>y. fst y < p) (above (queuelist q) p) = []"
    "filter (\<lambda>y. fst y < p) (below (queuelist q) p) = below (queuelist q) p"
    using fst_above[of _ "queuelist q" p] fst_below[of _ "queuelist q" p]
    by (fastforce simp: filter_id_conv filter_empty_conv)+
  then show "filter (\<lambda>y. p \<le> fst y) (queued q) = above (queuelist q) p @ map (Pair p) (queuelist q ! p)"
    "filter (\<lambda>y. fst y < p) (queued q) = below (queuelist q) p"
    using assms by (simp_all add: queued_split filter_map o_def)
qed

text \<open>Changing one list: what the queue and its invariant become.\<close>

lemma replace_list:
  assumes ok: "queue_inv n m q" and p: "p < n" and q': "queuelist q' = (queuelist q)[p := l]" "qmax q' = qmax q"
    and h: "hi_prio q' < n" "\<forall>k < n. hi_prio q' < k \<longrightarrow> (queuelist q)[p := l] ! k = []"
    and c: "qcnt q' = length (queued q')" "length (queued q') \<le> m"
  shows "queue_inv n m q'" and "queued q' = above (queuelist q) p @ map (Pair p) l @ below (queuelist q) p"
  using assms queued_update[of p q q' l] by (simp_all add: queue_inv_def queue_ok_def)

lemma frame_dequeue_view:
  assumes ok: "queue_inv n m q" and d: "aicwf_frame_dequeue q = (r, q')"
  shows "(r, queued q') = deq_spec (queued q) \<and> queue_inv n m q'"
proof (cases "qcnt q = 0")
  case True
  then show ?thesis using d ok by (simp add: aicwf_frame_dequeue_def deq_spec_def qcnt_zero queue_inv_def)
next
  case False
  let ?p = "lower_prio (queuelist q) (hi_prio q)"
  have qo: "queue_ok q" and n: "length (queuelist q) = n" using ok by (simp_all add: queue_inv_def)
  note h = queued_high[OF qo]
  have ne: "queued q \<noteq> []" using False qcnt_zero[OF qo] by simp
  then obtain x l where l: "queuelist q ! ?p = x # l" using h(3) by (cases "queuelist q ! ?p") auto
  have s: "queued q = (?p, x) # map (Pair ?p) l @ below (queuelist q) ?p" using queued_split[OF h(1)] h(2) l by simp
  have r: "r = Some x" and q': "queuelist q' = (queuelist q)[?p := l]" "qmax q' = qmax q" "hi_prio q' = ?p" "qcnt q' = qcnt q - 1"
    using d False l by (auto simp: aicwf_frame_dequeue_def Let_def)
  have u: "queued q' = map (Pair ?p) l @ below (queuelist q) ?p" using queued_update[OF h(1) q'(1)] h(2) by simp
  have "queue_inv n m q'"
    by (rule replace_list(1)[OF ok _ q'(1,2)]) (use h(1,4) n qo ok q' u s in \<open>auto simp: queue_ok_def queue_inv_def\<close>)
  then show ?thesis using r s u by (simp add: deq_spec_def)
qed

lemma frame_enq_view:
  assumes ok: "queue_inv n m q" and p: "p < n" and e: "aicwf_frame_enq x p q = (b, f, q')"
  shows "(b, f, queued q') = enq_spec m x p (queued q) \<and> queue_inv n m q'"
proof -
  have qo: "queue_ok q" and n: "length (queuelist q) = n" "qmax q = m" using ok by (simp_all add: queue_inv_def)
  have p': "p < length (queuelist q)" using p n by simp
  have cnt: "qcnt q = length (queued q)" "length (queued q) \<le> m" "m < 65536" "hi_prio q < n"
    using qo n by (simp_all add: queue_ok_def)
  have pl: "length (queuelist q ! p) \<le> length (queued q)" using prio_length[OF qo p'] cnt by simp
  show ?thesis
  proof (cases "length (queued q) < m")
    case True
    then have c: "length (queuelist q ! p) < m" "qcnt q < m" using pl cnt by simp_all
    have r: "b" "f = None" and q': "queuelist q' = (queuelist q)[p := queuelist q ! p @ [x]]" "qmax q' = qmax q"
      "hi_prio q' = max (hi_prio q) p" "qcnt q' = qcnt q + 1"
      using e c n cnt by (auto simp: aicwf_frame_enq_def aicwf_frame_queue_penq_def max_def)
    have u: "queued q' = above (queuelist q) p @ map (Pair p) (queuelist q ! p @ [x]) @ below (queuelist q) p"
      by (rule queued_update[OF p' q'(1)])
    have s: "queued q = above (queuelist q) p @ map (Pair p) (queuelist q ! p) @ below (queuelist q) p" by (rule queued_split[OF p'])
    have len: "length (queued q') = length (queued q) + 1" using u s by simp
    have h: "\<forall>k < n. hi_prio q' < k \<longrightarrow> (queuelist q)[p := queuelist q ! p @ [x]] ! k = []"
      using qo n q'(3) by (auto simp: queue_ok_def nth_list_update)
    have "queue_inv n m q'"
      by (rule replace_list(1)[OF ok p q'(1,2)]) (use h len cnt True p q' in simp_all)
    moreover have "queued q' = filter (\<lambda>y. p \<le> fst y) (queued q) @ (p, x) # filter (\<lambda>y. fst y < p) (queued q)"
      using u filter_split[OF p'] by simp
    ultimately show ?thesis using r True by (simp add: enq_spec_def)
  next
    case False
    then have full: "length (queued q) = m" using cnt by simp
    show ?thesis
    proof (cases "length (queuelist q ! p) \<ge> m")
      case all: True
      have "length (above (queuelist q) p) + length (below (queuelist q) p) = 0"
        using arg_cong[OF queued_split[OF p'], of length] full all by simp
      then have "queued q = map (Pair p) (queuelist q ! p)" using queued_split[OF p'] by simp
      then have "queued q = [] \<or> p \<le> fst (last (queued q))" by (cases "queuelist q ! p") (auto simp: last_map)
      then show ?thesis using e all n full ok by (auto simp: aicwf_frame_enq_def enq_spec_def)
    next
      case some: False
      then have ne: "queued q \<noteq> []" using full by auto
      let ?k = "peek_prio q" and ?l = "queuelist q ! peek_prio q"
      note k = queued_low[OF qo ne]
      have s: "queued q = above (queuelist q) ?k @ map (Pair ?k) ?l" using queued_split[OF k(1)] k(2) by simp
      have la: "last (queued q) = (?k, last ?l)" using s k(3) by (simp add: last_map)
      have nc: "qcnt q \<noteq> 0" using ne cnt by simp
      show ?thesis
      proof (cases "p \<le> ?k")
        case True
        then show ?thesis using e some n full nc ok la k(3) cnt
          by (cases "p = ?k") (auto simp: aicwf_frame_enq_def enq_spec_def aicwf_frame_queue_peek_tail_def Let_def)
      next
        case lt: False
        have kl: "length ?l \<le> m" "0 < length ?l" using prio_length[OF qo k(1)] cnt full k(3) by simp_all
        let ?q = "q\<lparr>queuelist := (queuelist q)[?k := butlast ?l], qcnt := qcnt q - 1\<rparr>"
        have d: "aicwf_skb_dequeue_tail ?k q = (Some (last ?l), ?q)" using k(3) by (simp add: aicwf_skb_dequeue_tail_def Let_def)
        have room: "\<not> qmax q \<le> length ?l - Suc 0" using kl n by linarith
        obtain q2 where pq: "aicwf_frame_queue_penq ?k x ?q = (True, q2)"
          using room k(1) by (simp add: aicwf_frame_queue_penq_def)
        have en: "aicwf_frame_enq x p q = (True, Some (last ?l), q2)"
          using some full n cnt nc lt k(3) pq by (simp add: aicwf_frame_enq_def aicwf_frame_queue_peek_tail_def Let_def d)
        have r: "b" "f = Some (last ?l)" and q': "queuelist q' = (queuelist q)[?k := butlast ?l @ [x]]" "qmax q' = qmax q"
          "hi_prio q' = max (hi_prio q) ?k" "qcnt q' = qcnt q"
          using e[unfolded en] pq room k(1) cnt nc by (auto simp: aicwf_frame_queue_penq_def max_def)
        have u: "queued q' = above (queuelist q) ?k @ map (Pair ?k) (butlast ?l @ [x])"
          using queued_update[OF k(1) q'(1)] k(2) by simp
        have len: "length (queued q') = length (queued q)" using u s k(3) by simp
        have h: "\<forall>j < n. hi_prio q' < j \<longrightarrow> (queuelist q)[?k := butlast ?l @ [x]] ! j = []"
          using qo n q'(3) by (auto simp: queue_ok_def nth_list_update)
        have "queue_inv n m q'"
          by (rule replace_list(1)[OF ok _ q'(1,2)]) (use h len cnt k(1) n q' in simp_all)
        moreover have "butlast (queued q) = above (queuelist q) ?k @ map (Pair ?k) (butlast ?l)"
          using s k(3) by (simp add: butlast_append map_butlast)
        ultimately show ?thesis using r u la lt full ne by (simp add: enq_spec_def)
      qed
    qed
  qed
qed

interpretation frames: frame_store queue_inv queued aicwf_frame_enq aicwf_frame_dequeue
proof (unfold_locales, goal_cases)
  case (1 n m q p x b f q')
  then show ?case by (rule frame_enq_view)
next
  case (2 n m q r q')
  then show ?case by (rule frame_dequeue_view)
next
  case (3 n m q)
  then show ?case by (simp add: queue_inv_def queue_ok_def)
qed

lemma init_inv:
  assumes "0 < n" "m < 65536"
  shows "queue_inv n m (aicwf_frame_queue_init n m :: 'a frame_queue)"
    and "queued (aicwf_frame_queue_init n m :: 'a frame_queue) = []"
proof -
  show "queued (aicwf_frame_queue_init n m :: 'a frame_queue) = []"
    unfolding queued_def by (rule tagged_empty) (simp add: aicwf_frame_queue_init_def)
  then show "queue_inv n m (aicwf_frame_queue_init n m :: 'a frame_queue)"
    using assms by (simp add: queue_inv_def queue_ok_def aicwf_frame_queue_init_def)
qed

text \<open>
  C15: The frame queue refines one list ordered by priority. A frame is put behind those of its own
  and higher priorities; a dequeue hands out the first. A full queue rejects a frame unless one of
  lower priority is queued: then the last of the lowest is freed and the new frame takes over its
  place, at the low priority. Both keep the counters and the highest priority in use right.
\<close>

theorem frame_queue_refines:
  assumes "queue_inv n m q" and "p < n"
  shows "(case aicwf_frame_enq x p q of (b, f, q') \<Rightarrow>
        (b, f, queued q') = enq_spec m x p (queued q) \<and> queue_inv n m q') \<and>
    (case aicwf_frame_dequeue q of (r, q') \<Rightarrow> (r, queued q') = deq_spec (queued q) \<and> queue_inv n m q')"
  using frame_enq_view[OF assms] frame_dequeue_view[OF assms(1)] by (simp split: prod.split)

lemmas fq_evals = aicwf_frame_queue_init_def aicwf_frame_enq_def aicwf_frame_queue_penq_def aicwf_frame_dequeue_def
  aicwf_frame_queue_peek_tail_def aicwf_skb_dequeue_tail_def peek_prio_def numeral_2_eq_2 numeral_3_eq_3

definition demo_fq :: "nat frame_queue" where
  "demo_fq = snd (snd (aicwf_frame_enq 20 1 (snd (snd (aicwf_frame_enq 10 0 (aicwf_frame_queue_init 3 2))))))"

lemma demo_fq_inv: "queue_inv 3 2 demo_fq"
proof -
  have keeps: "queue_inv 3 2 q \<Longrightarrow> p < 3 \<Longrightarrow> queue_inv 3 2 (snd (snd (aicwf_frame_enq x p q)))" for x :: nat and p q
    using frame_enq_view[of 3 2 q p x] by (metis prod.collapse)
  show ?thesis unfolding demo_fq_def by (intro keeps init_inv) simp_all
qed

lemma frame_queue_refines_witness:
  "\<exists>q'. aicwf_frame_enq 30 2 demo_fq = (True, Some 10, q') \<and> queued q' = [(1, 20), (0, 30)]"
proof -
  have "queued demo_fq = [(1, 20), (0, 10)]"
    by (simp add: demo_fq_def queued_def tagged_def upt_rec fq_evals)
  then show ?thesis using frame_queue_refines[OF demo_fq_inv, of 2 30]
    by (auto simp: enq_spec_def split: prod.splits)
qed

text \<open>
  Over any sequence of frames put in and taken out, every frame the queue accepted has been
  handed out, freed or is still queued, each once; the queue never holds more than its limit and
  stays ordered by priority.
\<close>

theorem frames_conserved:
  assumes "0 < n" and "m < 65536" and "list_all (op_ok n) ops"
    and "frame_run aicwf_frame_enq aicwf_frame_dequeue ops (aicwf_frame_queue_init n m) = L"
  shows "mset (taken L) = mset (handed L) + mset (freed L) + mset (map snd (queued (fq L))) \<and>
    sorted_wrt (\<ge>) (map fst (queued (fq L))) \<and> length (queued (fq L)) \<le> m"
  using frames.run_keeps[OF init_inv[OF assms(1,2)] assms(3)] unfolding assms(4) by simp

lemma frames_conserved_witness:
  "\<exists>L. frame_run aicwf_frame_enq aicwf_frame_dequeue [Put (1 :: nat) 0, Put 2 1, Put 3 2, Get] (aicwf_frame_queue_init 3 2) = L \<and>
     taken L = [3, 2, 1] \<and> mset (taken L) = mset (handed L) + mset (freed L) + mset (map snd (queued (fq L)))"
proof -
  let ?ops = "[Put (1 :: nat) 0, Put 2 1, Put 3 2, Get]"
  have "list_all (op_ok 3) ?ops" by (simp add: op_ok_def)
  from frames_conserved[OF _ _ this refl, of 2]
  have "mset (taken (frame_run aicwf_frame_enq aicwf_frame_dequeue ?ops (aicwf_frame_queue_init 3 2))) =
      mset (handed (frame_run aicwf_frame_enq aicwf_frame_dequeue ?ops (aicwf_frame_queue_init 3 2))) +
      mset (freed (frame_run aicwf_frame_enq aicwf_frame_dequeue ?ops (aicwf_frame_queue_init 3 2))) +
      mset (map snd (queued (fq (frame_run aicwf_frame_enq aicwf_frame_dequeue ?ops (aicwf_frame_queue_init 3 2)))))" by simp
  moreover have "taken (frame_run aicwf_frame_enq aicwf_frame_dequeue ?ops (aicwf_frame_queue_init 3 2)) = [3, 2, 1]"
    by (simp add: frame_run_def upt_rec fq_evals)
  ultimately show ?thesis by blast
qed

end
