(* ===== verification/Remoteproc.thy ===== *)
theory Remoteproc
  imports Prelude
begin

text \<open>
  The remote processor driver of the RK3506 (\<^verbatim>\<open>rk3506_remoteproc.c\<close> with
  \<^verbatim>\<open>hw_bitfield.h\<close>): the enable bits in the power management unit, starting and stopping the
  core, the window of its memory, and the probe with its error path. What clocks, resets, the secure
  monitor and the mailbox answer are parameters.
\<close>

section \<open>Registers with a write mask\<close>

text \<open>\<open>k\<close> is the position of the lowest bit of the mask \<open>m\<close>.\<close>

definition FIELD_PREP_WM16 :: "u32 \<Rightarrow> nat \<Rightarrow> u32 \<Rightarrow> u32" where
  "FIELD_PREP_WM16 m k val = (push_bit k val AND m) OR push_bit 16 m"

definition GLB_INT_MASK_MCU :: u32 where "GLB_INT_MASK_MCU = push_bit 1 1"
definition MCU_RST_DIS_CFG :: u32 where "MCU_RST_DIS_CFG = push_bit 2 1"

text \<open>
  What such a register does with a write, as \<^verbatim>\<open>hw_bitfield.h\<close> says: a bit of the lower half is
  updated only if its bit in the upper half is set.
\<close>

definition wm16_write :: "u32 \<Rightarrow> u32 \<Rightarrow> u32" where
  "wm16_write v reg = (reg AND NOT (drop_bit 16 v)) OR (v AND drop_bit 16 v)"

section \<open>The core\<close>

record rk3506 =
  pmu_int_mask :: u32
  clk_count :: int
  in_reset :: bool
  boot_addr :: "u32 option"

definition rk3506_rproc_set_enabled :: "bool \<Rightarrow> rk3506 \<Rightarrow> rk3506" where
  "rk3506_rproc_set_enabled en S =
     (if en
      then S\<lparr>pmu_int_mask := wm16_write (FIELD_PREP_WM16 MCU_RST_DIS_CFG 2 1 OR FIELD_PREP_WM16 GLB_INT_MASK_MCU 1 0) (pmu_int_mask S)\<rparr>
      else S\<lparr>pmu_int_mask := wm16_write (FIELD_PREP_WM16 MCU_RST_DIS_CFG 2 0 OR FIELD_PREP_WM16 GLB_INT_MASK_MCU 1 1) (pmu_int_mask S)\<rparr>)"

definition mcu_enabled :: "rk3506 \<Rightarrow> bool" where
  "mcu_enabled S \<longleftrightarrow> bit (pmu_int_mask S) 2 \<and> \<not> bit (pmu_int_mask S) 1"

text \<open>
  What the kernel answers: the result of enabling the clocks (which then count one more user), of
  releasing the resets, and of the call to the secure monitor.
\<close>

record start_env =
  clk_ret :: int
  reset_ret :: int
  smc_a0 :: int
  fw_start :: u32

definition rk3506_rproc_start :: "start_env \<Rightarrow> rk3506 \<Rightarrow> int \<times> rk3506" where
  "rk3506_rproc_start E S =
     (let S = rk3506_rproc_set_enabled False S in
      if clk_ret E \<noteq> 0 then (clk_ret E, S)
      else let S = S\<lparr>clk_count := clk_count S + 1\<rparr> in
      if reset_ret E \<noteq> 0 then (reset_ret E, S)
      else let S = S\<lparr>in_reset := False\<rparr> in
      if smc_a0 E \<noteq> 0 then (- 5, S)
      else let S = S\<lparr>boot_addr := Some (fw_start E)\<rparr> in
      (0, rk3506_rproc_set_enabled True S))"

definition rk3506_rproc_stop :: "rk3506 \<Rightarrow> int \<times> rk3506" where
  "rk3506_rproc_stop S =
     (let S = rk3506_rproc_set_enabled False S in (0, S\<lparr>in_reset := True, clk_count := clk_count S - 1\<rparr>))"

section \<open>The memory of the core\<close>

text \<open>
  A window of the firmware's memory: the offset that is added to the mapping. \<open>da\<close> has 64 bits and so
  has the sum; the bounds of the resource have 32.
\<close>

definition rk3506_rproc_da_to_va :: "u32 \<Rightarrow> u32 \<Rightarrow> u64 \<Rightarrow> u32 \<Rightarrow> u64 option" where
  "rk3506_rproc_da_to_va res_start res_end da len =
     (if da + ucast len \<le> ucast (res_end - res_start + 1) then Some da else None)"

section \<open>The probe\<close>

text \<open>The results of the calls of the probe, in the order of the calls.\<close>

record probe_env =
  fw_name_ret :: int
  alloc_ok :: bool
  pmu_err :: int
  mem_err :: int
  num_clks :: int
  resets_err :: int
  mbox_err :: int
  add_ret :: int

datatype probe_step = Get_name | Alloc | Get_pmu | Map_memory | Get_clocks | Get_resets | Request_mbox | Add_rproc | Free_mbox

definition rk3506_rproc_probe :: "probe_env \<Rightarrow> int \<times> probe_step list" where
  "rk3506_rproc_probe E =
     (if fw_name_ret E < 0 \<and> fw_name_ret E \<noteq> - 22 then (fw_name_ret E, [Get_name])
      else if \<not> alloc_ok E then (- 12, [Get_name, Alloc])
      else if pmu_err E \<noteq> 0 then (pmu_err E, [Get_name, Alloc, Get_pmu])
      else if mem_err E \<noteq> 0 then (mem_err E, [Get_name, Alloc, Get_pmu, Map_memory])
      else if num_clks E < 0 then (num_clks E, [Get_name, Alloc, Get_pmu, Map_memory, Get_clocks])
      else if resets_err E \<noteq> 0 then (resets_err E, [Get_name, Alloc, Get_pmu, Map_memory, Get_clocks, Get_resets])
      else if mbox_err E \<noteq> 0
      then (mbox_err E, [Get_name, Alloc, Get_pmu, Map_memory, Get_clocks, Get_resets, Request_mbox])
      else if add_ret E \<noteq> 0
      then (add_ret E, [Get_name, Alloc, Get_pmu, Map_memory, Get_clocks, Get_resets, Request_mbox, Add_rproc, Free_mbox])
      else (0, [Get_name, Alloc, Get_pmu, Map_memory, Get_clocks, Get_resets, Request_mbox, Add_rproc]))"

definition rk3506_rproc_remove :: "probe_step list" where
  "rk3506_rproc_remove = [Free_mbox]"

section \<open>Properties\<close>

lemma enable_word:
  "FIELD_PREP_WM16 MCU_RST_DIS_CFG 2 1 OR FIELD_PREP_WM16 GLB_INT_MASK_MCU 1 0 = 0x00060004"
  "FIELD_PREP_WM16 MCU_RST_DIS_CFG 2 0 OR FIELD_PREP_WM16 GLB_INT_MASK_MCU 1 1 = 0x00060002"
  by (simp_all add: FIELD_PREP_WM16_def MCU_RST_DIS_CFG_def GLB_INT_MASK_MCU_def)

lemma written:
  "wm16_write 0x00060004 r = (r AND NOT 6) OR 4" "wm16_write 0x00060002 r = (r AND NOT 6) OR 2"
  by (simp_all add: wm16_write_def)

lemma bits_of_six: "bit (6 :: u32) k \<longleftrightarrow> k = 1 \<or> k = 2" "bit (4 :: u32) k \<longleftrightarrow> k = 2" "bit (2 :: u32) k \<longleftrightarrow> k = 1"
proof -
  have one: "bit (push_bit j (1 :: u32)) k \<longleftrightarrow> k = j" if "j < 32" for j
    using that by (auto simp: bit_simps)
  have e: "(6 :: u32) = push_bit 1 1 OR push_bit 2 1" "(4 :: u32) = push_bit 2 1" "(2 :: u32) = push_bit 1 1" by simp_all
  show "bit (6 :: u32) k \<longleftrightarrow> k = 1 \<or> k = 2" unfolding e(1) bit_or_iff using one[of 1] one[of 2] by simp
  show "bit (4 :: u32) k \<longleftrightarrow> k = 2" unfolding e(2) using one[of 2] by simp
  show "bit (2 :: u32) k \<longleftrightarrow> k = 1" unfolding e(3) using one[of 1] by simp
qed

lemma set_enabled_bit:
  "bit (pmu_int_mask (rk3506_rproc_set_enabled en S)) k \<longleftrightarrow>
     (if k = 2 then en else if k = 1 then \<not> en else bit (pmu_int_mask S) k)"
proof -
  have "pmu_int_mask (rk3506_rproc_set_enabled en S) = (pmu_int_mask S AND NOT 6) OR (if en then 4 else 2)"
    unfolding rk3506_rproc_set_enabled_def enable_word written by simp
  moreover have "bit (x AND NOT 6) k \<longleftrightarrow> bit x k \<and> \<not> bit (6 :: u32) k" for x :: u32
    unfolding bit_and_iff bit_not_iff using bit_imp_le_length[of x k] by auto
  ultimately show ?thesis unfolding bits_of_six by (simp only: bit_or_iff) (cases en; simp only: bits_of_six if_True if_False; auto)
qed

lemma set_enabled_sel:
  "mcu_enabled (rk3506_rproc_set_enabled en S) = en" "clk_count (rk3506_rproc_set_enabled en S) = clk_count S"
  "in_reset (rk3506_rproc_set_enabled en S) = in_reset S" "boot_addr (rk3506_rproc_set_enabled en S) = boot_addr S"
  by (simp add: mcu_enabled_def set_enabled_bit) (simp_all add: rk3506_rproc_set_enabled_def)

lemma mcu_enabled_upd [simp]:
  "mcu_enabled (S\<lparr>clk_count := c\<rparr>) = mcu_enabled S" "mcu_enabled (S\<lparr>clk_count := c, in_reset := r\<rparr>) = mcu_enabled S"
  by (simp_all add: mcu_enabled_def)

text \<open>
  Writing the enable bits through the mask changes these two bits and no other: the reset
  release follows the argument, the interrupt mask its opposite.
\<close>

theorem set_enabled_two_bits:
  "mcu_enabled (rk3506_rproc_set_enabled en S) = en \<and>
   pmu_int_mask (rk3506_rproc_set_enabled en S) AND NOT (MCU_RST_DIS_CFG OR GLB_INT_MASK_MCU) =
   pmu_int_mask S AND NOT (MCU_RST_DIS_CFG OR GLB_INT_MASK_MCU)"
proof -
  have six: "MCU_RST_DIS_CFG OR GLB_INT_MASK_MCU = 6" by (simp add: MCU_RST_DIS_CFG_def GLB_INT_MASK_MCU_def)
  have "pmu_int_mask (rk3506_rproc_set_enabled en S) AND NOT 6 = pmu_int_mask S AND NOT 6"
    by (rule bit_word_eqI) (unfold bit_and_iff bit_not_iff bits_of_six set_enabled_bit, auto)
  then show ?thesis by (simp add: six set_enabled_sel)
qed

text \<open>
  The core is enabled after a start exactly when the start reports success, and then it is out of
  reset with the address of its firmware; a stop after it gives back the clocks. A start that fails
  once the clocks are on leaves them on: the count of their users stays one too high, as the core
  that did not start is not stopped.
\<close>

theorem start_outcomes:
  "case rk3506_rproc_start E S of (r, S') \<Rightarrow>
     mcu_enabled S' = (r = 0) \<and> (r = 0) = (clk_ret E = 0 \<and> reset_ret E = 0 \<and> smc_a0 E = 0) \<and>
     (if r = 0 then \<not> in_reset S' \<and> boot_addr S' = Some (fw_start E) \<and> clk_count (snd (rk3506_rproc_stop S')) = clk_count S
      else clk_count S' = (if clk_ret E = 0 then clk_count S + 1 else clk_count S))"
  by (simp add: rk3506_rproc_start_def rk3506_rproc_stop_def Let_def set_enabled_sel)

text \<open>
  The window of the firmware's memory. A window is granted exactly when its end, computed in 64
  bits, is within the memory; as this sum wraps around, a window that lies outside is granted when
  its end wraps to a small value, and only then.
\<close>

theorem da_to_va_window:
  assumes "res_start \<le> res_end" and "res_end - res_start \<noteq> - 1"
  shows "(rk3506_rproc_da_to_va res_start res_end da len = Some da) =
      (unat da + unat len \<le> unat (res_end - res_start) + 1 \<or>
       (2 ^ 64 \<le> unat da + unat len \<and> unat da + unat len - 2 ^ 64 \<le> unat (res_end - res_start) + 1))"
proof -
  let ?n = "res_end - res_start"
  have n: "unat (?n + 1) = unat ?n + 1" using assms(2) unatSuc[of ?n] by (simp add: add.commute eq_neg_iff_add_eq_0)
  have l: "unat len < 2 ^ 32" "unat ?n < 2 ^ 32" "unat da < 2 ^ 64"
    using unsigned_less[of len, where ?'a = nat] unsigned_less[of ?n, where ?'a = nat] unsigned_less[of da, where ?'a = nat] by simp_all
  have u: "unat (ucast len :: u64) = unat len" "unat (ucast (?n + 1) :: u64) = unat ?n + 1"
    using l n by (simp_all add: unsigned_ucast_eq take_bit_eq_mod)
  have s: "unat (da + ucast len) = (unat da + unat len) mod 2 ^ 64" by (simp add: unat_word_ariths u)
  have "(unat da + unat len) mod 2 ^ 64 = (if unat da + unat len < 2 ^ 64 then unat da + unat len else unat da + unat len - 2 ^ 64)"
    using l by (simp add: mod_if)
  then show ?thesis using l by (auto simp: rk3506_rproc_da_to_va_def word_le_nat_alt s u)
qed

lemma da_to_va_window_witness:
  "rk3506_rproc_da_to_va 0xfff80000 0xfff8bfff 0xfffffffffffffff0 0x20 = Some 0xfffffffffffffff0"
proof -
  have "(0xfff80000 :: u32) \<le> 0xfff8bfff" "(0xfff8bfff :: u32) - 0xfff80000 \<noteq> - 1" by simp_all
  from da_to_va_window[OF this, of "0xfffffffffffffff0" "0x20"] show ?thesis by simp
qed

text \<open>
  The probe asks for its resources in order, stops at the first failure with its error, and holds
  the mailbox channel exactly when it reports success: the one failure that comes after the request
  gives the channel back.
\<close>

theorem probe_mbox:
  "case rk3506_rproc_probe E of (r, steps) \<Rightarrow>
     (r = 0) = (\<not> (fw_name_ret E < 0 \<and> fw_name_ret E \<noteq> - 22) \<and> alloc_ok E \<and> pmu_err E = 0 \<and> mem_err E = 0 \<and>
       0 \<le> num_clks E \<and> resets_err E = 0 \<and> mbox_err E = 0 \<and> add_ret E = 0) \<and>
     (r = 0) = (Add_rproc \<in> set steps \<and> Free_mbox \<notin> set steps) \<and>
     (Add_rproc \<in> set steps) = (Request_mbox \<in> set steps \<and> mbox_err E = 0)"
  by (auto simp: rk3506_rproc_probe_def)

end
