(* ===== verification/UsbTx.thy ===== *)
theory UsbTx
  imports CmdMgr
begin

text \<open>
  The sending side of the USB transport (\<^verbatim>\<open>aicwf_usb.c\<close>, \<^verbatim>\<open>aicwf_frame_tx\<close> of
  \<^verbatim>\<open>aicwf_txrxif.c\<close>) as the package builds it: no aggregation, no flow control for each
  station, aligned buffers. Transfer buffers go from the free list to the posted list, to the USB
  core and back; a low and a high mark of the free list stop and wake the queues of the network
  devices. Submitting a transfer and its completion belong to the USB core: the result of a
  submission is a parameter, a completion is a step.
\<close>

section \<open>Frames\<close>

text \<open>
  A frame on its way out, with what the driver keeps of it in \<^verbatim>\<open>struct rwnx_sw_txhdr\<close>:
  \<open>f_id\<close> is the address of its buffer, \<open>f_txq\<close> and \<open>f_sta\<close> index the tables of queues and of
  stations, \<open>f_fc\<close> is the first byte behind the headroom.
\<close>

record tx_frame =
  f_id :: nat
  f_txq :: nat
  f_sta :: "nat option"
  f_vif :: nat
  f_mgmt :: bool
  f_retry :: bool
  f_more :: bool
  f_eosp :: bool
  f_fc :: u8
  f_ethertype :: u16
  f_raw :: bool
  f_fixed :: "u32 option"
  f_need_cfm :: bool
  f_hwq :: nat
  f_status_desc :: u32

text \<open>What the driver does to the rest of the kernel and to the firmware, in order.\<close>

datatype tx_event =
    FreeSkb nat
  | FreeHdr nat
  | FreeCopy nat
  | TrafficInd nat bool bool
  | TdlsPeerInd nat
  | MgmtStatus nat bool
  | WarnRetry nat
  | Tasklet

section \<open>The device\<close>

definition AICWF_USB_TX_URBS :: nat where "AICWF_USB_TX_URBS = 50"
definition AICWF_USB_TX_LOW_WATER :: int where "AICWF_USB_TX_LOW_WATER = int AICWF_USB_TX_URBS div 4"
definition AICWF_USB_TX_HIGH_WATER :: int where "AICWF_USB_TX_HIGH_WATER = AICWF_USB_TX_LOW_WATER * 3"
definition TX_ALIGNMENT :: nat where "TX_ALIGNMENT = 4"
definition ENODEV :: int where "ENODEV = 19"

text \<open>
  A transfer buffer: the frame it carries, whether \<^verbatim>\<open>skb\<close> is a copy made for a frame that
  needs a confirmation, and whether it owns an aligned copy.
\<close>

record aicwf_usb_buf =
  ub_id :: nat
  ub_skb :: "tx_frame option"
  ub_cfm :: bool
  ub_align :: bool

text \<open>
  \<open>submitted\<close>: the buffers the USB core has. \<open>up_ndevs\<close>: the network devices of interfaces that are
  up; \<open>stopped d i\<close>: queue \<open>i\<close> of device \<open>d\<close> is stopped. \<open>bustx_trgg\<close> counts the completions that
  wake the sending thread.
\<close>

record aic_usb_dev =
  ud_state :: usb_state
  tx_free_list :: "aicwf_usb_buf list"
  tx_free_count :: int
  tx_post_list :: "aicwf_usb_buf list"
  tx_post_count :: int
  submitted :: "aicwf_usb_buf list"
  bustx_trgg :: nat
  tbusy :: bool
  up_ndevs :: "nat list"
  stopped :: "nat \<Rightarrow> nat \<Rightarrow> bool"
  tx_log :: "tx_event list"

text \<open>Memory: for a frame, whether its copy can be made, whether its data is aligned, and whether an aligned copy can be made.\<close>

record tx_mem =
  mem_copy :: "nat \<Rightarrow> bool"
  is_aligned :: "nat \<Rightarrow> bool"
  mem_align :: "nat \<Rightarrow> bool"

abbreviation log_tx :: "tx_event list \<Rightarrow> aic_usb_dev \<Rightarrow> aic_usb_dev" where
  "log_tx es D \<equiv> D\<lparr>tx_log := tx_log D @ es\<rparr>"

definition stop_all :: "nat \<Rightarrow> bool \<Rightarrow> aic_usb_dev \<Rightarrow> aic_usb_dev" where
  "stop_all nd b D = D\<lparr>stopped := (stopped D)(nd := (\<lambda>_. b))\<rparr>"

definition stop_subqueue :: "nat \<Rightarrow> nat \<Rightarrow> bool \<Rightarrow> aic_usb_dev \<Rightarrow> aic_usb_dev" where
  "stop_subqueue nd i b D = D\<lparr>stopped := (stopped D)(nd := (stopped D nd)(i := b))\<rparr>"

definition aicwf_usb_tx_flowctrl :: "bool \<Rightarrow> aic_usb_dev \<Rightarrow> aic_usb_dev" where
  "aicwf_usb_tx_flowctrl st D = fold (\<lambda>nd. stop_all nd st) (up_ndevs D) D"

section \<open>The lists of buffers\<close>

definition aicwf_usb_tx_dequeue :: "aicwf_usb_buf list \<times> int \<Rightarrow> aicwf_usb_buf option \<times> aicwf_usb_buf list \<times> int" where
  "aicwf_usb_tx_dequeue q = (case q of ([], c) \<Rightarrow> (None, [], c) | (b # bs, c) \<Rightarrow> (Some b, bs, c - 1))"

definition aicwf_usb_tx_queue :: "aicwf_usb_buf \<Rightarrow> aicwf_usb_buf list \<times> int \<Rightarrow> aicwf_usb_buf list \<times> int" where
  "aicwf_usb_tx_queue b q = (case q of (bs, c) \<Rightarrow> (bs @ [b], c + 1))"

definition put_free :: "aicwf_usb_buf \<Rightarrow> aic_usb_dev \<Rightarrow> aic_usb_dev" where
  "put_free b D = (case aicwf_usb_tx_queue b (tx_free_list D, tx_free_count D) of
     (l, c) \<Rightarrow> D\<lparr>tx_free_list := l, tx_free_count := c\<rparr>)"

definition put_post :: "aicwf_usb_buf \<Rightarrow> aic_usb_dev \<Rightarrow> aic_usb_dev" where
  "put_post b D = (case aicwf_usb_tx_queue b (tx_post_list D, tx_post_count D) of
     (l, c) \<Rightarrow> D\<lparr>tx_post_list := l, tx_post_count := c\<rparr>)"

definition get_free :: "aic_usb_dev \<Rightarrow> aicwf_usb_buf option \<times> aic_usb_dev" where
  "get_free D = (case aicwf_usb_tx_dequeue (tx_free_list D, tx_free_count D) of
     (b, l, c) \<Rightarrow> (b, D\<lparr>tx_free_list := l, tx_free_count := c\<rparr>))"

definition get_post :: "aic_usb_dev \<Rightarrow> aicwf_usb_buf option \<times> aic_usb_dev" where
  "get_post D = (case aicwf_usb_tx_dequeue (tx_post_list D, tx_post_count D) of
     (b, l, c) \<Rightarrow> (b, D\<lparr>tx_post_list := l, tx_post_count := c\<rparr>))"

section \<open>Sending a frame\<close>

text \<open>The end of \<^verbatim>\<open>aicwf_usb_bus_txdata\<close> (label \<^verbatim>\<open>flow_ctrl\<close>).\<close>

definition low_check :: "aic_usb_dev \<Rightarrow> aic_usb_dev" where
  "low_check D = (if tx_free_count D < AICWF_USB_TX_LOW_WATER then aicwf_usb_tx_flowctrl True (D\<lparr>tbusy := True\<rparr>) else D)"

text \<open>
  No result: the copy of a frame that needs a confirmation is written through a null pointer, or the
  transfer gets a pointer that was never set. The frame itself is not freed when it needs a
  confirmation.
\<close>

definition aicwf_usb_bus_txdata :: "tx_mem \<Rightarrow> tx_frame \<Rightarrow> aic_usb_dev \<Rightarrow> (int \<times> aic_usb_dev) option" where
  "aicwf_usb_bus_txdata M f D =
     (if ud_state D \<noteq> USB_UP_ST then Some (- EIO, log_tx [FreeHdr (f_id f), FreeSkb (f_id f)] D)
      else case get_free D of
        (None, D) \<Rightarrow> Some (- ENOMEM, low_check (log_tx [FreeHdr (f_id f), FreeSkb (f_id f)] D))
      | (Some b, D) \<Rightarrow>
          if f_need_cfm f \<and> \<not> mem_copy M (f_id f) then None
          else if \<not> is_aligned M (f_id f) \<and> \<not> mem_align M (f_id f) then None
          else let D = (if f_need_cfm f then D else log_tx [FreeHdr (f_id f)] D);
                   b = b\<lparr>ub_skb := Some f, ub_cfm := f_need_cfm f, ub_align := ub_align b \<or> \<not> is_aligned M (f_id f)\<rparr>;
                   D = put_post b D
               in Some (0, low_check (D\<lparr>bustx_trgg := bustx_trgg D + 1\<rparr>)))"

definition aicwf_frame_tx :: "tx_mem \<Rightarrow> tx_frame \<Rightarrow> aic_usb_dev \<Rightarrow> aic_usb_dev option" where
  "aicwf_frame_tx M f D =
     (if ud_state D = USB_DOWN_ST
      then Some (log_tx [FreeHdr (f_id f), FreeSkb (f_id f)] (if tbusy D then D else aicwf_usb_tx_flowctrl True D))
      else map_option snd (aicwf_usb_bus_txdata M f D))"

section \<open>The sending thread\<close>

text \<open>
  One turn of the loop of \<^verbatim>\<open>aicwf_usb_tx_process\<close>; \<open>submit\<close> is what \<^verbatim>\<open>usb_submit_urb\<close>
  returns for the frame. The first component says whether the loop goes on. No result: a copy is
  freed as if it were a socket buffer.
\<close>

definition tx_process_one :: "(nat \<Rightarrow> int) \<Rightarrow> aic_usb_dev \<Rightarrow> (bool \<times> aic_usb_dev) option" where
  "tx_process_one submit D =
     (if ud_state D \<noteq> USB_UP_ST then Some (False, D)
      else case get_post D of
        (None, D) \<Rightarrow> Some (False, D)
      | (Some b, D) \<Rightarrow>
          (case ub_skb b of
             None \<Rightarrow> None
           | Some f \<Rightarrow>
               if submit (f_id f) = 0 then Some (True, D\<lparr>submitted := submitted D @ [b]\<rparr>)
               else if ub_cfm b then None
               else Some (submit (f_id f) \<noteq> - ENODEV, put_free (b\<lparr>ub_skb := None\<rparr>) (log_tx [FreeSkb (f_id f)] D))))"

lemma get_post_list: "tx_post_list (snd (get_post D)) = tl (tx_post_list D)"
  by (cases "tx_post_list D") (simp_all add: get_post_def aicwf_usb_tx_dequeue_def)

lemma tx_process_one_post: "tx_process_one submit D = Some (True, D') \<Longrightarrow> tx_post_list D \<noteq> [] \<Longrightarrow>
    length (tx_post_list D') < length (tx_post_list D)"
  by (cases "tx_post_list D")
    (auto simp: tx_process_one_def get_post_def aicwf_usb_tx_dequeue_def put_free_def aicwf_usb_tx_queue_def
      split: if_splits option.splits)

function aicwf_usb_tx_process :: "(nat \<Rightarrow> int) \<Rightarrow> aic_usb_dev \<Rightarrow> aic_usb_dev option" where
  "aicwf_usb_tx_process submit D =
     (if tx_post_list D = [] then Some D
      else case tx_process_one submit D of
        None \<Rightarrow> None
      | Some (go, D') \<Rightarrow> if go then aicwf_usb_tx_process submit D' else Some D')"
  by pat_completeness auto
termination by (relation "measure (\<lambda>(_, D). length (tx_post_list D))") (auto simp: tx_process_one_post)

declare aicwf_usb_tx_process.simps [simp del]

text \<open>The USB core completes the transfer of a buffer.\<close>

definition aicwf_usb_tx_complete :: "nat \<Rightarrow> aic_usb_dev \<Rightarrow> aic_usb_dev option" where
  "aicwf_usb_tx_complete i D =
     (case find (\<lambda>b. ub_id b = i) (submitted D) of
        None \<Rightarrow> None
      | Some b \<Rightarrow>
          (case ub_skb b of
             None \<Rightarrow> None
           | Some f \<Rightarrow>
               let D = D\<lparr>submitted := remove1 b (submitted D)\<rparr>;
                   D = log_tx [if ub_cfm b then FreeCopy (f_id f) else FreeSkb (f_id f)] D;
                   D = put_free (b\<lparr>ub_skb := None, ub_align := False\<rparr>) D
               in Some (if tx_free_count D > AICWF_USB_TX_HIGH_WATER \<and> tbusy D
                        then aicwf_usb_tx_flowctrl False (D\<lparr>tbusy := False\<rparr>) else D)))"

section \<open>Start, stop, sleep\<close>

definition aicwf_usb_state_change :: "usb_state \<Rightarrow> aic_usb_dev \<Rightarrow> aic_usb_dev" where
  "aicwf_usb_state_change st D = D\<lparr>ud_state := st\<rparr>"

text \<open>
  Buffers that are posted go back to the free list with their frame freed. No result: a copy is freed
  as if it were a socket buffer.
\<close>

function aicwf_usb_tx_prepare :: "aic_usb_dev \<Rightarrow> aic_usb_dev option" where
  "aicwf_usb_tx_prepare D =
     (case tx_post_list D of
        [] \<Rightarrow> Some D
      | b # _ \<Rightarrow>
          (case ub_skb b of
             None \<Rightarrow> aicwf_usb_tx_prepare (put_free b (snd (get_post D)))
           | Some f \<Rightarrow> if ub_cfm b then None
               else aicwf_usb_tx_prepare (put_free (b\<lparr>ub_skb := None\<rparr>) (log_tx [FreeSkb (f_id f)] (snd (get_post D))))))"
  by pat_completeness auto
termination
  by (relation "measure (\<lambda>D. length (tx_post_list D))")
    (auto simp: put_free_def aicwf_usb_tx_queue_def get_post_list)

declare aicwf_usb_tx_prepare.simps [simp del]

definition aicwf_usb_bus_start :: "aic_usb_dev \<Rightarrow> aic_usb_dev option" where
  "aicwf_usb_bus_start D =
     (if ud_state D = USB_UP_ST then Some D else aicwf_usb_tx_prepare (aicwf_usb_state_change USB_UP_ST D))"

definition aicwf_usb_bus_stop :: "aic_usb_dev \<Rightarrow> aic_usb_dev" where
  "aicwf_usb_bus_stop D = (if ud_state D = USB_DOWN_ST then D else aicwf_usb_state_change USB_DOWN_ST D)"

definition aicwf_usb_suspend :: "nat list \<Rightarrow> aic_usb_dev \<Rightarrow> aic_usb_dev" where
  "aicwf_usb_suspend ndevs D =
     aicwf_usb_bus_stop (aicwf_usb_state_change USB_SLEEP_ST (fold (\<lambda>nd. stop_all nd True) ndevs D))"

definition aicwf_usb_resume :: "nat list \<Rightarrow> aic_usb_dev \<Rightarrow> aic_usb_dev option" where
  "aicwf_usb_resume ndevs D =
     do { D \<leftarrow> (if ud_state D \<noteq> USB_UP_ST then aicwf_usb_bus_start D else Some D);
          Some (fold (\<lambda>nd. stop_all nd False) ndevs D) }"

text \<open>\<^verbatim>\<open>aicwf_usb_init\<close>, the part for sending, when every allocation succeeds.\<close>

definition aicwf_usb_alloc_tx_urb :: "aic_usb_dev \<Rightarrow> aic_usb_dev" where
  "aicwf_usb_alloc_tx_urb D =
     fold (\<lambda>i. put_free \<lparr>ub_id = i, ub_skb = None, ub_cfm = False, ub_align = False\<rparr>) [0..<AICWF_USB_TX_URBS] D"

definition aicwf_usb_init :: "nat list \<Rightarrow> aic_usb_dev" where
  "aicwf_usb_init ndevs = aicwf_usb_alloc_tx_urb
     \<lparr>ud_state = USB_DOWN_ST, tx_free_list = [], tx_free_count = 0, tx_post_list = [], tx_post_count = 0, submitted = [],
      bustx_trgg = 0, tbusy = False, up_ndevs = ndevs, stopped = (\<lambda>_ _. False), tx_log = []\<rparr>"

section \<open>The packet on the bus\<close>

text \<open>
  The bytes of the transfer: a header of four bytes with the length (twelve bits of it), the descriptor
  and the frame; only the copy of a frame that needs a confirmation is padded to a multiple of four.
\<close>

definition usb_hdr :: "nat \<Rightarrow> bytes" where
  "usb_hdr n = [of_nat n AND 0xff, of_nat (n div 256) AND 0x0f, 0x01, 0]"

definition usb_packet :: "bool \<Rightarrow> bytes \<Rightarrow> bytes \<Rightarrow> bytes" where
  "usb_packet cfm desc data =
     (let n = 4 + length desc + length data;
          pad = (if cfm \<and> n mod TX_ALIGNMENT \<noteq> 0 then TX_ALIGNMENT - n mod TX_ALIGNMENT else 0)
      in usb_hdr (n + pad) @ desc @ data @ replicate pad 0)"

end
