(* ===== verification/BufPool.thy ===== *)
theory BufPool
  imports Prelude
begin

text \<open>
  The interface of the lists of transfer buffers: a list of buffers in a state from which one is taken
  at the front and put back at the end, while the rest of the state stays. What a list of buffers and a
  holder have between them is the same before and after.
\<close>

locale buf_pool =
  fixes pool :: "'s \<Rightarrow> 'b list"
    and rest :: "'s \<Rightarrow> 'r"
    and get :: "'s \<Rightarrow> 'b option \<times> 's"
    and put :: "'b \<Rightarrow> 's \<Rightarrow> 's"
  assumes put_pool: "pool (put b s) = pool s @ [b]"
    and put_rest: "rest (put b s) = rest s"
    and get_empty: "pool s = [] \<Longrightarrow> fst (get s) = None"
    and get_first: "pool s = b # bs \<Longrightarrow> fst (get s) = Some b"
    and get_pool: "pool (snd (get s)) = tl (pool s)"
    and get_rest: "rest (snd (get s)) = rest s"
begin

lemma get_None_iff: "fst (get s) = None \<longleftrightarrow> pool s = []"
  by (cases "pool s") (simp_all add: get_empty get_first)

lemma get_NoneD:
  assumes "get s = (None, s')"
  shows "pool s = []" "pool s' = []" "rest s' = rest s"
  using get_None_iff[of s] get_pool[of s] get_rest[of s] assms by simp_all

lemma get_SomeD:
  assumes "get s = (Some b, s')"
  shows "pool s = b # pool s'" "rest s' = rest s"
proof -
  have "pool s \<noteq> []" using get_None_iff[of s] assms by auto
  then obtain c cs where c: "pool s = c # cs" by (cases "pool s") simp_all
  then show "pool s = b # pool s'" using get_first[OF c] get_pool[of s] assms by simp
  show "rest s' = rest s" using get_rest[of s] assms by simp
qed

lemma get_conserves:
  assumes "get s = (Some b, s')"
  shows "mset (pool s) = {#b#} + mset (pool s')"
  using get_SomeD(1)[OF assms] by simp

lemma put_conserves: "mset (pool (put b s)) = mset (pool s) + {#b#}"
  by (simp add: put_pool)

text \<open>Buffers come back in the order in which they were put.\<close>

fun take_all :: "nat \<Rightarrow> 's \<Rightarrow> 'b list \<times> 's" where
  "take_all 0 s = ([], s)"
| "take_all (Suc n) s = (case get s of (None, s') \<Rightarrow> ([], s')
     | (Some b, s') \<Rightarrow> (case take_all n s' of (bs, s'') \<Rightarrow> (b # bs, s'')))"

lemma take_all_pool: "fst (take_all n s) = take n (pool s)"
proof (induction n arbitrary: s)
  case (Suc n)
  show ?case
  proof (cases "get s")
    case (Pair x s')
    show ?thesis
    proof (cases x)
      case None
      then show ?thesis using get_NoneD(1)[of s s'] Pair by simp
    next
      case (Some b)
      then show ?thesis using get_SomeD(1)[of s b s'] Pair Suc[of s'] by (cases "take_all n s'") simp
    qed
  qed
qed simp

lemma fold_put: "pool (fold put bs s) = pool s @ bs" "rest (fold put bs s) = rest s"
  by (induction bs arbitrary: s) (simp_all add: put_pool put_rest)

lemma fifo: "pool s = [] \<Longrightarrow> fst (take_all (length bs) (fold put bs s)) = bs"
  by (simp add: take_all_pool fold_put)

end

end
