(* ===== verification/UsbTxProps.thy ===== *)
theory UsbTxProps
  imports UsbTx BufPool
begin

text \<open>
  What the sending side of the USB transport promises: buffers and frames are conserved, its flow
  control wakes the queues it stopped, and where it does not.
\<close>

section \<open>The lists as pools\<close>

text \<open>What a list operation leaves alone: everything but the list and its counter.\<close>

definition but_free :: "aic_usb_dev \<Rightarrow> aic_usb_dev" where
  "but_free D = D\<lparr>tx_free_list := [], tx_free_count := 0\<rparr>"

definition but_post :: "aic_usb_dev \<Rightarrow> aic_usb_dev" where
  "but_post D = D\<lparr>tx_post_list := [], tx_post_count := 0\<rparr>"

interpretation free: buf_pool tx_free_list but_free get_free put_free
  by unfold_locales
    (auto simp: but_free_def get_free_def put_free_def aicwf_usb_tx_dequeue_def aicwf_usb_tx_queue_def split: list.splits)

interpretation post: buf_pool tx_post_list but_post get_post put_post
  by unfold_locales
    (auto simp: but_post_def get_post_def put_post_def aicwf_usb_tx_dequeue_def aicwf_usb_tx_queue_def split: list.splits)

lemma get_free_Some:
  assumes "get_free D = (Some b, D')"
  shows "tx_free_list D = b # tx_free_list D'" "D' = D\<lparr>tx_free_list := tl (tx_free_list D), tx_free_count := tx_free_count D - 1\<rparr>"
  using free.get_SomeD(1)[OF assms] assms
  by (auto simp: get_free_def aicwf_usb_tx_dequeue_def split: list.splits)

lemma get_free_None: "get_free D = (None, D') \<longleftrightarrow> tx_free_list D = [] \<and> D' = D"
  by (auto simp: get_free_def aicwf_usb_tx_dequeue_def split: list.splits)

lemma get_post_Some:
  assumes "get_post D = (Some b, D')"
  shows "tx_post_list D = b # tx_post_list D'" "D' = D\<lparr>tx_post_list := tl (tx_post_list D), tx_post_count := tx_post_count D - 1\<rparr>"
  using post.get_SomeD(1)[OF assms] assms
  by (auto simp: get_post_def aicwf_usb_tx_dequeue_def split: list.splits)

lemma get_post_Cons: "tx_post_list D = b # bs \<Longrightarrow> get_post D = (Some b, D\<lparr>tx_post_list := bs, tx_post_count := tx_post_count D - 1\<rparr>)"
  by (simp add: get_post_def aicwf_usb_tx_dequeue_def)

lemma get_post_None: "get_post D = (None, D') \<longleftrightarrow> tx_post_list D = [] \<and> D' = D"
  by (auto simp: get_post_def aicwf_usb_tx_dequeue_def split: list.splits)

lemma put_free_eq: "put_free b D = D\<lparr>tx_free_list := tx_free_list D @ [b], tx_free_count := tx_free_count D + 1\<rparr>"
  by (simp add: put_free_def aicwf_usb_tx_queue_def)

lemma put_post_eq: "put_post b D = D\<lparr>tx_post_list := tx_post_list D @ [b], tx_post_count := tx_post_count D + 1\<rparr>"
  by (simp add: put_post_def aicwf_usb_tx_queue_def)

section \<open>Stopping and waking\<close>

lemma stop_all_fields [simp]:
  "ud_state (stop_all nd b D) = ud_state D" "tx_free_list (stop_all nd b D) = tx_free_list D"
  "tx_free_count (stop_all nd b D) = tx_free_count D" "tx_post_list (stop_all nd b D) = tx_post_list D"
  "tx_post_count (stop_all nd b D) = tx_post_count D" "submitted (stop_all nd b D) = submitted D"
  "tbusy (stop_all nd b D) = tbusy D" "up_ndevs (stop_all nd b D) = up_ndevs D" "tx_log (stop_all nd b D) = tx_log D"
  by (simp_all add: stop_all_def)

lemma fold_stop_all [simp]:
  "ud_state (fold (\<lambda>nd. stop_all nd b) nds D) = ud_state D"
  "tx_free_list (fold (\<lambda>nd. stop_all nd b) nds D) = tx_free_list D"
  "tx_free_count (fold (\<lambda>nd. stop_all nd b) nds D) = tx_free_count D"
  "tx_post_list (fold (\<lambda>nd. stop_all nd b) nds D) = tx_post_list D"
  "tx_post_count (fold (\<lambda>nd. stop_all nd b) nds D) = tx_post_count D"
  "submitted (fold (\<lambda>nd. stop_all nd b) nds D) = submitted D"
  "tbusy (fold (\<lambda>nd. stop_all nd b) nds D) = tbusy D"
  "up_ndevs (fold (\<lambda>nd. stop_all nd b) nds D) = up_ndevs D"
  "tx_log (fold (\<lambda>nd. stop_all nd b) nds D) = tx_log D"
  by (induction nds arbitrary: D) simp_all

lemma stopped_fold: "stopped (fold (\<lambda>nd. stop_all nd b) nds D) nd i = (if nd \<in> set nds then b else stopped D nd i)"
  by (induction nds arbitrary: D) (auto simp: stop_all_def)

lemma flowctrl_fields [simp]:
  "ud_state (aicwf_usb_tx_flowctrl b D) = ud_state D" "tx_free_list (aicwf_usb_tx_flowctrl b D) = tx_free_list D"
  "tx_free_count (aicwf_usb_tx_flowctrl b D) = tx_free_count D" "tx_post_list (aicwf_usb_tx_flowctrl b D) = tx_post_list D"
  "tx_post_count (aicwf_usb_tx_flowctrl b D) = tx_post_count D" "submitted (aicwf_usb_tx_flowctrl b D) = submitted D"
  "tbusy (aicwf_usb_tx_flowctrl b D) = tbusy D" "up_ndevs (aicwf_usb_tx_flowctrl b D) = up_ndevs D"
  "tx_log (aicwf_usb_tx_flowctrl b D) = tx_log D"
  by (simp_all add: aicwf_usb_tx_flowctrl_def)

lemma stopped_flowctrl: "stopped (aicwf_usb_tx_flowctrl b D) nd i = (if nd \<in> set (up_ndevs D) then b else stopped D nd i)"
  by (simp add: aicwf_usb_tx_flowctrl_def stopped_fold)

lemma low_check_fields [simp]:
  "ud_state (low_check D) = ud_state D" "tx_free_list (low_check D) = tx_free_list D"
  "tx_free_count (low_check D) = tx_free_count D" "tx_post_list (low_check D) = tx_post_list D"
  "tx_post_count (low_check D) = tx_post_count D" "submitted (low_check D) = submitted D"
  "up_ndevs (low_check D) = up_ndevs D" "tx_log (low_check D) = tx_log D"
  by (simp_all add: low_check_def)

lemma tbusy_low_check: "tbusy (low_check D) \<longleftrightarrow> tbusy D \<or> tx_free_count D < AICWF_USB_TX_LOW_WATER"
  by (simp add: low_check_def)

section \<open>Runs\<close>

text \<open>
  What happens to the sending side, one event at a time: a frame is handed over, the thread takes one
  turn (the submission gives \<open>r\<close>), a transfer completes, the bus starts or stops, the system sleeps and
  wakes.
\<close>

datatype usb_op = Tx tx_mem tx_frame | Turn int | Complete nat | Start | Stop | Suspend "nat list" | Resume "nat list"

fun usb_do :: "usb_op \<Rightarrow> aic_usb_dev \<Rightarrow> aic_usb_dev option" where
  "usb_do (Tx M f) D = aicwf_frame_tx M f D"
| "usb_do (Turn r) D = (if tx_post_list D = [] then Some D else map_option snd (tx_process_one (\<lambda>_. r) D))"
| "usb_do (Complete i) D = aicwf_usb_tx_complete i D"
| "usb_do Start D = aicwf_usb_bus_start D"
| "usb_do Stop D = Some (aicwf_usb_bus_stop D)"
| "usb_do (Suspend nds) D = Some (aicwf_usb_suspend nds D)"
| "usb_do (Resume nds) D = aicwf_usb_resume nds D"

fun usb_run :: "usb_op list \<Rightarrow> aic_usb_dev \<Rightarrow> aic_usb_dev option" where
  "usb_run [] D = Some D"
| "usb_run (x # xs) D = do { D \<leftarrow> usb_do x D; usb_run xs D }"

lemma usb_run_append: "usb_run (xs @ ys) D = do { D \<leftarrow> usb_run xs D; usb_run ys D }"
proof (induction xs arbitrary: D)
  case (Cons x xs)
  then show ?case by (cases "usb_do x D") simp_all
qed simp

section \<open>Buffers and frames\<close>

definition all_bufs :: "aic_usb_dev \<Rightarrow> aicwf_usb_buf multiset" where
  "all_bufs D = mset (tx_free_list D) + mset (tx_post_list D) + mset (submitted D)"

text \<open>
  The counters are the lengths of the lists, every buffer of the device is in one list, free buffers
  hold no frame and the others hold one.
\<close>

definition usb_ok :: "aic_usb_dev \<Rightarrow> bool" where
  "usb_ok D \<longleftrightarrow> tx_free_count D = int (length (tx_free_list D)) \<and> tx_post_count D = int (length (tx_post_list D)) \<and>
     image_mset ub_id (all_bufs D) = mset [0..<AICWF_USB_TX_URBS] \<and>
     (\<forall>b \<in> set (tx_free_list D). ub_skb b = None) \<and>
     (\<forall>b \<in> set (tx_post_list D) \<union> set (submitted D). ub_skb b \<noteq> None)"

text \<open>The frames in buffers, the frames freed, and the frames whose copy was freed.\<close>

definition held :: "aicwf_usb_buf list \<Rightarrow> nat multiset" where
  "held bs = mset (map (\<lambda>b. f_id (the (ub_skb b))) (filter (\<lambda>b. ub_skb b \<noteq> None) bs))"

fun skb_freed :: "tx_event list \<Rightarrow> nat multiset" where
  "skb_freed [] = {#}"
| "skb_freed (FreeSkb i # es) = {#i#} + skb_freed es"
| "skb_freed (FreeCopy i # es) = {#i#} + skb_freed es"
| "skb_freed (_ # es) = skb_freed es"

definition accounted :: "aic_usb_dev \<Rightarrow> nat multiset" where
  "accounted D = held (tx_post_list D) + held (submitted D) + skb_freed (tx_log D)"

fun handed :: "usb_op \<Rightarrow> nat multiset" where
  "handed (Tx M f) = {#f_id f#}"
| "handed _ = {#}"

lemma skb_freed_append [simp]: "skb_freed (es @ es') = skb_freed es + skb_freed es'"
  by (induction es rule: skb_freed.induct) auto

lemma held_simps [simp]:
  "held [] = {#}" "held (b # bs) = (case ub_skb b of None \<Rightarrow> {#} | Some f \<Rightarrow> {#f_id f#}) + held bs"
  "held (bs @ cs) = held bs + held cs"
  by (auto simp: held_def split: option.splits)

lemma held_remove1: "b \<in> set bs \<Longrightarrow> held bs = (case ub_skb b of None \<Rightarrow> {#} | Some f \<Rightarrow> {#f_id f#}) + held (remove1 b bs)"
  by (induction bs) auto

lemmas usb_defs = usb_ok_def all_bufs_def accounted_def

text \<open>One lemma for each event: the invariant holds and frames are accounted for.\<close>

lemma txdata_ok:
  assumes "usb_ok D" and "aicwf_usb_bus_txdata M f D = Some (r, D')"
  shows "usb_ok D'" "accounted D' = accounted D + {#f_id f#}"
proof -
  consider "ud_state D \<noteq> USB_UP_ST" | "ud_state D = USB_UP_ST" "tx_free_list D = []"
    | b bs where "ud_state D = USB_UP_ST" "tx_free_list D = b # bs" by (cases "tx_free_list D") auto
  then have "usb_ok D' \<and> accounted D' = accounted D + {#f_id f#}"
  proof cases
    case 1
    then show ?thesis using assms by (auto simp: aicwf_usb_bus_txdata_def usb_defs)
  next
    case 2
    then show ?thesis using assms by (auto simp: aicwf_usb_bus_txdata_def get_free_def aicwf_usb_tx_dequeue_def usb_defs)
  next
    case 3
    then show ?thesis using assms
      by (auto simp: aicwf_usb_bus_txdata_def get_free_def aicwf_usb_tx_dequeue_def put_post_eq usb_defs Let_def split: if_splits)
  qed
  then show "usb_ok D'" "accounted D' = accounted D + {#f_id f#}" by simp_all
qed

lemma frame_tx_ok:
  assumes "usb_ok D" and "aicwf_frame_tx M f D = Some D'"
  shows "usb_ok D' \<and> accounted D' = accounted D + {#f_id f#}"
proof (cases "ud_state D = USB_DOWN_ST")
  case True
  then show ?thesis using assms by (cases "tbusy D") (auto simp: aicwf_frame_tx_def usb_defs)
next
  case False
  then show ?thesis using assms txdata_ok[OF assms(1)] by (auto simp: aicwf_frame_tx_def)
qed

lemma turn_ok:
  assumes "usb_ok D" and "tx_process_one submit D = Some (go, D')"
  shows "usb_ok D' \<and> accounted D' = accounted D"
proof (cases "tx_post_list D")
  case Nil
  then have "D' = D" using assms get_post_None[of D D]
    by (auto simp: tx_process_one_def split: if_splits option.splits prod.splits)
  then show ?thesis using assms by simp
next
  case (Cons b bs)
  then show ?thesis using assms
    by (auto simp: tx_process_one_def get_post_def aicwf_usb_tx_dequeue_def put_free_eq usb_defs split: if_splits option.splits)
qed

lemma complete_ok:
  assumes "usb_ok D" and "aicwf_usb_tx_complete i D = Some D'"
  shows "usb_ok D' \<and> accounted D' = accounted D"
proof -
  obtain b f where b: "find (\<lambda>b. ub_id b = i) (submitted D) = Some b" and f: "ub_skb b = Some f"
    using assms(2) by (auto simp: aicwf_usb_tx_complete_def split: option.splits)
  have i: "b \<in> set (submitted D)" using b by (auto simp: find_Some_iff)
  obtain bs where bs: "remove1 b (submitted D) = bs" "mset (submitted D) = add_mset b (mset bs)" "set bs \<subseteq> set (submitted D)"
    using i set_remove1_subset[of b "submitted D"] by simp
  let ?D = "D\<lparr>submitted := bs, tx_log := tx_log D @ [if ub_cfm b then FreeCopy (f_id f) else FreeSkb (f_id f)],
      tx_free_list := tx_free_list D @ [b\<lparr>ub_skb := None, ub_align := False\<rparr>], tx_free_count := tx_free_count D + 1\<rparr>"
  have "usb_ok ?D" using assms(1) bs(2,3) unfolding usb_defs by auto
  moreover have "accounted ?D = accounted D" using held_remove1[OF i] f bs(1) by (simp add: accounted_def)
  moreover have "D' = ?D \<or> D' = aicwf_usb_tx_flowctrl False (?D\<lparr>tbusy := False\<rparr>)"
    using assms(2) b f bs(1) by (auto simp: aicwf_usb_tx_complete_def put_free_eq Let_def split: if_splits)
  ultimately show ?thesis by (elim disjE) (simp_all add: usb_defs)
qed

lemma prepare_Nil: "tx_post_list D = [] \<Longrightarrow> aicwf_usb_tx_prepare D = Some D"
  by (subst aicwf_usb_tx_prepare.simps) simp

lemma prepare_Cons:
  assumes "tx_post_list D = b # bs"
  shows "aicwf_usb_tx_prepare D =
    (let D' = D\<lparr>tx_post_list := bs, tx_post_count := tx_post_count D - 1\<rparr> in
     case ub_skb b of None \<Rightarrow> aicwf_usb_tx_prepare (put_free b D')
     | Some f \<Rightarrow> if ub_cfm b then None else aicwf_usb_tx_prepare (put_free (b\<lparr>ub_skb := None\<rparr>) (log_tx [FreeSkb (f_id f)] D')))"
  by (subst aicwf_usb_tx_prepare.simps)
    (cases "ub_skb b"; cases "ub_cfm b"; simp add: assms get_post_Cons[OF assms])

lemma prepare_ok: "aicwf_usb_tx_prepare D = Some D' \<Longrightarrow> usb_ok D \<Longrightarrow> usb_ok D' \<and> accounted D' = accounted D"
proof (induction "length (tx_post_list D)" arbitrary: D)
  case 0
  then show ?case by (simp add: prepare_Nil)
next
  case (Suc n)
  then obtain b bs where Cons: "tx_post_list D = b # bs" by (cases "tx_post_list D") simp_all
  then obtain g where "ub_skb b = Some g" using Suc(4) by (auto simp: usb_ok_def)
  then obtain f where f: "ub_skb b = Some f" "\<not> ub_cfm b" using Suc(3) prepare_Cons[OF Cons] by (cases "ub_cfm b") simp_all
  let ?D = "D\<lparr>tx_post_list := bs, tx_post_count := tx_post_count D - 1, tx_log := tx_log D @ [FreeSkb (f_id f)],
        tx_free_list := tx_free_list D @ [b\<lparr>ub_skb := None\<rparr>], tx_free_count := tx_free_count D + 1\<rparr>"
  have "usb_ok ?D \<and> accounted ?D = accounted D" using Suc(4) Cons f by (auto simp: usb_defs)
  moreover have "aicwf_usb_tx_prepare ?D = Some D'" using Suc(3) prepare_Cons[OF Cons] f by (simp add: put_free_eq)
  moreover have "n = length (tx_post_list ?D)" using Suc(2) Cons by simp
  ultimately show ?case using Suc(1)[of ?D] by simp
qed

lemma usb_ok_stop [simp]:
  "usb_ok (fold (\<lambda>nd. stop_all nd b) nds D) = usb_ok D" "accounted (fold (\<lambda>nd. stop_all nd b) nds D) = accounted D"
  "usb_ok (aicwf_usb_state_change st D) = usb_ok D" "accounted (aicwf_usb_state_change st D) = accounted D"
  by (simp_all add: usb_defs aicwf_usb_state_change_def)

lemma start_ok: "aicwf_usb_bus_start D = Some D' \<Longrightarrow> usb_ok D \<Longrightarrow> usb_ok D' \<and> accounted D' = accounted D"
  using prepare_ok[of "aicwf_usb_state_change USB_UP_ST D" D'] by (auto simp: aicwf_usb_bus_start_def split: if_splits)

lemma stop_ok: "usb_ok D \<Longrightarrow> usb_ok (aicwf_usb_bus_stop D) \<and> accounted (aicwf_usb_bus_stop D) = accounted D"
  by (simp add: aicwf_usb_bus_stop_def)

lemma usb_do_ok:
  assumes "usb_do x D = Some D'" and "usb_ok D"
  shows "usb_ok D' \<and> accounted D' = accounted D + handed x"
proof (cases x)
  case (Tx M f)
  then show ?thesis using assms frame_tx_ok by simp
next
  case (Turn r)
  then show ?thesis using assms turn_ok[OF assms(2)] by (auto split: if_splits)
next
  case (Complete i)
  then show ?thesis using assms complete_ok by simp
next
  case Start
  then show ?thesis using assms start_ok by simp
next
  case Stop
  then show ?thesis using assms stop_ok by auto
next
  case (Suspend nds)
  then show ?thesis using assms stop_ok by (auto simp: aicwf_usb_suspend_def)
next
  case (Resume nds)
  then show ?thesis using assms start_ok by (auto simp: aicwf_usb_resume_def bind_eq_Some_conv split: if_splits)
qed

lemma usb_run_ok:
  "usb_run xs D = Some D' \<Longrightarrow> usb_ok D \<Longrightarrow> usb_ok D' \<and> accounted D' = accounted D + sum_list (map handed xs)"
proof (induction xs arbitrary: D)
  case (Cons x xs)
  then obtain D1 where D: "usb_do x D = Some D1" "usb_run xs D1 = Some D'" by (auto simp: bind_eq_Some_conv)
  show ?case using Cons.IH[OF D(2)] usb_do_ok[OF D(1) Cons.prems(2)] by (simp add: ac_simps)
qed simp

lemma usb_init_ok: "usb_ok (aicwf_usb_init nds)" "accounted (aicwf_usb_init nds) = {#}"
  "tx_post_list (aicwf_usb_init nds) = []" "submitted (aicwf_usb_init nds) = []" "tbusy (aicwf_usb_init nds) = False"
proof -
  have f: "fold (\<lambda>i. put_free \<lparr>ub_id = i, ub_skb = None, ub_cfm = False, ub_align = False\<rparr>) is D =
      D\<lparr>tx_free_list := tx_free_list D @ map (\<lambda>i. \<lparr>ub_id = i, ub_skb = None, ub_cfm = False, ub_align = False\<rparr>) is,
        tx_free_count := tx_free_count D + int (length is)\<rparr>" for "is" D
    by (induction "is" arbitrary: D) (simp_all add: put_free_eq)
  show "usb_ok (aicwf_usb_init nds)" "accounted (aicwf_usb_init nds) = {#}"
    "tx_post_list (aicwf_usb_init nds) = []" "submitted (aicwf_usb_init nds) = []" "tbusy (aicwf_usb_init nds) = False"
    by (simp_all add: aicwf_usb_init_def aicwf_usb_alloc_tx_urb_def f usb_defs image_mset.compositionality comp_def)
qed

text \<open>
  C7: After any run of the sending side that does not fault, each of the fifty transfer buffers is in
  one list, free, posted or with the USB core, the counters are the lengths of the lists, and each frame
  that was handed over is, once, in a buffer or freed (or, when it needs a confirmation, its copy is).
\<close>

theorem usb_buffers_conserved:
  assumes "usb_run xs (aicwf_usb_init nds) = Some D"
  shows "usb_ok D \<and> sum_list (map handed xs) = held (tx_post_list D) + held (submitted D) + skb_freed (tx_log D)"
  using usb_run_ok[OF assms usb_init_ok(1)] usb_init_ok(2) by (simp add: accounted_def)

definition frame0 :: "nat \<Rightarrow> bool \<Rightarrow> tx_frame" where
  "frame0 i cfm = \<lparr>f_id = i, f_txq = 0, f_sta = None, f_vif = 0, f_mgmt = False, f_retry = False, f_more = False, f_eosp = False,
     f_fc = 0x88, f_ethertype = 8, f_raw = False, f_fixed = None, f_need_cfm = cfm, f_hwq = 1, f_status_desc = 0\<rparr>"

definition mem0 :: tx_mem where
  "mem0 = \<lparr>mem_copy = (\<lambda>_. True), is_aligned = (\<lambda>_. True), mem_align = (\<lambda>_. True)\<rparr>"

lemma upt_50: "[0..<AICWF_USB_TX_URBS] = 0 # [1..<50]"
  by (simp add: AICWF_USB_TX_URBS_def upt_conv_Cons)

lemma init_up:
  "\<exists>D. usb_run [Start] (aicwf_usb_init nds) = Some D \<and> ud_state D = USB_UP_ST \<and> tx_free_list D \<noteq> [] \<and> usb_ok D \<and>
     tx_post_list D = [] \<and> submitted D = [] \<and> tbusy D = False \<and> up_ndevs D = nds \<and> accounted D = {#}"
proof -
  let ?I = "aicwf_usb_init nds"
  have "ud_state ?I = USB_DOWN_ST \<and> up_ndevs ?I = nds \<and> tx_free_list ?I \<noteq> []"
  proof -
    have "ud_state (fold (\<lambda>i. put_free (f i)) is D) = ud_state D \<and> up_ndevs (fold (\<lambda>i. put_free (f i)) is D) = up_ndevs D \<and>
      length (tx_free_list (fold (\<lambda>i. put_free (f i)) is D)) = length (tx_free_list D) + length is" for f "is" D
      by (induction "is" arbitrary: D) (simp_all add: put_free_eq)
    from this[of "\<lambda>i. \<lparr>ub_id = i, ub_skb = None, ub_cfm = False, ub_align = False\<rparr>" "[0..<AICWF_USB_TX_URBS]"
        "\<lparr>ud_state = USB_DOWN_ST, tx_free_list = [], tx_free_count = 0, tx_post_list = [], tx_post_count = 0, submitted = [],
      bustx_trgg = 0, tbusy = False, up_ndevs = nds, stopped = (\<lambda>_ _. False), tx_log = []\<rparr>"]
    show ?thesis by (auto simp: aicwf_usb_init_def aicwf_usb_alloc_tx_urb_def AICWF_USB_TX_URBS_def)
  qed
  moreover have "aicwf_usb_tx_prepare (aicwf_usb_state_change USB_UP_ST ?I) = Some (aicwf_usb_state_change USB_UP_ST ?I)"
    by (rule prepare_Nil) (simp add: aicwf_usb_state_change_def usb_init_ok)
  ultimately show ?thesis using usb_init_ok[of nds]
    by (auto simp: aicwf_usb_bus_start_def aicwf_usb_state_change_def usb_defs)
qed

lemma usb_buffers_conserved_witness:
  "\<exists>D. usb_run [Start, Tx mem0 (frame0 7 False), Turn 0] (aicwf_usb_init [0]) = Some D \<and> usb_ok D \<and>
     {#7#} = held (tx_post_list D) + held (submitted D) + skb_freed (tx_log D)"
proof -
  obtain D where D: "usb_run [Start] (aicwf_usb_init [0]) = Some D" "ud_state D = USB_UP_ST" "tx_free_list D \<noteq> []"
    "tx_post_list D = []" using init_up by blast
  obtain b bs where "tx_free_list D = b # bs" using D(3) by (cases "tx_free_list D") auto
  then obtain D' where "usb_run [Tx mem0 (frame0 7 False), Turn 0] D = Some D'" using D(2,4)
    by (simp add: aicwf_frame_tx_def aicwf_usb_bus_txdata_def get_free_def aicwf_usb_tx_dequeue_def mem0_def frame0_def Let_def
        put_post_eq tx_process_one_def get_post_def)
  then have r: "usb_run [Start, Tx mem0 (frame0 7 False), Turn 0] (aicwf_usb_init [0]) = Some D'"
    using D(1) usb_run_append[of "[Start]" "[Tx mem0 (frame0 7 False), Turn 0]" "aicwf_usb_init [0]"] by (simp del: usb_run.simps)
  from usb_buffers_conserved[OF r] have "usb_ok D' \<and>
     {#7#} = held (tx_post_list D') + held (submitted D') + skb_freed (tx_log D')" by (simp add: frame0_def)
  then show ?thesis using r by blast
qed

section \<open>Flow control\<close>

text \<open>Runs in which every submission succeeds and the bus stays up.\<close>

fun good_op :: "usb_op \<Rightarrow> bool" where
  "good_op (Tx M f) = True"
| "good_op (Turn r) = (r = 0)"
| "good_op (Complete i) = True"
| "good_op _ = False"

definition flow_ok :: "aic_usb_dev \<Rightarrow> bool" where
  "flow_ok D \<longleftrightarrow> ud_state D = USB_UP_ST \<and> (tbusy D \<longrightarrow> tx_free_count D \<le> AICWF_USB_TX_HIGH_WATER)"

definition awake :: "aic_usb_dev \<Rightarrow> bool" where
  "awake D \<longleftrightarrow> (\<forall>nd \<in> set (up_ndevs D). \<forall>i. \<not> stopped D nd i)"

fun complete_all :: "nat list \<Rightarrow> aic_usb_dev \<Rightarrow> aic_usb_dev option" where
  "complete_all [] D = Some D"
| "complete_all (i # is) D = do { D \<leftarrow> aicwf_usb_tx_complete i D; complete_all is D }"

lemma low_high: "AICWF_USB_TX_LOW_WATER = 12" "AICWF_USB_TX_HIGH_WATER = 36"
  by (simp_all add: AICWF_USB_TX_LOW_WATER_def AICWF_USB_TX_HIGH_WATER_def AICWF_USB_TX_URBS_def)

lemma good_flow:
  assumes "good_op x" "usb_do x D = Some D'" "flow_ok D"
  shows "flow_ok D'"
proof (cases x)
  case (Tx M f)
  then show ?thesis using assms
    by (cases "tx_free_list D")
      (auto simp: aicwf_frame_tx_def aicwf_usb_bus_txdata_def flow_ok_def get_free_def aicwf_usb_tx_dequeue_def put_post_eq Let_def
        tbusy_low_check low_high split: if_splits)
next
  case (Turn r)
  then show ?thesis using assms
    by (cases "tx_post_list D")
      (auto simp: tx_process_one_def get_post_def aicwf_usb_tx_dequeue_def flow_ok_def split: if_splits option.splits)
next
  case (Complete i)
  then show ?thesis using assms
    by (auto simp: aicwf_usb_tx_complete_def flow_ok_def put_free_eq Let_def split: if_splits option.splits)
qed (use assms in simp_all)

lemma complete_flow:
  assumes "aicwf_usb_tx_complete i D = Some D'" and "flow_ok D"
  shows "flow_ok D'" "tbusy D \<or> awake D \<Longrightarrow> tbusy D' \<or> awake D'" "\<not> tbusy D \<Longrightarrow> \<not> tbusy D'" "up_ndevs D' = up_ndevs D"
  using assms by (auto simp: aicwf_usb_tx_complete_def flow_ok_def awake_def put_free_eq Let_def stopped_flowctrl
      split: if_splits option.splits)

lemma complete_first:
  assumes "usb_ok D" "submitted D = b # bs"
  shows "\<exists>D'. aicwf_usb_tx_complete (ub_id b) D = Some D' \<and> submitted D' = bs \<and> tx_post_list D' = tx_post_list D"
proof -
  obtain f where "ub_skb b = Some f" using assms by (auto simp: usb_ok_def)
  then show ?thesis using assms(2) by (auto simp: aicwf_usb_tx_complete_def put_free_eq Let_def)
qed

lemma complete_all_ok:
  assumes "usb_ok D" "flow_ok D"
  shows "\<exists>D'. complete_all (map ub_id (submitted D)) D = Some D' \<and> submitted D' = [] \<and> tx_post_list D' = tx_post_list D \<and>
    usb_ok D' \<and> flow_ok D' \<and> (tbusy D \<or> awake D \<longrightarrow> tbusy D' \<or> awake D') \<and> (\<not> tbusy D \<longrightarrow> \<not> tbusy D')"
  using assms
proof (induction "submitted D" arbitrary: D)
  case Nil
  then show ?case by simp
next
  case (Cons b bs)
  obtain D1 where D1: "aicwf_usb_tx_complete (ub_id b) D = Some D1" "submitted D1 = bs" "tx_post_list D1 = tx_post_list D"
    using complete_first[OF Cons.prems(1) Cons.hyps(2)[symmetric]] by blast
  have "usb_ok D1" using complete_ok[OF Cons.prems(1) D1(1)] by simp
  note c = complete_flow[OF D1(1) Cons.prems(2)]
  from Cons.hyps(1)[OF D1(2)[symmetric] \<open>usb_ok D1\<close> c(1)] obtain D' where
    "complete_all (map ub_id (submitted D1)) D1 = Some D'" "submitted D' = []" "tx_post_list D' = tx_post_list D1" "usb_ok D'" "flow_ok D'"
    "tbusy D1 \<or> awake D1 \<longrightarrow> tbusy D' \<or> awake D'" "\<not> tbusy D1 \<longrightarrow> \<not> tbusy D'" by blast
  then show ?case using D1 c Cons.hyps(2)[symmetric] by (auto split: option.splits)
qed

lemma process_all:
  assumes "usb_ok D" "flow_ok D"
  shows "\<exists>D'. aicwf_usb_tx_process (\<lambda>_. 0) D = Some D' \<and> tx_post_list D' = [] \<and> usb_ok D' \<and> flow_ok D' \<and>
    tbusy D' = tbusy D \<and> stopped D' = stopped D \<and> up_ndevs D' = up_ndevs D"
  using assms
proof (induction "length (tx_post_list D)" arbitrary: D)
  case 0
  then show ?case by (subst aicwf_usb_tx_process.simps) simp
next
  case (Suc n)
  then obtain b bs where l: "tx_post_list D = b # bs" by (cases "tx_post_list D") simp_all
  then obtain f where f: "ub_skb b = Some f" using Suc.prems(1) by (auto simp: usb_ok_def)
  let ?D = "D\<lparr>tx_post_list := bs, tx_post_count := tx_post_count D - 1, submitted := submitted D @ [b]\<rparr>"
  have t: "tx_process_one (\<lambda>_. 0) D = Some (True, ?D)"
    using Suc.prems(2) l f by (simp add: tx_process_one_def get_post_Cons[OF l] flow_ok_def)
  have "n = length (tx_post_list ?D)" using Suc.hyps(2) l by simp
  moreover have "usb_ok ?D" using turn_ok[OF Suc.prems(1) t] by simp
  moreover have "flow_ok ?D" using Suc.prems(2) by (simp add: flow_ok_def)
  ultimately have "\<exists>D'. aicwf_usb_tx_process (\<lambda>_. 0) ?D = Some D' \<and> tx_post_list D' = [] \<and> usb_ok D' \<and> flow_ok D' \<and>
    tbusy D' = tbusy ?D \<and> stopped D' = stopped ?D \<and> up_ndevs D' = up_ndevs ?D" by (rule Suc.hyps(1))
  moreover have "aicwf_usb_tx_process (\<lambda>_. 0) D = aicwf_usb_tx_process (\<lambda>_. 0) ?D"
    by (subst aicwf_usb_tx_process.simps) (simp add: l t)
  ultimately show ?case by simp
qed

lemma all_free_count:
  assumes "usb_ok D" "tx_post_list D = []" "submitted D = []"
  shows "tx_free_count D = 50"
proof -
  have "size (image_mset ub_id (all_bufs D)) = 50" using assms(1) by (simp add: usb_ok_def AICWF_USB_TX_URBS_def)
  then show ?thesis using assms by (simp add: all_bufs_def usb_ok_def)
qed

text \<open>
  C19: While the bus is up and submissions succeed, a stop of the queues by the transport is not lost:
  in every state of such a run, once the thread has sent what is posted and the transfers have
  completed, all fifty buffers are free, the device is not busy, and if it was busy the queues of all
  interfaces that are up are awake.
\<close>

theorem flow_control_wakes:
  assumes "usb_ok D0" "flow_ok D0" "list_all good_op xs" "usb_run xs D0 = Some D"
  shows "\<exists>D1 D2. aicwf_usb_tx_process (\<lambda>_. 0) D = Some D1 \<and> complete_all (map ub_id (submitted D1)) D1 = Some D2 \<and>
    tx_free_count D2 = 50 \<and> \<not> tbusy D2 \<and> (\<not> tbusy D \<or> awake D2)"
proof -
  have ok: "usb_ok D \<and> flow_ok D" using assms
  proof (induction xs arbitrary: D0)
    case (Cons x xs)
    then obtain D1 where D1: "usb_do x D0 = Some D1" "usb_run xs D1 = Some D" by (auto simp: bind_eq_Some_conv)
    show ?case using Cons.IH[OF _ _ _ D1(2)] usb_do_ok[OF D1(1) Cons.prems(1)] good_flow[OF _ D1(1) Cons.prems(2)] Cons.prems(3)
      by simp
  qed simp
  then obtain D1 where D1: "aicwf_usb_tx_process (\<lambda>_. 0) D = Some D1" "tx_post_list D1 = []" "usb_ok D1" "flow_ok D1" "tbusy D1 = tbusy D"
    using process_all by blast
  obtain D2 where D2: "complete_all (map ub_id (submitted D1)) D1 = Some D2" "submitted D2 = []" "tx_post_list D2 = []" "usb_ok D2" "flow_ok D2"
    "tbusy D1 \<or> awake D1 \<longrightarrow> tbusy D2 \<or> awake D2" using complete_all_ok[OF D1(3,4)] D1(2) by metis
  have "tx_free_count D2 = 50" using all_free_count D2 by simp
  moreover have "\<not> tbusy D2" using D2(5) calculation by (auto simp: flow_ok_def low_high)
  ultimately show ?thesis using D1(1,5) D2(1,6) by blast
qed

lemma flow_control_wakes_witness:
  "\<exists>D D1 D2. usb_run [Start, Tx mem0 (frame0 7 False)] (aicwf_usb_init [0]) = Some D \<and>
     aicwf_usb_tx_process (\<lambda>_. 0) D = Some D1 \<and> complete_all (map ub_id (submitted D1)) D1 = Some D2 \<and>
     tx_free_count D2 = 50 \<and> \<not> tbusy D2"
proof -
  obtain D0 where D0: "usb_run [Start] (aicwf_usb_init [0]) = Some D0" "ud_state D0 = USB_UP_ST" "tx_free_list D0 \<noteq> []"
    "usb_ok D0" "tbusy D0 = False" using init_up by blast
  have f: "flow_ok D0" using D0 by (simp add: flow_ok_def)
  obtain b bs where "tx_free_list D0 = b # bs" using D0(3) by (cases "tx_free_list D0") auto
  then obtain D where r: "usb_run [Tx mem0 (frame0 7 False)] D0 = Some D" using D0(2)
    by (simp add: aicwf_frame_tx_def aicwf_usb_bus_txdata_def get_free_def aicwf_usb_tx_dequeue_def mem0_def frame0_def Let_def)
  have "list_all good_op [Tx mem0 (frame0 7 False)]" by simp
  from flow_control_wakes[OF D0(4) f this r] obtain D1 D2 where
    "aicwf_usb_tx_process (\<lambda>_. 0) D = Some D1" "complete_all (map ub_id (submitted D1)) D1 = Some D2" "tx_free_count D2 = 50" "\<not> tbusy D2"
    by blast
  moreover have "usb_run [Start, Tx mem0 (frame0 7 False)] (aicwf_usb_init [0]) = Some D"
    using D0(1) r usb_run_append[of "[Start]" "[Tx mem0 (frame0 7 False)]" "aicwf_usb_init [0]"] by (simp del: usb_run.simps)
  ultimately show ?thesis by blast
qed

section \<open>Submissions that fail\<close>

lemma turn_fails:
  assumes "tx_post_list D = b # bs" "ud_state D = USB_UP_ST" "ub_skb b = Some f" "\<not> ub_cfm b" "submit (f_id f) \<noteq> 0" "submit (f_id f) \<noteq> - ENODEV"
  shows "tx_process_one submit D = Some (True, D\<lparr>tx_post_list := bs, tx_post_count := tx_post_count D - 1,
    tx_log := tx_log D @ [FreeSkb (f_id f)], tx_free_list := tx_free_list D @ [b\<lparr>ub_skb := None\<rparr>], tx_free_count := tx_free_count D + 1\<rparr>)"
  using assms by (simp add: tx_process_one_def get_post_Cons[OF assms(1)] put_free_eq)

text \<open>
  A transfer that can not be submitted gives its buffer back without the check that wakes the
  queues. When the device is busy and every posted transfer fails, all fifty buffers are free and
  nothing is on its way, but the device is still busy and the queues are still stopped: no completion
  will come that wakes them.
\<close>

theorem failed_submits_keep_stopped:
  assumes "usb_ok D" "ud_state D = USB_UP_ST" "tbusy D" "submitted D = []"
    and "\<forall>b \<in> set (tx_post_list D). \<not> ub_cfm b" and "\<forall>i. submit i \<noteq> 0 \<and> submit i \<noteq> - ENODEV"
  shows "\<exists>D'. aicwf_usb_tx_process submit D = Some D' \<and> tx_free_count D' = 50 \<and> tx_post_list D' = [] \<and> submitted D' = [] \<and>
    tbusy D' \<and> stopped D' = stopped D"
  using assms
proof (induction "length (tx_post_list D)" arbitrary: D)
  case 0
  then show ?case using all_free_count[of D] by (subst aicwf_usb_tx_process.simps) simp
next
  case (Suc n)
  then obtain b bs where l: "tx_post_list D = b # bs" by (cases "tx_post_list D") simp_all
  then obtain f where f: "ub_skb b = Some f" using Suc.prems(1) by (auto simp: usb_ok_def)
  let ?D = "D\<lparr>tx_post_list := bs, tx_post_count := tx_post_count D - 1,
    tx_log := tx_log D @ [FreeSkb (f_id f)], tx_free_list := tx_free_list D @ [b\<lparr>ub_skb := None\<rparr>], tx_free_count := tx_free_count D + 1\<rparr>"
  have t: "tx_process_one submit D = Some (True, ?D)" using turn_fails[OF l Suc.prems(2) f] Suc.prems(5,6) l by simp
  have "usb_ok ?D" using turn_ok[OF Suc.prems(1) t] by simp
  moreover have "n = length (tx_post_list ?D)" using Suc.hyps(2) l by simp
  moreover have "ud_state ?D = USB_UP_ST" "tbusy ?D" "submitted ?D = []" "\<forall>b \<in> set (tx_post_list ?D). \<not> ub_cfm b"
    using Suc.prems l by simp_all
  ultimately have "\<exists>D'. aicwf_usb_tx_process submit ?D = Some D' \<and> tx_free_count D' = 50 \<and> tx_post_list D' = [] \<and> submitted D' = [] \<and>
    tbusy D' \<and> stopped D' = stopped ?D" using Suc.hyps(1)[of ?D] Suc.prems(6) by blast
  moreover have "aicwf_usb_tx_process submit D = aicwf_usb_tx_process submit ?D"
    by (subst aicwf_usb_tx_process.simps) (simp add: l t)
  ultimately show ?case by simp
qed

definition busy_dev :: aic_usb_dev where
  "busy_dev = \<lparr>ud_state = USB_UP_ST,
     tx_free_list = map (\<lambda>i. \<lparr>ub_id = i, ub_skb = None, ub_cfm = False, ub_align = False\<rparr>) [0..<11], tx_free_count = 11,
     tx_post_list = map (\<lambda>i. \<lparr>ub_id = i, ub_skb = Some (frame0 i False), ub_cfm = False, ub_align = False\<rparr>) [11..<50], tx_post_count = 39,
     submitted = [], bustx_trgg = 39, tbusy = True, up_ndevs = [0], stopped = (\<lambda>nd _. nd = 0), tx_log = []\<rparr>"

lemma failed_submits_keep_stopped_witness:
  "\<exists>D'. aicwf_usb_tx_process (\<lambda>_. - EPIPE) busy_dev = Some D' \<and> tx_free_count D' = 50 \<and> tx_post_list D' = [] \<and> submitted D' = [] \<and>
    tbusy D' \<and> stopped D' 0 3"
proof -
  have "map ub_id (tx_free_list busy_dev @ tx_post_list busy_dev) = [0..<11] @ [11..<50]"
    by (simp add: busy_dev_def comp_def del: upt_rec_numeral)
  also have "\<dots> = [0..<AICWF_USB_TX_URBS]" using upt_add_eq_append[of 0 11 39] by (simp add: AICWF_USB_TX_URBS_def del: upt_rec_numeral)
  finally have "image_mset ub_id (all_bufs busy_dev) = mset [0..<AICWF_USB_TX_URBS]"
    using mset_map[of ub_id "tx_free_list busy_dev @ tx_post_list busy_dev"] by (simp add: all_bufs_def busy_dev_def del: upt_rec_numeral)
  then have "usb_ok busy_dev" by (auto simp: usb_ok_def busy_dev_def simp del: upt_rec_numeral)
  from failed_submits_keep_stopped[OF this, of "\<lambda>_. - EPIPE"] show ?thesis
    by (auto simp: busy_dev_def EPIPE_def ENODEV_def)
qed

text \<open>
  The transport being down stops the queues without noting that the device is busy, so that nothing wakes
  them when the bus comes up again.
\<close>

theorem down_stops_queues:
  assumes "ud_state D = USB_DOWN_ST" "\<not> tbusy D" "nd \<in> set (up_ndevs D)"
  shows "\<exists>D'. aicwf_frame_tx M f D = Some D' \<and> stopped D' nd i \<and> \<not> tbusy D'"
  using assms by (simp add: aicwf_frame_tx_def stopped_flowctrl)

section \<open>The packet on the bus\<close>

lemma usb_hdr_length: "n < 4096 \<Longrightarrow> usb_hdr n = b0 # b1 # r \<Longrightarrow> unat (le16 b0 b1) = n"
proof -
  assume n: "n < 4096" "usb_hdr n = b0 # b1 # r"
  have "(of_nat (n div 256) AND 0x0f :: u8) = of_nat (n div 256)"
  proof -
    have "(0x0f :: u8) = Bit_Operations.mask 4" by (simp add: mask_eq_exp_minus_1)
    moreover have "n div 256 < 16" using n(1) by simp
    moreover have "take_bit 4 (n div 256) = n div 256" using \<open>n div 256 < 16\<close> by (simp add: take_bit_eq_mod)
    ultimately show ?thesis using take_bit_of_nat[of 4 "n div 256", where 'a = u8] by (simp add: take_bit_eq_mask)
  qed
  moreover have "(0xff :: u8) = - 1" by simp
  then have "(of_nat n AND 0xff :: u8) = of_nat n" by (simp only: and.right_neutral)
  ultimately have "b0 = of_nat n" "b1 = of_nat (n div 256)" using n(2) by (simp_all add: usb_hdr_def)
  moreover have "unat (of_nat (n div 256) :: u8) = n div 256" using n(1) by (simp add: unat_of_nat)
  moreover have "unat (of_nat n :: u8) = n mod 256" by (simp add: unat_of_nat)
  ultimately show ?thesis by (simp add: unat_le16)
qed

text \<open>
  The length in the header of a packet is the number of its bytes as long as that is below 4096; the
  packet of a frame that needs a confirmation is a multiple of four long; and behind the header the
  descriptor and the frame follow as they are.
\<close>

theorem usb_packet_roundtrip:
  assumes "length (usb_packet cfm desc data) < 4096"
  shows "\<exists>b0 b1 r. usb_packet cfm desc data = b0 # b1 # r \<and> unat (le16 b0 b1) = length (usb_packet cfm desc data) \<and>
    (cfm \<longrightarrow> length (usb_packet cfm desc data) mod 4 = 0) \<and> take (length desc + length data) (drop 2 r) = desc @ data"
proof -
  let ?n = "4 + length desc + length data"
  define pad where "pad = (if cfm \<and> ?n mod TX_ALIGNMENT \<noteq> 0 then TX_ALIGNMENT - ?n mod TX_ALIGNMENT else 0)"
  have p: "usb_packet cfm desc data = usb_hdr (?n + pad) @ desc @ data @ replicate pad 0" by (simp add: usb_packet_def pad_def Let_def)
  obtain b0 b1 b2 b3 where h: "usb_hdr (?n + pad) = [b0, b1, b2, b3]" by (simp add: usb_hdr_def)
  have l: "length (usb_packet cfm desc data) = ?n + pad" using h by (simp add: p)
  have "usb_packet cfm desc data = b0 # b1 # [b2, b3] @ desc @ data @ replicate pad 0" using h by (simp add: p)
  moreover have "cfm \<longrightarrow> (?n + pad) mod 4 = 0" by (simp add: pad_def TX_ALIGNMENT_def) presburger
  moreover have "unat (le16 b0 b1) = ?n + pad" using usb_hdr_length[OF _ h] assms l by simp
  ultimately show ?thesis unfolding l by (intro exI[of _ b0] exI[of _ b1] exI[of _ "[b2, b3] @ desc @ data @ replicate pad 0"]) simp
qed

lemma usb_packet_roundtrip_witness:
  "\<exists>b0 b1 r. usb_packet True [1, 2] [3] = b0 # b1 # r \<and> unat (le16 b0 b1) = 8 \<and> take 3 (drop 2 r) = [1, 2, 3]"
proof -
  have "length (usb_packet True [1, 2] [3]) = 8" by (simp add: usb_packet_def usb_hdr_def TX_ALIGNMENT_def)
  with usb_packet_roundtrip[of True "[1, 2]" "[3]"] show ?thesis by (auto simp: numeral_3_eq_3)
qed

end
