(* ===== verification/UsbRx.thy ===== *)
theory UsbRx
  imports CmdMgr FrameQueue
begin

text \<open>
  The receiving side of the USB transport (\<^verbatim>\<open>aicwf_usb.c\<close>, the processing of packets in
  \<^verbatim>\<open>aicwf_txrxif.c\<close>) as the package builds it: no preallocated buffers, no reassembly, with
  a second endpoint for messages. Transfer buffers go from a free list to the USB core and back with
  what the device sent; packets are queued and a thread for each queue hands them on. Allocations,
  submissions and completions belong to the kernel: their results are parameters, a completion is a
  step.
\<close>

section \<open>Packets\<close>

definition RX_HWHRD_LEN :: nat where "RX_HWHRD_LEN = 60"
definition RX_ALIGNMENT :: nat where "RX_ALIGNMENT = 4"
definition MAX_RXQLEN :: nat where "MAX_RXQLEN = 2000"
definition AICWF_USB_RX_URBS :: nat where "AICWF_USB_RX_URBS = 20"
definition AICWF_USB_MSG_RX_URBS :: nat where "AICWF_USB_MSG_RX_URBS = 100"
definition EBADE :: int where "EBADE = 52"
definition USB_TYPE_CFG :: u8 where "USB_TYPE_CFG = 0x10"
definition USB_TYPE_CFG_CMD_RSP :: u8 where "USB_TYPE_CFG_CMD_RSP = 0x11"
definition USB_TYPE_CFG_DATA_CFM :: u8 where "USB_TYPE_CFG_DATA_CFM = 0x12"
definition USB_TYPE_CFG_PRINT :: u8 where "USB_TYPE_CFG_PRINT = 0x13"

text \<open>A socket buffer: the memory from its data pointer to the end of the allocation, and how much of it is data.\<close>

record rx_skb =
  sk_buf :: bytes
  sk_len :: nat

text \<open>What leaves the transport, in order.\<close>

datatype rx_event =
    DataInd bytes
  | HandleMsg bytes
  | TxCfm bytes
  | Print bytes

text \<open>How a packet ends: the next one follows, the rest of the buffer is skipped, no memory, a read behind the buffer.\<close>

datatype pkt_result = PktNext rx_skb "rx_event list" | PktBreak | PktNoMem | PktFault

datatype frame_end = Ended | NoMem | Leaked | Fault

definition skb_pull :: "nat \<Rightarrow> rx_skb \<Rightarrow> rx_skb" where
  "skb_pull n s = (if n > sk_len s then s else \<lparr>sk_buf = drop n (sk_buf s), sk_len = sk_len s - n\<rparr>)"

definition pkt_len :: "bytes \<Rightarrow> nat" where
  "pkt_len d = unat (d ! 0) + 256 * unat (d ! 1)"

definition is_cfg :: "bytes \<Rightarrow> bool" where
  "is_cfg d = ((d ! 2) AND USB_TYPE_CFG = USB_TYPE_CFG)"

definition rx_roundup :: "nat \<Rightarrow> nat" where
  "rx_roundup n = (if n mod RX_ALIGNMENT \<noteq> 0 then (n + RX_ALIGNMENT - 1) div RX_ALIGNMENT * RX_ALIGNMENT mod 65536 else n)"

text \<open>The three kinds of configuration packets; \<open>up\<close>: the bus is not down.\<close>

definition handle_cfg :: "bool \<Rightarrow> bytes \<Rightarrow> rx_event list" where
  "handle_cfg up msg =
     (let ty = (msg ! 2) AND 0x7f; p = drop 4 msg in
      (if ty = USB_TYPE_CFG_CMD_RSP \<and> up then [HandleMsg p] else []) @
      (if ty = USB_TYPE_CFG_DATA_CFM then [TxCfm p] else []) @
      (if ty = USB_TYPE_CFG_PRINT then [Print p] else []))"

definition aicwf_another_ptk :: "rx_skb \<Rightarrow> bool" where
  "aicwf_another_ptk s = (if sk_len s < 2 then False else pkt_len (sk_buf s) \<noteq> 0)"

text \<open>One packet of an aggregate; \<open>mem\<close>: the allocation succeeds.\<close>

definition rx_aggr_one :: "bool \<Rightarrow> bool \<Rightarrow> rx_skb \<Rightarrow> pkt_result" where
  "rx_aggr_one up mem s =
     (let n = pkt_len (sk_buf s) in
      if n > sk_len s then PktBreak
      else if length (sk_buf s) < 3 then PktFault
      else if \<not> is_cfg (sk_buf s) then
        let aggr_len = (n + RX_HWHRD_LEN) mod 65536 in
        if \<not> mem then PktNext (skb_pull aggr_len s) []
        else if aggr_len > length (sk_buf s) then PktFault
        else PktNext (skb_pull aggr_len s) [DataInd (take aggr_len (sk_buf s))]
      else if \<not> mem then PktNoMem
      else if n + 4 > length (sk_buf s) then PktFault
      else PktNext (skb_pull (rx_roundup n + 4) s) (handle_cfg up (take (n + 4) (sk_buf s))))"

text \<open>The packets of an aggregate, the \<open>k\<close>-th first; no result when the loop does not end.\<close>

partial_function (option) rx_aggr_loop ::
    "bool \<Rightarrow> (nat \<Rightarrow> bool) \<Rightarrow> nat \<Rightarrow> rx_skb \<Rightarrow> rx_event list \<Rightarrow> (frame_end \<times> rx_event list) option" where
  "rx_aggr_loop up mem k s out =
     (if \<not> aicwf_another_ptk s then Some (Ended, out)
      else case rx_aggr_one up (mem k) s of
        PktBreak \<Rightarrow> Some (Ended, out)
      | PktNoMem \<Rightarrow> Some (NoMem, out)
      | PktFault \<Rightarrow> Some (Fault, out)
      | PktNext s' ev \<Rightarrow> rx_aggr_loop up mem (Suc k) s' (out @ ev))"

text \<open>One packet for each transfer.\<close>

definition rx_single :: "bool \<Rightarrow> bool \<Rightarrow> rx_skb \<Rightarrow> frame_end \<times> rx_event list" where
  "rx_single up mem s =
     (let n = pkt_len (sk_buf s) in
      if n > sk_len s then (Ended, [])
      else if \<not> is_cfg (sk_buf s) then (Ended, [DataInd (take (sk_len s) (sk_buf s))])
      else if \<not> mem then (NoMem, [])
      else if n + 4 > length (sk_buf s) then (Fault, [])
      else (Ended, handle_cfg up (take (n + 4) (sk_buf s))))"

definition rx_frame :: "bool \<Rightarrow> bool \<Rightarrow> (nat \<Rightarrow> bool) \<Rightarrow> rx_skb \<Rightarrow> (frame_end \<times> rx_event list) option" where
  "rx_frame aggr up mem s = (if aggr then rx_aggr_loop up mem 0 s [] else Some (rx_single up (mem 0) s))"

text \<open>A packet of the endpoint for messages. A data packet without memory is skipped and not freed.\<close>

definition msg_frame :: "bool \<Rightarrow> bool \<Rightarrow> rx_skb \<Rightarrow> frame_end \<times> rx_event list" where
  "msg_frame up mem s =
     (let n = pkt_len (sk_buf s) in
      if \<not> is_cfg (sk_buf s) then
        let aggr_len = (n + RX_HWHRD_LEN) mod 65536 in
        if \<not> mem then (Leaked, [])
        else if aggr_len > length (sk_buf s) then (Fault, [])
        else (Ended, [DataInd (take aggr_len (sk_buf s))])
      else if \<not> mem then (NoMem, [])
      else if n + 4 > length (sk_buf s) then (Fault, [])
      else (Ended, handle_cfg up (take (n + 4) (sk_buf s))))"

section \<open>The device\<close>

text \<open>
  The lists hold the numbers of the transfer buffers. \<open>busrx_trgg\<close> and \<open>msg_busrx_trgg\<close> count what
  the threads still have to be woken for.
\<close>

record aic_usb_rx =
  rd_state :: usb_state
  rx_free_list :: "nat list"
  rx_submitted :: "nat list"
  rx_urb_cnt :: int
  rx_prepare_ready :: bool
  msg_rx_free_list :: "nat list"
  msg_rx_submitted :: "nat list"
  rxq :: "rx_skb frame_queue"
  rx_cnt :: int
  busrx_trgg :: nat
  msg_rxq :: "rx_skb frame_queue"
  msg_rx_cnt :: int
  msg_busrx_trgg :: nat
  rwnx_hw_set :: bool
  rx_log :: "rx_event list"

definition aicwf_usb_rx_buf_get :: "aic_usb_rx \<Rightarrow> nat option \<times> aic_usb_rx" where
  "aicwf_usb_rx_buf_get D = (case rx_free_list D of [] \<Rightarrow> (None, D) | b # bs \<Rightarrow> (Some b, D\<lparr>rx_free_list := bs\<rparr>))"

definition aicwf_usb_rx_buf_put :: "nat \<Rightarrow> aic_usb_rx \<Rightarrow> aic_usb_rx" where
  "aicwf_usb_rx_buf_put b D = D\<lparr>rx_free_list := rx_free_list D @ [b]\<rparr>"

definition aicwf_usb_msg_rx_buf_get :: "aic_usb_rx \<Rightarrow> nat option \<times> aic_usb_rx" where
  "aicwf_usb_msg_rx_buf_get D = (case msg_rx_free_list D of [] \<Rightarrow> (None, D) | b # bs \<Rightarrow> (Some b, D\<lparr>msg_rx_free_list := bs\<rparr>))"

definition aicwf_usb_msg_rx_buf_put :: "nat \<Rightarrow> aic_usb_rx \<Rightarrow> aic_usb_rx" where
  "aicwf_usb_msg_rx_buf_put b D = D\<lparr>msg_rx_free_list := msg_rx_free_list D @ [b]\<rparr>"

section \<open>Giving buffers to the USB core\<close>

text \<open>\<open>m\<close>: the socket buffer is allocated; \<open>r\<close>: the result of the submission.\<close>

definition aicwf_usb_submit_rx_urb :: "bool \<times> int \<Rightarrow> nat \<Rightarrow> aic_usb_rx \<Rightarrow> int \<times> aic_usb_rx" where
  "aicwf_usb_submit_rx_urb e b D = (case e of (m, r) \<Rightarrow>
     if rd_state D \<noteq> USB_UP_ST then (- 1, aicwf_usb_rx_buf_put b D)
     else if \<not> m then (- 1, aicwf_usb_rx_buf_put b D)
     else if r \<noteq> 0 then (- 1, aicwf_usb_rx_buf_put b D)
     else (0, D\<lparr>rx_submitted := rx_submitted D @ [b], rx_urb_cnt := rx_urb_cnt D + 1\<rparr>))"

definition aicwf_usb_submit_msg_rx_urb :: "bool \<times> int \<Rightarrow> nat \<Rightarrow> aic_usb_rx \<Rightarrow> int \<times> aic_usb_rx" where
  "aicwf_usb_submit_msg_rx_urb e b D = (case e of (m, r) \<Rightarrow>
     if rd_state D \<noteq> USB_UP_ST then (- 1, aicwf_usb_msg_rx_buf_put b D)
     else if \<not> m then (- 1, aicwf_usb_msg_rx_buf_put b D)
     else if r \<noteq> 0 then (0, aicwf_usb_msg_rx_buf_put b D)
     else (0, D\<lparr>msg_rx_submitted := msg_rx_submitted D @ [b]\<rparr>))"

text \<open>The loops that refill; \<open>env k\<close> is what the kernel answers in turn \<open>k\<close>. The second may not end.\<close>

partial_function (option) rx_refill :: "(nat \<Rightarrow> bool \<times> int) \<Rightarrow> nat \<Rightarrow> aic_usb_rx \<Rightarrow> aic_usb_rx option" where
  "rx_refill env k D = (case aicwf_usb_rx_buf_get D of
       (None, D) \<Rightarrow> Some (D\<lparr>rx_prepare_ready := True\<rparr>)
     | (Some b, D) \<Rightarrow> (case aicwf_usb_submit_rx_urb (env k) b D of (r, D) \<Rightarrow>
          if r \<noteq> 0 then Some D else rx_refill env (Suc k) D))"

definition aicwf_usb_rx_submit_all_urb :: "(nat \<Rightarrow> bool \<times> int) \<Rightarrow> aic_usb_rx \<Rightarrow> aic_usb_rx option" where
  "aicwf_usb_rx_submit_all_urb env D = (if rd_state D \<noteq> USB_UP_ST then Some D else rx_refill env 0 D)"

partial_function (option) msg_rx_refill :: "(nat \<Rightarrow> bool \<times> int) \<Rightarrow> nat \<Rightarrow> aic_usb_rx \<Rightarrow> aic_usb_rx option" where
  "msg_rx_refill env k D = (case aicwf_usb_msg_rx_buf_get D of
       (None, D) \<Rightarrow> Some D
     | (Some b, D) \<Rightarrow> (case aicwf_usb_submit_msg_rx_urb (env k) b D of (r, D) \<Rightarrow>
          if r \<noteq> 0 \<and> rd_state D \<noteq> USB_UP_ST then Some D else msg_rx_refill env (Suc k) D))"

definition aicwf_usb_msg_rx_submit_all_urb :: "(nat \<Rightarrow> bool \<times> int) \<Rightarrow> aic_usb_rx \<Rightarrow> aic_usb_rx option" where
  "aicwf_usb_msg_rx_submit_all_urb env D = (if rd_state D \<noteq> USB_UP_ST then Some D else msg_rx_refill env 0 D)"

section \<open>Completions\<close>

text \<open>
  What the USB core reports of a transfer: its status, the length of what came and of the buffer, and
  the buffer.
\<close>

record urb_done =
  u_status :: int
  u_actual :: nat
  u_length :: nat
  u_buf :: bytes

text \<open>Putting a packet into the queue of received packets, and waking the thread for the first.\<close>

definition rx_enqueue :: "rx_skb \<Rightarrow> aic_usb_rx \<Rightarrow> bool \<times> aic_usb_rx" where
  "rx_enqueue s D = (case aicwf_rxframe_enqueue s (rxq D) of (ok, _, q) \<Rightarrow> (ok, D\<lparr>rxq := q\<rparr>))"

definition rx_count :: "aic_usb_rx \<Rightarrow> aic_usb_rx" where
  "rx_count D = D\<lparr>rx_cnt := rx_cnt D + 1\<rparr>"

definition rx_wake :: "aic_usb_rx \<Rightarrow> aic_usb_rx" where
  "rx_wake D = (if rx_cnt D = 1 then D\<lparr>busrx_trgg := busrx_trgg D + 1\<rparr> else D)"

definition aicwf_usb_rx_complete :: "(nat \<Rightarrow> bool \<times> int) \<Rightarrow> urb_done \<Rightarrow> nat \<Rightarrow> aic_usb_rx \<Rightarrow> aic_usb_rx option" where
  "aicwf_usb_rx_complete env u b D0 =
     (let D = D0\<lparr>rx_submitted := remove1 b (rx_submitted D0), rx_urb_cnt := rx_urb_cnt D0 - 1\<rparr> in
      if \<not> rwnx_hw_set D then Some (aicwf_usb_rx_buf_put b D)
      else if u_actual u > u_length u then aicwf_usb_rx_submit_all_urb env (aicwf_usb_rx_buf_put b D)
      else if u_status u \<noteq> 0 \<or> u_actual u = 0 then
        (if u_status u < 0 then Some (aicwf_usb_rx_buf_put b D)
         else aicwf_usb_rx_submit_all_urb env (aicwf_usb_rx_buf_put b D))
      else if rd_state D = USB_UP_ST then
        (case rx_enqueue \<lparr>sk_buf = u_buf u, sk_len = u_actual u\<rparr> D of
           (False, D) \<Rightarrow> aicwf_usb_rx_submit_all_urb env (aicwf_usb_rx_buf_put b D)
         | (True, D) \<Rightarrow> aicwf_usb_rx_submit_all_urb env (aicwf_usb_rx_buf_put b (rx_wake (rx_count D))))
      else Some (aicwf_usb_rx_buf_put b D))"

definition aicwf_usb_msg_rx_complete :: "(nat \<Rightarrow> bool \<times> int) \<Rightarrow> urb_done \<Rightarrow> nat \<Rightarrow> aic_usb_rx \<Rightarrow> aic_usb_rx option" where
  "aicwf_usb_msg_rx_complete env u b D0 =
     (let D = D0\<lparr>msg_rx_submitted := remove1 b (msg_rx_submitted D0)\<rparr> in
      if u_actual u > u_length u then aicwf_usb_msg_rx_submit_all_urb env (aicwf_usb_msg_rx_buf_put b D)
      else if u_status u \<noteq> 0 \<or> u_actual u = 0 then
        (if u_status u < 0 then Some (aicwf_usb_msg_rx_buf_put b D)
         else aicwf_usb_msg_rx_submit_all_urb env (aicwf_usb_msg_rx_buf_put b D))
      else if rd_state D = USB_UP_ST then
        (case aicwf_rxframe_enqueue \<lparr>sk_buf = u_buf u, sk_len = u_actual u\<rparr> (msg_rxq D) of
           (False, _, q) \<Rightarrow> Some (D\<lparr>msg_rxq := q\<rparr>)
         | (True, _, q) \<Rightarrow> aicwf_usb_msg_rx_submit_all_urb env (aicwf_usb_msg_rx_buf_put b
              (D\<lparr>msg_rxq := q, msg_rx_cnt := msg_rx_cnt D + 1, msg_busrx_trgg := msg_busrx_trgg D + 1\<rparr>)))
      else Some (aicwf_usb_msg_rx_buf_put b D))"

section \<open>The threads\<close>

text \<open>
  The loops over the queues; \<open>mem j k\<close>: the allocation for packet \<open>k\<close> of frame \<open>j\<close> succeeds. No
  result: a read behind a buffer, or a loop that does not end.
\<close>

partial_function (option) process_rx ::
    "bool \<Rightarrow> bool \<Rightarrow> (nat \<Rightarrow> nat \<Rightarrow> bool) \<Rightarrow> nat \<Rightarrow> aic_usb_rx \<Rightarrow> (int \<times> aic_usb_rx) option" where
  "process_rx aggr up mem j D =
     (if aicwf_is_framequeue_empty (rxq D) then Some (0, D)
      else case aicwf_frame_dequeue (rxq D) of
        (None, q) \<Rightarrow> Some (0, D\<lparr>rxq := q\<rparr>)
      | (Some s, q) \<Rightarrow>
          (case rx_frame aggr up (mem j) s of
             None \<Rightarrow> None
           | Some (e, ev) \<Rightarrow>
               let D = D\<lparr>rxq := q, rx_log := rx_log D @ ev\<rparr> in
               (case e of
                  Fault \<Rightarrow> None
                | NoMem \<Rightarrow> Some (- EBADE, D)
                | _ \<Rightarrow> process_rx aggr up mem (Suc j) (D\<lparr>rx_cnt := rx_cnt D - 1\<rparr>))))"

definition aicwf_process_rxframes :: "bool \<Rightarrow> bool \<Rightarrow> (nat \<Rightarrow> nat \<Rightarrow> bool) \<Rightarrow> aic_usb_rx \<Rightarrow> (int \<times> aic_usb_rx) option" where
  "aicwf_process_rxframes aggr up mem D = process_rx aggr up mem 0 D"

partial_function (option) process_msg_rx :: "bool \<Rightarrow> (nat \<Rightarrow> bool) \<Rightarrow> nat \<Rightarrow> aic_usb_rx \<Rightarrow> (int \<times> aic_usb_rx) option" where
  "process_msg_rx up mem j D =
     (if aicwf_is_framequeue_empty (msg_rxq D) then Some (0, D)
      else case aicwf_frame_dequeue (msg_rxq D) of
        (None, q) \<Rightarrow> Some (0, D\<lparr>msg_rxq := q\<rparr>)
      | (Some s, q) \<Rightarrow>
          (case msg_frame up (mem j) s of (e, ev) \<Rightarrow>
             let D = D\<lparr>msg_rxq := q, rx_log := rx_log D @ ev\<rparr> in
             (case e of
                Fault \<Rightarrow> None
              | NoMem \<Rightarrow> Some (- EBADE, D)
              | Leaked \<Rightarrow> process_msg_rx up mem (Suc j) D
              | Ended \<Rightarrow> process_msg_rx up mem (Suc j) (D\<lparr>msg_rx_cnt := msg_rx_cnt D - 1\<rparr>))))"

definition aicwf_process_msg_rxframes :: "bool \<Rightarrow> (nat \<Rightarrow> bool) \<Rightarrow> aic_usb_rx \<Rightarrow> (int \<times> aic_usb_rx) option" where
  "aicwf_process_msg_rxframes up mem D = process_msg_rx up mem 0 D"

section \<open>Start\<close>

definition aicwf_usb_alloc_rx_urb :: "aic_usb_rx \<Rightarrow> aic_usb_rx" where
  "aicwf_usb_alloc_rx_urb D = fold aicwf_usb_rx_buf_put [0..<AICWF_USB_RX_URBS] D"

definition aicwf_usb_alloc_msg_rx_urb :: "aic_usb_rx \<Rightarrow> aic_usb_rx" where
  "aicwf_usb_alloc_msg_rx_urb D = fold aicwf_usb_msg_rx_buf_put [0..<AICWF_USB_MSG_RX_URBS] D"

text \<open>\<^verbatim>\<open>aicwf_usb_init\<close> and \<^verbatim>\<open>aicwf_rx_init\<close>, the parts for receiving, when every allocation succeeds.\<close>

definition usb_rx_init :: aic_usb_rx where
  "usb_rx_init = aicwf_usb_alloc_msg_rx_urb (aicwf_usb_alloc_rx_urb
     \<lparr>rd_state = USB_DOWN_ST, rx_free_list = [], rx_submitted = [], rx_urb_cnt = 0, rx_prepare_ready = False,
      msg_rx_free_list = [], msg_rx_submitted = [], rxq = aicwf_frame_queue_init 1 MAX_RXQLEN, rx_cnt = 0, busrx_trgg = 0,
      msg_rxq = aicwf_frame_queue_init 1 MAX_RXQLEN, msg_rx_cnt = 0, msg_busrx_trgg = 0, rwnx_hw_set = False, rx_log = []\<rparr>)"

text \<open>The receiving part of \<^verbatim>\<open>aicwf_usb_bus_start\<close>; \<open>msg_in\<close>: there is an endpoint for messages.\<close>

definition rx_bus_start :: "bool \<Rightarrow> (nat \<Rightarrow> bool \<times> int) \<Rightarrow> aic_usb_rx \<Rightarrow> (int \<times> aic_usb_rx) option" where
  "rx_bus_start msg_in env D =
     (if rd_state D = USB_UP_ST then Some (0, D)
      else do { let D = D\<lparr>rd_state := USB_UP_ST, rx_prepare_ready := False\<rparr>;
                D \<leftarrow> (if msg_in then aicwf_usb_msg_rx_submit_all_urb env D else aicwf_usb_rx_submit_all_urb env D);
                Some (if \<not> msg_in \<and> \<not> rx_prepare_ready D then - 1 else 0, D) })"

definition rx_bus_stop :: "aic_usb_rx \<Rightarrow> aic_usb_rx" where
  "rx_bus_stop D = (if rd_state D = USB_DOWN_ST then D else D\<lparr>rd_state := USB_DOWN_ST\<rparr>)"

end
