(* ===== verification/UsbRxProps.thy ===== *)
theory UsbRxProps
  imports UsbRx BufPool
begin

text \<open>
  What the receiving side of the USB transport promises, and where it does not: the buffers, the
  splitting of aggregates, and the wake-ups of the receiving thread.
\<close>

section \<open>The lists as pools\<close>

definition but_rx :: "aic_usb_rx \<Rightarrow> aic_usb_rx" where "but_rx D = D\<lparr>rx_free_list := []\<rparr>"
definition but_msg :: "aic_usb_rx \<Rightarrow> aic_usb_rx" where "but_msg D = D\<lparr>msg_rx_free_list := []\<rparr>"

interpretation rxfree: buf_pool rx_free_list but_rx aicwf_usb_rx_buf_get aicwf_usb_rx_buf_put
  by unfold_locales (auto simp: but_rx_def aicwf_usb_rx_buf_get_def aicwf_usb_rx_buf_put_def split: list.splits)

interpretation msgfree: buf_pool msg_rx_free_list but_msg aicwf_usb_msg_rx_buf_get aicwf_usb_msg_rx_buf_put
  by unfold_locales (auto simp: but_msg_def aicwf_usb_msg_rx_buf_get_def aicwf_usb_msg_rx_buf_put_def split: list.splits)

section \<open>The queues with one priority\<close>

definition one_prio :: "'a frame_queue \<Rightarrow> 'a list \<Rightarrow> bool" where
  "one_prio q l \<longleftrightarrow> queuelist q = [l] \<and> qcnt q = length l \<and> hi_prio q = 0 \<and> length l \<le> qmax q \<and> qmax q = MAX_RXQLEN"

lemma one_prio_init: "one_prio (aicwf_frame_queue_init 1 MAX_RXQLEN) []"
  by (simp add: one_prio_def aicwf_frame_queue_init_def MAX_RXQLEN_def)

lemma one_prio_enqueue:
  assumes "one_prio q l"
  shows "aicwf_rxframe_enqueue s q =
    (if length l < MAX_RXQLEN then (True, None, q\<lparr>queuelist := [l @ [s]], qcnt := length l + 1\<rparr>) else (False, None, q))"
  using assms by (auto simp: one_prio_def aicwf_rxframe_enqueue_def aicwf_frame_enq_def aicwf_frame_queue_penq_def MAX_RXQLEN_def)

lemma one_prio_enqueued: "one_prio q l \<Longrightarrow> length l < MAX_RXQLEN \<Longrightarrow> one_prio (q\<lparr>queuelist := [l @ [s]], qcnt := length l + 1\<rparr>) (l @ [s])"
  by (simp add: one_prio_def)

lemma one_prio_empty: "one_prio q l \<Longrightarrow> aicwf_is_framequeue_empty q \<longleftrightarrow> l = []"
  by (simp add: one_prio_def aicwf_is_framequeue_empty_def)

lemma one_prio_dequeue:
  assumes "one_prio q (s # l)"
  shows "aicwf_frame_dequeue q = (Some s, q\<lparr>queuelist := [l], qcnt := length l\<rparr>)"
  using assms by (simp add: one_prio_def aicwf_frame_dequeue_def Let_def)

lemma one_prio_dequeued: "one_prio q (s # l) \<Longrightarrow> one_prio (q\<lparr>queuelist := [l], qcnt := length l\<rparr>) l"
  by (simp add: one_prio_def)

section \<open>The refill loops\<close>

definition rx_bufs :: "aic_usb_rx \<Rightarrow> nat multiset" where
  "rx_bufs D = mset (rx_free_list D) + mset (rx_submitted D)"

definition msg_bufs :: "aic_usb_rx \<Rightarrow> nat multiset" where
  "msg_bufs D = mset (msg_rx_free_list D) + mset (msg_rx_submitted D)"

text \<open>The rest of the state, which the refill loops leave alone.\<close>

definition rx_frame_part :: "aic_usb_rx \<Rightarrow> usb_state \<times> rx_skb frame_queue \<times> int \<times> nat \<times> rx_skb frame_queue" where
  "rx_frame_part D = (rd_state D, rxq D, rx_cnt D, busrx_trgg D, msg_rxq D)"

lemma submit_rx_bufs:
  assumes "aicwf_usb_rx_buf_get D = (Some b, D1)" "aicwf_usb_submit_rx_urb e b D1 = (r, D2)"
  shows "rx_bufs D2 = rx_bufs D" "msg_bufs D2 = msg_bufs D" "rx_frame_part D2 = rx_frame_part D"
    "r = 0 \<Longrightarrow> length (rx_free_list D2) < length (rx_free_list D)"
  using assms
  by (auto simp: aicwf_usb_rx_buf_get_def aicwf_usb_submit_rx_urb_def aicwf_usb_rx_buf_put_def rx_bufs_def msg_bufs_def
      rx_frame_part_def split: list.splits prod.splits if_splits)

lemma submit_msg_bufs:
  assumes "aicwf_usb_msg_rx_buf_get D = (Some b, D1)" "aicwf_usb_submit_msg_rx_urb e b D1 = (r, D2)"
  shows "rx_bufs D2 = rx_bufs D" "msg_bufs D2 = msg_bufs D" "rx_frame_part D2 = rx_frame_part D"
  using assms
  by (auto simp: aicwf_usb_msg_rx_buf_get_def aicwf_usb_submit_msg_rx_urb_def aicwf_usb_msg_rx_buf_put_def rx_bufs_def
      msg_bufs_def rx_frame_part_def split: list.splits prod.splits if_splits)

lemma rx_refill_total: "\<exists>D'. rx_refill env k D = Some D' \<and> rx_bufs D' = rx_bufs D \<and> msg_bufs D' = msg_bufs D \<and> rx_frame_part D' = rx_frame_part D"
proof (induction "length (rx_free_list D)" arbitrary: D k rule: less_induct)
  case less
  obtain x D1 where g: "aicwf_usb_rx_buf_get D = (x, D1)" by fastforce
  show ?case
  proof (cases x)
    case None
    then have "D1 = D" using g by (auto simp: aicwf_usb_rx_buf_get_def split: list.splits)
    then show ?thesis using g None by (simp add: rx_refill.simps rx_bufs_def msg_bufs_def rx_frame_part_def)
  next
    case (Some b)
    obtain r D2 where s: "aicwf_usb_submit_rx_urb (env k) b D1 = (r, D2)" by fastforce
    note f = submit_rx_bufs[OF g[unfolded Some] s]
    show ?thesis
    proof (cases "r = 0")
      case True
      then have "\<exists>D'. rx_refill env (Suc k) D2 = Some D' \<and> rx_bufs D' = rx_bufs D2 \<and> msg_bufs D' = msg_bufs D2 \<and> rx_frame_part D' = rx_frame_part D2"
        using less f(4) by blast
      then show ?thesis using g Some s f(1-3) True by (simp add: rx_refill.simps[of env k])
    next
      case False
      then show ?thesis using g Some s f(1-3) by (simp add: rx_refill.simps)
    qed
  qed
qed

lemma rx_submit_all_total: "\<exists>D'. aicwf_usb_rx_submit_all_urb env D = Some D' \<and> rx_bufs D' = rx_bufs D \<and> msg_bufs D' = msg_bufs D \<and>
    rx_frame_part D' = rx_frame_part D"
  using rx_refill_total by (simp add: aicwf_usb_rx_submit_all_urb_def)

lemma rx_submit_all_SomeD: "aicwf_usb_rx_submit_all_urb env D = Some D' \<Longrightarrow>
    rx_bufs D' = rx_bufs D \<and> msg_bufs D' = msg_bufs D \<and> rx_frame_part D' = rx_frame_part D"
  using rx_submit_all_total[of env D] by auto

lemma msg_rx_refill_SomeD:
  assumes "msg_rx_refill env k D = Some D'"
  shows "rx_bufs D' = rx_bufs D \<and> msg_bufs D' = msg_bufs D \<and> rx_frame_part D' = rx_frame_part D"
proof (rule msg_rx_refill.raw_induct[where P="\<lambda>_ _ D D'. rx_bufs D' = rx_bufs D \<and> msg_bufs D' = msg_bufs D \<and>
    rx_frame_part D' = rx_frame_part D", OF _ assms], goal_cases)
  case (1 rec env k D y)
  obtain x D1 where g: "aicwf_usb_msg_rx_buf_get D = (x, D1)" by fastforce
  show ?case
  proof (cases x)
    case None
    then have "D1 = D" using g by (auto simp: aicwf_usb_msg_rx_buf_get_def split: list.splits)
    then show ?thesis using 1(2) g None by simp
  next
    case (Some b)
    obtain r D2 where s: "aicwf_usb_submit_msg_rx_urb (env k) b D1 = (r, D2)" by fastforce
    note f = submit_msg_bufs[OF g[unfolded Some] s]
    have "D2 = y \<or> rec env (Suc k) D2 = Some y" using 1(2) g Some s by (auto split: if_splits)
    then show ?thesis using f 1(1)[of env "Suc k" D2 y] by auto
  qed
qed

lemma msg_submit_all_SomeD: "aicwf_usb_msg_rx_submit_all_urb env D = Some D' \<Longrightarrow>
    rx_bufs D' = rx_bufs D \<and> msg_bufs D' = msg_bufs D \<and> rx_frame_part D' = rx_frame_part D"
  using msg_rx_refill_SomeD by (auto simp: aicwf_usb_msg_rx_submit_all_urb_def split: if_splits)




section \<open>Runs\<close>

text \<open>
  One event at a time: a data or message transfer completes, the lists are refilled, a thread empties
  its queue, the bus starts or stops, the rest of the driver is there. The USB core completes only what
  it has.
\<close>

datatype rx_op =
    RxDone "nat \<Rightarrow> bool \<times> int" urb_done nat
  | MsgDone "nat \<Rightarrow> bool \<times> int" urb_done nat
  | Refill "nat \<Rightarrow> bool \<times> int"
  | MsgRefill "nat \<Rightarrow> bool \<times> int"
  | Process bool bool "nat \<Rightarrow> nat \<Rightarrow> bool"
  | ProcessMsg bool "nat \<Rightarrow> bool"
  | RxStart bool "nat \<Rightarrow> bool \<times> int"
  | RxStop
  | HwSet

fun rx_do :: "rx_op \<Rightarrow> aic_usb_rx \<Rightarrow> aic_usb_rx option" where
  "rx_do (RxDone env u b) D = (if b \<in> set (rx_submitted D) then aicwf_usb_rx_complete env u b D else None)"
| "rx_do (MsgDone env u b) D = (if b \<in> set (msg_rx_submitted D) then aicwf_usb_msg_rx_complete env u b D else None)"
| "rx_do (Refill env) D = aicwf_usb_rx_submit_all_urb env D"
| "rx_do (MsgRefill env) D = aicwf_usb_msg_rx_submit_all_urb env D"
| "rx_do (Process aggr up mem) D = map_option snd (aicwf_process_rxframes aggr up mem D)"
| "rx_do (ProcessMsg up mem) D = map_option snd (aicwf_process_msg_rxframes up mem D)"
| "rx_do (RxStart msg_in env) D = map_option snd (rx_bus_start msg_in env D)"
| "rx_do RxStop D = Some (rx_bus_stop D)"
| "rx_do HwSet D = Some (D\<lparr>rwnx_hw_set := True\<rparr>)"

fun rx_run :: "rx_op list \<Rightarrow> aic_usb_rx \<Rightarrow> aic_usb_rx option" where
  "rx_run [] D = Some D"
| "rx_run (x # xs) D = do { D \<leftarrow> rx_do x D; rx_run xs D }"

text \<open>The completion of a message that the full queue rejects.\<close>

definition msg_rejected :: "urb_done \<Rightarrow> aic_usb_rx \<Rightarrow> bool" where
  "msg_rejected u D \<longleftrightarrow> u_actual u \<le> u_length u \<and> u_status u = 0 \<and> u_actual u \<noteq> 0 \<and> rd_state D = USB_UP_ST \<and>
     \<not> fst (aicwf_rxframe_enqueue \<lparr>sk_buf = u_buf u, sk_len = u_actual u\<rparr> (msg_rxq D))"

fun op_rejects :: "rx_op \<Rightarrow> aic_usb_rx \<Rightarrow> nat" where
  "op_rejects (MsgDone env u b) D = (if msg_rejected u D then 1 else 0)"
| "op_rejects _ D = 0"

fun run_rejects :: "rx_op list \<Rightarrow> aic_usb_rx \<Rightarrow> nat" where
  "run_rejects [] D = 0"
| "run_rejects (x # xs) D = op_rejects x D + (case rx_do x D of None \<Rightarrow> 0 | Some D' \<Rightarrow> run_rejects xs D')"

lemma process_rx_bufs:
  assumes "process_rx aggr up mem j D = Some (r, D')"
  shows "rx_bufs D' = rx_bufs D \<and> msg_bufs D' = msg_bufs D"
proof -
  have "case (r, D') of (r, D') \<Rightarrow> rx_bufs D' = rx_bufs D \<and> msg_bufs D' = msg_bufs D"
  proof (rule process_rx.raw_induct[where P="\<lambda>aggr up mem j D y. case y of (r, D') \<Rightarrow>
      rx_bufs D' = rx_bufs D \<and> msg_bufs D' = msg_bufs D", OF _ assms], goal_cases)
    case (1 rec aggr up mem j D y)
    obtain r D' where y: "y = (r, D')" by fastforce
    show ?case using 1(2) 1(1)[of aggr up mem "Suc j"] unfolding y
      by (fastforce simp: rx_bufs_def msg_bufs_def Let_def split: if_splits option.splits prod.splits frame_end.splits)
  qed
  then show ?thesis by simp
qed

lemma process_msg_rx_bufs:
  assumes "process_msg_rx up mem j D = Some (r, D')"
  shows "rx_bufs D' = rx_bufs D \<and> msg_bufs D' = msg_bufs D"
proof -
  have "case (r, D') of (r, D') \<Rightarrow> rx_bufs D' = rx_bufs D \<and> msg_bufs D' = msg_bufs D"
  proof (rule process_msg_rx.raw_induct[where P="\<lambda>up mem j D y. case y of (r, D') \<Rightarrow>
      rx_bufs D' = rx_bufs D \<and> msg_bufs D' = msg_bufs D", OF _ assms], goal_cases)
    case (1 rec up mem j D y)
    obtain r D' where y: "y = (r, D')" by fastforce
    show ?case using 1(2) 1(1)[of up mem "Suc j"] unfolding y
      by (fastforce simp: rx_bufs_def msg_bufs_def Let_def split: if_splits option.splits prod.splits frame_end.splits)
  qed
  then show ?thesis by simp
qed

lemma bufs_put [simp]:
  "rx_bufs (aicwf_usb_rx_buf_put b D) = rx_bufs D + {#b#}" "msg_bufs (aicwf_usb_rx_buf_put b D) = msg_bufs D"
  "rx_bufs (aicwf_usb_msg_rx_buf_put b D) = rx_bufs D" "msg_bufs (aicwf_usb_msg_rx_buf_put b D) = msg_bufs D + {#b#}"
  by (simp_all add: aicwf_usb_rx_buf_put_def aicwf_usb_msg_rx_buf_put_def rx_bufs_def msg_bufs_def)

lemma bufs_count [simp]:
  "rx_bufs (rx_wake D) = rx_bufs D" "msg_bufs (rx_wake D) = msg_bufs D"
  "rx_bufs (rx_count D) = rx_bufs D" "msg_bufs (rx_count D) = msg_bufs D"
  by (simp_all add: rx_wake_def rx_count_def rx_bufs_def msg_bufs_def)

lemma bufs_enqueue: "rx_enqueue s D = (ok, D') \<Longrightarrow> rx_bufs D' = rx_bufs D \<and> msg_bufs D' = msg_bufs D"
  by (auto simp: rx_enqueue_def rx_bufs_def msg_bufs_def split: prod.splits)

lemma rx_complete_bufs:
  assumes "aicwf_usb_rx_complete env u b D = Some D'" "b \<in> set (rx_submitted D)"
  shows "rx_bufs D' = rx_bufs D" "msg_bufs D' = msg_bufs D"
proof -
  let ?D = "D\<lparr>rx_submitted := remove1 b (rx_submitted D), rx_urb_cnt := rx_urb_cnt D - 1\<rparr>"
  have b: "rx_bufs D = rx_bufs ?D + {#b#}" "msg_bufs D = msg_bufs ?D" using assms(2) by (simp_all add: rx_bufs_def msg_bufs_def)
  have "rx_bufs D' = rx_bufs ?D + {#b#} \<and> msg_bufs D' = msg_bufs ?D"
    using assms(1) rx_submit_all_SomeD[of env _ D'] bufs_enqueue[of "\<lparr>sk_buf = u_buf u, sk_len = u_actual u\<rparr>" ?D]
    unfolding aicwf_usb_rx_complete_def Let_def
    by (fastforce split: if_splits prod.splits bool.splits)
  then show "rx_bufs D' = rx_bufs D" "msg_bufs D' = msg_bufs D" using b by simp_all
qed

lemma msg_complete_bufs:
  assumes "aicwf_usb_msg_rx_complete env u b D = Some D'" "b \<in> set (msg_rx_submitted D)"
  shows "rx_bufs D' = rx_bufs D" "msg_bufs D = msg_bufs D' + (if msg_rejected u D then {#b#} else {#})"
proof -
  let ?D = "D\<lparr>msg_rx_submitted := remove1 b (msg_rx_submitted D)\<rparr>"
  have b: "rx_bufs D = rx_bufs ?D" "msg_bufs D = msg_bufs ?D + {#b#}" using assms(2) by (simp_all add: rx_bufs_def msg_bufs_def)
  have q: "rx_bufs (?D\<lparr>msg_rxq := q, msg_rx_cnt := c, msg_busrx_trgg := t\<rparr>) = rx_bufs ?D"
    "msg_bufs (?D\<lparr>msg_rxq := q, msg_rx_cnt := c, msg_busrx_trgg := t\<rparr>) = msg_bufs ?D"
    "rx_bufs (?D\<lparr>msg_rxq := q\<rparr>) = rx_bufs ?D" "msg_bufs (?D\<lparr>msg_rxq := q\<rparr>) = msg_bufs ?D" for q c t
    by (simp_all add: rx_bufs_def msg_bufs_def)
  have "rx_bufs D' = rx_bufs ?D \<and> msg_bufs D' = msg_bufs ?D + (if msg_rejected u D then {#} else {#b#})"
  proof (cases "msg_rejected u D")
    case True
    then show ?thesis using assms(1) q
      by (auto simp: msg_rejected_def aicwf_usb_msg_rx_complete_def Let_def split: if_splits prod.splits bool.splits)
  next
    case False
    then show ?thesis using assms(1) msg_submit_all_SomeD[of env _ D'] q
      unfolding aicwf_usb_msg_rx_complete_def Let_def msg_rejected_def
      by (fastforce split: if_splits prod.splits bool.splits)
  qed
  then show "rx_bufs D' = rx_bufs D" "msg_bufs D = msg_bufs D' + (if msg_rejected u D then {#b#} else {#})" using b by simp_all
qed

lemma rx_do_bufs:
  assumes "rx_do x D = Some D'"
  shows "rx_bufs D' = rx_bufs D \<and> size (msg_bufs D) = size (msg_bufs D') + op_rejects x D"
proof (cases x)
  case (RxDone env u b)
  then show ?thesis using assms rx_complete_bufs[of env u b D D'] by (simp split: if_splits)
next
  case (MsgDone env u b)
  then show ?thesis using assms msg_complete_bufs[of env u b D D'] by (simp split: if_splits)
next
  case (RxStart msg_in env)
  have *: "rx_bufs (D\<lparr>rd_state := USB_UP_ST, rx_prepare_ready := False\<rparr>) = rx_bufs D \<and>
    msg_bufs (D\<lparr>rd_state := USB_UP_ST, rx_prepare_ready := False\<rparr>) = msg_bufs D" by (simp add: rx_bufs_def msg_bufs_def)
  show ?thesis using assms RxStart * rx_submit_all_SomeD[of env _ D'] msg_submit_all_SomeD[of env _ D']
    by (auto simp: rx_bus_start_def Let_def bind_eq_Some_conv split: if_splits)
next
  case (Process aggr up mem)
  then show ?thesis using assms process_rx_bufs[of aggr up mem 0 D] by (auto simp: aicwf_process_rxframes_def)
next
  case (ProcessMsg up mem)
  then show ?thesis using assms process_msg_rx_bufs[of up mem 0 D] by (auto simp: aicwf_process_msg_rxframes_def)
next
  case RxStop
  then show ?thesis using assms by (auto simp: rx_bus_stop_def rx_bufs_def msg_bufs_def)
next
  case HwSet
  then show ?thesis using assms by (auto simp: rx_bufs_def msg_bufs_def)
qed (use assms rx_submit_all_SomeD msg_submit_all_SomeD in auto)

lemma fold_rx_put: "fold aicwf_usb_rx_buf_put bs D = D\<lparr>rx_free_list := rx_free_list D @ bs\<rparr>"
  by (induction bs arbitrary: D) (simp_all add: aicwf_usb_rx_buf_put_def)

lemma fold_msg_put: "fold aicwf_usb_msg_rx_buf_put bs D = D\<lparr>msg_rx_free_list := msg_rx_free_list D @ bs\<rparr>"
  by (induction bs arbitrary: D) (simp_all add: aicwf_usb_msg_rx_buf_put_def)

lemma init_bufs: "rx_bufs usb_rx_init = mset [0..<AICWF_USB_RX_URBS]" "size (msg_bufs usb_rx_init) = AICWF_USB_MSG_RX_URBS"
  by (simp_all add: usb_rx_init_def aicwf_usb_alloc_rx_urb_def aicwf_usb_alloc_msg_rx_urb_def rx_bufs_def msg_bufs_def
      fold_rx_put fold_msg_put)

lemma rx_enqueue_one:
  assumes "one_prio (rxq D) l"
  shows "rx_enqueue s D = (if length l < MAX_RXQLEN then (True, D\<lparr>rxq := (rxq D)\<lparr>queuelist := [l @ [s]], qcnt := length l + 1\<rparr>\<rparr>)
    else (False, D))"
  using one_prio_enqueue[OF assms, of s] by (simp add: rx_enqueue_def)

text \<open>
  C18: In every run from the start, the twenty buffers for data are in the free list or with the USB core,
  each once; the hundred buffers for messages are fewer by one for each message that found its queue
  full: the handler of that completion returns without putting its buffer back.
\<close>

theorem rx_buffers_leak:
  assumes "rx_run xs usb_rx_init = Some D"
  shows "rx_bufs D = mset [0..<AICWF_USB_RX_URBS] \<and> size (msg_bufs D) + run_rejects xs usb_rx_init = AICWF_USB_MSG_RX_URBS"
proof -
  have "rx_bufs D' = rx_bufs D0 \<and> size (msg_bufs D0) = size (msg_bufs D') + run_rejects ys D0" if "rx_run ys D0 = Some D'" for ys D0 D'
    using that
  proof (induction ys arbitrary: D0)
    case (Cons y ys)
    then obtain D1 where d: "rx_do y D0 = Some D1" "rx_run ys D1 = Some D'" by (cases "rx_do y D0") simp_all
    then show ?case using Cons(1)[OF d(2)] rx_do_bufs[OF d(1)] by simp
  qed simp
  from this[OF assms] show ?thesis by (simp add: init_bufs)
qed

theorem rx_buffers_leak_witness:
  "\<exists>D. rx_run [HwSet, RxStart False (\<lambda>k. (k < 2, 0)), RxDone (\<lambda>_. (False, 0)) \<lparr>u_status = 0, u_actual = 8, u_length = 2048,
      u_buf = [4, 0, 0x11, 0, 1, 2, 3, 4]\<rparr> 0] usb_rx_init = Some D \<and> rx_submitted D = [1] \<and> rx_cnt D = 1 \<and>
    size (msg_bufs D) = 100"
proof -
  let ?u = "\<lparr>u_status = 0, u_actual = 8, u_length = 2048, u_buf = [4, 0, 0x11, 0, 1, 2, 3, 4]\<rparr>"
  let ?xs = "[HwSet, RxStart False (\<lambda>k. (k < 2, 0)), RxDone (\<lambda>_. (False, 0)) ?u 0]"
  have l: "[0..<20] = 0 # 1 # 2 # 3 # [4..<20::nat]" by code_simp
  have i: "usb_rx_init = \<lparr>rd_state = USB_DOWN_ST, rx_free_list = 0 # 1 # 2 # 3 # [4..<20], rx_submitted = [], rx_urb_cnt = 0,
     rx_prepare_ready = False, msg_rx_free_list = [0..<100], msg_rx_submitted = [], rxq = aicwf_frame_queue_init 1 MAX_RXQLEN,
     rx_cnt = 0, busrx_trgg = 0, msg_rxq = aicwf_frame_queue_init 1 MAX_RXQLEN, msg_rx_cnt = 0, msg_busrx_trgg = 0,
     rwnx_hw_set = False, rx_log = []\<rparr>"
    unfolding usb_rx_init_def aicwf_usb_alloc_rx_urb_def aicwf_usb_alloc_msg_rx_urb_def fold_rx_put fold_msg_put
      AICWF_USB_RX_URBS_def AICWF_USB_MSG_RX_URBS_def l by (simp del: upt_rec_numeral)
  have "\<exists>D. rx_run ?xs usb_rx_init = Some D \<and> rx_submitted D = [1] \<and> rx_cnt D = 1"
    unfolding i
    by (simp add: rx_bus_start_def aicwf_usb_rx_submit_all_urb_def rx_refill.simps aicwf_usb_rx_buf_get_def
        aicwf_usb_submit_rx_urb_def aicwf_usb_rx_buf_put_def aicwf_usb_rx_complete_def rx_enqueue_def aicwf_rxframe_enqueue_def aicwf_frame_enq_def aicwf_frame_queue_penq_def aicwf_frame_queue_init_def
        rx_wake_def rx_count_def MAX_RXQLEN_def del: upt_rec_numeral)
  then obtain D where d: "rx_run ?xs usb_rx_init = Some D" "rx_submitted D = [1]" "rx_cnt D = 1" by blast
  have "run_rejects ?xs usb_rx_init = 0" by (simp split: option.split)
  then show ?thesis using rx_buffers_leak[OF d(1)] d by (simp add: AICWF_USB_MSG_RX_URBS_def)
qed

section \<open>Splitting an aggregate\<close>

text \<open>A packet as the device lays it out, and what it means.\<close>

definition agg_pkt :: "bytes \<Rightarrow> bool" where
  "agg_pkt p \<longleftrightarrow> 3 \<le> length p \<and> pkt_len p \<noteq> 0 \<and>
     (if is_cfg p then pkt_len p \<le> 65532 \<and> length p = rx_roundup (pkt_len p) + 4
      else length p = pkt_len p + RX_HWHRD_LEN \<and> length p < 65536)"

definition pkt_event :: "bool \<Rightarrow> bytes \<Rightarrow> rx_event list" where
  "pkt_event up p = (if is_cfg p then handle_cfg up (take (pkt_len p + 4) p) else [DataInd p])"

lemma rx_roundup_le: "n \<le> 65532 \<Longrightarrow> n \<le> rx_roundup n"
  unfolding rx_roundup_def RX_ALIGNMENT_def by auto

lemma pkt_append: "3 \<le> length p \<Longrightarrow> pkt_len (p @ q) = pkt_len p \<and> is_cfg (p @ q) = is_cfg p"
  by (auto simp: pkt_len_def is_cfg_def nth_append)

lemma rx_aggr_one_ok:
  assumes "agg_pkt p"
  shows "rx_aggr_one up True \<lparr>sk_buf = p @ q, sk_len = length p + n\<rparr> = PktNext \<lparr>sk_buf = q, sk_len = n\<rparr> (pkt_event up p)"
proof -
  have p: "3 \<le> length p" using assms by (simp add: agg_pkt_def)
  show ?thesis
  proof (cases "is_cfg p")
    case True
    then have "pkt_len p \<le> rx_roundup (pkt_len p)" "length p = rx_roundup (pkt_len p) + 4"
      using assms rx_roundup_le by (simp_all add: agg_pkt_def)
    then show ?thesis using p True pkt_append[OF p, of q]
      by (simp add: rx_aggr_one_def Let_def skb_pull_def pkt_event_def)
  next
    case False
    then have "length p = pkt_len p + RX_HWHRD_LEN" "length p < 65536" using assms by (simp_all add: agg_pkt_def)
    then show ?thesis using p False pkt_append[OF p, of q]
      by (simp add: rx_aggr_one_def Let_def skb_pull_def pkt_event_def)
  qed
qed

text \<open>
  C21: An aggregate of well-formed packets is split into exactly these packets: each data packet is handed
  on whole and in order, each configuration packet goes to its handler, padding is skipped.
\<close>

theorem aggregate_split:
  assumes "\<forall>p \<in> set ps. agg_pkt p"
  shows "rx_frame True up (\<lambda>_. True) \<lparr>sk_buf = concat ps @ rest, sk_len = length (concat ps)\<rparr> =
    Some (Ended, concat (map (pkt_event up) ps))"
proof -
  have "rx_aggr_loop up (\<lambda>_. True) k \<lparr>sk_buf = concat ps @ rest, sk_len = length (concat ps)\<rparr> out =
    Some (Ended, out @ concat (map (pkt_event up) ps))" for k out
    using assms
  proof (induction ps arbitrary: k out)
    case Nil
    then show ?case by (simp add: rx_aggr_loop.simps aicwf_another_ptk_def)
  next
    case (Cons p ps)
    have p: "agg_pkt p" using Cons(2) by simp
    then have p3: "3 \<le> length p" "pkt_len p \<noteq> 0" unfolding agg_pkt_def by blast+
    have "aicwf_another_ptk \<lparr>sk_buf = p @ concat ps @ rest, sk_len = length p + length (concat ps)\<rparr>"
      using p3 pkt_append[OF p3(1)] by (simp add: aicwf_another_ptk_def)
    then show ?case using Cons rx_aggr_one_ok[OF p, of up "concat ps @ rest" "length (concat ps)"]
      by (simp add: rx_aggr_loop.simps[of up _ k])
  qed
  then show ?thesis by (simp add: rx_frame_def)
qed

text \<open>
  C37: A data packet of an aggregate whose length field counts it, but not its hardware header, as received
  is handed on over and over: the pull that should skip it fails and changes nothing, so the loop never
  ends.
\<close>

theorem truncated_packet_never_ends:
  assumes "sk_len s < pkt_len (sk_buf s) + RX_HWHRD_LEN" "pkt_len (sk_buf s) \<le> sk_len s" "2 \<le> sk_len s"
    "pkt_len (sk_buf s) \<noteq> 0" "\<not> is_cfg (sk_buf s)" "pkt_len (sk_buf s) + RX_HWHRD_LEN < 65536"
    "pkt_len (sk_buf s) + RX_HWHRD_LEN \<le> length (sk_buf s)"
  shows "rx_frame True up mem s = None"
proof -
  have another: "aicwf_another_ptk s" using assms by (simp add: aicwf_another_ptk_def)
  have one: "\<exists>ev. rx_aggr_one up' m s = PktNext s ev" for up' m
    using assms by (simp add: rx_aggr_one_def Let_def skb_pull_def RX_HWHRD_LEN_def)
  have "s' \<noteq> s" if "rx_aggr_loop up' mem' k s' out = Some y" for up' mem' k s' out y
  proof (rule rx_aggr_loop.raw_induct[where P="\<lambda>_ _ _ s' _ _. s' \<noteq> s", OF _ that], goal_cases)
    case (1 rec up' mem' k s' out y)
    show ?case
    proof
      assume s: "s' = s"
      obtain ev where "rx_aggr_one up' (mem' k) s = PktNext s ev" using one by blast
      then have "rec up' mem' (Suc k) s (out @ ev) = Some y" using 1(2) another s by simp
      then show False using 1(1) by blast
    qed
  qed
  then have "rx_aggr_loop up mem 0 s [] = None" by (metis not_None_eq)
  then show ?thesis by (simp add: rx_frame_def)
qed

definition truncated_pkt :: rx_skb where
  "truncated_pkt = \<lparr>sk_buf = 4 # replicate 99 0, sk_len = 10\<rparr>"

theorem truncated_packet_never_ends_witness: "rx_frame True True (\<lambda>_. True) truncated_pkt = None"
  by (rule truncated_packet_never_ends)
    (simp_all add: truncated_pkt_def pkt_len_def is_cfg_def USB_TYPE_CFG_def RX_HWHRD_LEN_def)

text \<open>The packets of the witnesses: a data packet of length 2 and a confirmation of 8 bytes.\<close>

definition data_pkt :: bytes where "data_pkt = [2, 0, 0, 0] @ replicate 58 7"
definition cfm_pkt :: bytes where "cfm_pkt = [8, 0, 0x12, 0] @ replicate 8 1"

theorem aggregate_split_witness:
  "rx_frame True True (\<lambda>_. True) \<lparr>sk_buf = data_pkt @ cfm_pkt, sk_len = 74\<rparr> = Some (Ended, [DataInd data_pkt, TxCfm (replicate 8 1)])"
proof -
  have c: "\<not> is_cfg data_pkt" "is_cfg cfm_pkt" "pkt_len data_pkt = 2" "pkt_len cfm_pkt = 8" "length data_pkt = 62" "length cfm_pkt = 12"
    by (simp_all add: data_pkt_def cfm_pkt_def is_cfg_def pkt_len_def USB_TYPE_CFG_def)
  have "\<forall>p \<in> set [data_pkt, cfm_pkt]. agg_pkt p"
    using c by (simp add: agg_pkt_def RX_HWHRD_LEN_def rx_roundup_def RX_ALIGNMENT_def)
  from aggregate_split[OF this, of True "[]"] show ?thesis using c
    by (simp add: pkt_event_def)
      (simp add: cfm_pkt_def handle_cfg_def USB_TYPE_CFG_CMD_RSP_def USB_TYPE_CFG_DATA_CFM_def USB_TYPE_CFG_PRINT_def Let_def)
qed

text \<open>
  The length field of a message is not checked: a message that claims more than its buffer holds is
  read behind the buffer on the endpoint for messages, while the same packet is dropped on the endpoint
  for data.
\<close>

theorem msg_length_unchecked:
  assumes "is_cfg (sk_buf s)" "length (sk_buf s) < pkt_len (sk_buf s)" "sk_len s \<le> length (sk_buf s)"
  shows "msg_frame up True s = (Fault, []) \<and> rx_single up True s = (Ended, [])"
  using assms by (simp add: msg_frame_def rx_single_def)

theorem msg_length_unchecked_witness:
  "msg_frame True True \<lparr>sk_buf = 0 # 9 # 0x11 # replicate 2045 0, sk_len = 8\<rparr> = (Fault, [])"
  using msg_length_unchecked[of "\<lparr>sk_buf = 0 # 9 # 0x11 # replicate 2045 0, sk_len = 8\<rparr>" True]
  by (simp add: is_cfg_def pkt_len_def USB_TYPE_CFG_def)

section \<open>Waking the thread\<close>

text \<open>
  The handler of a completion and the thread interleave at the locks and the atomic counter: the handler
  queues a packet, counts it, then wakes the thread when the count is one; the thread waits, looks at
  the queue, takes a frame, and counts it off when it is processed. When there is no memory for a
  configuration packet it goes back to waiting and does not count it off.
\<close>

datatype irq_pc = IrqIdle | IrqQueued | IrqCounted
datatype thr_pc = Waiting | Looking | Holding rx_skb
datatype rx_label = Irq | Thr | ThrNoMem

record rx_sys =
  rs_dev :: aic_usb_rx
  rs_irq :: irq_pc
  rs_thr :: thr_pc

inductive rx_step :: "rx_label \<Rightarrow> rx_sys \<Rightarrow> rx_sys \<Rightarrow> bool" where
  queue: "rs_irq S = IrqIdle \<Longrightarrow> rx_enqueue s (rs_dev S) = (ok, D) \<Longrightarrow>
     rx_step Irq S (S\<lparr>rs_dev := D, rs_irq := (if ok then IrqQueued else IrqIdle)\<rparr>)"
| count: "rs_irq S = IrqQueued \<Longrightarrow> rx_step Irq S (S\<lparr>rs_dev := rx_count (rs_dev S), rs_irq := IrqCounted\<rparr>)"
| wake: "rs_irq S = IrqCounted \<Longrightarrow> rx_step Irq S (S\<lparr>rs_dev := rx_wake (rs_dev S), rs_irq := IrqIdle\<rparr>)"
| run: "rs_thr S = Waiting \<Longrightarrow> 0 < busrx_trgg (rs_dev S) \<Longrightarrow>
     rx_step Thr S (S\<lparr>rs_dev := (rs_dev S)\<lparr>busrx_trgg := busrx_trgg (rs_dev S) - 1\<rparr>, rs_thr := Looking\<rparr>)"
| look: "rs_thr S = Looking \<Longrightarrow> aicwf_is_framequeue_empty (rxq (rs_dev S)) \<Longrightarrow> rx_step Thr S (S\<lparr>rs_thr := Waiting\<rparr>)"
| take: "rs_thr S = Looking \<Longrightarrow> \<not> aicwf_is_framequeue_empty (rxq (rs_dev S)) \<Longrightarrow>
     aicwf_frame_dequeue (rxq (rs_dev S)) = (Some s, q) \<Longrightarrow>
     rx_step Thr S (S\<lparr>rs_dev := (rs_dev S)\<lparr>rxq := q\<rparr>, rs_thr := Holding s\<rparr>)"
| processed: "rs_thr S = Holding s \<Longrightarrow> rx_frame aggr up mem s = Some (Ended, ev) \<Longrightarrow>
     rx_step Thr S (S\<lparr>rs_dev := (rs_dev S)\<lparr>rx_log := rx_log (rs_dev S) @ ev, rx_cnt := rx_cnt (rs_dev S) - 1\<rparr>, rs_thr := Looking\<rparr>)"
| no_mem: "rs_thr S = Holding s \<Longrightarrow> rx_frame aggr up mem s = Some (NoMem, ev) \<Longrightarrow>
     rx_step ThrNoMem S (S\<lparr>rs_dev := (rs_dev S)\<lparr>rx_log := rx_log (rs_dev S) @ ev\<rparr>, rs_thr := Waiting\<rparr>)"

inductive rx_reach :: "rx_sys \<Rightarrow> bool" where
  start: "rx_reach \<lparr>rs_dev = usb_rx_init\<lparr>rd_state := USB_UP_ST\<rparr>, rs_irq = IrqIdle, rs_thr = Waiting\<rparr>"
| step: "rx_reach S \<Longrightarrow> rx_step l S S' \<Longrightarrow> l \<noteq> ThrNoMem \<Longrightarrow> rx_reach S'"

definition wake_inv :: "rx_sys \<Rightarrow> bool" where
  "wake_inv S \<longleftrightarrow> (\<exists>l. one_prio (rxq (rs_dev S)) l \<and>
     rx_cnt (rs_dev S) = int (length l) + (case rs_thr S of Holding _ \<Rightarrow> 1 | _ \<Rightarrow> 0) - (if rs_irq S = IrqQueued then 1 else 0) \<and>
     (rs_thr S = Waiting \<and> busrx_trgg (rs_dev S) = 0 \<longrightarrow> length l \<le> (if rs_irq S = IrqIdle then 0 else 1)))"

lemma wake_inv_step:
  assumes "rx_step lab S S'" "wake_inv S" "lab \<noteq> ThrNoMem"
  shows "wake_inv S'"
  using assms
proof (induction rule: rx_step.induct)
  case (queue S s ok D)
  then obtain l where l: "one_prio (rxq (rs_dev S)) l"
    "rx_cnt (rs_dev S) = int (length l) + (case rs_thr S of Holding _ \<Rightarrow> 1 | _ \<Rightarrow> 0)"
    "rs_thr S = Waiting \<and> busrx_trgg (rs_dev S) = 0 \<Longrightarrow> l = []" by (auto simp: wake_inv_def)
  show ?case
  proof (cases "length l < MAX_RXQLEN")
    case True
    then show ?thesis using queue(2) l one_prio_enqueued[OF l(1) True, of s] rx_enqueue_one[OF l(1), of s]
      by (auto simp: wake_inv_def intro!: exI[of _ "l @ [s]"])
  next
    case False
    then show ?thesis using queue(2) l rx_enqueue_one[OF l(1), of s] by (auto simp: wake_inv_def intro!: exI[of _ l])
  qed
next
  case (count S)
  then show ?case by (auto simp: wake_inv_def rx_count_def)
next
  case (wake S)
  then obtain l where l: "one_prio (rxq (rs_dev S)) l"
    "rx_cnt (rs_dev S) = int (length l) + (case rs_thr S of Holding _ \<Rightarrow> 1 | _ \<Rightarrow> 0)"
    "rs_thr S = Waiting \<and> busrx_trgg (rs_dev S) = 0 \<Longrightarrow> length l \<le> 1" by (auto simp: wake_inv_def)
  show ?case using l by (cases l) (auto simp: wake_inv_def rx_wake_def intro!: exI[of _ l])
next
  case (run S)
  then show ?case by (auto simp: wake_inv_def)
next
  case (look S)
  then obtain l where l: "one_prio (rxq (rs_dev S)) l" "rx_cnt (rs_dev S) = int (length l) - (if rs_irq S = IrqQueued then 1 else 0)"
    by (auto simp: wake_inv_def)
  then have "l = []" using look(2) one_prio_empty by blast
  then show ?case using l by (auto simp: wake_inv_def)
next
  case (take S s q)
  then obtain l where l: "one_prio (rxq (rs_dev S)) l" "rx_cnt (rs_dev S) = int (length l) - (if rs_irq S = IrqQueued then 1 else 0)"
    by (auto simp: wake_inv_def)
  then obtain t m where m: "l = t # m" using take(2) one_prio_empty by (cases l) blast+
  note d = one_prio_dequeue[OF l(1)[unfolded m]] one_prio_dequeued[OF l(1)[unfolded m]]
  then show ?case using l(2) m take(3) by (auto simp: wake_inv_def intro!: exI[of _ m])
next
  case (processed S s aggr up mem ev)
  then show ?case by (auto simp: wake_inv_def)
qed simp

lemma wake_inv_reach: "rx_reach S \<Longrightarrow> wake_inv S"
proof (induction rule: rx_reach.induct)
  case start
  then show ?case using one_prio_init
    by (auto simp: wake_inv_def usb_rx_init_def aicwf_usb_alloc_rx_urb_def aicwf_usb_alloc_msg_rx_urb_def fold_rx_put fold_msg_put
        intro!: exI[of _ "[]"])
next
  case (step S l S')
  then show ?case using wake_inv_step by blast
qed

text \<open>
  C8: As long as every configuration packet gets its memory, no interleaving of completions and thread
  loses a wake-up: when the thread waits, no wake-up is pending and no completion is under way, the queue
  is empty.
\<close>

theorem rx_no_lost_wakeup:
  assumes "rx_reach S" "rs_thr S = Waiting" "rs_irq S = IrqIdle" "busrx_trgg (rs_dev S) = 0"
  shows "aicwf_is_framequeue_empty (rxq (rs_dev S))"
proof -
  obtain l where "one_prio (rxq (rs_dev S)) l" "length l \<le> 0" using wake_inv_reach[OF assms(1)] assms(2-4) by (auto simp: wake_inv_def)
  then show ?thesis using one_prio_empty by auto
qed

text \<open>A path: one configuration packet is queued, counted, wakes the thread and is taken.\<close>

definition cfg_skb :: rx_skb where "cfg_skb = \<lparr>sk_buf = [4, 0, 0x11, 0, 1, 2, 3, 4], sk_len = 8\<rparr>"

definition up_init :: aic_usb_rx where "up_init = usb_rx_init\<lparr>rd_state := USB_UP_ST\<rparr>"

definition cfg_q :: "rx_skb list \<Rightarrow> rx_skb frame_queue" where
  "cfg_q l = (aicwf_frame_queue_init 1 MAX_RXQLEN)\<lparr>queuelist := [l], qcnt := length l\<rparr>"

definition held :: rx_sys where
  "held = \<lparr>rs_dev = up_init\<lparr>rx_cnt := 1, busrx_trgg := 0, rxq := cfg_q []\<rparr>, rs_irq = IrqIdle, rs_thr = Holding cfg_skb\<rparr>"

lemma up_init_fields: "rxq up_init = aicwf_frame_queue_init 1 MAX_RXQLEN" "rx_cnt up_init = 0" "busrx_trgg up_init = 0"
  by (simp_all add: up_init_def usb_rx_init_def aicwf_usb_alloc_rx_urb_def aicwf_usb_alloc_msg_rx_urb_def fold_rx_put fold_msg_put)

lemma held_reach: "rx_reach held"
proof -
  let ?S0 = "\<lparr>rs_dev = up_init, rs_irq = IrqIdle, rs_thr = Waiting\<rparr>"
  let ?S1 = "?S0\<lparr>rs_dev := up_init\<lparr>rxq := cfg_q [cfg_skb]\<rparr>, rs_irq := IrqQueued\<rparr>"
  let ?S2 = "?S1\<lparr>rs_dev := rx_count (rs_dev ?S1), rs_irq := IrqCounted\<rparr>"
  let ?S3 = "?S2\<lparr>rs_dev := rx_wake (rs_dev ?S2), rs_irq := IrqIdle\<rparr>"
  let ?S4 = "?S3\<lparr>rs_dev := (rs_dev ?S3)\<lparr>busrx_trgg := busrx_trgg (rs_dev ?S3) - 1\<rparr>, rs_thr := Looking\<rparr>"
  have r0: "rx_reach ?S0" using rx_reach.start by (simp add: up_init_def)
  have q: "one_prio (rxq up_init) []" using one_prio_init by (simp add: up_init_fields)
  have "rx_enqueue cfg_skb up_init = (True, up_init\<lparr>rxq := cfg_q [cfg_skb]\<rparr>)"
    using rx_enqueue_one[OF q, of cfg_skb] by (simp add: MAX_RXQLEN_def cfg_q_def up_init_fields)
  then have "rx_step Irq ?S0 ?S1" using rx_step.queue[of ?S0 cfg_skb True] by simp
  from rx_reach.step[OF r0 this] have r1: "rx_reach ?S1" by simp
  have r2: "rx_reach ?S2" using rx_reach.step[OF r1 rx_step.count] by simp
  have r3: "rx_reach ?S3" using rx_reach.step[OF r2 rx_step.wake] by simp
  have "0 < busrx_trgg (rs_dev ?S3)" by (simp add: rx_wake_def rx_count_def up_init_fields)
  from rx_reach.step[OF r3 rx_step.run[OF _ this]] have r4: "rx_reach ?S4" by simp
  have q1: "one_prio (cfg_q [cfg_skb]) [cfg_skb]"
    by (simp add: one_prio_def cfg_q_def aicwf_frame_queue_init_def MAX_RXQLEN_def)
  have d: "aicwf_frame_dequeue (rxq (rs_dev ?S4)) = (Some cfg_skb, cfg_q [])" "\<not> aicwf_is_framequeue_empty (rxq (rs_dev ?S4))"
    using one_prio_dequeue[OF q1] one_prio_empty[OF q1] by (simp_all add: rx_wake_def rx_count_def cfg_q_def)
  from rx_reach.step[OF r4 rx_step.take[OF _ d(2,1)]] show ?thesis
    by (simp add: held_def rx_wake_def rx_count_def up_init_fields)
qed

lemma cfg_skb_ends: "rx_frame False True (\<lambda>_. True) cfg_skb = Some (Ended, [HandleMsg [1, 2, 3, 4]])"
  "rx_frame False True (\<lambda>_. False) cfg_skb = Some (NoMem, [])"
  by (simp_all add: rx_frame_def rx_single_def cfg_skb_def pkt_len_def is_cfg_def handle_cfg_def USB_TYPE_CFG_def
      USB_TYPE_CFG_CMD_RSP_def USB_TYPE_CFG_DATA_CFM_def USB_TYPE_CFG_PRINT_def Let_def)

definition resting :: rx_sys where
  "resting = held\<lparr>rs_dev := (rs_dev held)\<lparr>rx_log := rx_log (rs_dev held) @ [HandleMsg [1, 2, 3, 4]], rx_cnt := rx_cnt (rs_dev held) - 1\<rparr>,
     rs_thr := Waiting\<rparr>"

lemma resting_reach: "rx_reach resting"
proof -
  let ?S = "held\<lparr>rs_dev := (rs_dev held)\<lparr>rx_log := rx_log (rs_dev held) @ [HandleMsg [1, 2, 3, 4]], rx_cnt := rx_cnt (rs_dev held) - 1\<rparr>,
     rs_thr := Looking\<rparr>"
  have "rs_thr held = Holding cfg_skb" by (simp add: held_def)
  from rx_reach.step[OF held_reach rx_step.processed[OF this cfg_skb_ends(1)]] have r: "rx_reach ?S" by simp
  have "aicwf_is_framequeue_empty (rxq (rs_dev ?S))"
    using one_prio_empty[of "cfg_q []" "[]"]
    by (simp add: held_def one_prio_def cfg_q_def aicwf_frame_queue_init_def MAX_RXQLEN_def)
  from rx_reach.step[OF r rx_step.look[OF _ this]] show ?thesis by (simp add: resting_def)
qed

theorem rx_no_lost_wakeup_witness: "aicwf_is_framequeue_empty (rxq (rs_dev resting))"
  by (rule rx_no_lost_wakeup[OF resting_reach]) (simp_all add: resting_def held_def up_init_fields)

definition rx_steps :: "rx_sys \<Rightarrow> rx_sys \<Rightarrow> bool" where
  "rx_steps = (\<lambda>S S'. \<exists>l. rx_step l S S')\<^sup>*\<^sup>*"

lemma rx_stuck_step:
  assumes "rx_step l S S'" "rs_thr S = Waiting \<and> busrx_trgg (rs_dev S) = 0 \<and> 1 \<le> rx_cnt (rs_dev S) \<and>
      (rs_irq S = IrqCounted \<longrightarrow> 2 \<le> rx_cnt (rs_dev S))"
  shows "rs_thr S' = Waiting \<and> busrx_trgg (rs_dev S') = 0 \<and> 1 \<le> rx_cnt (rs_dev S') \<and>
      (rs_irq S' = IrqCounted \<longrightarrow> 2 \<le> rx_cnt (rs_dev S'))"
  using assms by (induction rule: rx_step.induct) (auto simp: rx_enqueue_def rx_count_def rx_wake_def split: prod.splits)

text \<open>
  When the memory for one configuration packet is missing, the count stays one too high and reception
  is over: whatever arrives later, the thread is never woken again.
\<close>

theorem rx_stuck_without_memory:
  assumes "rx_reach S" "rs_irq S = IrqIdle" "busrx_trgg (rs_dev S) = 0" "rx_step ThrNoMem S S'" "rx_steps S' S''"
  shows "rs_thr S'' = Waiting \<and> busrx_trgg (rs_dev S'') = 0"
proof -
  obtain s aggr up mem ev where n: "rs_thr S = Holding s"
    "S' = S\<lparr>rs_dev := (rs_dev S)\<lparr>rx_log := rx_log (rs_dev S) @ ev\<rparr>, rs_thr := Waiting\<rparr>"
    using assms(4) by (cases rule: rx_step.cases) auto
  have "1 \<le> rx_cnt (rs_dev S)" using wake_inv_reach[OF assms(1)] assms(2) n(1) by (auto simp: wake_inv_def)
  then have "rs_thr S' = Waiting \<and> busrx_trgg (rs_dev S') = 0 \<and> 1 \<le> rx_cnt (rs_dev S') \<and>
      (rs_irq S' = IrqCounted \<longrightarrow> 2 \<le> rx_cnt (rs_dev S'))" using n(2) assms(2,3) by simp
  with assms(5) have "rs_thr S'' = Waiting \<and> busrx_trgg (rs_dev S'') = 0 \<and> 1 \<le> rx_cnt (rs_dev S'') \<and>
      (rs_irq S'' = IrqCounted \<longrightarrow> 2 \<le> rx_cnt (rs_dev S''))"
    unfolding rx_steps_def by (induction rule: rtranclp_induct) (use rx_stuck_step in blast)+
  then show ?thesis by blast
qed

theorem rx_stuck_without_memory_witness:
  "\<exists>S' S''. rx_step ThrNoMem held S' \<and> rx_steps S' S'' \<and> rs_irq S'' = IrqQueued \<and> rs_thr S'' = Waiting \<and> busrx_trgg (rs_dev S'') = 0"
proof -
  have h: "rs_thr held = Holding cfg_skb" "rs_irq held = IrqIdle" "busrx_trgg (rs_dev held) = 0" by (simp_all add: held_def up_init_fields)
  let ?S = "held\<lparr>rs_dev := (rs_dev held)\<lparr>rx_log := rx_log (rs_dev held) @ []\<rparr>, rs_thr := Waiting\<rparr>"
  have s: "rx_step ThrNoMem held ?S" by (rule rx_step.no_mem[OF h(1) cfg_skb_ends(2)])
  have q: "one_prio (rxq (rs_dev ?S)) []" by (simp add: held_def one_prio_def cfg_q_def aicwf_frame_queue_init_def MAX_RXQLEN_def)
  obtain D where d: "rx_enqueue cfg_skb (rs_dev ?S) = (True, D)" using rx_enqueue_one[OF q, of cfg_skb] by (simp add: MAX_RXQLEN_def)
  have "rx_step Irq ?S (?S\<lparr>rs_dev := D, rs_irq := IrqQueued\<rparr>)"
    using rx_step.queue[of ?S cfg_skb True D] d h(2) by simp
  then have t: "rx_steps ?S (?S\<lparr>rs_dev := D, rs_irq := IrqQueued\<rparr>)" unfolding rx_steps_def by blast
  from rx_stuck_without_memory[OF held_reach h(2,3) s t] s t show ?thesis by fastforce
qed

end
