(* ===== verification/TxQueue.thy ===== *)
theory TxQueue
  imports UsbTx
begin

text \<open>
  The transmit queues (\<^verbatim>\<open>rwnx_txq.c\<close>), the hardware queues that schedule them, and what
  drives them in \<^verbatim>\<open>rwnx_tx.c\<close>: sending a frame, power save of the stations, confirmations
  (\<^verbatim>\<open>usb_host.c\<close>). A frame waits in the queue of its station and traffic identifier; a queue
  with frames that nothing stops is linked in the list of its hardware queue; processing a hardware queue
  pushes frames to the USB transport. As the package builds it: no MU-MIMO, no A-MSDU, credits that the
  driver never spends.
\<close>

section \<open>Constants\<close>

definition NX_NB_TID_PER_STA :: nat where "NX_NB_TID_PER_STA = 8"
definition NX_NB_TXQ_PER_STA :: nat where "NX_NB_TXQ_PER_STA = NX_NB_TID_PER_STA + 1"
definition NX_REMOTE_STA_MAX :: "bool \<Rightarrow> nat" where "NX_REMOTE_STA_MAX old_ic = (if old_ic then 8 else 32)"
definition NX_VIRT_DEV_MAX :: nat where "NX_VIRT_DEV_MAX = 4"
definition NX_NB_TXQ :: nat where "NX_NB_TXQ = NX_NB_TXQ_PER_STA * NX_REMOTE_STA_MAX False + 2 * NX_VIRT_DEV_MAX + 1"
definition NX_FIRST_VIF_TXQ_IDX :: "bool \<Rightarrow> nat" where "NX_FIRST_VIF_TXQ_IDX old_ic = NX_REMOTE_STA_MAX old_ic * NX_NB_TXQ_PER_STA"
definition NX_FIRST_UNK_TXQ_IDX :: "bool \<Rightarrow> nat" where "NX_FIRST_UNK_TXQ_IDX old_ic = NX_FIRST_VIF_TXQ_IDX old_ic + NX_VIRT_DEV_MAX"
definition NX_OFF_CHAN_TXQ_IDX :: "bool \<Rightarrow> nat" where "NX_OFF_CHAN_TXQ_IDX old_ic = NX_FIRST_VIF_TXQ_IDX old_ic + NX_VIRT_DEV_MAX * 2"
definition NX_BCMC_TXQ_NDEV_IDX :: "bool \<Rightarrow> nat" where "NX_BCMC_TXQ_NDEV_IDX old_ic = NX_NB_TID_PER_STA * NX_REMOTE_STA_MAX old_ic"
definition NX_STA_NDEV_IDX :: "nat \<Rightarrow> nat \<Rightarrow> nat" where "NX_STA_NDEV_IDX tid sta_idx = tid + sta_idx * NX_NB_TID_PER_STA"
definition NX_BCMC_TXQ_TYPE :: nat where "NX_BCMC_TXQ_TYPE = 0"
definition NX_UNK_TXQ_TYPE :: nat where "NX_UNK_TXQ_TYPE = 1"
definition NDEV_NO_TXQ :: nat where "NDEV_NO_TXQ = 0xffff"
definition TXQ_INACTIVE :: nat where "TXQ_INACTIVE = 0xffff"
definition NX_TXQ_INITIAL_CREDITS :: u8 where "NX_TXQ_INITIAL_CREDITS = 64"
definition RWNX_NDEV_FLOW_CTRL_STOP :: nat where "RWNX_NDEV_FLOW_CTRL_STOP = 64"
definition RWNX_NDEV_FLOW_CTRL_RESTART :: nat where "RWNX_NDEV_FLOW_CTRL_RESTART = 64"
definition LEGACY_PS_ID :: nat where "LEGACY_PS_ID = 0"
definition UAPSD_ID :: nat where "UAPSD_ID = 1"
definition PS_SP_INTERRUPTED :: u16 where "PS_SP_INTERRUPTED = 255"
definition RWNX_HWQ_BK :: nat where "RWNX_HWQ_BK = 0"
definition RWNX_HWQ_BE :: nat where "RWNX_HWQ_BE = 1"
definition RWNX_HWQ_VI :: nat where "RWNX_HWQ_VI = 2"
definition RWNX_HWQ_VO :: nat where "RWNX_HWQ_VO = 3"
definition RWNX_HWQ_NB :: nat where "RWNX_HWQ_NB = 5"
definition TID_MGT :: nat where "TID_MGT = 8"
definition USB_TXDESC_CNT :: nat where "USB_TXDESC_CNT = 64"

definition nx_txdesc_cnt :: "nat list" where "nx_txdesc_cnt = [8, 64, 64, 32, 8]"
definition nx_tid_prio :: "nat list" where "nx_tid_prio = [7, 6, 5, 4, 3, 0, 2, 1]"

definition rwnx_tid2hwq :: "nat \<Rightarrow> nat" where
  "rwnx_tid2hwq tid = [RWNX_HWQ_BE, RWNX_HWQ_BK, RWNX_HWQ_BK, RWNX_HWQ_BE, RWNX_HWQ_VI, RWNX_HWQ_VI, RWNX_HWQ_VO,
     RWNX_HWQ_VO, RWNX_HWQ_VO] ! tid"

section \<open>State\<close>

text \<open>The flags of a queue, and those that stop it.\<close>

datatype rwnx_txq_flag = IN_HWQ_LIST | STOP_FULL | STOP_CSA | STOP_STA_PS | STOP_VIF_PS | STOP_CHAN | STOP_MU_POS | NDEV_FLOW_CTRL

definition TXQ_STOP :: "rwnx_txq_flag set" where
  "TXQ_STOP = {STOP_FULL, STOP_CSA, STOP_STA_PS, STOP_VIF_PS, STOP_CHAN}"

text \<open>
  A transmit queue. \<open>q_credits\<close> is signed; \<open>q_last_retry\<close> is the last of the frames to be sent again,
  which are the first \<open>q_nb_retry\<close> of the list.
\<close>

record rwnx_txq =
  q_idx :: nat
  q_status :: "rwnx_txq_flag set"
  q_credits :: u8
  q_pkt_sent :: u8
  q_pkt_pushed :: u8
  q_sk_list :: "tx_frame list"
  q_last_retry :: "nat option"
  q_hwq :: nat
  q_nb_retry :: int
  q_push_limit :: u8
  q_tid :: nat
  q_sta :: "nat option"
  q_ps_id :: nat
  q_ndev_idx :: nat
  q_ndev :: nat

record rwnx_hwq =
  hq_list :: "nat list"
  hq_size :: nat
  need_processing :: bool

text \<open>What the queues need of a station: its interface, its power save state, its use of TDLS.\<close>

record tx_sta =
  ts_vif :: nat
  ps_active :: bool
  ps_pkt_ready :: "nat \<Rightarrow> u16"
  ps_sp_cnt :: "nat \<Rightarrow> u16"
  uapsd_tids :: u16
  tdls_active :: bool
  tdls_chsw_en :: bool

datatype nl80211_iftype = NL_STATION | NL_P2P_CLIENT | NL_AP | NL_AP_VLAN | NL_MESH_POINT | NL_P2P_GO | NL_MONITOR | NL_OTHER

record tx_vif =
  tv_type :: nl80211_iftype
  tv_ndev :: nat
  tv_sta_list :: "nat list"
  tv_ap :: "nat option"
  tv_tdls_sta :: "nat option"
  tdls_link_active :: bool
  tv_roc_tdls :: bool
  tv_master :: nat
  bcmc_index :: nat
  external_auth :: bool

text \<open>The descriptors of frames that wait for a confirmation.\<close>

record usb_host_env =
  txdesc_free_idx :: u32
  txdesc_used_idx :: u32
  tx_host_id :: "nat \<Rightarrow> tx_frame option"

record tx_sys =
  txqs :: "nat \<Rightarrow> rwnx_txq"
  hwqs :: "nat \<Rightarrow> rwnx_hwq"
  tx_stas :: "nat \<Rightarrow> tx_sta"
  tx_vifs :: "nat \<Rightarrow> tx_vif"
  usbdev :: aic_usb_dev
  usb_env :: usb_host_env
  old_ic :: bool
  cfm_balance :: "nat \<Rightarrow> int"

abbreviation upd_txq :: "nat \<Rightarrow> (rwnx_txq \<Rightarrow> rwnx_txq) \<Rightarrow> tx_sys \<Rightarrow> tx_sys" where
  "upd_txq x f S \<equiv> S\<lparr>txqs := (txqs S)(x := f (txqs S x))\<rparr>"

abbreviation upd_hwq :: "nat \<Rightarrow> (rwnx_hwq \<Rightarrow> rwnx_hwq) \<Rightarrow> tx_sys \<Rightarrow> tx_sys" where
  "upd_hwq h f S \<equiv> S\<lparr>hwqs := (hwqs S)(h := f (hwqs S h))\<rparr>"

abbreviation upd_sta :: "nat \<Rightarrow> (tx_sta \<Rightarrow> tx_sta) \<Rightarrow> tx_sys \<Rightarrow> tx_sys" where
  "upd_sta s f S \<equiv> S\<lparr>tx_stas := (tx_stas S)(s := f (tx_stas S s))\<rparr>"

abbreviation upd_usb :: "(aic_usb_dev \<Rightarrow> aic_usb_dev) \<Rightarrow> tx_sys \<Rightarrow> tx_sys" where
  "upd_usb f S \<equiv> S\<lparr>usbdev := f (usbdev S)\<rparr>"

section \<open>Which queue\<close>

definition is_multicast_sta :: "bool \<Rightarrow> nat \<Rightarrow> bool" where
  "is_multicast_sta old sta_idx = (sta_idx \<ge> NX_REMOTE_STA_MAX old)"

definition rwnx_txq_sta_idx :: "tx_sys \<Rightarrow> nat \<Rightarrow> nat \<Rightarrow> nat" where
  "rwnx_txq_sta_idx S sta tid =
     (if is_multicast_sta (old_ic S) sta then NX_FIRST_VIF_TXQ_IDX (old_ic S) + ts_vif (tx_stas S sta)
      else sta * NX_NB_TXQ_PER_STA + tid)"

definition master_vif_idx :: "tx_sys \<Rightarrow> nat \<Rightarrow> nat" where
  "master_vif_idx S vif = (if tv_type (tx_vifs S vif) = NL_AP_VLAN then tv_master (tx_vifs S vif) else vif)"

definition rwnx_txq_vif_idx :: "tx_sys \<Rightarrow> nat \<Rightarrow> nat \<Rightarrow> nat" where
  "rwnx_txq_vif_idx S vif type = NX_FIRST_VIF_TXQ_IDX (old_ic S) + master_vif_idx S vif + type * NX_VIRT_DEV_MAX"

definition rwnx_txq_sta_get :: "tx_sys \<Rightarrow> nat \<Rightarrow> nat \<Rightarrow> nat" where
  "rwnx_txq_sta_get S sta tid = rwnx_txq_sta_idx S sta (if tid \<ge> NX_NB_TXQ_PER_STA then 0 else tid)"

definition rwnx_txq_vif_get :: "tx_sys \<Rightarrow> nat \<Rightarrow> nat \<Rightarrow> nat" where
  "rwnx_txq_vif_get S vif type = rwnx_txq_vif_idx S vif (if type > NX_UNK_TXQ_TYPE then NX_BCMC_TXQ_TYPE else type)"

text \<open>The queues of a station in the order of \<^verbatim>\<open>foreach_sta_txq\<close>, and the first by priority.\<close>

definition sta_txqs :: "tx_sys \<Rightarrow> nat \<Rightarrow> nat list" where
  "sta_txqs S sta = map (\<lambda>tid. rwnx_txq_sta_get S sta 0 + tid)
     [0..<(if is_multicast_sta (old_ic S) sta then 1 else NX_NB_TXQ_PER_STA)]"

definition sta_txqs_prio :: "tx_sys \<Rightarrow> nat \<Rightarrow> nat list" where
  "sta_txqs_prio S sta = map (rwnx_txq_sta_get S sta) nx_tid_prio"

definition rwnx_txq_is_stopped :: "rwnx_txq \<Rightarrow> bool" where
  "rwnx_txq_is_stopped q = (q_status q \<inter> TXQ_STOP \<noteq> {})"

definition rwnx_txq_vif_get_status :: "tx_sys \<Rightarrow> nat \<Rightarrow> rwnx_txq_flag set" where
  "rwnx_txq_vif_get_status S vif = q_status (txqs S (rwnx_txq_vif_get S vif 0)) \<inter> {STOP_CHAN, STOP_VIF_PS}"

section \<open>The lists of the hardware queues\<close>

text \<open>
  A queue is linked in at most one list; a list of the model stands for the linked list of the kernel as
  long as no queue is linked twice.
\<close>

definition rwnx_txq_add_to_hw_list :: "nat \<Rightarrow> tx_sys \<Rightarrow> tx_sys" where
  "rwnx_txq_add_to_hw_list x S =
     (if IN_HWQ_LIST \<in> q_status (txqs S x) then S
      else upd_hwq (q_hwq (txqs S x)) (\<lambda>h. h\<lparr>hq_list := hq_list h @ [x], need_processing := True\<rparr>)
             (upd_txq x (\<lambda>q. q\<lparr>q_status := insert IN_HWQ_LIST (q_status q)\<rparr>) S))"

definition rwnx_txq_del_from_hw_list :: "nat \<Rightarrow> tx_sys \<Rightarrow> tx_sys" where
  "rwnx_txq_del_from_hw_list x S =
     (if IN_HWQ_LIST \<in> q_status (txqs S x)
      then (upd_txq x (\<lambda>q. q\<lparr>q_status := q_status q - {IN_HWQ_LIST}\<rparr>) S)
             \<lparr>hwqs := (\<lambda>h. (hwqs S h)\<lparr>hq_list := remove1 x (hq_list (hwqs S h))\<rparr>)\<rparr>
      else S)"

section \<open>Start and stop\<close>

definition rwnx_txq_start :: "rwnx_txq_flag set \<Rightarrow> nat \<Rightarrow> tx_sys \<Rightarrow> tx_sys" where
  "rwnx_txq_start reason x S =
     (if q_idx (txqs S x) \<noteq> TXQ_INACTIVE \<and> q_status (txqs S x) \<inter> reason \<noteq> {}
      then let S = upd_txq x (\<lambda>q. q\<lparr>q_status := q_status q - reason\<rparr>) S in
           if \<not> rwnx_txq_is_stopped (txqs S x) \<and> q_sk_list (txqs S x) \<noteq> [] then rwnx_txq_add_to_hw_list x S else S
      else S)"

definition rwnx_txq_stop :: "rwnx_txq_flag set \<Rightarrow> nat \<Rightarrow> tx_sys \<Rightarrow> tx_sys" where
  "rwnx_txq_stop reason x S =
     (if q_idx (txqs S x) \<noteq> TXQ_INACTIVE
      then rwnx_txq_del_from_hw_list x (upd_txq x (\<lambda>q. q\<lparr>q_status := q_status q \<union> reason\<rparr>) S)
      else S)"

definition rwnx_txq_sta_start :: "rwnx_txq_flag set \<Rightarrow> nat \<Rightarrow> tx_sys \<Rightarrow> tx_sys" where
  "rwnx_txq_sta_start reason sta S = fold (rwnx_txq_start reason) (sta_txqs S sta) S"

definition rwnx_txq_sta_stop :: "rwnx_txq_flag set \<Rightarrow> nat \<Rightarrow> tx_sys \<Rightarrow> tx_sys" where
  "rwnx_txq_sta_stop reason sta S = fold (rwnx_txq_stop reason) (sta_txqs S sta) S"

definition rwnx_txq_tdls_sta_start :: "nat \<Rightarrow> rwnx_txq_flag set \<Rightarrow> tx_sys \<Rightarrow> tx_sys" where
  "rwnx_txq_tdls_sta_start vif reason S =
     (case tv_tdls_sta (tx_vifs S vif) of Some s \<Rightarrow> rwnx_txq_sta_start reason s S | None \<Rightarrow> S)"

definition rwnx_txq_tdls_sta_stop :: "nat \<Rightarrow> rwnx_txq_flag set \<Rightarrow> tx_sys \<Rightarrow> tx_sys" where
  "rwnx_txq_tdls_sta_stop vif reason S =
     (case tv_tdls_sta (tx_vifs S vif) of Some s \<Rightarrow> rwnx_txq_sta_stop reason s S | None \<Rightarrow> S)"

text \<open>
  \<open>f\<close> with a station that may be missing; no result: \<^verbatim>\<open>BUG\<close>, or \<open>f\<close> gets a null pointer it does
  not check.
\<close>

definition rwnx_txq_vif_for_each_sta :: "(nat option \<Rightarrow> tx_sys \<Rightarrow> tx_sys option) \<Rightarrow> nat \<Rightarrow> tx_sys \<Rightarrow> tx_sys option" where
  "rwnx_txq_vif_for_each_sta f vif S =
     (let V = tx_vifs S vif;
          each = (\<lambda>l. fold (\<lambda>s r. Option.bind r (f (Some s))) l (Some S))
      in case tv_type V of
           NL_STATION \<Rightarrow> do { S \<leftarrow> (if tdls_link_active V then f (tv_tdls_sta V) S else Some S);
                                 if tv_ap V = None then Some S else f (tv_ap V) S }
         | NL_P2P_CLIENT \<Rightarrow> do { S \<leftarrow> (if tdls_link_active V then f (tv_tdls_sta V) S else Some S);
                                 if tv_ap V = None then Some S else f (tv_ap V) S }
         | NL_AP_VLAN \<Rightarrow> each (tv_sta_list (tx_vifs S (tv_master V)))
         | NL_AP \<Rightarrow> each (tv_sta_list V)
         | NL_MESH_POINT \<Rightarrow> each (tv_sta_list V)
         | NL_P2P_GO \<Rightarrow> each (tv_sta_list V)
         | _ \<Rightarrow> None)"

definition rwnx_txq_vif_start :: "nat \<Rightarrow> rwnx_txq_flag set \<Rightarrow> tx_sys \<Rightarrow> tx_sys option" where
  "rwnx_txq_vif_start vif reason S =
     (let V = tx_vifs S vif in
      if tv_type V = NL_MONITOR then Some S
      else do {
        let S = (if tv_roc_tdls V then (case tv_tdls_sta V of
                    Some s \<Rightarrow> if tdls_chsw_en (tx_stas S s) then rwnx_txq_sta_start reason s S else S
                  | None \<Rightarrow> S) else S);
        S \<leftarrow> (if \<not> tv_roc_tdls V
              then rwnx_txq_vif_for_each_sta (\<lambda>s S. map_option (\<lambda>s. rwnx_txq_sta_start reason s S) s) vif S else Some S);
        let S = rwnx_txq_start reason (rwnx_txq_vif_get S vif NX_BCMC_TXQ_TYPE) S;
        Some (rwnx_txq_start reason (rwnx_txq_vif_get S vif NX_UNK_TXQ_TYPE) S) })"

definition rwnx_txq_vif_stop :: "nat \<Rightarrow> rwnx_txq_flag set \<Rightarrow> tx_sys \<Rightarrow> tx_sys option" where
  "rwnx_txq_vif_stop vif reason S =
     (if tv_type (tx_vifs S vif) = NL_MONITOR then Some S
      else do {
        S \<leftarrow> rwnx_txq_vif_for_each_sta (\<lambda>s S. Some (case s of None \<Rightarrow> S | Some s \<Rightarrow> rwnx_txq_sta_stop reason s S)) vif S;
        let S = rwnx_txq_stop reason (rwnx_txq_vif_get S vif NX_BCMC_TXQ_TYPE) S;
        Some (rwnx_txq_stop reason (rwnx_txq_vif_get S vif NX_UNK_TXQ_TYPE) S) })"

definition rwnx_txq_offchan_start :: "tx_sys \<Rightarrow> tx_sys" where
  "rwnx_txq_offchan_start S = rwnx_txq_start {STOP_CHAN} (NX_OFF_CHAN_TXQ_IDX (old_ic S)) S"

text \<open>The queues of a station move to another network device, which is told to send.\<close>

definition rwnx_txq_sta_switch_vif :: "nat \<Rightarrow> nat \<Rightarrow> tx_sys \<Rightarrow> tx_sys" where
  "rwnx_txq_sta_switch_vif sta new_vif S =
     fold (\<lambda>x S. upd_usb (stop_subqueue (tv_ndev (tx_vifs S new_vif)) (q_ndev_idx (txqs S x)) False)
                   (upd_txq x (\<lambda>q. q\<lparr>q_ndev := tv_ndev (tx_vifs S new_vif)\<rparr>) S))
       (map (\<lambda>i. rwnx_txq_sta_get S sta 0 + i) [0..<NX_NB_TID_PER_STA]) S"

section \<open>Init and deinit\<close>

definition rwnx_txq_init :: "nat \<Rightarrow> nat \<Rightarrow> rwnx_txq_flag set \<Rightarrow> nat \<Rightarrow> nat \<Rightarrow> nat option \<Rightarrow> nat \<Rightarrow> tx_sys \<Rightarrow> tx_sys option" where
  "rwnx_txq_init x idx st hwq tid sta ndev S =
     (let ndev_idx = (if idx < NX_FIRST_VIF_TXQ_IDX (old_ic S)
             then map_option (\<lambda>s. let t = int idx - int s * int NX_NB_TXQ_PER_STA in
                    if t < int NX_NB_TID_PER_STA then nat ((t + int s * int NX_NB_TID_PER_STA) mod 65536) else NDEV_NO_TXQ) sta
             else if idx < NX_FIRST_UNK_TXQ_IDX (old_ic S) then Some (NX_BCMC_TXQ_NDEV_IDX (old_ic S))
             else Some NDEV_NO_TXQ)
      in map_option (\<lambda>nd. upd_txq x (\<lambda>_. \<lparr>q_idx = idx mod 65536, q_status = st, q_credits = NX_TXQ_INITIAL_CREDITS, q_pkt_sent = 0,
           q_pkt_pushed = 0, q_sk_list = [], q_last_retry = None, q_hwq = hwq, q_nb_retry = 0, q_push_limit = 0, q_tid = tid,
           q_sta = sta, q_ps_id = LEGACY_PS_ID, q_ndev_idx = nd, q_ndev = ndev\<rparr>) S) ndev_idx)"

definition rwnx_txq_flush :: "nat \<Rightarrow> tx_sys \<Rightarrow> tx_sys" where
  "rwnx_txq_flush x S =
     upd_usb (log_tx (concat (map (\<lambda>f. [FreeHdr (f_id f), FreeSkb (f_id f)]) (q_sk_list (txqs S x)))))
       (upd_txq x (\<lambda>q. q\<lparr>q_sk_list := []\<rparr>) S)"

definition rwnx_txq_deinit :: "nat \<Rightarrow> tx_sys \<Rightarrow> tx_sys" where
  "rwnx_txq_deinit x S =
     (if q_idx (txqs S x) = TXQ_INACTIVE then S
      else rwnx_txq_flush x (upd_txq x (\<lambda>q. q\<lparr>q_idx := TXQ_INACTIVE\<rparr>) (rwnx_txq_del_from_hw_list x S)))"

definition rwnx_txq_vif_init :: "nat \<Rightarrow> rwnx_txq_flag set \<Rightarrow> tx_sys \<Rightarrow> tx_sys option" where
  "rwnx_txq_vif_init vif st S = do {
     let V = tx_vifs S vif;
     S \<leftarrow> rwnx_txq_init (rwnx_txq_vif_get S vif NX_BCMC_TXQ_TYPE) (rwnx_txq_vif_idx S vif NX_BCMC_TXQ_TYPE) st RWNX_HWQ_BE 0
            (Some (bcmc_index V)) (tv_ndev V) S;
     rwnx_txq_init (rwnx_txq_vif_get S vif NX_UNK_TXQ_TYPE) (rwnx_txq_vif_idx S vif NX_UNK_TXQ_TYPE) st RWNX_HWQ_VO TID_MGT
            None (tv_ndev V) S }"

definition rwnx_txq_vif_deinit :: "nat \<Rightarrow> tx_sys \<Rightarrow> tx_sys" where
  "rwnx_txq_vif_deinit vif S =
     (let S = rwnx_txq_deinit (rwnx_txq_vif_get S vif NX_BCMC_TXQ_TYPE) S
      in rwnx_txq_deinit (rwnx_txq_vif_get S vif NX_UNK_TXQ_TYPE) S)"

definition rwnx_txq_sta_init :: "nat \<Rightarrow> rwnx_txq_flag set \<Rightarrow> tx_sys \<Rightarrow> tx_sys option" where
  "rwnx_txq_sta_init sta st S =
     (let ndev = tv_ndev (tx_vifs S (ts_vif (tx_stas S sta))) in
      fold (\<lambda>(tid, x) r. do {
          S \<leftarrow> r;
          S \<leftarrow> rwnx_txq_init x (rwnx_txq_sta_idx S sta 0 + tid) st (rwnx_tid2hwq tid) tid (Some sta) ndev S;
          Some (upd_txq x (\<lambda>q. q\<lparr>q_ps_id := (if bit (uapsd_tids (tx_stas S sta)) tid then UAPSD_ID else LEGACY_PS_ID)\<rparr>) S) })
        (List.enumerate 0 (sta_txqs S sta)) (Some S))"

definition rwnx_txq_sta_deinit :: "nat \<Rightarrow> tx_sys \<Rightarrow> tx_sys" where
  "rwnx_txq_sta_deinit sta S = fold rwnx_txq_deinit (sta_txqs S sta) S"

definition rwnx_txq_unk_vif_init :: "nat \<Rightarrow> tx_sys \<Rightarrow> tx_sys option" where
  "rwnx_txq_unk_vif_init vif S = rwnx_txq_init (rwnx_txq_vif_get S vif NX_UNK_TXQ_TYPE) (rwnx_txq_vif_idx S vif NX_UNK_TXQ_TYPE)
     {} RWNX_HWQ_VO TID_MGT None (tv_ndev (tx_vifs S vif)) S"

definition rwnx_txq_unk_vif_deinit :: "nat \<Rightarrow> tx_sys \<Rightarrow> tx_sys" where
  "rwnx_txq_unk_vif_deinit vif S = rwnx_txq_deinit (rwnx_txq_vif_get S vif NX_UNK_TXQ_TYPE) S"

definition rwnx_txq_offchan_init :: "nat \<Rightarrow> tx_sys \<Rightarrow> tx_sys option" where
  "rwnx_txq_offchan_init vif S = rwnx_txq_init (NX_OFF_CHAN_TXQ_IDX (old_ic S)) (NX_OFF_CHAN_TXQ_IDX (old_ic S)) {STOP_CHAN}
     RWNX_HWQ_VO TID_MGT None (tv_ndev (tx_vifs S vif)) S"

definition rwnx_txq_offchan_deinit :: "tx_sys \<Rightarrow> tx_sys" where
  "rwnx_txq_offchan_deinit S = rwnx_txq_deinit (NX_OFF_CHAN_TXQ_IDX (old_ic S)) S"

text \<open>With \<open>tdls\<close>: the driver announces support of TDLS.\<close>

definition rwnx_txq_tdls_vif_init :: "bool \<Rightarrow> nat \<Rightarrow> tx_sys \<Rightarrow> tx_sys option" where
  "rwnx_txq_tdls_vif_init tdls vif S = (if \<not> tdls then Some S else rwnx_txq_unk_vif_init vif S)"

definition rwnx_txq_tdls_vif_deinit :: "bool \<Rightarrow> nat \<Rightarrow> tx_sys \<Rightarrow> tx_sys" where
  "rwnx_txq_tdls_vif_deinit tdls vif S = (if \<not> tdls then S else rwnx_txq_unk_vif_deinit vif S)"

definition rwnx_external_auth_enable :: "nat \<Rightarrow> tx_sys \<Rightarrow> tx_sys option" where
  "rwnx_external_auth_enable vif S = do {
     S \<leftarrow> rwnx_txq_unk_vif_init vif (S\<lparr>tx_vifs := (tx_vifs S)(vif := (tx_vifs S vif)\<lparr>external_auth := True\<rparr>)\<rparr>);
     Some (rwnx_txq_start {} (rwnx_txq_vif_get S vif NX_UNK_TXQ_TYPE) S) }"

definition rwnx_external_auth_disable :: "nat \<Rightarrow> tx_sys \<Rightarrow> tx_sys" where
  "rwnx_external_auth_disable vif S =
     (if \<not> external_auth (tx_vifs S vif) then S
      else rwnx_txq_unk_vif_deinit vif (S\<lparr>tx_vifs := (tx_vifs S)(vif := (tx_vifs S vif)\<lparr>external_auth := False\<rparr>)\<rparr>))"

definition rwnx_hwq_init :: "tx_sys \<Rightarrow> tx_sys" where
  "rwnx_hwq_init S = S\<lparr>hwqs := (\<lambda>h. if h < RWNX_HWQ_NB then (hwqs S h)\<lparr>hq_size := nx_txdesc_cnt ! h, hq_list := []\<rparr> else hwqs S h)\<rparr>"

end
