(* ===== verification/TxPush.thy ===== *)
theory TxPush
  imports TxQueue
begin

text \<open>
  What moves frames through the transmit queues: queueing (\<^verbatim>\<open>rwnx_txq_queue_skb\<close>), processing a
  hardware queue (\<^verbatim>\<open>rwnx_hwq_process\<close>), pushing a frame to the transport
  (\<^verbatim>\<open>rwnx_tx_push\<close>), power save of a station, confirmations by the firmware. No result stands
  for a \<^verbatim>\<open>BUG_ON\<close> that fires, or for what the transport does not survive.
\<close>

section \<open>Queueing a frame\<close>

definition rwnx_set_traffic_status :: "nat \<Rightarrow> bool \<Rightarrow> nat \<Rightarrow> tx_sys \<Rightarrow> tx_sys" where
  "rwnx_set_traffic_status s available ps_id S =
     upd_usb (log_tx [if tdls_active (tx_stas S s) then TdlsPeerInd (ts_vif (tx_stas S s))
                      else TrafficInd s available (ps_id \<noteq> LEGACY_PS_ID)]) S"

text \<open>\<^verbatim>\<open>rwnx_skb_append\<close>, behind the frame that is there.\<close>

fun insert_after :: "nat \<Rightarrow> tx_frame \<Rightarrow> tx_frame list \<Rightarrow> tx_frame list" where
  "insert_after i f [] = [f]"
| "insert_after i f (y # ys) = (if f_id y = i then y # f # ys else y # insert_after i f ys)"

definition queue_list :: "tx_frame \<Rightarrow> bool \<Rightarrow> rwnx_txq \<Rightarrow> rwnx_txq" where
  "queue_list f retry q =
     (if \<not> retry then q\<lparr>q_sk_list := q_sk_list q @ [f]\<rparr>
      else q\<lparr>q_sk_list := (case q_last_retry q of Some i \<Rightarrow> insert_after i f (q_sk_list q) | None \<Rightarrow> f # q_sk_list q),
             q_last_retry := Some (f_id f), q_nb_retry := q_nb_retry q + 1\<rparr>)"

definition flow_ctrl_stop :: "nat \<Rightarrow> tx_sys \<Rightarrow> tx_sys" where
  "flow_ctrl_stop x S =
     (let q = txqs S x in
      if q_ndev_idx q \<noteq> NDEV_NO_TXQ \<and> \<not> tbusy (usbdev S) \<and> length (q_sk_list q) > RWNX_NDEV_FLOW_CTRL_STOP
      then upd_usb (stop_subqueue (q_ndev q) (q_ndev_idx q) True)
             (upd_txq x (\<lambda>q. q\<lparr>q_status := insert NDEV_FLOW_CTRL (q_status q)\<rparr>) S)
      else S)"

definition ps_count :: "nat \<Rightarrow> tx_sys \<Rightarrow> tx_sys" where
  "ps_count x S =
     (case q_sta (txqs S x) of
        None \<Rightarrow> S
      | Some s \<Rightarrow>
          if \<not> ps_active (tx_stas S s) then S
          else let p = q_ps_id (txqs S x);
                   S = upd_sta s (\<lambda>t. t\<lparr>ps_pkt_ready := (ps_pkt_ready t)(p := ps_pkt_ready t p + 1)\<rparr>) S
               in if ps_pkt_ready (tx_stas S s) p = 1 then rwnx_set_traffic_status s True p S else S)"

definition rwnx_txq_queue_skb :: "tx_frame \<Rightarrow> nat \<Rightarrow> bool \<Rightarrow> tx_sys \<Rightarrow> bool \<times> tx_sys" where
  "rwnx_txq_queue_skb f x retry S =
     (let S = flow_ctrl_stop x (upd_txq x (queue_list f retry) (ps_count x S))
      in if \<not> rwnx_txq_is_stopped (txqs S x) then (True, rwnx_txq_add_to_hw_list x S) else (False, S))"

section \<open>Pushing a frame\<close>

definition rwnx_set_more_data_flag :: "nat \<Rightarrow> tx_frame \<Rightarrow> tx_sys \<Rightarrow> tx_frame \<times> tx_sys" where
  "rwnx_set_more_data_flag s f S =
     (if \<not> ps_active (tx_stas S s) then (f, S)
      else let p = q_ps_id (txqs S (f_txq f));
               S = upd_sta s (\<lambda>t. t\<lparr>ps_pkt_ready := (ps_pkt_ready t)(p := ps_pkt_ready t p - 1),
                                    ps_sp_cnt := (ps_sp_cnt t)(p := ps_sp_cnt t p - 1)\<rparr>) S;
               f = (if (p = UAPSD_ID \<or> tv_type (tx_vifs S (f_vif f)) = NL_MESH_POINT \<or> tdls_active (tx_stas S s)) \<and>
                       ps_sp_cnt (tx_stas S s) p = 0 then f\<lparr>f_eosp := True\<rparr> else f)
           in if ps_pkt_ready (tx_stas S s) p \<noteq> 0 then (f\<lparr>f_more := True\<rparr>, S)
              else (f, rwnx_set_traffic_status s False p S))"

definition aicwf_usb_host_txdesc_push :: "tx_frame \<Rightarrow> usb_host_env \<Rightarrow> usb_host_env" where
  "aicwf_usb_host_txdesc_push f E =
     (let i = txdesc_free_idx E + 1 in
      E\<lparr>tx_host_id := (tx_host_id E)(unat (txdesc_free_idx E) mod USB_TXDESC_CNT := Some f),
        txdesc_free_idx := (if i = 0x40000000 then 0 else i)\<rparr>)"

definition needs_cfm :: "tx_frame \<Rightarrow> bool" where
  "needs_cfm f \<longleftrightarrow> f_mgmt f \<and> (f_fc f = 0xd0 \<or> f_fc f = 0x10 \<or> f_fc f = 0x30) \<or> f_ethertype f = 0x8e88 \<or> f_ethertype f = 0xb488"

text \<open>The counters of a queue when one of its frames is pushed; a warning when the last retry is not the expected frame.\<close>

definition push_retry :: "tx_frame \<Rightarrow> tx_sys \<Rightarrow> tx_sys" where
  "push_retry f S =
     (let x = f_txq f; q = txqs S x in
      if q_nb_retry q \<noteq> 0 then
        if q_nb_retry q - 1 = 0
        then upd_usb (log_tx (if q_last_retry q \<noteq> Some (f_id f) then [WarnRetry (f_id f)] else []))
               (upd_txq x (\<lambda>q. q\<lparr>q_nb_retry := q_nb_retry q - 1, q_last_retry := None\<rparr>) S)
        else upd_txq x (\<lambda>q. q\<lparr>q_nb_retry := q_nb_retry q - 1\<rparr>) S
      else upd_txq x (\<lambda>q. q\<lparr>q_pkt_sent := q_pkt_sent q + 1\<rparr>) S)"

definition rwnx_tx_push :: "tx_mem \<Rightarrow> tx_frame \<Rightarrow> tx_sys \<Rightarrow> tx_sys option" where
  "rwnx_tx_push M f S =
     (let x = f_txq f;
          hw_queue = q_hwq (txqs S x);
          S = push_retry f S;
          f = f\<lparr>f_hwq := hw_queue\<rparr>;
          (f, S) = (case f_sta f of Some s \<Rightarrow> rwnx_set_more_data_flag s f S | None \<Rightarrow> (f, S));
          S = upd_txq x (\<lambda>q. q\<lparr>q_pkt_pushed := q_pkt_pushed q + 1,
                               q_push_limit := (if q_push_limit q \<noteq> 0 then q_push_limit q - 1 else q_push_limit q)\<rparr>) S;
          (f, S) = (if needs_cfm f
             then let f = f\<lparr>f_need_cfm := True, f_status_desc := 0x80000000 OR txdesc_free_idx (usb_env S)\<rparr>
                  in (f, S\<lparr>usb_env := aicwf_usb_host_txdesc_push f (usb_env S)\<rparr>)
             else (f\<lparr>f_need_cfm := False, f_mgmt := f_mgmt f \<or> f_raw f,
                     f_status_desc := (case f_fixed f of Some r \<Rightarrow> 0x40000000 OR r | None \<Rightarrow> 0)\<rparr>, S))
      in do { D \<leftarrow> aicwf_frame_tx M f (usbdev S);
              Some (S\<lparr>usbdev := D, cfm_balance := (cfm_balance S)(hw_queue := cfm_balance S hw_queue + 1)\<rparr>) })"

section \<open>Processing a hardware queue\<close>

definition rwnx_txq_get_credits :: "rwnx_txq \<Rightarrow> int" where
  "rwnx_txq_get_credits q =
     (if q_push_limit q \<noteq> 0 \<and> sint (q_credits q) > uint (q_push_limit q) then uint (q_push_limit q) else sint (q_credits q))"

text \<open>Whether the queue is finished for now, and the frames to push.\<close>

definition rwnx_txq_get_skb_to_push :: "nat \<Rightarrow> tx_sys \<Rightarrow> bool \<times> tx_frame list \<times> tx_sys" where
  "rwnx_txq_get_skb_to_push x S =
     (let q = txqs S x; nb_ready = int (length (q_sk_list q)); credits = rwnx_txq_get_credits q in
      if credits \<ge> nb_ready then (True, q_sk_list q, upd_txq x (\<lambda>q. q\<lparr>q_sk_list := []\<rparr>) S)
      else (q_push_limit q \<noteq> 0 \<and> credits = uint (q_push_limit q), take (nat credits) (q_sk_list q),
            upd_txq x (\<lambda>q. q\<lparr>q_sk_list := drop (nat credits) (q_sk_list q)\<rparr>) S))"

fun push_all :: "tx_mem \<Rightarrow> tx_frame list \<Rightarrow> tx_sys \<Rightarrow> tx_sys option" where
  "push_all M [] S = Some S"
| "push_all M (f # fs) S = do { S \<leftarrow> rwnx_tx_push M f S; push_all M fs S }"

definition rotate_left :: "nat list \<Rightarrow> nat list" where
  "rotate_left l = (case l of [] \<Rightarrow> [] | x # xs \<Rightarrow> xs @ [x])"

definition after_push :: "nat \<Rightarrow> nat \<Rightarrow> bool \<Rightarrow> tx_sys \<Rightarrow> tx_sys" where
  "after_push h x txq_empty S =
     (if txq_empty then upd_txq x (\<lambda>q. q\<lparr>q_pkt_sent := 0\<rparr>) (rwnx_txq_del_from_hw_list x S)
      else if IN_HWQ_LIST \<in> q_status (txqs S x) \<and> unat (q_pkt_sent (txqs S x)) > hq_size (hwqs S h)
      then upd_hwq h (\<lambda>h. h\<lparr>hq_list := rotate_left (hq_list h)\<rparr>) (upd_txq x (\<lambda>q. q\<lparr>q_pkt_sent := 0\<rparr>) S)
      else S)"

definition end_legacy_sp :: "nat \<Rightarrow> tx_sys \<Rightarrow> tx_sys" where
  "end_legacy_sp x S =
     (let q = txqs S x in
      if q_push_limit q \<noteq> 0 then
        (case q_sta q of
           None \<Rightarrow> S
         | Some s \<Rightarrow> if q_ps_id q = LEGACY_PS_ID
             then upd_txq x (\<lambda>q. q\<lparr>q_push_limit := 0\<rparr>)
                    (upd_sta s (\<lambda>t. t\<lparr>ps_sp_cnt := (ps_sp_cnt t)(LEGACY_PS_ID := ps_sp_cnt t LEGACY_PS_ID - ucast (q_push_limit q))\<rparr>) S)
             else S)
      else S)"

definition flow_ctrl_restart :: "nat \<Rightarrow> tx_sys \<Rightarrow> tx_sys" where
  "flow_ctrl_restart x S =
     (let q = txqs S x in
      if NDEV_FLOW_CTRL \<in> q_status q \<and> length (q_sk_list q) < RWNX_NDEV_FLOW_CTRL_RESTART
      then let S = upd_txq x (\<lambda>q. q\<lparr>q_status := q_status q - {NDEV_FLOW_CTRL}\<rparr>) S
           in if tbusy (usbdev S) then S else upd_usb (stop_subqueue (q_ndev q) (q_ndev_idx q) False) S
      else S)"

text \<open>The body of the loop over the queues of a list.\<close>

definition hwq_process_txq :: "tx_mem \<Rightarrow> nat \<Rightarrow> nat \<Rightarrow> tx_sys \<Rightarrow> tx_sys option" where
  "hwq_process_txq M h x S =
     (if IN_HWQ_LIST \<notin> q_status (txqs S x) then None
      else if q_idx (txqs S x) = TXQ_INACTIVE then Some (rwnx_txq_flush x (rwnx_txq_del_from_hw_list x S))
      else if sint (q_credits (txqs S x)) \<le> 0 then None
      else if q_sk_list (txqs S x) = [] then None
      else case rwnx_txq_get_skb_to_push x S of (txq_empty, fs, S) \<Rightarrow>
        do { S \<leftarrow> push_all M fs S;
             Some (flow_ctrl_restart x (end_legacy_sp x (after_push h x txq_empty S))) })"

text \<open>The next queue is read before the body runs.\<close>

definition next_in :: "nat list \<Rightarrow> nat \<Rightarrow> nat option" where
  "next_in l x = (case dropWhile (\<lambda>y. y \<noteq> x) l of _ # y # _ \<Rightarrow> Some y | _ \<Rightarrow> None)"

partial_function (option) hwq_process_loop :: "tx_mem \<Rightarrow> nat \<Rightarrow> nat option \<Rightarrow> tx_sys \<Rightarrow> tx_sys option" where
  "hwq_process_loop M h cur S =
     (case cur of
        None \<Rightarrow> Some S
      | Some x \<Rightarrow> Option.bind (hwq_process_txq M h x S) (hwq_process_loop M h (next_in (hq_list (hwqs S h)) x)))"

definition rwnx_hwq_process :: "tx_mem \<Rightarrow> nat \<Rightarrow> tx_sys \<Rightarrow> tx_sys option" where
  "rwnx_hwq_process M h S =
     (let S = upd_hwq h (\<lambda>h. h\<lparr>need_processing := False\<rparr>) S
      in hwq_process_loop M h (case hq_list (hwqs S h) of [] \<Rightarrow> None | x # _ \<Rightarrow> Some x) S)"

fun hwq_process_ids :: "tx_mem \<Rightarrow> nat list \<Rightarrow> tx_sys \<Rightarrow> tx_sys option" where
  "hwq_process_ids M [] S = Some S"
| "hwq_process_ids M (h # hs) S =
     Option.bind (if need_processing (hwqs S h) then rwnx_hwq_process M h S else Some S) (hwq_process_ids M hs)"

definition rwnx_hwq_process_all :: "tx_mem \<Rightarrow> tx_sys \<Rightarrow> tx_sys option" where
  "rwnx_hwq_process_all M S = hwq_process_ids M (rev [0..<RWNX_HWQ_NB]) S"

definition rwnx_task :: "tx_mem \<Rightarrow> tx_sys \<Rightarrow> tx_sys option" where
  "rwnx_task M S = rwnx_hwq_process_all M S"

text \<open>
  The end of every function that sends a frame: the frame goes to its queue, and the hardware queue is
  processed. A frame whose queue is not in use is freed; it has no header yet.
\<close>

definition tx_send :: "tx_mem \<Rightarrow> tx_frame \<Rightarrow> tx_sys \<Rightarrow> tx_sys option" where
  "tx_send M f S =
     (if q_idx (txqs S (f_txq f)) = TXQ_INACTIVE then Some (upd_usb (log_tx [FreeSkb (f_id f)]) S)
      else case rwnx_txq_queue_skb f (f_txq f) False S of
        (True, S) \<Rightarrow> rwnx_hwq_process M (q_hwq (txqs S (f_txq f))) S
      | (False, S) \<Rightarrow> Some S)"

section \<open>Power save\<close>

definition count_ready :: "nat \<Rightarrow> tx_sys \<Rightarrow> tx_sys" where
  "count_ready s S =
     (if is_multicast_sta (old_ic S) s then
        upd_sta s (\<lambda>t. t\<lparr>ps_pkt_ready := (ps_pkt_ready t)(LEGACY_PS_ID := of_nat (length (q_sk_list (txqs S (rwnx_txq_sta_get S s 0)))),
                                                         UAPSD_ID := 0)\<rparr>) S
      else fold (\<lambda>x S. let p = q_ps_id (txqs S x) in
                  upd_sta s (\<lambda>t. t\<lparr>ps_pkt_ready := (ps_pkt_ready t)(p := ps_pkt_ready t p + of_nat (length (q_sk_list (txqs S x))))\<rparr>) S)
             (sta_txqs S s) (upd_sta s (\<lambda>t. t\<lparr>ps_pkt_ready := (ps_pkt_ready t)(LEGACY_PS_ID := 0, UAPSD_ID := 0)\<rparr>) S))"

definition clear_limits :: "nat \<Rightarrow> tx_sys \<Rightarrow> tx_sys" where
  "clear_limits s S = fold (\<lambda>x. upd_txq x (\<lambda>q. q\<lparr>q_push_limit := 0\<rparr>)) (sta_txqs S s) S"

definition rwnx_ps_bh_enable :: "nat \<Rightarrow> bool \<Rightarrow> tx_sys \<Rightarrow> tx_sys" where
  "rwnx_ps_bh_enable s enable S =
     (if enable then
        let S = upd_sta s (\<lambda>t. t\<lparr>ps_active := True, ps_sp_cnt := (ps_sp_cnt t)(LEGACY_PS_ID := 0, UAPSD_ID := 0)\<rparr>) S
        in count_ready s (rwnx_txq_sta_stop {STOP_STA_PS} s S)
      else
        let S = upd_sta s (\<lambda>t. t\<lparr>ps_active := False\<rparr>) S;
            S = (if is_multicast_sta (old_ic S) s
                 then upd_txq (rwnx_txq_sta_get S s 0) (\<lambda>q. q\<lparr>q_hwq := RWNX_HWQ_BE, q_push_limit := 0\<rparr>) S
                 else clear_limits s S);
            S = rwnx_txq_sta_start {STOP_STA_PS} s S;
            S = (if ps_pkt_ready (tx_stas S s) LEGACY_PS_ID \<noteq> 0 then rwnx_set_traffic_status s False LEGACY_PS_ID S else S)
        in upd_usb (log_tx [Tasklet]) S)"

text \<open>The request of a service period goes to the queues by priority; \<open>n\<close> frames are left to ask for.\<close>

definition give_limit :: "nat \<Rightarrow> nat \<Rightarrow> nat \<Rightarrow> u16 \<Rightarrow> tx_sys \<Rightarrow> tx_sys" where
  "give_limit s ps_id x n S =
     rwnx_txq_add_to_hw_list x
       (upd_sta s (\<lambda>t. t\<lparr>ps_sp_cnt := (ps_sp_cnt t)(ps_id := ps_sp_cnt t ps_id + n)\<rparr>)
         (upd_txq x (\<lambda>q. q\<lparr>q_push_limit := ucast n\<rparr>) S))"

fun dispatch_req :: "nat \<Rightarrow> nat \<Rightarrow> nat list \<Rightarrow> u16 \<Rightarrow> tx_sys \<Rightarrow> tx_sys" where
  "dispatch_req s ps_id [] n S = S"
| "dispatch_req s ps_id (x # xs) n S =
     (let q = txqs S x;
          len = of_nat (length (q_sk_list q)) :: u16;
          len = (if uint len > sint (q_credits q) then of_int (sint (q_credits q)) else len)
      in if q_ps_id q \<noteq> ps_id then dispatch_req s ps_id xs n S
         else if len = 0 then dispatch_req s ps_id xs n S
         else if len < n then dispatch_req s ps_id xs (n - len) (give_limit s ps_id x len S)
         else give_limit s ps_id x n S)"

definition rwnx_ps_bh_traffic_req :: "nat \<Rightarrow> u16 \<Rightarrow> nat \<Rightarrow> tx_sys \<Rightarrow> tx_sys" where
  "rwnx_ps_bh_traffic_req s pkt_req ps_id S =
     (if \<not> ps_active (tx_stas S s) then S
      else if pkt_req = PS_SP_INTERRUPTED \<and> ps_id = UAPSD_ID
      then clear_limits s (upd_sta s (\<lambda>t. t\<lparr>ps_sp_cnt := (ps_sp_cnt t)(ps_id := 0)\<rparr>) S)
      else let ready = uint (ps_pkt_ready (tx_stas S s) ps_id) - uint (ps_sp_cnt (tx_stas S s) ps_id) in
           if ps_sp_cnt (tx_stas S s) ps_id \<noteq> 0 \<or> ready \<le> 0 then S
           else let n = (if pkt_req = 0 \<or> uint pkt_req > ready then of_int ready else pkt_req);
                    S = upd_sta s (\<lambda>t. t\<lparr>ps_sp_cnt := (ps_sp_cnt t)(ps_id := 0)\<rparr>) S;
                    S = (if is_multicast_sta (old_ic S) s
                         then let x = rwnx_txq_sta_get S s 0;
                                  c = sint (q_credits (txqs S x));
                                  n = (if uint n > c then of_int c else n)
                              in give_limit s ps_id x n S
                         else dispatch_req s ps_id (sta_txqs_prio S s) n S)
                in upd_usb (log_tx [Tasklet]) S)"

section \<open>Confirmations\<close>

definition tx_done :: "u32 \<Rightarrow> bool" where "tx_done st = bit st 0"
definition retry_required :: "u32 \<Rightarrow> bool" where "retry_required st = bit st 1"
definition sw_retry_required :: "u32 \<Rightarrow> bool" where "sw_retry_required st = bit st 2"
definition acknowledged :: "u32 \<Rightarrow> bool" where "acknowledged st = bit st 3"

definition rwnx_txq_confirm_any :: "nat \<Rightarrow> nat \<Rightarrow> tx_sys \<Rightarrow> tx_sys" where
  "rwnx_txq_confirm_any x h S =
     (let S = upd_txq x (\<lambda>q. q\<lparr>q_pkt_pushed := (if q_pkt_pushed q \<noteq> 0 then q_pkt_pushed q - 1 else q_pkt_pushed q)\<rparr>) S;
          S = upd_hwq h (\<lambda>h. h\<lparr>need_processing := True\<rparr>) S
      in S\<lparr>cfm_balance := (cfm_balance S)(h := cfm_balance S h - 1)\<rparr>)"

definition rwnx_tx_retry :: "tx_frame \<Rightarrow> bool \<Rightarrow> tx_sys \<Rightarrow> tx_sys" where
  "rwnx_tx_retry f sw_retry S =
     (let f = (if sw_retry then f else f\<lparr>f_retry := True\<rparr>);
          f = f\<lparr>f_more := False\<rparr>;
          x = f_txq f;
          S = upd_txq x (\<lambda>q. q\<lparr>q_credits := q_credits q + 1\<rparr>) S;
          S = (if sint (q_credits (txqs S x)) > 0 then rwnx_txq_start {STOP_FULL} x S else S)
      in snd (rwnx_txq_queue_skb f x True S))"

definition rwnx_txdatacfm :: "tx_frame \<Rightarrow> u32 \<Rightarrow> tx_sys \<Rightarrow> int \<times> tx_sys" where
  "rwnx_txdatacfm f st S =
     (let free = upd_usb (log_tx [FreeHdr (f_id f), FreeSkb (f_id f)]); x = f_txq f in
      if st = 0 then (- 1, S)
      else if ud_state (usbdev S) = USB_DOWN_ST then (0, free S)
      else let S = rwnx_txq_confirm_any x (f_hwq f) S in
        if \<not> f_mgmt f \<and> q_idx (txqs S x) \<noteq> TXQ_INACTIVE \<and> (retry_required st \<or> sw_retry_required st)
        then (0, rwnx_tx_retry f (sw_retry_required st) S)
        else let S = (if f_mgmt f then upd_usb (log_tx [MgmtStatus (f_id f) (acknowledged st)]) S else S);
                 S = (if q_idx (txqs S x) \<noteq> TXQ_INACTIVE \<and> q_push_limit (txqs S x) \<noteq> 0 \<and> STOP_FULL \<notin> q_status (txqs S x)
                      then rwnx_txq_add_to_hw_list x S else S)
             in (0, free S))"

text \<open>The confirmation of the firmware: a status and the index of a descriptor.\<close>

definition aicwf_usb_host_tx_cfm_handler :: "u32 \<Rightarrow> u32 \<Rightarrow> tx_sys \<Rightarrow> tx_sys" where
  "aicwf_usb_host_tx_cfm_handler status used_idx S =
     (let i = unat used_idx mod USB_TXDESC_CNT;
          host_id = tx_host_id (usb_env S) i;
          S = S\<lparr>usb_env := (usb_env S)\<lparr>tx_host_id := (tx_host_id (usb_env S))(i := None)\<rparr>\<rparr>
      in case host_id of
           None \<Rightarrow> S\<lparr>usb_env := (usb_env S)\<lparr>txdesc_used_idx := used_idx\<rparr>\<rparr>
         | Some f \<Rightarrow> (case rwnx_txdatacfm f status S of (r, S) \<Rightarrow>
             if r \<noteq> 0
             then S\<lparr>usb_env := (usb_env S)\<lparr>txdesc_used_idx := used_idx, tx_host_id := (tx_host_id (usb_env S))(i := Some f)\<rparr>\<rparr>
             else S))"

definition rwnx_txq_credit_update :: "nat \<Rightarrow> nat \<Rightarrow> tx_sys \<Rightarrow> tx_sys" where
  "rwnx_txq_credit_update s tid S =
     (let x = rwnx_txq_sta_get S s tid in
      if q_idx (txqs S x) \<noteq> TXQ_INACTIVE
      then (if sint (q_credits (txqs S x)) \<le> 0 then rwnx_txq_stop {STOP_FULL} x S else rwnx_txq_start {STOP_FULL} x S)
      else S)"

section \<open>Stations and access points\<close>

text \<open>The queue part of adding a station, removing it, and of starting an access point.\<close>

definition sta_add :: "nat \<Rightarrow> bool \<Rightarrow> tx_sys \<Rightarrow> tx_sys option" where
  "sta_add s pm_state S = do {
     let v = ts_vif (tx_stas S s);
     S \<leftarrow> rwnx_txq_sta_init s (rwnx_txq_vif_get_status S v) S;
     let S = S\<lparr>tx_vifs := (tx_vifs S)(v := (tx_vifs S v)\<lparr>tv_sta_list := tv_sta_list (tx_vifs S v) @ [s]\<rparr>)\<rparr>;
     Some (rwnx_ps_bh_enable s (ps_active (tx_stas S s) \<or> pm_state) S) }"

definition sta_del :: "nat \<Rightarrow> tx_sys \<Rightarrow> tx_sys" where
  "sta_del s S =
     (let v = ts_vif (tx_stas S s);
          S = upd_sta s (\<lambda>t. t\<lparr>ps_active := False\<rparr>) S;
          S = S\<lparr>tx_vifs := (tx_vifs S)(v := (tx_vifs S v)\<lparr>tv_sta_list := remove1 s (tv_sta_list (tx_vifs S v))\<rparr>)\<rparr>
      in rwnx_txq_sta_deinit s S)"

definition ap_start :: "nat \<Rightarrow> bool \<Rightarrow> tx_sys \<Rightarrow> tx_sys option" where
  "ap_start vif on_channel S =
     rwnx_txq_vif_init vif (if on_channel then {} else {STOP_CHAN})
       (upd_sta (bcmc_index (tx_vifs S vif)) (\<lambda>t. t\<lparr>ts_vif := vif, ps_active := False\<rparr>) S)"

end
