(* ===== verification/TxQueueInv.thy ===== *)
theory TxQueueInv
  imports TxPush
begin

text \<open>
  The invariant of the transmit queues and its preservation: a queue is linked in the list of its
  hardware queue exactly when its flag says so, a linked queue is in use and has frames, its credits are
  positive, the limit of a service period never exceeds what is queued.
\<close>

section \<open>The invariant\<close>

definition queue_ok :: "bool \<Rightarrow> int \<Rightarrow> nat \<Rightarrow> rwnx_txq \<Rightarrow> bool" where
  "queue_ok old n x q \<longleftrightarrow>
     (IN_HWQ_LIST \<in> q_status q \<longrightarrow> q_idx q \<noteq> TXQ_INACTIVE \<and> q_sk_list q \<noteq> []) \<and>
     (q_idx q = TXQ_INACTIVE \<longrightarrow> q_sk_list q = [] \<and> 0 \<le> sint (q_credits q)) \<and>
     (q_idx q \<noteq> TXQ_INACTIVE \<longrightarrow> 0 < sint (q_credits q) \<and> sint (q_credits q) \<le> 64 + n \<and>
        unat (q_push_limit q) \<le> length (q_sk_list q) \<and>
        (NX_FIRST_VIF_TXQ_IDX old \<le> x \<and> x < NX_FIRST_UNK_TXQ_IDX old \<longrightarrow> q_hwq q = RWNX_HWQ_BE)) \<and>
     (\<forall>f \<in> set (q_sk_list q). f_txq f = x)"

definition sched_ok :: "(nat \<Rightarrow> rwnx_txq) \<Rightarrow> (nat \<Rightarrow> nat list) \<Rightarrow> bool" where
  "sched_ok qs ls \<longleftrightarrow> (\<forall>h. distinct (ls h)) \<and>
     (\<forall>x h. x \<in> set (ls h) \<longleftrightarrow> IN_HWQ_LIST \<in> q_status (qs x) \<and> q_hwq (qs x) = h)"

definition hwl :: "tx_sys \<Rightarrow> nat \<Rightarrow> nat list" where
  "hwl S h = hq_list (hwqs S h)"

definition tx_ok :: "int \<Rightarrow> tx_sys \<Rightarrow> bool" where
  "tx_ok n S \<longleftrightarrow> sched_ok (txqs S) (hwl S) \<and> (\<forall>x. queue_ok (old_ic S) n x (txqs S x)) \<and> (\<forall>s. ts_vif (tx_stas S s) < NX_VIRT_DEV_MAX)"

text \<open>What the invariant looks at.\<close>

definition core :: "tx_sys \<Rightarrow> (nat \<Rightarrow> rwnx_txq) \<times> (nat \<Rightarrow> nat list) \<times> bool \<times> (nat \<Rightarrow> nat)" where
  "core S = (txqs S, hwl S, old_ic S, \<lambda>s. ts_vif (tx_stas S s))"

named_theorems core_simps

lemma tx_ok_core: "core S = core S' \<Longrightarrow> tx_ok n S \<longleftrightarrow> tx_ok n S'"
proof -
  assume a: "core S = core S'"
  then have "\<forall>s. ts_vif (tx_stas S s) = ts_vif (tx_stas S' s)" by (simp add: core_def fun_eq_iff)
  then show ?thesis using a by (simp add: tx_ok_def core_def)
qed

lemma core_usb [core_simps]: "core (S\<lparr>usbdev := D\<rparr>) = core S"
  and core_env [core_simps]: "core (S\<lparr>usb_env := E\<rparr>) = core S"
  and core_bal [core_simps]: "core (S\<lparr>cfm_balance := B\<rparr>) = core S"
  and core_vifs [core_simps]: "core (S\<lparr>tx_vifs := V\<rparr>) = core S"
  by (simp_all add: core_def hwl_def fun_eq_iff)

lemma core_sta [core_simps]: "(\<And>s. ts_vif (T s) = ts_vif (tx_stas S s)) \<Longrightarrow> core (S\<lparr>tx_stas := T\<rparr>) = core S"
  by (simp add: core_def hwl_def fun_eq_iff)

lemma core_hwqs [core_simps]: "(\<And>h. hq_list (H h) = hq_list (hwqs S h)) \<Longrightarrow> core (S\<lparr>hwqs := H\<rparr>) = core S"
  by (simp add: core_def hwl_def fun_eq_iff)

lemma tx_ok_usb [simp]: "tx_ok n (S\<lparr>usbdev := D\<rparr>) = tx_ok n S"
  by (rule tx_ok_core) (simp add: core_simps)

lemma tx_ok_env [simp]: "tx_ok n (S\<lparr>usb_env := E\<rparr>) = tx_ok n S"
  by (rule tx_ok_core) (simp add: core_simps)

lemma tx_ok_bal [simp]: "tx_ok n (S\<lparr>cfm_balance := B\<rparr>) = tx_ok n S"
  by (rule tx_ok_core) (simp add: core_simps)

lemma tx_ok_vifs [simp]: "tx_ok n (S\<lparr>tx_vifs := V\<rparr>) = tx_ok n S"
  by (rule tx_ok_core) (simp add: core_simps)

lemma tx_ok_sta: "(\<And>s. ts_vif (T s) = ts_vif (tx_stas S s)) \<Longrightarrow> tx_ok n (S\<lparr>tx_stas := T\<rparr>) = tx_ok n S"
  by (rule tx_ok_core) (simp add: core_simps)

lemma tx_ok_hwqs: "(\<And>h. hq_list (H h) = hq_list (hwqs S h)) \<Longrightarrow> tx_ok n (S\<lparr>hwqs := H\<rparr>) = tx_ok n S"
  by (rule tx_ok_core) (simp add: core_simps)

lemma queue_ok_mono: "queue_ok old n x q \<Longrightarrow> n \<le> m \<Longrightarrow> queue_ok old m x q"
  by (auto simp: queue_ok_def)

lemma tx_ok_mono: "tx_ok n S \<Longrightarrow> n \<le> m \<Longrightarrow> tx_ok m S"
  using queue_ok_mono unfolding tx_ok_def by blast

section \<open>A queue and the lists\<close>

text \<open>A change of one queue that neither links nor unlinks it.\<close>

lemma tx_ok_upd:
  assumes "tx_ok n S" "queue_ok (old_ic S) n x q"
    "IN_HWQ_LIST \<in> q_status q \<longleftrightarrow> IN_HWQ_LIST \<in> q_status (txqs S x)"
    "IN_HWQ_LIST \<in> q_status q \<Longrightarrow> q_hwq q = q_hwq (txqs S x)"
  shows "tx_ok n (S\<lparr>txqs := (txqs S)(x := q)\<rparr>)"
  using assms by (auto simp: tx_ok_def sched_ok_def hwl_def)

lemma tx_ok_queue: "tx_ok n S \<Longrightarrow> queue_ok (old_ic S) n x (txqs S x)"
  by (simp add: tx_ok_def)

lemma tx_ok_linked: "tx_ok n S \<Longrightarrow> x \<in> set (hq_list (hwqs S h)) \<longleftrightarrow> IN_HWQ_LIST \<in> q_status (txqs S x) \<and> q_hwq (txqs S x) = h"
  by (simp add: tx_ok_def sched_ok_def hwl_def)

lemma tx_ok_distinct: "tx_ok n S \<Longrightarrow> distinct (hq_list (hwqs S h))"
  by (simp add: tx_ok_def sched_ok_def hwl_def)

lemma tx_ok_add:
  assumes "tx_ok n S" "q_idx (txqs S x) \<noteq> TXQ_INACTIVE" "q_sk_list (txqs S x) \<noteq> []"
  shows "tx_ok n (rwnx_txq_add_to_hw_list x S)"
proof (cases "IN_HWQ_LIST \<in> q_status (txqs S x)")
  case True
  then show ?thesis using assms(1) by (simp add: rwnx_txq_add_to_hw_list_def)
next
  case False
  let ?h = "q_hwq (txqs S x)"
  let ?qs = "(txqs S)(x := (txqs S x)\<lparr>q_status := insert IN_HWQ_LIST (q_status (txqs S x))\<rparr>)"
  let ?ls = "(hwl S)(?h := hwl S ?h @ [x])"
  have "x \<notin> set (hwl S h)" for h using tx_ok_linked[OF assms(1)] False by (simp add: hwl_def)
  then have "sched_ok ?qs ?ls" using assms(1) by (auto simp: tx_ok_def sched_ok_def)
  moreover have "hwl (rwnx_txq_add_to_hw_list x S) = ?ls" "txqs (rwnx_txq_add_to_hw_list x S) = ?qs"
    "old_ic (rwnx_txq_add_to_hw_list x S) = old_ic S" "tx_stas (rwnx_txq_add_to_hw_list x S) = tx_stas S"
    using False by (auto simp: rwnx_txq_add_to_hw_list_def hwl_def fun_eq_iff)
  moreover have "queue_ok (old_ic S) n y (?qs y)" for y
    using assms tx_ok_queue[OF assms(1), of y] by (auto simp: queue_ok_def)
  ultimately show ?thesis using assms(1) by (simp add: tx_ok_def)
qed

text \<open>Unlinking a queue, whatever else is changed in it at the same time.\<close>

lemma tx_ok_unlink:
  assumes "sched_ok (txqs S) (hwl S)" "\<And>y. y \<noteq> x \<Longrightarrow> queue_ok (old_ic S) n y (txqs S y)" "\<And>s. ts_vif (tx_stas S s) < NX_VIRT_DEV_MAX"
    "queue_ok (old_ic S) n x ((txqs S x)\<lparr>q_status := q_status (txqs S x) - {IN_HWQ_LIST}\<rparr>)"
  shows "tx_ok n (rwnx_txq_del_from_hw_list x S)"
proof (cases "IN_HWQ_LIST \<in> q_status (txqs S x)")
  case True
  let ?qs = "(txqs S)(x := (txqs S x)\<lparr>q_status := q_status (txqs S x) - {IN_HWQ_LIST}\<rparr>)"
  let ?ls = "\<lambda>h. remove1 x (hwl S h)"
  have "sched_ok ?qs ?ls" using assms(1) by (auto simp: sched_ok_def set_remove1_eq)
  moreover have "hwl (rwnx_txq_del_from_hw_list x S) = ?ls" "txqs (rwnx_txq_del_from_hw_list x S) = ?qs"
    "old_ic (rwnx_txq_del_from_hw_list x S) = old_ic S" "tx_stas (rwnx_txq_del_from_hw_list x S) = tx_stas S"
    using True by (auto simp: rwnx_txq_del_from_hw_list_def hwl_def fun_eq_iff)
  moreover have "queue_ok (old_ic S) n y (?qs y)" for y using assms(2,4) by auto
  ultimately show ?thesis using assms(3) by (simp add: tx_ok_def)
next
  case False
  then have "(txqs S x)\<lparr>q_status := q_status (txqs S x) - {IN_HWQ_LIST}\<rparr> = txqs S x" by simp
  then have "queue_ok (old_ic S) n x (txqs S x)" using assms(4) by (simp only:)
  then have "queue_ok (old_ic S) n y (txqs S y)" for y using assms(2)[of y] by (cases "y = x") simp_all
  then show ?thesis using False assms(1,3) by (simp add: rwnx_txq_del_from_hw_list_def tx_ok_def)
qed

lemma del_fields [simp]:
  "old_ic (rwnx_txq_del_from_hw_list x S) = old_ic S" "tx_stas (rwnx_txq_del_from_hw_list x S) = tx_stas S"
  "tx_vifs (rwnx_txq_del_from_hw_list x S) = tx_vifs S" "usbdev (rwnx_txq_del_from_hw_list x S) = usbdev S"
  "usb_env (rwnx_txq_del_from_hw_list x S) = usb_env S"
  by (simp_all add: rwnx_txq_del_from_hw_list_def)

lemma add_fields [simp]:
  "old_ic (rwnx_txq_add_to_hw_list x S) = old_ic S" "tx_stas (rwnx_txq_add_to_hw_list x S) = tx_stas S"
  "tx_vifs (rwnx_txq_add_to_hw_list x S) = tx_vifs S" "usbdev (rwnx_txq_add_to_hw_list x S) = usbdev S"
  "usb_env (rwnx_txq_add_to_hw_list x S) = usb_env S"
  by (simp_all add: rwnx_txq_add_to_hw_list_def)

lemma txqs_del: "txqs (rwnx_txq_del_from_hw_list x S) =
    (txqs S)(x := (txqs S x)\<lparr>q_status := q_status (txqs S x) - {IN_HWQ_LIST}\<rparr>)"
  by (auto simp: rwnx_txq_del_from_hw_list_def fun_eq_iff)

lemma txqs_add: "txqs (rwnx_txq_add_to_hw_list x S) =
    (txqs S)(x := (txqs S x)\<lparr>q_status := insert IN_HWQ_LIST (q_status (txqs S x))\<rparr>)"
  by (auto simp: rwnx_txq_add_to_hw_list_def fun_eq_iff insert_absorb)

lemma tx_ok_del:
  assumes "tx_ok n S"
  shows "tx_ok n (rwnx_txq_del_from_hw_list x S)"
  using assms tx_ok_queue[OF assms, of x] by (intro tx_ok_unlink) (auto simp: tx_ok_def queue_ok_def)

section \<open>Start, stop, init, deinit\<close>

lemma tx_ok_start:
  assumes "tx_ok n S" "IN_HWQ_LIST \<notin> reason"
  shows "tx_ok n (rwnx_txq_start reason x S)"
proof -
  let ?S = "upd_txq x (\<lambda>q. q\<lparr>q_status := q_status q - reason\<rparr>) S"
  have "tx_ok n ?S" using assms tx_ok_queue[OF assms(1), of x] by (intro tx_ok_upd) (auto simp: queue_ok_def)
  then show ?thesis using assms(1) tx_ok_add[of n ?S x] by (auto simp: rwnx_txq_start_def Let_def)
qed

lemma tx_ok_stop:
  assumes "tx_ok n S" "IN_HWQ_LIST \<notin> reason"
  shows "tx_ok n (rwnx_txq_stop reason x S)"
proof -
  have "tx_ok n (upd_txq x (\<lambda>q. q\<lparr>q_status := q_status q \<union> reason\<rparr>) S)"
    using assms tx_ok_queue[OF assms(1), of x] by (intro tx_ok_upd) (auto simp: queue_ok_def)
  then show ?thesis using assms(1) tx_ok_del by (auto simp: rwnx_txq_stop_def)
qed

lemma fold_ok: "(\<And>x S. x \<in> set xs \<Longrightarrow> P S \<Longrightarrow> P (f x S)) \<Longrightarrow> P S \<Longrightarrow> P (fold f xs S)"
  by (induction xs arbitrary: S) auto

lemma tx_ok_sta_start: "tx_ok n S \<Longrightarrow> IN_HWQ_LIST \<notin> reason \<Longrightarrow> tx_ok n (rwnx_txq_sta_start reason s S)"
  unfolding rwnx_txq_sta_start_def by (rule fold_ok) (simp_all add: tx_ok_start)

lemma tx_ok_sta_stop: "tx_ok n S \<Longrightarrow> IN_HWQ_LIST \<notin> reason \<Longrightarrow> tx_ok n (rwnx_txq_sta_stop reason s S)"
  unfolding rwnx_txq_sta_stop_def by (rule fold_ok) (simp_all add: tx_ok_stop)

lemma fold_bind_ok: "(\<And>s S S'. f s S = Some S' \<Longrightarrow> P S \<Longrightarrow> P S') \<Longrightarrow> P S \<Longrightarrow>
    fold (\<lambda>s r. Option.bind r (f s)) l (Some S) = Some S' \<Longrightarrow> P S'"
proof (induction l arbitrary: S)
  case (Cons s l)
  have "fold (\<lambda>s r. Option.bind r (f s)) l None = None" by (induction l) simp_all
  then show ?case using Cons by (cases "f s S") auto
qed simp

lemma for_each_sta_ok:
  assumes "rwnx_txq_vif_for_each_sta f vif S = Some S'" "P S" "\<And>s S S'. f s S = Some S' \<Longrightarrow> P S \<Longrightarrow> P S'"
  shows "P S'"
proof -
  note F = fold_bind_ok[of "\<lambda>s. f (Some s)" P S _ S', OF assms(3,2)]
  show ?thesis
    using assms(1,2) F unfolding rwnx_txq_vif_for_each_sta_def Let_def
    by (auto simp: bind_eq_Some_conv split: nl80211_iftype.splits if_splits intro: assms(3))
qed

lemma tx_ok_vif_start:
  assumes "rwnx_txq_vif_start vif reason S = Some S'" "tx_ok n S" "IN_HWQ_LIST \<notin> reason"
  shows "tx_ok n S'"
proof -
  have *: "tx_ok n S1 \<Longrightarrow> rwnx_txq_vif_for_each_sta (\<lambda>s S. map_option (\<lambda>s. rwnx_txq_sta_start reason s S) s) vif S1 = Some S2 \<Longrightarrow> tx_ok n S2" for S1 S2
    by (erule for_each_sta_ok[where P="tx_ok n"]) (use assms(3) in \<open>auto simp: tx_ok_sta_start\<close>)
  show ?thesis using assms * by (auto simp: rwnx_txq_vif_start_def Let_def bind_eq_Some_conv tx_ok_start tx_ok_sta_start
      split: if_splits option.splits)
qed

lemma tx_ok_vif_stop:
  assumes "rwnx_txq_vif_stop vif reason S = Some S'" "tx_ok n S" "IN_HWQ_LIST \<notin> reason"
  shows "tx_ok n S'"
proof -
  have *: "tx_ok n S1 \<Longrightarrow> rwnx_txq_vif_for_each_sta (\<lambda>s S. Some (case s of None \<Rightarrow> S | Some s \<Rightarrow> rwnx_txq_sta_stop reason s S)) vif S1 = Some S2 \<Longrightarrow> tx_ok n S2" for S1 S2
    by (erule for_each_sta_ok[where P="tx_ok n"]) (use assms(3) in \<open>auto simp: tx_ok_sta_stop split: option.splits\<close>)
  show ?thesis using assms * by (auto simp: rwnx_txq_vif_stop_def Let_def bind_eq_Some_conv tx_ok_stop split: if_splits)
qed

lemma tx_ok_deinit:
  assumes "tx_ok n S"
  shows "tx_ok n (rwnx_txq_deinit x S)"
proof -
  let ?S = "rwnx_txq_del_from_hw_list x S"
  have ok: "tx_ok n ?S" using tx_ok_del[OF assms] .
  then have ok': "tx_ok n (upd_txq x (\<lambda>q. q\<lparr>q_idx := TXQ_INACTIVE, q_sk_list := []\<rparr>) ?S)"
    using tx_ok_queue[OF ok, of x] by (intro tx_ok_upd) (auto simp: queue_ok_def txqs_del)
  show ?thesis
  proof (cases "q_idx (txqs S x) = TXQ_INACTIVE")
    case True
    then show ?thesis using assms by (simp add: rwnx_txq_deinit_def)
  next
    case False
    then have c: "core (rwnx_txq_deinit x S) = core (upd_txq x (\<lambda>q. q\<lparr>q_idx := TXQ_INACTIVE, q_sk_list := []\<rparr>) ?S)"
      by (simp add: rwnx_txq_deinit_def rwnx_txq_flush_def core_def hwl_def fun_eq_iff)
    show ?thesis using iffD2[OF tx_ok_core[OF c] ok'] .
  qed
qed

lemma tx_ok_init:
  assumes "rwnx_txq_init x idx st hwq tid sta ndev S = Some S'" "tx_ok n S" "IN_HWQ_LIST \<notin> q_status (txqs S x)" "IN_HWQ_LIST \<notin> st"
    "0 \<le> n" "NX_FIRST_VIF_TXQ_IDX (old_ic S) \<le> x \<and> x < NX_FIRST_UNK_TXQ_IDX (old_ic S) \<longrightarrow> hwq = RWNX_HWQ_BE"
  shows "tx_ok n S'"
proof -
  obtain nd where "S' = upd_txq x (\<lambda>_. \<lparr>q_idx = idx mod 65536, q_status = st, q_credits = NX_TXQ_INITIAL_CREDITS, q_pkt_sent = 0,
           q_pkt_pushed = 0, q_sk_list = [], q_last_retry = None, q_hwq = hwq, q_nb_retry = 0, q_push_limit = 0, q_tid = tid,
           q_sta = sta, q_ps_id = LEGACY_PS_ID, q_ndev_idx = nd, q_ndev = ndev\<rparr>) S"
    using assms(1) by (auto simp: rwnx_txq_init_def Let_def)
  then show ?thesis using assms(2-6)
    by (auto intro!: tx_ok_upd simp: queue_ok_def NX_TXQ_INITIAL_CREDITS_def)
qed

section \<open>Pushing\<close>

text \<open>What pushing leaves of a queue: its counters change, the rest stays.\<close>

definition pushed :: "nat \<Rightarrow> rwnx_txq \<Rightarrow> rwnx_txq \<Rightarrow> bool" where
  "pushed k q q' \<longleftrightarrow> (\<exists>a b c d. q' = q\<lparr>q_nb_retry := a, q_last_retry := b, q_pkt_sent := c, q_pkt_pushed := d,
     q_push_limit := of_nat (unat (q_push_limit q) - k)\<rparr>)"

lemma pushed_0: "pushed 0 q q"
  unfolding pushed_def by (rule exI[of _ "q_nb_retry q"], rule exI[of _ "q_last_retry q"], rule exI[of _ "q_pkt_sent q"],
      rule exI[of _ "q_pkt_pushed q"]) simp

lemma unat_dec: "unat (of_nat (unat (w :: u8) - k) :: u8) = unat w - k"
proof -
  have "unat w - k < 256" using unsigned_less[of w, where ?'a = nat] by simp
  then show ?thesis by (simp add: unat_of_nat)
qed

lemma pushed_trans: "pushed k q q' \<Longrightarrow> pushed j q' q'' \<Longrightarrow> pushed (k + j) q q''"
  unfolding pushed_def by (force simp: unat_dec)

lemma pushed_fields:
  assumes "pushed k q q'"
  shows "q_idx q' = q_idx q" "q_status q' = q_status q" "q_credits q' = q_credits q" "q_sk_list q' = q_sk_list q"
    "q_hwq q' = q_hwq q" "q_sta q' = q_sta q" "q_ps_id q' = q_ps_id q" "q_tid q' = q_tid q" "q_ndev q' = q_ndev q"
    "q_ndev_idx q' = q_ndev_idx q" "unat (q_push_limit q') = unat (q_push_limit q) - k"
  using assms by (auto simp: pushed_def unat_dec)

text \<open>The rest of the state that pushing leaves alone.\<close>

definition push_rest :: "tx_sys \<Rightarrow> (nat \<Rightarrow> rwnx_hwq) \<times> (nat \<Rightarrow> tx_vif) \<times> bool \<times> (nat \<Rightarrow> nat) \<times> (nat \<Rightarrow> bool)" where
  "push_rest S = (hwqs S, tx_vifs S, old_ic S, \<lambda>s. ts_vif (tx_stas S s), \<lambda>s. ps_active (tx_stas S s))"

lemma dec_eq: "(if (w :: u8) \<noteq> 0 then w - 1 else w) = of_nat (unat w - 1)"
proof (cases "w = 0")
  case False
  then have "unat w \<noteq> 0" by (simp add: unat_eq_0)
  then show ?thesis using False by (simp add: of_nat_diff)
qed simp

lemma push_retry_shape: "\<exists>a b c. txqs (push_retry f S) = (txqs S)(f_txq f := (txqs S (f_txq f))\<lparr>q_nb_retry := a, q_last_retry := b, q_pkt_sent := c\<rparr>) \<and>
    push_rest (push_retry f S) = push_rest S \<and> tx_stas (push_retry f S) = tx_stas S \<and> usb_env (push_retry f S) = usb_env S"
proof -
  let ?q = "txqs S (f_txq f)"
  consider (none) "q_nb_retry ?q = 0" | (last) "q_nb_retry ?q = 1" | (some) "q_nb_retry ?q \<noteq> 0" "q_nb_retry ?q \<noteq> 1" by blast
  then show ?thesis
  proof cases
    case none
    then have p: "push_retry f S = upd_txq (f_txq f) (\<lambda>q. q\<lparr>q_pkt_sent := q_pkt_sent q + 1\<rparr>) S" by (simp add: push_retry_def Let_def)
    show ?thesis unfolding p push_rest_def
      by (intro exI[of _ "q_nb_retry ?q"] exI[of _ "q_last_retry ?q"] exI[of _ "q_pkt_sent ?q + 1"]) simp
  next
    case last
    then show ?thesis unfolding push_retry_def Let_def push_rest_def
      by (intro exI[of _ "q_nb_retry ?q - 1"] exI[of _ None] exI[of _ "q_pkt_sent ?q"]) simp
  next
    case some
    then show ?thesis unfolding push_retry_def Let_def push_rest_def
      by (intro exI[of _ "q_nb_retry ?q - 1"] exI[of _ "q_last_retry ?q"] exI[of _ "q_pkt_sent ?q"]) simp
  qed
qed

lemma more_data_shape:
  assumes "rwnx_set_more_data_flag s f S = (f', S')"
  shows "f_txq f' = f_txq f" "txqs S' = txqs S" "push_rest S' = push_rest S" "usb_env S' = usb_env S"
    "f_id f' = f_id f" "f_sta f' = f_sta f"
  using assms
  by (auto simp: rwnx_set_more_data_flag_def Let_def push_rest_def rwnx_set_traffic_status_def fun_eq_iff split: if_splits)

definition mem_ok :: "tx_mem \<Rightarrow> bool" where
  "mem_ok M \<longleftrightarrow> (\<forall>i. mem_copy M i \<and> mem_align M i)"

lemma frame_tx_total: "mem_ok M \<Longrightarrow> \<exists>D'. aicwf_frame_tx M f D = Some D'"
  by (auto simp: mem_ok_def aicwf_frame_tx_def aicwf_usb_bus_txdata_def Let_def split: prod.splits option.splits)

lemma tx_push_shape:
  assumes "rwnx_tx_push M f S = Some S'"
  shows "\<exists>q'. pushed 1 (txqs S (f_txq f)) q' \<and> txqs S' = (txqs S)(f_txq f := q') \<and> push_rest S' = push_rest S"
proof -
  let ?x = "f_txq f"
  obtain a b c where r: "txqs (push_retry f S) = (txqs S)(?x := (txqs S ?x)\<lparr>q_nb_retry := a, q_last_retry := b, q_pkt_sent := c\<rparr>)"
    "push_rest (push_retry f S) = push_rest S" using push_retry_shape[of f S] by blast
  obtain f1 S1 where m: "(case f_sta f of Some s \<Rightarrow> rwnx_set_more_data_flag s (f\<lparr>f_hwq := q_hwq (txqs S ?x)\<rparr>) (push_retry f S)
      | None \<Rightarrow> (f\<lparr>f_hwq := q_hwq (txqs S ?x)\<rparr>, push_retry f S)) = (f1, S1)" by fastforce
  have m1: "txqs S1 = txqs (push_retry f S)" "push_rest S1 = push_rest (push_retry f S)"
    using m more_data_shape[of _ _ "push_retry f S" f1 S1] by (auto split: option.splits)
  let ?S2 = "upd_txq ?x (\<lambda>q. q\<lparr>q_pkt_pushed := q_pkt_pushed q + 1,
      q_push_limit := (if q_push_limit q \<noteq> 0 then q_push_limit q - 1 else q_push_limit q)\<rparr>) S1"
  have "\<exists>D E B. S' = ?S2\<lparr>usb_env := E, usbdev := D, cfm_balance := B\<rparr>"
  proof (cases "needs_cfm f1")
    case True
    then obtain D where "S' = ?S2\<lparr>usb_env := aicwf_usb_host_txdesc_push (f1\<lparr>f_need_cfm := True, f_status_desc := 0x80000000 OR txdesc_free_idx (usb_env S1)\<rparr>) (usb_env S1),
        usbdev := D, cfm_balance := (cfm_balance S1)(q_hwq (txqs S ?x) := cfm_balance S1 (q_hwq (txqs S ?x)) + 1)\<rparr>"
      using assms m by (auto simp: rwnx_tx_push_def Let_def bind_eq_Some_conv)
    then show ?thesis by blast
  next
    case False
    then obtain D where "S' = ?S2\<lparr>usbdev := D, cfm_balance := (cfm_balance S1)(q_hwq (txqs S ?x) := cfm_balance S1 (q_hwq (txqs S ?x)) + 1)\<rparr>"
      using assms m by (auto simp: rwnx_tx_push_def Let_def bind_eq_Some_conv)
    then have "S' = ?S2\<lparr>usb_env := usb_env S1, usbdev := D, cfm_balance := (cfm_balance S1)(q_hwq (txqs S ?x) := cfm_balance S1 (q_hwq (txqs S ?x)) + 1)\<rparr>" by simp
    then show ?thesis by blast
  qed
  then obtain D E B where S': "S' = ?S2\<lparr>usb_env := E, usbdev := D, cfm_balance := B\<rparr>" by blast
  have "txqs S' = (txqs S)(?x := (txqs S ?x)\<lparr>q_nb_retry := a, q_last_retry := b, q_pkt_sent := c, q_pkt_pushed := q_pkt_pushed (txqs S ?x) + 1,
      q_push_limit := of_nat (unat (q_push_limit (txqs S ?x)) - 1)\<rparr>)"
  proof -
    have "txqs S' = (txqs S1)(?x := (txqs S1 ?x)\<lparr>q_pkt_pushed := q_pkt_pushed (txqs S1 ?x) + 1,
        q_push_limit := (if q_push_limit (txqs S1 ?x) \<noteq> 0 then q_push_limit (txqs S1 ?x) - 1 else q_push_limit (txqs S1 ?x))\<rparr>)"
      by (simp add: S')
    then show ?thesis unfolding dec_eq m1(1) r(1) by simp
  qed
  moreover have "push_rest S' = push_rest S" using r(2) m1(2) by (simp add: S' push_rest_def)
  ultimately show ?thesis unfolding pushed_def by blast
qed

lemma bind_total: "\<exists>y. m = Some y \<Longrightarrow> \<exists>z. Option.bind m (\<lambda>y. Some (g y)) = Some z"
  by auto

lemma tx_push_total: "mem_ok M \<Longrightarrow> \<exists>S'. rwnx_tx_push M f S = Some S'"
  unfolding rwnx_tx_push_def Let_def split_def by (rule bind_total) (rule frame_tx_total)

lemma push_all_total: "mem_ok M \<Longrightarrow> \<exists>S'. push_all M fs S = Some S'"
proof (induction fs arbitrary: S)
  case (Cons f fs)
  then show ?case using tx_push_total[of M f S] by auto
qed simp

lemma push_all_shape:
  assumes "push_all M fs S = Some S'" "\<forall>f \<in> set fs. f_txq f = x"
  shows "\<exists>q'. pushed (length fs) (txqs S x) q' \<and> txqs S' = (txqs S)(x := q') \<and> push_rest S' = push_rest S"
  using assms
proof (induction fs arbitrary: S)
  case Nil
  then show ?case using pushed_0 by (intro exI[of _ "txqs S x"]) simp
next
  case (Cons f fs)
  then obtain S1 where s: "rwnx_tx_push M f S = Some S1" "push_all M fs S1 = Some S'" by (auto simp: bind_eq_Some_conv)
  have fx: "f_txq f = x" using Cons(3) by simp
  obtain q1 where q1: "pushed 1 (txqs S x) q1" "txqs S1 = (txqs S)(x := q1)" "push_rest S1 = push_rest S"
    using tx_push_shape[OF s(1)] unfolding fx by blast
  obtain q2 where q2: "pushed (length fs) (txqs S1 x) q2" "txqs S' = (txqs S1)(x := q2)" "push_rest S' = push_rest S1"
    using Cons(1)[OF s(2)] Cons(3) by (meson list.set_intros(2))
  have "pushed (length (f # fs)) (txqs S x) q2" using pushed_trans[OF q1(1), of "length fs" q2] q1(2) q2(1) by simp
  then show ?case using q1 q2 by (intro exI[of _ q2]) simp
qed

section \<open>One queue of a list\<close>

lemma credits_bounds:
  assumes "0 < sint (q_credits q)"
  shows "1 \<le> rwnx_txq_get_credits q" "rwnx_txq_get_credits q \<le> sint (q_credits q)"
    "q_push_limit q \<noteq> 0 \<Longrightarrow> rwnx_txq_get_credits q \<le> int (unat (q_push_limit q))"
proof -
  have p: "q_push_limit q \<noteq> 0 \<Longrightarrow> 1 \<le> uint (q_push_limit q)"
    using uint_nonnegative[of "q_push_limit q"] by (metis int_one_le_iff_zero_less order_less_le uint_0_iff)
  show "1 \<le> rwnx_txq_get_credits q" "rwnx_txq_get_credits q \<le> sint (q_credits q)"
    "q_push_limit q \<noteq> 0 \<Longrightarrow> rwnx_txq_get_credits q \<le> int (unat (q_push_limit q))"
    using assms p by (auto simp: rwnx_txq_get_credits_def not_less)
qed

text \<open>How many frames of a queue are pushed in one turn, and whether the queue is unlinked then.\<close>

definition turn :: "rwnx_txq \<Rightarrow> nat" where
  "turn q = min (nat (rwnx_txq_get_credits q)) (length (q_sk_list q))"

definition turn_ends :: "rwnx_txq \<Rightarrow> bool" where
  "turn_ends q \<longleftrightarrow> rwnx_txq_get_credits q \<ge> int (length (q_sk_list q)) \<or>
     q_push_limit q \<noteq> 0 \<and> rwnx_txq_get_credits q = uint (q_push_limit q)"

lemma get_skb_eq:
  assumes "0 < sint (q_credits (txqs S x))"
  shows "rwnx_txq_get_skb_to_push x S = (turn_ends (txqs S x), take (turn (txqs S x)) (q_sk_list (txqs S x)),
    upd_txq x (\<lambda>q. q\<lparr>q_sk_list := drop (turn (txqs S x)) (q_sk_list (txqs S x))\<rparr>) S)"
proof -
  let ?q = "txqs S x"
  show ?thesis
  proof (cases "rwnx_txq_get_credits ?q \<ge> int (length (q_sk_list ?q))")
    case True
    then have "turn ?q = length (q_sk_list ?q)" by (simp add: turn_def)
    then show ?thesis using True by (simp add: rwnx_txq_get_skb_to_push_def Let_def turn_ends_def)
  next
    case False
    then have "turn ?q = nat (rwnx_txq_get_credits ?q)" by (simp add: turn_def)
    then show ?thesis using False by (simp add: rwnx_txq_get_skb_to_push_def Let_def turn_ends_def)
  qed
qed

lemma turn_pos: "0 < sint (q_credits q) \<Longrightarrow> q_sk_list q \<noteq> [] \<Longrightarrow> 1 \<le> turn q"
  using credits_bounds(1)[of q] by (cases "q_sk_list q") (auto simp: turn_def)

lemma turn_not_ends: "0 < sint (q_credits q) \<Longrightarrow> \<not> turn_ends q \<Longrightarrow> drop (turn q) (q_sk_list q) \<noteq> []"
  using credits_bounds(1)[of q] by (auto simp: turn_ends_def turn_def le_nat_iff)

lemma tx_ok_rotate:
  assumes "tx_ok n S"
  shows "tx_ok n (upd_hwq h (\<lambda>h. h\<lparr>hq_list := rotate_left (hq_list h)\<rparr>) S)"
proof -
  have r: "set (rotate_left l) = set l" "distinct (rotate_left l) = distinct l" for l
    by (cases l; auto simp: rotate_left_def)+
  show ?thesis using assms r by (auto simp: tx_ok_def sched_ok_def hwl_def)
qed

lemma end_legacy_shape: "\<exists>l. txqs (end_legacy_sp x S) = (txqs S)(x := (txqs S x)\<lparr>q_push_limit := l\<rparr>) \<and> unat l \<le> unat (q_push_limit (txqs S x)) \<and>
    hwqs (end_legacy_sp x S) = hwqs S \<and> old_ic (end_legacy_sp x S) = old_ic S \<and> (\<forall>s. ts_vif (tx_stas (end_legacy_sp x S) s) = ts_vif (tx_stas S s)) \<and>
    tx_vifs (end_legacy_sp x S) = tx_vifs S"
proof (cases "end_legacy_sp x S = S")
  case True
  then show ?thesis by (intro exI[of _ "q_push_limit (txqs S x)"]) simp
next
  case False
  then show ?thesis by (intro exI[of _ 0]) (auto simp: end_legacy_sp_def Let_def split: option.splits if_splits)
qed

lemma tx_ok_end_legacy:
  assumes "tx_ok n S"
  shows "tx_ok n (end_legacy_sp x S)"
proof -
  obtain l where l: "txqs (end_legacy_sp x S) = (txqs S)(x := (txqs S x)\<lparr>q_push_limit := l\<rparr>)" "unat l \<le> unat (q_push_limit (txqs S x))"
    "hwqs (end_legacy_sp x S) = hwqs S" "old_ic (end_legacy_sp x S) = old_ic S" "\<forall>s. ts_vif (tx_stas (end_legacy_sp x S) s) = ts_vif (tx_stas S s)"
    using end_legacy_shape[of x S] by blast
  have "tx_ok n (S\<lparr>txqs := (txqs S)(x := (txqs S x)\<lparr>q_push_limit := l\<rparr>)\<rparr>)"
    using assms l(2) tx_ok_queue[OF assms, of x] by (intro tx_ok_upd) (auto simp: queue_ok_def)
  moreover have "core (end_legacy_sp x S) = core (S\<lparr>txqs := (txqs S)(x := (txqs S x)\<lparr>q_push_limit := l\<rparr>)\<rparr>)"
    using l by (simp add: core_def hwl_def fun_eq_iff)
  ultimately show ?thesis using tx_ok_core by blast
qed

lemma flow_restart_shape: "txqs (flow_ctrl_restart x S) = (txqs S)(x := (txqs S x)\<lparr>q_status := q_status (txqs S x) -
      (if length (q_sk_list (txqs S x)) < RWNX_NDEV_FLOW_CTRL_RESTART then {NDEV_FLOW_CTRL} else {})\<rparr>)"
    "hwqs (flow_ctrl_restart x S) = hwqs S" "old_ic (flow_ctrl_restart x S) = old_ic S" "tx_stas (flow_ctrl_restart x S) = tx_stas S"
    "tx_vifs (flow_ctrl_restart x S) = tx_vifs S"
  by (auto simp: flow_ctrl_restart_def Let_def fun_eq_iff)

lemma tx_ok_flow_restart:
  assumes "tx_ok n S"
  shows "tx_ok n (flow_ctrl_restart x S)"
proof -
  let ?S = "S\<lparr>txqs := txqs (flow_ctrl_restart x S)\<rparr>"
  have "tx_ok n ?S" using assms tx_ok_queue[OF assms, of x] unfolding flow_restart_shape
    by (intro tx_ok_upd) (auto simp: queue_ok_def)
  moreover have "core (flow_ctrl_restart x S) = core ?S" by (simp add: core_def hwl_def flow_restart_shape(2-4) fun_eq_iff)
  ultimately show ?thesis using tx_ok_core by blast
qed

text \<open>What a turn does to the list and to the frames.\<close>

lemma process_txq:
  assumes "tx_ok n S" "x \<in> set (hq_list (hwqs S h))" "mem_ok M"
  shows "\<exists>S'. hwq_process_txq M h x S = Some S' \<and> tx_ok n S' \<and>
    (\<forall>y. q_sk_list (txqs S' y) = (if y = x then drop (turn (txqs S x)) (q_sk_list (txqs S x)) else q_sk_list (txqs S y))) \<and>
    hq_list (hwqs S' h) \<in> {hq_list (hwqs S h), remove1 x (hq_list (hwqs S h)), rotate_left (hq_list (hwqs S h))} \<and>
    (\<forall>g. need_processing (hwqs S' g) = need_processing (hwqs S g)) \<and> old_ic S' = old_ic S"
proof -
  let ?q = "txqs S x"
  let ?S1 = "upd_txq x (\<lambda>q. q\<lparr>q_sk_list := drop (turn ?q) (q_sk_list ?q)\<rparr>) S"
  have ql: "IN_HWQ_LIST \<in> q_status ?q" "q_hwq ?q = h" using tx_ok_linked[OF assms(1)] assms(2) by auto
  have qo: "q_idx ?q \<noteq> TXQ_INACTIVE" "q_sk_list ?q \<noteq> []" "0 < sint (q_credits ?q)" "\<forall>f \<in> set (q_sk_list ?q). f_txq f = x"
    "unat (q_push_limit ?q) \<le> length (q_sk_list ?q)"
    using tx_ok_queue[OF assms(1), of x] ql(1) by (auto simp: queue_ok_def)
  obtain S2 where S2: "push_all M (take (turn ?q) (q_sk_list ?q)) ?S1 = Some S2" using push_all_total[OF assms(3)] by blast
  have "\<forall>f \<in> set (take (turn ?q) (q_sk_list ?q)). f_txq f = x" using qo(4) by (auto dest: in_set_takeD)
  from push_all_shape[OF S2 this] obtain q2 where q2: "pushed (turn ?q) (txqs ?S1 x) q2" "txqs S2 = (txqs ?S1)(x := q2)" "push_rest S2 = push_rest ?S1"
    by (auto simp: turn_def)
  have t2: "txqs S2 = (txqs S)(x := q2)" using q2(2) by simp
  have r2: "hwqs S2 = hwqs S" "old_ic S2 = old_ic S" "tx_vifs S2 = tx_vifs S" "\<forall>s. ts_vif (tx_stas S2 s) = ts_vif (tx_stas S s)"
    using q2(3) by (simp_all add: push_rest_def fun_eq_iff)
  note f2 = pushed_fields[OF q2(1), simplified]
  have lim: "unat (q_push_limit q2) \<le> length (q_sk_list q2)" using f2 qo(5) by simp
  have sch: "sched_ok (txqs S2) (hwl S2)" using assms(1) f2 by (auto simp: tx_ok_def sched_ok_def t2 hwl_def r2)
  have qx: "queue_ok (old_ic S) n x (q2\<lparr>q_status := q_status q2 - {IN_HWQ_LIST}\<rparr>)"
    using tx_ok_queue[OF assms(1), of x] f2 lim qo(1) by (auto simp: queue_ok_def dest: in_set_dropD)
  let ?S3 = "after_push h x (turn_ends ?q) S2"
  have ok3: "tx_ok n ?S3 \<and> hq_list (hwqs ?S3 h) \<in> {hq_list (hwqs S h), remove1 x (hq_list (hwqs S h)), rotate_left (hq_list (hwqs S h))} \<and>
    (\<forall>y. q_sk_list (txqs ?S3 y) = (if y = x then drop (turn ?q) (q_sk_list ?q) else q_sk_list (txqs S y))) \<and>
    (\<forall>g. need_processing (hwqs ?S3 g) = need_processing (hwqs S g)) \<and> old_ic ?S3 = old_ic S"
  proof (cases "turn_ends ?q")
    case True
    have d: "tx_ok n (rwnx_txq_del_from_hw_list x S2)"
      using sch qx assms(1) t2 r2 by (intro tx_ok_unlink) (auto simp: tx_ok_def)
    then have "tx_ok n (upd_txq x (\<lambda>q. q\<lparr>q_pkt_sent := 0\<rparr>) (rwnx_txq_del_from_hw_list x S2))"
      using tx_ok_queue[OF d, of x] by (intro tx_ok_upd) (auto simp: queue_ok_def)
    moreover have "IN_HWQ_LIST \<in> q_status (txqs S2 x)" using f2(2) ql(1) t2 by simp
    ultimately show ?thesis using True t2 r2 f2(4) by (auto simp: after_push_def rwnx_txq_del_from_hw_list_def)
  next
    case False
    have "queue_ok (old_ic S) n x q2"
      using tx_ok_queue[OF assms(1), of x] f2 lim turn_not_ends[OF qo(3) False] by (auto simp: queue_ok_def dest: in_set_dropD)
    then have ok2: "tx_ok n S2" using assms(1) sch t2 r2 by (auto simp: tx_ok_def)
    have ok2': "tx_ok n (upd_txq x (\<lambda>q. q\<lparr>q_pkt_sent := 0\<rparr>) S2)"
      using ok2 tx_ok_queue[OF ok2, of x] by (intro tx_ok_upd) (auto simp: queue_ok_def)
    show ?thesis using False ok2 tx_ok_rotate[OF ok2', of h] t2 r2 f2(4) by (auto simp: after_push_def)
  qed
  let ?S4 = "end_legacy_sp x ?S3"
  let ?S5 = "flow_ctrl_restart x ?S4"
  obtain l where e4: "txqs ?S4 = (txqs ?S3)(x := (txqs ?S3 x)\<lparr>q_push_limit := l\<rparr>)" "hwqs ?S4 = hwqs ?S3" "old_ic ?S4 = old_ic ?S3"
    using end_legacy_shape[of x ?S3] by blast
  have "hwq_process_txq M h x S = Some ?S5"
    using ql(1) qo(1-3) S2 by (simp add: hwq_process_txq_def get_skb_eq[OF qo(3)])
  moreover have "tx_ok n ?S5" using ok3 tx_ok_end_legacy tx_ok_flow_restart by blast
  ultimately show ?thesis using ok3 e4 flow_restart_shape[of x ?S4] by auto
qed

section \<open>The whole list\<close>

definition load :: "nat \<Rightarrow> tx_sys \<Rightarrow> nat" where
  "load h S = sum_list (map (\<lambda>x. length (q_sk_list (txqs S x))) (hq_list (hwqs S h)))"

lemma next_in_eq: "distinct (p @ x # s) \<Longrightarrow> next_in (p @ x # s) x = (case s of [] \<Rightarrow> None | y # _ \<Rightarrow> Some y)"
proof -
  assume "distinct (p @ x # s)"
  then have "dropWhile (\<lambda>y. y \<noteq> x) (p @ x # s) = x # s" by (induction p) auto
  then show ?thesis by (simp add: next_in_def split: list.split)
qed

text \<open>Whatever a turn does to the list, the queues behind the one that was served stay together.\<close>

lemma suffix_stays:
  assumes "l = p @ x # s" "distinct l" "l' \<in> {l, remove1 x l, rotate_left l}"
  shows "\<exists>p' t. l' = p' @ s @ t"
proof -
  have x: "x \<notin> set p" using assms(1,2) by auto
  consider "l' = p @ x # s" | "l' = p @ s" | "l' = rotate_left (p @ x # s)"
    using assms(1,3) x by (auto simp: remove1_append)
  then show ?thesis
  proof cases
    case 1
    then have "l' = (p @ [x]) @ s @ []" by simp
    then show ?thesis by blast
  next
    case 2
    then have "l' = p @ s @ []" by simp
    then show ?thesis by blast
  next
    case 3
    then have "l' = tl (p @ [x]) @ s @ [hd (p @ [x])]" by (cases p) (simp_all add: rotate_left_def)
    then show ?thesis by blast
  qed
qed

lemma load_less:
  assumes "x \<in> set l" "distinct l" "l' \<in> {l, remove1 x l, rotate_left l}" "f' x < (f x :: nat)" "\<And>y. y \<noteq> x \<Longrightarrow> f' y = f y"
  shows "sum_list (map f' l') < sum_list (map f l)"
proof -
  obtain p s where l: "l = p @ x # s" using assms(1) by (auto simp: in_set_conv_decomp)
  then have x: "x \<notin> set p" "x \<notin> set s" using assms(2) by auto
  then have e: "map f' p = map f p" "map f' s = map f s" by (intro map_cong refl assms(5); use x in blast)+
  then have e: "sum_list (map f' p) = sum_list (map f p)" "sum_list (map f' s) = sum_list (map f s)" by (simp_all only:)
  have r: "sum_list (map f' (rotate_left k)) = sum_list (map f' k)" for k by (cases k) (simp_all add: rotate_left_def)
  show ?thesis using assms(3,4) l x e r by (auto simp: remove1_append)
qed

lemma process_loop_aux:
  assumes "tx_ok n S" "mem_ok M" "hq_list (hwqs S h) = p @ s"
  shows "\<exists>S'. hwq_process_loop M h (case s of [] \<Rightarrow> None | x # _ \<Rightarrow> Some x) S = Some S' \<and> tx_ok n S' \<and>
    (\<forall>y. \<exists>k. q_sk_list (txqs S' y) = drop k (q_sk_list (txqs S y)) \<and> (y \<in> set s \<longrightarrow> 1 \<le> k)) \<and>
    (\<forall>g. need_processing (hwqs S' g) = need_processing (hwqs S g)) \<and> old_ic S' = old_ic S"
  using assms(1,3)
proof (induction "load h S" arbitrary: S p s rule: less_induct)
  case less
  show ?case
  proof (cases s)
    case Nil
    then show ?thesis using less(2) by (auto simp: hwq_process_loop.simps intro: exI[of _ 0])
  next
    case (Cons x r)
    let ?l = "hq_list (hwqs S h)"
    have x: "x \<in> set ?l" using less(3) Cons by simp
    have dl: "distinct ?l" using tx_ok_distinct[OF less(2)] .
    obtain S1 where S1: "hwq_process_txq M h x S = Some S1" "tx_ok n S1"
      "\<forall>y. q_sk_list (txqs S1 y) = (if y = x then drop (turn (txqs S x)) (q_sk_list (txqs S x)) else q_sk_list (txqs S y))"
      "hq_list (hwqs S1 h) \<in> {?l, remove1 x ?l, rotate_left ?l}" "\<forall>g. need_processing (hwqs S1 g) = need_processing (hwqs S g)" "old_ic S1 = old_ic S"
      using process_txq[OF less(2) x assms(2)] by auto
    have q: "0 < sint (q_credits (txqs S x))" "q_sk_list (txqs S x) \<noteq> []"
      using tx_ok_queue[OF less(2), of x] tx_ok_linked[OF less(2), of x h] x by (auto simp: queue_ok_def)
    have k1: "1 \<le> turn (txqs S x)" by (rule turn_pos[OF q])
    obtain p' t where l1: "hq_list (hwqs S1 h) = p' @ r @ t"
      using suffix_stays[of ?l p x r "hq_list (hwqs S1 h)"] less(3) Cons dl S1(4) by auto
    have nx: "next_in ?l x = (case r of [] \<Rightarrow> None | y # _ \<Rightarrow> Some y)" using next_in_eq[of p x r] less(3) Cons dl by simp
    have ld: "load h S1 < load h S" unfolding load_def
      by (rule load_less[OF x dl S1(4)]) (use S1(3) q(2) k1 in auto)
    have step: "hwq_process_loop M h (Some x) S = hwq_process_loop M h (next_in ?l x) S1"
      by (subst hwq_process_loop.simps) (simp add: S1(1))
    have goal: "\<exists>S'. hwq_process_loop M h (next_in ?l x) S1 = Some S' \<and> tx_ok n S' \<and>
        (\<forall>y. \<exists>k. q_sk_list (txqs S' y) = drop k (q_sk_list (txqs S1 y)) \<and> (y \<in> set r \<longrightarrow> 1 \<le> k)) \<and>
        (\<forall>g. need_processing (hwqs S' g) = need_processing (hwqs S1 g)) \<and> old_ic S' = old_ic S1"
    proof (cases r)
      case Nil
      then show ?thesis using nx S1(2) by (auto simp: hwq_process_loop.simps intro: exI[of _ 0])
    next
      case (Cons y r')
      then have c: "(case r @ t of [] \<Rightarrow> None | y # _ \<Rightarrow> Some y) = next_in ?l x" using nx by simp
      obtain S' where S': "hwq_process_loop M h (next_in ?l x) S1 = Some S'" "tx_ok n S'"
        "\<forall>y. \<exists>k. q_sk_list (txqs S' y) = drop k (q_sk_list (txqs S1 y)) \<and> (y \<in> set (r @ t) \<longrightarrow> 1 \<le> k)"
        "\<forall>g. need_processing (hwqs S' g) = need_processing (hwqs S1 g)" "old_ic S' = old_ic S1"
        using less(1)[OF ld S1(2), of p' "r @ t", OF l1] unfolding c by blast
      have "\<forall>y. \<exists>k. q_sk_list (txqs S' y) = drop k (q_sk_list (txqs S1 y)) \<and> (y \<in> set r \<longrightarrow> 1 \<le> k)"
        using S'(3) by (metis Un_iff set_append)
      then show ?thesis using S'(1,2,4,5) by blast
    qed
    then obtain S' where S': "hwq_process_loop M h (next_in ?l x) S1 = Some S'" "tx_ok n S'"
      "\<forall>y. \<exists>k. q_sk_list (txqs S' y) = drop k (q_sk_list (txqs S1 y)) \<and> (y \<in> set r \<longrightarrow> 1 \<le> k)"
      "\<forall>g. need_processing (hwqs S' g) = need_processing (hwqs S1 g)" "old_ic S' = old_ic S1" by blast
    have "\<exists>k. q_sk_list (txqs S' y) = drop k (q_sk_list (txqs S y)) \<and> (y \<in> set s \<longrightarrow> 1 \<le> k)" for y
    proof -
      obtain k where k: "q_sk_list (txqs S' y) = drop k (q_sk_list (txqs S1 y))" "y \<in> set r \<longrightarrow> 1 \<le> k" using S'(3) by blast
      show ?thesis using k S1(3) k1 Cons
        by (intro exI[of _ "k + (if y = x then turn (txqs S x) else 0)"]) auto
    qed
    then show ?thesis using S'(1,2,4,5) S1(5,6) step Cons by auto
  qed
qed

lemma hwq_process_ok:
  assumes "tx_ok n S" "mem_ok M"
  shows "\<exists>S'. rwnx_hwq_process M h S = Some S' \<and> tx_ok n S' \<and> \<not> need_processing (hwqs S' h) \<and> old_ic S' = old_ic S \<and>
    (\<forall>y. \<exists>k. q_sk_list (txqs S' y) = drop k (q_sk_list (txqs S y)) \<and> (y \<in> set (hq_list (hwqs S h)) \<longrightarrow> 1 \<le> k))"
proof -
  let ?S = "upd_hwq h (\<lambda>h. h\<lparr>need_processing := False\<rparr>) S"
  have ok: "tx_ok n ?S" using assms(1) tx_ok_hwqs[of "(hwqs S)(h := (hwqs S h)\<lparr>need_processing := False\<rparr>)" S n] by simp
  have l: "hq_list (hwqs ?S h) = [] @ hq_list (hwqs S h)" by simp
  from process_loop_aux[OF ok assms(2) l] show ?thesis by (auto simp: rwnx_hwq_process_def Let_def)
qed

end
