(* ===== verification/TxQueueOps.thy ===== *)
theory TxQueueOps
  imports TxQueueInv
begin

text \<open>
  Every operation of the driver on the transmit queues keeps the invariant:
  sending, the task, confirmations, power save, stations and access points that come and go.
\<close>

section \<open>Queueing keeps the invariant\<close>

lemma set_insert_after: "set (insert_after i f l) = insert f (set l)"
  by (induction l) auto

lemma length_insert_after: "length (insert_after i f l) = Suc (length l)"
  by (induction l) auto

lemma ps_count_core: "core (ps_count x S) = core S" "txqs (ps_count x S) = txqs S"
  by (auto simp: ps_count_def Let_def rwnx_set_traffic_status_def core_simps split: option.splits)

lemma queue_list_ok:
  assumes "queue_ok old n x q" "q_idx q \<noteq> TXQ_INACTIVE" "f_txq f = x"
  shows "queue_ok old n x (queue_list f retry q)" "q_status (queue_list f retry q) = q_status q" "q_hwq (queue_list f retry q) = q_hwq q"
    "q_sk_list (queue_list f retry q) \<noteq> []" "q_idx (queue_list f retry q) = q_idx q" "q_credits (queue_list f retry q) = q_credits q"
  using assms by (auto simp: queue_ok_def queue_list_def set_insert_after length_insert_after split: option.splits
      dest: arg_cong[where f=set])

lemma flow_stop_shape: "\<exists>F \<subseteq> {NDEV_FLOW_CTRL}. txqs (flow_ctrl_stop x S) = (txqs S)(x := (txqs S x)\<lparr>q_status := q_status (txqs S x) \<union> F\<rparr>) \<and>
    hwqs (flow_ctrl_stop x S) = hwqs S \<and> old_ic (flow_ctrl_stop x S) = old_ic S \<and> tx_stas (flow_ctrl_stop x S) = tx_stas S"
  by (cases "flow_ctrl_stop x S = S")
    (force intro!: exI[of _ "{}"], auto simp: flow_ctrl_stop_def Let_def split: if_splits intro!: exI[of _ "{NDEV_FLOW_CTRL}"])

lemma tx_ok_flags:
  assumes "tx_ok n S" "IN_HWQ_LIST \<notin> F"
  shows "tx_ok n (S\<lparr>txqs := (txqs S)(x := (txqs S x)\<lparr>q_status := q_status (txqs S x) \<union> F\<rparr>)\<rparr>)"
  using assms tx_ok_queue[OF assms(1), of x] by (intro tx_ok_upd) (auto simp: queue_ok_def)

lemma queue_skb_ok:
  assumes "tx_ok n S" "q_idx (txqs S x) \<noteq> TXQ_INACTIVE" "f_txq f = x"
  shows "tx_ok n (snd (rwnx_txq_queue_skb f x retry S))"
proof -
  let ?S1 = "ps_count x S"
  let ?S2 = "upd_txq x (queue_list f retry) ?S1"
  let ?S3 = "flow_ctrl_stop x ?S2"
  have 1: "tx_ok n ?S1" using assms(1) tx_ok_core[OF ps_count_core(1)] by blast
  note q = queue_list_ok[OF tx_ok_queue[OF assms(1), of x] assms(2,3), of retry]
  have 2: "tx_ok n ?S2" using 1 q ps_count_core by (intro tx_ok_upd) (auto simp: core_def)
  obtain F where F: "F \<subseteq> {NDEV_FLOW_CTRL}" "txqs ?S3 = (txqs ?S2)(x := (txqs ?S2 x)\<lparr>q_status := q_status (txqs ?S2 x) \<union> F\<rparr>)"
    "hwqs ?S3 = hwqs ?S2" "old_ic ?S3 = old_ic ?S2" "tx_stas ?S3 = tx_stas ?S2" using flow_stop_shape[of x ?S2] by auto
  have "tx_ok n (?S2\<lparr>txqs := (txqs ?S2)(x := (txqs ?S2 x)\<lparr>q_status := q_status (txqs ?S2 x) \<union> F\<rparr>)\<rparr>)"
    by (rule tx_ok_flags[OF 2]) (use F(1) in auto)
  moreover have "core ?S3 = core (?S2\<lparr>txqs := (txqs ?S2)(x := (txqs ?S2 x)\<lparr>q_status := q_status (txqs ?S2 x) \<union> F\<rparr>)\<rparr>)"
    using F(2-5) by (simp add: core_def hwl_def fun_eq_iff)
  ultimately have 3: "tx_ok n ?S3" using tx_ok_core by blast
  have "q_sk_list (txqs ?S3 x) \<noteq> []" "q_idx (txqs ?S3 x) \<noteq> TXQ_INACTIVE"
    using F(2) q(4,5) assms(2) ps_count_core(2)[of x S] by simp_all
  then show ?thesis using 3 tx_ok_add[OF 3, of x] by (simp add: rwnx_txq_queue_skb_def Let_def)
qed

lemma tx_send_ok:
  assumes "tx_ok n S" "mem_ok M"
  shows "\<exists>S'. tx_send M f S = Some S' \<and> tx_ok n S'"
proof (cases "q_idx (txqs S (f_txq f)) = TXQ_INACTIVE")
  case True
  then show ?thesis using assms(1) by (simp add: tx_send_def)
next
  case False
  obtain b S1 where q: "rwnx_txq_queue_skb f (f_txq f) False S = (b, S1)" by fastforce
  have "tx_ok n S1" using queue_skb_ok[OF assms(1) False, of f False] q by simp
  then show ?thesis using False q hwq_process_ok[of n S1 M "q_hwq (txqs S1 (f_txq f))"] assms(2)
    by (cases b) (auto simp: tx_send_def)
qed

lemma process_ids_ok: "tx_ok n S \<Longrightarrow> mem_ok M \<Longrightarrow> \<exists>S'. hwq_process_ids M hs S = Some S' \<and> tx_ok n S'"
proof (induction hs arbitrary: S)
  case (Cons h hs)
  then obtain S1 where "(if need_processing (hwqs S h) then rwnx_hwq_process M h S else Some S) = Some S1" "tx_ok n S1"
    using hwq_process_ok[of n S M h] by (cases "need_processing (hwqs S h)") auto
  then show ?case using Cons(1)[of S1] Cons(3) by auto
qed simp

lemma task_ok: "tx_ok n S \<Longrightarrow> mem_ok M \<Longrightarrow> \<exists>S'. rwnx_task M S = Some S' \<and> tx_ok n S'"
  by (simp add: rwnx_task_def rwnx_hwq_process_all_def process_ids_ok)

section \<open>Confirmations\<close>

lemma sint_inc: "sint (c :: u8) < 127 \<Longrightarrow> sint (c + 1) = sint c + 1"
  using sint_ge[of c] by (subst sint_word_ariths(1)) (simp add: signed_take_bit_int_eq_self)

lemma confirm_any_ok:
  assumes "tx_ok n S"
  shows "tx_ok n (rwnx_txq_confirm_any x h S)"
proof -
  let ?S1 = "upd_txq x (\<lambda>q. q\<lparr>q_pkt_pushed := (if q_pkt_pushed q \<noteq> 0 then q_pkt_pushed q - 1 else q_pkt_pushed q)\<rparr>) S"
  have "tx_ok n ?S1" using assms tx_ok_queue[OF assms, of x] by (intro tx_ok_upd) (auto simp: queue_ok_def)
  then have "tx_ok n (upd_hwq h (\<lambda>h. h\<lparr>need_processing := True\<rparr>) ?S1)" by (subst tx_ok_hwqs) simp_all
  then show ?thesis by (simp add: rwnx_txq_confirm_any_def Let_def)
qed

lemma queue_ok_active:
  assumes "queue_ok old n x q" "q_idx q \<noteq> TXQ_INACTIVE"
  shows "0 < sint (q_credits q)" "sint (q_credits q) \<le> 64 + n" "unat (q_push_limit q) \<le> length (q_sk_list q)"
  using assms by (simp_all add: queue_ok_def)

lemma queue_ok_credit:
  assumes "queue_ok old n x q" "q_idx q \<noteq> TXQ_INACTIVE" "n \<le> 62"
  shows "queue_ok old (n + 1) x (q\<lparr>q_credits := q_credits q + 1\<rparr>)"
proof -
  have e: "sint (q_credits q + 1) = sint (q_credits q) + 1" using queue_ok_active[OF assms(1,2)] assms(3) by (intro sint_inc) simp
  have c: "0 < sint (q_credits (q\<lparr>q_credits := q_credits q + 1\<rparr>))" "sint (q_credits (q\<lparr>q_credits := q_credits q + 1\<rparr>)) \<le> 64 + (n + 1)"
    using queue_ok_active[OF assms(1,2)] e by simp_all
  show ?thesis using assms(1,2) c by (simp add: queue_ok_def)
qed

lemma tx_ok_continue:
  assumes "tx_ok n S"
  shows "tx_ok n (if q_idx (txqs S x) \<noteq> TXQ_INACTIVE \<and> q_push_limit (txqs S x) \<noteq> 0 \<and> STOP_FULL \<notin> q_status (txqs S x)
    then rwnx_txq_add_to_hw_list x S else S)"
proof (cases "q_idx (txqs S x) \<noteq> TXQ_INACTIVE \<and> q_push_limit (txqs S x) \<noteq> 0 \<and> STOP_FULL \<notin> q_status (txqs S x)")
  case True
  then have a: "q_idx (txqs S x) \<noteq> TXQ_INACTIVE" and "0 < unat (q_push_limit (txqs S x))" by (simp_all add: unat_gt_0)
  then have "q_sk_list (txqs S x) \<noteq> []" using queue_ok_active(3)[OF tx_ok_queue[OF assms, of x] a] by auto
  then show ?thesis using tx_ok_add[OF assms a] by (subst if_P[OF True])
next
  case False
  then show ?thesis using assms by (subst if_not_P)
qed

lemma retry_ok:
  assumes "tx_ok n S" "n \<le> 62" "q_idx (txqs S (f_txq f)) \<noteq> TXQ_INACTIVE"
  shows "tx_ok (n + 1) (rwnx_tx_retry f sw S)"
proof -
  let ?x = "f_txq f"
  let ?S1 = "upd_txq ?x (\<lambda>q. q\<lparr>q_credits := q_credits q + 1\<rparr>) S"
  let ?S2 = "if sint (q_credits (txqs ?S1 ?x)) > 0 then rwnx_txq_start {STOP_FULL} ?x ?S1 else ?S1"
  have o: "tx_ok (n + 1) S" using tx_ok_mono[OF assms(1)] by simp
  have 1: "tx_ok (n + 1) ?S1"
    by (rule tx_ok_upd[OF o queue_ok_credit[OF tx_ok_queue[OF assms(1)] assms(3,2)]]) simp_all
  have 2: "tx_ok (n + 1) ?S2" using 1 tx_ok_start[OF 1, of "{STOP_FULL}" ?x] by simp
  have a: "q_idx (txqs ?S2 ?x) \<noteq> TXQ_INACTIVE" using assms(3) by (simp add: rwnx_txq_start_def Let_def txqs_add)
  have f: "f_txq ((if sw then f else f\<lparr>f_retry := True\<rparr>)\<lparr>f_more := False\<rparr>) = ?x" by simp
  show ?thesis unfolding rwnx_tx_retry_def Let_def f by (rule queue_skb_ok[OF 2 a f])
qed

definition retry_status :: "u32 \<Rightarrow> bool" where
  "retry_status st \<longleftrightarrow> retry_required st \<or> sw_retry_required st"

lemma datacfm_ok:
  assumes "tx_ok n S" "retry_status st \<Longrightarrow> n \<le> 62"
  shows "tx_ok (n + (if retry_status st then 1 else 0)) (snd (rwnx_txdatacfm f st S))"
proof -
  let ?m = "n + (if retry_status st then 1 else 0)"
  let ?S1 = "rwnx_txq_confirm_any (f_txq f) (f_hwq f) S"
  have m: "tx_ok n T \<Longrightarrow> tx_ok ?m T" for T by (erule tx_ok_mono) simp
  have 1: "tx_ok n ?S1" by (rule confirm_any_ok[OF assms(1)])
  let ?S2 = "if f_mgmt f then upd_usb (log_tx [MgmtStatus (f_id f) (acknowledged st)]) ?S1 else ?S1"
  have 2: "tx_ok n ?S2" using 1 by simp
  let ?S3 = "if q_idx (txqs ?S2 (f_txq f)) \<noteq> TXQ_INACTIVE \<and> q_push_limit (txqs ?S2 (f_txq f)) \<noteq> 0 \<and> STOP_FULL \<notin> q_status (txqs ?S2 (f_txq f))
    then rwnx_txq_add_to_hw_list (f_txq f) ?S2 else ?S2"
  have 3: "tx_ok n ?S3" by (rule tx_ok_continue[OF 2])
  consider (none) "st = 0 \<or> ud_state (usbdev S) = USB_DOWN_ST"
    | (retry) "st \<noteq> 0" "ud_state (usbdev S) \<noteq> USB_DOWN_ST" "\<not> f_mgmt f" "q_idx (txqs ?S1 (f_txq f)) \<noteq> TXQ_INACTIVE" "retry_status st"
    | (sent) "st \<noteq> 0" "ud_state (usbdev S) \<noteq> USB_DOWN_ST"
        "\<not> (\<not> f_mgmt f \<and> q_idx (txqs ?S1 (f_txq f)) \<noteq> TXQ_INACTIVE \<and> retry_status st)" by blast
  then show ?thesis
  proof cases
    case none
    then show ?thesis using m[OF assms(1)] by (auto simp: rwnx_txdatacfm_def Let_def)
  next
    case retry
    then show ?thesis using retry_ok[OF 1 assms(2)[OF retry(5)] retry(4), of "sw_retry_required st"]
      by (simp add: rwnx_txdatacfm_def Let_def retry_status_def)
  next
    case sent
    have "rwnx_txdatacfm f st S = (0, upd_usb (log_tx [FreeHdr (f_id f), FreeSkb (f_id f)]) ?S3)"
      unfolding rwnx_txdatacfm_def Let_def
      by (subst if_not_P[OF sent(1)], subst if_not_P[OF sent(2)], subst if_not_P[OF sent(3)[unfolded retry_status_def]], rule refl)
    then show ?thesis using m[OF 3] by (simp only: tx_ok_usb snd_conv)
  qed
qed

lemma cfm_handler_ok:
  assumes "tx_ok n S" "retry_status st \<Longrightarrow> n \<le> 62"
  shows "tx_ok (n + (if retry_status st then 1 else 0)) (aicwf_usb_host_tx_cfm_handler st i S)"
proof (cases "tx_host_id (usb_env S) (unat i mod USB_TXDESC_CNT)")
  case None
  then show ?thesis using tx_ok_mono[OF assms(1)] by (simp add: aicwf_usb_host_tx_cfm_handler_def Let_def)
next
  case (Some f)
  let ?S = "S\<lparr>usb_env := (usb_env S)\<lparr>tx_host_id := (tx_host_id (usb_env S))(unat i mod USB_TXDESC_CNT := None)\<rparr>\<rparr>"
  have "tx_ok n ?S" using assms(1) by simp
  from datacfm_ok[OF this assms(2), of st f] show ?thesis using Some
    by (cases "rwnx_txdatacfm f st ?S") (simp add: aicwf_usb_host_tx_cfm_handler_def Let_def)
qed

lemma credit_update_ok: "tx_ok n S \<Longrightarrow> tx_ok n (rwnx_txq_credit_update s tid S)"
  by (simp add: rwnx_txq_credit_update_def Let_def tx_ok_start tx_ok_stop)

section \<open>Power save\<close>

lemma sta_core: "(\<And>t. ts_vif (g t) = ts_vif t) \<Longrightarrow> core (upd_sta s g S) = core S"
  by (rule core_sta) simp

lemma count_ready_core: "core (count_ready s S) = core S"
proof -
  have "core (fold (\<lambda>x S. let p = q_ps_id (txqs S x) in
      upd_sta s (\<lambda>t. t\<lparr>ps_pkt_ready := (ps_pkt_ready t)(p := ps_pkt_ready t p + of_nat (length (q_sk_list (txqs S x))))\<rparr>) S) xs T) = core T" for xs T
    by (induction xs arbitrary: T) (simp_all add: Let_def sta_core)
  then show ?thesis by (simp add: count_ready_def sta_core)
qed

lemma tx_ok_sta_upd: "tx_ok n S \<Longrightarrow> (\<And>t. ts_vif (g t) = ts_vif t) \<Longrightarrow> tx_ok n (upd_sta s g S)"
  using tx_ok_core[OF sta_core] by blast

lemma tx_ok_limit0:
  assumes "tx_ok n S"
  shows "tx_ok n (upd_txq x (\<lambda>q. q\<lparr>q_push_limit := 0\<rparr>) S)"
  using assms tx_ok_queue[OF assms, of x] by (intro tx_ok_upd) (auto simp: queue_ok_def)

lemma tx_ok_clear_limits: "tx_ok n S \<Longrightarrow> tx_ok n (clear_limits s S)"
  unfolding clear_limits_def by (rule fold_ok) (simp_all add: tx_ok_limit0)

lemma multicast_slot:
  assumes "is_multicast_sta (old_ic S) s" "tx_ok n S"
  shows "NX_FIRST_VIF_TXQ_IDX (old_ic S) \<le> rwnx_txq_sta_get S s 0 \<and> rwnx_txq_sta_get S s 0 < NX_FIRST_UNK_TXQ_IDX (old_ic S)"
  using assms by (simp add: rwnx_txq_sta_get_def rwnx_txq_sta_idx_def NX_FIRST_UNK_TXQ_IDX_def NX_VIRT_DEV_MAX_def tx_ok_def)

lemma tx_ok_hwq_be:
  assumes "tx_ok n S" "NX_FIRST_VIF_TXQ_IDX (old_ic S) \<le> x \<and> x < NX_FIRST_UNK_TXQ_IDX (old_ic S)"
  shows "tx_ok n (upd_txq x (\<lambda>q. q\<lparr>q_hwq := RWNX_HWQ_BE, q_push_limit := 0\<rparr>) S)"
proof (rule tx_ok_upd[OF assms(1)])
  note q = tx_ok_queue[OF assms(1), of x]
  show "queue_ok (old_ic S) n x ((txqs S x)\<lparr>q_hwq := RWNX_HWQ_BE, q_push_limit := 0\<rparr>)" using q by (auto simp: queue_ok_def)
  show "q_hwq ((txqs S x)\<lparr>q_hwq := RWNX_HWQ_BE, q_push_limit := 0\<rparr>) = q_hwq (txqs S x)"
    if "IN_HWQ_LIST \<in> q_status ((txqs S x)\<lparr>q_hwq := RWNX_HWQ_BE, q_push_limit := 0\<rparr>)"
    using that q assms(2) by (auto simp: queue_ok_def)
qed simp

lemma ps_enable_ok:
  assumes "tx_ok n S"
  shows "tx_ok n (rwnx_ps_bh_enable s b S)"
proof (cases b)
  case True
  let ?S = "upd_sta s (\<lambda>t. t\<lparr>ps_active := True, ps_sp_cnt := (ps_sp_cnt t)(LEGACY_PS_ID := 0, UAPSD_ID := 0)\<rparr>) S"
  have "tx_ok n ?S" by (rule tx_ok_sta_upd[OF assms]) simp
  then have "tx_ok n (rwnx_txq_sta_stop {STOP_STA_PS} s ?S)" by (rule tx_ok_sta_stop) simp
  then have "tx_ok n (count_ready s (rwnx_txq_sta_stop {STOP_STA_PS} s ?S))" using tx_ok_core[OF count_ready_core] by blast
  then show ?thesis using True by (simp add: rwnx_ps_bh_enable_def Let_def)
next
  case False
  let ?S1 = "upd_sta s (\<lambda>t. t\<lparr>ps_active := False\<rparr>) S"
  let ?S2 = "if is_multicast_sta (old_ic ?S1) s then upd_txq (rwnx_txq_sta_get ?S1 s 0) (\<lambda>q. q\<lparr>q_hwq := RWNX_HWQ_BE, q_push_limit := 0\<rparr>) ?S1
      else clear_limits s ?S1"
  let ?S3 = "rwnx_txq_sta_start {STOP_STA_PS} s ?S2"
  have 1: "tx_ok n ?S1" by (rule tx_ok_sta_upd[OF assms]) simp
  have 2: "tx_ok n ?S2"
  proof (cases "is_multicast_sta (old_ic ?S1) s")
    case True
    show ?thesis unfolding if_P[OF True] by (rule tx_ok_hwq_be[OF 1 multicast_slot[OF True 1]])
  next
    case False
    show ?thesis unfolding if_not_P[OF False] by (rule tx_ok_clear_limits[OF 1])
  qed
  have 3: "tx_ok n ?S3" by (rule tx_ok_sta_start[OF 2]) simp
  then have "tx_ok n (if ps_pkt_ready (tx_stas ?S3 s) LEGACY_PS_ID \<noteq> 0 then rwnx_set_traffic_status s False LEGACY_PS_ID ?S3 else ?S3)"
    by (simp add: rwnx_set_traffic_status_def)
  then show ?thesis unfolding rwnx_ps_bh_enable_def Let_def if_not_P[OF False] by (simp only: tx_ok_usb)
qed

lemma give_limit_ok:
  assumes "tx_ok n S" "q_sk_list (txqs S x) \<noteq> []" "unat (ucast k :: u8) \<le> length (q_sk_list (txqs S x))"
  shows "tx_ok n (give_limit s p x k S)"
proof -
  let ?S1 = "upd_txq x (\<lambda>q. q\<lparr>q_push_limit := ucast k\<rparr>) S"
  let ?S2 = "upd_sta s (\<lambda>t. t\<lparr>ps_sp_cnt := (ps_sp_cnt t)(p := ps_sp_cnt t p + k)\<rparr>) ?S1"
  have a: "q_idx (txqs S x) \<noteq> TXQ_INACTIVE" using tx_ok_queue[OF assms(1), of x] assms(2) by (auto simp: queue_ok_def)
  have 1: "tx_ok n ?S1" using assms tx_ok_queue[OF assms(1), of x] by (intro tx_ok_upd) (auto simp: queue_ok_def)
  have 2: "tx_ok n ?S2" by (rule tx_ok_sta_upd[OF 1]) simp
  show ?thesis using tx_ok_add[OF 2, of x] a assms(2) by (simp add: give_limit_def)
qed

lemma give_limit_sk: "q_sk_list (txqs (give_limit s p x k S) y) = q_sk_list (txqs S y)"
  by (simp add: give_limit_def txqs_add)

text \<open>What a queue can take of a request.\<close>

definition can_take :: "rwnx_txq \<Rightarrow> u16" where
  "can_take q = (let len = of_nat (length (q_sk_list q)) in
     if uint len > sint (q_credits q) then of_int (sint (q_credits q)) else len)"

lemma unat_ucast_le: "unat (ucast (k :: u16) :: u8) \<le> unat k"
  by (simp add: unsigned_ucast_eq take_bit_nat_less_eq_self)

lemma can_take_bound:
  assumes "0 \<le> sint (q_credits q)"
  shows "unat (can_take q) \<le> length (q_sk_list q)" "int (unat (can_take q)) \<le> sint (q_credits q)"
proof -
  let ?len = "of_nat (length (q_sk_list q)) :: u16"
  have l: "unat ?len \<le> length (q_sk_list q)" by (simp add: unat_of_nat)
  have c: "sint (q_credits q) < 128" using sint_lt[of "q_credits q"] by simp
  have t: "uint (of_int (sint (q_credits q)) :: u16) = sint (q_credits q)"
    unfolding uint_word_of_int using assms c by simp
  have e: "int (unat (can_take q)) = (if sint (q_credits q) < uint ?len then sint (q_credits q) else uint ?len)"
    unfolding uint_nat[symmetric] can_take_def Let_def using t by (simp only: if_distrib[of uint])
  have "uint ?len \<le> int (length (q_sk_list q))" using l by (simp only: uint_nat)
  moreover have "int (unat (can_take q)) \<le> uint ?len \<and> int (unat (can_take q)) \<le> sint (q_credits q)" unfolding e by simp
  ultimately show "unat (can_take q) \<le> length (q_sk_list q)" "int (unat (can_take q)) \<le> sint (q_credits q)" by linarith+
qed

lemma dispatch_req_Cons: "dispatch_req s p (x # xs) k S =
   (let q = txqs S x; len = can_take q in
    if q_ps_id q \<noteq> p then dispatch_req s p xs k S
    else if len = 0 then dispatch_req s p xs k S
    else if len < k then dispatch_req s p xs (k - len) (give_limit s p x len S)
    else give_limit s p x k S)"
  by (simp add: can_take_def Let_def)

declare dispatch_req.simps(2) [simp del]

lemma dispatch_req_ok: "tx_ok n S \<Longrightarrow> tx_ok n (dispatch_req s p xs k S)"
proof (induction xs arbitrary: k S)
  case (Cons x xs)
  let ?len = "can_take (txqs S x)"
  show ?case
  proof (cases "q_ps_id (txqs S x) \<noteq> p \<or> ?len = 0")
    case True
    then show ?thesis using Cons by (auto simp: dispatch_req_Cons Let_def)
  next
    case False
    have c: "0 \<le> sint (q_credits (txqs S x))" using tx_ok_queue[OF Cons(2), of x] by (auto simp: queue_ok_def)
    have ne: "q_sk_list (txqs S x) \<noteq> []" using False c by (auto simp: can_take_def Let_def)
    note b = can_take_bound(1)[OF c]
    show ?thesis
    proof (cases "?len < k")
      case True
      have "unat (ucast ?len :: u8) \<le> length (q_sk_list (txqs S x))" using b unat_ucast_le[of ?len] by linarith
      then have g: "tx_ok n (give_limit s p x ?len S)" by (rule give_limit_ok[OF Cons(2) ne])
      show ?thesis using Cons(1)[OF g] False True by (simp add: dispatch_req_Cons Let_def)
    next
      case F: False
      then have "unat k \<le> unat ?len" by (simp add: not_less word_le_nat_alt)
      then have "unat (ucast k :: u8) \<le> length (q_sk_list (txqs S x))" using b unat_ucast_le[of k] by linarith
      then show ?thesis using give_limit_ok[OF Cons(2) ne] False F by (simp add: dispatch_req_Cons Let_def)
    qed
  qed
qed simp

text \<open>
  A request for the broadcast station is served without looking at its queue; it needs a counter that
  is not above what is queued.
\<close>

definition bcmc_req_ok :: "nat \<Rightarrow> nat \<Rightarrow> tx_sys \<Rightarrow> bool" where
  "bcmc_req_ok s p S \<longleftrightarrow> unat (ps_pkt_ready (tx_stas S s) p) \<le> length (q_sk_list (txqs S (rwnx_txq_sta_get S s 0)))"

lemma unat_of_int: "0 \<le> i \<Longrightarrow> i < 65536 \<Longrightarrow> unat (of_int i :: u16) = nat i"
  by (simp only: unat_eq_nat_uint uint_word_of_int) simp

lemma u16_bound: "uint (k :: u16) < 65536"
  using uint_lt2p[of k] by simp

lemma unat_le_nat: "uint (k :: u16) \<le> i \<Longrightarrow> unat k \<le> nat i"
  unfolding unat_eq_nat_uint by (rule nat_mono)

lemma request_bound:
  assumes "0 < r" "r < 65536"
  shows "unat (if k = 0 \<or> uint (k :: u16) > r then of_int r else k) \<le> nat r"
proof (cases "k = 0 \<or> uint k > r")
  case True
  then show ?thesis unfolding if_P[OF True] using unat_of_int[of r] assms by linarith
next
  case False
  then have "uint k \<le> r" by linarith
  then show ?thesis unfolding if_not_P[OF False] by (rule unat_le_nat)
qed

lemma credit_bound:
  assumes "0 \<le> c" "c < 128"
  shows "unat (if uint (k :: u16) > c then of_int c else k) \<le> unat k"
proof (cases "uint k > c")
  case True
  then have "nat c \<le> unat k" unfolding unat_eq_nat_uint by (intro nat_mono) linarith
  then show ?thesis unfolding if_P[OF True] using unat_of_int[of c] assms by linarith
next
  case False
  show ?thesis unfolding if_not_P[OF False] by (rule order_refl)
qed

lemma traffic_req_ok:
  assumes "tx_ok n S" "is_multicast_sta (old_ic S) s \<Longrightarrow> bcmc_req_ok s p S"
  shows "tx_ok n (rwnx_ps_bh_traffic_req s k p S)"
proof -
  let ?ready = "uint (ps_pkt_ready (tx_stas S s) p) - uint (ps_sp_cnt (tx_stas S s) p)"
  consider (off) "\<not> ps_active (tx_stas S s)"
    | (stop) "ps_active (tx_stas S s)" "k = PS_SP_INTERRUPTED \<and> p = UAPSD_ID"
    | (busy) "ps_active (tx_stas S s)" "\<not> (k = PS_SP_INTERRUPTED \<and> p = UAPSD_ID)" "ps_sp_cnt (tx_stas S s) p \<noteq> 0 \<or> ?ready \<le> 0"
    | (serve) "ps_active (tx_stas S s)" "\<not> (k = PS_SP_INTERRUPTED \<and> p = UAPSD_ID)" "\<not> (ps_sp_cnt (tx_stas S s) p \<noteq> 0 \<or> ?ready \<le> 0)"
    by blast
  then show ?thesis
  proof cases
    case off
    then show ?thesis using assms(1) by (simp add: rwnx_ps_bh_traffic_req_def)
  next
    case stop
    have "tx_ok n (upd_sta s (\<lambda>t. t\<lparr>ps_sp_cnt := (ps_sp_cnt t)(p := 0)\<rparr>) S)" by (rule tx_ok_sta_upd[OF assms(1)]) simp
    then show ?thesis using stop tx_ok_clear_limits by (simp add: rwnx_ps_bh_traffic_req_def)
  next
    case busy
    have "rwnx_ps_bh_traffic_req s k p S = S"
      unfolding rwnx_ps_bh_traffic_req_def Let_def
      by (subst if_not_P, use busy(1) in blast, subst if_not_P[OF busy(2)], subst if_P[OF busy(3)], rule refl)
    then show ?thesis using assms(1) by simp
  next
    case serve
    let ?n = "if k = 0 \<or> uint k > ?ready then of_int ?ready else k"
    let ?S = "upd_sta s (\<lambda>t. t\<lparr>ps_sp_cnt := (ps_sp_cnt t)(p := 0)\<rparr>) S"
    let ?x = "rwnx_txq_sta_get ?S s 0"
    let ?c = "sint (q_credits (txqs ?S ?x))"
    let ?m = "if uint ?n > ?c then of_int ?c else ?n"
    have ok: "tx_ok n ?S" by (rule tx_ok_sta_upd[OF assms(1)]) simp
    have r: "0 < ?ready" using serve(3) by linarith
    have x: "?x = rwnx_txq_sta_get S s 0" by (simp add: rwnx_txq_sta_get_def rwnx_txq_sta_idx_def)
    have eq: "rwnx_ps_bh_traffic_req s k p S = upd_usb (log_tx [Tasklet])
        (if is_multicast_sta (old_ic ?S) s then give_limit s p ?x ?m ?S else dispatch_req s p (sta_txqs_prio ?S s) ?n ?S)"
      unfolding rwnx_ps_bh_traffic_req_def Let_def
      by (subst if_not_P, use serve(1) in blast, subst if_not_P[OF serve(2)], subst if_not_P[OF serve(3)], rule refl)
    have "tx_ok n (if is_multicast_sta (old_ic ?S) s then give_limit s p ?x ?m ?S else dispatch_req s p (sta_txqs_prio ?S s) ?n ?S)"
    proof (cases "is_multicast_sta (old_ic ?S) s")
      case True
      then have l: "unat (ps_pkt_ready (tx_stas S s) p) \<le> length (q_sk_list (txqs ?S ?x))" using assms(2) x by (simp add: bcmc_req_ok_def)
      have rp: "?ready \<le> uint (ps_pkt_ready (tx_stas S s) p)" using uint_nonnegative[of "ps_sp_cnt (tx_stas S s) p"] by linarith
      have ru: "?ready < 65536" using rp u16_bound[of "ps_pkt_ready (tx_stas S s) p"] by linarith
      have rl: "nat ?ready \<le> length (q_sk_list (txqs ?S ?x))"
        using l nat_mono[OF rp] unfolding unat_eq_nat_uint by linarith
      have nl: "unat ?n \<le> nat ?ready" by (rule request_bound[OF r ru])
      have c0: "0 \<le> ?c" using tx_ok_queue[OF ok, of ?x] by (auto simp: queue_ok_def)
      have cl: "?c < 128" using sint_lt[of "q_credits (txqs ?S ?x)"] by simp
      have ml: "unat ?m \<le> unat ?n" by (rule credit_bound[OF c0 cl])
      have "0 < nat ?ready" using r by linarith
      then have ne: "q_sk_list (txqs ?S ?x) \<noteq> []" using rl by auto
      have "tx_ok n (give_limit s p ?x ?m ?S)"
        by (rule give_limit_ok[OF ok ne]) (use unat_ucast_le[of ?m] ml nl rl in linarith)
      then show ?thesis using True by (simp only: if_True)
    next
      case False
      then show ?thesis using dispatch_req_ok[OF ok] by (simp only: if_False)
    qed
    then show ?thesis unfolding eq by (simp only: tx_ok_usb)
  qed
qed

section \<open>Stations and access points\<close>

lemma init_unlinked:
  assumes "rwnx_txq_init x idx st hwq tid sta ndev S = Some S'"
  shows "old_ic S' = old_ic S" "tx_stas S' = tx_stas S" "tx_vifs S' = tx_vifs S" "hwqs S' = hwqs S"
    "q_status (txqs S' y) = (if y = x then st else q_status (txqs S y))"
  using assms by (auto simp: rwnx_txq_init_def Let_def)

lemma sta_init_ok:
  assumes "rwnx_txq_sta_init s st S = Some S'" "tx_ok n S" "0 \<le> n" "IN_HWQ_LIST \<notin> st" "\<not> is_multicast_sta (old_ic S) s"
    "\<forall>x \<in> set (sta_txqs S s). IN_HWQ_LIST \<notin> q_status (txqs S x)"
  shows "tx_ok n S' \<and> old_ic S' = old_ic S"
proof -
  have slot: "x < NX_FIRST_VIF_TXQ_IDX (old_ic S)" if "x \<in> set (sta_txqs S s)" for x
    using that assms(5) by (auto simp: sta_txqs_def rwnx_txq_sta_get_def rwnx_txq_sta_idx_def NX_FIRST_VIF_TXQ_IDX_def
        is_multicast_sta_def NX_NB_TXQ_PER_STA_def NX_NB_TID_PER_STA_def not_le)
  define F where "F T = (\<lambda>(tid, x) r. do { S \<leftarrow> r;
      S \<leftarrow> rwnx_txq_init x (rwnx_txq_sta_idx S s 0 + tid) st (rwnx_tid2hwq tid) tid (Some s) (tv_ndev (tx_vifs T (ts_vif (tx_stas T s)))) S;
      Some (upd_txq x (\<lambda>q. q\<lparr>q_ps_id := (if bit (uapsd_tids (tx_stas S s)) tid then UAPSD_ID else LEGACY_PS_ID)\<rparr>) S) })" for T :: tx_sys
  have none: "fold (F T) l None = None" for l T by (induction l) (auto simp: F_def)
  have "tx_ok n R' \<and> old_ic R' = old_ic S"
    if "fold (F T) l (Some R) = Some R'" "tx_ok n R" "old_ic R = old_ic S" "\<forall>(t, x) \<in> set l. IN_HWQ_LIST \<notin> q_status (txqs R x) \<and> x < NX_FIRST_VIF_TXQ_IDX (old_ic S)" for l R R' T
    using that
  proof (induction l arbitrary: R)
    case (Cons tx l)
    obtain t x where tx: "tx = (t, x)" by fastforce
    obtain R1 where R1: "F T (t, x) (Some R) = Some R1" "fold (F T) l (Some R1) = Some R'"
      using Cons(2) none unfolding tx by (cases "F T (t, x) (Some R)") simp_all
    from R1(1) obtain R2 where R2: "rwnx_txq_init x (rwnx_txq_sta_idx R s 0 + t) st (rwnx_tid2hwq t) t (Some s) (tv_ndev (tx_vifs T (ts_vif (tx_stas T s)))) R = Some R2"
      "R1 = upd_txq x (\<lambda>q. q\<lparr>q_ps_id := (if bit (uapsd_tids (tx_stas R2 s)) t then UAPSD_ID else LEGACY_PS_ID)\<rparr>) R2"
      by (auto simp: F_def bind_eq_Some_conv)
    have x: "IN_HWQ_LIST \<notin> q_status (txqs R x)" "x < NX_FIRST_VIF_TXQ_IDX (old_ic S)" using Cons(5) tx by auto
    have 2: "tx_ok n R2" by (rule tx_ok_init[OF R2(1) Cons(3) x(1) assms(4,3)]) (use x(2) Cons(4) in simp)
    have 1: "tx_ok n R1" unfolding R2(2) using 2 tx_ok_queue[OF 2, of x] by (intro tx_ok_upd) (auto simp: queue_ok_def)
    have o: "old_ic R1 = old_ic S" using init_unlinked(1)[OF R2(1)] Cons(4) R2(2) by simp
    have "\<forall>(t, x) \<in> set l. IN_HWQ_LIST \<notin> q_status (txqs R1 x) \<and> x < NX_FIRST_VIF_TXQ_IDX (old_ic S)"
      using Cons(5) init_unlinked(5)[OF R2(1)] assms(4) R2(2) by auto
    then show ?case using Cons(1)[OF R1(2) 1 o] by blast
  qed simp
  moreover have "fold (F S) (List.enumerate 0 (sta_txqs S s)) (Some S) = Some S'"
    using assms(1) unfolding rwnx_txq_sta_init_def Let_def F_def by simp
  moreover have "\<forall>(t, x) \<in> set (List.enumerate 0 (sta_txqs S s)). IN_HWQ_LIST \<notin> q_status (txqs S x) \<and> x < NX_FIRST_VIF_TXQ_IDX (old_ic S)"
    using assms(6) slot by (auto simp: enumerate_eq_zip dest!: set_zip_rightD)
  ultimately show ?thesis using assms(2) by blast
qed

lemma vif_init_ok:
  assumes "rwnx_txq_vif_init v st S = Some S'" "tx_ok n S" "0 \<le> n" "IN_HWQ_LIST \<notin> st"
    "IN_HWQ_LIST \<notin> q_status (txqs S (rwnx_txq_vif_get S v NX_BCMC_TXQ_TYPE))" "IN_HWQ_LIST \<notin> q_status (txqs S (rwnx_txq_vif_get S v NX_UNK_TXQ_TYPE))"
  shows "tx_ok n S'"
proof -
  let ?b = "rwnx_txq_vif_get S v NX_BCMC_TXQ_TYPE" and ?u = "rwnx_txq_vif_get S v NX_UNK_TXQ_TYPE"
  obtain S1 where S1: "rwnx_txq_init ?b (rwnx_txq_vif_idx S v NX_BCMC_TXQ_TYPE) st RWNX_HWQ_BE 0 (Some (bcmc_index (tx_vifs S v))) (tv_ndev (tx_vifs S v)) S = Some S1"
    "rwnx_txq_init (rwnx_txq_vif_get S1 v NX_UNK_TXQ_TYPE) (rwnx_txq_vif_idx S1 v NX_UNK_TXQ_TYPE) st RWNX_HWQ_VO TID_MGT None (tv_ndev (tx_vifs S v)) S1 = Some S'"
    using assms(1) by (auto simp: rwnx_txq_vif_init_def Let_def bind_eq_Some_conv)
  note i = init_unlinked[OF S1(1)]
  have u: "rwnx_txq_vif_get S1 v NX_UNK_TXQ_TYPE = ?u" using i(1,3) by (simp add: rwnx_txq_vif_get_def rwnx_txq_vif_idx_def master_vif_idx_def)
  have 1: "tx_ok n S1" by (rule tx_ok_init[OF S1(1) assms(2,5,4,3)]) simp
  have "IN_HWQ_LIST \<notin> q_status (txqs S1 ?u)" using i(5)[of ?u] assms(4,6) by simp
  then show ?thesis
    by (intro tx_ok_init[OF S1(2)[unfolded u] 1 _ assms(4,3)])
      (simp_all add: i(1) rwnx_txq_vif_get_def rwnx_txq_vif_idx_def NX_UNK_TXQ_TYPE_def NX_FIRST_UNK_TXQ_IDX_def)
qed

lemma unk_init_ok:
  assumes "rwnx_txq_unk_vif_init v S = Some S'" "tx_ok n S" "0 \<le> n" "IN_HWQ_LIST \<notin> q_status (txqs S (rwnx_txq_vif_get S v NX_UNK_TXQ_TYPE))"
  shows "tx_ok n S'"
  using tx_ok_init[OF assms(1)[unfolded rwnx_txq_unk_vif_init_def] assms(2,4) _ assms(3)]
  by (simp add: rwnx_txq_vif_get_def rwnx_txq_vif_idx_def NX_UNK_TXQ_TYPE_def NX_FIRST_UNK_TXQ_IDX_def)

end
