(* ===== verification/TxQueueRun.thy ===== *)
theory TxQueueRun
  imports TxQueueOps
begin

text \<open>
  Runs of the transmit queues: every operation of the driver on them as one step, with what the code
  relies on (a station or an interface is set up while its queues are not in use), and the proof that no
  such run reaches a \<^verbatim>\<open>BUG_ON\<close>.
\<close>

section \<open>Operations\<close>

text \<open>
  \<open>SetSta\<close> and \<open>SetVif\<close> stand for the rest of the driver, which fills in a station or an interface;
  \<open>Bus\<close> for whatever happens to the transport.
\<close>

datatype tx_op =
    SendFrame tx_frame
  | Task
  | Cfm u32 u32
  | PsMode nat bool
  | TrafficReq nat u16 nat
  | VifStart nat "rwnx_txq_flag set"
  | VifStop nat "rwnx_txq_flag set"
  | StaAdd nat bool
  | StaDel nat
  | StaMove nat nat
  | ApStart nat bool
  | ApStop nat
  | AuthEnable nat
  | AuthDisable nat
  | OffchanInit nat
  | OffchanStart
  | OffchanDeinit
  | TdlsInit bool nat
  | TdlsDeinit bool nat
  | CreditUpdate nat nat
  | SetSta nat tx_sta
  | SetVif nat tx_vif
  | Bus aic_usb_dev

fun tx_do :: "tx_mem \<Rightarrow> tx_op \<Rightarrow> tx_sys \<Rightarrow> tx_sys option" where
  "tx_do M (SendFrame f) S = tx_send M f S"
| "tx_do M Task S = rwnx_task M S"
| "tx_do M (Cfm st i) S = Some (aicwf_usb_host_tx_cfm_handler st i S)"
| "tx_do M (PsMode s b) S = Some (rwnx_ps_bh_enable s b S)"
| "tx_do M (TrafficReq s k p) S = Some (rwnx_ps_bh_traffic_req s k p S)"
| "tx_do M (VifStart v r) S = rwnx_txq_vif_start v r S"
| "tx_do M (VifStop v r) S = rwnx_txq_vif_stop v r S"
| "tx_do M (StaAdd s pm) S = sta_add s pm S"
| "tx_do M (StaDel s) S = Some (sta_del s S)"
| "tx_do M (StaMove s v) S = Some (rwnx_txq_sta_switch_vif s v S)"
| "tx_do M (ApStart v b) S = ap_start v b S"
| "tx_do M (ApStop v) S = Some (rwnx_txq_vif_deinit v S)"
| "tx_do M (AuthEnable v) S = rwnx_external_auth_enable v S"
| "tx_do M (AuthDisable v) S = Some (rwnx_external_auth_disable v S)"
| "tx_do M (OffchanInit v) S = rwnx_txq_offchan_init v S"
| "tx_do M OffchanStart S = Some (rwnx_txq_offchan_start S)"
| "tx_do M OffchanDeinit S = Some (rwnx_txq_offchan_deinit S)"
| "tx_do M (TdlsInit b v) S = rwnx_txq_tdls_vif_init b v S"
| "tx_do M (TdlsDeinit b v) S = Some (rwnx_txq_tdls_vif_deinit b v S)"
| "tx_do M (CreditUpdate s tid) S = Some (rwnx_txq_credit_update s tid S)"
| "tx_do M (SetSta s t) S = Some (S\<lparr>tx_stas := (tx_stas S)(s := t)\<rparr>)"
| "tx_do M (SetVif v V) S = Some (S\<lparr>tx_vifs := (tx_vifs S)(v := V)\<rparr>)"
| "tx_do M (Bus D) S = Some (S\<lparr>usbdev := D\<rparr>)"

text \<open>A queue that is not linked, as one that is not in use is.\<close>

definition unlinked :: "tx_sys \<Rightarrow> nat \<Rightarrow> bool" where
  "unlinked S x \<longleftrightarrow> IN_HWQ_LIST \<notin> q_status (txqs S x)"

definition vif_ok :: "tx_sys \<Rightarrow> nat \<Rightarrow> bool" where
  "vif_ok S v \<longleftrightarrow> tv_type (tx_vifs S v) \<noteq> NL_OTHER \<and> (tdls_link_active (tx_vifs S v) \<longrightarrow> tv_tdls_sta (tx_vifs S v) \<noteq> None)"

fun tx_allowed :: "tx_op \<Rightarrow> tx_sys \<Rightarrow> bool" where
  "tx_allowed (TrafficReq s k p) S \<longleftrightarrow> is_multicast_sta (old_ic S) s \<longrightarrow> bcmc_req_ok s p S"
| "tx_allowed (VifStart v r) S \<longleftrightarrow> vif_ok S v \<and> IN_HWQ_LIST \<notin> r"
| "tx_allowed (VifStop v r) S \<longleftrightarrow> vif_ok S v \<and> IN_HWQ_LIST \<notin> r"
| "tx_allowed (StaAdd s pm) S \<longleftrightarrow> \<not> is_multicast_sta (old_ic S) s \<and> list_all (unlinked S) (sta_txqs S s)"
| "tx_allowed (ApStart v b) S \<longleftrightarrow> v < NX_VIRT_DEV_MAX \<and>
     unlinked S (rwnx_txq_vif_get S v NX_BCMC_TXQ_TYPE) \<and> unlinked S (rwnx_txq_vif_get S v NX_UNK_TXQ_TYPE)"
| "tx_allowed (AuthEnable v) S \<longleftrightarrow> unlinked S (rwnx_txq_vif_get S v NX_UNK_TXQ_TYPE)"
| "tx_allowed (OffchanInit v) S \<longleftrightarrow> unlinked S (NX_OFF_CHAN_TXQ_IDX (old_ic S))"
| "tx_allowed (TdlsInit b v) S \<longleftrightarrow> unlinked S (rwnx_txq_vif_get S v NX_UNK_TXQ_TYPE)"
| "tx_allowed (SetSta s t) S \<longleftrightarrow> ts_vif t < NX_VIRT_DEV_MAX"
| "tx_allowed _ S \<longleftrightarrow> True"

text \<open>How many confirmations ask for a frame to be sent again.\<close>

fun is_retry :: "tx_op \<Rightarrow> bool" where
  "is_retry (Cfm st i) = retry_status st"
| "is_retry _ = False"

definition retries :: "tx_op list \<Rightarrow> nat" where
  "retries ops = length (filter is_retry ops)"

fun tx_run :: "tx_mem \<Rightarrow> tx_op list \<Rightarrow> tx_sys \<Rightarrow> tx_sys option" where
  "tx_run M [] S = Some S"
| "tx_run M (op # ops) S = Option.bind (tx_do M op S) (tx_run M ops)"

fun run_allowed :: "tx_mem \<Rightarrow> tx_op list \<Rightarrow> tx_sys \<Rightarrow> bool" where
  "run_allowed M [] S \<longleftrightarrow> True"
| "run_allowed M (op # ops) S \<longleftrightarrow> tx_allowed op S \<and> (case tx_do M op S of None \<Rightarrow> True | Some S \<Rightarrow> run_allowed M ops S)"

text \<open>The driver after its probe: the queues are marked as not in use.\<close>

definition txq_zero :: rwnx_txq where
  "txq_zero = \<lparr>q_idx = 0, q_status = {}, q_credits = 0, q_pkt_sent = 0, q_pkt_pushed = 0, q_sk_list = [], q_last_retry = None,
     q_hwq = 0, q_nb_retry = 0, q_push_limit = 0, q_tid = 0, q_sta = None, q_ps_id = 0, q_ndev_idx = 0, q_ndev = 0\<rparr>"

definition tx_init :: "bool \<Rightarrow> (nat \<Rightarrow> tx_sta) \<Rightarrow> (nat \<Rightarrow> tx_vif) \<Rightarrow> aic_usb_dev \<Rightarrow> tx_sys" where
  "tx_init old T V D = rwnx_hwq_init
     \<lparr>txqs = (\<lambda>x. txq_zero\<lparr>q_idx := TXQ_INACTIVE\<rparr>), hwqs = (\<lambda>h. \<lparr>hq_list = [], hq_size = 0, need_processing = False\<rparr>),
      tx_stas = T, tx_vifs = V, usbdev = D, usb_env = \<lparr>txdesc_free_idx = 0, txdesc_used_idx = 0, tx_host_id = (\<lambda>_. None)\<rparr>,
      old_ic = old, cfm_balance = (\<lambda>_. 0)\<rparr>"

section \<open>Every operation\<close>

lemma tx_init_ok: "(\<And>s. ts_vif (T s) < NX_VIRT_DEV_MAX) \<Longrightarrow> tx_ok 0 (tx_init old T V D)"
  by (auto simp: tx_ok_def sched_ok_def hwl_def tx_init_def rwnx_hwq_init_def queue_ok_def txq_zero_def)

lemma each_total:
  assumes "\<And>s S. \<exists>S'. f (Some s) S = Some S'"
  shows "\<exists>S'. fold (\<lambda>s r. Option.bind r (f (Some s))) l (Some S) = Some S'"
proof (induction l arbitrary: S)
  case (Cons s l)
  obtain S1 where "f (Some s) S = Some S1" using assms by blast
  then show ?case using Cons by simp
qed simp

lemma for_each_sta_total:
  assumes "\<And>s S. \<exists>S'. f (Some s) S = Some S'" "vif_ok S v" "tv_type (tx_vifs S v) \<noteq> NL_MONITOR"
  shows "\<exists>S'. rwnx_txq_vif_for_each_sta f v S = Some S'"
proof -
  let ?V = "tx_vifs S v"
  have tdls: "\<exists>T. (if tdls_link_active ?V then f (tv_tdls_sta ?V) S else Some S) = Some T"
    using assms(1)[of _ S] assms(2) by (cases "tdls_link_active ?V"; cases "tv_tdls_sta ?V") (simp_all add: vif_ok_def)
  have ap: "\<exists>S'. (if tv_ap ?V = None then Some T else f (tv_ap ?V) T) = Some S'" for T
    using assms(1)[of _ T] by (cases "tv_ap ?V") simp_all
  obtain T where T: "(if tdls_link_active ?V then f (tv_tdls_sta ?V) S else Some S) = Some T" using tdls by blast
  have both: "\<exists>S'. Option.bind (if tdls_link_active ?V then f (tv_tdls_sta ?V) S else Some S)
      (\<lambda>T. if tv_ap ?V = None then Some T else f (tv_ap ?V) T) = Some S'"
    unfolding T Option.bind.bind_lunit by (rule ap)
  have each: "\<exists>S'. fold (\<lambda>s r. Option.bind r (f (Some s))) l (Some S) = Some S'" for l by (rule each_total) (rule assms(1))
  have "tv_type ?V \<noteq> NL_OTHER" using assms(2) by (simp add: vif_ok_def)
  then show ?thesis unfolding rwnx_txq_vif_for_each_sta_def Let_def
    using assms(3) by (cases "tv_type ?V") (simp_all only: nl80211_iftype.case both each simp_thms)
qed

lemma sta_init_total: "\<exists>S'. rwnx_txq_sta_init s st S = Some S'"
proof -
  define F where "F S0 = (\<lambda>(tid, x) r. do { S \<leftarrow> r;
      S \<leftarrow> rwnx_txq_init x (rwnx_txq_sta_idx S s 0 + tid) st (rwnx_tid2hwq tid) tid (Some s) (tv_ndev (tx_vifs S0 (ts_vif (tx_stas S0 s)))) S;
      Some (upd_txq x (\<lambda>q. q\<lparr>q_ps_id := (if bit (uapsd_tids (tx_stas S s)) tid then UAPSD_ID else LEGACY_PS_ID)\<rparr>) S) })" for S0 :: tx_sys
  have "\<exists>R'. F S0 tx (Some R) = Some R'" for tx R S0
    by (cases tx) (auto simp: F_def rwnx_txq_init_def Let_def)
  then have "\<exists>R'. fold (F S0) l (Some R) = Some R'" for l R S0
    by (induction l arbitrary: R) (simp, metis fold_simps(2))
  then show ?thesis by (simp add: rwnx_txq_sta_init_def F_def Let_def)
qed

lemma vif_init_total: "\<exists>S'. rwnx_txq_vif_init v st S = Some S'"
  by (auto simp: rwnx_txq_vif_init_def rwnx_txq_init_def Let_def rwnx_txq_vif_get_def rwnx_txq_vif_idx_def NX_UNK_TXQ_TYPE_def
      NX_BCMC_TXQ_TYPE_def NX_FIRST_UNK_TXQ_IDX_def bind_eq_Some_conv)

lemma unk_init_total: "\<exists>S'. rwnx_txq_unk_vif_init v S = Some S'"
  by (simp add: rwnx_txq_unk_vif_init_def rwnx_txq_init_def Let_def rwnx_txq_vif_get_def rwnx_txq_vif_idx_def NX_UNK_TXQ_TYPE_def
      NX_FIRST_UNK_TXQ_IDX_def)

lemma sta_add_ok:
  assumes "tx_ok n S" "0 \<le> n" "\<not> is_multicast_sta (old_ic S) s" "list_all (unlinked S) (sta_txqs S s)"
  shows "\<exists>S'. sta_add s pm S = Some S' \<and> tx_ok n S'"
proof -
  let ?st = "rwnx_txq_vif_get_status S (ts_vif (tx_stas S s))"
  obtain S1 where S1: "rwnx_txq_sta_init s ?st S = Some S1" using sta_init_total by blast
  have "tx_ok n S1"
    using sta_init_ok[OF S1 assms(1,2) _ assms(3)] assms(4) by (simp add: rwnx_txq_vif_get_status_def list_all_iff unlinked_def)
  then show ?thesis unfolding sta_add_def by (simp add: S1 Let_def ps_enable_ok)
qed

lemma sta_del_ok: "tx_ok n S \<Longrightarrow> tx_ok n (sta_del s S)"
  unfolding sta_del_def Let_def rwnx_txq_sta_deinit_def
  by (rule fold_ok) (auto simp: tx_ok_deinit intro!: tx_ok_sta_upd)

lemma tx_ok_ndev:
  assumes "tx_ok n S"
  shows "tx_ok n (upd_txq x (\<lambda>q. q\<lparr>q_ndev := d\<rparr>) S)"
  using assms tx_ok_queue[OF assms, of x] by (intro tx_ok_upd) (auto simp: queue_ok_def)

lemma sta_move_ok: "tx_ok n S \<Longrightarrow> tx_ok n (rwnx_txq_sta_switch_vif s v S)"
  unfolding rwnx_txq_sta_switch_vif_def by (rule fold_ok) (simp_all only: tx_ok_usb tx_ok_ndev)

lemma hwl_stas [simp]: "hwl (S\<lparr>tx_stas := T\<rparr>) = hwl S"
  by (simp add: hwl_def fun_eq_iff)

lemma ap_start_ok:
  assumes "tx_ok n S" "0 \<le> n" "tx_allowed (ApStart v b) S"
  shows "\<exists>S'. ap_start v b S = Some S' \<and> tx_ok n S'"
proof -
  let ?S = "upd_sta (bcmc_index (tx_vifs S v)) (\<lambda>t. t\<lparr>ts_vif := v, ps_active := False\<rparr>) S"
  have ok: "tx_ok n ?S" using assms(1,3) by (simp add: tx_ok_def)
  have e: "rwnx_txq_vif_get ?S v t = rwnx_txq_vif_get S v t" for t
    by (simp add: rwnx_txq_vif_get_def rwnx_txq_vif_idx_def master_vif_idx_def)
  obtain S' where S': "rwnx_txq_vif_init v (if b then {} else {STOP_CHAN}) ?S = Some S'" using vif_init_total by blast
  have "tx_ok n S'" by (rule vif_init_ok[OF S' ok assms(2)]) (use assms(3) in \<open>simp_all add: e unlinked_def\<close>)
  then show ?thesis using S' by (simp add: ap_start_def)
qed

lemma unk_ok:
  assumes "tx_ok n S" "0 \<le> n" "unlinked S (rwnx_txq_vif_get S v NX_UNK_TXQ_TYPE)"
  shows "\<exists>S'. rwnx_txq_unk_vif_init v S = Some S' \<and> tx_ok n S'"
  using unk_init_total[of v S] unk_init_ok[of v S _ n] assms by (auto simp: unlinked_def)

lemma auth_enable_ok:
  assumes "tx_ok n S" "0 \<le> n" "unlinked S (rwnx_txq_vif_get S v NX_UNK_TXQ_TYPE)"
  shows "\<exists>S'. rwnx_external_auth_enable v S = Some S' \<and> tx_ok n S'"
proof -
  let ?S = "S\<lparr>tx_vifs := (tx_vifs S)(v := (tx_vifs S v)\<lparr>external_auth := True\<rparr>)\<rparr>"
  have "rwnx_txq_vif_get ?S v NX_UNK_TXQ_TYPE = rwnx_txq_vif_get S v NX_UNK_TXQ_TYPE"
    by (simp add: rwnx_txq_vif_get_def rwnx_txq_vif_idx_def master_vif_idx_def)
  then obtain S' where "rwnx_txq_unk_vif_init v ?S = Some S'" "tx_ok n S'"
    using unk_ok[of n ?S v] assms by (auto simp: unlinked_def)
  then show ?thesis by (simp add: rwnx_external_auth_enable_def tx_ok_start)
qed

lemma offchan_init_ok:
  assumes "tx_ok n S" "0 \<le> n" "unlinked S (NX_OFF_CHAN_TXQ_IDX (old_ic S))"
  shows "\<exists>S'. rwnx_txq_offchan_init v S = Some S' \<and> tx_ok n S'"
proof -
  obtain S' where S': "rwnx_txq_offchan_init v S = Some S'"
    by (auto simp: rwnx_txq_offchan_init_def rwnx_txq_init_def Let_def NX_OFF_CHAN_TXQ_IDX_def NX_FIRST_UNK_TXQ_IDX_def)
  have "tx_ok n S'"
    by (rule tx_ok_init[OF S'[unfolded rwnx_txq_offchan_init_def] assms(1)])
      (use assms(2,3) in \<open>simp_all add: unlinked_def NX_OFF_CHAN_TXQ_IDX_def NX_FIRST_UNK_TXQ_IDX_def NX_VIRT_DEV_MAX_def\<close>)
  then show ?thesis using S' by blast
qed

lemma vif_start_total:
  assumes "vif_ok S v"
  shows "\<exists>S'. rwnx_txq_vif_start v r S = Some S'"
proof (cases "tv_type (tx_vifs S v) = NL_MONITOR \<or> tv_roc_tdls (tx_vifs S v)")
  case True
  then show ?thesis by (auto simp: rwnx_txq_vif_start_def Let_def)
next
  case False
  then obtain T where "rwnx_txq_vif_for_each_sta (\<lambda>s S. map_option (\<lambda>s. rwnx_txq_sta_start r s S) s) v S = Some T"
    using for_each_sta_total[of "\<lambda>s S. map_option (\<lambda>s. rwnx_txq_sta_start r s S) s" S v] assms by auto
  then show ?thesis using False by (simp add: rwnx_txq_vif_start_def Let_def)
qed

lemma vif_stop_total:
  assumes "vif_ok S v"
  shows "\<exists>S'. rwnx_txq_vif_stop v r S = Some S'"
proof (cases "tv_type (tx_vifs S v) = NL_MONITOR")
  case False
  then obtain T where "rwnx_txq_vif_for_each_sta (\<lambda>s S. Some (case s of None \<Rightarrow> S | Some s \<Rightarrow> rwnx_txq_sta_stop r s S)) v S = Some T"
    using for_each_sta_total[of "\<lambda>s S. Some (case s of None \<Rightarrow> S | Some s \<Rightarrow> rwnx_txq_sta_stop r s S)" S v] assms by auto
  then show ?thesis using False by (simp add: rwnx_txq_vif_stop_def Let_def)
qed (simp add: rwnx_txq_vif_stop_def)

lemma tx_do_ok:
  assumes "tx_ok n S" "0 \<le> n" "is_retry op \<Longrightarrow> n \<le> 62" "mem_ok M" "tx_allowed op S"
  shows "\<exists>S'. tx_do M op S = Some S' \<and> tx_ok (n + (if is_retry op then 1 else 0)) S'"
proof (cases op)
  case (Cfm st i)
  then show ?thesis using cfm_handler_ok[OF assms(1), of st i] assms(3) by simp
next
  case (VifStart v r)
  then have v: "vif_ok S v" "IN_HWQ_LIST \<notin> r" using assms(5) by simp_all
  obtain S' where "rwnx_txq_vif_start v r S = Some S'" using vif_start_total[OF v(1)] by blast
  then show ?thesis using tx_ok_vif_start[of v r S S' n] VifStart assms(1,5) by simp
next
  case (VifStop v r)
  then have v: "vif_ok S v" "IN_HWQ_LIST \<notin> r" using assms(5) by simp_all
  obtain S' where "rwnx_txq_vif_stop v r S = Some S'" using vif_stop_total[OF v(1)] by blast
  then show ?thesis using tx_ok_vif_stop[of v r S S' n] VifStop assms(1,5) by simp
next
  case (StaAdd s pm)
  then show ?thesis using sta_add_ok[OF assms(1,2)] assms(5) by simp
next
  case (ApStart v b)
  then show ?thesis using ap_start_ok[OF assms(1,2), of v b] assms(5) by simp
next
  case (AuthDisable v)
  then show ?thesis using assms(1)
    by (simp add: rwnx_external_auth_disable_def rwnx_txq_unk_vif_deinit_def tx_ok_deinit)
next
  case (ApStop v)
  then show ?thesis using assms(1) by (simp add: rwnx_txq_vif_deinit_def Let_def tx_ok_deinit)
next
  case (TdlsInit b v)
  then show ?thesis using unk_ok[OF assms(1,2), of v] assms(1,5) by (simp add: rwnx_txq_tdls_vif_init_def)
next
  case (SetSta s t)
  then show ?thesis using assms(1,5) by (simp add: tx_ok_def)
qed (use assms(1,2,4,5) in \<open>simp_all add: tx_send_ok task_ok auth_enable_ok offchan_init_ok ps_enable_ok traffic_req_ok sta_del_ok
   sta_move_ok rwnx_txq_offchan_start_def tx_ok_start rwnx_txq_offchan_deinit_def tx_ok_deinit rwnx_txq_tdls_vif_deinit_def
   rwnx_txq_unk_vif_deinit_def credit_update_ok\<close>)

section \<open>Runs\<close>

lemma tx_run_ok:
  assumes "tx_ok n S" "0 \<le> n" "n + int (retries ops) \<le> 63" "mem_ok M" "run_allowed M ops S"
  shows "\<exists>S'. tx_run M ops S = Some S' \<and> tx_ok (n + int (retries ops)) S'"
  using assms
proof (induction ops arbitrary: n S)
  case (Cons op ops)
  have b: "is_retry op \<Longrightarrow> n \<le> 62" using Cons(4) by (simp add: retries_def)
  obtain S1 where S1: "tx_do M op S = Some S1" "tx_ok (n + (if is_retry op then 1 else 0)) S1"
    using tx_do_ok[OF Cons(2,3) b Cons(5)] Cons(6) by auto
  have e: "n + (if is_retry op then 1 else 0) + int (retries ops) = n + int (retries (op # ops))" by (simp add: retries_def)
  obtain S' where "tx_run M ops S1 = Some S'" "tx_ok (n + int (retries (op # ops))) S'"
    using Cons(1)[OF S1(2)] Cons(3-6) S1(1) unfolding e by auto
  then show ?case using S1(1) by auto
qed (simp add: retries_def)

lemma tx_reach_ok:
  assumes "\<And>s. ts_vif (T s) < NX_VIRT_DEV_MAX" "retries ops \<le> 63" "mem_ok M" "run_allowed M ops (tx_init old T V D)"
  shows "\<exists>S. tx_run M ops (tx_init old T V D) = Some S \<and> tx_ok 63 S"
proof -
  obtain S where "tx_run M ops (tx_init old T V D) = Some S" "tx_ok (0 + int (retries ops)) S"
    using tx_run_ok[OF tx_init_ok[OF assms(1)] _ _ assms(3,4)] assms(2) by auto
  then show ?thesis using tx_ok_mono[of "0 + int (retries ops)" S 63] assms(2) by auto
qed

end
