(* ===== verification/TxQueueProps.thy ===== *)
theory TxQueueProps
  imports TxQueueRun UsbTxProps
begin

text \<open>
  What the transmit queues promise: no run reaches a \<^verbatim>\<open>BUG_ON\<close>, every linked queue is
  served, a service period lets out what was asked for, a frame that is sent again comes before the new
  ones, a confirmation finds its frame; and where they do not.
\<close>

section \<open>Indices\<close>

lemma max_consts: "NX_REMOTE_STA_MAX True = 8" "NX_REMOTE_STA_MAX False = 32"
  by (simp_all add: NX_REMOTE_STA_MAX_def)

lemmas idx_defs = NX_NB_TXQ_def NX_NB_TXQ_PER_STA_def NX_NB_TID_PER_STA_def NX_VIRT_DEV_MAX_def NX_FIRST_VIF_TXQ_IDX_def
  NX_FIRST_UNK_TXQ_IDX_def NX_OFF_CHAN_TXQ_IDX_def NX_BCMC_TXQ_TYPE_def NX_UNK_TXQ_TYPE_def

lemma vif_slot: "rwnx_txq_vif_get S v t = NX_FIRST_VIF_TXQ_IDX (old_ic S) + master_vif_idx S v + (if t > 1 then 0 else t) * 4"
  by (simp add: rwnx_txq_vif_get_def rwnx_txq_vif_idx_def NX_UNK_TXQ_TYPE_def NX_BCMC_TXQ_TYPE_def NX_VIRT_DEV_MAX_def)

lemma sta_slot:
  assumes "\<not> is_multicast_sta (old_ic S) s"
  shows "rwnx_txq_sta_get S s tid = s * 9 + (if tid \<ge> 9 then 0 else tid)" "rwnx_txq_sta_get S s tid < NX_FIRST_VIF_TXQ_IDX (old_ic S)"
  using assms by (auto simp: rwnx_txq_sta_get_def rwnx_txq_sta_idx_def is_multicast_sta_def NX_FIRST_VIF_TXQ_IDX_def
      NX_NB_TXQ_PER_STA_def NX_NB_TID_PER_STA_def not_le)

lemma multicast_sta_slot: "is_multicast_sta (old_ic S) s \<Longrightarrow> rwnx_txq_sta_get S s tid = NX_FIRST_VIF_TXQ_IDX (old_ic S) + ts_vif (tx_stas S s)"
  by (simp add: rwnx_txq_sta_get_def rwnx_txq_sta_idx_def)

lemma sta_slot_inj:
  assumes "\<not> is_multicast_sta (old_ic S) s" "\<not> is_multicast_sta (old_ic S) s'" "tid < 9" "tid' < 9"
    "rwnx_txq_sta_get S s tid = rwnx_txq_sta_get S s' tid'"
  shows "s = s' \<and> tid = tid'"
proof -
  have "s * 9 + tid = s' * 9 + tid'" using assms sta_slot(1)[OF assms(1), of tid] sta_slot(1)[OF assms(2), of tid'] by simp
  then show ?thesis using assms(3,4) by presburger
qed

lemma vif_slot_inj:
  assumes "t \<le> 1" "t' \<le> 1" "master_vif_idx S v < 4" "master_vif_idx S v' < 4" "rwnx_txq_vif_get S v t = rwnx_txq_vif_get S v' t'"
  shows "master_vif_idx S v = master_vif_idx S v' \<and> t = t'"
proof -
  have "master_vif_idx S v + t * 4 = master_vif_idx S v' + t' * 4" using assms by (simp add: vif_slot split: if_splits)
  then show ?thesis using assms(1-4) by presburger
qed

lemma off_chan_slot: "NX_OFF_CHAN_TXQ_IDX (old_ic S) = NX_FIRST_VIF_TXQ_IDX (old_ic S) + 8" "NX_OFF_CHAN_TXQ_IDX (old_ic S) < NX_NB_TXQ"
  by (simp_all add: idx_defs NX_REMOTE_STA_MAX_def)

text \<open>
  C24: Queue indices are well typed: the queue of every station and traffic identifier, of every interface
  and type, and the off-channel queue lie in the table of \<open>NX_NB_TXQ\<close> queues, and two of them are the same
  queue only for the same station and identifier, or the same master interface and type. A broadcast
  station has the broadcast queue of its interface.
\<close>

theorem txq_index_typed:
  assumes "\<forall>s. ts_vif (tx_stas S s) < NX_VIRT_DEV_MAX" "\<forall>v. master_vif_idx S v < NX_VIRT_DEV_MAX"
  shows "rwnx_txq_sta_get S s tid < NX_OFF_CHAN_TXQ_IDX (old_ic S) \<and> rwnx_txq_vif_get S v ty < NX_OFF_CHAN_TXQ_IDX (old_ic S) \<and>
    NX_OFF_CHAN_TXQ_IDX (old_ic S) < NX_NB_TXQ \<and>
    (\<not> is_multicast_sta (old_ic S) s \<and> \<not> is_multicast_sta (old_ic S) s' \<and> tid < NX_NB_TXQ_PER_STA \<and> tid' < NX_NB_TXQ_PER_STA \<and>
       rwnx_txq_sta_get S s tid = rwnx_txq_sta_get S s' tid' \<longrightarrow> s = s' \<and> tid = tid') \<and>
    (\<not> is_multicast_sta (old_ic S) s \<longrightarrow> rwnx_txq_sta_get S s tid \<noteq> rwnx_txq_vif_get S v ty) \<and>
    (ty \<le> NX_UNK_TXQ_TYPE \<and> ty' \<le> NX_UNK_TXQ_TYPE \<and> rwnx_txq_vif_get S v ty = rwnx_txq_vif_get S v' ty' \<longrightarrow>
       master_vif_idx S v = master_vif_idx S v' \<and> ty = ty') \<and>
    (is_multicast_sta (old_ic S) s \<and> master_vif_idx S (ts_vif (tx_stas S s)) = ts_vif (tx_stas S s) \<longrightarrow>
       rwnx_txq_sta_get S s tid = rwnx_txq_vif_get S (ts_vif (tx_stas S s)) NX_BCMC_TXQ_TYPE)"
proof -
  have v: "ts_vif (tx_stas S s) < 4" "master_vif_idx S v < 4" "master_vif_idx S v' < 4"
    using assms by (simp_all add: NX_VIRT_DEV_MAX_def)
  have n: "NX_NB_TXQ_PER_STA = 9" "NX_UNK_TXQ_TYPE = 1" by (simp_all add: idx_defs)
  show ?thesis unfolding n
  proof (intro conjI impI)
    show "rwnx_txq_sta_get S s tid < NX_OFF_CHAN_TXQ_IDX (old_ic S)"
      using sta_slot(2)[of S s tid] multicast_sta_slot[of S s tid] v(1)
      by (cases "is_multicast_sta (old_ic S) s") (simp_all add: off_chan_slot(1))
    show "rwnx_txq_vif_get S v ty < NX_OFF_CHAN_TXQ_IDX (old_ic S)" using vif_slot[of S v ty] v(2) by (auto simp: off_chan_slot(1))
    show "NX_OFF_CHAN_TXQ_IDX (old_ic S) < NX_NB_TXQ" by (rule off_chan_slot(2))
    show "rwnx_txq_sta_get S s tid \<noteq> rwnx_txq_vif_get S v ty" if "\<not> is_multicast_sta (old_ic S) s"
      using sta_slot(2)[OF that, of tid] vif_slot[of S v ty] by linarith
    show "rwnx_txq_sta_get S s tid = rwnx_txq_vif_get S (ts_vif (tx_stas S s)) NX_BCMC_TXQ_TYPE"
      if "is_multicast_sta (old_ic S) s \<and> master_vif_idx S (ts_vif (tx_stas S s)) = ts_vif (tx_stas S s)"
      using that multicast_sta_slot[of S s tid] by (simp add: vif_slot NX_BCMC_TXQ_TYPE_def)
  qed (use sta_slot_inj[of S s s' tid tid'] vif_slot_inj[OF _ _ v(2,3), of ty ty'] in blast)+
qed

section \<open>The ring of descriptors\<close>

lemma ring_push:
  "txdesc_free_idx (aicwf_usb_host_txdesc_push f E) = (if txdesc_free_idx E + 1 = 0x40000000 then 0 else txdesc_free_idx E + 1)"
  "tx_host_id (aicwf_usb_host_txdesc_push f E) =
     (tx_host_id E)(unat (txdesc_free_idx E) mod USB_TXDESC_CNT := Some f)"
  by (simp_all add: aicwf_usb_host_txdesc_push_def Let_def)

lemma unat_Suc_small: "Suc (unat i) < 2 ^ 32 \<Longrightarrow> unat ((i :: u32) + 1) = Suc (unat i)"
  using iffD1[OF unat_add_lem[of i 1]] by simp

lemma next_slot:
  assumes "txdesc_free_idx E < 0x40000000"
  shows "txdesc_free_idx (aicwf_usb_host_txdesc_push f E) < 0x40000000 \<and>
    unat (txdesc_free_idx (aicwf_usb_host_txdesc_push f E)) mod USB_TXDESC_CNT = Suc (unat (txdesc_free_idx E)) mod USB_TXDESC_CNT"
proof -
  let ?i = "txdesc_free_idx E"
  have l: "unat ?i < 0x40000000" using assms by (simp add: word_less_nat_alt)
  have u: "unat (?i + 1) = Suc (unat ?i)" by (rule unat_Suc_small) (use l in simp)
  show ?thesis
  proof (cases "?i + 1 = 0x40000000")
    case True
    then have "Suc (unat ?i) = 0x40000000" using u by simp
    then show ?thesis using True by (simp add: ring_push USB_TXDESC_CNT_def)
  next
    case False
    then have "Suc (unat ?i) \<noteq> 0x40000000" using u by (simp add: word_unat_eq_iff)
    then show ?thesis using False l u by (simp add: ring_push word_less_nat_alt)
  qed
qed

lemma ring_keeps:
  assumes "txdesc_free_idx E < 0x40000000" "\<forall>k < length fs. (unat (txdesc_free_idx E) + k) mod USB_TXDESC_CNT \<noteq> j"
  shows "tx_host_id (fold aicwf_usb_host_txdesc_push fs E) j = tx_host_id E j"
  using assms
proof (induction fs arbitrary: E)
  case (Cons f fs)
  let ?E = "aicwf_usb_host_txdesc_push f E"
  note n = next_slot[OF Cons(2), of f]
  have "(unat (txdesc_free_idx ?E) + k) mod USB_TXDESC_CNT \<noteq> j" if "k < length fs" for k
  proof -
    have "(unat (txdesc_free_idx ?E) + k) mod USB_TXDESC_CNT = (unat (txdesc_free_idx E) + Suc k) mod USB_TXDESC_CNT"
      using n mod_add_cong[of "unat (txdesc_free_idx ?E)" USB_TXDESC_CNT "Suc (unat (txdesc_free_idx E))" k k] by simp
    then show ?thesis using Cons(3) that by auto
  qed
  then have "tx_host_id (fold aicwf_usb_host_txdesc_push fs ?E) j = tx_host_id ?E j" using Cons(1)[of ?E] n by blast
  moreover have "unat (txdesc_free_idx E) mod USB_TXDESC_CNT \<noteq> j" using Cons(3) by fastforce
  ultimately show ?case by (simp add: ring_push(2))
qed simp

lemma ring_idx: "txdesc_free_idx E < 0x40000000 \<Longrightarrow> txdesc_free_idx (fold aicwf_usb_host_txdesc_push fs E) < 0x40000000 \<and>
    unat (txdesc_free_idx (fold aicwf_usb_host_txdesc_push fs E)) mod USB_TXDESC_CNT = (unat (txdesc_free_idx E) + length fs) mod USB_TXDESC_CNT"
proof (induction fs arbitrary: E)
  case (Cons f fs)
  note n = next_slot[OF Cons(2), of f]
  have "(unat (txdesc_free_idx (aicwf_usb_host_txdesc_push f E)) + length fs) mod USB_TXDESC_CNT = (unat (txdesc_free_idx E) + length (f # fs)) mod USB_TXDESC_CNT"
    using n mod_add_cong[of "unat (txdesc_free_idx (aicwf_usb_host_txdesc_push f E))" USB_TXDESC_CNT "Suc (unat (txdesc_free_idx E))" "length fs" "length fs"]
    by simp
  then show ?case using Cons(1)[of "aicwf_usb_host_txdesc_push f E"] n by simp
qed simp

lemma ring_other: "0 < k \<Longrightarrow> k < USB_TXDESC_CNT \<Longrightarrow> (i + k) mod USB_TXDESC_CNT \<noteq> i mod USB_TXDESC_CNT"
  using mod_eq_dvd_iff_nat[of i "i + k" USB_TXDESC_CNT] dvd_imp_le[of USB_TXDESC_CNT k] by auto

text \<open>
  C22: A confirmation finds the frame its index was given to, as long as fewer than 64 frames that need a
  confirmation were pushed after it: the handler confirms that frame. The 64th takes its place in the
  ring, and nothing prevents it: the ring is never tested for being full.
\<close>

theorem confirmation_finds_frame:
  assumes "txdesc_free_idx E < 0x40000000" "length fs < USB_TXDESC_CNT" "st \<noteq> 0"
    "usb_env S = fold aicwf_usb_host_txdesc_push (f # fs) E"
  shows "aicwf_usb_host_tx_cfm_handler st (txdesc_free_idx E) S =
      snd (rwnx_txdatacfm f st (S\<lparr>usb_env := (usb_env S)\<lparr>tx_host_id :=
        (tx_host_id (usb_env S))(unat (txdesc_free_idx E) mod USB_TXDESC_CNT := None)\<rparr>\<rparr>)) \<and>
    (length fs = USB_TXDESC_CNT - 1 \<longrightarrow>
      tx_host_id (aicwf_usb_host_txdesc_push g (usb_env S)) (unat (txdesc_free_idx E) mod USB_TXDESC_CNT) = Some g)"
proof (intro conjI impI)
  let ?i = "unat (txdesc_free_idx E) mod USB_TXDESC_CNT" and ?E = "aicwf_usb_host_txdesc_push f E"
  note n = next_slot[OF assms(1), of f]
  have "(unat (txdesc_free_idx ?E) + k) mod USB_TXDESC_CNT \<noteq> ?i" if "k < length fs" for k
  proof -
    have "(unat (txdesc_free_idx ?E) + k) mod USB_TXDESC_CNT = (unat (txdesc_free_idx E) + Suc k) mod USB_TXDESC_CNT"
      using n mod_add_cong[of "unat (txdesc_free_idx ?E)" USB_TXDESC_CNT "Suc (unat (txdesc_free_idx E))" k k] by simp
    then show ?thesis using ring_other[of "Suc k" "unat (txdesc_free_idx E)"] that assms(2) by linarith
  qed
  then have h: "tx_host_id (usb_env S) ?i = Some f" using ring_keeps[of ?E fs ?i] n assms(4) by (simp add: ring_push(2))
  have r: "fst (rwnx_txdatacfm f st T) = 0" for T using assms(3) by (simp add: rwnx_txdatacfm_def Let_def)
  let ?S = "S\<lparr>usb_env := (usb_env S)\<lparr>tx_host_id := (tx_host_id (usb_env S))(?i := None)\<rparr>\<rparr>"
  show "aicwf_usb_host_tx_cfm_handler st (txdesc_free_idx E) S = snd (rwnx_txdatacfm f st ?S)"
    using h r[of ?S] by (cases "rwnx_txdatacfm f st ?S") (simp add: aicwf_usb_host_tx_cfm_handler_def Let_def)
  assume l: "length fs = USB_TXDESC_CNT - 1"
  have "unat (txdesc_free_idx (usb_env S)) mod USB_TXDESC_CNT = ?i"
    using ring_idx[OF assms(1), of "f # fs"] l assms(4) by (simp add: USB_TXDESC_CNT_def)
  then show "tx_host_id (aicwf_usb_host_txdesc_push g (usb_env S)) ?i = Some g" by (simp add: ring_push(2))
qed

section \<open>Order\<close>

lemma insert_after_last: "R \<noteq> [] \<Longrightarrow> distinct (map f_id (R @ N)) \<Longrightarrow> insert_after (f_id (last R)) f (R @ N) = R @ f # N"
proof (induction R)
  case (Cons r R)
  show ?case
  proof (cases "R = []")
    case False
    then have "f_id r \<noteq> f_id (last R)" using Cons(3) by (auto dest: arg_cong[where f=f_id])
    then show ?thesis using Cons False by simp
  qed simp
qed simp

lemma flow_stop_list: "q_sk_list (txqs (flow_ctrl_stop x S) y) = q_sk_list (txqs S y)"
  "q_last_retry (txqs (flow_ctrl_stop x S) y) = q_last_retry (txqs S y)"
  "q_nb_retry (txqs (flow_ctrl_stop x S) y) = q_nb_retry (txqs S y)"
  "q_credits (txqs (flow_ctrl_stop x S) y) = q_credits (txqs S y)"
  "q_idx (txqs (flow_ctrl_stop x S) y) = q_idx (txqs S y)"
  "q_hwq (txqs (flow_ctrl_stop x S) y) = q_hwq (txqs S y)"
  "IN_HWQ_LIST \<in> q_status (txqs (flow_ctrl_stop x S) y) \<longleftrightarrow> IN_HWQ_LIST \<in> q_status (txqs S y)"
  "rwnx_txq_is_stopped (txqs (flow_ctrl_stop x S) y) = rwnx_txq_is_stopped (txqs S y)"
  "hwqs (flow_ctrl_stop x S) = hwqs S"
  by (simp_all add: flow_ctrl_stop_def Let_def rwnx_txq_is_stopped_def TXQ_STOP_def)

lemma add_list: "q_sk_list (txqs (rwnx_txq_add_to_hw_list x S) y) = q_sk_list (txqs S y)"
  "q_last_retry (txqs (rwnx_txq_add_to_hw_list x S) y) = q_last_retry (txqs S y)"
  "q_nb_retry (txqs (rwnx_txq_add_to_hw_list x S) y) = q_nb_retry (txqs S y)"
  "q_credits (txqs (rwnx_txq_add_to_hw_list x S) y) = q_credits (txqs S y)"
  "q_idx (txqs (rwnx_txq_add_to_hw_list x S) y) = q_idx (txqs S y)"
  by (simp_all add: txqs_add)

lemma stopped_fields [simp]: "rwnx_txq_is_stopped (queue_list g r q) = rwnx_txq_is_stopped q"
  "rwnx_txq_is_stopped (q\<lparr>q_credits := c\<rparr>) = rwnx_txq_is_stopped q"
  by (simp_all add: rwnx_txq_is_stopped_def queue_list_def)



text \<open>The frames of a queue: those to be sent again, then the new ones.\<close>

definition split_queue :: "tx_frame list \<Rightarrow> tx_frame list \<Rightarrow> rwnx_txq \<Rightarrow> bool" where
  "split_queue R N q \<longleftrightarrow> q_sk_list q = R @ N \<and> q_nb_retry q = int (length R) \<and>
     q_last_retry q = (if R = [] then None else Some (f_id (last R))) \<and> distinct (map f_id (R @ N))"

text \<open>
  C23: A frame that has to be sent again is queued behind the earlier ones of its kind and before every new
  frame; a new frame is queued last. The counter and the marker of the retried frames follow.
\<close>

theorem retries_before_new_frames:
  assumes "split_queue R N (txqs S x)" "f_id f \<notin> f_id ` set (R @ N)"
  shows "split_queue (if retry then R @ [f] else R) (if retry then N else N @ [f]) (txqs (snd (rwnx_txq_queue_skb f x retry S)) x)"
proof -
  have q: "split_queue (if retry then R @ [f] else R) (if retry then N else N @ [f]) (queue_list f retry (txqs S x))"
    using assms insert_after_last[of R N f] by (auto simp: split_queue_def queue_list_def)
  let ?q = "txqs (snd (rwnx_txq_queue_skb f x retry S)) x"
  have "txqs (ps_count x S) = txqs S" by (rule ps_count_core(2))
  then have "q_sk_list ?q = q_sk_list (queue_list f retry (txqs S x))" "q_nb_retry ?q = q_nb_retry (queue_list f retry (txqs S x))"
    "q_last_retry ?q = q_last_retry (queue_list f retry (txqs S x))"
    by (simp_all add: rwnx_txq_queue_skb_def Let_def add_list flow_stop_list)
  then show ?thesis using q unfolding split_queue_def by (simp only:)
qed

section \<open>What the code does not survive\<close>

lemma get_process_None:
  assumes "hq_list (hwqs S h) = x # xs"
    "IN_HWQ_LIST \<notin> q_status (txqs S x) \<or> q_idx (txqs S x) \<noteq> TXQ_INACTIVE \<and> sint (q_credits (txqs S x)) \<le> 0"
  shows "rwnx_hwq_process M h S = None"
  using assms by (auto simp: rwnx_hwq_process_def Let_def hwq_process_loop.simps hwq_process_txq_def)


text \<open>
  A second request of external authentication, while a frame waits in the queue of its interface,
  initialises a queue that is linked: its flag is cleared, the list keeps it, and processing hits the
  \<^verbatim>\<open>BUG_ON\<close>.
\<close>

theorem second_auth_request_faults:
  assumes "hq_list (hwqs S RWNX_HWQ_VO) = rwnx_txq_vif_get S v NX_UNK_TXQ_TYPE # xs"
  shows "\<exists>S'. rwnx_external_auth_enable v S = Some S' \<and> rwnx_hwq_process M RWNX_HWQ_VO S' = None"
proof -
  let ?x = "rwnx_txq_vif_get S v NX_UNK_TXQ_TYPE"
  let ?S = "S\<lparr>tx_vifs := (tx_vifs S)(v := (tx_vifs S v)\<lparr>external_auth := True\<rparr>)\<rparr>"
  have x: "rwnx_txq_vif_get ?S v NX_UNK_TXQ_TYPE = ?x"
    by (simp add: rwnx_txq_vif_get_def rwnx_txq_vif_idx_def master_vif_idx_def)
  obtain S1 where S1: "rwnx_txq_unk_vif_init v ?S = Some S1" using unk_init_total by blast
  note u = init_unlinked[OF S1[unfolded rwnx_txq_unk_vif_init_def x]]
  have st: "rwnx_txq_start {} y T = T" for y T by (simp add: rwnx_txq_start_def)
  have "rwnx_hwq_process M RWNX_HWQ_VO S1 = None"
    by (rule get_process_None[of _ _ ?x xs]) (use u(4,5) assms in simp_all)
  then show ?thesis using S1 by (simp add: rwnx_external_auth_enable_def st)
qed

section \<open>Scheduling\<close>



section \<open>Service periods\<close>











lemma give_queue: "q_ps_id (txqs (give_limit s p x k S) y) = q_ps_id (txqs S y)"
  "q_credits (txqs (give_limit s p x k S) y) = q_credits (txqs S y)"
  "q_push_limit (txqs (give_limit s p x k S) y) = (if y = x then ucast k else q_push_limit (txqs S y))"
  "ps_sp_cnt (tx_stas (give_limit s p x k S) s) p = ps_sp_cnt (tx_stas S s) p + k"
  "q_sk_list (txqs (give_limit s p x k S) y) = q_sk_list (txqs S y)"
  by (simp_all add: give_limit_def txqs_add)

lemma give_can_take: "can_take (txqs (give_limit s p x k S) y) = can_take (txqs S y)"
  by (simp only: can_take_def give_queue)

lemmas give_fields = give_queue give_can_take

lemma small_limit: "unat k < 128 \<Longrightarrow> unat (ucast (k :: u16) :: u8) = unat k"
  by (simp add: unsigned_ucast_eq take_bit_nat_eq_self)

lemma request_min:
  "unat (if k = 0 \<or> uint (k :: u16) > uint r then r else k) = (if k = 0 then unat r else min (unat k) (unat r))"
  unfolding word_less_def[symmetric] word_less_nat_alt by (simp add: min_def)

lemma small_credit: "sint (q_credits q) < 128"
  using sint_lt[of "q_credits q"] by simp

text \<open>What the queues of one kind of power save could send together.\<close>

definition can_send :: "nat \<Rightarrow> nat list \<Rightarrow> tx_sys \<Rightarrow> nat" where
  "can_send p xs S = (\<Sum>x\<leftarrow>xs. if q_ps_id (txqs S x) = p then unat (can_take (txqs S x)) else 0)"

definition limits :: "nat list \<Rightarrow> tx_sys \<Rightarrow> nat" where
  "limits xs S = (\<Sum>x\<leftarrow>xs. unat (q_push_limit (txqs S x)))"

lemma dispatch_other: "y \<notin> set xs \<Longrightarrow> q_push_limit (txqs (dispatch_req s p xs k S) y) = q_push_limit (txqs S y)"
proof (induction xs arbitrary: k S)
  case (Cons x xs)
  then have n: "y \<noteq> x" "y \<notin> set xs" by simp_all
  show ?case unfolding dispatch_req_Cons Let_def using Cons(1)[OF n(2)] n(1) by (simp only: give_fields if_False split: if_splits) simp
qed simp

lemma dispatch_total:
  assumes "distinct xs" "k \<noteq> 0" "\<forall>x \<in> set xs. q_push_limit (txqs S x) = 0 \<and> 0 \<le> sint (q_credits (txqs S x))"
  shows "limits xs (dispatch_req s p xs k S) = min (unat k) (can_send p xs S) \<and>
    ps_sp_cnt (tx_stas (dispatch_req s p xs k S) s) p = ps_sp_cnt (tx_stas S s) p + of_nat (min (unat k) (can_send p xs S))"
  using assms
proof (induction xs arbitrary: k S)
  case Nil
  then show ?case by (simp add: limits_def can_send_def)
next
  case (Cons x xs)
  let ?len = "can_take (txqs S x)"
  have d: "x \<notin> set xs" "distinct xs" using Cons(2) by simp_all
  have c: "0 \<le> sint (q_credits (txqs S x))" "q_push_limit (txqs S x) = 0" using Cons(4) by simp_all
  have lb: "unat ?len < 128" using can_take_bound(2)[OF c(1)] small_credit[of "txqs S x"] by linarith
  have rest: "\<forall>y \<in> set xs. q_push_limit (txqs (give_limit s p x j S) y) = 0 \<and> 0 \<le> sint (q_credits (txqs (give_limit s p x j S) y))" for j
    using Cons(4) d(1) by (auto simp: give_fields)
  have cs: "can_send p xs (give_limit s p x j S) = can_send p xs S" for j by (simp add: can_send_def give_fields cong: if_cong)
  have lim0: "limits xs (give_limit s p x j S) = 0" for j
    using rest[of j] by (simp add: limits_def sum_list_eq_0_iff)
  show ?case
  proof (cases "q_ps_id (txqs S x) \<noteq> p \<or> ?len = 0")
    case True
    have e: "dispatch_req s p (x # xs) k S = dispatch_req s p xs k S" using True by (auto simp: dispatch_req_Cons Let_def)
    have "can_send p (x # xs) S = can_send p xs S" using True by (auto simp: can_send_def)
    moreover have "limits (x # xs) (dispatch_req s p xs k S) = limits xs (dispatch_req s p xs k S)"
      using dispatch_other[OF d(1), of s p k S] c(2) by (simp add: limits_def)
    ultimately show ?thesis unfolding e using Cons(1)[OF d(2) Cons(3), of S] Cons(4) by simp
  next
    case False
    then have p: "q_ps_id (txqs S x) = p" "?len \<noteq> 0" by simp_all
    have s: "can_send p (x # xs) S = unat ?len + can_send p xs S" using p by (simp add: can_send_def)
    show ?thesis
    proof (cases "?len < k")
      case True
      let ?T = "give_limit s p x ?len S"
      have e: "dispatch_req s p (x # xs) k S = dispatch_req s p xs (k - ?len) ?T" using p True by (simp add: dispatch_req_Cons Let_def)
      have u: "unat (k - ?len) = unat k - unat ?len" "unat ?len < unat k" using True by (simp_all add: unat_sub word_le_less_eq word_less_nat_alt)
      have ne: "k - ?len \<noteq> 0" using True by auto
      note ih = Cons(1)[OF d(2) ne rest[of ?len], unfolded cs u(1)]
      have l: "limits (x # xs) (dispatch_req s p xs (k - ?len) ?T) = unat ?len + limits xs (dispatch_req s p xs (k - ?len) ?T)"
        using dispatch_other[OF d(1), of s p "k - ?len" ?T] small_limit[OF lb] by (simp add: limits_def give_fields)
      have m: "min (unat k) (unat ?len + can_send p xs S) = unat ?len + min (unat k - unat ?len) (can_send p xs S)" using u(2) by simp
      show ?thesis unfolding e s m l using ih by (simp add: give_fields)
    next
      case F: False
      then have kl: "unat k \<le> unat ?len" by (simp add: word_le_nat_alt not_less)
      have e: "dispatch_req s p (x # xs) k S = give_limit s p x k S" using p F by (simp add: dispatch_req_Cons Let_def)
      have k: "unat k < 128" using kl lb by linarith
      have m: "min (unat k) (unat ?len + can_send p xs S) = unat k" using kl by simp
      have l: "limits (x # xs) (give_limit s p x k S) = unat k" using lim0[of k] small_limit[OF k] by (simp add: limits_def give_fields)
      show ?thesis unfolding e s m l by (simp add: give_fields)
    qed
  qed
qed

text \<open>
  C12: A request of a sleeping station starts a service period for what it asked for, what is ready and
  what its queues can send, whichever is least: the limits of its queues add up to that number, and so
  does the counter of the period. A request of zero asks for everything. Queues of the other kind of
  power save get no limit.
\<close>

theorem service_period_exact:
  assumes "tx_ok n S" "\<not> is_multicast_sta (old_ic S) s" "ps_active (tx_stas S s)" "k \<noteq> PS_SP_INTERRUPTED"
    "ps_sp_cnt (tx_stas S s) p = 0" "ps_pkt_ready (tx_stas S s) p \<noteq> 0"
    "\<forall>x \<in> set (sta_txqs_prio S s). q_push_limit (txqs S x) = 0"
  shows "\<exists>j. j = min (if k = 0 then unat (ps_pkt_ready (tx_stas S s) p) else min (unat k) (unat (ps_pkt_ready (tx_stas S s) p)))
        (can_send p (sta_txqs_prio S s) S) \<and>
    limits (sta_txqs_prio S s) (rwnx_ps_bh_traffic_req s k p S) = j \<and>
    unat (ps_sp_cnt (tx_stas (rwnx_ps_bh_traffic_req s k p S) s) p) = j"
proof -
  let ?r = "ps_pkt_ready (tx_stas S s) p"
  let ?n = "if k = 0 \<or> uint k > uint ?r then ?r else k"
  let ?S = "upd_sta s (\<lambda>t. t\<lparr>ps_sp_cnt := (ps_sp_cnt t)(p := 0)\<rparr>) S"
  let ?xs = "sta_txqs_prio S s"
  have xs: "sta_txqs_prio ?S s = ?xs" by (simp add: sta_txqs_prio_def rwnx_txq_sta_get_def rwnx_txq_sta_idx_def fun_eq_iff)
  have x: "rwnx_txq_sta_get S s t = s * NX_NB_TXQ_PER_STA + t" if "t < 8" for t
    using assms(2) that by (simp add: rwnx_txq_sta_get_def rwnx_txq_sta_idx_def NX_NB_TXQ_PER_STA_def NX_NB_TID_PER_STA_def)
  have d: "distinct ?xs" by (simp add: sta_txqs_prio_def nx_tid_prio_def x)
  have r: "0 < uint ?r" using assms(6) uint_nonnegative[of ?r] by (metis order_le_less uint_0_iff)
  have eq: "rwnx_ps_bh_traffic_req s k p S = upd_usb (log_tx [Tasklet]) (dispatch_req s p ?xs ?n ?S)"
    unfolding rwnx_ps_bh_traffic_req_def Let_def using assms(2-5) r xs by simp
  have n0: "?n \<noteq> 0" using assms(6) by simp
  have c: "0 \<le> sint (q_credits (txqs S x))" for x
    using tx_ok_queue[OF assms(1), of x] by (cases "q_idx (txqs S x) = TXQ_INACTIVE") (auto simp: queue_ok_def)
  have q: "\<forall>x \<in> set ?xs. q_push_limit (txqs ?S x) = 0 \<and> 0 \<le> sint (q_credits (txqs ?S x))"
    using assms(7) c by simp
  have un: "unat ?n = (if k = 0 then unat ?r else min (unat k) (unat ?r))"
    by (rule request_min)
  let ?j = "min (unat ?n) (can_send p ?xs S)"
  have cs: "can_send p ?xs ?S = can_send p ?xs S" by (simp add: can_send_def cong: if_cong)
  have t: "limits ?xs (dispatch_req s p ?xs ?n ?S) = ?j" "ps_sp_cnt (tx_stas (dispatch_req s p ?xs ?n ?S) s) p = of_nat ?j"
    using dispatch_total[OF d n0 q, of s p] unfolding cs by simp_all
  have "?j < 65536" using unsigned_less[of ?n, where ?'a = nat] by simp
  then have "unat (of_nat ?j :: u16) = ?j" by (simp add: unat_of_nat)
  then show ?thesis using t unfolding eq un by (simp add: limits_def)
qed

section \<open>A small system\<close>

text \<open>One station with frame 7 in its queue for traffic identifier 0, which is linked.\<close>

definition sta0 :: tx_sta where
  "sta0 = \<lparr>ts_vif = 0, ps_active = False, ps_pkt_ready = (\<lambda>_. 0), ps_sp_cnt = (\<lambda>_. 0), uapsd_tids = 0, tdls_active = False,
     tdls_chsw_en = False\<rparr>"

definition vif0 :: tx_vif where
  "vif0 = \<lparr>tv_type = NL_AP, tv_ndev = 0, tv_sta_list = [], tv_ap = None, tv_tdls_sta = None, tdls_link_active = False,
     tv_roc_tdls = False, tv_master = 0, bcmc_index = 32, external_auth = False\<rparr>"

definition dev_up :: aic_usb_dev where "dev_up = aicwf_usb_state_change USB_UP_ST (aicwf_usb_init [0])"

definition tx0 :: "(nat \<Rightarrow> tx_sta) \<Rightarrow> tx_sys" where "tx0 T = tx_init False T (\<lambda>_. vif0) dev_up"

definition one_frame :: "nat \<Rightarrow> rwnx_txq \<Rightarrow> (nat \<Rightarrow> tx_sta) \<Rightarrow> tx_sys" where
  "one_frame x q T = rwnx_txq_add_to_hw_list x (upd_txq x (\<lambda>_. q) (tx0 T))"

definition txq1 :: "tx_frame list \<Rightarrow> nat \<Rightarrow> rwnx_txq" where
  "txq1 fs h = txq_zero\<lparr>q_credits := 64, q_sk_list := fs, q_hwq := h, q_sta := Some 0\<rparr>"

lemma tx0_ok: "(\<And>s. ts_vif (T s) < NX_VIRT_DEV_MAX) \<Longrightarrow> tx_ok 0 (tx0 T)"
  unfolding tx0_def by (rule tx_init_ok)

lemma tx0_queue: "txqs (tx0 T) x = txq_zero\<lparr>q_idx := TXQ_INACTIVE\<rparr>" "hq_list (hwqs (tx0 T) h) = []" "tx_stas (tx0 T) = T"
  "old_ic (tx0 T) = False" "tx_vifs (tx0 T) = (\<lambda>_. vif0)"
  by (simp_all add: tx0_def tx_init_def rwnx_hwq_init_def)

lemma one_frame_fields:
  assumes "IN_HWQ_LIST \<notin> q_status q"
  shows "txqs (one_frame x q T) = (txqs (tx0 T))(x := q\<lparr>q_status := insert IN_HWQ_LIST (q_status q)\<rparr>)"
    "hq_list (hwqs (one_frame x q T) h) = (if h = q_hwq q then [x] else [])" "tx_stas (one_frame x q T) = T"
    "tx_vifs (one_frame x q T) = (\<lambda>_. vif0)" "old_ic (one_frame x q T) = False"
  using assms by (simp_all add: one_frame_def rwnx_txq_add_to_hw_list_def tx0_queue)

lemma one_frame_ok:
  assumes "\<And>s. ts_vif (T s) < NX_VIRT_DEV_MAX" "queue_ok False 0 x q" "q_idx q \<noteq> TXQ_INACTIVE" "q_sk_list q \<noteq> []" "IN_HWQ_LIST \<notin> q_status q"
  shows "tx_ok 0 (one_frame x q T)"
proof -
  have "tx_ok 0 (upd_txq x (\<lambda>_. q) (tx0 T))"
    by (rule tx_ok_upd[OF tx0_ok[OF assms(1)]]) (use assms(2,5) in \<open>simp_all add: tx0_queue txq_zero_def\<close>)
  then show ?thesis unfolding one_frame_def by (rule tx_ok_add) (use assms(3,4) in simp_all)
qed

lemma txq1_ok: "fs \<noteq> [] \<Longrightarrow> \<forall>f \<in> set fs. f_txq f = 0 \<Longrightarrow> queue_ok False 0 0 (txq1 fs h)"
  by (simp add: queue_ok_def txq1_def txq_zero_def NX_FIRST_VIF_TXQ_IDX_def NX_REMOTE_STA_MAX_def NX_NB_TXQ_PER_STA_def
      NX_NB_TID_PER_STA_def TXQ_INACTIVE_def)


section \<open>Instances\<close>

abbreviation sta_for_all :: "nat \<Rightarrow> tx_sta" where "sta_for_all \<equiv> (\<lambda>_. sta0)"
abbreviation sta_asleep :: "nat \<Rightarrow> tx_sta" where "sta_asleep \<equiv> (\<lambda>_. sta0\<lparr>ps_active := True, ps_pkt_ready := (\<lambda>_. 1)\<rparr>)"

lemma sta0_vif: "ts_vif (sta_for_all s) < NX_VIRT_DEV_MAX" "ts_vif (sta_asleep s) < NX_VIRT_DEV_MAX"
  by (simp_all add: sta0_def NX_VIRT_DEV_MAX_def)

lemma slot0: "rwnx_txq_sta_get S 0 t = t" if "t < 9" "old_ic S = False"
  using that by (simp add: rwnx_txq_sta_get_def rwnx_txq_sta_idx_def is_multicast_sta_def NX_REMOTE_STA_MAX_def NX_NB_TXQ_PER_STA_def NX_NB_TID_PER_STA_def)

lemma txq_index_typed_witness:
  "rwnx_txq_sta_get (tx0 sta_for_all) 31 8 < NX_OFF_CHAN_TXQ_IDX False \<and> NX_OFF_CHAN_TXQ_IDX False < NX_NB_TXQ \<and>
   rwnx_txq_sta_get (tx0 sta_for_all) 33 0 = rwnx_txq_vif_get (tx0 sta_for_all) 0 NX_BCMC_TXQ_TYPE"
proof -
  have a: "\<forall>s. ts_vif (tx_stas ((tx0 sta_for_all)\<lparr>tx_vifs := (\<lambda>v. vif0\<lparr>tv_type := NL_AP_VLAN\<rparr>)\<rparr>) s) < NX_VIRT_DEV_MAX"
    "\<forall>v. master_vif_idx ((tx0 sta_for_all)\<lparr>tx_vifs := (\<lambda>v. vif0\<lparr>tv_type := NL_AP_VLAN\<rparr>)\<rparr>) v < NX_VIRT_DEV_MAX"
    by (simp_all add: tx0_queue sta0_def master_vif_idx_def vif0_def NX_VIRT_DEV_MAX_def)
  let ?S = "(tx0 sta_for_all)\<lparr>tx_vifs := (\<lambda>v. vif0\<lparr>tv_type := NL_AP_VLAN\<rparr>)\<rparr>"
  have e: "rwnx_txq_sta_get ?S s t = rwnx_txq_sta_get (tx0 sta_for_all) s t" for s t
    by (simp add: rwnx_txq_sta_get_def rwnx_txq_sta_idx_def)
  have f: "rwnx_txq_vif_get ?S 0 NX_BCMC_TXQ_TYPE = rwnx_txq_vif_get (tx0 sta_for_all) 0 NX_BCMC_TXQ_TYPE"
    by (simp add: rwnx_txq_vif_get_def rwnx_txq_vif_idx_def master_vif_idx_def tx0_queue vif0_def)
  have m: "is_multicast_sta False 33" by (simp add: is_multicast_sta_def NX_REMOTE_STA_MAX_def)
  have g: "ts_vif (tx_stas ?S 33) = 0" "master_vif_idx ?S 0 = 0" by (simp_all add: tx0_queue sta0_def master_vif_idx_def vif0_def)
  show ?thesis using txq_index_typed[OF a, of 31 8 0 0] txq_index_typed[OF a, of 33 0 0 0] m g e f by (simp add: tx0_queue)
qed

lemma confirmation_finds_frame_witness:
  "\<exists>S. usb_env S = aicwf_usb_host_txdesc_push (frame0 7 True) (usb_env (tx0 sta_for_all)) \<and>
    aicwf_usb_host_tx_cfm_handler 1 0 S = snd (rwnx_txdatacfm (frame0 7 True) 1
      (S\<lparr>usb_env := (usb_env S)\<lparr>tx_host_id := (tx_host_id (usb_env S))(0 := None)\<rparr>\<rparr>))"
proof -
  let ?E = "usb_env (tx0 sta_for_all)"
  let ?S = "(tx0 sta_for_all)\<lparr>usb_env := aicwf_usb_host_txdesc_push (frame0 7 True) ?E\<rparr>"
  have i: "txdesc_free_idx ?E = 0" by (simp add: tx0_def tx_init_def rwnx_hwq_init_def)
  have "txdesc_free_idx ?E < 0x40000000" "length [] < USB_TXDESC_CNT" "(1 :: u32) \<noteq> 0"
    "usb_env ?S = fold aicwf_usb_host_txdesc_push (frame0 7 True # []) ?E" by (simp_all add: i USB_TXDESC_CNT_def)
  from confirmation_finds_frame[OF this] show ?thesis by (intro exI[of _ ?S]) (simp add: i)
qed

lemma retries_before_new_frames_witness:
  "q_sk_list (txqs (snd (rwnx_txq_queue_skb (frame0 8 True) 0 True (one_frame 0 (txq1 [frame0 7 False] 2) sta_for_all))) 0) =
    [frame0 8 True, frame0 7 False]"
proof -
  let ?S = "one_frame 0 (txq1 [frame0 7 False] 2) sta_for_all"
  have "IN_HWQ_LIST \<notin> q_status (txq1 [frame0 7 False] 2)" by (simp add: txq1_def txq_zero_def)
  then have "split_queue [] [frame0 7 False] (txqs ?S 0)" by (simp add: split_queue_def one_frame_fields txq1_def txq_zero_def)
  moreover have "f_id (frame0 8 True) \<notin> f_id ` set ([] @ [frame0 7 False])" by (simp add: frame0_def)
  ultimately show ?thesis using retries_before_new_frames[of "[]" "[frame0 7 False]" ?S 0 "frame0 8 True" True]
    by (simp add: split_queue_def)
qed


lemma second_auth_request_faults_witness:
  "\<exists>S'. rwnx_external_auth_enable 0 (one_frame 292 (txq1 [(frame0 7 False)\<lparr>f_txq := 292\<rparr>] 3) sta_for_all) = Some S' \<and>
    rwnx_hwq_process mem0 RWNX_HWQ_VO S' = None"
proof (rule second_auth_request_faults)
  let ?S = "one_frame 292 (txq1 [(frame0 7 False)\<lparr>f_txq := 292\<rparr>] 3) sta_for_all"
  have "IN_HWQ_LIST \<notin> q_status (txq1 [(frame0 7 False)\<lparr>f_txq := 292\<rparr>] 3)" by (simp add: txq1_def txq_zero_def)
  then show "hq_list (hwqs ?S RWNX_HWQ_VO) = rwnx_txq_vif_get ?S 0 NX_UNK_TXQ_TYPE # []"
    by (simp add: one_frame_fields txq1_def txq_zero_def RWNX_HWQ_VO_def rwnx_txq_vif_get_def rwnx_txq_vif_idx_def master_vif_idx_def
        vif0_def idx_defs NX_REMOTE_STA_MAX_def)
qed




lemma service_period_exact_witness:
  "limits (sta_txqs_prio (one_frame 0 (txq1 [frame0 7 False, frame0 8 False] 2) sta_asleep) 0)
     (rwnx_ps_bh_traffic_req 0 0 LEGACY_PS_ID (one_frame 0 (txq1 [frame0 7 False, frame0 8 False] 2) sta_asleep)) = 1"
proof -
  let ?q = "txq1 [frame0 7 False, frame0 8 False] 2"
  let ?S = "one_frame 0 ?q sta_asleep"
  have q: "IN_HWQ_LIST \<notin> q_status ?q" "q_idx ?q \<noteq> TXQ_INACTIVE" "q_sk_list ?q \<noteq> []"
    by (simp_all add: txq1_def txq_zero_def TXQ_INACTIVE_def)
  have "queue_ok False 0 0 ?q" by (rule txq1_ok) (simp_all add: frame0_def)
  then have ok: "tx_ok 0 ?S" by (intro one_frame_ok sta0_vif q) 
  note F = one_frame_fields[OF q(1)]
  have old: "old_ic ?S = False" by (rule F(5))
  have xs: "sta_txqs_prio ?S 0 = [7, 6, 5, 4, 3, 0, 2, 1]" by (simp add: sta_txqs_prio_def nx_tid_prio_def slot0 old)
  have m: "\<not> is_multicast_sta (old_ic ?S) 0" by (simp add: old is_multicast_sta_def NX_REMOTE_STA_MAX_def)
  have r: "ps_active (tx_stas ?S 0)" "ps_sp_cnt (tx_stas ?S 0) LEGACY_PS_ID = 0" "ps_pkt_ready (tx_stas ?S 0) LEGACY_PS_ID = 1"
    by (simp_all add: F sta0_def)
  have k: "(0 :: u16) \<noteq> PS_SP_INTERRUPTED" by (simp add: PS_SP_INTERRUPTED_def)
  have l: "\<forall>x \<in> set (sta_txqs_prio ?S 0). q_push_limit (txqs ?S x) = 0" unfolding xs F by (simp add: tx0_queue txq1_def txq_zero_def)
  have c: "can_send LEGACY_PS_ID (sta_txqs_prio ?S 0) ?S = 2"
    unfolding can_send_def xs F by (simp add: tx0_queue txq1_def txq_zero_def LEGACY_PS_ID_def can_take_def Let_def)
  show ?thesis using service_period_exact[OF ok m r(1) k r(2) _ l] r(3) c by simp
qed

end
