(* ===== verification/RegDb.thy ===== *)
theory RegDb
  imports RadarSpec
begin

text \<open>
  The regulatory domains of the driver (\<^verbatim>\<open>regdb.c\<close>): for each country code the frequency ranges
  that may be used, with their bandwidth, power and restrictions. One definition per domain, in the order
  of the file, and the table of them all. A rule is built by the macros of the file and of the kernel,
  which convert MHz to kHz and dB to 1/100 dB. The restrictions, bits that are combined by \<open>or\<close> in the code,
  are the list of those that are set; a domain without a DFS region has \<open>DFS_UNSET\<close>. The second definition of the domain \<open>00\<close> in the file is disabled.
\<close>

datatype rrf = NL80211_RRF_NO_OFDM | NL80211_RRF_NO_OUTDOOR | NL80211_RRF_DFS | NL80211_RRF_NO_IR | NL80211_RRF_AUTO_BW

record reg_rule =
  start_freq_khz :: nat
  end_freq_khz :: nat
  max_bandwidth_khz :: nat
  max_antenna_gain :: nat
  max_eirp :: nat
  dfs_cac_ms :: nat
  rule_flags :: "rrf list"

record regdomain =
  alpha2 :: string
  rd_dfs_region :: dfs_region
  n_reg_rules :: nat
  reg_rules :: "reg_rule list"

definition REG_RULE_EXT :: "nat \<Rightarrow> nat \<Rightarrow> nat \<Rightarrow> nat \<Rightarrow> nat \<Rightarrow> nat \<Rightarrow> rrf list \<Rightarrow> reg_rule" where
  "REG_RULE_EXT start end' bw gain eirp dfs_cac flags =
     \<lparr>start_freq_khz = start * 1000, end_freq_khz = end' * 1000, max_bandwidth_khz = bw * 1000,
      max_antenna_gain = gain * 100, max_eirp = eirp * 100, dfs_cac_ms = dfs_cac, rule_flags = flags\<rparr>"

definition REG_RULE :: "nat \<Rightarrow> nat \<Rightarrow> nat \<Rightarrow> nat \<Rightarrow> nat \<Rightarrow> rrf list \<Rightarrow> reg_rule" where
  "REG_RULE start end' bw gain eirp flags = REG_RULE_EXT start end' bw gain eirp 0 flags"

section \<open>The domains\<close>

definition regdom_00 :: regdomain where
  "regdom_00 = \<lparr>alpha2 = ''00'', rd_dfs_region = DFS_UNSET, n_reg_rules = 2, reg_rules =
    [REG_RULE (2390 - 10) (2510 + 10) 40 0 20 [],
     REG_RULE (5150 - 10) (5970 + 10) 80 0 20 []]\<rparr>"

definition regdom_AD :: regdomain where
  "regdom_AD = \<lparr>alpha2 = ''AD'', rd_dfs_region = DFS_ETSI, n_reg_rules = 6, reg_rules =
    [REG_RULE_EXT 2400 2483 40 0 20 0 [],
     REG_RULE_EXT 5150 5250 80 0 23 0 [NL80211_RRF_AUTO_BW, NL80211_RRF_NO_OUTDOOR],
     REG_RULE_EXT 5250 5350 80 0 20 0 [NL80211_RRF_DFS, NL80211_RRF_AUTO_BW, NL80211_RRF_NO_OUTDOOR],
     REG_RULE_EXT 5470 5725 160 0 27 0 [NL80211_RRF_DFS],
     REG_RULE_EXT 5725 5875 80 0 14 0 [],
     REG_RULE_EXT 57000 66000 2160 0 40 0 []]\<rparr>"

definition regdom_AE :: regdomain where
  "regdom_AE = \<lparr>alpha2 = ''AE'', rd_dfs_region = DFS_FCC, n_reg_rules = 5, reg_rules =
    [REG_RULE_EXT 2402 2482 40 0 20 0 [],
     REG_RULE_EXT 5170 5250 80 0 17 0 [NL80211_RRF_AUTO_BW],
     REG_RULE_EXT 5250 5330 80 0 24 0 [NL80211_RRF_DFS, NL80211_RRF_AUTO_BW],
     REG_RULE_EXT 5490 5730 160 0 24 0 [NL80211_RRF_DFS],
     REG_RULE_EXT 5735 5835 80 0 30 0 []]\<rparr>"

definition regdom_AF :: regdomain where
  "regdom_AF = \<lparr>alpha2 = ''AF'', rd_dfs_region = DFS_ETSI, n_reg_rules = 4, reg_rules =
    [REG_RULE_EXT 2402 2482 40 0 20 0 [],
     REG_RULE_EXT 5170 5250 80 0 20 0 [NL80211_RRF_AUTO_BW],
     REG_RULE_EXT 5250 5330 80 0 20 0 [NL80211_RRF_DFS, NL80211_RRF_AUTO_BW],
     REG_RULE_EXT 5490 5710 160 0 27 0 [NL80211_RRF_DFS]]\<rparr>"

definition regdom_AI :: regdomain where
  "regdom_AI = \<lparr>alpha2 = ''AI'', rd_dfs_region = DFS_ETSI, n_reg_rules = 4, reg_rules =
    [REG_RULE_EXT 2402 2482 40 0 20 0 [],
     REG_RULE_EXT 5170 5250 80 0 20 0 [NL80211_RRF_AUTO_BW],
     REG_RULE_EXT 5250 5330 80 0 20 0 [NL80211_RRF_DFS, NL80211_RRF_AUTO_BW],
     REG_RULE_EXT 5490 5710 160 0 27 0 [NL80211_RRF_DFS]]\<rparr>"

definition regdom_AL :: regdomain where
  "regdom_AL = \<lparr>alpha2 = ''AL'', rd_dfs_region = DFS_ETSI, n_reg_rules = 5, reg_rules =
    [REG_RULE_EXT 2400 2483 40 0 20 0 [],
     REG_RULE_EXT 5150 5250 80 0 23 0 [NL80211_RRF_AUTO_BW, NL80211_RRF_NO_OUTDOOR],
     REG_RULE_EXT 5250 5350 80 0 20 0 [NL80211_RRF_DFS, NL80211_RRF_AUTO_BW, NL80211_RRF_NO_OUTDOOR],
     REG_RULE_EXT 5470 5725 160 0 27 0 [NL80211_RRF_DFS],
     REG_RULE_EXT 5725 5875 80 0 14 0 []]\<rparr>"

definition regdom_AM :: regdomain where
  "regdom_AM = \<lparr>alpha2 = ''AM'', rd_dfs_region = DFS_ETSI, n_reg_rules = 3, reg_rules =
    [REG_RULE_EXT 2402 2482 40 0 20 0 [],
     REG_RULE_EXT 5170 5250 20 0 18 0 [],
     REG_RULE_EXT 5250 5330 20 0 18 0 [NL80211_RRF_DFS]]\<rparr>"

definition regdom_AN :: regdomain where
  "regdom_AN = \<lparr>alpha2 = ''AN'', rd_dfs_region = DFS_ETSI, n_reg_rules = 4, reg_rules =
    [REG_RULE_EXT 2402 2482 40 0 20 0 [],
     REG_RULE_EXT 5170 5250 80 0 20 0 [NL80211_RRF_AUTO_BW],
     REG_RULE_EXT 5250 5330 80 0 20 0 [NL80211_RRF_DFS, NL80211_RRF_AUTO_BW],
     REG_RULE_EXT 5490 5710 160 0 27 0 [NL80211_RRF_DFS]]\<rparr>"

definition regdom_AR :: regdomain where
  "regdom_AR = \<lparr>alpha2 = ''AR'', rd_dfs_region = DFS_FCC, n_reg_rules = 5, reg_rules =
    [REG_RULE_EXT 2402 2482 40 0 20 0 [],
     REG_RULE_EXT 5170 5250 80 0 17 0 [NL80211_RRF_AUTO_BW],
     REG_RULE_EXT 5250 5330 80 0 24 0 [NL80211_RRF_DFS, NL80211_RRF_AUTO_BW],
     REG_RULE_EXT 5490 5730 160 0 24 0 [NL80211_RRF_DFS],
     REG_RULE_EXT 5735 5835 80 0 30 0 []]\<rparr>"

definition regdom_AS :: regdomain where
  "regdom_AS = \<lparr>alpha2 = ''AS'', rd_dfs_region = DFS_FCC, n_reg_rules = 5, reg_rules =
    [REG_RULE_EXT 2402 2472 40 0 30 0 [],
     REG_RULE_EXT 5170 5250 80 0 24 0 [NL80211_RRF_AUTO_BW],
     REG_RULE_EXT 5250 5330 80 0 24 0 [NL80211_RRF_DFS, NL80211_RRF_AUTO_BW],
     REG_RULE_EXT 5490 5730 160 0 24 0 [NL80211_RRF_DFS],
     REG_RULE_EXT 5735 5835 80 0 30 0 []]\<rparr>"

definition regdom_AT :: regdomain where
  "regdom_AT = \<lparr>alpha2 = ''AT'', rd_dfs_region = DFS_ETSI, n_reg_rules = 7, reg_rules =
    [REG_RULE_EXT 2400 2483 40 0 20 0 [],
     REG_RULE_EXT 5150 5250 80 0 23 0 [NL80211_RRF_AUTO_BW, NL80211_RRF_NO_OUTDOOR],
     REG_RULE_EXT 5250 5350 80 0 20 0 [NL80211_RRF_DFS, NL80211_RRF_AUTO_BW, NL80211_RRF_NO_OUTDOOR],
     REG_RULE_EXT 5470 5725 160 0 27 0 [NL80211_RRF_DFS],
     REG_RULE_EXT 5725 5875 80 0 14 0 [],
     REG_RULE_EXT 5945 6425 160 0 23 0 [NL80211_RRF_NO_OUTDOOR],
     REG_RULE_EXT 57000 66000 2160 0 40 0 []]\<rparr>"

definition regdom_AU :: regdomain where
  "regdom_AU = \<lparr>alpha2 = ''AU'', rd_dfs_region = DFS_ETSI, n_reg_rules = 9, reg_rules =
    [REG_RULE_EXT 2400 2483 40 0 36 0 [],
     REG_RULE_EXT 5150 5250 80 0 23 0 [NL80211_RRF_AUTO_BW, NL80211_RRF_NO_OUTDOOR],
     REG_RULE_EXT 5250 5350 80 0 20 0 [NL80211_RRF_DFS, NL80211_RRF_AUTO_BW, NL80211_RRF_NO_OUTDOOR],
     REG_RULE_EXT 5470 5600 80 0 27 0 [NL80211_RRF_DFS],
     REG_RULE_EXT 5650 5730 80 0 27 0 [NL80211_RRF_DFS],
     REG_RULE_EXT 5730 5850 80 0 36 0 [NL80211_RRF_AUTO_BW],
     REG_RULE_EXT 5850 5875 20 0 14 0 [NL80211_RRF_AUTO_BW],
     REG_RULE_EXT 5925 6425 160 0 24 0 [NL80211_RRF_NO_OUTDOOR],
     REG_RULE_EXT 57000 71000 2160 0 43 0 [NL80211_RRF_NO_OUTDOOR]]\<rparr>"

definition regdom_AW :: regdomain where
  "regdom_AW = \<lparr>alpha2 = ''AW'', rd_dfs_region = DFS_ETSI, n_reg_rules = 4, reg_rules =
    [REG_RULE_EXT 2402 2482 40 0 20 0 [],
     REG_RULE_EXT 5170 5250 80 0 20 0 [NL80211_RRF_AUTO_BW],
     REG_RULE_EXT 5250 5330 80 0 20 0 [NL80211_RRF_DFS, NL80211_RRF_AUTO_BW],
     REG_RULE_EXT 5490 5710 160 0 27 0 [NL80211_RRF_DFS]]\<rparr>"

definition regdom_AZ :: regdomain where
  "regdom_AZ = \<lparr>alpha2 = ''AZ'', rd_dfs_region = DFS_ETSI, n_reg_rules = 3, reg_rules =
    [REG_RULE_EXT 2402 2482 40 0 20 0 [],
     REG_RULE_EXT 5170 5250 80 0 18 0 [NL80211_RRF_AUTO_BW],
     REG_RULE_EXT 5250 5330 80 0 18 0 [NL80211_RRF_DFS, NL80211_RRF_AUTO_BW]]\<rparr>"

definition regdom_BA :: regdomain where
  "regdom_BA = \<lparr>alpha2 = ''BA'', rd_dfs_region = DFS_ETSI, n_reg_rules = 6, reg_rules =
    [REG_RULE_EXT 2400 2483 40 0 20 0 [],
     REG_RULE_EXT 5150 5250 80 0 23 0 [NL80211_RRF_AUTO_BW, NL80211_RRF_NO_OUTDOOR],
     REG_RULE_EXT 5250 5350 80 0 20 0 [NL80211_RRF_NO_OUTDOOR, NL80211_RRF_DFS, NL80211_RRF_AUTO_BW],
     REG_RULE_EXT 5470 5725 160 0 27 0 [NL80211_RRF_DFS],
     REG_RULE_EXT 5725 5875 80 0 14 0 [],
     REG_RULE_EXT 57000 66000 2160 0 40 0 []]\<rparr>"

definition regdom_BB :: regdomain where
  "regdom_BB = \<lparr>alpha2 = ''BB'', rd_dfs_region = DFS_FCC, n_reg_rules = 4, reg_rules =
    [REG_RULE_EXT 2402 2482 40 0 20 0 [],
     REG_RULE_EXT 5170 5250 80 0 23 0 [NL80211_RRF_AUTO_BW],
     REG_RULE_EXT 5250 5330 80 0 23 0 [NL80211_RRF_DFS, NL80211_RRF_AUTO_BW],
     REG_RULE_EXT 5735 5835 80 0 30 0 []]\<rparr>"

definition regdom_BD :: regdomain where
  "regdom_BD = \<lparr>alpha2 = ''BD'', rd_dfs_region = DFS_ETSI, n_reg_rules = 7, reg_rules =
    [REG_RULE_EXT 2400 2483 40 0 20 0 [],
     REG_RULE_EXT 5150 5250 80 0 23 0 [NL80211_RRF_NO_OUTDOOR, NL80211_RRF_AUTO_BW],
     REG_RULE_EXT 5250 5350 80 0 20 0 [NL80211_RRF_NO_OUTDOOR, NL80211_RRF_DFS, NL80211_RRF_AUTO_BW],
     REG_RULE_EXT 5470 5725 160 0 27 0 [NL80211_RRF_DFS],
     REG_RULE_EXT 5725 5875 80 0 14 0 [],
     REG_RULE_EXT 5945 6425 160 0 23 0 [NL80211_RRF_NO_OUTDOOR],
     REG_RULE_EXT 57000 66000 2160 0 40 0 []]\<rparr>"

definition regdom_BE :: regdomain where
  "regdom_BE = \<lparr>alpha2 = ''BE'', rd_dfs_region = DFS_ETSI, n_reg_rules = 7, reg_rules =
    [REG_RULE_EXT 2400 2483 40 0 20 0 [],
     REG_RULE_EXT 5150 5250 80 0 23 0 [NL80211_RRF_AUTO_BW, NL80211_RRF_NO_OUTDOOR],
     REG_RULE_EXT 5250 5350 80 0 20 0 [NL80211_RRF_NO_OUTDOOR, NL80211_RRF_DFS, NL80211_RRF_AUTO_BW],
     REG_RULE_EXT 5470 5725 160 0 27 0 [NL80211_RRF_DFS],
     REG_RULE_EXT 5725 5875 80 0 14 0 [],
     REG_RULE_EXT 5945 6425 160 0 23 0 [NL80211_RRF_NO_OUTDOOR],
     REG_RULE_EXT 57000 66000 2160 0 40 0 []]\<rparr>"

definition regdom_BF :: regdomain where
  "regdom_BF = \<lparr>alpha2 = ''BF'', rd_dfs_region = DFS_FCC, n_reg_rules = 5, reg_rules =
    [REG_RULE_EXT 2402 2482 40 0 20 0 [],
     REG_RULE_EXT 5170 5250 80 0 17 0 [NL80211_RRF_AUTO_BW],
     REG_RULE_EXT 5250 5330 80 0 24 0 [NL80211_RRF_DFS, NL80211_RRF_AUTO_BW],
     REG_RULE_EXT 5490 5730 160 0 24 0 [NL80211_RRF_DFS],
     REG_RULE_EXT 5735 5835 80 0 30 0 []]\<rparr>"

definition regdom_BG :: regdomain where
  "regdom_BG = \<lparr>alpha2 = ''BG'', rd_dfs_region = DFS_ETSI, n_reg_rules = 7, reg_rules =
    [REG_RULE_EXT 2400 2483 40 0 20 0 [],
     REG_RULE_EXT 5150 5250 80 0 23 0 [NL80211_RRF_AUTO_BW, NL80211_RRF_NO_OUTDOOR],
     REG_RULE_EXT 5250 5350 80 0 20 0 [NL80211_RRF_NO_OUTDOOR, NL80211_RRF_DFS, NL80211_RRF_AUTO_BW],
     REG_RULE_EXT 5470 5725 160 0 27 0 [NL80211_RRF_DFS],
     REG_RULE_EXT 5725 5875 80 0 14 0 [],
     REG_RULE_EXT 5945 6425 160 0 23 0 [NL80211_RRF_NO_OUTDOOR],
     REG_RULE_EXT 57000 66000 2160 0 40 0 []]\<rparr>"

definition regdom_BH :: regdomain where
  "regdom_BH = \<lparr>alpha2 = ''BH'', rd_dfs_region = DFS_JP, n_reg_rules = 4, reg_rules =
    [REG_RULE_EXT 2402 2482 40 0 20 0 [],
     REG_RULE_EXT 5170 5250 20 0 20 0 [],
     REG_RULE_EXT 5250 5330 20 0 20 0 [NL80211_RRF_DFS],
     REG_RULE_EXT 5735 5835 20 0 20 0 []]\<rparr>"

definition regdom_BL :: regdomain where
  "regdom_BL = \<lparr>alpha2 = ''BL'', rd_dfs_region = DFS_ETSI, n_reg_rules = 4, reg_rules =
    [REG_RULE_EXT 2402 2482 40 0 20 0 [],
     REG_RULE_EXT 5170 5250 80 0 20 0 [NL80211_RRF_AUTO_BW],
     REG_RULE_EXT 5250 5330 80 0 20 0 [NL80211_RRF_DFS, NL80211_RRF_AUTO_BW],
     REG_RULE_EXT 5490 5710 160 0 27 0 [NL80211_RRF_DFS]]\<rparr>"

definition regdom_BM :: regdomain where
  "regdom_BM = \<lparr>alpha2 = ''BM'', rd_dfs_region = DFS_FCC, n_reg_rules = 5, reg_rules =
    [REG_RULE_EXT 2402 2472 40 0 30 0 [],
     REG_RULE_EXT 5170 5250 80 0 24 0 [NL80211_RRF_AUTO_BW],
     REG_RULE_EXT 5250 5330 80 0 24 0 [NL80211_RRF_DFS, NL80211_RRF_AUTO_BW],
     REG_RULE_EXT 5490 5730 160 0 24 0 [NL80211_RRF_DFS],
     REG_RULE_EXT 5735 5835 80 0 30 0 []]\<rparr>"

definition regdom_BN :: regdomain where
  "regdom_BN = \<lparr>alpha2 = ''BN'', rd_dfs_region = DFS_JP, n_reg_rules = 4, reg_rules =
    [REG_RULE_EXT 2402 2482 40 0 20 0 [],
     REG_RULE_EXT 5170 5250 80 0 20 0 [NL80211_RRF_AUTO_BW],
     REG_RULE_EXT 5250 5330 80 0 20 0 [NL80211_RRF_DFS, NL80211_RRF_AUTO_BW],
     REG_RULE_EXT 5735 5835 80 0 20 0 []]\<rparr>"

definition regdom_BO :: regdomain where
  "regdom_BO = \<lparr>alpha2 = ''BO'', rd_dfs_region = DFS_JP, n_reg_rules = 3, reg_rules =
    [REG_RULE_EXT 2402 2482 40 0 20 0 [],
     REG_RULE_EXT 5250 5330 80 0 30 0 [NL80211_RRF_DFS],
     REG_RULE_EXT 5735 5835 80 0 30 0 []]\<rparr>"

definition regdom_BR :: regdomain where
  "regdom_BR = \<lparr>alpha2 = ''BR'', rd_dfs_region = DFS_FCC, n_reg_rules = 7, reg_rules =
    [REG_RULE_EXT 2400 2483 40 0 30 0 [],
     REG_RULE_EXT 5150 5250 80 0 27 0 [NL80211_RRF_AUTO_BW, NL80211_RRF_NO_OUTDOOR],
     REG_RULE_EXT 5250 5350 80 0 27 0 [NL80211_RRF_DFS, NL80211_RRF_AUTO_BW, NL80211_RRF_NO_OUTDOOR],
     REG_RULE_EXT 5470 5725 160 0 27 0 [NL80211_RRF_DFS, NL80211_RRF_AUTO_BW],
     REG_RULE_EXT 5725 5850 80 0 30 0 [NL80211_RRF_AUTO_BW],
     REG_RULE_EXT 5925 7125 320 0 12 0 [NL80211_RRF_NO_OUTDOOR, NL80211_RRF_NO_IR],
     REG_RULE_EXT 57000 71000 2160 0 40 0 []]\<rparr>"

definition regdom_BS :: regdomain where
  "regdom_BS = \<lparr>alpha2 = ''BS'', rd_dfs_region = DFS_FCC, n_reg_rules = 5, reg_rules =
    [REG_RULE_EXT 2402 2482 40 0 20 0 [],
     REG_RULE_EXT 5170 5250 80 0 24 0 [NL80211_RRF_AUTO_BW],
     REG_RULE_EXT 5250 5330 80 0 24 0 [NL80211_RRF_DFS, NL80211_RRF_AUTO_BW],
     REG_RULE_EXT 5490 5730 160 0 24 0 [NL80211_RRF_DFS],
     REG_RULE_EXT 5735 5835 80 0 30 0 []]\<rparr>"

definition regdom_BT :: regdomain where
  "regdom_BT = \<lparr>alpha2 = ''BT'', rd_dfs_region = DFS_ETSI, n_reg_rules = 4, reg_rules =
    [REG_RULE_EXT 2402 2482 40 0 20 0 [],
     REG_RULE_EXT 5170 5250 80 0 20 0 [NL80211_RRF_AUTO_BW],
     REG_RULE_EXT 5250 5330 80 0 20 0 [NL80211_RRF_DFS, NL80211_RRF_AUTO_BW],
     REG_RULE_EXT 5490 5710 160 0 27 0 [NL80211_RRF_DFS]]\<rparr>"

definition regdom_BW :: regdomain where
  "regdom_BW = \<lparr>alpha2 = ''BW'', rd_dfs_region = DFS_ETSI, n_reg_rules = 7, reg_rules =
    [REG_RULE_EXT 2400 2483 40 0 20 0 [],
     REG_RULE_EXT 5150 5250 80 0 23 0 [NL80211_RRF_NO_OUTDOOR, NL80211_RRF_AUTO_BW],
     REG_RULE_EXT 5250 5350 80 0 20 0 [NL80211_RRF_NO_OUTDOOR, NL80211_RRF_DFS, NL80211_RRF_AUTO_BW],
     REG_RULE_EXT 5470 5725 160 0 27 0 [NL80211_RRF_DFS],
     REG_RULE_EXT 5725 5875 80 0 14 0 [],
     REG_RULE_EXT 5945 6425 160 0 23 0 [NL80211_RRF_NO_OUTDOOR],
     REG_RULE_EXT 57000 66000 2160 0 40 0 []]\<rparr>"

definition regdom_BY :: regdomain where
  "regdom_BY = \<lparr>alpha2 = ''BY'', rd_dfs_region = DFS_ETSI, n_reg_rules = 4, reg_rules =
    [REG_RULE_EXT 2402 2482 40 0 20 0 [],
     REG_RULE_EXT 5170 5250 80 0 20 0 [NL80211_RRF_AUTO_BW],
     REG_RULE_EXT 5250 5330 80 0 20 0 [NL80211_RRF_DFS, NL80211_RRF_AUTO_BW],
     REG_RULE_EXT 5490 5710 160 0 27 0 [NL80211_RRF_DFS]]\<rparr>"

definition regdom_BZ :: regdomain where
  "regdom_BZ = \<lparr>alpha2 = ''BZ'', rd_dfs_region = DFS_JP, n_reg_rules = 2, reg_rules =
    [REG_RULE_EXT 2402 2482 40 0 30 0 [],
     REG_RULE_EXT 5735 5835 80 0 30 0 []]\<rparr>"

definition regdom_CA :: regdomain where
  "regdom_CA = \<lparr>alpha2 = ''CA'', rd_dfs_region = DFS_FCC, n_reg_rules = 7, reg_rules =
    [REG_RULE_EXT 2402 2472 40 0 30 0 [],
     REG_RULE_EXT 5150 5250 80 0 23 0 [NL80211_RRF_AUTO_BW, NL80211_RRF_NO_OUTDOOR],
     REG_RULE_EXT 5250 5350 80 0 24 0 [NL80211_RRF_DFS, NL80211_RRF_AUTO_BW],
     REG_RULE_EXT 5470 5600 80 0 24 0 [NL80211_RRF_DFS],
     REG_RULE_EXT 5650 5730 80 0 24 0 [NL80211_RRF_DFS],
     REG_RULE_EXT 5735 5835 80 0 30 0 [],
     REG_RULE_EXT 5925 7125 320 0 12 0 [NL80211_RRF_NO_OUTDOOR]]\<rparr>"

definition regdom_CF :: regdomain where
  "regdom_CF = \<lparr>alpha2 = ''CF'', rd_dfs_region = DFS_FCC, n_reg_rules = 5, reg_rules =
    [REG_RULE_EXT 2402 2482 40 0 20 0 [],
     REG_RULE_EXT 5170 5250 40 0 17 0 [],
     REG_RULE_EXT 5250 5330 40 0 24 0 [NL80211_RRF_DFS],
     REG_RULE_EXT 5490 5730 40 0 24 0 [NL80211_RRF_DFS],
     REG_RULE_EXT 5735 5835 40 0 30 0 []]\<rparr>"

definition regdom_CH :: regdomain where
  "regdom_CH = \<lparr>alpha2 = ''CH'', rd_dfs_region = DFS_ETSI, n_reg_rules = 7, reg_rules =
    [REG_RULE_EXT 2400 2483 40 0 20 0 [],
     REG_RULE_EXT 5150 5250 80 0 23 0 [NL80211_RRF_AUTO_BW, NL80211_RRF_NO_OUTDOOR],
     REG_RULE_EXT 5250 5350 80 0 20 0 [NL80211_RRF_NO_OUTDOOR, NL80211_RRF_DFS, NL80211_RRF_AUTO_BW],
     REG_RULE_EXT 5470 5725 160 0 27 0 [NL80211_RRF_DFS],
     REG_RULE_EXT 5725 5875 80 0 14 0 [],
     REG_RULE_EXT 5945 6425 160 0 23 0 [NL80211_RRF_NO_OUTDOOR],
     REG_RULE_EXT 57000 71000 2160 0 40 0 []]\<rparr>"

definition regdom_CI :: regdomain where
  "regdom_CI = \<lparr>alpha2 = ''CI'', rd_dfs_region = DFS_FCC, n_reg_rules = 5, reg_rules =
    [REG_RULE_EXT 2402 2482 40 0 20 0 [],
     REG_RULE_EXT 5170 5250 80 0 17 0 [NL80211_RRF_AUTO_BW],
     REG_RULE_EXT 5250 5330 80 0 24 0 [NL80211_RRF_DFS, NL80211_RRF_AUTO_BW],
     REG_RULE_EXT 5490 5730 160 0 24 0 [NL80211_RRF_DFS],
     REG_RULE_EXT 5735 5835 80 0 30 0 []]\<rparr>"

definition regdom_CL :: regdomain where
  "regdom_CL = \<lparr>alpha2 = ''CL'', rd_dfs_region = DFS_JP, n_reg_rules = 4, reg_rules =
    [REG_RULE_EXT 2402 2482 40 0 20 0 [],
     REG_RULE_EXT 5170 5250 80 0 20 0 [NL80211_RRF_AUTO_BW],
     REG_RULE_EXT 5250 5330 80 0 20 0 [NL80211_RRF_DFS, NL80211_RRF_AUTO_BW],
     REG_RULE_EXT 5735 5835 80 0 20 0 []]\<rparr>"

definition regdom_CN :: regdomain where
  "regdom_CN = \<lparr>alpha2 = ''CN'', rd_dfs_region = DFS_FCC, n_reg_rules = 6, reg_rules =
    [REG_RULE_EXT 2400 2483 40 0 20 0 [],
     REG_RULE_EXT 5150 5350 80 0 20 0 [NL80211_RRF_DFS, NL80211_RRF_AUTO_BW, NL80211_RRF_NO_OUTDOOR],
     REG_RULE_EXT 5725 5850 80 0 33 0 [],
     REG_RULE_EXT 57240 59400 2160 0 28 0 [],
     REG_RULE_EXT 59400 63720 2160 0 44 0 [],
     REG_RULE_EXT 63720 65880 2160 0 28 0 []]\<rparr>"

definition regdom_CO :: regdomain where
  "regdom_CO = \<lparr>alpha2 = ''CO'', rd_dfs_region = DFS_FCC, n_reg_rules = 5, reg_rules =
    [REG_RULE_EXT 2402 2482 40 0 20 0 [],
     REG_RULE_EXT 5170 5250 80 0 17 0 [NL80211_RRF_AUTO_BW],
     REG_RULE_EXT 5250 5330 80 0 24 0 [NL80211_RRF_DFS, NL80211_RRF_AUTO_BW],
     REG_RULE_EXT 5490 5730 160 0 24 0 [NL80211_RRF_DFS],
     REG_RULE_EXT 5735 5835 80 0 30 0 []]\<rparr>"

definition regdom_CR :: regdomain where
  "regdom_CR = \<lparr>alpha2 = ''CR'', rd_dfs_region = DFS_FCC, n_reg_rules = 5, reg_rules =
    [REG_RULE_EXT 2402 2482 40 0 20 0 [],
     REG_RULE_EXT 5170 5250 20 0 17 0 [],
     REG_RULE_EXT 5250 5330 20 0 24 0 [NL80211_RRF_DFS],
     REG_RULE_EXT 5490 5730 20 0 24 0 [NL80211_RRF_DFS],
     REG_RULE_EXT 5735 5835 20 0 30 0 []]\<rparr>"

definition regdom_CU :: regdomain where
  "regdom_CU = \<lparr>alpha2 = ''CU'', rd_dfs_region = DFS_FCC, n_reg_rules = 4, reg_rules =
    [REG_RULE_EXT 2400 2483 40 0 23 0 [],
     REG_RULE_EXT 5150 5350 80 0 23 0 [NL80211_RRF_NO_IR, NL80211_RRF_NO_OUTDOOR],
     REG_RULE_EXT 5470 5725 80 0 24 0 [NL80211_RRF_NO_IR],
     REG_RULE_EXT 5725 5850 80 0 23 0 []]\<rparr>"

definition regdom_CX :: regdomain where
  "regdom_CX = \<lparr>alpha2 = ''CX'', rd_dfs_region = DFS_FCC, n_reg_rules = 5, reg_rules =
    [REG_RULE_EXT 2402 2482 40 0 20 0 [],
     REG_RULE_EXT 5170 5250 80 0 24 0 [NL80211_RRF_AUTO_BW],
     REG_RULE_EXT 5250 5330 80 0 24 0 [NL80211_RRF_DFS, NL80211_RRF_AUTO_BW],
     REG_RULE_EXT 5490 5730 160 0 24 0 [NL80211_RRF_DFS],
     REG_RULE_EXT 5735 5835 80 0 30 0 []]\<rparr>"

definition regdom_CY :: regdomain where
  "regdom_CY = \<lparr>alpha2 = ''CY'', rd_dfs_region = DFS_ETSI, n_reg_rules = 7, reg_rules =
    [REG_RULE_EXT 2400 2483 40 0 20 0 [],
     REG_RULE_EXT 5150 5250 80 0 23 0 [NL80211_RRF_AUTO_BW, NL80211_RRF_NO_OUTDOOR],
     REG_RULE_EXT 5250 5350 80 0 20 0 [NL80211_RRF_NO_OUTDOOR, NL80211_RRF_DFS, NL80211_RRF_AUTO_BW],
     REG_RULE_EXT 5470 5725 160 0 27 0 [NL80211_RRF_DFS],
     REG_RULE_EXT 5725 5875 80 0 14 0 [],
     REG_RULE_EXT 5945 6425 160 0 23 0 [NL80211_RRF_NO_OUTDOOR],
     REG_RULE_EXT 57000 66000 2160 0 40 0 []]\<rparr>"

definition regdom_CZ :: regdomain where
  "regdom_CZ = \<lparr>alpha2 = ''CZ'', rd_dfs_region = DFS_ETSI, n_reg_rules = 7, reg_rules =
    [REG_RULE_EXT 2400 2483 40 0 20 0 [],
     REG_RULE_EXT 5150 5250 80 0 23 0 [NL80211_RRF_NO_OUTDOOR, NL80211_RRF_AUTO_BW],
     REG_RULE_EXT 5250 5350 80 0 20 0 [NL80211_RRF_NO_OUTDOOR, NL80211_RRF_DFS, NL80211_RRF_AUTO_BW],
     REG_RULE_EXT 5470 5725 160 0 27 0 [NL80211_RRF_DFS],
     REG_RULE_EXT 5725 5875 80 0 14 0 [],
     REG_RULE_EXT 5945 6425 160 0 23 0 [NL80211_RRF_NO_OUTDOOR],
     REG_RULE_EXT 57000 66000 2160 0 40 0 []]\<rparr>"

definition regdom_DE :: regdomain where
  "regdom_DE = \<lparr>alpha2 = ''DE'', rd_dfs_region = DFS_ETSI, n_reg_rules = 7, reg_rules =
    [REG_RULE_EXT 2400 2483 40 0 20 0 [],
     REG_RULE_EXT 5150 5250 80 0 23 0 [NL80211_RRF_NO_OUTDOOR, NL80211_RRF_AUTO_BW],
     REG_RULE_EXT 5250 5350 80 0 20 0 [NL80211_RRF_NO_OUTDOOR, NL80211_RRF_DFS, NL80211_RRF_AUTO_BW],
     REG_RULE_EXT 5470 5725 160 0 27 0 [NL80211_RRF_DFS],
     REG_RULE_EXT 5725 5875 80 0 14 0 [],
     REG_RULE_EXT 5945 6425 160 0 23 0 [NL80211_RRF_NO_OUTDOOR],
     REG_RULE_EXT 57000 66000 2160 0 40 0 []]\<rparr>"

definition regdom_DK :: regdomain where
  "regdom_DK = \<lparr>alpha2 = ''DK'', rd_dfs_region = DFS_ETSI, n_reg_rules = 7, reg_rules =
    [REG_RULE_EXT 2400 2483 40 0 20 0 [],
     REG_RULE_EXT 5150 5250 80 0 23 0 [NL80211_RRF_AUTO_BW, NL80211_RRF_NO_OUTDOOR],
     REG_RULE_EXT 5250 5350 80 0 20 0 [NL80211_RRF_NO_OUTDOOR, NL80211_RRF_DFS, NL80211_RRF_AUTO_BW],
     REG_RULE_EXT 5470 5725 160 0 27 0 [NL80211_RRF_DFS],
     REG_RULE_EXT 5725 5875 80 0 14 0 [],
     REG_RULE_EXT 5945 6425 160 0 23 0 [NL80211_RRF_NO_OUTDOOR],
     REG_RULE_EXT 57000 66000 2160 0 40 0 []]\<rparr>"

definition regdom_DM :: regdomain where
  "regdom_DM = \<lparr>alpha2 = ''DM'', rd_dfs_region = DFS_FCC, n_reg_rules = 4, reg_rules =
    [REG_RULE_EXT 2402 2472 40 0 30 0 [],
     REG_RULE_EXT 5170 5250 80 0 17 0 [NL80211_RRF_AUTO_BW],
     REG_RULE_EXT 5250 5330 80 0 23 0 [NL80211_RRF_DFS, NL80211_RRF_AUTO_BW],
     REG_RULE_EXT 5735 5835 80 0 30 0 []]\<rparr>"

definition regdom_DO :: regdomain where
  "regdom_DO = \<lparr>alpha2 = ''DO'', rd_dfs_region = DFS_FCC, n_reg_rules = 4, reg_rules =
    [REG_RULE_EXT 2402 2472 40 0 30 0 [],
     REG_RULE_EXT 5170 5250 80 0 17 0 [NL80211_RRF_AUTO_BW],
     REG_RULE_EXT 5250 5330 80 0 23 0 [NL80211_RRF_DFS, NL80211_RRF_AUTO_BW],
     REG_RULE_EXT 5735 5835 80 0 30 0 []]\<rparr>"

definition regdom_DZ :: regdomain where
  "regdom_DZ = \<lparr>alpha2 = ''DZ'', rd_dfs_region = DFS_ETSI, n_reg_rules = 7, reg_rules =
    [REG_RULE_EXT 2400 2483 40 0 20 0 [],
     REG_RULE_EXT 5150 5250 80 0 23 0 [NL80211_RRF_NO_OUTDOOR, NL80211_RRF_AUTO_BW],
     REG_RULE_EXT 5250 5350 80 0 20 0 [NL80211_RRF_NO_OUTDOOR, NL80211_RRF_DFS, NL80211_RRF_AUTO_BW],
     REG_RULE_EXT 5470 5725 160 0 27 0 [NL80211_RRF_DFS],
     REG_RULE_EXT 5725 5875 80 0 14 0 [],
     REG_RULE_EXT 5945 6425 160 0 23 0 [NL80211_RRF_NO_OUTDOOR],
     REG_RULE_EXT 57000 66000 2160 0 40 0 []]\<rparr>"

definition regdom_EC :: regdomain where
  "regdom_EC = \<lparr>alpha2 = ''EC'', rd_dfs_region = DFS_FCC, n_reg_rules = 5, reg_rules =
    [REG_RULE_EXT 2400 2483 40 0 30 0 [],
     REG_RULE_EXT 5150 5250 80 0 17 0 [NL80211_RRF_AUTO_BW, NL80211_RRF_DFS],
     REG_RULE_EXT 5250 5350 80 0 21 0 [NL80211_RRF_DFS, NL80211_RRF_AUTO_BW],
     REG_RULE_EXT 5470 5725 160 0 21 0 [NL80211_RRF_DFS],
     REG_RULE_EXT 5725 5850 80 0 30 0 []]\<rparr>"

definition regdom_EE :: regdomain where
  "regdom_EE = \<lparr>alpha2 = ''EE'', rd_dfs_region = DFS_ETSI, n_reg_rules = 7, reg_rules =
    [REG_RULE_EXT 2400 2483 40 0 20 0 [],
     REG_RULE_EXT 5150 5250 80 0 23 0 [NL80211_RRF_NO_OUTDOOR, NL80211_RRF_AUTO_BW],
     REG_RULE_EXT 5250 5350 80 0 20 0 [NL80211_RRF_NO_OUTDOOR, NL80211_RRF_DFS, NL80211_RRF_AUTO_BW],
     REG_RULE_EXT 5470 5725 160 0 27 0 [NL80211_RRF_DFS],
     REG_RULE_EXT 5725 5875 80 0 14 0 [],
     REG_RULE_EXT 5945 6425 160 0 23 0 [NL80211_RRF_NO_OUTDOOR],
     REG_RULE_EXT 57000 66000 2160 0 40 0 []]\<rparr>"

definition regdom_EG :: regdomain where
  "regdom_EG = \<lparr>alpha2 = ''EG'', rd_dfs_region = DFS_ETSI, n_reg_rules = 4, reg_rules =
    [REG_RULE_EXT 2402 2483 40 0 20 0 [],
     REG_RULE_EXT 5150 5250 80 0 23 0 [NL80211_RRF_AUTO_BW],
     REG_RULE_EXT 5250 5350 80 0 20 0 [NL80211_RRF_DFS, NL80211_RRF_AUTO_BW],
     REG_RULE_EXT 57000 66000 2160 0 40 0 []]\<rparr>"

definition regdom_ES :: regdomain where
  "regdom_ES = \<lparr>alpha2 = ''ES'', rd_dfs_region = DFS_ETSI, n_reg_rules = 7, reg_rules =
    [REG_RULE_EXT 2400 2483 40 0 20 0 [],
     REG_RULE_EXT 5150 5250 80 0 23 0 [NL80211_RRF_NO_OUTDOOR, NL80211_RRF_AUTO_BW],
     REG_RULE_EXT 5250 5350 80 0 20 0 [NL80211_RRF_NO_OUTDOOR, NL80211_RRF_DFS, NL80211_RRF_AUTO_BW],
     REG_RULE_EXT 5470 5725 160 0 27 0 [NL80211_RRF_DFS],
     REG_RULE_EXT 5725 5875 80 0 14 0 [],
     REG_RULE_EXT 5945 6425 160 0 23 0 [NL80211_RRF_NO_OUTDOOR],
     REG_RULE_EXT 57000 66000 2160 0 40 0 []]\<rparr>"

definition regdom_ET :: regdomain where
  "regdom_ET = \<lparr>alpha2 = ''ET'', rd_dfs_region = DFS_ETSI, n_reg_rules = 4, reg_rules =
    [REG_RULE_EXT 2402 2482 40 0 20 0 [],
     REG_RULE_EXT 5170 5250 80 0 20 0 [NL80211_RRF_AUTO_BW],
     REG_RULE_EXT 5250 5330 80 0 20 0 [NL80211_RRF_DFS, NL80211_RRF_AUTO_BW],
     REG_RULE_EXT 5490 5710 160 0 27 0 [NL80211_RRF_DFS]]\<rparr>"

definition regdom_FI :: regdomain where
  "regdom_FI = \<lparr>alpha2 = ''FI'', rd_dfs_region = DFS_ETSI, n_reg_rules = 7, reg_rules =
    [REG_RULE_EXT 2400 2483 40 0 20 0 [],
     REG_RULE_EXT 5150 5250 80 0 23 0 [NL80211_RRF_AUTO_BW, NL80211_RRF_NO_OUTDOOR],
     REG_RULE_EXT 5250 5350 80 0 20 0 [NL80211_RRF_NO_OUTDOOR, NL80211_RRF_DFS, NL80211_RRF_AUTO_BW],
     REG_RULE_EXT 5470 5725 160 0 27 0 [NL80211_RRF_DFS],
     REG_RULE_EXT 5725 5875 80 0 14 0 [],
     REG_RULE_EXT 5945 6425 160 0 23 0 [NL80211_RRF_NO_OUTDOOR],
     REG_RULE_EXT 57000 66000 2160 0 40 0 []]\<rparr>"

definition regdom_FM :: regdomain where
  "regdom_FM = \<lparr>alpha2 = ''FM'', rd_dfs_region = DFS_FCC, n_reg_rules = 5, reg_rules =
    [REG_RULE_EXT 2402 2472 40 0 30 0 [],
     REG_RULE_EXT 5170 5250 80 0 24 0 [NL80211_RRF_AUTO_BW],
     REG_RULE_EXT 5250 5330 80 0 24 0 [NL80211_RRF_DFS, NL80211_RRF_AUTO_BW],
     REG_RULE_EXT 5490 5730 160 0 24 0 [NL80211_RRF_DFS],
     REG_RULE_EXT 5735 5835 80 0 30 0 []]\<rparr>"

definition regdom_FR :: regdomain where
  "regdom_FR = \<lparr>alpha2 = ''FR'', rd_dfs_region = DFS_ETSI, n_reg_rules = 7, reg_rules =
    [REG_RULE_EXT 2400 2483 40 0 20 0 [],
     REG_RULE_EXT 5150 5250 80 0 23 0 [NL80211_RRF_NO_OUTDOOR, NL80211_RRF_AUTO_BW],
     REG_RULE_EXT 5250 5350 80 0 20 0 [NL80211_RRF_NO_OUTDOOR, NL80211_RRF_DFS, NL80211_RRF_AUTO_BW],
     REG_RULE_EXT 5470 5725 160 0 27 0 [NL80211_RRF_DFS],
     REG_RULE_EXT 5725 5875 80 0 14 0 [],
     REG_RULE_EXT 5945 6425 160 0 23 0 [NL80211_RRF_NO_OUTDOOR],
     REG_RULE_EXT 57000 66000 2160 0 40 0 []]\<rparr>"

definition regdom_GB :: regdomain where
  "regdom_GB = \<lparr>alpha2 = ''GB'', rd_dfs_region = DFS_ETSI, n_reg_rules = 7, reg_rules =
    [REG_RULE_EXT 2400 2483 40 0 20 0 [],
     REG_RULE_EXT 5150 5250 80 0 23 0 [NL80211_RRF_NO_OUTDOOR, NL80211_RRF_AUTO_BW],
     REG_RULE_EXT 5250 5350 80 0 20 0 [NL80211_RRF_NO_OUTDOOR, NL80211_RRF_DFS, NL80211_RRF_AUTO_BW],
     REG_RULE_EXT 5470 5730 160 0 27 0 [NL80211_RRF_DFS],
     REG_RULE_EXT 5725 5850 80 0 23 0 [NL80211_RRF_NO_OUTDOOR],
     REG_RULE_EXT 5925 6425 160 0 24 0 [NL80211_RRF_NO_OUTDOOR],
     REG_RULE_EXT 57000 71000 2160 0 40 0 []]\<rparr>"

definition regdom_GD :: regdomain where
  "regdom_GD = \<lparr>alpha2 = ''GD'', rd_dfs_region = DFS_FCC, n_reg_rules = 5, reg_rules =
    [REG_RULE_EXT 2402 2472 40 0 30 0 [],
     REG_RULE_EXT 5170 5250 80 0 17 0 [NL80211_RRF_AUTO_BW],
     REG_RULE_EXT 5250 5330 80 0 24 0 [NL80211_RRF_DFS, NL80211_RRF_AUTO_BW],
     REG_RULE_EXT 5490 5730 160 0 24 0 [NL80211_RRF_DFS],
     REG_RULE_EXT 5735 5835 80 0 30 0 []]\<rparr>"

definition regdom_GE :: regdomain where
  "regdom_GE = \<lparr>alpha2 = ''GE'', rd_dfs_region = DFS_ETSI, n_reg_rules = 4, reg_rules =
    [REG_RULE_EXT 2402 2482 40 0 20 0 [],
     REG_RULE_EXT 5170 5250 80 0 18 0 [NL80211_RRF_AUTO_BW],
     REG_RULE_EXT 5250 5330 80 0 18 0 [NL80211_RRF_DFS, NL80211_RRF_AUTO_BW],
     REG_RULE_EXT 57000 66000 2160 0 40 0 []]\<rparr>"

definition regdom_GF :: regdomain where
  "regdom_GF = \<lparr>alpha2 = ''GF'', rd_dfs_region = DFS_ETSI, n_reg_rules = 4, reg_rules =
    [REG_RULE_EXT 2402 2482 40 0 20 0 [],
     REG_RULE_EXT 5170 5250 80 0 20 0 [NL80211_RRF_AUTO_BW],
     REG_RULE_EXT 5250 5330 80 0 20 0 [NL80211_RRF_DFS, NL80211_RRF_AUTO_BW],
     REG_RULE_EXT 5490 5710 160 0 27 0 [NL80211_RRF_DFS]]\<rparr>"

definition regdom_GH :: regdomain where
  "regdom_GH = \<lparr>alpha2 = ''GH'', rd_dfs_region = DFS_ETSI, n_reg_rules = 7, reg_rules =
    [REG_RULE_EXT 2400 2483 40 0 20 0 [],
     REG_RULE_EXT 5150 5250 80 0 23 0 [NL80211_RRF_NO_OUTDOOR, NL80211_RRF_AUTO_BW],
     REG_RULE_EXT 5250 5350 80 0 20 0 [NL80211_RRF_NO_OUTDOOR, NL80211_RRF_DFS, NL80211_RRF_AUTO_BW],
     REG_RULE_EXT 5470 5725 160 0 27 0 [NL80211_RRF_DFS],
     REG_RULE_EXT 5725 5875 80 0 14 0 [],
     REG_RULE_EXT 5945 6425 160 0 23 0 [NL80211_RRF_NO_OUTDOOR],
     REG_RULE_EXT 57000 66000 2160 0 40 0 []]\<rparr>"

definition regdom_GI :: regdomain where
  "regdom_GI = \<lparr>alpha2 = ''GI'', rd_dfs_region = DFS_ETSI, n_reg_rules = 7, reg_rules =
    [REG_RULE_EXT 2400 2483 40 0 20 0 [],
     REG_RULE_EXT 5150 5250 80 0 23 0 [NL80211_RRF_NO_OUTDOOR, NL80211_RRF_AUTO_BW],
     REG_RULE_EXT 5250 5350 80 0 20 0 [NL80211_RRF_NO_OUTDOOR, NL80211_RRF_DFS, NL80211_RRF_AUTO_BW],
     REG_RULE_EXT 5470 5725 160 0 27 0 [NL80211_RRF_DFS],
     REG_RULE_EXT 5725 5875 80 0 14 0 [],
     REG_RULE_EXT 5945 6425 160 0 23 0 [NL80211_RRF_NO_OUTDOOR],
     REG_RULE_EXT 57000 66000 2160 0 40 0 []]\<rparr>"

definition regdom_GL :: regdomain where
  "regdom_GL = \<lparr>alpha2 = ''GL'', rd_dfs_region = DFS_ETSI, n_reg_rules = 4, reg_rules =
    [REG_RULE_EXT 2402 2482 40 0 20 0 [],
     REG_RULE_EXT 5170 5250 80 0 20 0 [NL80211_RRF_AUTO_BW],
     REG_RULE_EXT 5250 5330 80 0 20 0 [NL80211_RRF_DFS, NL80211_RRF_AUTO_BW],
     REG_RULE_EXT 5490 5710 160 0 27 0 [NL80211_RRF_DFS]]\<rparr>"

definition regdom_GP :: regdomain where
  "regdom_GP = \<lparr>alpha2 = ''GP'', rd_dfs_region = DFS_ETSI, n_reg_rules = 4, reg_rules =
    [REG_RULE_EXT 2402 2482 40 0 20 0 [],
     REG_RULE_EXT 5170 5250 80 0 20 0 [NL80211_RRF_AUTO_BW],
     REG_RULE_EXT 5250 5330 80 0 20 0 [NL80211_RRF_DFS, NL80211_RRF_AUTO_BW],
     REG_RULE_EXT 5490 5710 160 0 27 0 [NL80211_RRF_DFS]]\<rparr>"

definition regdom_GR :: regdomain where
  "regdom_GR = \<lparr>alpha2 = ''GR'', rd_dfs_region = DFS_ETSI, n_reg_rules = 7, reg_rules =
    [REG_RULE_EXT 2400 2483 40 0 20 0 [],
     REG_RULE_EXT 5150 5250 80 0 23 0 [NL80211_RRF_NO_OUTDOOR, NL80211_RRF_AUTO_BW],
     REG_RULE_EXT 5250 5350 80 0 20 0 [NL80211_RRF_NO_OUTDOOR, NL80211_RRF_DFS, NL80211_RRF_AUTO_BW],
     REG_RULE_EXT 5470 5725 160 0 27 0 [NL80211_RRF_DFS],
     REG_RULE_EXT 5725 5875 80 0 14 0 [],
     REG_RULE_EXT 5945 6425 160 0 23 0 [NL80211_RRF_NO_OUTDOOR],
     REG_RULE_EXT 57000 66000 2160 0 40 0 []]\<rparr>"

definition regdom_GT :: regdomain where
  "regdom_GT = \<lparr>alpha2 = ''GT'', rd_dfs_region = DFS_FCC, n_reg_rules = 4, reg_rules =
    [REG_RULE_EXT 2402 2472 40 0 30 0 [],
     REG_RULE_EXT 5170 5250 80 0 17 0 [NL80211_RRF_AUTO_BW],
     REG_RULE_EXT 5250 5330 80 0 23 0 [NL80211_RRF_DFS, NL80211_RRF_AUTO_BW],
     REG_RULE_EXT 5735 5835 80 0 30 0 []]\<rparr>"

definition regdom_GU :: regdomain where
  "regdom_GU = \<lparr>alpha2 = ''GU'', rd_dfs_region = DFS_FCC, n_reg_rules = 5, reg_rules =
    [REG_RULE_EXT 2402 2472 40 0 30 0 [],
     REG_RULE_EXT 5170 5250 20 0 17 0 [],
     REG_RULE_EXT 5250 5330 20 0 24 0 [NL80211_RRF_DFS],
     REG_RULE_EXT 5490 5730 20 0 24 0 [NL80211_RRF_DFS],
     REG_RULE_EXT 5735 5835 20 0 30 0 []]\<rparr>"

definition regdom_GY :: regdomain where
  "regdom_GY = \<lparr>alpha2 = ''GY'', rd_dfs_region = DFS_UNSET, n_reg_rules = 5, reg_rules =
    [REG_RULE_EXT 2402 2482 40 0 30 0 [],
     REG_RULE_EXT 5170 5250 80 0 23 0 [NL80211_RRF_AUTO_BW],
     REG_RULE_EXT 5250 5330 80 0 23 0 [NL80211_RRF_DFS, NL80211_RRF_AUTO_BW],
     REG_RULE_EXT 5490 5730 160 0 23 0 [NL80211_RRF_DFS],
     REG_RULE_EXT 5735 5835 80 0 30 0 []]\<rparr>"

definition regdom_HK :: regdomain where
  "regdom_HK = \<lparr>alpha2 = ''HK'', rd_dfs_region = DFS_ETSI, n_reg_rules = 6, reg_rules =
    [REG_RULE_EXT 2400 2483 40 0 36 0 [],
     REG_RULE_EXT 5150 5250 80 0 23 0 [NL80211_RRF_AUTO_BW, NL80211_RRF_NO_OUTDOOR],
     REG_RULE_EXT 5250 5350 80 0 23 0 [NL80211_RRF_DFS, NL80211_RRF_AUTO_BW, NL80211_RRF_NO_OUTDOOR],
     REG_RULE_EXT 5470 5730 160 0 27 0 [NL80211_RRF_DFS],
     REG_RULE_EXT 5730 5850 80 0 36 0 [],
     REG_RULE_EXT 5925 6425 160 0 14 0 []]\<rparr>"

definition regdom_HN :: regdomain where
  "regdom_HN = \<lparr>alpha2 = ''HN'', rd_dfs_region = DFS_FCC, n_reg_rules = 5, reg_rules =
    [REG_RULE_EXT 2402 2482 40 0 20 0 [],
     REG_RULE_EXT 5170 5250 80 0 17 0 [NL80211_RRF_AUTO_BW],
     REG_RULE_EXT 5250 5330 80 0 24 0 [NL80211_RRF_DFS, NL80211_RRF_AUTO_BW],
     REG_RULE_EXT 5490 5730 160 0 24 0 [NL80211_RRF_DFS],
     REG_RULE_EXT 5735 5835 80 0 30 0 []]\<rparr>"

definition regdom_HR :: regdomain where
  "regdom_HR = \<lparr>alpha2 = ''HR'', rd_dfs_region = DFS_ETSI, n_reg_rules = 7, reg_rules =
    [REG_RULE_EXT 2400 2483 40 0 20 0 [],
     REG_RULE_EXT 5150 5250 80 0 23 0 [NL80211_RRF_AUTO_BW],
     REG_RULE_EXT 5250 5350 80 0 23 0 [NL80211_RRF_DFS, NL80211_RRF_AUTO_BW],
     REG_RULE_EXT 5470 5725 160 0 27 0 [NL80211_RRF_DFS],
     REG_RULE_EXT 5725 5875 80 0 14 0 [],
     REG_RULE_EXT 5945 6425 160 0 23 0 [NL80211_RRF_NO_OUTDOOR],
     REG_RULE_EXT 57000 66000 2160 0 40 0 []]\<rparr>"

definition regdom_HT :: regdomain where
  "regdom_HT = \<lparr>alpha2 = ''HT'', rd_dfs_region = DFS_FCC, n_reg_rules = 5, reg_rules =
    [REG_RULE_EXT 2402 2472 40 0 30 0 [],
     REG_RULE_EXT 5170 5250 80 0 24 0 [NL80211_RRF_AUTO_BW],
     REG_RULE_EXT 5250 5330 80 0 24 0 [NL80211_RRF_DFS, NL80211_RRF_AUTO_BW],
     REG_RULE_EXT 5490 5730 160 0 24 0 [NL80211_RRF_DFS],
     REG_RULE_EXT 5735 5835 80 0 30 0 []]\<rparr>"

definition regdom_HU :: regdomain where
  "regdom_HU = \<lparr>alpha2 = ''HU'', rd_dfs_region = DFS_ETSI, n_reg_rules = 7, reg_rules =
    [REG_RULE_EXT 2400 2483 40 0 20 0 [],
     REG_RULE_EXT 5150 5250 80 0 23 0 [NL80211_RRF_NO_OUTDOOR, NL80211_RRF_AUTO_BW],
     REG_RULE_EXT 5250 5350 80 0 20 0 [NL80211_RRF_NO_OUTDOOR, NL80211_RRF_DFS, NL80211_RRF_AUTO_BW],
     REG_RULE_EXT 5470 5725 160 0 27 0 [NL80211_RRF_DFS],
     REG_RULE_EXT 5725 5875 80 0 14 0 [],
     REG_RULE_EXT 5945 6425 160 0 23 0 [NL80211_RRF_NO_OUTDOOR],
     REG_RULE_EXT 57000 66000 2160 0 40 0 []]\<rparr>"

definition regdom_ID :: regdomain where
  "regdom_ID = \<lparr>alpha2 = ''ID'', rd_dfs_region = DFS_JP, n_reg_rules = 3, reg_rules =
    [REG_RULE_EXT 2400 2483 40 0 27 0 [NL80211_RRF_NO_OUTDOOR],
     REG_RULE_EXT 5150 5350 80 0 23 0 [NL80211_RRF_NO_OUTDOOR],
     REG_RULE_EXT 5725 5825 80 0 23 0 [NL80211_RRF_NO_OUTDOOR]]\<rparr>"

definition regdom_IE :: regdomain where
  "regdom_IE = \<lparr>alpha2 = ''IE'', rd_dfs_region = DFS_ETSI, n_reg_rules = 7, reg_rules =
    [REG_RULE_EXT 2400 2483 40 0 20 0 [],
     REG_RULE_EXT 5150 5250 80 0 23 0 [NL80211_RRF_NO_OUTDOOR, NL80211_RRF_AUTO_BW],
     REG_RULE_EXT 5250 5350 80 0 20 0 [NL80211_RRF_NO_OUTDOOR, NL80211_RRF_DFS, NL80211_RRF_AUTO_BW],
     REG_RULE_EXT 5470 5725 160 0 27 0 [NL80211_RRF_DFS],
     REG_RULE_EXT 5725 5875 80 0 14 0 [],
     REG_RULE_EXT 5945 6425 160 0 23 0 [NL80211_RRF_NO_OUTDOOR],
     REG_RULE_EXT 57000 66000 2160 0 40 0 []]\<rparr>"

definition regdom_IL :: regdomain where
  "regdom_IL = \<lparr>alpha2 = ''IL'', rd_dfs_region = DFS_ETSI, n_reg_rules = 5, reg_rules =
    [REG_RULE_EXT 2402 2482 40 0 20 0 [],
     REG_RULE_EXT 5150 5250 80 0 23 0 [NL80211_RRF_NO_OUTDOOR, NL80211_RRF_AUTO_BW],
     REG_RULE_EXT 5250 5350 80 0 23 0 [NL80211_RRF_NO_OUTDOOR, NL80211_RRF_DFS, NL80211_RRF_AUTO_BW],
     REG_RULE_EXT 5470 5725 160 0 27 0 [NL80211_RRF_NO_OUTDOOR, NL80211_RRF_AUTO_BW, NL80211_RRF_DFS],
     REG_RULE_EXT 5725 5875 80 0 23 0 [NL80211_RRF_AUTO_BW]]\<rparr>"

definition regdom_IN :: regdomain where
  "regdom_IN = \<lparr>alpha2 = ''IN'', rd_dfs_region = DFS_UNSET, n_reg_rules = 5, reg_rules =
    [REG_RULE_EXT 2402 2482 40 0 30 0 [],
     REG_RULE_EXT 5150 5250 80 0 30 0 [],
     REG_RULE_EXT 5250 5350 80 0 24 0 [NL80211_RRF_DFS],
     REG_RULE_EXT 5470 5725 160 0 24 0 [NL80211_RRF_DFS],
     REG_RULE_EXT 5725 5875 80 0 30 0 []]\<rparr>"

definition regdom_IQ :: regdomain where
  "regdom_IQ = \<lparr>alpha2 = ''IQ'', rd_dfs_region = DFS_ETSI, n_reg_rules = 7, reg_rules =
    [REG_RULE_EXT 2400 2483 40 0 20 0 [],
     REG_RULE_EXT 5150 5250 80 0 23 0 [NL80211_RRF_NO_OUTDOOR, NL80211_RRF_AUTO_BW],
     REG_RULE_EXT 5250 5350 80 0 20 0 [NL80211_RRF_NO_OUTDOOR, NL80211_RRF_DFS, NL80211_RRF_AUTO_BW],
     REG_RULE_EXT 5470 5725 160 0 27 0 [NL80211_RRF_DFS],
     REG_RULE_EXT 5725 5875 80 0 14 0 [],
     REG_RULE_EXT 5945 6425 160 0 23 0 [NL80211_RRF_NO_OUTDOOR],
     REG_RULE_EXT 57000 66000 2160 0 40 0 []]\<rparr>"

definition regdom_IR :: regdomain where
  "regdom_IR = \<lparr>alpha2 = ''IR'', rd_dfs_region = DFS_JP, n_reg_rules = 2, reg_rules =
    [REG_RULE_EXT 2402 2482 40 0 20 0 [],
     REG_RULE_EXT 5735 5835 80 0 30 0 []]\<rparr>"

definition regdom_IS :: regdomain where
  "regdom_IS = \<lparr>alpha2 = ''IS'', rd_dfs_region = DFS_ETSI, n_reg_rules = 6, reg_rules =
    [REG_RULE_EXT 2400 2483 40 0 20 0 [],
     REG_RULE_EXT 5150 5250 80 0 23 0 [NL80211_RRF_AUTO_BW, NL80211_RRF_NO_OUTDOOR],
     REG_RULE_EXT 5250 5350 80 0 20 0 [NL80211_RRF_DFS, NL80211_RRF_AUTO_BW, NL80211_RRF_NO_OUTDOOR],
     REG_RULE_EXT 5470 5725 160 0 27 0 [NL80211_RRF_DFS],
     REG_RULE_EXT 5725 5875 80 0 14 0 [NL80211_RRF_DFS],
     REG_RULE_EXT 57000 66000 2160 0 40 0 []]\<rparr>"

definition regdom_IT :: regdomain where
  "regdom_IT = \<lparr>alpha2 = ''IT'', rd_dfs_region = DFS_ETSI, n_reg_rules = 5, reg_rules =
    [REG_RULE_EXT 2400 2483 40 0 20 0 [],
     REG_RULE_EXT 5150 5250 80 0 23 0 [NL80211_RRF_NO_OUTDOOR, NL80211_RRF_AUTO_BW],
     REG_RULE_EXT 5250 5350 80 0 20 0 [NL80211_RRF_NO_OUTDOOR, NL80211_RRF_DFS, NL80211_RRF_AUTO_BW],
     REG_RULE_EXT 5470 5725 160 0 27 0 [NL80211_RRF_DFS],
     REG_RULE_EXT 5725 5875 80 0 14 0 [],
     REG_RULE_EXT 5945 6425 160 0 23 0 [NL80211_RRF_NO_OUTDOOR],
     REG_RULE_EXT 57000 66000 2160 0 40 0 []]\<rparr>"

definition regdom_JM :: regdomain where
  "regdom_JM = \<lparr>alpha2 = ''JM'', rd_dfs_region = DFS_FCC, n_reg_rules = 5, reg_rules =
    [REG_RULE_EXT 2402 2482 40 0 20 0 [],
     REG_RULE_EXT 5170 5250 80 0 17 0 [NL80211_RRF_AUTO_BW],
     REG_RULE_EXT 5250 5330 80 0 24 0 [NL80211_RRF_DFS, NL80211_RRF_AUTO_BW],
     REG_RULE_EXT 5490 5730 160 0 24 0 [NL80211_RRF_DFS],
     REG_RULE_EXT 5735 5835 80 0 30 0 []]\<rparr>"

definition regdom_JO :: regdomain where
  "regdom_JO = \<lparr>alpha2 = ''JO'', rd_dfs_region = DFS_JP, n_reg_rules = 3, reg_rules =
    [REG_RULE_EXT 2402 2482 40 0 20 0 [],
     REG_RULE_EXT 5170 5250 80 0 23 0 [],
     REG_RULE_EXT 5735 5835 80 0 23 0 []]\<rparr>"

definition regdom_JP :: regdomain where
  "regdom_JP = \<lparr>alpha2 = ''JP'', rd_dfs_region = DFS_JP, n_reg_rules = 8, reg_rules =
    [REG_RULE_EXT 2402 2482 40 0 20 0 [],
     REG_RULE_EXT 2474 2494 20 0 20 0 [NL80211_RRF_NO_OFDM],
     REG_RULE_EXT 4910 4990 40 0 23 0 [],
     REG_RULE_EXT 5170 5250 80 0 20 0 [NL80211_RRF_AUTO_BW],
     REG_RULE_EXT 5250 5330 80 0 20 0 [NL80211_RRF_DFS, NL80211_RRF_AUTO_BW],
     REG_RULE_EXT 5490 5730 160 0 23 0 [NL80211_RRF_DFS],
     REG_RULE_EXT 5925 6425 320 0 23 0 [NL80211_RRF_NO_OUTDOOR],
     REG_RULE_EXT 57000 66000 2160 0 10 0 []]\<rparr>"

definition regdom_KE :: regdomain where
  "regdom_KE = \<lparr>alpha2 = ''KE'', rd_dfs_region = DFS_JP, n_reg_rules = 4, reg_rules =
    [REG_RULE_EXT 2402 2482 40 0 20 0 [],
     REG_RULE_EXT 5170 5250 80 0 23 0 [],
     REG_RULE_EXT 5490 5570 80 0 30 0 [NL80211_RRF_DFS],
     REG_RULE_EXT 5735 5775 40 0 23 0 []]\<rparr>"

definition regdom_KG :: regdomain where
  "regdom_KG = \<lparr>alpha2 = ''KG'', rd_dfs_region = DFS_ETSI, n_reg_rules = 7, reg_rules =
    [REG_RULE_EXT 2400 2483 40 0 20 0 [],
     REG_RULE_EXT 5150 5250 80 0 23 0 [NL80211_RRF_NO_OUTDOOR, NL80211_RRF_AUTO_BW],
     REG_RULE_EXT 5250 5350 80 0 20 0 [NL80211_RRF_NO_OUTDOOR, NL80211_RRF_DFS, NL80211_RRF_AUTO_BW],
     REG_RULE_EXT 5470 5725 160 0 27 0 [NL80211_RRF_DFS],
     REG_RULE_EXT 5725 5875 80 0 14 0 [],
     REG_RULE_EXT 5945 6425 160 0 23 0 [NL80211_RRF_NO_OUTDOOR],
     REG_RULE_EXT 57000 66000 2160 0 40 0 []]\<rparr>"

definition regdom_KH :: regdomain where
  "regdom_KH = \<lparr>alpha2 = ''KH'', rd_dfs_region = DFS_ETSI, n_reg_rules = 4, reg_rules =
    [REG_RULE_EXT 2402 2482 40 0 20 0 [],
     REG_RULE_EXT 5170 5250 80 0 20 0 [NL80211_RRF_AUTO_BW],
     REG_RULE_EXT 5250 5330 80 0 20 0 [NL80211_RRF_DFS, NL80211_RRF_AUTO_BW],
     REG_RULE_EXT 5490 5710 160 0 27 0 [NL80211_RRF_DFS]]\<rparr>"

definition regdom_KN :: regdomain where
  "regdom_KN = \<lparr>alpha2 = ''KN'', rd_dfs_region = DFS_ETSI, n_reg_rules = 5, reg_rules =
    [REG_RULE_EXT 2402 2482 40 0 20 0 [],
     REG_RULE_EXT 5170 5250 80 0 20 0 [NL80211_RRF_AUTO_BW],
     REG_RULE_EXT 5250 5330 80 0 20 0 [NL80211_RRF_DFS, NL80211_RRF_AUTO_BW],
     REG_RULE_EXT 5490 5710 160 0 30 0 [NL80211_RRF_DFS],
     REG_RULE_EXT 5735 5815 80 0 30 0 []]\<rparr>"

definition regdom_KP :: regdomain where
  "regdom_KP = \<lparr>alpha2 = ''KP'', rd_dfs_region = DFS_JP, n_reg_rules = 5, reg_rules =
    [REG_RULE_EXT 2402 2482 20 0 20 0 [],
     REG_RULE_EXT 5170 5250 20 0 20 0 [],
     REG_RULE_EXT 5250 5330 20 0 20 0 [NL80211_RRF_DFS],
     REG_RULE_EXT 5490 5630 20 0 30 0 [NL80211_RRF_DFS],
     REG_RULE_EXT 5735 5815 20 0 30 0 []]\<rparr>"

definition regdom_KR :: regdomain where
  "regdom_KR = \<lparr>alpha2 = ''KR'', rd_dfs_region = DFS_JP, n_reg_rules = 8, reg_rules =
    [REG_RULE_EXT 2400 2483 40 0 23 0 [],
     REG_RULE_EXT 5150 5230 40 0 23 0 [NL80211_RRF_AUTO_BW],
     REG_RULE_EXT 5230 5250 20 0 17 0 [NL80211_RRF_AUTO_BW],
     REG_RULE_EXT 5250 5350 80 0 20 0 [NL80211_RRF_DFS, NL80211_RRF_AUTO_BW],
     REG_RULE_EXT 5470 5725 160 0 20 0 [NL80211_RRF_DFS],
     REG_RULE_EXT 5725 5850 80 0 23 0 [],
     REG_RULE_EXT 5925 7125 160 0 15 0 [NL80211_RRF_NO_OUTDOOR],
     REG_RULE_EXT 57000 66000 2160 0 43 0 []]\<rparr>"

definition regdom_KW :: regdomain where
  "regdom_KW = \<lparr>alpha2 = ''KW'', rd_dfs_region = DFS_ETSI, n_reg_rules = 3, reg_rules =
    [REG_RULE_EXT 2402 2482 40 0 20 0 [],
     REG_RULE_EXT 5170 5250 80 0 20 0 [NL80211_RRF_AUTO_BW],
     REG_RULE_EXT 5250 5330 80 0 20 0 [NL80211_RRF_DFS, NL80211_RRF_AUTO_BW]]\<rparr>"

definition regdom_KY :: regdomain where
  "regdom_KY = \<lparr>alpha2 = ''KY'', rd_dfs_region = DFS_FCC, n_reg_rules = 5, reg_rules =
    [REG_RULE_EXT 2402 2482 40 0 20 0 [],
     REG_RULE_EXT 5170 5250 80 0 24 0 [NL80211_RRF_AUTO_BW],
     REG_RULE_EXT 5250 5330 80 0 24 0 [NL80211_RRF_DFS, NL80211_RRF_AUTO_BW],
     REG_RULE_EXT 5490 5730 160 0 24 0 [NL80211_RRF_DFS],
     REG_RULE_EXT 5735 5835 80 0 30 0 []]\<rparr>"

definition regdom_KZ :: regdomain where
  "regdom_KZ = \<lparr>alpha2 = ''KZ'', rd_dfs_region = DFS_ETSI, n_reg_rules = 6, reg_rules =
    [REG_RULE_EXT 2400 2483 40 0 20 0 [],
     REG_RULE_EXT 5150 5250 80 0 23 0 [NL80211_RRF_NO_OUTDOOR, NL80211_RRF_AUTO_BW],
     REG_RULE_EXT 5250 5350 80 0 20 0 [NL80211_RRF_NO_OUTDOOR, NL80211_RRF_DFS, NL80211_RRF_AUTO_BW],
     REG_RULE_EXT 5470 5725 160 0 20 0 [NL80211_RRF_DFS, NL80211_RRF_NO_OUTDOOR],
     REG_RULE_EXT 5725 5850 80 0 20 0 [NL80211_RRF_NO_OUTDOOR],
     REG_RULE_EXT 57000 66000 2160 0 40 0 []]\<rparr>"

definition regdom_LB :: regdomain where
  "regdom_LB = \<lparr>alpha2 = ''LB'', rd_dfs_region = DFS_FCC, n_reg_rules = 5, reg_rules =
    [REG_RULE_EXT 2402 2482 40 0 20 0 [],
     REG_RULE_EXT 5170 5250 80 0 17 0 [NL80211_RRF_AUTO_BW],
     REG_RULE_EXT 5250 5330 80 0 24 0 [NL80211_RRF_DFS, NL80211_RRF_AUTO_BW],
     REG_RULE_EXT 5490 5730 160 0 24 0 [NL80211_RRF_DFS],
     REG_RULE_EXT 5735 5835 80 0 30 0 []]\<rparr>"

definition regdom_LC :: regdomain where
  "regdom_LC = \<lparr>alpha2 = ''LC'', rd_dfs_region = DFS_ETSI, n_reg_rules = 5, reg_rules =
    [REG_RULE_EXT 2402 2482 40 0 20 0 [],
     REG_RULE_EXT 5170 5250 80 0 20 0 [NL80211_RRF_AUTO_BW],
     REG_RULE_EXT 5250 5330 80 0 20 0 [NL80211_RRF_DFS, NL80211_RRF_AUTO_BW],
     REG_RULE_EXT 5490 5710 160 0 30 0 [NL80211_RRF_DFS],
     REG_RULE_EXT 5735 5815 80 0 30 0 []]\<rparr>"

definition regdom_LI :: regdomain where
  "regdom_LI = \<lparr>alpha2 = ''LI'', rd_dfs_region = DFS_ETSI, n_reg_rules = 6, reg_rules =
    [REG_RULE_EXT 2400 2483 40 0 20 0 [],
     REG_RULE_EXT 5150 5250 80 0 23 0 [NL80211_RRF_AUTO_BW, NL80211_RRF_NO_OUTDOOR],
     REG_RULE_EXT 5250 5350 80 0 20 0 [NL80211_RRF_NO_OUTDOOR, NL80211_RRF_DFS, NL80211_RRF_AUTO_BW],
     REG_RULE_EXT 5470 5725 160 0 27 0 [NL80211_RRF_DFS],
     REG_RULE_EXT 5725 5875 80 0 14 0 [],
     REG_RULE_EXT 57000 66000 2160 0 40 0 []]\<rparr>"

definition regdom_LK :: regdomain where
  "regdom_LK = \<lparr>alpha2 = ''LK'', rd_dfs_region = DFS_FCC, n_reg_rules = 5, reg_rules =
    [REG_RULE_EXT 2402 2482 40 0 20 0 [],
     REG_RULE_EXT 5170 5250 20 0 17 0 [],
     REG_RULE_EXT 5250 5330 20 0 24 0 [NL80211_RRF_DFS],
     REG_RULE_EXT 5490 5730 20 0 24 0 [NL80211_RRF_DFS],
     REG_RULE_EXT 5735 5835 20 0 30 0 []]\<rparr>"

definition regdom_LS :: regdomain where
  "regdom_LS = \<lparr>alpha2 = ''LS'', rd_dfs_region = DFS_ETSI, n_reg_rules = 4, reg_rules =
    [REG_RULE_EXT 2402 2482 40 0 20 0 [],
     REG_RULE_EXT 5170 5250 80 0 20 0 [NL80211_RRF_AUTO_BW],
     REG_RULE_EXT 5250 5330 80 0 20 0 [NL80211_RRF_DFS, NL80211_RRF_AUTO_BW],
     REG_RULE_EXT 5490 5710 160 0 27 0 [NL80211_RRF_DFS]]\<rparr>"

definition regdom_LT :: regdomain where
  "regdom_LT = \<lparr>alpha2 = ''LT'', rd_dfs_region = DFS_ETSI, n_reg_rules = 7, reg_rules =
    [REG_RULE_EXT 2400 2483 40 0 20 0 [],
     REG_RULE_EXT 5150 5250 80 0 23 0 [NL80211_RRF_NO_OUTDOOR, NL80211_RRF_AUTO_BW],
     REG_RULE_EXT 5250 5350 80 0 20 0 [NL80211_RRF_NO_OUTDOOR, NL80211_RRF_DFS, NL80211_RRF_AUTO_BW],
     REG_RULE_EXT 5470 5725 160 0 27 0 [NL80211_RRF_DFS],
     REG_RULE_EXT 5725 5875 80 0 14 0 [],
     REG_RULE_EXT 5945 6425 160 0 23 0 [NL80211_RRF_NO_OUTDOOR],
     REG_RULE_EXT 57000 66000 2160 0 40 0 []]\<rparr>"

definition regdom_LU :: regdomain where
  "regdom_LU = \<lparr>alpha2 = ''LU'', rd_dfs_region = DFS_ETSI, n_reg_rules = 7, reg_rules =
    [REG_RULE_EXT 2400 2483 40 0 20 0 [],
     REG_RULE_EXT 5150 5250 80 0 23 0 [NL80211_RRF_NO_OUTDOOR, NL80211_RRF_AUTO_BW],
     REG_RULE_EXT 5250 5350 80 0 20 0 [NL80211_RRF_NO_OUTDOOR, NL80211_RRF_DFS, NL80211_RRF_AUTO_BW],
     REG_RULE_EXT 5470 5725 160 0 27 0 [NL80211_RRF_DFS],
     REG_RULE_EXT 5725 5875 80 0 14 0 [],
     REG_RULE_EXT 5945 6425 160 0 23 0 [NL80211_RRF_NO_OUTDOOR],
     REG_RULE_EXT 57000 66000 2160 0 40 0 []]\<rparr>"

definition regdom_LV :: regdomain where
  "regdom_LV = \<lparr>alpha2 = ''LV'', rd_dfs_region = DFS_ETSI, n_reg_rules = 7, reg_rules =
    [REG_RULE_EXT 2400 2483 40 0 20 0 [],
     REG_RULE_EXT 5150 5250 80 0 23 0 [NL80211_RRF_NO_OUTDOOR, NL80211_RRF_AUTO_BW],
     REG_RULE_EXT 5250 5350 80 0 20 0 [NL80211_RRF_NO_OUTDOOR, NL80211_RRF_DFS, NL80211_RRF_AUTO_BW],
     REG_RULE_EXT 5470 5725 160 0 27 0 [NL80211_RRF_DFS],
     REG_RULE_EXT 5725 5875 80 0 14 0 [],
     REG_RULE_EXT 5945 6425 160 0 23 0 [NL80211_RRF_NO_OUTDOOR],
     REG_RULE_EXT 57000 66000 2160 0 40 0 []]\<rparr>"

definition regdom_LY :: regdomain where
  "regdom_LY = \<lparr>alpha2 = ''LY'', rd_dfs_region = DFS_ETSI, n_reg_rules = 7, reg_rules =
    [REG_RULE_EXT 2400 2483 40 0 20 0 [],
     REG_RULE_EXT 5150 5250 80 0 23 0 [NL80211_RRF_NO_OUTDOOR, NL80211_RRF_AUTO_BW],
     REG_RULE_EXT 5250 5350 80 0 20 0 [NL80211_RRF_NO_OUTDOOR, NL80211_RRF_DFS, NL80211_RRF_AUTO_BW],
     REG_RULE_EXT 5470 5725 160 0 27 0 [NL80211_RRF_DFS],
     REG_RULE_EXT 5725 5875 80 0 14 0 [],
     REG_RULE_EXT 5945 6425 160 0 23 0 [NL80211_RRF_NO_OUTDOOR],
     REG_RULE_EXT 57000 66000 2160 0 40 0 []]\<rparr>"

definition regdom_MA :: regdomain where
  "regdom_MA = \<lparr>alpha2 = ''MA'', rd_dfs_region = DFS_ETSI, n_reg_rules = 3, reg_rules =
    [REG_RULE_EXT 2402 2482 40 0 20 0 [],
     REG_RULE_EXT 5170 5250 80 0 20 0 [NL80211_RRF_AUTO_BW],
     REG_RULE_EXT 5250 5330 80 0 20 0 [NL80211_RRF_DFS, NL80211_RRF_AUTO_BW]]\<rparr>"

definition regdom_MC :: regdomain where
  "regdom_MC = \<lparr>alpha2 = ''MC'', rd_dfs_region = DFS_ETSI, n_reg_rules = 5, reg_rules =
    [REG_RULE_EXT 2400 2483 40 0 20 0 [],
     REG_RULE_EXT 5150 5250 80 0 23 0 [NL80211_RRF_NO_OUTDOOR, NL80211_RRF_AUTO_BW],
     REG_RULE_EXT 5250 5350 80 0 20 0 [NL80211_RRF_NO_OUTDOOR, NL80211_RRF_DFS, NL80211_RRF_AUTO_BW],
     REG_RULE_EXT 5470 5725 160 0 27 0 [NL80211_RRF_DFS],
     REG_RULE_EXT 5725 5875 80 0 14 0 []]\<rparr>"

definition regdom_MD :: regdomain where
  "regdom_MD = \<lparr>alpha2 = ''MD'', rd_dfs_region = DFS_ETSI, n_reg_rules = 5, reg_rules =
    [REG_RULE_EXT 2400 2483 40 0 20 0 [],
     REG_RULE_EXT 5150 5250 80 0 23 0 [NL80211_RRF_NO_OUTDOOR, NL80211_RRF_AUTO_BW],
     REG_RULE_EXT 5250 5350 80 0 20 0 [NL80211_RRF_NO_OUTDOOR, NL80211_RRF_DFS, NL80211_RRF_AUTO_BW],
     REG_RULE_EXT 5470 5725 160 0 27 0 [NL80211_RRF_DFS],
     REG_RULE_EXT 5725 5875 80 0 14 0 []]\<rparr>"

definition regdom_ME :: regdomain where
  "regdom_ME = \<lparr>alpha2 = ''ME'', rd_dfs_region = DFS_ETSI, n_reg_rules = 5, reg_rules =
    [REG_RULE_EXT 2400 2483 40 0 20 0 [],
     REG_RULE_EXT 5150 5250 80 0 23 0 [NL80211_RRF_NO_OUTDOOR, NL80211_RRF_AUTO_BW],
     REG_RULE_EXT 5250 5350 80 0 20 0 [NL80211_RRF_NO_OUTDOOR, NL80211_RRF_DFS, NL80211_RRF_AUTO_BW],
     REG_RULE_EXT 5470 5725 160 0 27 0 [NL80211_RRF_DFS],
     REG_RULE_EXT 5725 5875 80 0 14 0 []]\<rparr>"

definition regdom_MF :: regdomain where
  "regdom_MF = \<lparr>alpha2 = ''MF'', rd_dfs_region = DFS_ETSI, n_reg_rules = 4, reg_rules =
    [REG_RULE_EXT 2402 2482 40 0 20 0 [],
     REG_RULE_EXT 5170 5250 80 0 20 0 [NL80211_RRF_AUTO_BW],
     REG_RULE_EXT 5250 5330 80 0 20 0 [NL80211_RRF_DFS, NL80211_RRF_AUTO_BW],
     REG_RULE_EXT 5490 5710 160 0 27 0 [NL80211_RRF_DFS]]\<rparr>"

definition regdom_MH :: regdomain where
  "regdom_MH = \<lparr>alpha2 = ''MH'', rd_dfs_region = DFS_FCC, n_reg_rules = 5, reg_rules =
    [REG_RULE_EXT 2402 2472 40 0 30 0 [],
     REG_RULE_EXT 5170 5250 80 0 24 0 [NL80211_RRF_AUTO_BW],
     REG_RULE_EXT 5250 5330 80 0 24 0 [NL80211_RRF_DFS, NL80211_RRF_AUTO_BW],
     REG_RULE_EXT 5490 5730 160 0 24 0 [NL80211_RRF_DFS],
     REG_RULE_EXT 5735 5835 80 0 30 0 []]\<rparr>"

definition regdom_MK :: regdomain where
  "regdom_MK = \<lparr>alpha2 = ''MK'', rd_dfs_region = DFS_ETSI, n_reg_rules = 6, reg_rules =
    [REG_RULE_EXT 2400 2483 40 0 20 0 [],
     REG_RULE_EXT 5150 5250 80 0 23 0 [NL80211_RRF_NO_OUTDOOR, NL80211_RRF_AUTO_BW],
     REG_RULE_EXT 5250 5350 80 0 20 0 [NL80211_RRF_NO_OUTDOOR, NL80211_RRF_DFS, NL80211_RRF_AUTO_BW],
     REG_RULE_EXT 5470 5725 160 0 27 0 [NL80211_RRF_DFS],
     REG_RULE_EXT 5725 5875 80 0 14 0 [],
     REG_RULE_EXT 57000 66000 2160 0 40 0 []]\<rparr>"

definition regdom_MN :: regdomain where
  "regdom_MN = \<lparr>alpha2 = ''MN'', rd_dfs_region = DFS_FCC, n_reg_rules = 5, reg_rules =
    [REG_RULE_EXT 2402 2482 40 0 20 0 [],
     REG_RULE_EXT 5170 5250 80 0 24 0 [NL80211_RRF_AUTO_BW],
     REG_RULE_EXT 5250 5330 80 0 24 0 [NL80211_RRF_DFS, NL80211_RRF_AUTO_BW],
     REG_RULE_EXT 5490 5730 160 0 24 0 [NL80211_RRF_DFS],
     REG_RULE_EXT 5735 5835 80 0 30 0 []]\<rparr>"

definition regdom_MO :: regdomain where
  "regdom_MO = \<lparr>alpha2 = ''MO'', rd_dfs_region = DFS_FCC, n_reg_rules = 5, reg_rules =
    [REG_RULE_EXT 2402 2482 40 0 23 0 [],
     REG_RULE_EXT 5170 5250 80 0 23 0 [NL80211_RRF_AUTO_BW],
     REG_RULE_EXT 5250 5330 80 0 23 0 [NL80211_RRF_DFS, NL80211_RRF_AUTO_BW],
     REG_RULE_EXT 5490 5730 160 0 30 0 [NL80211_RRF_DFS],
     REG_RULE_EXT 5735 5835 80 0 30 0 []]\<rparr>"

definition regdom_MP :: regdomain where
  "regdom_MP = \<lparr>alpha2 = ''MP'', rd_dfs_region = DFS_FCC, n_reg_rules = 5, reg_rules =
    [REG_RULE_EXT 2402 2472 40 0 30 0 [],
     REG_RULE_EXT 5170 5250 80 0 24 0 [NL80211_RRF_AUTO_BW],
     REG_RULE_EXT 5250 5330 80 0 24 0 [NL80211_RRF_DFS, NL80211_RRF_AUTO_BW],
     REG_RULE_EXT 5490 5730 160 0 24 0 [NL80211_RRF_DFS],
     REG_RULE_EXT 5735 5835 80 0 30 0 []]\<rparr>"

definition regdom_MQ :: regdomain where
  "regdom_MQ = \<lparr>alpha2 = ''MQ'', rd_dfs_region = DFS_ETSI, n_reg_rules = 4, reg_rules =
    [REG_RULE_EXT 2402 2482 40 0 20 0 [],
     REG_RULE_EXT 5170 5250 80 0 20 0 [NL80211_RRF_AUTO_BW],
     REG_RULE_EXT 5250 5330 80 0 20 0 [NL80211_RRF_DFS, NL80211_RRF_AUTO_BW],
     REG_RULE_EXT 5490 5710 160 0 27 0 [NL80211_RRF_DFS]]\<rparr>"

definition regdom_MR :: regdomain where
  "regdom_MR = \<lparr>alpha2 = ''MR'', rd_dfs_region = DFS_ETSI, n_reg_rules = 4, reg_rules =
    [REG_RULE_EXT 2402 2482 40 0 20 0 [],
     REG_RULE_EXT 5170 5250 80 0 20 0 [NL80211_RRF_AUTO_BW],
     REG_RULE_EXT 5250 5330 80 0 20 0 [NL80211_RRF_DFS, NL80211_RRF_AUTO_BW],
     REG_RULE_EXT 5490 5710 160 0 27 0 [NL80211_RRF_DFS]]\<rparr>"

definition regdom_MT :: regdomain where
  "regdom_MT = \<lparr>alpha2 = ''MT'', rd_dfs_region = DFS_ETSI, n_reg_rules = 7, reg_rules =
    [REG_RULE_EXT 2400 2483 40 0 20 0 [],
     REG_RULE_EXT 5150 5250 80 0 23 0 [NL80211_RRF_NO_OUTDOOR, NL80211_RRF_AUTO_BW],
     REG_RULE_EXT 5250 5350 80 0 20 0 [NL80211_RRF_NO_OUTDOOR, NL80211_RRF_DFS, NL80211_RRF_AUTO_BW],
     REG_RULE_EXT 5470 5725 160 0 27 0 [NL80211_RRF_DFS],
     REG_RULE_EXT 5725 5875 80 0 14 0 [],
     REG_RULE_EXT 5945 6425 160 0 23 0 [NL80211_RRF_NO_OUTDOOR],
     REG_RULE_EXT 57000 66000 2160 0 40 0 []]\<rparr>"

definition regdom_MU :: regdomain where
  "regdom_MU = \<lparr>alpha2 = ''MU'', rd_dfs_region = DFS_FCC, n_reg_rules = 5, reg_rules =
    [REG_RULE_EXT 2402 2482 40 0 20 0 [],
     REG_RULE_EXT 5170 5250 80 0 24 0 [NL80211_RRF_AUTO_BW],
     REG_RULE_EXT 5250 5330 80 0 24 0 [NL80211_RRF_DFS, NL80211_RRF_AUTO_BW],
     REG_RULE_EXT 5490 5730 160 0 24 0 [NL80211_RRF_DFS],
     REG_RULE_EXT 5735 5835 80 0 30 0 []]\<rparr>"

definition regdom_MV :: regdomain where
  "regdom_MV = \<lparr>alpha2 = ''MV'', rd_dfs_region = DFS_ETSI, n_reg_rules = 4, reg_rules =
    [REG_RULE_EXT 2400 2483 40 0 20 0 [],
     REG_RULE_EXT 5150 5250 80 0 23 0 [NL80211_RRF_AUTO_BW],
     REG_RULE_EXT 5250 5350 80 0 20 0 [NL80211_RRF_DFS, NL80211_RRF_AUTO_BW],
     REG_RULE_EXT 5725 5850 80 0 20 0 []]\<rparr>"

definition regdom_MW :: regdomain where
  "regdom_MW = \<lparr>alpha2 = ''MW'', rd_dfs_region = DFS_ETSI, n_reg_rules = 4, reg_rules =
    [REG_RULE_EXT 2402 2482 40 0 20 0 [],
     REG_RULE_EXT 5170 5250 80 0 20 0 [NL80211_RRF_AUTO_BW],
     REG_RULE_EXT 5250 5330 80 0 20 0 [NL80211_RRF_DFS, NL80211_RRF_AUTO_BW],
     REG_RULE_EXT 5490 5710 160 0 27 0 [NL80211_RRF_DFS]]\<rparr>"

definition regdom_MX :: regdomain where
  "regdom_MX = \<lparr>alpha2 = ''MX'', rd_dfs_region = DFS_FCC, n_reg_rules = 5, reg_rules =
    [REG_RULE_EXT 2402 2482 40 0 20 0 [],
     REG_RULE_EXT 5170 5250 80 0 17 0 [NL80211_RRF_AUTO_BW],
     REG_RULE_EXT 5250 5330 80 0 24 0 [NL80211_RRF_DFS, NL80211_RRF_AUTO_BW],
     REG_RULE_EXT 5490 5730 160 0 24 0 [NL80211_RRF_DFS],
     REG_RULE_EXT 5735 5835 80 0 30 0 []]\<rparr>"

definition regdom_MY :: regdomain where
  "regdom_MY = \<lparr>alpha2 = ''MY'', rd_dfs_region = DFS_ETSI, n_reg_rules = 7, reg_rules =
    [REG_RULE_EXT 2400 2483 40 0 20 0 [],
     REG_RULE_EXT 5150 5250 80 0 23 0 [NL80211_RRF_NO_OUTDOOR, NL80211_RRF_AUTO_BW],
     REG_RULE_EXT 5250 5350 80 0 20 0 [NL80211_RRF_NO_OUTDOOR, NL80211_RRF_DFS, NL80211_RRF_AUTO_BW],
     REG_RULE_EXT 5470 5725 160 0 27 0 [NL80211_RRF_DFS],
     REG_RULE_EXT 5725 5875 80 0 14 0 [],
     REG_RULE_EXT 5945 6425 160 0 23 0 [NL80211_RRF_NO_OUTDOOR],
     REG_RULE_EXT 57000 66000 2160 0 40 0 []]\<rparr>"

definition regdom_NA :: regdomain where
  "regdom_NA = \<lparr>alpha2 = ''NA'', rd_dfs_region = DFS_ETSI, n_reg_rules = 7, reg_rules =
    [REG_RULE_EXT 2400 2483 40 0 20 0 [],
     REG_RULE_EXT 5150 5250 80 0 23 0 [NL80211_RRF_NO_OUTDOOR, NL80211_RRF_AUTO_BW],
     REG_RULE_EXT 5250 5350 80 0 20 0 [NL80211_RRF_NO_OUTDOOR, NL80211_RRF_DFS, NL80211_RRF_AUTO_BW],
     REG_RULE_EXT 5470 5725 160 0 27 0 [NL80211_RRF_DFS],
     REG_RULE_EXT 5725 5875 80 0 14 0 [],
     REG_RULE_EXT 5945 6425 160 0 23 0 [NL80211_RRF_NO_OUTDOOR],
     REG_RULE_EXT 57000 66000 2160 0 40 0 []]\<rparr>"

definition regdom_NG :: regdomain where
  "regdom_NG = \<lparr>alpha2 = ''NG'', rd_dfs_region = DFS_ETSI, n_reg_rules = 3, reg_rules =
    [REG_RULE_EXT 2402 2482 40 0 20 0 [],
     REG_RULE_EXT 5250 5330 80 0 20 0 [NL80211_RRF_DFS],
     REG_RULE_EXT 5735 5835 80 0 30 0 []]\<rparr>"

definition regdom_NI :: regdomain where
  "regdom_NI = \<lparr>alpha2 = ''NI'', rd_dfs_region = DFS_FCC, n_reg_rules = 5, reg_rules =
    [REG_RULE_EXT 2402 2472 40 0 30 0 [],
     REG_RULE_EXT 5170 5250 80 0 24 0 [NL80211_RRF_AUTO_BW],
     REG_RULE_EXT 5250 5330 80 0 24 0 [NL80211_RRF_DFS, NL80211_RRF_AUTO_BW],
     REG_RULE_EXT 5490 5730 160 0 24 0 [NL80211_RRF_DFS],
     REG_RULE_EXT 5735 5835 80 0 30 0 []]\<rparr>"

definition regdom_NL :: regdomain where
  "regdom_NL = \<lparr>alpha2 = ''NL'', rd_dfs_region = DFS_ETSI, n_reg_rules = 7, reg_rules =
    [REG_RULE_EXT 2400 2483 40 0 20 0 [],
     REG_RULE_EXT 5150 5250 80 0 23 0 [NL80211_RRF_NO_OUTDOOR, NL80211_RRF_AUTO_BW],
     REG_RULE_EXT 5250 5350 80 0 20 0 [NL80211_RRF_NO_OUTDOOR, NL80211_RRF_DFS, NL80211_RRF_AUTO_BW],
     REG_RULE_EXT 5470 5725 160 0 27 0 [NL80211_RRF_DFS],
     REG_RULE_EXT 5725 5875 80 0 14 0 [],
     REG_RULE_EXT 5945 6425 160 0 23 0 [NL80211_RRF_NO_OUTDOOR],
     REG_RULE_EXT 57000 66000 2160 0 40 0 []]\<rparr>"

definition regdom_NO :: regdomain where
  "regdom_NO = \<lparr>alpha2 = ''NO'', rd_dfs_region = DFS_ETSI, n_reg_rules = 7, reg_rules =
    [REG_RULE_EXT 2400 2483 40 0 20 0 [],
     REG_RULE_EXT 5150 5250 80 0 23 0 [NL80211_RRF_NO_OUTDOOR, NL80211_RRF_AUTO_BW],
     REG_RULE_EXT 5250 5350 80 0 20 0 [NL80211_RRF_NO_OUTDOOR, NL80211_RRF_DFS, NL80211_RRF_AUTO_BW],
     REG_RULE_EXT 5470 5725 160 0 27 0 [NL80211_RRF_DFS],
     REG_RULE_EXT 5725 5875 80 0 14 0 [],
     REG_RULE_EXT 5945 6425 160 0 23 0 [NL80211_RRF_NO_OUTDOOR],
     REG_RULE_EXT 57000 71000 2160 0 40 0 []]\<rparr>"

definition regdom_NP :: regdomain where
  "regdom_NP = \<lparr>alpha2 = ''NP'', rd_dfs_region = DFS_JP, n_reg_rules = 4, reg_rules =
    [REG_RULE_EXT 2402 2482 40 0 20 0 [],
     REG_RULE_EXT 5170 5250 80 0 20 0 [NL80211_RRF_AUTO_BW],
     REG_RULE_EXT 5250 5330 80 0 20 0 [NL80211_RRF_DFS, NL80211_RRF_AUTO_BW],
     REG_RULE_EXT 5735 5835 80 0 20 0 []]\<rparr>"

definition regdom_NZ :: regdomain where
  "regdom_NZ = \<lparr>alpha2 = ''NZ'', rd_dfs_region = DFS_ETSI, n_reg_rules = 5, reg_rules =
    [REG_RULE_EXT 2402 2482 40 0 30 0 [],
     REG_RULE_EXT 5170 5250 80 0 17 0 [NL80211_RRF_AUTO_BW],
     REG_RULE_EXT 5250 5330 80 0 24 0 [NL80211_RRF_DFS, NL80211_RRF_AUTO_BW],
     REG_RULE_EXT 5490 5730 160 0 24 0 [NL80211_RRF_DFS],
     REG_RULE_EXT 5735 5835 80 0 30 0 []]\<rparr>"

definition regdom_OM :: regdomain where
  "regdom_OM = \<lparr>alpha2 = ''OM'', rd_dfs_region = DFS_ETSI, n_reg_rules = 4, reg_rules =
    [REG_RULE_EXT 2402 2482 40 0 20 0 [],
     REG_RULE_EXT 5170 5250 80 0 20 0 [NL80211_RRF_AUTO_BW],
     REG_RULE_EXT 5250 5330 80 0 20 0 [NL80211_RRF_DFS, NL80211_RRF_AUTO_BW],
     REG_RULE_EXT 5490 5710 160 0 27 0 [NL80211_RRF_DFS]]\<rparr>"

definition regdom_PA :: regdomain where
  "regdom_PA = \<lparr>alpha2 = ''PA'', rd_dfs_region = DFS_FCC, n_reg_rules = 6, reg_rules =
    [REG_RULE_EXT 2400 2483 40 0 36 0 [],
     REG_RULE_EXT 5150 5250 80 0 36 0 [NL80211_RRF_AUTO_BW],
     REG_RULE_EXT 5250 5350 80 0 30 0 [NL80211_RRF_AUTO_BW],
     REG_RULE_EXT 5470 5725 160 0 30 0 [],
     REG_RULE_EXT 5725 5850 80 0 36 0 [],
     REG_RULE_EXT 57000 64000 2160 0 43 0 []]\<rparr>"

definition regdom_PE :: regdomain where
  "regdom_PE = \<lparr>alpha2 = ''PE'', rd_dfs_region = DFS_ETSI, n_reg_rules = 7, reg_rules =
    [REG_RULE_EXT 2400 2483 40 0 20 0 [],
     REG_RULE_EXT 5150 5250 80 0 23 0 [NL80211_RRF_NO_OUTDOOR, NL80211_RRF_AUTO_BW],
     REG_RULE_EXT 5250 5350 80 0 20 0 [NL80211_RRF_NO_OUTDOOR, NL80211_RRF_DFS, NL80211_RRF_AUTO_BW],
     REG_RULE_EXT 5470 5725 160 0 27 0 [NL80211_RRF_DFS],
     REG_RULE_EXT 5725 5875 80 0 14 0 [],
     REG_RULE_EXT 5945 6425 160 0 23 0 [NL80211_RRF_NO_OUTDOOR],
     REG_RULE_EXT 57000 66000 2160 0 40 0 []]\<rparr>"

definition regdom_PF :: regdomain where
  "regdom_PF = \<lparr>alpha2 = ''PF'', rd_dfs_region = DFS_ETSI, n_reg_rules = 4, reg_rules =
    [REG_RULE_EXT 2402 2482 40 0 20 0 [],
     REG_RULE_EXT 5170 5250 80 0 20 0 [NL80211_RRF_AUTO_BW],
     REG_RULE_EXT 5250 5330 80 0 20 0 [NL80211_RRF_DFS, NL80211_RRF_AUTO_BW],
     REG_RULE_EXT 5490 5710 160 0 27 0 [NL80211_RRF_DFS]]\<rparr>"

definition regdom_PG :: regdomain where
  "regdom_PG = \<lparr>alpha2 = ''PG'', rd_dfs_region = DFS_FCC, n_reg_rules = 5, reg_rules =
    [REG_RULE_EXT 2402 2482 40 0 20 0 [],
     REG_RULE_EXT 5170 5250 80 0 17 0 [NL80211_RRF_AUTO_BW],
     REG_RULE_EXT 5250 5330 80 0 24 0 [NL80211_RRF_DFS, NL80211_RRF_AUTO_BW],
     REG_RULE_EXT 5490 5730 160 0 24 0 [NL80211_RRF_DFS],
     REG_RULE_EXT 5735 5835 80 0 30 0 []]\<rparr>"

definition regdom_PH :: regdomain where
  "regdom_PH = \<lparr>alpha2 = ''PH'', rd_dfs_region = DFS_ETSI, n_reg_rules = 7, reg_rules =
    [REG_RULE_EXT 2400 2483 40 0 20 0 [],
     REG_RULE_EXT 5150 5250 80 0 23 0 [NL80211_RRF_NO_OUTDOOR, NL80211_RRF_AUTO_BW],
     REG_RULE_EXT 5250 5350 80 0 20 0 [NL80211_RRF_NO_OUTDOOR, NL80211_RRF_DFS, NL80211_RRF_AUTO_BW],
     REG_RULE_EXT 5470 5725 160 0 27 0 [NL80211_RRF_DFS],
     REG_RULE_EXT 5725 5875 80 0 14 0 [],
     REG_RULE_EXT 5945 6425 160 0 23 0 [NL80211_RRF_NO_OUTDOOR],
     REG_RULE_EXT 57000 66000 2160 0 40 0 []]\<rparr>"

definition regdom_PK :: regdomain where
  "regdom_PK = \<lparr>alpha2 = ''PK'', rd_dfs_region = DFS_JP, n_reg_rules = 7, reg_rules =
    [REG_RULE_EXT 2402 2482 40 0 20 0 [],
     REG_RULE_EXT 5150 5270 80 0 23 0 [NL80211_RRF_AUTO_BW, NL80211_RRF_NO_OUTDOOR],
     REG_RULE_EXT 5270 5350 80 0 20 0 [NL80211_RRF_NO_OUTDOOR, NL80211_RRF_AUTO_BW, NL80211_RRF_DFS],
     REG_RULE_EXT 5470 5610 80 0 20 0 [NL80211_RRF_NO_OUTDOOR, NL80211_RRF_AUTO_BW, NL80211_RRF_DFS],
     REG_RULE_EXT 5610 5725 80 0 23 0 [NL80211_RRF_AUTO_BW],
     REG_RULE_EXT 5725 5875 80 0 30 0 [],
     REG_RULE_EXT 57000 66000 2160 0 40 0 []]\<rparr>"

definition regdom_PL :: regdomain where
  "regdom_PL = \<lparr>alpha2 = ''PL'', rd_dfs_region = DFS_ETSI, n_reg_rules = 7, reg_rules =
    [REG_RULE_EXT 2400 2483 40 0 20 0 [],
     REG_RULE_EXT 5150 5250 80 0 23 0 [NL80211_RRF_NO_OUTDOOR, NL80211_RRF_AUTO_BW],
     REG_RULE_EXT 5250 5350 80 0 20 0 [NL80211_RRF_NO_OUTDOOR, NL80211_RRF_DFS, NL80211_RRF_AUTO_BW],
     REG_RULE_EXT 5470 5725 160 0 27 0 [NL80211_RRF_DFS],
     REG_RULE_EXT 5725 5875 80 0 14 0 [],
     REG_RULE_EXT 5945 6425 160 0 23 0 [NL80211_RRF_NO_OUTDOOR],
     REG_RULE_EXT 57000 66000 2160 0 40 0 []]\<rparr>"

definition regdom_PM :: regdomain where
  "regdom_PM = \<lparr>alpha2 = ''PM'', rd_dfs_region = DFS_ETSI, n_reg_rules = 4, reg_rules =
    [REG_RULE_EXT 2402 2482 40 0 20 0 [],
     REG_RULE_EXT 5170 5250 80 0 20 0 [NL80211_RRF_AUTO_BW],
     REG_RULE_EXT 5250 5330 80 0 20 0 [NL80211_RRF_DFS, NL80211_RRF_AUTO_BW],
     REG_RULE_EXT 5490 5710 160 0 27 0 [NL80211_RRF_DFS]]\<rparr>"

definition regdom_PR :: regdomain where
  "regdom_PR = \<lparr>alpha2 = ''PR'', rd_dfs_region = DFS_FCC, n_reg_rules = 5, reg_rules =
    [REG_RULE_EXT 2402 2472 40 0 30 0 [],
     REG_RULE_EXT 5170 5250 80 0 17 0 [NL80211_RRF_AUTO_BW],
     REG_RULE_EXT 5250 5330 80 0 24 0 [NL80211_RRF_DFS, NL80211_RRF_AUTO_BW],
     REG_RULE_EXT 5490 5730 160 0 24 0 [NL80211_RRF_DFS],
     REG_RULE_EXT 5735 5835 80 0 30 0 []]\<rparr>"

definition regdom_PT :: regdomain where
  "regdom_PT = \<lparr>alpha2 = ''PT'', rd_dfs_region = DFS_ETSI, n_reg_rules = 7, reg_rules =
    [REG_RULE_EXT 2400 2483 40 0 20 0 [],
     REG_RULE_EXT 5150 5250 80 0 23 0 [NL80211_RRF_NO_OUTDOOR, NL80211_RRF_AUTO_BW],
     REG_RULE_EXT 5250 5350 80 0 20 0 [NL80211_RRF_NO_OUTDOOR, NL80211_RRF_DFS, NL80211_RRF_AUTO_BW],
     REG_RULE_EXT 5470 5725 160 0 27 0 [NL80211_RRF_DFS],
     REG_RULE_EXT 5725 5875 80 0 14 0 [],
     REG_RULE_EXT 5945 6425 160 0 23 0 [NL80211_RRF_NO_OUTDOOR],
     REG_RULE_EXT 57000 66000 2160 0 40 0 []]\<rparr>"

definition regdom_PW :: regdomain where
  "regdom_PW = \<lparr>alpha2 = ''PW'', rd_dfs_region = DFS_FCC, n_reg_rules = 5, reg_rules =
    [REG_RULE_EXT 2402 2472 40 0 30 0 [],
     REG_RULE_EXT 5170 5250 80 0 24 0 [NL80211_RRF_AUTO_BW],
     REG_RULE_EXT 5250 5330 80 0 24 0 [NL80211_RRF_DFS, NL80211_RRF_AUTO_BW],
     REG_RULE_EXT 5490 5730 160 0 24 0 [NL80211_RRF_DFS],
     REG_RULE_EXT 5735 5835 80 0 30 0 []]\<rparr>"

definition regdom_PY :: regdomain where
  "regdom_PY = \<lparr>alpha2 = ''PY'', rd_dfs_region = DFS_FCC, n_reg_rules = 5, reg_rules =
    [REG_RULE_EXT 2402 2482 40 0 20 0 [],
     REG_RULE_EXT 5170 5250 80 0 24 0 [NL80211_RRF_AUTO_BW],
     REG_RULE_EXT 5250 5330 80 0 24 0 [NL80211_RRF_DFS, NL80211_RRF_AUTO_BW],
     REG_RULE_EXT 5490 5730 160 0 24 0 [NL80211_RRF_DFS],
     REG_RULE_EXT 5735 5835 80 0 30 0 []]\<rparr>"

definition regdom_QA :: regdomain where
  "regdom_QA = \<lparr>alpha2 = ''QA'', rd_dfs_region = DFS_ETSI, n_reg_rules = 6, reg_rules =
    [REG_RULE_EXT 2400 2483 40 0 20 0 [NL80211_RRF_NO_OUTDOOR],
     REG_RULE_EXT 5150 5250 80 0 23 0 [NL80211_RRF_AUTO_BW, NL80211_RRF_NO_OUTDOOR],
     REG_RULE_EXT 5250 5350 80 0 23 0 [NL80211_RRF_NO_OUTDOOR, NL80211_RRF_AUTO_BW, NL80211_RRF_DFS],
     REG_RULE_EXT 5470 5725 160 0 20 0 [NL80211_RRF_NO_OUTDOOR, NL80211_RRF_DFS],
     REG_RULE_EXT 5725 5875 80 0 20 0 [NL80211_RRF_NO_OUTDOOR, NL80211_RRF_DFS],
     REG_RULE_EXT 57000 66000 2160 0 40 0 [NL80211_RRF_NO_OUTDOOR]]\<rparr>"

definition regdom_RE :: regdomain where
  "regdom_RE = \<lparr>alpha2 = ''RE'', rd_dfs_region = DFS_ETSI, n_reg_rules = 4, reg_rules =
    [REG_RULE_EXT 2402 2482 40 0 20 0 [],
     REG_RULE_EXT 5170 5250 80 0 20 0 [NL80211_RRF_AUTO_BW],
     REG_RULE_EXT 5250 5330 80 0 20 0 [NL80211_RRF_DFS, NL80211_RRF_AUTO_BW],
     REG_RULE_EXT 5490 5710 160 0 27 0 [NL80211_RRF_DFS]]\<rparr>"

definition regdom_RO :: regdomain where
  "regdom_RO = \<lparr>alpha2 = ''RO'', rd_dfs_region = DFS_ETSI, n_reg_rules = 7, reg_rules =
    [REG_RULE_EXT 2400 2483 40 0 20 0 [],
     REG_RULE_EXT 5150 5250 80 0 23 0 [NL80211_RRF_NO_OUTDOOR, NL80211_RRF_AUTO_BW],
     REG_RULE_EXT 5250 5350 80 0 20 0 [NL80211_RRF_NO_OUTDOOR, NL80211_RRF_DFS, NL80211_RRF_AUTO_BW],
     REG_RULE_EXT 5470 5725 160 0 27 0 [NL80211_RRF_DFS],
     REG_RULE_EXT 5725 5875 80 0 14 0 [],
     REG_RULE_EXT 5945 6425 160 0 23 0 [NL80211_RRF_NO_OUTDOOR],
     REG_RULE_EXT 57000 66000 2160 0 40 0 []]\<rparr>"

definition regdom_RS :: regdomain where
  "regdom_RS = \<lparr>alpha2 = ''RS'', rd_dfs_region = DFS_ETSI, n_reg_rules = 6, reg_rules =
    [REG_RULE_EXT 2400 2483 40 0 20 0 [],
     REG_RULE_EXT 5150 5250 80 0 23 0 [NL80211_RRF_NO_OUTDOOR, NL80211_RRF_AUTO_BW],
     REG_RULE_EXT 5250 5350 80 0 20 0 [NL80211_RRF_NO_OUTDOOR, NL80211_RRF_AUTO_BW, NL80211_RRF_DFS],
     REG_RULE_EXT 5470 5725 160 0 27 0 [NL80211_RRF_DFS],
     REG_RULE_EXT 5725 5875 80 0 14 0 [],
     REG_RULE_EXT 57000 66000 2160 0 40 0 []]\<rparr>"

definition regdom_RU :: regdomain where
  "regdom_RU = \<lparr>alpha2 = ''RU'', rd_dfs_region = DFS_UNSET, n_reg_rules = 5, reg_rules =
    [REG_RULE_EXT 2400 2483 40 0 20 0 [],
     REG_RULE_EXT 5150 5350 160 0 20 0 [NL80211_RRF_NO_OUTDOOR],
     REG_RULE_EXT 5650 5850 160 0 20 0 [NL80211_RRF_NO_OUTDOOR],
     REG_RULE_EXT 5925 6425 160 0 20 0 [NL80211_RRF_NO_OUTDOOR],
     REG_RULE_EXT 57000 66000 2160 0 40 0 [NL80211_RRF_NO_OUTDOOR]]\<rparr>"

definition regdom_RW :: regdomain where
  "regdom_RW = \<lparr>alpha2 = ''RW'', rd_dfs_region = DFS_FCC, n_reg_rules = 5, reg_rules =
    [REG_RULE_EXT 2402 2482 40 0 20 0 [],
     REG_RULE_EXT 5170 5250 80 0 17 0 [NL80211_RRF_AUTO_BW],
     REG_RULE_EXT 5250 5330 80 0 24 0 [NL80211_RRF_DFS, NL80211_RRF_AUTO_BW],
     REG_RULE_EXT 5490 5730 160 0 24 0 [NL80211_RRF_DFS],
     REG_RULE_EXT 5735 5835 80 0 30 0 []]\<rparr>"

definition regdom_SA :: regdomain where
  "regdom_SA = \<lparr>alpha2 = ''SA'', rd_dfs_region = DFS_ETSI, n_reg_rules = 4, reg_rules =
    [REG_RULE_EXT 2402 2482 40 0 20 0 [],
     REG_RULE_EXT 5170 5250 80 0 20 0 [NL80211_RRF_AUTO_BW],
     REG_RULE_EXT 5250 5330 80 0 20 0 [NL80211_RRF_DFS, NL80211_RRF_AUTO_BW],
     REG_RULE_EXT 5490 5710 160 0 27 0 [NL80211_RRF_DFS]]\<rparr>"

definition regdom_SE :: regdomain where
  "regdom_SE = \<lparr>alpha2 = ''SE'', rd_dfs_region = DFS_ETSI, n_reg_rules = 7, reg_rules =
    [REG_RULE_EXT 2400 2483 40 0 20 0 [],
     REG_RULE_EXT 5150 5250 80 0 23 0 [NL80211_RRF_NO_OUTDOOR, NL80211_RRF_AUTO_BW],
     REG_RULE_EXT 5250 5350 80 0 20 0 [NL80211_RRF_NO_OUTDOOR, NL80211_RRF_DFS, NL80211_RRF_AUTO_BW],
     REG_RULE_EXT 5470 5725 160 0 27 0 [NL80211_RRF_DFS],
     REG_RULE_EXT 5725 5875 80 0 14 0 [],
     REG_RULE_EXT 5945 6425 160 0 23 0 [NL80211_RRF_NO_OUTDOOR],
     REG_RULE_EXT 57000 66000 2160 0 40 0 []]\<rparr>"

definition regdom_SG :: regdomain where
  "regdom_SG = \<lparr>alpha2 = ''SG'', rd_dfs_region = DFS_FCC, n_reg_rules = 7, reg_rules =
    [REG_RULE_EXT 2400 2483 40 0 23 0 [],
     REG_RULE_EXT 5150 5250 80 0 23 0 [NL80211_RRF_AUTO_BW],
     REG_RULE_EXT 5250 5350 80 0 20 0 [NL80211_RRF_DFS, NL80211_RRF_AUTO_BW],
     REG_RULE_EXT 5470 5730 160 0 27 0 [NL80211_RRF_DFS],
     REG_RULE_EXT 5725 5850 80 0 30 0 [],
     REG_RULE_EXT 5945 6425 320 0 24 0 [NL80211_RRF_NO_OUTDOOR],
     REG_RULE_EXT 57000 66000 2160 0 40 0 []]\<rparr>"

definition regdom_SI :: regdomain where
  "regdom_SI = \<lparr>alpha2 = ''SI'', rd_dfs_region = DFS_ETSI, n_reg_rules = 7, reg_rules =
    [REG_RULE_EXT 2400 2483 40 0 20 0 [],
     REG_RULE_EXT 5150 5250 80 0 23 0 [NL80211_RRF_NO_OUTDOOR, NL80211_RRF_AUTO_BW],
     REG_RULE_EXT 5250 5350 80 0 20 0 [NL80211_RRF_NO_OUTDOOR, NL80211_RRF_DFS, NL80211_RRF_AUTO_BW],
     REG_RULE_EXT 5470 5725 160 0 27 0 [NL80211_RRF_DFS],
     REG_RULE_EXT 5725 5875 80 0 14 0 [],
     REG_RULE_EXT 5945 6425 160 0 23 0 [NL80211_RRF_NO_OUTDOOR],
     REG_RULE_EXT 57000 66000 2160 0 40 0 []]\<rparr>"

definition regdom_SK :: regdomain where
  "regdom_SK = \<lparr>alpha2 = ''SK'', rd_dfs_region = DFS_ETSI, n_reg_rules = 7, reg_rules =
    [REG_RULE_EXT 2400 2483 40 0 20 0 [],
     REG_RULE_EXT 5150 5250 80 0 23 0 [NL80211_RRF_NO_OUTDOOR, NL80211_RRF_AUTO_BW],
     REG_RULE_EXT 5250 5350 80 0 20 0 [NL80211_RRF_NO_OUTDOOR, NL80211_RRF_DFS, NL80211_RRF_AUTO_BW],
     REG_RULE_EXT 5470 5725 160 0 27 0 [NL80211_RRF_DFS],
     REG_RULE_EXT 5725 5875 80 0 14 0 [],
     REG_RULE_EXT 5945 6425 160 0 23 0 [NL80211_RRF_NO_OUTDOOR],
     REG_RULE_EXT 57000 66000 2160 0 40 0 []]\<rparr>"

definition regdom_SM :: regdomain where
  "regdom_SM = \<lparr>alpha2 = ''SM'', rd_dfs_region = DFS_ETSI, n_reg_rules = 7, reg_rules =
    [REG_RULE_EXT 2400 2483 40 0 20 0 [],
     REG_RULE_EXT 5150 5250 80 0 23 0 [NL80211_RRF_NO_OUTDOOR, NL80211_RRF_AUTO_BW],
     REG_RULE_EXT 5250 5350 80 0 20 0 [NL80211_RRF_NO_OUTDOOR, NL80211_RRF_DFS, NL80211_RRF_AUTO_BW],
     REG_RULE_EXT 5470 5725 160 0 27 0 [NL80211_RRF_DFS],
     REG_RULE_EXT 5725 5875 80 0 14 0 [],
     REG_RULE_EXT 5945 6425 160 0 23 0 [NL80211_RRF_NO_OUTDOOR],
     REG_RULE_EXT 57000 66000 2160 0 40 0 []]\<rparr>"

definition regdom_SN :: regdomain where
  "regdom_SN = \<lparr>alpha2 = ''SN'', rd_dfs_region = DFS_FCC, n_reg_rules = 5, reg_rules =
    [REG_RULE_EXT 2402 2482 40 0 20 0 [],
     REG_RULE_EXT 5170 5250 80 0 17 0 [NL80211_RRF_AUTO_BW],
     REG_RULE_EXT 5250 5330 80 0 24 0 [NL80211_RRF_DFS, NL80211_RRF_AUTO_BW],
     REG_RULE_EXT 5490 5730 160 0 24 0 [NL80211_RRF_DFS],
     REG_RULE_EXT 5735 5835 80 0 30 0 []]\<rparr>"

definition regdom_SR :: regdomain where
  "regdom_SR = \<lparr>alpha2 = ''SR'', rd_dfs_region = DFS_ETSI, n_reg_rules = 4, reg_rules =
    [REG_RULE_EXT 2402 2482 40 0 20 0 [],
     REG_RULE_EXT 5170 5250 80 0 20 0 [NL80211_RRF_AUTO_BW],
     REG_RULE_EXT 5250 5330 80 0 20 0 [NL80211_RRF_DFS, NL80211_RRF_AUTO_BW],
     REG_RULE_EXT 5490 5710 160 0 27 0 [NL80211_RRF_DFS]]\<rparr>"

definition regdom_SV :: regdomain where
  "regdom_SV = \<lparr>alpha2 = ''SV'', rd_dfs_region = DFS_FCC, n_reg_rules = 4, reg_rules =
    [REG_RULE_EXT 2402 2482 40 0 20 0 [],
     REG_RULE_EXT 5170 5250 20 0 17 0 [],
     REG_RULE_EXT 5250 5330 20 0 23 0 [NL80211_RRF_DFS],
     REG_RULE_EXT 5735 5835 20 0 30 0 []]\<rparr>"

definition regdom_SY :: regdomain where
  "regdom_SY = \<lparr>alpha2 = ''SY'', rd_dfs_region = DFS_UNSET, n_reg_rules = 1, reg_rules =
    [REG_RULE_EXT 2402 2482 40 0 20 0 []]\<rparr>"

definition regdom_TC :: regdomain where
  "regdom_TC = \<lparr>alpha2 = ''TC'', rd_dfs_region = DFS_FCC, n_reg_rules = 5, reg_rules =
    [REG_RULE_EXT 2402 2482 40 0 20 0 [],
     REG_RULE_EXT 5170 5250 80 0 24 0 [NL80211_RRF_AUTO_BW],
     REG_RULE_EXT 5250 5330 80 0 24 0 [NL80211_RRF_DFS, NL80211_RRF_AUTO_BW],
     REG_RULE_EXT 5490 5730 160 0 24 0 [NL80211_RRF_DFS],
     REG_RULE_EXT 5735 5835 80 0 30 0 []]\<rparr>"

definition regdom_TD :: regdomain where
  "regdom_TD = \<lparr>alpha2 = ''TD'', rd_dfs_region = DFS_ETSI, n_reg_rules = 4, reg_rules =
    [REG_RULE_EXT 2402 2482 40 0 20 0 [],
     REG_RULE_EXT 5170 5250 80 0 20 0 [NL80211_RRF_AUTO_BW],
     REG_RULE_EXT 5250 5330 80 0 20 0 [NL80211_RRF_DFS, NL80211_RRF_AUTO_BW],
     REG_RULE_EXT 5490 5710 160 0 27 0 [NL80211_RRF_DFS]]\<rparr>"

definition regdom_TG :: regdomain where
  "regdom_TG = \<lparr>alpha2 = ''TG'', rd_dfs_region = DFS_ETSI, n_reg_rules = 4, reg_rules =
    [REG_RULE_EXT 2402 2482 40 0 20 0 [],
     REG_RULE_EXT 5170 5250 40 0 20 0 [],
     REG_RULE_EXT 5250 5330 40 0 20 0 [NL80211_RRF_DFS],
     REG_RULE_EXT 5490 5710 40 0 27 0 [NL80211_RRF_DFS]]\<rparr>"

definition regdom_TH :: regdomain where
  "regdom_TH = \<lparr>alpha2 = ''TH'', rd_dfs_region = DFS_ETSI, n_reg_rules = 7, reg_rules =
    [REG_RULE_EXT 2400 2483 40 0 20 0 [],
     REG_RULE_EXT 5150 5250 80 0 23 0 [NL80211_RRF_NO_OUTDOOR, NL80211_RRF_AUTO_BW],
     REG_RULE_EXT 5250 5350 80 0 20 0 [NL80211_RRF_NO_OUTDOOR, NL80211_RRF_DFS, NL80211_RRF_AUTO_BW],
     REG_RULE_EXT 5470 5725 160 0 27 0 [NL80211_RRF_DFS],
     REG_RULE_EXT 5725 5875 80 0 14 0 [],
     REG_RULE_EXT 5945 6425 160 0 23 0 [NL80211_RRF_NO_OUTDOOR],
     REG_RULE_EXT 57000 66000 2160 0 40 0 []]\<rparr>"

definition regdom_TJ :: regdomain where
  "regdom_TJ = \<lparr>alpha2 = ''TJ'', rd_dfs_region = DFS_ETSI, n_reg_rules = 7, reg_rules =
    [REG_RULE_EXT 2400 2483 40 0 20 0 [],
     REG_RULE_EXT 5150 5250 80 0 23 0 [NL80211_RRF_NO_OUTDOOR, NL80211_RRF_AUTO_BW],
     REG_RULE_EXT 5250 5350 80 0 20 0 [NL80211_RRF_NO_OUTDOOR, NL80211_RRF_DFS, NL80211_RRF_AUTO_BW],
     REG_RULE_EXT 5470 5725 160 0 27 0 [NL80211_RRF_DFS],
     REG_RULE_EXT 5725 5875 80 0 14 0 [],
     REG_RULE_EXT 5945 6425 160 0 23 0 [NL80211_RRF_NO_OUTDOOR],
     REG_RULE_EXT 57000 66000 2160 0 40 0 []]\<rparr>"

definition regdom_TM :: regdomain where
  "regdom_TM = \<lparr>alpha2 = ''TM'', rd_dfs_region = DFS_ETSI, n_reg_rules = 7, reg_rules =
    [REG_RULE_EXT 2400 2483 40 0 20 0 [],
     REG_RULE_EXT 5150 5250 80 0 23 0 [NL80211_RRF_NO_OUTDOOR, NL80211_RRF_AUTO_BW],
     REG_RULE_EXT 5250 5350 80 0 20 0 [NL80211_RRF_NO_OUTDOOR, NL80211_RRF_DFS, NL80211_RRF_AUTO_BW],
     REG_RULE_EXT 5470 5725 160 0 27 0 [NL80211_RRF_DFS],
     REG_RULE_EXT 5725 5875 80 0 14 0 [],
     REG_RULE_EXT 5945 6425 160 0 23 0 [NL80211_RRF_NO_OUTDOOR],
     REG_RULE_EXT 57000 66000 2160 0 40 0 []]\<rparr>"

definition regdom_TN :: regdomain where
  "regdom_TN = \<lparr>alpha2 = ''TN'', rd_dfs_region = DFS_ETSI, n_reg_rules = 3, reg_rules =
    [REG_RULE_EXT 2402 2482 40 0 20 0 [],
     REG_RULE_EXT 5170 5250 80 0 20 0 [NL80211_RRF_AUTO_BW],
     REG_RULE_EXT 5250 5330 80 0 20 0 [NL80211_RRF_DFS, NL80211_RRF_AUTO_BW]]\<rparr>"

definition regdom_TR :: regdomain where
  "regdom_TR = \<lparr>alpha2 = ''TR'', rd_dfs_region = DFS_ETSI, n_reg_rules = 6, reg_rules =
    [REG_RULE_EXT 2400 2483 40 0 20 0 [],
     REG_RULE_EXT 5150 5250 80 0 23 0 [NL80211_RRF_AUTO_BW, NL80211_RRF_NO_OUTDOOR],
     REG_RULE_EXT 5250 5330 80 0 20 0 [NL80211_RRF_NO_OUTDOOR, NL80211_RRF_DFS, NL80211_RRF_AUTO_BW],
     REG_RULE_EXT 5470 5725 160 0 27 0 [NL80211_RRF_DFS],
     REG_RULE_EXT 5495 6425 160 0 23 0 [NL80211_RRF_NO_OUTDOOR],
     REG_RULE_EXT 57000 66000 2160 0 40 0 []]\<rparr>"

definition regdom_TT :: regdomain where
  "regdom_TT = \<lparr>alpha2 = ''TT'', rd_dfs_region = DFS_FCC, n_reg_rules = 5, reg_rules =
    [REG_RULE_EXT 2402 2482 40 0 20 0 [],
     REG_RULE_EXT 5170 5250 80 0 17 0 [NL80211_RRF_AUTO_BW],
     REG_RULE_EXT 5250 5330 80 0 24 0 [NL80211_RRF_DFS, NL80211_RRF_AUTO_BW],
     REG_RULE_EXT 5490 5730 160 0 24 0 [NL80211_RRF_DFS],
     REG_RULE_EXT 5735 5835 80 0 30 0 []]\<rparr>"

definition regdom_TW :: regdomain where
  "regdom_TW = \<lparr>alpha2 = ''TW'', rd_dfs_region = DFS_FCC, n_reg_rules = 7, reg_rules =
    [REG_RULE_EXT 2400 2483 40 0 30 0 [],
     REG_RULE_EXT 5150 5250 80 0 23 0 [NL80211_RRF_AUTO_BW],
     REG_RULE_EXT 5250 5350 80 0 23 0 [NL80211_RRF_DFS, NL80211_RRF_AUTO_BW],
     REG_RULE_EXT 5470 5730 160 0 23 0 [NL80211_RRF_DFS],
     REG_RULE_EXT 5725 5850 80 0 30 0 [],
     REG_RULE_EXT 5945 6425 320 0 23 0 [NL80211_RRF_NO_OUTDOOR],
     REG_RULE_EXT 57000 66000 2160 0 40 0 []]\<rparr>"

definition regdom_TZ :: regdomain where
  "regdom_TZ = \<lparr>alpha2 = ''TZ'', rd_dfs_region = DFS_UNSET, n_reg_rules = 2, reg_rules =
    [REG_RULE_EXT 2402 2482 40 0 20 0 [],
     REG_RULE_EXT 5735 5835 80 0 30 0 []]\<rparr>"

definition regdom_UA :: regdomain where
  "regdom_UA = \<lparr>alpha2 = ''UA'', rd_dfs_region = DFS_ETSI, n_reg_rules = 6, reg_rules =
    [REG_RULE_EXT 2400 2483 40 0 20 0 [NL80211_RRF_NO_OUTDOOR],
     REG_RULE_EXT 5150 5250 80 0 20 0 [NL80211_RRF_NO_OUTDOOR, NL80211_RRF_AUTO_BW],
     REG_RULE_EXT 5250 5350 80 0 20 0 [NL80211_RRF_DFS, NL80211_RRF_NO_OUTDOOR, NL80211_RRF_AUTO_BW],
     REG_RULE_EXT 5470 5725 160 0 20 0 [NL80211_RRF_DFS, NL80211_RRF_NO_OUTDOOR],
     REG_RULE_EXT 5725 5850 80 0 20 0 [NL80211_RRF_NO_OUTDOOR],
     REG_RULE_EXT 57000 66000 2160 0 16 0 [NL80211_RRF_NO_OUTDOOR]]\<rparr>"

definition regdom_UG :: regdomain where
  "regdom_UG = \<lparr>alpha2 = ''UG'', rd_dfs_region = DFS_FCC, n_reg_rules = 5, reg_rules =
    [REG_RULE_EXT 2402 2482 40 0 20 0 [],
     REG_RULE_EXT 5170 5250 80 0 24 0 [NL80211_RRF_AUTO_BW],
     REG_RULE_EXT 5250 5330 80 0 24 0 [NL80211_RRF_DFS, NL80211_RRF_AUTO_BW],
     REG_RULE_EXT 5490 5730 160 0 24 0 [NL80211_RRF_DFS],
     REG_RULE_EXT 5735 5835 80 0 30 0 []]\<rparr>"

definition regdom_US :: regdomain where
  "regdom_US = \<lparr>alpha2 = ''US'', rd_dfs_region = DFS_FCC, n_reg_rules = 8, reg_rules =
    [REG_RULE_EXT 2400 2472 40 0 30 0 [],
     REG_RULE_EXT 5150 5250 80 0 23 0 [NL80211_RRF_AUTO_BW],
     REG_RULE_EXT 5250 5350 80 0 24 0 [NL80211_RRF_DFS, NL80211_RRF_AUTO_BW],
     REG_RULE_EXT 5470 5730 160 0 24 0 [NL80211_RRF_DFS],
     REG_RULE_EXT 5730 5850 80 0 30 0 [NL80211_RRF_AUTO_BW],
     REG_RULE_EXT 5850 5895 40 0 27 0 [NL80211_RRF_AUTO_BW, NL80211_RRF_NO_OUTDOOR],
     REG_RULE_EXT 5925 7125 320 0 12 0 [NL80211_RRF_NO_IR, NL80211_RRF_NO_OUTDOOR],
     REG_RULE_EXT 57240 71000 2160 0 40 0 []]\<rparr>"

definition regdom_UY :: regdomain where
  "regdom_UY = \<lparr>alpha2 = ''UY'', rd_dfs_region = DFS_ETSI, n_reg_rules = 7, reg_rules =
    [REG_RULE_EXT 2400 2483 40 0 20 0 [],
     REG_RULE_EXT 5150 5250 80 0 23 0 [NL80211_RRF_NO_OUTDOOR, NL80211_RRF_AUTO_BW],
     REG_RULE_EXT 5250 5350 80 0 20 0 [NL80211_RRF_NO_OUTDOOR, NL80211_RRF_DFS, NL80211_RRF_AUTO_BW],
     REG_RULE_EXT 5470 5725 160 0 27 0 [NL80211_RRF_DFS],
     REG_RULE_EXT 5725 5875 80 0 14 0 [],
     REG_RULE_EXT 5945 6425 160 0 23 0 [NL80211_RRF_NO_OUTDOOR],
     REG_RULE_EXT 57000 66000 2160 0 40 0 []]\<rparr>"

definition regdom_UZ :: regdomain where
  "regdom_UZ = \<lparr>alpha2 = ''UZ'', rd_dfs_region = DFS_ETSI, n_reg_rules = 3, reg_rules =
    [REG_RULE_EXT 2402 2482 40 0 20 0 [],
     REG_RULE_EXT 5170 5250 80 0 20 0 [NL80211_RRF_AUTO_BW],
     REG_RULE_EXT 5250 5330 80 0 20 0 [NL80211_RRF_DFS, NL80211_RRF_AUTO_BW]]\<rparr>"

definition regdom_VC :: regdomain where
  "regdom_VC = \<lparr>alpha2 = ''VC'', rd_dfs_region = DFS_ETSI, n_reg_rules = 4, reg_rules =
    [REG_RULE_EXT 2402 2482 40 0 20 0 [],
     REG_RULE_EXT 5170 5250 80 0 20 0 [NL80211_RRF_AUTO_BW],
     REG_RULE_EXT 5250 5330 80 0 20 0 [NL80211_RRF_DFS, NL80211_RRF_AUTO_BW],
     REG_RULE_EXT 5490 5710 160 0 27 0 [NL80211_RRF_DFS]]\<rparr>"

definition regdom_VE :: regdomain where
  "regdom_VE = \<lparr>alpha2 = ''VE'', rd_dfs_region = DFS_FCC, n_reg_rules = 4, reg_rules =
    [REG_RULE_EXT 2402 2482 40 0 30 0 [],
     REG_RULE_EXT 5170 5250 80 0 23 0 [NL80211_RRF_AUTO_BW],
     REG_RULE_EXT 5250 5330 80 0 23 0 [NL80211_RRF_DFS, NL80211_RRF_AUTO_BW],
     REG_RULE_EXT 5735 5835 80 0 30 0 []]\<rparr>"

definition regdom_VI :: regdomain where
  "regdom_VI = \<lparr>alpha2 = ''VI'', rd_dfs_region = DFS_FCC, n_reg_rules = 5, reg_rules =
    [REG_RULE_EXT 2402 2472 40 0 30 0 [],
     REG_RULE_EXT 5170 5250 80 0 24 0 [NL80211_RRF_AUTO_BW],
     REG_RULE_EXT 5250 5330 80 0 24 0 [NL80211_RRF_DFS, NL80211_RRF_AUTO_BW],
     REG_RULE_EXT 5490 5730 160 0 24 0 [NL80211_RRF_DFS],
     REG_RULE_EXT 5735 5835 80 0 30 0 []]\<rparr>"

definition regdom_VN :: regdomain where
  "regdom_VN = \<lparr>alpha2 = ''VN'', rd_dfs_region = DFS_FCC, n_reg_rules = 5, reg_rules =
    [REG_RULE_EXT 2402 2482 40 0 20 0 [],
     REG_RULE_EXT 5170 5250 80 0 17 0 [],
     REG_RULE_EXT 5250 5330 80 0 24 0 [NL80211_RRF_DFS],
     REG_RULE_EXT 5490 5730 80 0 24 0 [NL80211_RRF_DFS],
     REG_RULE_EXT 5735 5835 80 0 30 0 []]\<rparr>"

definition regdom_VU :: regdomain where
  "regdom_VU = \<lparr>alpha2 = ''VU'', rd_dfs_region = DFS_FCC, n_reg_rules = 5, reg_rules =
    [REG_RULE_EXT 2402 2482 40 0 20 0 [],
     REG_RULE_EXT 5170 5250 80 0 17 0 [NL80211_RRF_AUTO_BW],
     REG_RULE_EXT 5250 5330 80 0 24 0 [NL80211_RRF_DFS, NL80211_RRF_AUTO_BW],
     REG_RULE_EXT 5490 5730 160 0 24 0 [NL80211_RRF_DFS],
     REG_RULE_EXT 5735 5835 80 0 30 0 []]\<rparr>"

definition regdom_WF :: regdomain where
  "regdom_WF = \<lparr>alpha2 = ''WF'', rd_dfs_region = DFS_ETSI, n_reg_rules = 4, reg_rules =
    [REG_RULE_EXT 2402 2482 40 0 20 0 [],
     REG_RULE_EXT 5170 5250 80 0 20 0 [NL80211_RRF_AUTO_BW],
     REG_RULE_EXT 5250 5330 80 0 20 0 [NL80211_RRF_DFS, NL80211_RRF_AUTO_BW],
     REG_RULE_EXT 5490 5710 160 0 27 0 [NL80211_RRF_DFS]]\<rparr>"

definition regdom_WS :: regdomain where
  "regdom_WS = \<lparr>alpha2 = ''WS'', rd_dfs_region = DFS_ETSI, n_reg_rules = 4, reg_rules =
    [REG_RULE_EXT 2402 2482 40 0 20 0 [],
     REG_RULE_EXT 5170 5250 40 0 20 0 [],
     REG_RULE_EXT 5250 5330 40 0 20 0 [NL80211_RRF_DFS],
     REG_RULE_EXT 5490 5710 40 0 27 0 [NL80211_RRF_DFS]]\<rparr>"

definition regdom_FK :: regdomain where
  "regdom_FK = \<lparr>alpha2 = ''FK'', rd_dfs_region = DFS_ETSI, n_reg_rules = 7, reg_rules =
    [REG_RULE_EXT 2400 2483 40 0 20 0 [],
     REG_RULE_EXT 5150 5250 80 0 23 0 [NL80211_RRF_NO_OUTDOOR, NL80211_RRF_AUTO_BW],
     REG_RULE_EXT 5250 5350 80 0 20 0 [NL80211_RRF_NO_OUTDOOR, NL80211_RRF_DFS, NL80211_RRF_AUTO_BW],
     REG_RULE_EXT 5470 5725 160 0 27 0 [NL80211_RRF_DFS],
     REG_RULE_EXT 5725 5875 80 0 14 0 [],
     REG_RULE_EXT 5945 6425 160 0 23 0 [NL80211_RRF_NO_OUTDOOR],
     REG_RULE_EXT 57000 66000 2160 0 40 0 []]\<rparr>"

definition regdom_FO :: regdomain where
  "regdom_FO = \<lparr>alpha2 = ''FO'', rd_dfs_region = DFS_ETSI, n_reg_rules = 7, reg_rules =
    [REG_RULE_EXT 2400 2483 40 0 20 0 [],
     REG_RULE_EXT 5150 5250 80 0 23 0 [NL80211_RRF_NO_OUTDOOR, NL80211_RRF_AUTO_BW],
     REG_RULE_EXT 5250 5350 80 0 20 0 [NL80211_RRF_NO_OUTDOOR, NL80211_RRF_DFS, NL80211_RRF_AUTO_BW],
     REG_RULE_EXT 5470 5725 160 0 27 0 [NL80211_RRF_DFS],
     REG_RULE_EXT 5725 5875 80 0 14 0 [],
     REG_RULE_EXT 5945 6425 160 0 23 0 [NL80211_RRF_NO_OUTDOOR],
     REG_RULE_EXT 57000 66000 2160 0 40 0 []]\<rparr>"

definition regdom_YE :: regdomain where
  "regdom_YE = \<lparr>alpha2 = ''YE'', rd_dfs_region = DFS_UNSET, n_reg_rules = 1, reg_rules =
    [REG_RULE_EXT 2402 2482 40 0 20 0 []]\<rparr>"

definition regdom_YT :: regdomain where
  "regdom_YT = \<lparr>alpha2 = ''YT'', rd_dfs_region = DFS_ETSI, n_reg_rules = 4, reg_rules =
    [REG_RULE_EXT 2402 2482 40 0 20 0 [],
     REG_RULE_EXT 5170 5250 80 0 20 0 [NL80211_RRF_AUTO_BW],
     REG_RULE_EXT 5250 5330 80 0 20 0 [NL80211_RRF_DFS, NL80211_RRF_AUTO_BW],
     REG_RULE_EXT 5490 5710 160 0 27 0 [NL80211_RRF_DFS]]\<rparr>"

definition regdom_ZA :: regdomain where
  "regdom_ZA = \<lparr>alpha2 = ''ZA'', rd_dfs_region = DFS_ETSI, n_reg_rules = 4, reg_rules =
    [REG_RULE_EXT 2402 2482 40 0 20 0 [],
     REG_RULE_EXT 5170 5250 80 0 20 0 [NL80211_RRF_AUTO_BW],
     REG_RULE_EXT 5250 5330 80 0 20 0 [NL80211_RRF_DFS, NL80211_RRF_AUTO_BW],
     REG_RULE_EXT 5490 5710 160 0 30 0 []]\<rparr>"

definition regdom_ZM :: regdomain where
  "regdom_ZM = \<lparr>alpha2 = ''ZM'', rd_dfs_region = DFS_ETSI, n_reg_rules = 7, reg_rules =
    [REG_RULE_EXT 2400 2483 40 0 20 0 [],
     REG_RULE_EXT 5150 5250 80 0 23 0 [NL80211_RRF_NO_OUTDOOR, NL80211_RRF_AUTO_BW],
     REG_RULE_EXT 5250 5350 80 0 20 0 [NL80211_RRF_NO_OUTDOOR, NL80211_RRF_DFS, NL80211_RRF_AUTO_BW],
     REG_RULE_EXT 5470 5725 160 0 27 0 [NL80211_RRF_DFS],
     REG_RULE_EXT 5725 5875 80 0 14 0 [],
     REG_RULE_EXT 5945 6425 160 0 23 0 [NL80211_RRF_NO_OUTDOOR],
     REG_RULE_EXT 57000 66000 2160 0 40 0 []]\<rparr>"

definition regdom_ZW :: regdomain where
  "regdom_ZW = \<lparr>alpha2 = ''ZW'', rd_dfs_region = DFS_ETSI, n_reg_rules = 4, reg_rules =
    [REG_RULE_EXT 2402 2482 40 0 20 0 [],
     REG_RULE_EXT 5170 5250 80 0 20 0 [NL80211_RRF_AUTO_BW],
     REG_RULE_EXT 5250 5330 80 0 20 0 [NL80211_RRF_DFS, NL80211_RRF_AUTO_BW],
     REG_RULE_EXT 5490 5710 160 0 27 0 [NL80211_RRF_DFS]]\<rparr>"

definition regdom_WW :: regdomain where
  "regdom_WW = \<lparr>alpha2 = ''WW'', rd_dfs_region = DFS_UNSET, n_reg_rules = 2, reg_rules =
    [REG_RULE (2390 - 10) (2510 + 10) 40 0 20 [],
     REG_RULE (5150 - 10) (5970 + 10) 80 0 20 []]\<rparr>"

definition regdom_XX :: regdomain where
  "regdom_XX = \<lparr>alpha2 = ''XX'', rd_dfs_region = DFS_UNSET, n_reg_rules = 1, reg_rules =
    [REG_RULE (2412 - 10) (2462 + 10) 40 0 20 []]\<rparr>"

section \<open>The table\<close>

definition reg_regdb :: "regdomain list" where
  "reg_regdb = [
    regdom_00, regdom_AD, regdom_AE, regdom_AF, regdom_AI, regdom_AL, regdom_AM, regdom_AN,
    regdom_AR, regdom_AS, regdom_AT, regdom_AU, regdom_AW, regdom_AZ, regdom_BA, regdom_BB,
    regdom_BD, regdom_BE, regdom_BF, regdom_BG, regdom_BH, regdom_BL, regdom_BM, regdom_BN,
    regdom_BO, regdom_BR, regdom_BS, regdom_BT, regdom_BY, regdom_BZ, regdom_CA, regdom_CF,
    regdom_CH, regdom_CI, regdom_CL, regdom_CN, regdom_CO, regdom_CR, regdom_CX, regdom_CY,
    regdom_CZ, regdom_DE, regdom_DK, regdom_DM, regdom_DO, regdom_DZ, regdom_EC, regdom_EE,
    regdom_EG, regdom_ES, regdom_ET, regdom_FI, regdom_FM, regdom_FR, regdom_GB, regdom_GD,
    regdom_GE, regdom_GF, regdom_GH, regdom_GL, regdom_GP, regdom_GR, regdom_GT, regdom_GU,
    regdom_GY, regdom_HK, regdom_HN, regdom_HR, regdom_HT, regdom_HU, regdom_ID, regdom_IE,
    regdom_IL, regdom_IN, regdom_IR, regdom_IS, regdom_IT, regdom_JM, regdom_JO, regdom_JP,
    regdom_KE, regdom_KH, regdom_KN, regdom_KP, regdom_KR, regdom_KW, regdom_KY, regdom_KZ,
    regdom_LB, regdom_LC, regdom_LI, regdom_LK, regdom_LS, regdom_LT, regdom_LU, regdom_LV,
    regdom_MA, regdom_MC, regdom_MD, regdom_ME, regdom_MF, regdom_MH, regdom_MK, regdom_MN,
    regdom_MO, regdom_MP, regdom_MQ, regdom_MR, regdom_MT, regdom_MU, regdom_MW, regdom_MX,
    regdom_MY, regdom_NI, regdom_NL, regdom_NO, regdom_NP, regdom_NZ, regdom_OM, regdom_PA,
    regdom_PE, regdom_PF, regdom_PG, regdom_PH, regdom_PK, regdom_PL, regdom_PM, regdom_PR,
    regdom_PT, regdom_PW, regdom_PY, regdom_QA, regdom_RE, regdom_RO, regdom_RS, regdom_RU,
    regdom_RW, regdom_SA, regdom_SE, regdom_SG, regdom_SI, regdom_SK, regdom_SN, regdom_SR,
    regdom_SV, regdom_SY, regdom_TC, regdom_TD, regdom_TG, regdom_TH, regdom_TN, regdom_TR,
    regdom_TT, regdom_TW, regdom_UA, regdom_UG, regdom_US, regdom_UY, regdom_UZ, regdom_VC,
    regdom_VE, regdom_VI, regdom_VN, regdom_VU, regdom_WF, regdom_YE, regdom_YT, regdom_ZA,
    regdom_ZW, regdom_BW, regdom_GI, regdom_IQ, regdom_KG, regdom_LY, regdom_MV, regdom_NA,
    regdom_NG, regdom_SM, regdom_TJ, regdom_TM, regdom_FK, regdom_FO, regdom_ZM, regdom_CU,
    regdom_TZ, regdom_WS, regdom_WW, regdom_XX]"

definition reg_regdb_size :: nat where
  "reg_regdb_size = length reg_regdb"

lemmas regdoms =
  regdom_00_def regdom_AD_def regdom_AE_def regdom_AF_def regdom_AI_def regdom_AL_def
  regdom_AM_def regdom_AN_def regdom_AR_def regdom_AS_def regdom_AT_def regdom_AU_def
  regdom_AW_def regdom_AZ_def regdom_BA_def regdom_BB_def regdom_BD_def regdom_BE_def
  regdom_BF_def regdom_BG_def regdom_BH_def regdom_BL_def regdom_BM_def regdom_BN_def
  regdom_BO_def regdom_BR_def regdom_BS_def regdom_BT_def regdom_BW_def regdom_BY_def
  regdom_BZ_def regdom_CA_def regdom_CF_def regdom_CH_def regdom_CI_def regdom_CL_def
  regdom_CN_def regdom_CO_def regdom_CR_def regdom_CU_def regdom_CX_def regdom_CY_def
  regdom_CZ_def regdom_DE_def regdom_DK_def regdom_DM_def regdom_DO_def regdom_DZ_def
  regdom_EC_def regdom_EE_def regdom_EG_def regdom_ES_def regdom_ET_def regdom_FI_def
  regdom_FM_def regdom_FR_def regdom_GB_def regdom_GD_def regdom_GE_def regdom_GF_def
  regdom_GH_def regdom_GI_def regdom_GL_def regdom_GP_def regdom_GR_def regdom_GT_def
  regdom_GU_def regdom_GY_def regdom_HK_def regdom_HN_def regdom_HR_def regdom_HT_def
  regdom_HU_def regdom_ID_def regdom_IE_def regdom_IL_def regdom_IN_def regdom_IQ_def
  regdom_IR_def regdom_IS_def regdom_IT_def regdom_JM_def regdom_JO_def regdom_JP_def
  regdom_KE_def regdom_KG_def regdom_KH_def regdom_KN_def regdom_KP_def regdom_KR_def
  regdom_KW_def regdom_KY_def regdom_KZ_def regdom_LB_def regdom_LC_def regdom_LI_def
  regdom_LK_def regdom_LS_def regdom_LT_def regdom_LU_def regdom_LV_def regdom_LY_def
  regdom_MA_def regdom_MC_def regdom_MD_def regdom_ME_def regdom_MF_def regdom_MH_def
  regdom_MK_def regdom_MN_def regdom_MO_def regdom_MP_def regdom_MQ_def regdom_MR_def
  regdom_MT_def regdom_MU_def regdom_MV_def regdom_MW_def regdom_MX_def regdom_MY_def
  regdom_NA_def regdom_NG_def regdom_NI_def regdom_NL_def regdom_NO_def regdom_NP_def
  regdom_NZ_def regdom_OM_def regdom_PA_def regdom_PE_def regdom_PF_def regdom_PG_def
  regdom_PH_def regdom_PK_def regdom_PL_def regdom_PM_def regdom_PR_def regdom_PT_def
  regdom_PW_def regdom_PY_def regdom_QA_def regdom_RE_def regdom_RO_def regdom_RS_def
  regdom_RU_def regdom_RW_def regdom_SA_def regdom_SE_def regdom_SG_def regdom_SI_def
  regdom_SK_def regdom_SM_def regdom_SN_def regdom_SR_def regdom_SV_def regdom_SY_def
  regdom_TC_def regdom_TD_def regdom_TG_def regdom_TH_def regdom_TJ_def regdom_TM_def
  regdom_TN_def regdom_TR_def regdom_TT_def regdom_TW_def regdom_TZ_def regdom_UA_def
  regdom_UG_def regdom_US_def regdom_UY_def regdom_UZ_def regdom_VC_def regdom_VE_def
  regdom_VI_def regdom_VN_def regdom_VU_def regdom_WF_def regdom_WS_def regdom_FK_def
  regdom_FO_def regdom_YE_def regdom_YT_def regdom_ZA_def regdom_ZM_def regdom_ZW_def
  regdom_WW_def regdom_XX_def

end
