(* ===== verification/Regulatory.thy ===== *)
theory Regulatory
  imports RegDb CString
begin

text \<open>
  What the driver does with the regulatory domains and with its channels: the look-up of a country code
  and the list of its channels (\<^verbatim>\<open>rwnx_mod_params.c\<close>), the tables of channels and the report
  of a channel survey (\<^verbatim>\<open>rwnx_main.c\<close>, \<^verbatim>\<open>rwnx_msg_rx.c\<close>), and the message with
  the channels for the firmware (\<^verbatim>\<open>rwnx_msg_tx.c\<close>). The number of a channel
  (\<^verbatim>\<open>ieee80211_frequency_to_channel\<close>) is computed by the kernel and is a parameter. A result \<open>None\<close> is
  an access outside of an array.
\<close>

section \<open>The channels of the driver\<close>

definition rwnx_2ghz_channels :: "nat list" where
  "rwnx_2ghz_channels =
    [2412, 2417, 2422, 2427, 2432, 2437, 2442, 2447, 2452, 2457, 2462, 2467, 2472, 2484,
     2390, 2400, 2410, 2420, 2430, 2440, 2450, 2460, 2470, 2480, 2490, 2500, 2510]"

definition rwnx_5ghz_channels :: "nat list" where
  "rwnx_5ghz_channels =
    [5180, 5200, 5220, 5240, 5260, 5280, 5300, 5320, 5500, 5520, 5540, 5560, 5580, 5600, 5620, 5640,
     5660, 5680, 5700, 5720, 5745, 5765, 5785, 5805, 5825,
     5190, 5210, 5230, 5250, 5270, 5290, 5310, 5330, 5340, 5350, 5360, 5370, 5380, 5390, 5400, 5410,
     5420, 5430, 5440, 5450, 5460, 5470, 5480, 5490, 5510, 5530, 5550, 5570, 5590, 5610, 5630, 5650,
     5670, 5690, 5710, 5730, 5750, 5760, 5770, 5780, 5790, 5800, 5810, 5820, 5830, 5840, 5850, 5860,
     5870, 5880, 5890, 5900, 5910, 5920, 5930, 5940, 5950, 5960, 5970]"

text \<open>
  The two band structures are variables of the module: their numbers of channels outlive a device. The rest
  of a structure does not change.
\<close>

record bands =
  n_channels_2g :: nat
  n_channels_5g :: nat

definition rwnx_band_init :: bands where
  "rwnx_band_init = \<lparr>n_channels_2g = length rwnx_2ghz_channels - 13, n_channels_5g = length rwnx_5ghz_channels - 59\<rparr>"

text \<open>The end of \<open>rwnx_set_wiphy_params\<close>, at each probe of a device.\<close>

definition enable_extra_channels :: "bool \<Rightarrow> bool \<Rightarrow> bool \<Rightarrow> bands \<Rightarrow> bands" where
  "enable_extra_channels custregd custchan band_5g_support B =
     (if custregd \<and> custchan
      then let B = B\<lparr>n_channels_2g := n_channels_2g B + 13\<rparr>
           in if band_5g_support then B\<lparr>n_channels_5g := n_channels_5g B + 59\<rparr> else B
      else B)"

text \<open>
  The bands of the wiphy: the frequencies that a loop up to \<open>n_channels\<close> reads, in the order of the bands;
  none if it would leave the table.
\<close>

definition band_channels :: "nat list \<Rightarrow> nat \<Rightarrow> nat list option" where
  "band_channels tab n = (if n \<le> length tab then Some (take n tab) else None)"

definition wiphy_bands :: "bool \<Rightarrow> bands \<Rightarrow> nat list list option" where
  "wiphy_bands band_5g_support B = do {
     b2 \<leftarrow> band_channels rwnx_2ghz_channels (n_channels_2g B);
     b5 \<leftarrow> band_channels rwnx_5ghz_channels (n_channels_5g B);
     Some (if band_5g_support then [b2, b5] else [b2]) }"

section \<open>The list of channels of a country\<close>

definition SCAN_CHANNEL_MAX :: nat where
  "SCAN_CHANNEL_MAX = 14 + 28"

record ccode_list =
  ccode_channels :: string
  support_freqs :: "nat list"

definition CCODE_SIZE :: nat where
  "CCODE_SIZE = 200"

text \<open>
  The loop over the rules for one frequency: the first rule whose range has 10 MHz on both sides of it.
  The number of rules is a field of its own.
\<close>

fun rule_loop :: "nat \<Rightarrow> reg_rule list \<Rightarrow> nat \<Rightarrow> bool option" where
  "rule_loop 0 rules f = Some False"
| "rule_loop (Suc n) [] f = None"
| "rule_loop (Suc n) (r # rules) f =
     (if int f - 10 \<ge> int (start_freq_khz r div 1000) \<and> int f + 10 \<le> int (end_freq_khz r div 1000)
      then Some True else rule_loop n rules f)"

text \<open>
  What is done for a frequency that a rule allows: the frequency is stored for the wireless extensions if
  they are built in, the number is printed to a buffer of four bytes and copied, with a blank, behind the
  \<open>index_for_channel_list\<close> bytes that the list has.
\<close>

definition put_channel :: "bool \<Rightarrow> (nat \<Rightarrow> int) \<Rightarrow> nat \<Rightarrow> ccode_list \<Rightarrow> ccode_list option" where
  "put_channel wext chan f L =
     (let s = dec (chan f)
      in if wext \<and> SCAN_CHANNEL_MAX \<le> length (support_freqs L) then None
         else if 4 < length s + 1 then None
         else if CCODE_SIZE < length (ccode_channels L) + length s + 1 then None
         else Some (L\<lparr>ccode_channels := ccode_channels L @ s @ '' '',
                      support_freqs := (if wext then support_freqs L @ [f] else support_freqs L)\<rparr>))"

fun channel_loop :: "bool \<Rightarrow> (nat \<Rightarrow> int) \<Rightarrow> regdomain \<Rightarrow> nat list \<Rightarrow> ccode_list \<Rightarrow> ccode_list option" where
  "channel_loop wext chan rd [] L = Some L"
| "channel_loop wext chan rd (f # fs) L = do {
     hit \<leftarrow> rule_loop (n_reg_rules rd) (reg_rules rd) f;
     L \<leftarrow> (if hit then put_channel wext chan f L else Some L);
     channel_loop wext chan rd fs L }"

fun band_loop :: "bool \<Rightarrow> (nat \<Rightarrow> int) \<Rightarrow> regdomain \<Rightarrow> nat list list \<Rightarrow> ccode_list \<Rightarrow> ccode_list option" where
  "band_loop wext chan rd [] L = Some L"
| "band_loop wext chan rd (b # bs) L = do {
     L \<leftarrow> channel_loop wext chan rd b L;
     band_loop wext chan rd bs L }"

definition rwnx_get_countrycode_channels :: "bool \<Rightarrow> (nat \<Rightarrow> int) \<Rightarrow> nat list list \<Rightarrow> regdomain \<Rightarrow> ccode_list option" where
  "rwnx_get_countrycode_channels wext chan bs rd = band_loop wext chan rd bs \<lparr>ccode_channels = [], support_freqs = []\<rparr>"

section \<open>Look-up of a domain\<close>

text \<open>
  The result: the domain, the four bytes of \<open>country_code\<close>, the list of channels, and whether the loop has
  read the table behind its end.
\<close>

record lookup =
  found :: regdomain
  country_code :: string
  channels_of :: ccode_list
  read_behind :: bool

definition default_ccode :: string where
  "default_ccode = [CHR ''0'', CHR ''0'', CHR 0x00, CHR 0x00]"

text \<open>
  The loop counts in eight bits. Its condition reads the entry before it compares the index, so the loop that
  finds nothing has read \<open>reg_regdb[reg_regdb_size]\<close>; no entry of the table is null.
\<close>

partial_function (option) regdb_search :: "u8 \<Rightarrow> char \<Rightarrow> char \<Rightarrow> u8 option option" where
  "regdb_search idx a0 a1 =
     (if unat idx < reg_regdb_size
      then if alpha2 (reg_regdb ! unat idx) ! 0 = a0 \<and> alpha2 (reg_regdb ! unat idx) ! 1 = a1
           then Some (Some idx) else regdb_search (idx + 1) a0 a1
      else Some None)"

definition getRegdomainFromRwnxDB :: "bool \<Rightarrow> (nat \<Rightarrow> int) \<Rightarrow> nat list list \<Rightarrow> char \<Rightarrow> char \<Rightarrow> lookup option" where
  "getRegdomainFromRwnxDB wext chan bs a0 a1 = do {
     r \<leftarrow> regdb_search 0 a0 a1;
     case r of
       Some idx \<Rightarrow> do {
         l \<leftarrow> rwnx_get_countrycode_channels wext chan bs (reg_regdb ! unat idx);
         Some \<lparr>found = reg_regdb ! unat idx, country_code = [a0, a1, CHR 0x00, CHR 0x00], channels_of = l,
               read_behind = False\<rparr> }
     | None \<Rightarrow> do {
         l \<leftarrow> rwnx_get_countrycode_channels wext chan bs (reg_regdb ! 0);
         Some \<lparr>found = reg_regdb ! 0, country_code = default_ccode, channels_of = l, read_behind = True\<rparr> } }"

text \<open>The variant for an index takes its low eight bits and does not compare it with the size.\<close>

definition getRegdomainFromRwnxDBIndex :: "bool \<Rightarrow> (nat \<Rightarrow> int) \<Rightarrow> nat list list \<Rightarrow> int \<Rightarrow> lookup option" where
  "getRegdomainFromRwnxDBIndex wext chan bs index =
     (let idx = (word_of_int index :: u8)
      in if unat idx < reg_regdb_size
         then do {
           l \<leftarrow> rwnx_get_countrycode_channels wext chan bs (reg_regdb ! unat idx);
           Some \<lparr>found = reg_regdb ! unat idx,
                 country_code = [alpha2 (reg_regdb ! unat idx) ! 0, alpha2 (reg_regdb ! unat idx) ! 1,
                   CHR 0x00, CHR 0x00], channels_of = l, read_behind = False\<rparr> }
         else None)"

section \<open>The report of a survey\<close>

datatype survey_flag = SURVEY_INFO_TIME | SURVEY_INFO_TIME_BUSY | SURVEY_INFO_NOISE_DBM

record survey_info =
  sv_filled :: "survey_flag set"
  chan_time_ms :: u32
  chan_time_busy_ms :: u32
  noise_dbm :: int

definition survey_init :: "survey_info list" where
  "survey_init = replicate SCAN_CHANNEL_MAX \<lparr>sv_filled = {}, chan_time_ms = 0, chan_time_busy_ms = 0, noise_dbm = 0\<rparr>"

fun freq_loop :: "nat list \<Rightarrow> nat \<Rightarrow> nat \<Rightarrow> bool \<times> nat" where
  "freq_loop [] freq idx = (False, idx)"
| "freq_loop (c # cs) freq idx = (if c = freq then (True, idx) else freq_loop cs freq (idx + 1))"

text \<open>The index of a channel over all bands; \<open>None\<close> is the \<open>BUG_ON\<close> for a frequency of no band.\<close>

fun freq_to_idx_from :: "nat list list \<Rightarrow> nat \<Rightarrow> nat \<Rightarrow> nat option" where
  "freq_to_idx_from [] freq idx = None"
| "freq_to_idx_from (b # bs) freq idx =
     (let (hit, idx) = freq_loop b freq idx in if hit then Some idx else freq_to_idx_from bs freq idx)"

definition rwnx_freq_to_idx :: "nat list list \<Rightarrow> nat \<Rightarrow> nat option" where
  "rwnx_freq_to_idx bs freq = freq_to_idx_from bs freq 0"

record survey_ind =
  si_freq :: nat
  si_chan_time_ms :: u32
  si_chan_time_busy_ms :: u32
  si_noise_dbm :: int

definition rwnx_rx_channel_survey_ind :: "nat list list \<Rightarrow> survey_ind \<Rightarrow> survey_info list \<Rightarrow> survey_info list option" where
  "rwnx_rx_channel_survey_ind bs ind survey = do {
     idx \<leftarrow> rwnx_freq_to_idx bs (si_freq ind);
     if idx > SCAN_CHANNEL_MAX then Some survey
     else if length survey \<le> idx then None
     else Some (survey[idx := \<lparr>sv_filled = {SURVEY_INFO_TIME, SURVEY_INFO_TIME_BUSY} \<union>
                                 (if si_noise_dbm ind \<noteq> 0 then {SURVEY_INFO_NOISE_DBM} else {}),
                               chan_time_ms = si_chan_time_ms ind, chan_time_busy_ms = si_chan_time_busy_ms ind,
                               noise_dbm = si_noise_dbm ind\<rparr>]) }"

record survey_report =
  rp_channel :: nat
  rp_filled :: "survey_flag set"
  rp_time :: u64
  rp_time_busy :: u64
  rp_noise :: int

definition IS_2P4GHZ :: "nat \<Rightarrow> bool" where
  "IS_2P4GHZ n \<longleftrightarrow> n \<ge> 2412 \<and> n \<le> 2484"

text \<open>
  The report of index \<open>idx\<close>, with the array after it; no report is \<open>-ENOENT\<close>. The times and the noise of a
  report of a channel without survey are not written, they are the zeros of the caller.
\<close>

definition rwnx_cfg80211_dump_survey :: "nat list list \<Rightarrow> bool \<Rightarrow> nat \<Rightarrow> survey_info list \<Rightarrow>
    survey_report option \<times> survey_info list" where
  "rwnx_cfg80211_dump_survey bs band_5g_support idx survey =
     (if length survey \<le> idx then (None, survey)
      else let sv = survey ! idx;
               n2 = length (bs ! 0);
               chan = (if idx < n2 then Some (bs ! 0 ! idx)
                       else if band_5g_support \<and> 1 < length bs \<and> idx - n2 < length (bs ! 1)
                       then Some (bs ! 1 ! (idx - n2)) else None)
           in case chan of
                None \<Rightarrow> (None, survey)
              | Some c \<Rightarrow>
                  if sv_filled sv = {}
                  then (Some \<lparr>rp_channel = c, rp_filled = {}, rp_time = 0, rp_time_busy = 0, rp_noise = 0\<rparr>, survey)
                  else let noise = (if IS_2P4GHZ c then - 89 else - 92)
                       in (Some \<lparr>rp_channel = c, rp_filled = sv_filled sv, rp_time = ucast (chan_time_ms sv),
                                 rp_time_busy = ucast (chan_time_busy_ms sv), rp_noise = noise\<rparr>,
                           survey[idx := sv\<lparr>sv_filled := (if noise = 0 then {} else insert SURVEY_INFO_NOISE_DBM (sv_filled sv))\<rparr>]))"

section \<open>The channels in messages to the firmware\<close>

record wchan =
  wc_freq :: nat
  wc_disabled :: bool
  wc_max_power :: int

record mac_chan_def =
  mc_freq :: u16
  mc_band :: nat
  mc_flags :: u8
  mc_tx_power :: "8 word"

definition CHAN_DISABLED :: u8 where
  "CHAN_DISABLED = 2"

text \<open>Without \<open>CONFIG_RADAR_OR_IR_DETECT\<close> no flag of the kernel is passed on.\<close>

definition get_chan_flags :: u8 where
  "get_chan_flags = 0"

definition chan_to_fw_pwr :: "int \<Rightarrow> 8 word" where
  "chan_to_fw_pwr pw = (if pw > 127 then 127 else word_of_int pw)"

definition chan_entry :: "nat \<Rightarrow> wchan \<Rightarrow> mac_chan_def" where
  "chan_entry band c = \<lparr>mc_freq = word_of_nat (wc_freq c), mc_band = band,
     mc_flags = (let fl = 0; fl = (if wc_disabled c then fl OR CHAN_DISABLED else fl) in fl OR get_chan_flags),
     mc_tx_power = chan_to_fw_pwr (wc_max_power c)\<rparr>"

text \<open>
  One of the two loops of \<open>rwnx_send_me_chan_config_req\<close>: the array of the message has \<open>asz\<close> entries, the
  loop stores at the count, increments it and stops at \<open>limit\<close>. \<open>None\<close> is a store behind the array.
\<close>

fun fill_channels :: "nat \<Rightarrow> nat \<Rightarrow> nat \<Rightarrow> wchan list \<Rightarrow> mac_chan_def list \<Rightarrow> mac_chan_def list option" where
  "fill_channels asz limit band [] out = Some out"
| "fill_channels asz limit band (c # cs) out =
     (if asz \<le> length out then None
      else let out = out @ [chan_entry band c]
           in if length out = limit then Some out else fill_channels asz limit band cs out)"

definition rwnx_send_me_chan_config_req :: "wchan list option \<Rightarrow> wchan list option \<Rightarrow>
    (mac_chan_def list \<times> mac_chan_def list) option" where
  "rwnx_send_me_chan_config_req b2 b5 = do {
     c2 \<leftarrow> (case b2 of None \<Rightarrow> Some [] | Some cs \<Rightarrow> fill_channels 14 14 0 cs []);
     c5 \<leftarrow> (case b5 of None \<Rightarrow> Some [] | Some cs \<Rightarrow> fill_channels 28 28 1 cs []);
     Some (c2, c5) }"

text \<open>Bandwidths: 20, 40, 80, 160 and 80+80 MHz are 0, 1, 2, 3 and 4.\<close>

definition PHY_CHNL_BW_40 :: u8 where
  "PHY_CHNL_BW_40 = 1"

definition limit_chan_bw :: "u8 \<Rightarrow> u16 \<Rightarrow> u16 \<Rightarrow> u8 \<times> u16" where
  "limit_chan_bw bw primary center1 =
     (if bw \<le> PHY_CHNL_BW_40 then (bw, center1)
      else let oft = uint center1 - uint primary; new_oft = 10;
               new_oft = (if oft < 0 then new_oft * (- 1) else new_oft);
               new_oft = (if \<bar>oft\<bar> = 10 \<or> \<bar>oft\<bar> = 50 then new_oft * (- 1) else new_oft :: int)
           in (PHY_CHNL_BW_40, word_of_int (uint primary + new_oft)))"

end
