(* ===== verification/RegDbFacts.thy ===== *)
theory RegDbFacts
  imports RegDb
begin

text \<open>
  What holds for all domains of the table: their codes are distinct, the kernel accepts them, and where a
  rule demands radar detection there is a region.
\<close>

section \<open>The table\<close>

lemma regdb_codes:
  "map alpha2 reg_regdb =
    [''00'', ''AD'', ''AE'', ''AF'', ''AI'', ''AL'', ''AM'', ''AN'', ''AR'', ''AS'', ''AT'', ''AU'',
     ''AW'', ''AZ'', ''BA'', ''BB'', ''BD'', ''BE'', ''BF'', ''BG'', ''BH'', ''BL'', ''BM'', ''BN'',
     ''BO'', ''BR'', ''BS'', ''BT'', ''BY'', ''BZ'', ''CA'', ''CF'', ''CH'', ''CI'', ''CL'', ''CN'',
     ''CO'', ''CR'', ''CX'', ''CY'', ''CZ'', ''DE'', ''DK'', ''DM'', ''DO'', ''DZ'', ''EC'', ''EE'',
     ''EG'', ''ES'', ''ET'', ''FI'', ''FM'', ''FR'', ''GB'', ''GD'', ''GE'', ''GF'', ''GH'', ''GL'',
     ''GP'', ''GR'', ''GT'', ''GU'', ''GY'', ''HK'', ''HN'', ''HR'', ''HT'', ''HU'', ''ID'', ''IE'',
     ''IL'', ''IN'', ''IR'', ''IS'', ''IT'', ''JM'', ''JO'', ''JP'', ''KE'', ''KH'', ''KN'', ''KP'',
     ''KR'', ''KW'', ''KY'', ''KZ'', ''LB'', ''LC'', ''LI'', ''LK'', ''LS'', ''LT'', ''LU'', ''LV'',
     ''MA'', ''MC'', ''MD'', ''ME'', ''MF'', ''MH'', ''MK'', ''MN'', ''MO'', ''MP'', ''MQ'', ''MR'',
     ''MT'', ''MU'', ''MW'', ''MX'', ''MY'', ''NI'', ''NL'', ''NO'', ''NP'', ''NZ'', ''OM'', ''PA'',
     ''PE'', ''PF'', ''PG'', ''PH'', ''PK'', ''PL'', ''PM'', ''PR'', ''PT'', ''PW'', ''PY'', ''QA'',
     ''RE'', ''RO'', ''RS'', ''RU'', ''RW'', ''SA'', ''SE'', ''SG'', ''SI'', ''SK'', ''SN'', ''SR'',
     ''SV'', ''SY'', ''TC'', ''TD'', ''TG'', ''TH'', ''TN'', ''TR'', ''TT'', ''TW'', ''UA'', ''UG'',
     ''US'', ''UY'', ''UZ'', ''VC'', ''VE'', ''VI'', ''VN'', ''VU'', ''WF'', ''YE'', ''YT'', ''ZA'',
     ''ZW'', ''BW'', ''GI'', ''IQ'', ''KG'', ''LY'', ''MV'', ''NA'', ''NG'', ''SM'', ''TJ'', ''TM'',
     ''FK'', ''FO'', ''ZM'', ''CU'', ''TZ'', ''WS'', ''WW'', ''XX'']"
  by (simp add: reg_regdb_def regdoms)

lemma length_regdb: "length reg_regdb = 188"
  using arg_cong[OF regdb_codes, of length] by simp

lemma regdb_codes_distinct: "distinct (map alpha2 reg_regdb)"
  unfolding regdb_codes by code_simp


section \<open>What the kernel demands of a domain\<close>

text \<open>
  The kernel refuses a domain without rules or with more than 32, and a rule whose range is empty or starts
  at 0, whose bandwidth is 0 or wider than the range.
\<close>

definition rule_ok :: "reg_rule \<Rightarrow> bool" where
  "rule_ok r \<longleftrightarrow> 0 < start_freq_khz r \<and> start_freq_khz r < end_freq_khz r \<and> 0 < max_bandwidth_khz r \<and>
     max_bandwidth_khz r \<le> end_freq_khz r - start_freq_khz r"

definition regdom_ok :: "regdomain \<Rightarrow> bool" where
  "regdom_ok d \<longleftrightarrow> 0 < n_reg_rules d \<and> n_reg_rules d \<le> 32 \<and> n_reg_rules d \<le> length (reg_rules d) \<and>
     list_all rule_ok (take (n_reg_rules d) (reg_rules d))"

lemma rule_ok_EXT: "rule_ok (REG_RULE_EXT s e b g p c fl) \<longleftrightarrow> 0 < s \<and> s < e \<and> 0 < b \<and> b \<le> e - s"
  by (auto simp add: rule_ok_def REG_RULE_EXT_def)

lemma regdoms_ok:
  "regdom_ok regdom_00" "regdom_ok regdom_AD" "regdom_ok regdom_AE" "regdom_ok regdom_AF"
  "regdom_ok regdom_AI" "regdom_ok regdom_AL" "regdom_ok regdom_AM" "regdom_ok regdom_AN"
  "regdom_ok regdom_AR" "regdom_ok regdom_AS" "regdom_ok regdom_AT" "regdom_ok regdom_AU"
  "regdom_ok regdom_AW" "regdom_ok regdom_AZ" "regdom_ok regdom_BA" "regdom_ok regdom_BB"
  "regdom_ok regdom_BD" "regdom_ok regdom_BE" "regdom_ok regdom_BF" "regdom_ok regdom_BG"
  "regdom_ok regdom_BH" "regdom_ok regdom_BL" "regdom_ok regdom_BM" "regdom_ok regdom_BN"
  "regdom_ok regdom_BO" "regdom_ok regdom_BR" "regdom_ok regdom_BS" "regdom_ok regdom_BT"
  "regdom_ok regdom_BW" "regdom_ok regdom_BY" "regdom_ok regdom_BZ" "regdom_ok regdom_CA"
  "regdom_ok regdom_CF" "regdom_ok regdom_CH" "regdom_ok regdom_CI" "regdom_ok regdom_CL"
  "regdom_ok regdom_CN" "regdom_ok regdom_CO" "regdom_ok regdom_CR" "regdom_ok regdom_CU"
  "regdom_ok regdom_CX" "regdom_ok regdom_CY" "regdom_ok regdom_CZ" "regdom_ok regdom_DE"
  "regdom_ok regdom_DK" "regdom_ok regdom_DM" "regdom_ok regdom_DO" "regdom_ok regdom_DZ"
  "regdom_ok regdom_EC" "regdom_ok regdom_EE" "regdom_ok regdom_EG" "regdom_ok regdom_ES"
  "regdom_ok regdom_ET" "regdom_ok regdom_FI" "regdom_ok regdom_FM" "regdom_ok regdom_FR"
  "regdom_ok regdom_GB" "regdom_ok regdom_GD" "regdom_ok regdom_GE" "regdom_ok regdom_GF"
  "regdom_ok regdom_GH" "regdom_ok regdom_GI" "regdom_ok regdom_GL" "regdom_ok regdom_GP"
  "regdom_ok regdom_GR" "regdom_ok regdom_GT" "regdom_ok regdom_GU" "regdom_ok regdom_GY"
  "regdom_ok regdom_HK" "regdom_ok regdom_HN" "regdom_ok regdom_HR" "regdom_ok regdom_HT"
  "regdom_ok regdom_HU" "regdom_ok regdom_ID" "regdom_ok regdom_IE" "regdom_ok regdom_IL"
  "regdom_ok regdom_IN" "regdom_ok regdom_IQ" "regdom_ok regdom_IR" "regdom_ok regdom_IS"
  "regdom_ok regdom_IT" "regdom_ok regdom_JM" "regdom_ok regdom_JO" "regdom_ok regdom_JP"
  "regdom_ok regdom_KE" "regdom_ok regdom_KG" "regdom_ok regdom_KH" "regdom_ok regdom_KN"
  "regdom_ok regdom_KP" "regdom_ok regdom_KR" "regdom_ok regdom_KW" "regdom_ok regdom_KY"
  "regdom_ok regdom_KZ" "regdom_ok regdom_LB" "regdom_ok regdom_LC" "regdom_ok regdom_LI"
  "regdom_ok regdom_LK" "regdom_ok regdom_LS" "regdom_ok regdom_LT" "regdom_ok regdom_LU"
  "regdom_ok regdom_LV" "regdom_ok regdom_LY" "regdom_ok regdom_MA" "regdom_ok regdom_MC"
  "regdom_ok regdom_MD" "regdom_ok regdom_ME" "regdom_ok regdom_MF" "regdom_ok regdom_MH"
  "regdom_ok regdom_MK" "regdom_ok regdom_MN" "regdom_ok regdom_MO" "regdom_ok regdom_MP"
  "regdom_ok regdom_MQ" "regdom_ok regdom_MR" "regdom_ok regdom_MT" "regdom_ok regdom_MU"
  "regdom_ok regdom_MV" "regdom_ok regdom_MW" "regdom_ok regdom_MX" "regdom_ok regdom_MY"
  "regdom_ok regdom_NA" "regdom_ok regdom_NG" "regdom_ok regdom_NI" "regdom_ok regdom_NL"
  "regdom_ok regdom_NO" "regdom_ok regdom_NP" "regdom_ok regdom_NZ" "regdom_ok regdom_OM"
  "regdom_ok regdom_PA" "regdom_ok regdom_PE" "regdom_ok regdom_PF" "regdom_ok regdom_PG"
  "regdom_ok regdom_PH" "regdom_ok regdom_PK" "regdom_ok regdom_PL" "regdom_ok regdom_PM"
  "regdom_ok regdom_PR" "regdom_ok regdom_PT" "regdom_ok regdom_PW" "regdom_ok regdom_PY"
  "regdom_ok regdom_QA" "regdom_ok regdom_RE" "regdom_ok regdom_RO" "regdom_ok regdom_RS"
  "regdom_ok regdom_RU" "regdom_ok regdom_RW" "regdom_ok regdom_SA" "regdom_ok regdom_SE"
  "regdom_ok regdom_SG" "regdom_ok regdom_SI" "regdom_ok regdom_SK" "regdom_ok regdom_SM"
  "regdom_ok regdom_SN" "regdom_ok regdom_SR" "regdom_ok regdom_SV" "regdom_ok regdom_SY"
  "regdom_ok regdom_TC" "regdom_ok regdom_TD" "regdom_ok regdom_TG" "regdom_ok regdom_TH"
  "regdom_ok regdom_TJ" "regdom_ok regdom_TM" "regdom_ok regdom_TN" "regdom_ok regdom_TR"
  "regdom_ok regdom_TT" "regdom_ok regdom_TW" "regdom_ok regdom_TZ" "regdom_ok regdom_UA"
  "regdom_ok regdom_UG" "regdom_ok regdom_US" "regdom_ok regdom_UY" "regdom_ok regdom_UZ"
  "regdom_ok regdom_VC" "regdom_ok regdom_VE" "regdom_ok regdom_VI" "regdom_ok regdom_VN"
  "regdom_ok regdom_VU" "regdom_ok regdom_WF" "regdom_ok regdom_WS" "regdom_ok regdom_FK"
  "regdom_ok regdom_FO" "regdom_ok regdom_YE" "regdom_ok regdom_YT" "regdom_ok regdom_ZA"
  "regdom_ok regdom_ZM" "regdom_ok regdom_ZW" "regdom_ok regdom_WW" "regdom_ok regdom_XX"
  by (simp_all add: regdoms regdom_ok_def rule_ok_EXT REG_RULE_def)

lemma regdb_ok: "list_all regdom_ok reg_regdb"
  by (simp add: reg_regdb_def regdoms_ok)

text \<open>A domain with a rule that demands radar detection needs a region, which selects the patterns.\<close>

definition has_dfs_rule :: "regdomain \<Rightarrow> bool" where
  "has_dfs_rule d \<longleftrightarrow> list_ex (\<lambda>r. NL80211_RRF_DFS \<in> set (rule_flags r)) (take (n_reg_rules d) (reg_rules d))"

definition dfs_without_region :: "regdomain \<Rightarrow> bool" where
  "dfs_without_region d \<longleftrightarrow> rd_dfs_region d = DFS_UNSET \<and> has_dfs_rule d"

lemma rule_flags_EXT: "rule_flags (REG_RULE_EXT s e b g p c fl) = fl"
  by (simp add: REG_RULE_EXT_def)

lemma regdoms_dfs:
  "\<not> dfs_without_region regdom_00" "\<not> dfs_without_region regdom_AD" "\<not> dfs_without_region regdom_AE"
  "\<not> dfs_without_region regdom_AF" "\<not> dfs_without_region regdom_AI" "\<not> dfs_without_region regdom_AL"
  "\<not> dfs_without_region regdom_AM" "\<not> dfs_without_region regdom_AN" "\<not> dfs_without_region regdom_AR"
  "\<not> dfs_without_region regdom_AS" "\<not> dfs_without_region regdom_AT" "\<not> dfs_without_region regdom_AU"
  "\<not> dfs_without_region regdom_AW" "\<not> dfs_without_region regdom_AZ" "\<not> dfs_without_region regdom_BA"
  "\<not> dfs_without_region regdom_BB" "\<not> dfs_without_region regdom_BD" "\<not> dfs_without_region regdom_BE"
  "\<not> dfs_without_region regdom_BF" "\<not> dfs_without_region regdom_BG" "\<not> dfs_without_region regdom_BH"
  "\<not> dfs_without_region regdom_BL" "\<not> dfs_without_region regdom_BM" "\<not> dfs_without_region regdom_BN"
  "\<not> dfs_without_region regdom_BO" "\<not> dfs_without_region regdom_BR" "\<not> dfs_without_region regdom_BS"
  "\<not> dfs_without_region regdom_BT" "\<not> dfs_without_region regdom_BW" "\<not> dfs_without_region regdom_BY"
  "\<not> dfs_without_region regdom_BZ" "\<not> dfs_without_region regdom_CA" "\<not> dfs_without_region regdom_CF"
  "\<not> dfs_without_region regdom_CH" "\<not> dfs_without_region regdom_CI" "\<not> dfs_without_region regdom_CL"
  "\<not> dfs_without_region regdom_CN" "\<not> dfs_without_region regdom_CO" "\<not> dfs_without_region regdom_CR"
  "\<not> dfs_without_region regdom_CU" "\<not> dfs_without_region regdom_CX" "\<not> dfs_without_region regdom_CY"
  "\<not> dfs_without_region regdom_CZ" "\<not> dfs_without_region regdom_DE" "\<not> dfs_without_region regdom_DK"
  "\<not> dfs_without_region regdom_DM" "\<not> dfs_without_region regdom_DO" "\<not> dfs_without_region regdom_DZ"
  "\<not> dfs_without_region regdom_EC" "\<not> dfs_without_region regdom_EE" "\<not> dfs_without_region regdom_EG"
  "\<not> dfs_without_region regdom_ES" "\<not> dfs_without_region regdom_ET" "\<not> dfs_without_region regdom_FI"
  "\<not> dfs_without_region regdom_FM" "\<not> dfs_without_region regdom_FR" "\<not> dfs_without_region regdom_GB"
  "\<not> dfs_without_region regdom_GD" "\<not> dfs_without_region regdom_GE" "\<not> dfs_without_region regdom_GF"
  "\<not> dfs_without_region regdom_GH" "\<not> dfs_without_region regdom_GI" "\<not> dfs_without_region regdom_GL"
  "\<not> dfs_without_region regdom_GP" "\<not> dfs_without_region regdom_GR" "\<not> dfs_without_region regdom_GT"
  "\<not> dfs_without_region regdom_GU" "dfs_without_region regdom_GY" "\<not> dfs_without_region regdom_HK"
  "\<not> dfs_without_region regdom_HN" "\<not> dfs_without_region regdom_HR" "\<not> dfs_without_region regdom_HT"
  "\<not> dfs_without_region regdom_HU" "\<not> dfs_without_region regdom_ID" "\<not> dfs_without_region regdom_IE"
  "\<not> dfs_without_region regdom_IL" "dfs_without_region regdom_IN" "\<not> dfs_without_region regdom_IQ"
  "\<not> dfs_without_region regdom_IR" "\<not> dfs_without_region regdom_IS" "\<not> dfs_without_region regdom_IT"
  "\<not> dfs_without_region regdom_JM" "\<not> dfs_without_region regdom_JO" "\<not> dfs_without_region regdom_JP"
  "\<not> dfs_without_region regdom_KE" "\<not> dfs_without_region regdom_KG" "\<not> dfs_without_region regdom_KH"
  "\<not> dfs_without_region regdom_KN" "\<not> dfs_without_region regdom_KP" "\<not> dfs_without_region regdom_KR"
  "\<not> dfs_without_region regdom_KW" "\<not> dfs_without_region regdom_KY" "\<not> dfs_without_region regdom_KZ"
  "\<not> dfs_without_region regdom_LB" "\<not> dfs_without_region regdom_LC" "\<not> dfs_without_region regdom_LI"
  "\<not> dfs_without_region regdom_LK" "\<not> dfs_without_region regdom_LS" "\<not> dfs_without_region regdom_LT"
  "\<not> dfs_without_region regdom_LU" "\<not> dfs_without_region regdom_LV" "\<not> dfs_without_region regdom_LY"
  "\<not> dfs_without_region regdom_MA" "\<not> dfs_without_region regdom_MC" "\<not> dfs_without_region regdom_MD"
  "\<not> dfs_without_region regdom_ME" "\<not> dfs_without_region regdom_MF" "\<not> dfs_without_region regdom_MH"
  "\<not> dfs_without_region regdom_MK" "\<not> dfs_without_region regdom_MN" "\<not> dfs_without_region regdom_MO"
  "\<not> dfs_without_region regdom_MP" "\<not> dfs_without_region regdom_MQ" "\<not> dfs_without_region regdom_MR"
  "\<not> dfs_without_region regdom_MT" "\<not> dfs_without_region regdom_MU" "\<not> dfs_without_region regdom_MV"
  "\<not> dfs_without_region regdom_MW" "\<not> dfs_without_region regdom_MX" "\<not> dfs_without_region regdom_MY"
  "\<not> dfs_without_region regdom_NA" "\<not> dfs_without_region regdom_NG" "\<not> dfs_without_region regdom_NI"
  "\<not> dfs_without_region regdom_NL" "\<not> dfs_without_region regdom_NO" "\<not> dfs_without_region regdom_NP"
  "\<not> dfs_without_region regdom_NZ" "\<not> dfs_without_region regdom_OM" "\<not> dfs_without_region regdom_PA"
  "\<not> dfs_without_region regdom_PE" "\<not> dfs_without_region regdom_PF" "\<not> dfs_without_region regdom_PG"
  "\<not> dfs_without_region regdom_PH" "\<not> dfs_without_region regdom_PK" "\<not> dfs_without_region regdom_PL"
  "\<not> dfs_without_region regdom_PM" "\<not> dfs_without_region regdom_PR" "\<not> dfs_without_region regdom_PT"
  "\<not> dfs_without_region regdom_PW" "\<not> dfs_without_region regdom_PY" "\<not> dfs_without_region regdom_QA"
  "\<not> dfs_without_region regdom_RE" "\<not> dfs_without_region regdom_RO" "\<not> dfs_without_region regdom_RS"
  "\<not> dfs_without_region regdom_RU" "\<not> dfs_without_region regdom_RW" "\<not> dfs_without_region regdom_SA"
  "\<not> dfs_without_region regdom_SE" "\<not> dfs_without_region regdom_SG" "\<not> dfs_without_region regdom_SI"
  "\<not> dfs_without_region regdom_SK" "\<not> dfs_without_region regdom_SM" "\<not> dfs_without_region regdom_SN"
  "\<not> dfs_without_region regdom_SR" "\<not> dfs_without_region regdom_SV" "\<not> dfs_without_region regdom_SY"
  "\<not> dfs_without_region regdom_TC" "\<not> dfs_without_region regdom_TD" "\<not> dfs_without_region regdom_TG"
  "\<not> dfs_without_region regdom_TH" "\<not> dfs_without_region regdom_TJ" "\<not> dfs_without_region regdom_TM"
  "\<not> dfs_without_region regdom_TN" "\<not> dfs_without_region regdom_TR" "\<not> dfs_without_region regdom_TT"
  "\<not> dfs_without_region regdom_TW" "\<not> dfs_without_region regdom_TZ" "\<not> dfs_without_region regdom_UA"
  "\<not> dfs_without_region regdom_UG" "\<not> dfs_without_region regdom_US" "\<not> dfs_without_region regdom_UY"
  "\<not> dfs_without_region regdom_UZ" "\<not> dfs_without_region regdom_VC" "\<not> dfs_without_region regdom_VE"
  "\<not> dfs_without_region regdom_VI" "\<not> dfs_without_region regdom_VN" "\<not> dfs_without_region regdom_VU"
  "\<not> dfs_without_region regdom_WF" "\<not> dfs_without_region regdom_WS" "\<not> dfs_without_region regdom_FK"
  "\<not> dfs_without_region regdom_FO" "\<not> dfs_without_region regdom_YE" "\<not> dfs_without_region regdom_YT"
  "\<not> dfs_without_region regdom_ZA" "\<not> dfs_without_region regdom_ZM" "\<not> dfs_without_region regdom_ZW"
  "\<not> dfs_without_region regdom_WW" "\<not> dfs_without_region regdom_XX"
  by (simp_all add: regdoms dfs_without_region_def has_dfs_rule_def rule_flags_EXT REG_RULE_def)

lemma regdoms_cut:
  "length (reg_rules regdom_00) = n_reg_rules regdom_00" "length (reg_rules regdom_AD) = n_reg_rules regdom_AD"
  "length (reg_rules regdom_AE) = n_reg_rules regdom_AE" "length (reg_rules regdom_AF) = n_reg_rules regdom_AF"
  "length (reg_rules regdom_AI) = n_reg_rules regdom_AI" "length (reg_rules regdom_AL) = n_reg_rules regdom_AL"
  "length (reg_rules regdom_AM) = n_reg_rules regdom_AM" "length (reg_rules regdom_AN) = n_reg_rules regdom_AN"
  "length (reg_rules regdom_AR) = n_reg_rules regdom_AR" "length (reg_rules regdom_AS) = n_reg_rules regdom_AS"
  "length (reg_rules regdom_AT) = n_reg_rules regdom_AT" "length (reg_rules regdom_AU) = n_reg_rules regdom_AU"
  "length (reg_rules regdom_AW) = n_reg_rules regdom_AW" "length (reg_rules regdom_AZ) = n_reg_rules regdom_AZ"
  "length (reg_rules regdom_BA) = n_reg_rules regdom_BA" "length (reg_rules regdom_BB) = n_reg_rules regdom_BB"
  "length (reg_rules regdom_BD) = n_reg_rules regdom_BD" "length (reg_rules regdom_BE) = n_reg_rules regdom_BE"
  "length (reg_rules regdom_BF) = n_reg_rules regdom_BF" "length (reg_rules regdom_BG) = n_reg_rules regdom_BG"
  "length (reg_rules regdom_BH) = n_reg_rules regdom_BH" "length (reg_rules regdom_BL) = n_reg_rules regdom_BL"
  "length (reg_rules regdom_BM) = n_reg_rules regdom_BM" "length (reg_rules regdom_BN) = n_reg_rules regdom_BN"
  "length (reg_rules regdom_BO) = n_reg_rules regdom_BO" "length (reg_rules regdom_BR) = n_reg_rules regdom_BR"
  "length (reg_rules regdom_BS) = n_reg_rules regdom_BS" "length (reg_rules regdom_BT) = n_reg_rules regdom_BT"
  "length (reg_rules regdom_BW) = n_reg_rules regdom_BW" "length (reg_rules regdom_BY) = n_reg_rules regdom_BY"
  "length (reg_rules regdom_BZ) = n_reg_rules regdom_BZ" "length (reg_rules regdom_CA) = n_reg_rules regdom_CA"
  "length (reg_rules regdom_CF) = n_reg_rules regdom_CF" "length (reg_rules regdom_CH) = n_reg_rules regdom_CH"
  "length (reg_rules regdom_CI) = n_reg_rules regdom_CI" "length (reg_rules regdom_CL) = n_reg_rules regdom_CL"
  "length (reg_rules regdom_CN) = n_reg_rules regdom_CN" "length (reg_rules regdom_CO) = n_reg_rules regdom_CO"
  "length (reg_rules regdom_CR) = n_reg_rules regdom_CR" "length (reg_rules regdom_CU) = n_reg_rules regdom_CU"
  "length (reg_rules regdom_CX) = n_reg_rules regdom_CX" "length (reg_rules regdom_CY) = n_reg_rules regdom_CY"
  "length (reg_rules regdom_CZ) = n_reg_rules regdom_CZ" "length (reg_rules regdom_DE) = n_reg_rules regdom_DE"
  "length (reg_rules regdom_DK) = n_reg_rules regdom_DK" "length (reg_rules regdom_DM) = n_reg_rules regdom_DM"
  "length (reg_rules regdom_DO) = n_reg_rules regdom_DO" "length (reg_rules regdom_DZ) = n_reg_rules regdom_DZ"
  "length (reg_rules regdom_EC) = n_reg_rules regdom_EC" "length (reg_rules regdom_EE) = n_reg_rules regdom_EE"
  "length (reg_rules regdom_EG) = n_reg_rules regdom_EG" "length (reg_rules regdom_ES) = n_reg_rules regdom_ES"
  "length (reg_rules regdom_ET) = n_reg_rules regdom_ET" "length (reg_rules regdom_FI) = n_reg_rules regdom_FI"
  "length (reg_rules regdom_FM) = n_reg_rules regdom_FM" "length (reg_rules regdom_FR) = n_reg_rules regdom_FR"
  "length (reg_rules regdom_GB) = n_reg_rules regdom_GB" "length (reg_rules regdom_GD) = n_reg_rules regdom_GD"
  "length (reg_rules regdom_GE) = n_reg_rules regdom_GE" "length (reg_rules regdom_GF) = n_reg_rules regdom_GF"
  "length (reg_rules regdom_GH) = n_reg_rules regdom_GH" "length (reg_rules regdom_GI) = n_reg_rules regdom_GI"
  "length (reg_rules regdom_GL) = n_reg_rules regdom_GL" "length (reg_rules regdom_GP) = n_reg_rules regdom_GP"
  "length (reg_rules regdom_GR) = n_reg_rules regdom_GR" "length (reg_rules regdom_GT) = n_reg_rules regdom_GT"
  "length (reg_rules regdom_GU) = n_reg_rules regdom_GU" "length (reg_rules regdom_GY) = n_reg_rules regdom_GY"
  "length (reg_rules regdom_HK) = n_reg_rules regdom_HK" "length (reg_rules regdom_HN) = n_reg_rules regdom_HN"
  "length (reg_rules regdom_HR) = n_reg_rules regdom_HR" "length (reg_rules regdom_HT) = n_reg_rules regdom_HT"
  "length (reg_rules regdom_HU) = n_reg_rules regdom_HU" "length (reg_rules regdom_ID) = n_reg_rules regdom_ID"
  "length (reg_rules regdom_IE) = n_reg_rules regdom_IE" "length (reg_rules regdom_IL) = n_reg_rules regdom_IL"
  "length (reg_rules regdom_IN) = n_reg_rules regdom_IN" "length (reg_rules regdom_IQ) = n_reg_rules regdom_IQ"
  "length (reg_rules regdom_IR) = n_reg_rules regdom_IR" "length (reg_rules regdom_IS) = n_reg_rules regdom_IS"
  "length (reg_rules regdom_IT) = n_reg_rules regdom_IT + 2" "length (reg_rules regdom_JM) = n_reg_rules regdom_JM"
  "length (reg_rules regdom_JO) = n_reg_rules regdom_JO" "length (reg_rules regdom_JP) = n_reg_rules regdom_JP"
  "length (reg_rules regdom_KE) = n_reg_rules regdom_KE" "length (reg_rules regdom_KG) = n_reg_rules regdom_KG"
  "length (reg_rules regdom_KH) = n_reg_rules regdom_KH" "length (reg_rules regdom_KN) = n_reg_rules regdom_KN"
  "length (reg_rules regdom_KP) = n_reg_rules regdom_KP" "length (reg_rules regdom_KR) = n_reg_rules regdom_KR"
  "length (reg_rules regdom_KW) = n_reg_rules regdom_KW" "length (reg_rules regdom_KY) = n_reg_rules regdom_KY"
  "length (reg_rules regdom_KZ) = n_reg_rules regdom_KZ" "length (reg_rules regdom_LB) = n_reg_rules regdom_LB"
  "length (reg_rules regdom_LC) = n_reg_rules regdom_LC" "length (reg_rules regdom_LI) = n_reg_rules regdom_LI"
  "length (reg_rules regdom_LK) = n_reg_rules regdom_LK" "length (reg_rules regdom_LS) = n_reg_rules regdom_LS"
  "length (reg_rules regdom_LT) = n_reg_rules regdom_LT" "length (reg_rules regdom_LU) = n_reg_rules regdom_LU"
  "length (reg_rules regdom_LV) = n_reg_rules regdom_LV" "length (reg_rules regdom_LY) = n_reg_rules regdom_LY"
  "length (reg_rules regdom_MA) = n_reg_rules regdom_MA" "length (reg_rules regdom_MC) = n_reg_rules regdom_MC"
  "length (reg_rules regdom_MD) = n_reg_rules regdom_MD" "length (reg_rules regdom_ME) = n_reg_rules regdom_ME"
  "length (reg_rules regdom_MF) = n_reg_rules regdom_MF" "length (reg_rules regdom_MH) = n_reg_rules regdom_MH"
  "length (reg_rules regdom_MK) = n_reg_rules regdom_MK" "length (reg_rules regdom_MN) = n_reg_rules regdom_MN"
  "length (reg_rules regdom_MO) = n_reg_rules regdom_MO" "length (reg_rules regdom_MP) = n_reg_rules regdom_MP"
  "length (reg_rules regdom_MQ) = n_reg_rules regdom_MQ" "length (reg_rules regdom_MR) = n_reg_rules regdom_MR"
  "length (reg_rules regdom_MT) = n_reg_rules regdom_MT" "length (reg_rules regdom_MU) = n_reg_rules regdom_MU"
  "length (reg_rules regdom_MV) = n_reg_rules regdom_MV" "length (reg_rules regdom_MW) = n_reg_rules regdom_MW"
  "length (reg_rules regdom_MX) = n_reg_rules regdom_MX" "length (reg_rules regdom_MY) = n_reg_rules regdom_MY"
  "length (reg_rules regdom_NA) = n_reg_rules regdom_NA" "length (reg_rules regdom_NG) = n_reg_rules regdom_NG"
  "length (reg_rules regdom_NI) = n_reg_rules regdom_NI" "length (reg_rules regdom_NL) = n_reg_rules regdom_NL"
  "length (reg_rules regdom_NO) = n_reg_rules regdom_NO" "length (reg_rules regdom_NP) = n_reg_rules regdom_NP"
  "length (reg_rules regdom_NZ) = n_reg_rules regdom_NZ" "length (reg_rules regdom_OM) = n_reg_rules regdom_OM"
  "length (reg_rules regdom_PA) = n_reg_rules regdom_PA" "length (reg_rules regdom_PE) = n_reg_rules regdom_PE"
  "length (reg_rules regdom_PF) = n_reg_rules regdom_PF" "length (reg_rules regdom_PG) = n_reg_rules regdom_PG"
  "length (reg_rules regdom_PH) = n_reg_rules regdom_PH" "length (reg_rules regdom_PK) = n_reg_rules regdom_PK"
  "length (reg_rules regdom_PL) = n_reg_rules regdom_PL" "length (reg_rules regdom_PM) = n_reg_rules regdom_PM"
  "length (reg_rules regdom_PR) = n_reg_rules regdom_PR" "length (reg_rules regdom_PT) = n_reg_rules regdom_PT"
  "length (reg_rules regdom_PW) = n_reg_rules regdom_PW" "length (reg_rules regdom_PY) = n_reg_rules regdom_PY"
  "length (reg_rules regdom_QA) = n_reg_rules regdom_QA" "length (reg_rules regdom_RE) = n_reg_rules regdom_RE"
  "length (reg_rules regdom_RO) = n_reg_rules regdom_RO" "length (reg_rules regdom_RS) = n_reg_rules regdom_RS"
  "length (reg_rules regdom_RU) = n_reg_rules regdom_RU" "length (reg_rules regdom_RW) = n_reg_rules regdom_RW"
  "length (reg_rules regdom_SA) = n_reg_rules regdom_SA" "length (reg_rules regdom_SE) = n_reg_rules regdom_SE"
  "length (reg_rules regdom_SG) = n_reg_rules regdom_SG" "length (reg_rules regdom_SI) = n_reg_rules regdom_SI"
  "length (reg_rules regdom_SK) = n_reg_rules regdom_SK" "length (reg_rules regdom_SM) = n_reg_rules regdom_SM"
  "length (reg_rules regdom_SN) = n_reg_rules regdom_SN" "length (reg_rules regdom_SR) = n_reg_rules regdom_SR"
  "length (reg_rules regdom_SV) = n_reg_rules regdom_SV" "length (reg_rules regdom_SY) = n_reg_rules regdom_SY"
  "length (reg_rules regdom_TC) = n_reg_rules regdom_TC" "length (reg_rules regdom_TD) = n_reg_rules regdom_TD"
  "length (reg_rules regdom_TG) = n_reg_rules regdom_TG" "length (reg_rules regdom_TH) = n_reg_rules regdom_TH"
  "length (reg_rules regdom_TJ) = n_reg_rules regdom_TJ" "length (reg_rules regdom_TM) = n_reg_rules regdom_TM"
  "length (reg_rules regdom_TN) = n_reg_rules regdom_TN" "length (reg_rules regdom_TR) = n_reg_rules regdom_TR"
  "length (reg_rules regdom_TT) = n_reg_rules regdom_TT" "length (reg_rules regdom_TW) = n_reg_rules regdom_TW"
  "length (reg_rules regdom_TZ) = n_reg_rules regdom_TZ" "length (reg_rules regdom_UA) = n_reg_rules regdom_UA"
  "length (reg_rules regdom_UG) = n_reg_rules regdom_UG" "length (reg_rules regdom_US) = n_reg_rules regdom_US"
  "length (reg_rules regdom_UY) = n_reg_rules regdom_UY" "length (reg_rules regdom_UZ) = n_reg_rules regdom_UZ"
  "length (reg_rules regdom_VC) = n_reg_rules regdom_VC" "length (reg_rules regdom_VE) = n_reg_rules regdom_VE"
  "length (reg_rules regdom_VI) = n_reg_rules regdom_VI" "length (reg_rules regdom_VN) = n_reg_rules regdom_VN"
  "length (reg_rules regdom_VU) = n_reg_rules regdom_VU" "length (reg_rules regdom_WF) = n_reg_rules regdom_WF"
  "length (reg_rules regdom_WS) = n_reg_rules regdom_WS" "length (reg_rules regdom_FK) = n_reg_rules regdom_FK"
  "length (reg_rules regdom_FO) = n_reg_rules regdom_FO" "length (reg_rules regdom_YE) = n_reg_rules regdom_YE"
  "length (reg_rules regdom_YT) = n_reg_rules regdom_YT" "length (reg_rules regdom_ZA) = n_reg_rules regdom_ZA"
  "length (reg_rules regdom_ZM) = n_reg_rules regdom_ZM" "length (reg_rules regdom_ZW) = n_reg_rules regdom_ZW"
  "length (reg_rules regdom_WW) = n_reg_rules regdom_WW" "length (reg_rules regdom_XX) = n_reg_rules regdom_XX"
  by (simp_all add: regdoms)

end
