(* ===== verification/RegulatoryProps.thy ===== *)
theory RegulatoryProps
  imports Regulatory RegDbFacts RadarDfs
begin

text \<open>The look-up of a country, the room for the list of channels, the survey of a channel.\<close>

section \<open>Look-up\<close>

lemma reg_regdb_size_188: "reg_regdb_size = 188"
  by (simp add: reg_regdb_size_def length_regdb)

lemma regdb_search_first:
  assumes "n \<le> reg_regdb_size"
  shows "regdb_search (word_of_nat n) a0 a1 =
    Some (case filter (\<lambda>i. alpha2 (reg_regdb ! i) ! 0 = a0 \<and> alpha2 (reg_regdb ! i) ! 1 = a1) [n..<reg_regdb_size] of
            [] \<Rightarrow> None | i # _ \<Rightarrow> Some (word_of_nat i))"
  using assms
proof (induction "reg_regdb_size - n" arbitrary: n)
  case 0
  then have "unat (word_of_nat n :: u8) = n"
    by (simp add: unsigned_of_nat take_bit_nat_eq_self reg_regdb_size_188)
  then show ?case
    using 0 by (subst regdb_search.simps) simp
next
  case (Suc m)
  then have n: "n < reg_regdb_size" and m: "m = reg_regdb_size - Suc n"
    by simp_all
  have u: "unat (word_of_nat n :: u8) = n"
    using n by (simp add: unsigned_of_nat take_bit_nat_eq_self reg_regdb_size_188)
  have "regdb_search (word_of_nat n + 1) a0 a1 = regdb_search (word_of_nat (Suc n)) a0 a1"
    by (simp add: add.commute)
  then show ?case
    using Suc.hyps(1)[OF m] n u by (subst regdb_search.simps) (simp add: upt_conv_Cons)
qed

lemma regdb_code_length: "d \<in> set reg_regdb \<Longrightarrow> length (alpha2 d) = 2"
proof -
  have "list_all (\<lambda>c. length c = 2) (map alpha2 reg_regdb)"
    unfolding regdb_codes by simp
  then show "d \<in> set reg_regdb \<Longrightarrow> length (alpha2 d) = 2"
    by (simp add: list_all_iff)
qed

lemma code_match: "length c = 2 \<Longrightarrow> c ! 0 = a0 \<and> c ! 1 = a1 \<longleftrightarrow> c = [a0, a1]"
  by (auto simp add: length_Suc_conv numeral_2_eq_2)

lemma filter_eq_upt: "i < n \<Longrightarrow> filter (\<lambda>k. k = i) [0..<n] = [i]"
  by (induction n) (auto simp add: less_Suc_eq)

lemma regdb_search_found:
  assumes "i < reg_regdb_size" "alpha2 (reg_regdb ! i) = [a0, a1]"
  shows "regdb_search 0 a0 a1 = Some (Some (word_of_nat i))"
proof -
  have "filter (\<lambda>k. alpha2 (reg_regdb ! k) ! 0 = a0 \<and> alpha2 (reg_regdb ! k) ! 1 = a1) [0..<reg_regdb_size] =
      filter (\<lambda>k. k = i) [0..<reg_regdb_size]"
  proof (rule filter_cong[OF refl])
    fix k assume "k \<in> set [0..<reg_regdb_size]"
    then have k: "k < length reg_regdb"
      by (simp add: reg_regdb_size_def)
    have "alpha2 (reg_regdb ! k) ! 0 = a0 \<and> alpha2 (reg_regdb ! k) ! 1 = a1 \<longleftrightarrow>
        map alpha2 reg_regdb ! k = map alpha2 reg_regdb ! i"
      using k assms code_match[OF regdb_code_length[of "reg_regdb ! k"], of a0 a1] by (simp add: reg_regdb_size_def)
    also have "\<dots> \<longleftrightarrow> k = i"
      using k assms(1) by (intro nth_eq_iff_index_eq[OF regdb_codes_distinct]) (simp_all add: reg_regdb_size_def)
    finally show "(alpha2 (reg_regdb ! k) ! 0 = a0 \<and> alpha2 (reg_regdb ! k) ! 1 = a1) = (k = i)" .
  qed
  also have "\<dots> = [i]"
    by (rule filter_eq_upt[OF assms(1)])
  finally show ?thesis
    using regdb_search_first[of 0 a0 a1] by simp
qed

lemma regdb_search_missing:
  assumes "\<forall>d\<in>set reg_regdb. alpha2 d \<noteq> [a0, a1]"
  shows "regdb_search 0 a0 a1 = Some None"
proof -
  have "\<not> (alpha2 (reg_regdb ! k) ! 0 = a0 \<and> alpha2 (reg_regdb ! k) ! 1 = a1)" if "k < reg_regdb_size" for k
    using that assms code_match[OF regdb_code_length[of "reg_regdb ! k"], of a0 a1] by (simp add: reg_regdb_size_def)
  then have "filter (\<lambda>k. alpha2 (reg_regdb ! k) ! 0 = a0 \<and> alpha2 (reg_regdb ! k) ! 1 = a1) [0..<reg_regdb_size] = []"
    by (simp add: filter_empty_conv)
  then show ?thesis
    using regdb_search_first[of 0 a0 a1] by simp
qed


section \<open>The list of channels\<close>

definition covers :: "reg_rule \<Rightarrow> nat \<Rightarrow> bool" where
  "covers r f \<longleftrightarrow> int (start_freq_khz r div 1000) \<le> int f - 10 \<and> int f + 10 \<le> int (end_freq_khz r div 1000)"

definition allowed :: "regdomain \<Rightarrow> nat \<Rightarrow> bool" where
  "allowed d f \<longleftrightarrow> list_ex (\<lambda>r. covers r f) (take (n_reg_rules d) (reg_rules d))"

definition chan_text :: "(nat \<Rightarrow> int) \<Rightarrow> nat list \<Rightarrow> string" where
  "chan_text chan fs = concat (map (\<lambda>f. dec (chan f) @ '' '') fs)"

lemma rule_loop_list_ex:
  "n \<le> length rules \<Longrightarrow> rule_loop n rules f = Some (list_ex (\<lambda>r. covers r f) (take n rules))"
  by (induction n rules f rule: rule_loop.induct) (auto simp add: covers_def)

lemma chan_text_simps [simp]:
  "chan_text chan [] = []" "chan_text chan (f # fs) = dec (chan f) @ '' '' @ chan_text chan fs"
  "chan_text chan (fs @ gs) = chan_text chan fs @ chan_text chan gs"
  by (simp_all add: chan_text_def)

lemma channel_loop_text:
  assumes "regdom_ok rd" "\<forall>f\<in>set fs. 0 \<le> chan f \<and> chan f < 1000"
    "length (ccode_channels L) + 4 * length fs \<le> CCODE_SIZE" "length (support_freqs L) + length fs \<le> SCAN_CHANNEL_MAX"
  shows "channel_loop wext chan rd fs L = Some (L\<lparr>
      ccode_channels := ccode_channels L @ chan_text chan (filter (allowed rd) fs),
      support_freqs := support_freqs L @ (if wext then filter (allowed rd) fs else [])\<rparr>)"
  using assms(2-)
proof (induction fs arbitrary: L)
  case Nil
  then show ?case by simp
next
  case (Cons f fs)
  have hit: "rule_loop (n_reg_rules rd) (reg_rules rd) f = Some (allowed rd f)"
    using assms(1) by (simp add: rule_loop_list_ex regdom_ok_def allowed_def)
  show ?case
  proof (cases "allowed rd f")
    case False
    then show ?thesis
      using hit Cons by simp
  next
    case True
    have d: "length (dec (chan f)) \<le> 3"
      using Cons.prems(1) by (intro length_dec_le) simp_all
    let ?L = "L\<lparr>ccode_channels := ccode_channels L @ dec (chan f) @ '' '',
        support_freqs := (if wext then support_freqs L @ [f] else support_freqs L)\<rparr>"
    have p: "put_channel wext chan f L = Some ?L"
      using d Cons.prems by (auto simp add: put_channel_def Let_def)
    show ?thesis
      using hit True p Cons.IH[of ?L] Cons.prems d by simp
  qed
qed

lemma band_loop_text:
  assumes "regdom_ok rd" "\<forall>f\<in>set (concat bs). 0 \<le> chan f \<and> chan f < 1000"
    "length (ccode_channels L) + 4 * length (concat bs) \<le> CCODE_SIZE"
    "length (support_freqs L) + length (concat bs) \<le> SCAN_CHANNEL_MAX"
  shows "band_loop wext chan rd bs L = Some (L\<lparr>
      ccode_channels := ccode_channels L @ chan_text chan (filter (allowed rd) (concat bs)),
      support_freqs := support_freqs L @ (if wext then filter (allowed rd) (concat bs) else [])\<rparr>)"
  using assms(2-)
proof (induction bs arbitrary: L)
  case Nil
  then show ?case by simp
next
  case (Cons b bs)
  have l: "length (chan_text chan (filter (allowed rd) b)) \<le> 4 * length b"
    using Cons.prems(1)
  proof (induction b)
    case (Cons f fs)
    then have "length (dec (chan f)) \<le> 3"
      by (intro length_dec_le) simp_all
    then show ?case
      using Cons by simp
  qed simp
  let ?L = "L\<lparr>ccode_channels := ccode_channels L @ chan_text chan (filter (allowed rd) b),
      support_freqs := support_freqs L @ (if wext then filter (allowed rd) b else [])\<rparr>"
  have c: "channel_loop wext chan rd b L = Some ?L"
    using Cons.prems by (intro channel_loop_text[OF assms(1)]) simp_all
  have "length (ccode_channels ?L) + 4 * length (concat bs) \<le> CCODE_SIZE"
    using Cons.prems(2) l by simp
  moreover have "length (support_freqs ?L) + length (concat bs) \<le> SCAN_CHANNEL_MAX"
  proof -
    have "length (support_freqs ?L) \<le> length (support_freqs L) + length b"
      by simp
    moreover have "length (support_freqs L) + (length b + length (concat bs)) \<le> SCAN_CHANNEL_MAX"
      using Cons.prems(3) by simp
    ultimately show ?thesis
      by linarith
  qed
  ultimately show ?case
    using Cons.IH[of ?L] Cons.prems(1) c by auto
qed


lemma regdb_nth_ok: "i < reg_regdb_size \<Longrightarrow> regdom_ok (reg_regdb ! i)"
  using regdb_ok by (simp add: list_all_length reg_regdb_size_def)

lemma countrycode_channels_text:
  assumes "wiphy_bands band5 rwnx_band_init = Some bs" "i < reg_regdb_size"
    "\<forall>f\<in>set (concat bs). 0 \<le> chan f \<and> chan f < 1000"
  shows "rwnx_get_countrycode_channels wext chan bs (reg_regdb ! i) = Some \<lparr>
      ccode_channels = chan_text chan (filter (allowed (reg_regdb ! i)) (concat bs)),
      support_freqs = (if wext then filter (allowed (reg_regdb ! i)) (concat bs) else [])\<rparr>"
proof -
  have "length (concat bs) \<le> 39"
    using assms(1) by (auto simp add: wiphy_bands_def band_channels_def rwnx_band_init_def rwnx_2ghz_channels_def
        rwnx_5ghz_channels_def split: if_splits)
  then show ?thesis
    unfolding rwnx_get_countrycode_channels_def
    by (subst band_loop_text[OF regdb_nth_ok[OF assms(2)] assms(3)]) (simp_all add: CCODE_SIZE_def SCAN_CHANNEL_MAX_def)
qed

text \<open>
  C27: looking up a country gives the domain with its code, or the domain 00 when no domain has it; the
  list of channels is the list of the frequencies that a rule of the domain allows, and it fits its array.
  Only the look-up of an unknown code reads behind the table.
\<close>

theorem country_lookup:
  assumes "wiphy_bands band5 rwnx_band_init = Some bs" "\<forall>f\<in>set (concat bs). 0 \<le> chan f \<and> chan f < 1000"
  shows "\<exists>d\<in>set reg_regdb. getRegdomainFromRwnxDB wext chan bs a0 a1 = Some \<lparr>
      found = d, country_code = alpha2 d @ [CHR 0x00, CHR 0x00],
      channels_of = \<lparr>ccode_channels = chan_text chan (filter (allowed d) (concat bs)),
                     support_freqs = (if wext then filter (allowed d) (concat bs) else [])\<rparr>,
      read_behind = ([a0, a1] \<notin> alpha2 ` set reg_regdb)\<rparr> \<and>
    alpha2 d = (if [a0, a1] \<in> alpha2 ` set reg_regdb then [a0, a1] else ''00'')"
proof (cases "[a0, a1] \<in> alpha2 ` set reg_regdb")
  case True
  then obtain i where i: "i < reg_regdb_size" "alpha2 (reg_regdb ! i) = [a0, a1]"
    by (auto simp add: in_set_conv_nth reg_regdb_size_def)
  have u: "unat (word_of_nat i :: u8) = i"
    using i(1) by (simp add: unsigned_of_nat take_bit_nat_eq_self reg_regdb_size_188)
  show ?thesis
    using regdb_search_found[OF i] countrycode_channels_text[OF assms(1) i(1) assms(2)] i True u
    by (intro bexI[of _ "reg_regdb ! i"]) (simp_all add: getRegdomainFromRwnxDB_def reg_regdb_size_def)
next
  case False
  have d0: "0 < reg_regdb_size" "alpha2 (reg_regdb ! 0) = ''00''"
    by (simp_all add: reg_regdb_size_188 reg_regdb_def regdom_00_def)
  have "regdb_search 0 a0 a1 = Some None"
    using False by (intro regdb_search_missing) (metis image_eqI)
  then show ?thesis
    using countrycode_channels_text[OF assms(1) d0(1) assms(2)] d0 False
    by (intro bexI[of _ "reg_regdb ! 0"]) (simp_all add: getRegdomainFromRwnxDB_def reg_regdb_size_def default_ccode_def)
qed

theorem country_lookup_witness:
  "\<exists>l. getRegdomainFromRwnxDB True (\<lambda>f. if f = 2484 then 14 else (int f - 2407) div 5)
       [take 14 rwnx_2ghz_channels] CHR ''I'' CHR ''T'' = Some l \<and>
     found l \<in> set reg_regdb \<and> alpha2 (found l) = ''IT'' \<and> \<not> read_behind l"
proof -
  have "''IT'' \<in> set (map alpha2 reg_regdb)"
    unfolding regdb_codes by simp
  then have t: "''IT'' \<in> alpha2 ` set reg_regdb"
    by simp
  have b: "wiphy_bands False rwnx_band_init = Some [take 14 rwnx_2ghz_channels]"
    by (simp add: wiphy_bands_def band_channels_def rwnx_band_init_def rwnx_2ghz_channels_def rwnx_5ghz_channels_def)
  have "\<forall>f\<in>set (concat [take 14 rwnx_2ghz_channels]).
      0 \<le> (if f = 2484 then 14 else (int f - 2407) div 5) \<and> (if f = 2484 then 14 else (int f - 2407) div 5) < 1000"
    by (simp add: rwnx_2ghz_channels_def)
  from country_lookup[OF b this, of True "CHR ''I''" "CHR ''T''"] show ?thesis
    unfolding if_P[OF t] using t by fastforce
qed

section \<open>The extra channels\<close>

lemma channel_loop_grows:
  assumes "channel_loop wext chan rd fs L = Some L'" "regdom_ok rd" "\<forall>f\<in>set fs. allowed rd f"
    "length (ccode_channels L) \<le> CCODE_SIZE"
  shows "length (ccode_channels L) + 2 * length fs \<le> length (ccode_channels L') \<and> length (ccode_channels L') \<le> CCODE_SIZE"
  using assms
proof (induction fs arbitrary: L)
  case Nil
  then show ?case by simp
next
  case (Cons f fs)
  have "rule_loop (n_reg_rules rd) (reg_rules rd) f = Some True"
    using Cons.prems(2,3) by (simp add: rule_loop_list_ex regdom_ok_def allowed_def)
  then obtain L1 where p: "put_channel wext chan f L = Some L1" and r: "channel_loop wext chan rd fs L1 = Some L'"
    using Cons.prems(1) by (auto split: Option.bind_splits)
  have "length (ccode_channels L) + 2 \<le> length (ccode_channels L1)" "length (ccode_channels L1) \<le> CCODE_SIZE"
    using p length_dec_pos[of "chan f"] by (auto simp add: put_channel_def Let_def Suc_le_eq split: if_splits)
  then show ?case
    using Cons.IH[OF r Cons.prems(2)] Cons.prems(3) by simp
qed

lemma band_loop_grows:
  assumes "band_loop wext chan rd bs L = Some L'" "regdom_ok rd" "\<forall>f\<in>set (concat bs). allowed rd f"
    "length (ccode_channels L) \<le> CCODE_SIZE"
  shows "length (ccode_channels L) + 2 * length (concat bs) \<le> length (ccode_channels L') \<and>
    length (ccode_channels L') \<le> CCODE_SIZE"
  using assms
proof (induction bs arbitrary: L)
  case Nil
  then show ?case by simp
next
  case (Cons b bs)
  obtain L1 where c: "channel_loop wext chan rd b L = Some L1" and r: "band_loop wext chan rd bs L1 = Some L'"
    using Cons.prems(1) by (auto split: Option.bind_splits)
  have "length (ccode_channels L) + 2 * length b \<le> length (ccode_channels L1) \<and> length (ccode_channels L1) \<le> CCODE_SIZE"
    using channel_loop_grows[OF c Cons.prems(2)] Cons.prems(3,4) by simp
  then show ?case
    using Cons.IH[OF r Cons.prems(2)] Cons.prems(3) by simp
qed

lemma allowed_00: "allowed regdom_00 f \<longleftrightarrow> 2390 \<le> f \<and> f \<le> 2510 \<or> 5150 \<le> f \<and> f \<le> 5970"
  by (auto simp add: allowed_def regdom_00_def REG_RULE_def REG_RULE_EXT_def covers_def)

text \<open>
  C39: with the module parameter \<open>custchan\<close> the first probe of a device that has the 5 GHz band enables
  111 channels. The default domain allows all of them, and their list does not fit the 200 bytes of
  \<open>ccode_channels\<close>, whatever numbers the kernel gives them. After the next probe the numbers of channels are
  larger than the tables.
\<close>

theorem custom_channels_overrun:
  "let B1 = enable_extra_channels True True True rwnx_band_init; B2 = enable_extra_channels True True True B1
   in wiphy_bands True B1 = Some [rwnx_2ghz_channels, rwnx_5ghz_channels] \<and>
      getRegdomainFromRwnxDB wext chan [rwnx_2ghz_channels, rwnx_5ghz_channels] CHR ''0'' CHR ''0'' = None \<and>
      wiphy_bands True B2 = None"
proof -
  have l: "length rwnx_2ghz_channels = 27" "length rwnx_5ghz_channels = 84"
    by (simp_all add: rwnx_2ghz_channels_def rwnx_5ghz_channels_def)
  have a: "\<forall>f\<in>set (concat [rwnx_2ghz_channels, rwnx_5ghz_channels]). allowed regdom_00 f"
    by (simp add: rwnx_2ghz_channels_def rwnx_5ghz_channels_def allowed_00)
  have ok: "regdom_ok regdom_00"
    by (rule regdoms_ok)
  have "rwnx_get_countrycode_channels wext chan [rwnx_2ghz_channels, rwnx_5ghz_channels] regdom_00 = None"
  proof (rule ccontr)
    assume "rwnx_get_countrycode_channels wext chan [rwnx_2ghz_channels, rwnx_5ghz_channels] regdom_00 \<noteq> None"
    then obtain L' where "band_loop wext chan regdom_00 [rwnx_2ghz_channels, rwnx_5ghz_channels]
        \<lparr>ccode_channels = [], support_freqs = []\<rparr> = Some L'"
      unfolding rwnx_get_countrycode_channels_def by blast
    from band_loop_grows[OF this ok a] have "222 \<le> length (ccode_channels L')" "length (ccode_channels L') \<le> 200"
      by (simp_all add: l CCODE_SIZE_def)
    then show False
      by linarith
  qed
  moreover have "reg_regdb ! 0 = regdom_00"
    by (simp add: reg_regdb_def)
  moreover have "regdb_search 0 CHR ''0'' CHR ''0'' = Some (Some 0)"
    using regdb_search_found[of 0] by (simp add: reg_regdb_size_188 reg_regdb_def regdom_00_def)
  ultimately show ?thesis
    by (simp add: Let_def wiphy_bands_def band_channels_def enable_extra_channels_def rwnx_band_init_def l
        getRegdomainFromRwnxDB_def)
qed

section \<open>The kernel takes every domain\<close>

lemma no_patterns: "get_dfs_domain_radar_types rg = None \<longleftrightarrow> rg = DFS_UNSET"
  by (cases rg) (simp_all add: get_dfs_domain_radar_types_def dfs_domains_def etsi_radar_types_v17_def
      fcc_radar_types_def jp_radar_types_def)

text \<open>
  C40: the kernel accepts every domain of the table: it has rules, no more than its array and than the
  kernel's limit, and each rule has a range and a bandwidth that fits it. Of the domains with a rule that
  demands radar detection all but GY and IN have a region with radar patterns. The domain IT counts two
  rules less than it has.
\<close>

theorem regdb_well_formed:
  "list_all regdom_ok reg_regdb \<and>
   map alpha2 (filter (\<lambda>d. has_dfs_rule d \<and> get_dfs_domain_radar_types (rd_dfs_region d) = None) reg_regdb) = [''GY'', ''IN''] \<and>
   map alpha2 (filter (\<lambda>d. n_reg_rules d \<noteq> length (reg_rules d)) reg_regdb) = [''IT'']"
proof -
  have "(\<lambda>d. has_dfs_rule d \<and> get_dfs_domain_radar_types (rd_dfs_region d) = None) = dfs_without_region"
    by (rule ext) (auto simp add: dfs_without_region_def no_patterns)
  moreover have "filter dfs_without_region reg_regdb = [regdom_GY, regdom_IN]"
    by (simp add: reg_regdb_def regdoms_dfs)
  moreover have "filter (\<lambda>d. n_reg_rules d \<noteq> length (reg_rules d)) reg_regdb = [regdom_IT]"
    by (simp add: reg_regdb_def regdoms_cut)
  moreover have "alpha2 regdom_GY = ''GY''" "alpha2 regdom_IN = ''IN''" "alpha2 regdom_IT = ''IT''"
    by (simp_all add: regdom_GY_def regdom_IN_def regdom_IT_def)
  ultimately show ?thesis
    using regdb_ok by simp
qed


section \<open>The survey\<close>

lemma freq_loop_spec:
  "(case freq_loop b f n of (hit, i) \<Rightarrow>
      if hit then n \<le> i \<and> i - n < length b \<and> b ! (i - n) = f else i = n + length b \<and> f \<notin> set b)"
proof (induction b f n rule: freq_loop.induct)
  case (1 f n)
  then show ?case by simp
next
  case (2 c cs f n)
  show ?case
  proof (cases "c = f")
    case False
    then show ?thesis
      using 2 by (auto simp add: nth_Cons' split: prod.splits if_splits)
  qed simp
qed

lemma freq_to_idx_from_spec:
  "f \<in> set (concat bs) \<Longrightarrow> \<exists>i. freq_to_idx_from bs f n = Some i \<and> n \<le> i \<and> i - n < length (concat bs) \<and> concat bs ! (i - n) = f"
proof (induction bs arbitrary: n)
  case Nil
  then show ?case by simp
next
  case (Cons b bs)
  obtain hit i where r: "freq_loop b f n = (hit, i)"
    by fastforce
  show ?case
  proof (cases hit)
    case True
    then show ?thesis
      using freq_loop_spec[where b = b and f = f and n = n] r by (simp add: nth_append)
  next
    case False
    then have i: "i = n + length b" and "f \<notin> set b"
      using freq_loop_spec[where b = b and f = f and n = n] r by simp_all
    then obtain k where k: "freq_to_idx_from bs f i = Some k" "i \<le> k" "k - i < length (concat bs)" "concat bs ! (k - i) = f"
      using Cons.IH[of i] Cons.prems by auto
    have a: "k - n - length b = k - i" "\<not> k - n < length b" "k - n < length b + length (concat bs)"
      using i k(2,3) by linarith+
    show ?thesis
      using k i r False a by (simp add: nth_append)
  qed
qed

lemma wiphy_bands_cases:
  "wiphy_bands band5 rwnx_band_init = Some bs \<Longrightarrow>
     bs = (if band5 then [take 14 rwnx_2ghz_channels, take 25 rwnx_5ghz_channels] else [take 14 rwnx_2ghz_channels])"
  by (simp add: wiphy_bands_def band_channels_def rwnx_band_init_def rwnx_2ghz_channels_def rwnx_5ghz_channels_def
      split: if_splits)

lemma dump_channel:
  assumes "wiphy_bands band5 rwnx_band_init = Some bs" "i < length (concat bs)" "length survey = SCAN_CHANNEL_MAX"
    "sv_filled (survey ! i) \<noteq> {}"
  shows "rwnx_cfg80211_dump_survey bs band5 i survey =
    (Some \<lparr>rp_channel = concat bs ! i, rp_filled = sv_filled (survey ! i), rp_time = ucast (chan_time_ms (survey ! i)),
           rp_time_busy = ucast (chan_time_busy_ms (survey ! i)),
           rp_noise = (if IS_2P4GHZ (concat bs ! i) then - 89 else - 92)\<rparr>,
     survey[i := (survey ! i)\<lparr>sv_filled := insert SURVEY_INFO_NOISE_DBM (sv_filled (survey ! i))\<rparr>])"
proof -
  have l: "length (take 14 rwnx_2ghz_channels) = 14" "length (take 25 rwnx_5ghz_channels) = 25"
    by (simp_all add: rwnx_2ghz_channels_def rwnx_5ghz_channels_def)
  have i: "\<not> length survey \<le> i"
    using assms(2,3) unfolding wiphy_bands_cases[OF assms(1)] by (cases band5) (simp_all add: l SCAN_CHANNEL_MAX_def del: length_take)
  have c: "(if i < length (bs ! 0) then Some (bs ! 0 ! i)
       else if band5 \<and> 1 < length bs \<and> i - length (bs ! 0) < length (bs ! 1) then Some (bs ! 1 ! (i - length (bs ! 0))) else None)
      = Some (concat bs ! i)"
    using assms(2) unfolding wiphy_bands_cases[OF assms(1)] by (cases band5) (auto simp add: l nth_append simp del: length_take nth_take)
  show ?thesis
    unfolding rwnx_cfg80211_dump_survey_def Let_def if_not_P[OF i] c using assms(4) by simp
qed

text \<open>
  C32: the report of a survey reaches the kernel: after the firmware has reported a channel, some index
  dumps this channel with the times of the report. The noise of the report is replaced by a constant of
  the band. A dump does not mark the survey as read, so the next one gives the same times.
\<close>

theorem survey_roundtrip:
  assumes "wiphy_bands band5 rwnx_band_init = Some bs" "length survey = SCAN_CHANNEL_MAX"
    "si_freq ind \<in> set (concat bs)"
  shows "\<exists>i survey' rp survey''. rwnx_rx_channel_survey_ind bs ind survey = Some survey' \<and>
      rwnx_cfg80211_dump_survey bs band5 i survey' = (Some rp, survey'') \<and> rp_channel rp = si_freq ind \<and>
      rp_time rp = ucast (si_chan_time_ms ind) \<and> rp_time_busy rp = ucast (si_chan_time_busy_ms ind) \<and>
      rp_noise rp = (if IS_2P4GHZ (si_freq ind) then - 89 else - 92) \<and>
      (\<exists>rp2. rwnx_cfg80211_dump_survey bs band5 i survey'' = (Some rp2, survey'') \<and> rp_time rp2 = rp_time rp) \<and>
      length survey'' = SCAN_CHANNEL_MAX"
proof -
  obtain i where i: "rwnx_freq_to_idx bs (si_freq ind) = Some i" "i < length (concat bs)" "concat bs ! i = si_freq ind"
    using freq_to_idx_from_spec[OF assms(3), of 0] by (auto simp add: rwnx_freq_to_idx_def)
  have le: "length (concat bs) \<le> 39"
    unfolding wiphy_bands_cases[OF assms(1)] by (simp add: rwnx_2ghz_channels_def rwnx_5ghz_channels_def)
  then have li: "i < length survey" "\<not> SCAN_CHANNEL_MAX < i"
    using i(2) assms(2) by (simp_all add: SCAN_CHANNEL_MAX_def)
  define fl where "fl = {SURVEY_INFO_TIME, SURVEY_INFO_TIME_BUSY} \<union> (if si_noise_dbm ind \<noteq> 0 then {SURVEY_INFO_NOISE_DBM} else {})"
  define e where "e = \<lparr>sv_filled = fl, chan_time_ms = si_chan_time_ms ind,
      chan_time_busy_ms = si_chan_time_busy_ms ind, noise_dbm = si_noise_dbm ind\<rparr>"
  have s1: "rwnx_rx_channel_survey_ind bs ind survey = Some (survey[i := e])"
    using i(1) li by (simp add: rwnx_rx_channel_survey_ind_def e_def fl_def)
  have s2: "survey[i := e] ! i = e" "sv_filled e \<noteq> {}" "length (survey[i := e]) = SCAN_CHANNEL_MAX"
    using li assms(2) by (simp_all add: e_def fl_def)
  define e2 where "e2 = e\<lparr>sv_filled := insert SURVEY_INFO_NOISE_DBM (sv_filled e)\<rparr>"
  have d1: "rwnx_cfg80211_dump_survey bs band5 i (survey[i := e]) =
      (Some \<lparr>rp_channel = si_freq ind, rp_filled = fl, rp_time = ucast (si_chan_time_ms ind),
           rp_time_busy = ucast (si_chan_time_busy_ms ind),
           rp_noise = (if IS_2P4GHZ (si_freq ind) then - 89 else - 92)\<rparr>, survey[i := e2])"
    using dump_channel[OF assms(1) i(2) s2(3)] s2 by (simp add: i(3) e2_def e_def)
  have s3: "survey[i := e2] ! i = e2" "sv_filled e2 \<noteq> {}" "length (survey[i := e2]) = SCAN_CHANNEL_MAX"
    "e2\<lparr>sv_filled := insert SURVEY_INFO_NOISE_DBM (sv_filled e2)\<rparr> = e2"
    using li assms(2) by (simp_all add: e2_def)
  have d2: "rwnx_cfg80211_dump_survey bs band5 i (survey[i := e2]) =
      (Some \<lparr>rp_channel = si_freq ind, rp_filled = sv_filled e2, rp_time = ucast (si_chan_time_ms ind),
           rp_time_busy = ucast (si_chan_time_busy_ms ind),
           rp_noise = (if IS_2P4GHZ (si_freq ind) then - 89 else - 92)\<rparr>, survey[i := e2])"
    using dump_channel[OF assms(1) i(2) s3(3)] s3 by (simp add: i(3)) (simp add: e2_def e_def)
  show ?thesis
    by (rule exI[of _ i], rule exI, rule exI, rule exI, intro conjI, rule s1, rule d1)
      (use d2 s3(3) in simp_all)
qed

theorem survey_roundtrip_witness:
  "\<exists>i survey' rp survey''. rwnx_rx_channel_survey_ind [take 14 rwnx_2ghz_channels, take 25 rwnx_5ghz_channels]
      \<lparr>si_freq = 5180, si_chan_time_ms = 100, si_chan_time_busy_ms = 60, si_noise_dbm = - 70\<rparr> survey_init = Some survey' \<and>
    rwnx_cfg80211_dump_survey [take 14 rwnx_2ghz_channels, take 25 rwnx_5ghz_channels] True i survey' = (Some rp, survey'') \<and>
    rp_channel rp = 5180 \<and> rp_time rp = 100 \<and> rp_time_busy rp = 60 \<and> rp_noise rp = - 92"
proof -
  have b: "wiphy_bands True rwnx_band_init = Some [take 14 rwnx_2ghz_channels, take 25 rwnx_5ghz_channels]"
    by (simp add: wiphy_bands_def band_channels_def rwnx_band_init_def rwnx_2ghz_channels_def rwnx_5ghz_channels_def)
  have l: "length survey_init = SCAN_CHANNEL_MAX"
    by (simp add: survey_init_def)
  let ?ind = "\<lparr>si_freq = 5180, si_chan_time_ms = 100, si_chan_time_busy_ms = 60, si_noise_dbm = - 70\<rparr>"
  have m: "si_freq ?ind \<in> set (concat [take 14 rwnx_2ghz_channels, take 25 rwnx_5ghz_channels])"
    by (simp add: rwnx_2ghz_channels_def rwnx_5ghz_channels_def)
  show ?thesis
    using survey_roundtrip[OF b l m] by (auto simp add: IS_2P4GHZ_def)
qed

text \<open>
  The test of the index accepts the one behind the array. With the extra channels the survey of the 43rd
  channel, 5520 MHz, is written there.
\<close>

lemma survey_of_extra_channel:
  "rwnx_rx_channel_survey_ind [take 27 rwnx_2ghz_channels, take 84 rwnx_5ghz_channels] ind survey_init = None"
  if "si_freq ind = rwnx_5ghz_channels ! 15"
  using that by (simp add: rwnx_rx_channel_survey_ind_def rwnx_freq_to_idx_def rwnx_2ghz_channels_def
      rwnx_5ghz_channels_def survey_init_def SCAN_CHANNEL_MAX_def)


section \<open>Channels in messages\<close>

lemma fill_channels_take:
  "length out < k \<Longrightarrow> fill_channels k k band cs out = Some (out @ map (chan_entry band) (take (k - length out) cs))"
proof (induction cs arbitrary: out)
  case Nil
  then show ?case by simp
next
  case (Cons c cs)
  then show ?case
    by (cases "Suc (length out) = k") (auto simp add: take_Cons' Let_def)
qed

lemma me_chan_config_contents:
  "rwnx_send_me_chan_config_req b2 b5 =
     Some (map (chan_entry 0) (take 14 (case b2 of None \<Rightarrow> [] | Some cs \<Rightarrow> cs)),
           map (chan_entry 1) (take 28 (case b5 of None \<Rightarrow> [] | Some cs \<Rightarrow> cs)))"
  by (simp add: rwnx_send_me_chan_config_req_def fill_channels_take split: option.splits)

text \<open>
  reducing a channel of 80 or 160 MHz to 40 MHz gives the half of the channel plan that the primary
  channel lies in: the new channel contains the primary channel at one of its two places, lies inside the
  old channel, and starts at a multiple of 40 MHz from its edge.
\<close>

theorem limited_channel_inside:
  assumes "w = (if bw = 2 then 80 else 160 :: int)" "bw = 2 \<or> bw = 3"
    and "uint primary - (uint center1 - w div 2) \<in> {10, 30, 50, 70} \<union> (if bw = 3 then {90, 110, 130, 150} else {})"
    and "200 \<le> uint center1" "uint center1 \<le> 60000"
  shows "case limit_chan_bw bw primary center1 of (bw', c) \<Rightarrow>
      bw' = 1 \<and> \<bar>uint c - uint primary\<bar> = 10 \<and>
      uint center1 - w div 2 \<le> uint c - 20 \<and> uint c + 20 \<le> uint center1 + w div 2 \<and>
      (uint c - 20 - (uint center1 - w div 2)) mod 40 = 0"
proof -
  have r: "0 \<le> uint primary + d" "uint primary + d < 2 ^ 16" if "d = 10 \<or> d = - 10" for d
    using assms that by (auto split: if_splits)
  have u: "uint (word_of_int (uint primary + d) :: u16) = uint primary + d" if "d = 10 \<or> d = - 10" for d
    unfolding uint_word_of_int using r[OF that] by (simp add: take_bit_int_eq_self)
  define x where "x = uint center1 - uint primary"
  define d :: int where "d = (if \<bar>x\<bar> = 10 \<or> \<bar>x\<bar> = 50 then (if x < 0 then 10 else - 10) else (if x < 0 then - 10 else 10))"
  have d: "d = 10 \<or> d = - 10"
    by (simp add: d_def)
  have b: "\<not> bw \<le> PHY_CHNL_BW_40"
    using assms(2) by (auto simp add: PHY_CHNL_BW_40_def word_le_nat_alt)
  have e: "limit_chan_bw bw primary center1 = (PHY_CHNL_BW_40, word_of_int (uint primary + d))"
    unfolding limit_chan_bw_def if_not_P[OF b] Let_def x_def[symmetric] d_def by simp
  have c: "uint center1 = uint primary + x"
    by (simp add: x_def)
  have xs: "bw = 2 \<and> w = 80 \<and> x \<in> {30, 10, - 10, - 30} \<or>
      bw = 3 \<and> w = 160 \<and> x \<in> {70, 50, 30, 10, - 10, - 30, - 50, - 70}"
    using assms(1-3) unfolding c by auto
  show ?thesis
    unfolding e prod.case u[OF d] c using xs by (auto simp add: d_def PHY_CHNL_BW_40_def)
qed

theorem limited_channel_inside_witness:
  "case limit_chan_bw 2 5180 5210 of (bw', c) \<Rightarrow> bw' = 1 \<and> 5170 \<le> uint c - 20 \<and> uint c + 20 \<le> 5250"
  using limited_channel_inside[of 80 2 5180 5210] by (simp split: prod.splits)

end
