(* ===== verification/Md5.thy ===== *)
theory Md5
  imports Prelude
begin

text \<open>
  The message digest that the driver prints for each firmware file it loads
  (\<^verbatim>\<open>md5.c\<close>, \<^verbatim>\<open>md5.h\<close>; \<^verbatim>\<open>aic_load_fw\<close> has an identical copy).
  The C arrays are lists of their elements. A result \<open>None\<close> is a run that does not come to an end or that
  reads behind the input: the block loop of \<open>MD5Update\<close> counts in 32 bits. The second half states RFC 1321
  as a reference: the padded message, cut into blocks, with the steps of a block as an indexed loop.
\<close>

section \<open>The code\<close>

record md5_ctx =
  md5_count :: "u32 list"
  md5_state :: "u32 list"
  md5_buffer :: bytes

subsection \<open>The macros of a step\<close>

definition md5_F :: "u32 \<Rightarrow> u32 \<Rightarrow> u32 \<Rightarrow> u32" where
  "md5_F x y z = ((x AND y) OR (NOT x AND z))"

definition md5_G :: "u32 \<Rightarrow> u32 \<Rightarrow> u32 \<Rightarrow> u32" where
  "md5_G x y z = ((x AND z) OR (y AND NOT z))"

definition md5_H :: "u32 \<Rightarrow> u32 \<Rightarrow> u32 \<Rightarrow> u32" where
  "md5_H x y z = (x XOR y XOR z)"

definition md5_I :: "u32 \<Rightarrow> u32 \<Rightarrow> u32 \<Rightarrow> u32" where
  "md5_I x y z = (y XOR (x OR NOT z))"

definition ROTATE_LEFT :: "u32 \<Rightarrow> nat \<Rightarrow> u32" where
  "ROTATE_LEFT x n = (push_bit n x OR drop_bit (32 - n) x)"

text \<open>Each of the four macros assigns its first argument.\<close>

definition FF :: "u32 \<Rightarrow> u32 \<Rightarrow> u32 \<Rightarrow> u32 \<Rightarrow> u32 \<Rightarrow> nat \<Rightarrow> u32 \<Rightarrow> u32" where
  "FF a b c d x s ac = (let a = a + (md5_F b c d + x + ac); a = ROTATE_LEFT a s in a + b)"

definition GG :: "u32 \<Rightarrow> u32 \<Rightarrow> u32 \<Rightarrow> u32 \<Rightarrow> u32 \<Rightarrow> nat \<Rightarrow> u32 \<Rightarrow> u32" where
  "GG a b c d x s ac = (let a = a + (md5_G b c d + x + ac); a = ROTATE_LEFT a s in a + b)"

definition HH :: "u32 \<Rightarrow> u32 \<Rightarrow> u32 \<Rightarrow> u32 \<Rightarrow> u32 \<Rightarrow> nat \<Rightarrow> u32 \<Rightarrow> u32" where
  "HH a b c d x s ac = (let a = a + (md5_H b c d + x + ac); a = ROTATE_LEFT a s in a + b)"

definition II :: "u32 \<Rightarrow> u32 \<Rightarrow> u32 \<Rightarrow> u32 \<Rightarrow> u32 \<Rightarrow> nat \<Rightarrow> u32 \<Rightarrow> u32" where
  "II a b c d x s ac = (let a = a + (md5_I b c d + x + ac); a = ROTATE_LEFT a s in a + b)"

subsection \<open>Words and bytes\<close>

text \<open>The bytes written to the output for \<open>len\<close> of them; the callers pass 8 and 16.\<close>

function md5_encode_from :: "nat \<Rightarrow> nat \<Rightarrow> u32 list \<Rightarrow> nat \<Rightarrow> bytes" where
  "md5_encode_from i j input len =
     (if j < len
      then [ucast (input ! i AND 0xFF), ucast (drop_bit 8 (input ! i) AND 0xFF),
            ucast (drop_bit 16 (input ! i) AND 0xFF), ucast (drop_bit 24 (input ! i) AND 0xFF)]
           @ md5_encode_from (i + 1) (j + 4) input len
      else [])"
  by pat_completeness auto
termination by (relation "measure (\<lambda>(i, j, input, len). len - j)") auto

definition MD5Encode :: "u32 list \<Rightarrow> nat \<Rightarrow> bytes" where
  "MD5Encode input len = md5_encode_from 0 0 input len"

function md5_decode_from :: "nat \<Rightarrow> bytes \<Rightarrow> nat \<Rightarrow> u32 list" where
  "md5_decode_from j input len =
     (if j < len
      then (ucast (input ! j) OR push_bit 8 (ucast (input ! (j + 1)))
            OR push_bit 16 (ucast (input ! (j + 2))) OR push_bit 24 (ucast (input ! (j + 3))))
           # md5_decode_from (j + 4) input len
      else [])"
  by pat_completeness auto
termination by (relation "measure (\<lambda>(j, input, len). len - j)") auto

definition MD5Decode :: "bytes \<Rightarrow> nat \<Rightarrow> u32 list" where
  "MD5Decode input len = md5_decode_from 0 input len"

declare md5_encode_from.simps [simp del] md5_decode_from.simps [simp del]

subsection \<open>One block\<close>

definition MD5Transform :: "u32 list \<Rightarrow> bytes \<Rightarrow> u32 list" where
  "MD5Transform state block =
    (let a = state ! 0; b = state ! 1; c = state ! 2; d = state ! 3;
        x = MD5Decode block 64;
        a = FF a b c d (x ! 0) 7 0xd76aa478;
        d = FF d a b c (x ! 1) 12 0xe8c7b756;
        c = FF c d a b (x ! 2) 17 0x242070db;
        b = FF b c d a (x ! 3) 22 0xc1bdceee;
        a = FF a b c d (x ! 4) 7 0xf57c0faf;
        d = FF d a b c (x ! 5) 12 0x4787c62a;
        c = FF c d a b (x ! 6) 17 0xa8304613;
        b = FF b c d a (x ! 7) 22 0xfd469501;
        a = FF a b c d (x ! 8) 7 0x698098d8;
        d = FF d a b c (x ! 9) 12 0x8b44f7af;
        c = FF c d a b (x ! 10) 17 0xffff5bb1;
        b = FF b c d a (x ! 11) 22 0x895cd7be;
        a = FF a b c d (x ! 12) 7 0x6b901122;
        d = FF d a b c (x ! 13) 12 0xfd987193;
        c = FF c d a b (x ! 14) 17 0xa679438e;
        b = FF b c d a (x ! 15) 22 0x49b40821;
        a = GG a b c d (x ! 1) 5 0xf61e2562;
        d = GG d a b c (x ! 6) 9 0xc040b340;
        c = GG c d a b (x ! 11) 14 0x265e5a51;
        b = GG b c d a (x ! 0) 20 0xe9b6c7aa;
        a = GG a b c d (x ! 5) 5 0xd62f105d;
        d = GG d a b c (x ! 10) 9 0x2441453;
        c = GG c d a b (x ! 15) 14 0xd8a1e681;
        b = GG b c d a (x ! 4) 20 0xe7d3fbc8;
        a = GG a b c d (x ! 9) 5 0x21e1cde6;
        d = GG d a b c (x ! 14) 9 0xc33707d6;
        c = GG c d a b (x ! 3) 14 0xf4d50d87;
        b = GG b c d a (x ! 8) 20 0x455a14ed;
        a = GG a b c d (x ! 13) 5 0xa9e3e905;
        d = GG d a b c (x ! 2) 9 0xfcefa3f8;
        c = GG c d a b (x ! 7) 14 0x676f02d9;
        b = GG b c d a (x ! 12) 20 0x8d2a4c8a;
        a = HH a b c d (x ! 5) 4 0xfffa3942;
        d = HH d a b c (x ! 8) 11 0x8771f681;
        c = HH c d a b (x ! 11) 16 0x6d9d6122;
        b = HH b c d a (x ! 14) 23 0xfde5380c;
        a = HH a b c d (x ! 1) 4 0xa4beea44;
        d = HH d a b c (x ! 4) 11 0x4bdecfa9;
        c = HH c d a b (x ! 7) 16 0xf6bb4b60;
        b = HH b c d a (x ! 10) 23 0xbebfbc70;
        a = HH a b c d (x ! 13) 4 0x289b7ec6;
        d = HH d a b c (x ! 0) 11 0xeaa127fa;
        c = HH c d a b (x ! 3) 16 0xd4ef3085;
        b = HH b c d a (x ! 6) 23 0x4881d05;
        a = HH a b c d (x ! 9) 4 0xd9d4d039;
        d = HH d a b c (x ! 12) 11 0xe6db99e5;
        c = HH c d a b (x ! 15) 16 0x1fa27cf8;
        b = HH b c d a (x ! 2) 23 0xc4ac5665;
        a = II a b c d (x ! 0) 6 0xf4292244;
        d = II d a b c (x ! 7) 10 0x432aff97;
        c = II c d a b (x ! 14) 15 0xab9423a7;
        b = II b c d a (x ! 5) 21 0xfc93a039;
        a = II a b c d (x ! 12) 6 0x655b59c3;
        d = II d a b c (x ! 3) 10 0x8f0ccc92;
        c = II c d a b (x ! 10) 15 0xffeff47d;
        b = II b c d a (x ! 1) 21 0x85845dd1;
        a = II a b c d (x ! 8) 6 0x6fa87e4f;
        d = II d a b c (x ! 15) 10 0xfe2ce6e0;
        c = II c d a b (x ! 6) 15 0xa3014314;
        b = II b c d a (x ! 13) 21 0x4e0811a1;
        a = II a b c d (x ! 4) 6 0xf7537e82;
        d = II d a b c (x ! 11) 10 0xbd3af235;
        c = II c d a b (x ! 2) 15 0x2ad7d2bb;
        b = II b c d a (x ! 9) 21 0xeb86d391
     in [state ! 0 + a, state ! 1 + b, state ! 2 + c, state ! 3 + d])"

subsection \<open>The stream\<close>

definition PADDING :: bytes where
  "PADDING = 0x80 # replicate 63 0"

definition MD5Init :: "md5_ctx \<Rightarrow> md5_ctx" where
  "MD5Init context = context\<lparr>md5_count := [0, 0],
     md5_state := [0x67452301, 0xEFCDAB89, 0x98BADCFE, 0x10325476]\<rparr>"

text \<open>The loop over whole blocks of the input, from index \<open>i\<close> on.\<close>

partial_function (option) md5_blocks :: "bytes \<Rightarrow> u32 \<Rightarrow> u32 \<Rightarrow> u32 list \<Rightarrow> (u32 \<times> u32 list) option" where
  "md5_blocks input inputlen i state =
     (if i + 64 \<le> inputlen
      then if unat i + 64 \<le> length input
           then md5_blocks input inputlen (i + 64) (MD5Transform state (take 64 (drop (unat i) input)))
           else None
      else Some (i, state))"

definition put_bytes :: "bytes \<Rightarrow> nat \<Rightarrow> bytes \<Rightarrow> bytes" where
  "put_bytes buf at src = take at buf @ src @ drop (at + length src) buf"

definition MD5Update :: "md5_ctx \<Rightarrow> bytes \<Rightarrow> u32 \<Rightarrow> md5_ctx option" where
  "MD5Update context input inputlen =
    (let index = drop_bit 3 (md5_count context ! 0) AND 0x3F;
         partlen = 64 - index;
         c0 = md5_count context ! 0 + push_bit 3 inputlen;
         c1 = (if c0 < push_bit 3 inputlen then md5_count context ! 1 + 1 else md5_count context ! 1);
         c1 = c1 + drop_bit 29 inputlen;
         context = context\<lparr>md5_count := [c0, c1]\<rparr>
     in if length input < unat inputlen then None
        else if partlen \<le> inputlen
        then let context = context\<lparr>md5_buffer := put_bytes (md5_buffer context) (unat index)
                             (take (unat partlen) input)\<rparr>;
                 state = MD5Transform (md5_state context) (md5_buffer context)
             in do { (i, state) \<leftarrow> md5_blocks input inputlen partlen state;
                     Some (context\<lparr>md5_state := state, md5_buffer := put_bytes (md5_buffer context) 0
                       (take (unat (inputlen - i)) (drop (unat i) input))\<rparr>) }
        else Some (context\<lparr>md5_buffer := put_bytes (md5_buffer context) (unat index)
                       (take (unat inputlen) input)\<rparr>))"

definition MD5Final :: "md5_ctx \<Rightarrow> (md5_ctx \<times> bytes) option" where
  "MD5Final context =
    (let index = drop_bit 3 (md5_count context ! 0) AND 0x3F;
         padlen = (if index < 56 then 56 - index else 120 - index);
         bits = MD5Encode (md5_count context) 8
     in do { context \<leftarrow> MD5Update context PADDING padlen;
             context \<leftarrow> MD5Update context bits 8;
             Some (context, MD5Encode (md5_state context) 16) })"

section \<open>The reference: RFC 1321\<close>

definition rfc_T :: "u32 list" where
  "rfc_T = [
    0xd76aa478, 0xe8c7b756, 0x242070db, 0xc1bdceee, 0xf57c0faf, 0x4787c62a,
    0xa8304613, 0xfd469501, 0x698098d8, 0x8b44f7af, 0xffff5bb1, 0x895cd7be,
    0x6b901122, 0xfd987193, 0xa679438e, 0x49b40821, 0xf61e2562, 0xc040b340,
    0x265e5a51, 0xe9b6c7aa, 0xd62f105d, 0x2441453, 0xd8a1e681, 0xe7d3fbc8,
    0x21e1cde6, 0xc33707d6, 0xf4d50d87, 0x455a14ed, 0xa9e3e905, 0xfcefa3f8,
    0x676f02d9, 0x8d2a4c8a, 0xfffa3942, 0x8771f681, 0x6d9d6122, 0xfde5380c,
    0xa4beea44, 0x4bdecfa9, 0xf6bb4b60, 0xbebfbc70, 0x289b7ec6, 0xeaa127fa,
    0xd4ef3085, 0x4881d05, 0xd9d4d039, 0xe6db99e5, 0x1fa27cf8, 0xc4ac5665,
    0xf4292244, 0x432aff97, 0xab9423a7, 0xfc93a039, 0x655b59c3, 0x8f0ccc92,
    0xffeff47d, 0x85845dd1, 0x6fa87e4f, 0xfe2ce6e0, 0xa3014314, 0x4e0811a1,
    0xf7537e82, 0xbd3af235, 0x2ad7d2bb, 0xeb86d391]"

definition rfc_shift :: "nat \<Rightarrow> nat" where
  "rfc_shift i = [[7, 12, 17, 22], [5, 9, 14, 20], [4, 11, 16, 23], [6, 10, 15, 21]] ! (i div 16) ! (i mod 4)"

definition rfc_word :: "nat \<Rightarrow> nat" where
  "rfc_word i = [i, 5 * i + 1, 3 * i + 5, 7 * i] ! (i div 16) mod 16"

definition rfc_fun :: "nat \<Rightarrow> u32 \<Rightarrow> u32 \<Rightarrow> u32 \<Rightarrow> u32" where
  "rfc_fun i x y z = (if i < 16 then (x AND y) OR (NOT x AND z) else if i < 32 then (x AND z) OR (y AND NOT z)
     else if i < 48 then x XOR y XOR z else y XOR (x OR NOT z))"

text \<open>Step \<open>i\<close> on the registers A, B, C, D, which change their roles after each step.\<close>

fun rfc_step :: "u32 list \<Rightarrow> nat \<Rightarrow> u32 \<times> u32 \<times> u32 \<times> u32 \<Rightarrow> u32 \<times> u32 \<times> u32 \<times> u32" where
  "rfc_step X i (a, b, c, d) =
     (d, b + word_rotl (rfc_shift i) (a + rfc_fun i b c d + X ! rfc_word i + rfc_T ! i), b, c)"

definition le_words :: "bytes \<Rightarrow> u32 list" where
  "le_words bs = map (\<lambda>k. le32 (bs ! (4 * k)) (bs ! (4 * k + 1)) (bs ! (4 * k + 2)) (bs ! (4 * k + 3)))
     [0..<length bs div 4]"

fun rfc_block :: "u32 \<times> u32 \<times> u32 \<times> u32 \<Rightarrow> bytes \<Rightarrow> u32 \<times> u32 \<times> u32 \<times> u32" where
  "rfc_block (a, b, c, d) block =
     (case fold (rfc_step (le_words block)) [0..<64] (a, b, c, d) of
        (a', b', c', d') \<Rightarrow> (a + a', b + b', c + c', d + d'))"

fun rfc_blocks :: "u32 \<times> u32 \<times> u32 \<times> u32 \<Rightarrow> bytes \<Rightarrow> u32 \<times> u32 \<times> u32 \<times> u32" where
  "rfc_blocks s bs = (if length bs < 64 then s else rfc_blocks (rfc_block s (take 64 bs)) (drop 64 bs))"

declare rfc_blocks.simps [simp del]

definition le_bytes :: "nat \<Rightarrow> nat \<Rightarrow> bytes" where
  "le_bytes n v = map (\<lambda>k. word_of_nat (v div 256 ^ k)) [0..<n]"

definition rfc_pad :: "bytes \<Rightarrow> bytes" where
  "rfc_pad msg = msg @ 0x80 # replicate ((119 - length msg mod 64) mod 64) 0 @ le_bytes 8 (8 * length msg)"

definition rfc_md5 :: "bytes \<Rightarrow> bytes" where
  "rfc_md5 msg = (case rfc_blocks (0x67452301, 0xEFCDAB89, 0x98BADCFE, 0x10325476) (rfc_pad msg) of
     (a, b, c, d) \<Rightarrow> concat (map (\<lambda>w. le_bytes 4 (unat w)) [a, b, c, d]))"

end
