(* ===== verification/Md5Props.thy ===== *)
theory Md5Props
  imports Md5
begin

text \<open>
  \<open>MD5Transform\<close> is the block function of RFC 1321, \<open>MD5Update\<close> cuts its input into the same blocks
  however it arrives in pieces, and \<open>MD5Final\<close> pads as the RFC does.
\<close>

section \<open>Words and bytes\<close>

lemma md5_decode_le_words:
  "k \<le> n \<Longrightarrow> md5_decode_from (4 * k) bs (4 * n) =
     map (\<lambda>k. le32 (bs ! (4 * k)) (bs ! (4 * k + 1)) (bs ! (4 * k + 2)) (bs ! (4 * k + 3))) [k..<n]"
proof (induction "n - k" arbitrary: k)
  case 0
  then show ?case by (subst md5_decode_from.simps) simp
next
  case (Suc m)
  then have k: "k < n" and m: "m = n - Suc k" by simp_all
  have "md5_decode_from (4 * k + 4) bs (4 * n) =
     map (\<lambda>k. le32 (bs ! (4 * k)) (bs ! (4 * k + 1)) (bs ! (4 * k + 2)) (bs ! (4 * k + 3))) [Suc k..<n]"
    using Suc.hyps(1)[OF m] k by (simp add: add.commute)
  then show ?case
    using k by (subst md5_decode_from.simps) (simp add: le32_def upt_conv_Cons)
qed

lemma MD5Decode_le_words: "length bs = 64 \<Longrightarrow> MD5Decode bs 64 = le_words bs"
  using md5_decode_le_words[of 0 16 bs] by (simp add: MD5Decode_def le_words_def)

lemma byte_of_word: "(ucast (drop_bit (8 * k) (w :: u32) AND 0xFF) :: u8) = word_of_nat (unat w div 256 ^ k)"
proof -
  have m: "(0xFF :: u32) = mask 8"
    by (simp add: mask_eq_exp_minus_1)
  have "(ucast (drop_bit (8 * k) w AND 0xFF) :: u8) = ucast (drop_bit (8 * k) w)"
    unfolding m by (rule bit_word_eqI) (simp add: bit_simps)
  also have "\<dots> = word_of_nat (unat (drop_bit (8 * k) w))"
    by simp
  also have "unat (drop_bit (8 * k) w) = unat w div 2 ^ (8 * k)"
    unfolding unat_drop_bit_eq by (rule drop_bit_eq_div)
  also have "(2 :: nat) ^ (8 * k) = 256 ^ k"
    by (simp add: power_mult)
  finally show ?thesis .
qed

lemma le_bytes_4:
  "le_bytes 4 (unat (w :: u32)) =
     [ucast (w AND 0xFF), ucast (drop_bit 8 w AND 0xFF),
      ucast (drop_bit 16 w AND 0xFF), ucast (drop_bit 24 w AND 0xFF)]"
proof -
  have u: "[0..<4] = [0, 1, 2, 3 :: nat]"
    by (simp add: upt_rec)
  show ?thesis
    using byte_of_word[of 0 w] byte_of_word[of 1 w] byte_of_word[of 2 w] byte_of_word[of 3 w]
    unfolding le_bytes_def u list.map by (simp only: mult_0_right mult_1_right drop_bit_0 id_apply
      arith_simps mult_2_right simp_thms nat_mult_1_right)
qed

lemma md5_encode_le_bytes:
  "k \<le> length ws \<Longrightarrow> md5_encode_from k (4 * k) ws (4 * length ws) =
     concat (map (\<lambda>w. le_bytes 4 (unat w)) (drop k ws))"
proof (induction "length ws - k" arbitrary: k)
  case 0
  then show ?case by (subst md5_encode_from.simps) simp
next
  case (Suc m)
  then have k: "k < length ws" and m: "m = length ws - Suc k" by simp_all
  have ih: "md5_encode_from (k + 1) (4 * k + 4) ws (4 * length ws) =
     concat (map (\<lambda>w. le_bytes 4 (unat w)) (drop (Suc k) ws))"
    using Suc.hyps(1)[OF m] k by (simp add: algebra_simps)
  have d: "drop k ws = ws ! k # drop (Suc k) ws"
    using k by (simp add: Cons_nth_drop_Suc)
  have b: "le_bytes 4 (unat (ws ! k)) =
     [ucast (ws ! k AND 0xFF), ucast (drop_bit 8 (ws ! k) AND 0xFF),
      ucast (drop_bit 16 (ws ! k) AND 0xFF), ucast (drop_bit 24 (ws ! k) AND 0xFF)]"
    by (rule le_bytes_4)
  show ?case
    unfolding d list.map concat.simps b ih[symmetric]
    using k by (subst md5_encode_from.simps) simp
qed

lemma MD5Encode_le_bytes: "MD5Encode ws (4 * length ws) = concat (map (\<lambda>w. le_bytes 4 (unat w)) ws)"
  using md5_encode_le_bytes[of 0 ws] by (simp add: MD5Encode_def)

section \<open>One block\<close>

lemma ROTATE_LEFT_rotl: "0 < n \<Longrightarrow> n < 32 \<Longrightarrow> ROTATE_LEFT x n = word_rotl n x"
proof (rule bit_word_eqI)
  fix k assume n: "0 < n" "n < 32" and "k < LENGTH(32)"
  then have k: "k < 32"
    by simp
  have m: "(k + 32 - n) mod 32 = (if n \<le> k then k - n else k + 32 - n)"
  proof (cases "n \<le> k")
    case True
    then have "k + 32 - n = 32 + (k - n)"
      by simp
    then have "(k + 32 - n) mod 32 = (k - n) mod 32"
      by (simp only: mod_add_self1)
    then show ?thesis
      using True k by simp
  qed (use n k in simp)
  have e: "bit (word_rotl n x) k = bit x ((k + 32 - n) mod 32)"
    using n k by (simp add: bit_word_rotl_iff)
  show "bit (ROTATE_LEFT x n) k = bit (word_rotl n x) k"
    unfolding e m using n k bit_imp_le_length[of x "k + 32 - n"]
    by (auto simp add: ROTATE_LEFT_def bit_simps add.commute dest: bit_imp_le_length)
qed

lemma rfc_shift_bound: "i < 64 \<Longrightarrow> 0 < rfc_shift i \<and> rfc_shift i < 32"
proof -
  assume "i < 64"
  then have "i div 16 \<in> {0, 1, 2, 3}" "i mod 4 \<in> {0, 1, 2, 3}"
    by auto
  then show ?thesis
    by (auto simp add: rfc_shift_def)
qed

lemmas step_macros = FF_def GG_def HH_def II_def md5_F_def md5_G_def md5_H_def md5_I_def

definition step_macro :: "nat \<Rightarrow> u32 \<Rightarrow> u32 \<Rightarrow> u32 \<Rightarrow> u32 \<Rightarrow> u32 \<Rightarrow> nat \<Rightarrow> u32 \<Rightarrow> u32" where
  "step_macro i = (if i < 16 then FF else if i < 32 then GG else if i < 48 then HH else II)"

lemma step_macro_add: "i mod 4 = 0 \<Longrightarrow> k < 4 \<Longrightarrow> step_macro (i + k) = step_macro i"
proof -
  assume "i mod 4 = 0" "k < 4"
  then have "i + k < 16 \<longleftrightarrow> i < 16" "i + k < 32 \<longleftrightarrow> i < 32" "i + k < 48 \<longleftrightarrow> i < 48"
    by presburger+
  then show ?thesis
    by (simp add: step_macro_def)
qed

lemma rfc_step_code:
  assumes "i < 64"
  shows "rfc_step X i (a, b, c, d) =
    (d, step_macro i a b c d (X ! rfc_word i) (rfc_shift i) (rfc_T ! i), b, c)"
  using rfc_shift_bound[OF assms]
  by (simp add: step_macro_def step_macros rfc_fun_def Let_def ROTATE_LEFT_rotl algebra_simps)

text \<open>Four steps of the code as a function of the registers.\<close>

definition quad :: "(u32 \<Rightarrow> u32 \<Rightarrow> u32 \<Rightarrow> u32 \<Rightarrow> u32 \<Rightarrow> nat \<Rightarrow> u32 \<Rightarrow> u32) \<Rightarrow> u32 \<Rightarrow> nat \<Rightarrow> u32 \<Rightarrow>
    u32 \<Rightarrow> nat \<Rightarrow> u32 \<Rightarrow> u32 \<Rightarrow> nat \<Rightarrow> u32 \<Rightarrow> u32 \<Rightarrow> nat \<Rightarrow> u32 \<Rightarrow>
    u32 \<times> u32 \<times> u32 \<times> u32 \<Rightarrow> u32 \<times> u32 \<times> u32 \<times> u32" where
  "quad f x0 s0 k0 x1 s1 k1 x2 s2 k2 x3 s3 k3 = (\<lambda>(a, b, c, d).
     let a = f a b c d x0 s0 k0; d = f d a b c x1 s1 k1; c = f c d a b x2 s2 k2; b = f b c d a x3 s3 k3
     in (a, b, c, d))"

lemma quad_let:
  "(let a = f a b c d x0 s0 k0; d = f d a b c x1 s1 k1; c = f c d a b x2 s2 k2; b = f b c d a x3 s3 k3
     in P a b c d) =
   (case quad f x0 s0 k0 x1 s1 k1 x2 s2 k2 x3 s3 k3 (a, b, c, d) of (a, b, c, d) \<Rightarrow> P a b c d)"
  by (simp add: quad_def Let_def)

lemma quad_fold:
  assumes "i < 61" "i mod 4 = 0" and i: "i1 = i + 1" "i2 = i + 2" "i3 = i + 3"
  shows "quad (step_macro i)
     (X ! rfc_word i) (rfc_shift i) (rfc_T ! i) (X ! rfc_word i1) (rfc_shift i1) (rfc_T ! i1)
     (X ! rfc_word i2) (rfc_shift i2) (rfc_T ! i2) (X ! rfc_word i3) (rfc_shift i3) (rfc_T ! i3) p =
   fold (rfc_step X) [i, i1, i2, i3] p"
proof -
  obtain a b c d where p: "p = (a, b, c, d)"
    by (metis prod.exhaust)
  have m: "step_macro (i + 1) = step_macro i" "step_macro (i + 2) = step_macro i"
    "step_macro (i + 3) = step_macro i"
    using step_macro_add[OF assms(2), of 1] step_macro_add[OF assms(2), of 2]
      step_macro_add[OF assms(2), of 3] by simp_all
  have b: "i < 64" "i + 1 < 64" "i + 2 < 64" "i + 3 < 64"
    using assms by simp_all
  show ?thesis
    unfolding p quad_def i
    by (simp only: list.simps fold.simps comp_def id_apply rfc_step_code[OF b(1)] rfc_step_code[OF b(2)]
        rfc_step_code[OF b(3)] rfc_step_code[OF b(4)] m prod.case Let_def)
qed

lemma fold_append_case:
  "(case fold f (xs @ ys) p of (a, b, c, d) \<Rightarrow> R a b c d) =
   (case fold f xs p of (a, b, c, d) \<Rightarrow> case fold f ys (a, b, c, d) of (a, b, c, d) \<Rightarrow> R a b c d)"
  by (cases "fold f xs p") simp

lemmas md5_eval = step_macro_def rfc_word_def rfc_shift_def rfc_T_def

lemma md5_last_steps:
  "rfc_word 60 = 4" "rfc_word 61 = 11" "rfc_word 62 = 2" "rfc_word 63 = 9"
  "rfc_shift 60 = 6" "rfc_shift 61 = 10" "rfc_shift 62 = 15" "rfc_shift 63 = 21" "step_macro 60 = II"
  "rfc_T ! 60 = 0xf7537e82" "rfc_T ! 61 = 0xbd3af235" "rfc_T ! 62 = 0x2ad7d2bb" "rfc_T ! 63 = 0xeb86d391"
  by (simp_all add: md5_eval)

lemma quads:
  "quad FF (X ! 0) 7 0xd76aa478 (X ! 1) 12 0xe8c7b756 (X ! 2) 17 0x242070db (X ! 3) 22 0xc1bdceee =
     fold (rfc_step X) [0, 1, 2, 3]"
  "quad FF (X ! 4) 7 0xf57c0faf (X ! 5) 12 0x4787c62a (X ! 6) 17 0xa8304613 (X ! 7) 22 0xfd469501 =
     fold (rfc_step X) [4, 5, 6, 7]"
  "quad FF (X ! 8) 7 0x698098d8 (X ! 9) 12 0x8b44f7af (X ! 10) 17 0xffff5bb1 (X ! 11) 22 0x895cd7be =
     fold (rfc_step X) [8, 9, 10, 11]"
  "quad FF (X ! 12) 7 0x6b901122 (X ! 13) 12 0xfd987193 (X ! 14) 17 0xa679438e (X ! 15) 22 0x49b40821 =
     fold (rfc_step X) [12, 13, 14, 15]"
  "quad GG (X ! 1) 5 0xf61e2562 (X ! 6) 9 0xc040b340 (X ! 11) 14 0x265e5a51 (X ! 0) 20 0xe9b6c7aa =
     fold (rfc_step X) [16, 17, 18, 19]"
  "quad GG (X ! 5) 5 0xd62f105d (X ! 10) 9 0x2441453 (X ! 15) 14 0xd8a1e681 (X ! 4) 20 0xe7d3fbc8 =
     fold (rfc_step X) [20, 21, 22, 23]"
  "quad GG (X ! 9) 5 0x21e1cde6 (X ! 14) 9 0xc33707d6 (X ! 3) 14 0xf4d50d87 (X ! 8) 20 0x455a14ed =
     fold (rfc_step X) [24, 25, 26, 27]"
  "quad GG (X ! 13) 5 0xa9e3e905 (X ! 2) 9 0xfcefa3f8 (X ! 7) 14 0x676f02d9 (X ! 12) 20 0x8d2a4c8a =
     fold (rfc_step X) [28, 29, 30, 31]"
  "quad HH (X ! 5) 4 0xfffa3942 (X ! 8) 11 0x8771f681 (X ! 11) 16 0x6d9d6122 (X ! 14) 23 0xfde5380c =
     fold (rfc_step X) [32, 33, 34, 35]"
  "quad HH (X ! 1) 4 0xa4beea44 (X ! 4) 11 0x4bdecfa9 (X ! 7) 16 0xf6bb4b60 (X ! 10) 23 0xbebfbc70 =
     fold (rfc_step X) [36, 37, 38, 39]"
  "quad HH (X ! 13) 4 0x289b7ec6 (X ! 0) 11 0xeaa127fa (X ! 3) 16 0xd4ef3085 (X ! 6) 23 0x4881d05 =
     fold (rfc_step X) [40, 41, 42, 43]"
  "quad HH (X ! 9) 4 0xd9d4d039 (X ! 12) 11 0xe6db99e5 (X ! 15) 16 0x1fa27cf8 (X ! 2) 23 0xc4ac5665 =
     fold (rfc_step X) [44, 45, 46, 47]"
  "quad II (X ! 0) 6 0xf4292244 (X ! 7) 10 0x432aff97 (X ! 14) 15 0xab9423a7 (X ! 5) 21 0xfc93a039 =
     fold (rfc_step X) [48, 49, 50, 51]"
  "quad II (X ! 12) 6 0x655b59c3 (X ! 3) 10 0x8f0ccc92 (X ! 10) 15 0xffeff47d (X ! 1) 21 0x85845dd1 =
     fold (rfc_step X) [52, 53, 54, 55]"
  "quad II (X ! 8) 6 0x6fa87e4f (X ! 15) 10 0xfe2ce6e0 (X ! 6) 15 0xa3014314 (X ! 13) 21 0x4e0811a1 =
     fold (rfc_step X) [56, 57, 58, 59]"
  "quad II (X ! 4) 6 0xf7537e82 (X ! 11) 10 0xbd3af235 (X ! 2) 15 0x2ad7d2bb (X ! 9) 21 0xeb86d391 =
     fold (rfc_step X) [60, 61, 62, 63]"
  subgoal by (rule ext, use quad_fold[of 0 1 2 3 X] in \<open>simp add: md5_eval\<close>)
  subgoal by (rule ext, use quad_fold[of 4 5 6 7 X] in \<open>simp add: md5_eval\<close>)
  subgoal by (rule ext, use quad_fold[of 8 9 10 11 X] in \<open>simp add: md5_eval\<close>)
  subgoal by (rule ext, use quad_fold[of 12 13 14 15 X] in \<open>simp add: md5_eval\<close>)
  subgoal by (rule ext, use quad_fold[of 16 17 18 19 X] in \<open>simp add: md5_eval\<close>)
  subgoal by (rule ext, use quad_fold[of 20 21 22 23 X] in \<open>simp add: md5_eval\<close>)
  subgoal by (rule ext, use quad_fold[of 24 25 26 27 X] in \<open>simp add: md5_eval\<close>)
  subgoal by (rule ext, use quad_fold[of 28 29 30 31 X] in \<open>simp add: md5_eval\<close>)
  subgoal by (rule ext, use quad_fold[of 32 33 34 35 X] in \<open>simp add: md5_eval\<close>)
  subgoal by (rule ext, use quad_fold[of 36 37 38 39 X] in \<open>simp add: md5_eval\<close>)
  subgoal by (rule ext, use quad_fold[of 40 41 42 43 X] in \<open>simp add: md5_eval\<close>)
  subgoal by (rule ext, use quad_fold[of 44 45 46 47 X] in \<open>simp add: md5_eval\<close>)
  subgoal by (rule ext, use quad_fold[of 48 49 50 51 X] in \<open>simp add: md5_eval\<close>)
  subgoal by (rule ext, use quad_fold[of 52 53 54 55 X] in \<open>simp add: md5_eval\<close>)
  subgoal by (rule ext, use quad_fold[of 56 57 58 59 X] in \<open>simp add: md5_eval\<close>)
  subgoal by (rule ext, rule quad_fold[of 60 61 62 63 X, unfolded md5_last_steps]) simp_all
  done

lemma upt_64_blocks: "[0..<64] =
  [0, 1, 2, 3] @ [4, 5, 6, 7] @ [8, 9, 10, 11] @ [12, 13, 14, 15] @ [16, 17, 18, 19] @ [20, 21, 22, 23] @
  [24, 25, 26, 27] @ [28, 29, 30, 31] @ [32, 33, 34, 35] @ [36, 37, 38, 39] @ [40, 41, 42, 43] @
  [44, 45, 46, 47] @ [48, 49, 50, 51] @ [52, 53, 54, 55] @ [56, 57, 58, 59] @ [60, 61, 62, 63 :: nat]"
  by (simp add: upt_rec)

definition md5_tuple :: "u32 list \<Rightarrow> u32 \<times> u32 \<times> u32 \<times> u32" where
  "md5_tuple s = (s ! 0, s ! 1, s ! 2, s ! 3)"

lemma MD5Transform_rfc:
  assumes "length block = 64"
  shows "md5_tuple (MD5Transform state block) = rfc_block (md5_tuple state) block"
proof -
  have "MD5Transform state block =
    (case fold (rfc_step (le_words block)) [0..<64] (state ! 0, state ! 1, state ! 2, state ! 3) of
      (a, b, c, d) \<Rightarrow> [state ! 0 + a, state ! 1 + b, state ! 2 + c, state ! 3 + d])"
    unfolding MD5Transform_def MD5Decode_le_words[OF assms] quad_let[of FF] quad_let[of GG] quad_let[of HH]
      quad_let[of II] quads upt_64_blocks fold_append_case
    unfolding Let_def by (rule refl)
  then show ?thesis
    by (auto simp add: md5_tuple_def split: prod.splits)
qed

section \<open>The stream\<close>

lemma rfc_blocks_append:
  "rfc_blocks s (xs @ ys) = rfc_blocks (rfc_blocks s xs) (drop (64 * (length xs div 64)) xs @ ys)"
proof (induction s xs rule: rfc_blocks.induct)
  case (1 s xs)
  show ?case
  proof (cases "length xs < 64")
    case True
    then show ?thesis
      by (simp add: rfc_blocks.simps[of s xs])
  next
    case False
    then have d: "64 * (length xs div 64) = 64 * (length (drop 64 xs) div 64) + 64"
      by (simp add: le_div_geq)
    have "rfc_blocks s (xs @ ys) = rfc_blocks (rfc_block s (take 64 xs)) (drop 64 xs @ ys)"
      using False by (subst rfc_blocks.simps) simp
    also have "\<dots> = rfc_blocks (rfc_blocks s xs) (drop (64 * (length (drop 64 xs) div 64)) (drop 64 xs) @ ys)"
      using 1[OF False] False by (simp add: rfc_blocks.simps[of s xs])
    also have "drop (64 * (length (drop 64 xs) div 64)) (drop 64 xs) = drop (64 * (length xs div 64)) xs"
      unfolding d by (simp only: drop_drop)
    finally show ?thesis .
  qed
qed

lemma rfc_blocks_short: "length bs < 64 \<Longrightarrow> rfc_blocks s bs = s"
  by (simp add: rfc_blocks.simps)

lemma rfc_blocks_first: "64 \<le> length bs \<Longrightarrow>
    rfc_blocks s bs = rfc_blocks (rfc_block s (take 64 bs)) (drop 64 bs)"
  by (subst rfc_blocks.simps) simp

lemma length_Let: "(\<And>x. length (f x) = n) \<Longrightarrow> length (Let a f) = n"
  by (simp add: Let_def)

lemma length_MD5Transform [simp]: "length (MD5Transform state block) = 4"
  unfolding MD5Transform_def by (intro length_Let) simp

lemma md5_blocks_result:
  assumes "unat inputlen < 2 ^ 32 - 64" "unat inputlen \<le> length input" "i \<le> inputlen" "length state = 4"
  shows "\<exists>i' state'. md5_blocks input inputlen i state = Some (i', state') \<and>
      unat i' = unat i + 64 * ((unat inputlen - unat i) div 64) \<and> length state' = 4 \<and>
      md5_tuple state' = rfc_blocks (md5_tuple state) (drop (unat i) (take (unat inputlen) input))"
  using assms(3,4)
proof (induction "unat inputlen - unat i" arbitrary: i state rule: less_induct)
  case less
  have il: "unat i \<le> unat inputlen"
    using less.prems(1) by (simp add: word_le_nat_alt)
  show ?case
  proof (cases "unat i + 64 \<le> unat inputlen")
    case True
    have i64: "unat (i + 64) = unat i + 64"
      using True assms(1) by (simp add: unat_word_ariths)
    have le: "i + 64 \<le> inputlen"
      using True by (simp add: word_le_nat_alt i64)
    define t where "t = take 64 (drop (unat i) input)"
    have t: "t = take 64 (drop (unat i) (take (unat inputlen) input))"
      using True by (simp add: t_def drop_take min_def)
    have lt: "length t = 64"
      using True assms(2) by (simp add: t_def)
    have s: "md5_blocks input inputlen i state = md5_blocks input inputlen (i + 64) (MD5Transform state t)"
      using le True assms(2) by (subst md5_blocks.simps) (simp add: t_def)
    have dec: "unat inputlen - unat (i + 64) < unat inputlen - unat i"
      using True by (simp add: i64)
    obtain i' state' where r: "md5_blocks input inputlen (i + 64) (MD5Transform state t) = Some (i', state')"
      and i': "unat i' = unat (i + 64) + 64 * ((unat inputlen - unat (i + 64)) div 64)"
      and l: "length state' = 4"
      and m: "md5_tuple state' = rfc_blocks (md5_tuple (MD5Transform state t))
                (drop (unat (i + 64)) (take (unat inputlen) input))"
      using less.hyps[OF dec le length_MD5Transform[of state t]] by blast
    have d: "(unat inputlen - unat i) div 64 = Suc ((unat inputlen - unat (i + 64)) div 64)"
      using True unfolding i64 by (simp add: le_div_geq)
    have "md5_tuple state' = rfc_blocks (md5_tuple state) (drop (unat i) (take (unat inputlen) input))"
      using True assms(2) m unfolding i64 MD5Transform_rfc[OF lt]
      by (subst rfc_blocks_first) (simp_all add: t add.commute)
    then show ?thesis
      using s r i' l d by (simp add: i64)
  next
    case False
    have "\<not> i + 64 \<le> inputlen"
    proof -
      have "unat i + 64 < 2 ^ 32"
        using False il assms(1) by simp
      then have "unat (i + 64) = unat i + 64"
        by (simp add: unat_word_ariths)
      then show ?thesis
        using False by (simp add: word_le_nat_alt)
    qed
    then show ?thesis
      using False less.prems by (subst md5_blocks.simps) (simp add: rfc_blocks_short)
  qed
qed


definition md5_inv :: "md5_ctx \<Rightarrow> bytes \<Rightarrow> bool" where
  "md5_inv ctx msg \<longleftrightarrow>
     (\<exists>c0 c1. md5_count ctx = [c0, c1] \<and> unat c0 = 8 * length msg mod 2 ^ 32 \<and>
        unat c1 = 8 * length msg div 2 ^ 32 mod 2 ^ 32) \<and>
     length (md5_state ctx) = 4 \<and> length (md5_buffer ctx) = 64 \<and>
     md5_tuple (md5_state ctx) = rfc_blocks (0x67452301, 0xEFCDAB89, 0x98BADCFE, 0x10325476) msg \<and>
     take (length msg mod 64) (md5_buffer ctx) = drop (64 * (length msg div 64)) msg"

lemma md5_invI:
  assumes "md5_count ctx = [c0, c1]" "unat c0 = 8 * length msg mod 2 ^ 32"
    "unat c1 = 8 * length msg div 2 ^ 32 mod 2 ^ 32" "length (md5_state ctx) = 4" "length (md5_buffer ctx) = 64"
    "md5_tuple (md5_state ctx) = rfc_blocks (0x67452301, 0xEFCDAB89, 0x98BADCFE, 0x10325476) msg"
    "length msg = 64 * q + k" "k < 64" "take k (md5_buffer ctx) = drop (64 * q) msg"
  shows "md5_inv ctx msg"
proof -
  have "length msg div 64 = q" "length msg mod 64 = k"
    using assms(7,8) by simp_all
  then show ?thesis
    unfolding md5_inv_def using assms by blast
qed

lemma md5_inv_Init: "length (md5_buffer ctx) = 64 \<Longrightarrow> md5_inv (MD5Init ctx) []"
  by (simp add: md5_inv_def MD5Init_def md5_tuple_def rfc_blocks_short)

lemma md5_index:
  assumes "unat c0 = 8 * n mod 2 ^ 32"
  shows "unat (drop_bit 3 c0 AND 0x3F :: u32) = n mod 64"
proof -
  have m: "(0x3F :: u32) = mask 6"
    by (simp add: mask_eq_exp_minus_1)
  have "unat (drop_bit 3 c0 AND 0x3F :: u32) = unat c0 div 8 mod 64"
    unfolding m take_bit_eq_mask[symmetric] unsigned_take_bit_eq unat_drop_bit_eq
    by (simp add: take_bit_eq_mod drop_bit_eq_div)
  also have "\<dots> = n mod 64"
    unfolding assms by (simp add: mod_mult_mult1 [of 8 n "2 ^ 29", simplified] mod_mod_cancel)
  finally show ?thesis .
qed

lemma div_of_sum: "a < w \<Longrightarrow> b < w \<Longrightarrow> (a + b) div w = (if w \<le> a + b then 1 else 0 :: nat)"
  by (auto intro: div_nat_eqI)

lemma mod_of_sum: "a < w \<Longrightarrow> b < w \<Longrightarrow> (a + b) mod w < b \<longleftrightarrow> w \<le> a + (b :: nat)"
proof (cases "w \<le> a + b")
  case True
  assume "a < w" "b < w"
  with True show ?thesis
    by (simp add: le_mod_geq)
qed simp

lemma md5_count_step:
  fixes c0 c1 m :: u32
  assumes "unat c0 = N mod 2 ^ 32" "unat c1 = N div 2 ^ 32 mod 2 ^ 32"
  defines "l \<equiv> push_bit 3 m"
  defines "c0' \<equiv> c0 + l"
  defines "c1' \<equiv> (if c0' < l then c1 + 1 else c1) + drop_bit 29 m"
  shows "unat c0' = (N + 8 * unat m) mod 2 ^ 32" and "unat c1' = (N + 8 * unat m) div 2 ^ 32 mod 2 ^ 32"
proof -
  have l: "unat l = 8 * unat m mod 2 ^ 32"
    unfolding l_def push_bit_eq_mult by (simp add: unat_word_ariths mult.commute)
  show c0: "unat c0' = (N + 8 * unat m) mod 2 ^ 32"
    unfolding c0'_def unat_word_ariths l assms(1) by (simp add: mod_add_eq)
  have h: "unat (drop_bit 29 m) = 8 * unat m div 2 ^ 32"
    unfolding unat_drop_bit_eq unfolding drop_bit_eq_div by simp
  define a b where "a = N mod 2 ^ 32" and "b = 8 * unat m mod 2 ^ 32"
  have ab: "a < 2 ^ 32" "b < 2 ^ 32"
    by (simp_all add: a_def b_def)
  have ab': "(N + 8 * unat m) mod 2 ^ 32 = (a + b) mod 2 ^ 32"
    by (simp add: a_def b_def mod_add_eq)
  have c: "c0' < l \<longleftrightarrow> 2 ^ 32 \<le> a + b"
    unfolding word_less_nat_alt c0 l ab' b_def[symmetric] by (rule mod_of_sum[OF ab])
  have "(N + 8 * unat m) div 2 ^ 32 = N div 2 ^ 32 + 8 * unat m div 2 ^ 32 + (a + b) div 2 ^ 32"
    unfolding a_def b_def by (rule div_add1_eq)
  also have "(a + b) div 2 ^ 32 = (if 2 ^ 32 \<le> a + b then 1 else 0)"
    by (rule div_of_sum[OF ab])
  finally have "(N + 8 * unat m) div 2 ^ 32 = N div 2 ^ 32 + 8 * unat m div 2 ^ 32 +
      (if 2 ^ 32 \<le> a + b then 1 else 0)" .
  then show "unat c1' = (N + 8 * unat m) div 2 ^ 32 mod 2 ^ 32"
    unfolding c1'_def c unat_word_ariths by (simp add: unat_word_ariths h assms(2) mod_simps)
qed

lemma length_put_bytes [simp]: "at + length src \<le> length buf \<Longrightarrow> length (put_bytes buf at src) = length buf"
  by (simp add: put_bytes_def)

lemma take_put_bytes: "at + length src \<le> length buf \<Longrightarrow>
    take (at + length src) (put_bytes buf at src) = take at buf @ src"
  by (simp add: put_bytes_def)

lemma MD5Update_inv:
  assumes inv: "md5_inv ctx msg" and len: "unat n \<le> length input" and bound: "unat n < 2 ^ 32 - 64"
  shows "\<exists>ctx'. MD5Update ctx input n = Some ctx' \<and> md5_inv ctx' (msg @ take (unat n) input)"
proof -
  let ?init = "(0x67452301, 0xEFCDAB89, 0x98BADCFE, 0x10325476) :: u32 \<times> u32 \<times> u32 \<times> u32"
  obtain c0 c1 where c: "md5_count ctx = [c0, c1]" and c0: "unat c0 = 8 * length msg mod 2 ^ 32"
    and c1: "unat c1 = 8 * length msg div 2 ^ 32 mod 2 ^ 32"
    and ls: "length (md5_state ctx) = 4" and lb: "length (md5_buffer ctx) = 64"
    and st: "md5_tuple (md5_state ctx) = rfc_blocks ?init msg"
    and buf: "take (length msg mod 64) (md5_buffer ctx) = drop (64 * (length msg div 64)) msg"
    using inv unfolding md5_inv_def by blast
  define index where "index = drop_bit 3 c0 AND 0x3F"
  define k where "k = length msg mod 64"
  define input' where "input' = take (unat n) input"
  define q where "q = length msg div 64"
  have lq: "length msg = 64 * q + k"
    by (simp add: q_def k_def)
  have dq: "64 * (length msg div 64) = 64 * q"
    by (simp add: q_def)
  have buf': "take k (md5_buffer ctx) = drop (64 * q) msg"
    unfolding k_def q_def by (rule buf)
  have k: "k < 64" and index: "unat index = k"
    using md5_index[OF c0] by (simp_all add: index_def k_def)
  have li: "length input' = unat n"
    using len by (simp add: input'_def)
  have part: "unat (64 - index) = 64 - k"
    using k index by (simp add: unat_sub word_le_nat_alt)
  define count' where "count' = [c0 + push_bit 3 n, (if c0 + push_bit 3 n < push_bit 3 n then c1 + 1 else c1) + drop_bit 29 n]"
  have lm: "8 * length (msg @ input') = 8 * length msg + 8 * unat n"
    using li by simp
  note count = md5_count_step[OF c0 c1, of n, folded lm]
  show ?thesis
  proof (cases "64 - index \<le> n")
    case False
    then have f: "unat n < 64 - k"
      by (simp add: word_le_nat_alt part)
    define ctx' where "ctx' = ctx\<lparr>md5_count := count', md5_buffer := put_bytes (md5_buffer ctx) k input'\<rparr>"
    have upd: "MD5Update ctx input n = Some ctx'"
      using False len by (simp add: MD5Update_def c Let_def index_def[symmetric] index ctx'_def count'_def input'_def)
    have "md5_tuple (md5_state ctx') = rfc_blocks ?init (msg @ input')"
      unfolding rfc_blocks_append[of ?init msg input'] dq using f k st lq li
      by (simp add: ctx'_def rfc_blocks_short)
    moreover have "take (k + unat n) (md5_buffer ctx') = drop (64 * q) (msg @ input')"
      using take_put_bytes[of k input' "md5_buffer ctx"] f lb li buf' lq by (simp add: ctx'_def)
    ultimately have "md5_inv ctx' (msg @ input')"
      using f li lq ls lb by (intro md5_invI[OF _ count, where q = q and k = "k + unat n"])
        (simp_all add: ctx'_def count'_def)
    then show ?thesis
      using upd unfolding input'_def by blast
  next
    case True
    then have t: "64 - k \<le> unat n"
      by (simp add: word_le_nat_alt part)
    define first where "first = take (64 - k) input"
    define buf1 where "buf1 = put_bytes (md5_buffer ctx) k first"
    have lf: "length first = 64 - k"
      using t len by (simp add: first_def)
    have b1: "buf1 = drop (64 * q) msg @ first" "length buf1 = 64"
      using lf lb k buf' lq by (simp_all add: buf1_def put_bytes_def)
    obtain i state where bl: "md5_blocks input n (64 - index) (MD5Transform (md5_state ctx) buf1) = Some (i, state)"
      and i: "unat i = (64 - k) + 64 * ((unat n - (64 - k)) div 64)" and ls': "length state = 4"
      and st': "md5_tuple state = rfc_blocks (md5_tuple (MD5Transform (md5_state ctx) buf1)) (drop (64 - k) input')"
      using md5_blocks_result[OF bound len True length_MD5Transform[of "md5_state ctx" buf1]]
      unfolding part input'_def by blast
    define rest where "rest = take (unat (n - i)) (drop (unat i) input)"
    define ctx' where "ctx' = ctx\<lparr>md5_count := count', md5_state := state, md5_buffer := put_bytes buf1 0 rest\<rparr>"
    have upd: "MD5Update ctx input n = Some ctx'"
      using True len bl by (simp add: MD5Update_def c Let_def index_def[symmetric] index part ctx'_def count'_def
          first_def[symmetric] buf1_def[symmetric] rest_def)
    define D where "D = (unat n - (64 - k)) div 64"
    define r where "r = (unat n - (64 - k)) mod 64"
    have nD: "unat n = (64 - k) + 64 * D + r" and r: "r < 64"
      using t by (simp_all add: D_def r_def)
    have iD: "unat i = (64 - k) + 64 * D"
      using i by (simp add: D_def)
    have "unat (n - i) = unat n - unat i"
      using nD iD by (simp add: unat_sub word_le_nat_alt)
    then have rest: "rest = drop (unat i) input'" "length rest = r"
      using nD iD len by (simp_all add: rest_def input'_def drop_take)
    have "md5_tuple state = rfc_blocks ?init (msg @ input')"
    proof -
      have "drop (64 * q) msg @ input' = buf1 @ drop (64 - k) input'"
        using t by (simp add: b1(1) first_def input'_def drop_take take_add[symmetric])
      then have "rfc_blocks ?init (msg @ input') = rfc_blocks (md5_tuple (md5_state ctx)) (buf1 @ drop (64 - k) input')"
        unfolding rfc_blocks_append[of ?init msg input'] dq st by simp
      also have "\<dots> = rfc_blocks (rfc_block (md5_tuple (md5_state ctx)) buf1) (drop (64 - k) input')"
        by (subst rfc_blocks_first) (simp_all add: b1(2))
      finally show ?thesis
        unfolding st' MD5Transform_rfc[OF b1(2)] by simp
    qed
    moreover have "take r (md5_buffer ctx') = drop (64 * (q + 1 + D)) (msg @ input')"
      using take_put_bytes[of 0 rest buf1] rest r b1(2) lq iD k by (simp add: ctx'_def)
    ultimately have "md5_inv ctx' (msg @ input')"
      using r rest b1(2) ls' nD k li lq by (intro md5_invI[OF _ count, where q = "q + 1 + D" and k = r])
        (simp_all add: ctx'_def count'_def)
    then show ?thesis
      using upd unfolding input'_def by blast
  qed
qed


lemma mod_mult_div: "0 < a \<Longrightarrow> v mod (a * b) div a = v div a mod (b :: nat)"
  by (simp add: mod_mult2_eq)

lemma le_bytes_mod: "le_bytes n (v mod 256 ^ n) = le_bytes n v"
proof -
  have "(word_of_nat (v mod 256 ^ n div 256 ^ k) :: u8) = word_of_nat (v div 256 ^ k)" if "k < n" for k
  proof -
    define m where "m = n - Suc k"
    have m: "n = k + Suc m"
      using that by (simp add: m_def)
    have "v mod 256 ^ n div 256 ^ k = v div 256 ^ k mod 256 ^ Suc m"
      unfolding m power_add by (rule mod_mult_div) simp
    then have "v mod 256 ^ n div 256 ^ k mod 256 = v div 256 ^ k mod 256"
      by (simp add: mod_mod_cancel)
    then show ?thesis
      by (simp add: word_of_nat_eq_iff take_bit_eq_mod)
  qed
  then show ?thesis
    by (simp add: le_bytes_def)
qed

lemma le_bytes_append: "le_bytes (m + n) v = le_bytes m v @ le_bytes n (v div 256 ^ m)"
proof -
  have "map (\<lambda>k. word_of_nat (v div 256 ^ k) :: u8) [m..<m + n] =
      map (\<lambda>k. word_of_nat (v div 256 ^ m div 256 ^ k)) [0..<n]"
    by (rule nth_equalityI) (simp_all add: power_add div_mult2_eq)
  then show ?thesis
    unfolding le_bytes_def by (simp add: upt_add_eq_append[of 0 m n, simplified])
qed

lemma MD5Encode_count:
  assumes "unat c0 = v mod 2 ^ 32" "unat c1 = v div 2 ^ 32 mod 2 ^ 32"
  shows "MD5Encode [c0, c1] 8 = le_bytes 8 v"
proof -
  have "MD5Encode [c0, c1] 8 = le_bytes 4 (unat c0) @ le_bytes 4 (unat c1)"
    using MD5Encode_le_bytes[of "[c0, c1]"] by simp
  also have "\<dots> = le_bytes 4 v @ le_bytes 4 (v div 256 ^ 4)"
    using le_bytes_mod[of 4 v] le_bytes_mod[of 4 "v div 256 ^ 4"] assms by simp
  also have "\<dots> = le_bytes 8 v"
    using le_bytes_append[of 4 4 v] by simp
  finally show ?thesis .
qed

lemma md5_tuple_list: "length s = 4 \<Longrightarrow> md5_tuple s = (a, b, c, d) \<Longrightarrow> s = [a, b, c, d]"
  by (auto simp add: md5_tuple_def length_Suc_conv numeral_eq_Suc)

lemma MD5Final_rfc:
  assumes inv: "md5_inv ctx msg"
  shows "\<exists>ctx'. MD5Final ctx = Some (ctx', rfc_md5 msg)"
proof -
  obtain c0 c1 where c: "md5_count ctx = [c0, c1]" and c0: "unat c0 = 8 * length msg mod 2 ^ 32"
    and c1: "unat c1 = 8 * length msg div 2 ^ 32 mod 2 ^ 32"
    using inv unfolding md5_inv_def by blast
  define index where "index = drop_bit 3 c0 AND 0x3F"
  define k where "k = length msg mod 64"
  have k: "k < 64" and index: "unat index = k"
    using md5_index[OF c0] by (simp_all add: index_def k_def)
  define padlen where "padlen = (if index < 56 then 56 - index else 120 - index)"
  have padlen: "unat padlen = Suc ((119 - k) mod 64)"
    using k index by (auto simp add: padlen_def unat_sub word_le_nat_alt word_less_nat_alt mod_if)
  have pad: "take (unat padlen) PADDING = 0x80 # replicate ((119 - k) mod 64) 0"
    unfolding padlen PADDING_def by simp
  have le: "unat padlen \<le> 64"
    unfolding padlen by (simp add: Suc_le_eq)
  obtain ctx1 where u1: "MD5Update ctx PADDING padlen = Some ctx1"
    and i1: "md5_inv ctx1 (msg @ 0x80 # replicate ((119 - k) mod 64) 0)"
    using MD5Update_inv[OF inv, of padlen PADDING] le unfolding pad by (auto simp add: PADDING_def)
  obtain ctx2 where u2: "MD5Update ctx1 (le_bytes 8 (8 * length msg)) 8 = Some ctx2"
    and i2: "md5_inv ctx2 (rfc_pad msg)"
    using MD5Update_inv[OF i1, of 8 "le_bytes 8 (8 * length msg)"]
    by (auto simp add: le_bytes_def rfc_pad_def k_def)
  obtain a b c' d where t: "rfc_blocks (0x67452301, 0xEFCDAB89, 0x98BADCFE, 0x10325476) (rfc_pad msg) = (a, b, c', d)"
    by (metis prod.exhaust)
  have "md5_state ctx2 = [a, b, c', d]"
    using i2 t unfolding md5_inv_def by (intro md5_tuple_list) simp_all
  then have "MD5Encode (md5_state ctx2) 16 = rfc_md5 msg"
    using MD5Encode_le_bytes[of "md5_state ctx2"] by (simp add: rfc_md5_def t)
  then have "MD5Final ctx = Some (ctx2, rfc_md5 msg)"
    using u1 u2 by (simp add: MD5Final_def c Let_def index_def[symmetric] padlen_def[symmetric] MD5Encode_count[OF c0 c1])
  then show ?thesis ..
qed

fun md5_updates :: "bytes list \<Rightarrow> md5_ctx \<Rightarrow> md5_ctx option" where
  "md5_updates [] ctx = Some ctx"
| "md5_updates (bs # bss) ctx = do { ctx \<leftarrow> MD5Update ctx bs (word_of_nat (length bs)); md5_updates bss ctx }"

lemma md5_updates_inv:
  "md5_inv ctx msg \<Longrightarrow> \<forall>bs\<in>set bss. length bs < 2 ^ 32 - 64 \<Longrightarrow>
     \<exists>ctx'. md5_updates bss ctx = Some ctx' \<and> md5_inv ctx' (msg @ concat bss)"
proof (induction bss arbitrary: ctx msg)
  case Nil
  then show ?case by simp
next
  case (Cons bs bss)
  then have u: "unat (word_of_nat (length bs) :: u32) = length bs"
    by (simp add: unsigned_of_nat take_bit_nat_eq_self)
  obtain ctx1 where "MD5Update ctx bs (word_of_nat (length bs)) = Some ctx1" "md5_inv ctx1 (msg @ bs)"
    using MD5Update_inv[OF Cons.prems(1), of "word_of_nat (length bs)" bs] Cons.prems(2) u by auto
  then show ?case
    using Cons.IH[of ctx1 "msg @ bs"] Cons.prems(2) by auto
qed

text \<open>
  The bound on the length of a piece is needed. The loop compares \<open>i + 64\<close> with the length in 32 bits, so for
  a length of 2^32 - 64 or more a run that starts at a block boundary never leaves it.
\<close>

lemma md5_next_block:
  assumes "2 ^ 32 - 64 \<le> unat n" "unat i mod 64 = 0"
  shows "i + 64 \<le> n \<and> unat (i + 64 :: u32) mod 64 = 0"
proof -
  have m: "unat (i + 64) mod 64 = 0"
    using assms(2) by (simp add: unat_word_ariths mod_mod_cancel)
  then obtain q where q: "unat (i + 64) = 64 * q"
    by (metis mod_0_imp_dvd dvd_def)
  have "unat (i + 64) < 4294967296"
    using unsigned_less[of "i + 64"] by simp
  then have "unat (i + 64) \<le> 4294967232"
    unfolding q by simp
  then show ?thesis
    using m assms(1) by (simp add: word_le_nat_alt)
qed

lemma md5_blocks_never_ends:
  assumes "2 ^ 32 - 64 \<le> unat n" "unat i mod 64 = 0"
  shows "md5_blocks input n i state = None"
proof (rule ccontr)
  assume "md5_blocks input n i state \<noteq> None"
  then obtain r where r: "md5_blocks input n i state = Some r"
    by auto
  have "\<not> (2 ^ 32 - 64 \<le> unat n \<and> unat i mod 64 = 0)"
  proof (rule md5_blocks.raw_induct
      [where P = "\<lambda>input n i state r. \<not> (2 ^ 32 - 64 \<le> unat n \<and> unat i mod 64 = 0)", OF _ r])
    fix rec :: "bytes \<Rightarrow> u32 \<Rightarrow> u32 \<Rightarrow> u32 list \<Rightarrow> (u32 \<times> u32 list) option"
      and input inputlen i state y
    assume ih: "\<And>input n i state r. rec input n i state = Some r \<Longrightarrow> \<not> (2 ^ 32 - 64 \<le> unat n \<and> unat i mod 64 = 0)"
      and body: "(if i + 64 \<le> inputlen
         then if unat i + 64 \<le> length input
              then rec input inputlen (i + 64) (MD5Transform state (take 64 (drop (unat i) input))) else None
         else Some (i, state)) = Some y"
    show "\<not> (2 ^ 32 - 64 \<le> unat inputlen \<and> unat i mod 64 = 0)"
      using md5_next_block[of inputlen i] body
        ih[of input inputlen "i + 64" "MD5Transform state (take 64 (drop (unat i) input))" y]
      by (metis option.distinct(1))
  qed
  then show False
    using assms by simp
qed

text \<open>The reference on the message \<open>abc\<close> of the test suite of RFC 1321, four steps at a time.\<close>

definition abc_words :: "u32 list" where
  "abc_words = [0x80636261, 0, 0, 0, 0, 0, 0, 0, 0, 0, 0, 0, 0, 0, 24, 0]"

lemma abc_steps:
  "fold (rfc_step abc_words) [0, 1, 2, 3] (0x67452301, 0xefcdab89, 0x98badcfe, 0x10325476) =
     (0xd6d117b4, 0x7ad956f2, 0x2f6fbd72, 0x344a8432)"
  "fold (rfc_step abc_words) [4, 5, 6, 7] (0xd6d117b4, 0x7ad956f2, 0x2f6fbd72, 0x344a8432) =
     (0xc73741ef, 0x928d99f6, 0x207dc67b, 0x8bac3051)"
  "fold (rfc_step abc_words) [8, 9, 10, 11] (0xc73741ef, 0x928d99f6, 0x207dc67b, 0x8bac3051) =
     (0x854b3712, 0x5ed49596, 0x3020401c, 0x74e2f284)"
  "fold (rfc_step abc_words) [12, 13, 14, 15] (0x854b3712, 0x5ed49596, 0x3020401c, 0x74e2f284) =
     (0xdda9b9a6, 0x72aff2e0, 0xe396856b, 0xa1051895)"
  "fold (rfc_step abc_words) [16, 17, 18, 19] (0xdda9b9a6, 0x72aff2e0, 0xe396856b, 0xa1051895) =
     (0x3e9e9126, 0xb5b204e4, 0xe25e1652, 0x4a1d804e)"
  "fold (rfc_step abc_words) [20, 21, 22, 23] (0x3e9e9126, 0xb5b204e4, 0xe25e1652, 0x4a1d804e) =
     (0x59a8ffda, 0x47092c07, 0xabfc7920, 0x6d002f1e)"
  "fold (rfc_step abc_words) [24, 25, 26, 27] (0x59a8ffda, 0x47092c07, 0xabfc7920, 0x6d002f1e) =
     (0xb7f268cf, 0x786acb8f, 0xfe1623b1, 0x09388eff)"
  "fold (rfc_step abc_words) [28, 29, 30, 31] (0xb7f268cf, 0x786acb8f, 0xfe1623b1, 0x09388eff) =
     (0x790a77fb, 0x726342d3, 0xa62884aa, 0x9f47e4f8)"
  "fold (rfc_step abc_words) [32, 33, 34, 35] (0x790a77fb, 0x726342d3, 0xa62884aa, 0x9f47e4f8) =
     (0xb3707ebf, 0x3b0875c7, 0x8d212ff5, 0x60127b2e)"
  "fold (rfc_step abc_words) [36, 37, 38, 39] (0xb3707ebf, 0x3b0875c7, 0x8d212ff5, 0x60127b2e) =
     (0x21b117b9, 0x5a2f5ea5, 0x3575227e, 0x6e7429d5)"
  "fold (rfc_step abc_words) [40, 41, 42, 43] (0x21b117b9, 0x5a2f5ea5, 0x3575227e, 0x6e7429d5) =
     (0x11de1779, 0x4c6124f4, 0x31c465ca, 0xfadcaa38)"
  "fold (rfc_step abc_words) [44, 45, 46, 47] (0x11de1779, 0x4c6124f4, 0x31c465ca, 0xfadcaa38) =
     (0x7f2e507b, 0x7beb9700, 0x8fae6399, 0x99d9679d)"
  "fold (rfc_step abc_words) [48, 49, 50, 51] (0x7f2e507b, 0x7beb9700, 0x8fae6399, 0x99d9679d) =
     (0x7b201df8, 0x8bf025c4, 0xb298cefd, 0xf4e8e96e)"
  "fold (rfc_step abc_words) [52, 53, 54, 55] (0x7b201df8, 0x8bf025c4, 0xb298cefd, 0xf4e8e96e) =
     (0x06cc5e8a, 0x3bfa2c27, 0x7d632dd0, 0x5b0d97aa)"
  "fold (rfc_step abc_words) [56, 57, 58, 59] (0x06cc5e8a, 0x3bfa2c27, 0x7d632dd0, 0x5b0d97aa) =
     (0x7f81cc35, 0x7327d604, 0x4f9dbe3f, 0x094454ab)"
  "fold (rfc_step abc_words) [60, 61, 62, 63] (0x7f81cc35, 0x7327d604, 0x4f9dbe3f, 0x094454ab) =
     (0x310ade8f, 0xc08226b3, 0xe484b9d8, 0x624d8cb2)"
  by (simp_all add: abc_words_def rfc_step_code step_macro_def step_macros ROTATE_LEFT_def rfc_word_def
      rfc_shift_def rfc_T_def del: rfc_step.simps)

lemma rfc_md5_abc: "rfc_md5 [0x61, 0x62, 0x63] =
   [0x90, 0x01, 0x50, 0x98, 0x3C, 0xD2, 0x4F, 0xB0, 0xD6, 0x96, 0x3F, 0x7D, 0x28, 0xE1, 0x7F, 0x72]"
proof -
  have r: "replicate 52 0 = [0, 0, 0, 0, 0, 0, 0, 0, 0, 0, 0, 0, 0, 0, 0, 0, 0, 0, 0, 0, 0, 0, 0, 0, 0, 0,
      0, 0, 0, 0, 0, 0, 0, 0, 0, 0, 0, 0, 0, 0, 0, 0, 0, 0, 0, 0, 0, 0, 0, 0, 0, 0 :: u8]"
    by code_simp
  have p: "rfc_pad [0x61, 0x62, 0x63] =
    [0x61, 0x62, 0x63, 0x80,
     0, 0, 0, 0, 0, 0, 0, 0, 0, 0, 0, 0, 0, 0, 0, 0, 0, 0, 0, 0, 0, 0, 0, 0, 0, 0, 0, 0, 0, 0, 0, 0, 0,
     0, 0, 0, 0, 0, 0, 0, 0, 0, 0, 0, 0, 0, 0, 0, 0, 0, 0, 0, 24, 0, 0, 0, 0, 0, 0, 0]"
    using r by (simp add: rfc_pad_def le_bytes_def upt_rec)
  have w: "le_words (rfc_pad [0x61, 0x62, 0x63]) = abc_words"
    unfolding p by (simp add: le_words_def abc_words_def le32_def upt_rec)
  have l: "length (rfc_pad [0x61, 0x62, 0x63]) = 64"
    by (simp add: p)
  have f: "fold (rfc_step abc_words) [0..<64] (0x67452301, 0xEFCDAB89, 0x98BADCFE, 0x10325476) =
      (0x310ade8f, 0xc08226b3, 0xe484b9d8, 0x624d8cb2)"
    unfolding upt_64_blocks fold_append comp_def abc_steps by (rule refl)
  show ?thesis
    unfolding rfc_md5_def using l by (simp add: rfc_blocks_first rfc_blocks_short w f le_bytes_4)
qed

text \<open>
  C20: the digest of a message that arrives in pieces, each shorter than 2^32 - 64 bytes, is the digest
  that RFC 1321 gives for the whole message: the code always comes to a result, and the buffering of
  incomplete blocks, the 64-bit count and the two ways of padding agree with the standard.
\<close>

theorem md5_is_rfc1321:
  assumes "length (md5_buffer ctx) = 64" and "\<forall>bs\<in>set bss. length bs < 2 ^ 32 - 64"
  shows "\<exists>ctx'. do { ctx \<leftarrow> md5_updates bss (MD5Init ctx); MD5Final ctx } = Some (ctx', rfc_md5 (concat bss))"
  using md5_updates_inv[OF md5_inv_Init[OF assms(1)] assms(2)] MD5Final_rfc by fastforce

theorem md5_is_rfc1321_witness:
  "\<exists>ctx'. do { ctx \<leftarrow> md5_updates [[0x61], [], [0x62, 0x63]]
        (MD5Init \<lparr>md5_count = [], md5_state = [], md5_buffer = replicate 64 7\<rparr>); MD5Final ctx } =
     Some (ctx', [0x90, 0x01, 0x50, 0x98, 0x3C, 0xD2, 0x4F, 0xB0, 0xD6, 0x96, 0x3F, 0x7D, 0x28, 0xE1, 0x7F, 0x72])"
  using md5_is_rfc1321[of "\<lparr>md5_count = [], md5_state = [], md5_buffer = replicate 64 7\<rparr>"
      "[[0x61], [], [0x62, 0x63]]"] by (simp add: rfc_md5_abc)

end
