(* ===== verification/UserConfig.thy ===== *)
theory UserConfig
  imports CString
begin

text \<open>
  The user configuration of the driver (\<^verbatim>\<open>rwnx_platform.c\<close>, \<^verbatim>\<open>lmac_msg.h\<close>): the
  structure \<^verbatim>\<open>userconfig_info\<close> with its initial values, the keys of a configuration file and the
  members that each key sets, and the functions that copy parts of the structure. Numbers of eight bits are
  words, signed or not.
\<close>

section \<open>The structure\<close>

record txpwr_lvl_conf =
  lvl_enable :: u8
  lvl_dsss :: u8
  lvl_ofdmlowrate_2g4 :: u8
  lvl_ofdm64qam_2g4 :: u8
  lvl_ofdm256qam_2g4 :: u8
  lvl_ofdm1024qam_2g4 :: u8
  lvl_ofdmlowrate_5g :: u8
  lvl_ofdm64qam_5g :: u8
  lvl_ofdm256qam_5g :: u8
  lvl_ofdm1024qam_5g :: u8

text \<open>The structures of the later chips start with the members of the earlier ones.\<close>

record txpwr_lvl_conf_v2 =
  pw_enable :: u8
  pwrlvl_11b_11ag_2g4 :: "u8 list"
  pwrlvl_11n_11ac_2g4 :: "u8 list"
  pwrlvl_11ax_2g4 :: "u8 list"

record txpwr_lvl_conf_v3 = txpwr_lvl_conf_v2 +
  pwrlvl_11a_5g :: "u8 list"
  pwrlvl_11n_11ac_5g :: "u8 list"
  pwrlvl_11ax_5g :: "u8 list"

record txpwr_lvl_conf_v4 = txpwr_lvl_conf_v3 +
  pwrlvl_11a_6g :: "u8 list"
  pwrlvl_11n_11ac_6g :: "u8 list"
  pwrlvl_11ax_6g :: "u8 list"

record txpwr_lvl_adj_conf =
  adj_enable :: u8
  pwrlvl_adj_tbl_2g4 :: "u8 list"
  pwrlvl_adj_tbl_5g :: "u8 list"

record txpwr_loss_conf =
  loss_enable_2g4 :: u8
  loss_value_2g4 :: u8
  loss_enable_5g :: u8
  loss_value_5g :: u8

record txpwr_ofst_conf =
  ofst_enable :: u8
  ofst_chan_1_4 :: u8
  ofst_chan_5_9 :: u8
  ofst_chan_10_13 :: u8
  ofst_chan_36_64 :: u8
  ofst_chan_100_120 :: u8
  ofst_chan_122_140 :: u8
  ofst_chan_142_165 :: u8

record txpwr_ofst2x_conf =
  ofst2x_enable :: u8
  pwrofst2x_tbl_2g4 :: "u8 list list"
  pwrofst2x_tbl_5g :: "u8 list list"

record txpwr_ofst2x_conf_v2 =
  ofst2x_v2_enable :: u8
  pwrofst_flags :: u8
  pwrofst2x_tbl_2g4_ant0 :: "u8 list list"
  pwrofst2x_tbl_2g4_ant1 :: "u8 list list"
  pwrofst2x_tbl_5g_ant0 :: "u8 list list"
  pwrofst2x_tbl_5g_ant1 :: "u8 list list"
  pwrofst2x_tbl_6g_ant0 :: "u8 list"
  pwrofst2x_tbl_6g_ant1 :: "u8 list"

record xtal_cap_conf =
  xtal_enable :: u8
  xtal_cap :: u8
  xtal_cap_fine :: u8

record userconfig_info =
  txpwr_lvl :: txpwr_lvl_conf
  txpwr_lvl_v2 :: txpwr_lvl_conf_v2
  txpwr_lvl_v3 :: txpwr_lvl_conf_v3
  txpwr_lvl_v4 :: txpwr_lvl_conf_v4
  txpwr_lvl_adj :: txpwr_lvl_adj_conf
  txpwr_loss :: txpwr_loss_conf
  txpwr_ofst :: txpwr_ofst_conf
  txpwr_ofst2x :: txpwr_ofst2x_conf
  txpwr_ofst2x_v2 :: txpwr_ofst2x_conf_v2
  xtal_conf :: xtal_cap_conf

text \<open>The initial values; members that the initializer does not name are zero.\<close>

definition userconfig_info_init :: userconfig_info where
  "userconfig_info_init = \<lparr>
     txpwr_lvl = \<lparr>lvl_enable = 1, lvl_dsss = 9, lvl_ofdmlowrate_2g4 = 8, lvl_ofdm64qam_2g4 = 8,
       lvl_ofdm256qam_2g4 = 8, lvl_ofdm1024qam_2g4 = 8, lvl_ofdmlowrate_5g = 11, lvl_ofdm64qam_5g = 10,
       lvl_ofdm256qam_5g = 9, lvl_ofdm1024qam_5g = 9\<rparr>,
     txpwr_lvl_v2 = \<lparr>pw_enable = 1,
       pwrlvl_11b_11ag_2g4 = [20, 20, 20, 20, 20, 20, 20, 20, 18, 18, 16, 16],
       pwrlvl_11n_11ac_2g4 = [20, 20, 20, 20, 18, 18, 16, 16, 16, 16],
       pwrlvl_11ax_2g4 = [20, 20, 20, 20, 18, 18, 16, 16, 16, 16, 15, 15]\<rparr>,
     txpwr_lvl_v3 = \<lparr>pw_enable = 1,
       pwrlvl_11b_11ag_2g4 = [20, 20, 20, 20, 20, 20, 20, 20, 18, 18, 16, 16],
       pwrlvl_11n_11ac_2g4 = [20, 20, 20, 20, 18, 18, 16, 16, 16, 16],
       pwrlvl_11ax_2g4 = [20, 20, 20, 20, 18, 18, 16, 16, 16, 16, 15, 15],
       pwrlvl_11a_5g = [0x80, 0x80, 0x80, 0x80, 20, 20, 20, 20, 18, 18, 16, 16],
       pwrlvl_11n_11ac_5g = [20, 20, 20, 20, 18, 18, 16, 16, 16, 15],
       pwrlvl_11ax_5g = [20, 20, 20, 20, 18, 18, 16, 16, 16, 15, 14, 14]\<rparr>,
     txpwr_lvl_v4 = \<lparr>pw_enable = 1,
       pwrlvl_11b_11ag_2g4 = [20, 20, 20, 20, 20, 20, 20, 20, 18, 18, 16, 16],
       pwrlvl_11n_11ac_2g4 = [20, 20, 20, 20, 18, 18, 16, 16, 16, 16],
       pwrlvl_11ax_2g4 = [20, 20, 20, 20, 18, 18, 16, 16, 16, 16, 15, 15],
       pwrlvl_11a_5g = [20, 20, 20, 20, 18, 18, 16, 16],
       pwrlvl_11n_11ac_5g = [20, 20, 20, 20, 18, 18, 16, 16, 16, 15],
       pwrlvl_11ax_5g = [20, 20, 20, 20, 18, 18, 16, 16, 16, 15, 14, 14],
       pwrlvl_11a_6g = replicate 8 0, pwrlvl_11n_11ac_6g = replicate 10 0, pwrlvl_11ax_6g = replicate 12 0\<rparr>,
     txpwr_lvl_adj = \<lparr>adj_enable = 0, pwrlvl_adj_tbl_2g4 = replicate 3 0, pwrlvl_adj_tbl_5g = replicate 6 0\<rparr>,
     txpwr_loss = \<lparr>loss_enable_2g4 = 0, loss_value_2g4 = 0, loss_enable_5g = 0, loss_value_5g = 0\<rparr>,
     txpwr_ofst = \<lparr>ofst_enable = 1, ofst_chan_1_4 = 0, ofst_chan_5_9 = 0, ofst_chan_10_13 = 0, ofst_chan_36_64 = 0,
       ofst_chan_100_120 = 0, ofst_chan_122_140 = 0, ofst_chan_142_165 = 0\<rparr>,
     txpwr_ofst2x = \<lparr>ofst2x_enable = 0, pwrofst2x_tbl_2g4 = replicate 3 (replicate 3 0),
       pwrofst2x_tbl_5g = replicate 3 (replicate 6 0)\<rparr>,
     txpwr_ofst2x_v2 = \<lparr>ofst2x_v2_enable = 0, pwrofst_flags = 0,
       pwrofst2x_tbl_2g4_ant0 = replicate 3 (replicate 3 0), pwrofst2x_tbl_2g4_ant1 = replicate 3 (replicate 3 0),
       pwrofst2x_tbl_5g_ant0 = replicate 6 (replicate 3 0), pwrofst2x_tbl_5g_ant1 = replicate 6 (replicate 3 0),
       pwrofst2x_tbl_6g_ant0 = replicate 15 0, pwrofst2x_tbl_6g_ant1 = replicate 15 0\<rparr>,
     xtal_conf = \<lparr>xtal_enable = 0, xtal_cap = 24, xtal_cap_fine = 31\<rparr>\<rparr>"

section \<open>Its cells\<close>

text \<open>
  The members and elements that the keys of a file name, one datatype for each structure, and the
  assignment to a cell.
\<close>

datatype lvl_cell = Lvl_enable | Dsss | Ofdmlowrate_2g4 | Ofdm64qam_2g4 | Ofdm256qam_2g4 | Ofdm1024qam_2g4
  | Ofdmlowrate_5g | Ofdm64qam_5g | Ofdm256qam_5g | Ofdm1024qam_5g

datatype pw_cell = Enable | B_2g4 nat | N_2g4 nat | AX_2g4 nat

datatype pw5_cell = A_5g nat | N_5g nat | AX_5g nat

datatype adj_cell = Adj_enable | Adj_2g4 nat | Adj_5g nat

datatype loss_cell = Loss_enable_2g4 | Loss_value_2g4 | Loss_enable_5g | Loss_value_5g

datatype ofst_cell = Ofst_enable | Chan_1_4 | Chan_5_9 | Chan_10_13 | Chan_36_64 | Chan_100_120 | Chan_122_140
  | Chan_142_165

datatype ofst2x_cell = Ofst2x_enable | Ofst2x_2g4 nat nat | Ofst2x_5g nat nat

datatype ofst2x_v2_cell = V2_enable | V2_2g4_ant0 nat nat | V2_2g4_ant1 nat nat | V2_5g_ant0 nat nat
  | V2_5g_ant1 nat nat

datatype xtal_cell = Xtal_enable | Xtal_cap | Xtal_cap_fine

datatype cell = C_lvl lvl_cell | C_v2 pw_cell | C_v3 pw_cell | C_v3_5g pw5_cell | C_v4 pw_cell | C_v4_5g pw5_cell
  | C_adj adj_cell | C_loss loss_cell | C_ofst ofst_cell | C_ofst2x ofst2x_cell | C_ofst2x_v2 ofst2x_v2_cell
  | C_xtal xtal_cell

definition upd2 :: "nat \<Rightarrow> nat \<Rightarrow> 'a \<Rightarrow> 'a list list \<Rightarrow> 'a list list" where
  "upd2 i j v t = t[i := (t ! i)[j := v]]"

primrec put_lvl :: "lvl_cell \<Rightarrow> u8 \<Rightarrow> txpwr_lvl_conf \<Rightarrow> txpwr_lvl_conf" where
  "put_lvl Lvl_enable v s = s\<lparr>lvl_enable := v\<rparr>"
| "put_lvl Dsss v s = s\<lparr>lvl_dsss := v\<rparr>"
| "put_lvl Ofdmlowrate_2g4 v s = s\<lparr>lvl_ofdmlowrate_2g4 := v\<rparr>"
| "put_lvl Ofdm64qam_2g4 v s = s\<lparr>lvl_ofdm64qam_2g4 := v\<rparr>"
| "put_lvl Ofdm256qam_2g4 v s = s\<lparr>lvl_ofdm256qam_2g4 := v\<rparr>"
| "put_lvl Ofdm1024qam_2g4 v s = s\<lparr>lvl_ofdm1024qam_2g4 := v\<rparr>"
| "put_lvl Ofdmlowrate_5g v s = s\<lparr>lvl_ofdmlowrate_5g := v\<rparr>"
| "put_lvl Ofdm64qam_5g v s = s\<lparr>lvl_ofdm64qam_5g := v\<rparr>"
| "put_lvl Ofdm256qam_5g v s = s\<lparr>lvl_ofdm256qam_5g := v\<rparr>"
| "put_lvl Ofdm1024qam_5g v s = s\<lparr>lvl_ofdm1024qam_5g := v\<rparr>"

primrec get_lvl :: "lvl_cell \<Rightarrow> txpwr_lvl_conf \<Rightarrow> u8" where
  "get_lvl Lvl_enable s = lvl_enable s"
| "get_lvl Dsss s = lvl_dsss s"
| "get_lvl Ofdmlowrate_2g4 s = lvl_ofdmlowrate_2g4 s"
| "get_lvl Ofdm64qam_2g4 s = lvl_ofdm64qam_2g4 s"
| "get_lvl Ofdm256qam_2g4 s = lvl_ofdm256qam_2g4 s"
| "get_lvl Ofdm1024qam_2g4 s = lvl_ofdm1024qam_2g4 s"
| "get_lvl Ofdmlowrate_5g s = lvl_ofdmlowrate_5g s"
| "get_lvl Ofdm64qam_5g s = lvl_ofdm64qam_5g s"
| "get_lvl Ofdm256qam_5g s = lvl_ofdm256qam_5g s"
| "get_lvl Ofdm1024qam_5g s = lvl_ofdm1024qam_5g s"

primrec put_pw :: "pw_cell \<Rightarrow> u8 \<Rightarrow> 'a txpwr_lvl_conf_v2_scheme \<Rightarrow> 'a txpwr_lvl_conf_v2_scheme" where
  "put_pw Enable v s = s\<lparr>pw_enable := v\<rparr>"
| "put_pw (B_2g4 i) v s = s\<lparr>pwrlvl_11b_11ag_2g4 := (pwrlvl_11b_11ag_2g4 s)[i := v]\<rparr>"
| "put_pw (N_2g4 i) v s = s\<lparr>pwrlvl_11n_11ac_2g4 := (pwrlvl_11n_11ac_2g4 s)[i := v]\<rparr>"
| "put_pw (AX_2g4 i) v s = s\<lparr>pwrlvl_11ax_2g4 := (pwrlvl_11ax_2g4 s)[i := v]\<rparr>"

primrec get_pw :: "pw_cell \<Rightarrow> 'a txpwr_lvl_conf_v2_scheme \<Rightarrow> u8" where
  "get_pw Enable s = pw_enable s"
| "get_pw (B_2g4 i) s = pwrlvl_11b_11ag_2g4 s ! i"
| "get_pw (N_2g4 i) s = pwrlvl_11n_11ac_2g4 s ! i"
| "get_pw (AX_2g4 i) s = pwrlvl_11ax_2g4 s ! i"

primrec put_pw5 :: "pw5_cell \<Rightarrow> u8 \<Rightarrow> 'a txpwr_lvl_conf_v3_scheme \<Rightarrow> 'a txpwr_lvl_conf_v3_scheme" where
  "put_pw5 (A_5g i) v s = s\<lparr>pwrlvl_11a_5g := (pwrlvl_11a_5g s)[i := v]\<rparr>"
| "put_pw5 (N_5g i) v s = s\<lparr>pwrlvl_11n_11ac_5g := (pwrlvl_11n_11ac_5g s)[i := v]\<rparr>"
| "put_pw5 (AX_5g i) v s = s\<lparr>pwrlvl_11ax_5g := (pwrlvl_11ax_5g s)[i := v]\<rparr>"

primrec get_pw5 :: "pw5_cell \<Rightarrow> 'a txpwr_lvl_conf_v3_scheme \<Rightarrow> u8" where
  "get_pw5 (A_5g i) s = pwrlvl_11a_5g s ! i"
| "get_pw5 (N_5g i) s = pwrlvl_11n_11ac_5g s ! i"
| "get_pw5 (AX_5g i) s = pwrlvl_11ax_5g s ! i"

primrec put_adj :: "adj_cell \<Rightarrow> u8 \<Rightarrow> txpwr_lvl_adj_conf \<Rightarrow> txpwr_lvl_adj_conf" where
  "put_adj Adj_enable v s = s\<lparr>adj_enable := v\<rparr>"
| "put_adj (Adj_2g4 i) v s = s\<lparr>pwrlvl_adj_tbl_2g4 := (pwrlvl_adj_tbl_2g4 s)[i := v]\<rparr>"
| "put_adj (Adj_5g i) v s = s\<lparr>pwrlvl_adj_tbl_5g := (pwrlvl_adj_tbl_5g s)[i := v]\<rparr>"

primrec get_adj :: "adj_cell \<Rightarrow> txpwr_lvl_adj_conf \<Rightarrow> u8" where
  "get_adj Adj_enable s = adj_enable s"
| "get_adj (Adj_2g4 i) s = pwrlvl_adj_tbl_2g4 s ! i"
| "get_adj (Adj_5g i) s = pwrlvl_adj_tbl_5g s ! i"

primrec put_loss :: "loss_cell \<Rightarrow> u8 \<Rightarrow> txpwr_loss_conf \<Rightarrow> txpwr_loss_conf" where
  "put_loss Loss_enable_2g4 v s = s\<lparr>loss_enable_2g4 := v\<rparr>"
| "put_loss Loss_value_2g4 v s = s\<lparr>loss_value_2g4 := v\<rparr>"
| "put_loss Loss_enable_5g v s = s\<lparr>loss_enable_5g := v\<rparr>"
| "put_loss Loss_value_5g v s = s\<lparr>loss_value_5g := v\<rparr>"

primrec get_loss :: "loss_cell \<Rightarrow> txpwr_loss_conf \<Rightarrow> u8" where
  "get_loss Loss_enable_2g4 s = loss_enable_2g4 s"
| "get_loss Loss_value_2g4 s = loss_value_2g4 s"
| "get_loss Loss_enable_5g s = loss_enable_5g s"
| "get_loss Loss_value_5g s = loss_value_5g s"

primrec put_ofst :: "ofst_cell \<Rightarrow> u8 \<Rightarrow> txpwr_ofst_conf \<Rightarrow> txpwr_ofst_conf" where
  "put_ofst Ofst_enable v s = s\<lparr>ofst_enable := v\<rparr>"
| "put_ofst Chan_1_4 v s = s\<lparr>ofst_chan_1_4 := v\<rparr>"
| "put_ofst Chan_5_9 v s = s\<lparr>ofst_chan_5_9 := v\<rparr>"
| "put_ofst Chan_10_13 v s = s\<lparr>ofst_chan_10_13 := v\<rparr>"
| "put_ofst Chan_36_64 v s = s\<lparr>ofst_chan_36_64 := v\<rparr>"
| "put_ofst Chan_100_120 v s = s\<lparr>ofst_chan_100_120 := v\<rparr>"
| "put_ofst Chan_122_140 v s = s\<lparr>ofst_chan_122_140 := v\<rparr>"
| "put_ofst Chan_142_165 v s = s\<lparr>ofst_chan_142_165 := v\<rparr>"

primrec get_ofst :: "ofst_cell \<Rightarrow> txpwr_ofst_conf \<Rightarrow> u8" where
  "get_ofst Ofst_enable s = ofst_enable s"
| "get_ofst Chan_1_4 s = ofst_chan_1_4 s"
| "get_ofst Chan_5_9 s = ofst_chan_5_9 s"
| "get_ofst Chan_10_13 s = ofst_chan_10_13 s"
| "get_ofst Chan_36_64 s = ofst_chan_36_64 s"
| "get_ofst Chan_100_120 s = ofst_chan_100_120 s"
| "get_ofst Chan_122_140 s = ofst_chan_122_140 s"
| "get_ofst Chan_142_165 s = ofst_chan_142_165 s"

primrec put_ofst2x :: "ofst2x_cell \<Rightarrow> u8 \<Rightarrow> txpwr_ofst2x_conf \<Rightarrow> txpwr_ofst2x_conf" where
  "put_ofst2x Ofst2x_enable v s = s\<lparr>ofst2x_enable := v\<rparr>"
| "put_ofst2x (Ofst2x_2g4 i j) v s = s\<lparr>pwrofst2x_tbl_2g4 := upd2 i j v (pwrofst2x_tbl_2g4 s)\<rparr>"
| "put_ofst2x (Ofst2x_5g i j) v s = s\<lparr>pwrofst2x_tbl_5g := upd2 i j v (pwrofst2x_tbl_5g s)\<rparr>"

primrec get_ofst2x :: "ofst2x_cell \<Rightarrow> txpwr_ofst2x_conf \<Rightarrow> u8" where
  "get_ofst2x Ofst2x_enable s = ofst2x_enable s"
| "get_ofst2x (Ofst2x_2g4 i j) s = pwrofst2x_tbl_2g4 s ! i ! j"
| "get_ofst2x (Ofst2x_5g i j) s = pwrofst2x_tbl_5g s ! i ! j"

primrec put_ofst2x_v2 :: "ofst2x_v2_cell \<Rightarrow> u8 \<Rightarrow> txpwr_ofst2x_conf_v2 \<Rightarrow> txpwr_ofst2x_conf_v2" where
  "put_ofst2x_v2 V2_enable v s = s\<lparr>ofst2x_v2_enable := v\<rparr>"
| "put_ofst2x_v2 (V2_2g4_ant0 i j) v s = s\<lparr>pwrofst2x_tbl_2g4_ant0 := upd2 i j v (pwrofst2x_tbl_2g4_ant0 s)\<rparr>"
| "put_ofst2x_v2 (V2_2g4_ant1 i j) v s = s\<lparr>pwrofst2x_tbl_2g4_ant1 := upd2 i j v (pwrofst2x_tbl_2g4_ant1 s)\<rparr>"
| "put_ofst2x_v2 (V2_5g_ant0 i j) v s = s\<lparr>pwrofst2x_tbl_5g_ant0 := upd2 i j v (pwrofst2x_tbl_5g_ant0 s)\<rparr>"
| "put_ofst2x_v2 (V2_5g_ant1 i j) v s = s\<lparr>pwrofst2x_tbl_5g_ant1 := upd2 i j v (pwrofst2x_tbl_5g_ant1 s)\<rparr>"

primrec get_ofst2x_v2 :: "ofst2x_v2_cell \<Rightarrow> txpwr_ofst2x_conf_v2 \<Rightarrow> u8" where
  "get_ofst2x_v2 V2_enable s = ofst2x_v2_enable s"
| "get_ofst2x_v2 (V2_2g4_ant0 i j) s = pwrofst2x_tbl_2g4_ant0 s ! i ! j"
| "get_ofst2x_v2 (V2_2g4_ant1 i j) s = pwrofst2x_tbl_2g4_ant1 s ! i ! j"
| "get_ofst2x_v2 (V2_5g_ant0 i j) s = pwrofst2x_tbl_5g_ant0 s ! i ! j"
| "get_ofst2x_v2 (V2_5g_ant1 i j) s = pwrofst2x_tbl_5g_ant1 s ! i ! j"

primrec put_xtal :: "xtal_cell \<Rightarrow> u8 \<Rightarrow> xtal_cap_conf \<Rightarrow> xtal_cap_conf" where
  "put_xtal Xtal_enable v s = s\<lparr>xtal_enable := v\<rparr>"
| "put_xtal Xtal_cap v s = s\<lparr>xtal_cap := v\<rparr>"
| "put_xtal Xtal_cap_fine v s = s\<lparr>xtal_cap_fine := v\<rparr>"

primrec get_xtal :: "xtal_cell \<Rightarrow> xtal_cap_conf \<Rightarrow> u8" where
  "get_xtal Xtal_enable s = xtal_enable s"
| "get_xtal Xtal_cap s = xtal_cap s"
| "get_xtal Xtal_cap_fine s = xtal_cap_fine s"

primrec put_cell :: "u8 \<Rightarrow> cell \<Rightarrow> userconfig_info \<Rightarrow> userconfig_info" where
  "put_cell v (C_lvl c) U = U\<lparr>txpwr_lvl := put_lvl c v (txpwr_lvl U)\<rparr>"
| "put_cell v (C_v2 c) U = U\<lparr>txpwr_lvl_v2 := put_pw c v (txpwr_lvl_v2 U)\<rparr>"
| "put_cell v (C_v3 c) U = U\<lparr>txpwr_lvl_v3 := put_pw c v (txpwr_lvl_v3 U)\<rparr>"
| "put_cell v (C_v3_5g c) U = U\<lparr>txpwr_lvl_v3 := put_pw5 c v (txpwr_lvl_v3 U)\<rparr>"
| "put_cell v (C_v4 c) U = U\<lparr>txpwr_lvl_v4 := put_pw c v (txpwr_lvl_v4 U)\<rparr>"
| "put_cell v (C_v4_5g c) U = U\<lparr>txpwr_lvl_v4 := put_pw5 c v (txpwr_lvl_v4 U)\<rparr>"
| "put_cell v (C_adj c) U = U\<lparr>txpwr_lvl_adj := put_adj c v (txpwr_lvl_adj U)\<rparr>"
| "put_cell v (C_loss c) U = U\<lparr>txpwr_loss := put_loss c v (txpwr_loss U)\<rparr>"
| "put_cell v (C_ofst c) U = U\<lparr>txpwr_ofst := put_ofst c v (txpwr_ofst U)\<rparr>"
| "put_cell v (C_ofst2x c) U = U\<lparr>txpwr_ofst2x := put_ofst2x c v (txpwr_ofst2x U)\<rparr>"
| "put_cell v (C_ofst2x_v2 c) U = U\<lparr>txpwr_ofst2x_v2 := put_ofst2x_v2 c v (txpwr_ofst2x_v2 U)\<rparr>"
| "put_cell v (C_xtal c) U = U\<lparr>xtal_conf := put_xtal c v (xtal_conf U)\<rparr>"

primrec get_cell :: "cell \<Rightarrow> userconfig_info \<Rightarrow> u8" where
  "get_cell (C_lvl c) U = get_lvl c (txpwr_lvl U)"
| "get_cell (C_v2 c) U = get_pw c (txpwr_lvl_v2 U)"
| "get_cell (C_v3 c) U = get_pw c (txpwr_lvl_v3 U)"
| "get_cell (C_v3_5g c) U = get_pw5 c (txpwr_lvl_v3 U)"
| "get_cell (C_v4 c) U = get_pw c (txpwr_lvl_v4 U)"
| "get_cell (C_v4_5g c) U = get_pw5 c (txpwr_lvl_v4 U)"
| "get_cell (C_adj c) U = get_adj c (txpwr_lvl_adj U)"
| "get_cell (C_loss c) U = get_loss c (txpwr_loss U)"
| "get_cell (C_ofst c) U = get_ofst c (txpwr_ofst U)"
| "get_cell (C_ofst2x c) U = get_ofst2x c (txpwr_ofst2x U)"
| "get_cell (C_ofst2x_v2 c) U = get_ofst2x_v2 c (txpwr_ofst2x_v2 U)"
| "get_cell (C_xtal c) U = get_xtal c (xtal_conf U)"

section \<open>The keys\<close>

text \<open>
  The branches of \<open>rwnx_plat_nvram_set_value\<close> and of its variant for the 8800D80X2, in their order: a key and the
  cells that get its value.
\<close>

definition nvram_lvl :: "(string \<times> cell list) list" where
  "nvram_lvl = [
    (''enable'', [C_lvl Lvl_enable, C_v2 Enable, C_v3 Enable]),
    (''dsss'', [C_lvl Dsss]),
    (''ofdmlowrate_2g4'', [C_lvl Ofdmlowrate_2g4]),
    (''ofdm64qam_2g4'', [C_lvl Ofdm64qam_2g4]),
    (''ofdm256qam_2g4'', [C_lvl Ofdm256qam_2g4]),
    (''ofdm1024qam_2g4'', [C_lvl Ofdm1024qam_2g4]),
    (''ofdmlowrate_5g'', [C_lvl Ofdmlowrate_5g]),
    (''ofdm64qam_5g'', [C_lvl Ofdm64qam_5g]),
    (''ofdm256qam_5g'', [C_lvl Ofdm256qam_5g]),
    (''ofdm1024qam_5g'', [C_lvl Ofdm1024qam_5g])]"

definition nvram_lvl_2g4 :: "(string \<times> cell list) list" where
  "nvram_lvl_2g4 = [
    (''lvl_11b_11ag_1m_2g4'', [C_v2 (B_2g4 0), C_v3 (B_2g4 0)]),
    (''lvl_11b_11ag_2m_2g4'', [C_v2 (B_2g4 1), C_v3 (B_2g4 1)]),
    (''lvl_11b_11ag_5m5_2g4'', [C_v2 (B_2g4 2), C_v3 (B_2g4 2)]),
    (''lvl_11b_11ag_11m_2g4'', [C_v2 (B_2g4 3), C_v3 (B_2g4 3)]),
    (''lvl_11b_11ag_6m_2g4'', [C_v2 (B_2g4 4), C_v3 (B_2g4 4)]),
    (''lvl_11b_11ag_9m_2g4'', [C_v2 (B_2g4 5), C_v3 (B_2g4 5)]),
    (''lvl_11b_11ag_12m_2g4'', [C_v2 (B_2g4 6), C_v3 (B_2g4 6)]),
    (''lvl_11b_11ag_18m_2g4'', [C_v2 (B_2g4 7), C_v3 (B_2g4 7)]),
    (''lvl_11b_11ag_24m_2g4'', [C_v2 (B_2g4 8), C_v3 (B_2g4 8)]),
    (''lvl_11b_11ag_36m_2g4'', [C_v2 (B_2g4 9), C_v3 (B_2g4 9)]),
    (''lvl_11b_11ag_48m_2g4'', [C_v2 (B_2g4 10), C_v3 (B_2g4 10)]),
    (''lvl_11b_11ag_54m_2g4'', [C_v2 (B_2g4 11), C_v3 (B_2g4 11)]),
    (''lvl_11n_11ac_mcs0_2g4'', [C_v2 (N_2g4 0), C_v3 (N_2g4 0)]),
    (''lvl_11n_11ac_mcs1_2g4'', [C_v2 (N_2g4 1), C_v3 (N_2g4 1)]),
    (''lvl_11n_11ac_mcs2_2g4'', [C_v2 (N_2g4 2), C_v3 (N_2g4 2)]),
    (''lvl_11n_11ac_mcs3_2g4'', [C_v2 (N_2g4 3), C_v3 (N_2g4 3)]),
    (''lvl_11n_11ac_mcs4_2g4'', [C_v2 (N_2g4 4), C_v3 (N_2g4 4)]),
    (''lvl_11n_11ac_mcs5_2g4'', [C_v2 (N_2g4 5), C_v3 (N_2g4 5)]),
    (''lvl_11n_11ac_mcs6_2g4'', [C_v2 (N_2g4 6), C_v3 (N_2g4 6)]),
    (''lvl_11n_11ac_mcs7_2g4'', [C_v2 (N_2g4 7), C_v3 (N_2g4 7)]),
    (''lvl_11n_11ac_mcs8_2g4'', [C_v2 (N_2g4 8), C_v3 (N_2g4 8)]),
    (''lvl_11n_11ac_mcs9_2g4'', [C_v2 (N_2g4 9), C_v3 (N_2g4 9)]),
    (''lvl_11ax_mcs0_2g4'', [C_v2 (AX_2g4 0), C_v3 (AX_2g4 0)]),
    (''lvl_11ax_mcs1_2g4'', [C_v2 (AX_2g4 1), C_v3 (AX_2g4 1)]),
    (''lvl_11ax_mcs2_2g4'', [C_v2 (AX_2g4 2), C_v3 (AX_2g4 2)]),
    (''lvl_11ax_mcs3_2g4'', [C_v2 (AX_2g4 3), C_v3 (AX_2g4 3)]),
    (''lvl_11ax_mcs4_2g4'', [C_v2 (AX_2g4 4), C_v3 (AX_2g4 4)]),
    (''lvl_11ax_mcs5_2g4'', [C_v2 (AX_2g4 5), C_v3 (AX_2g4 5)]),
    (''lvl_11ax_mcs6_2g4'', [C_v2 (AX_2g4 6), C_v3 (AX_2g4 6)]),
    (''lvl_11ax_mcs7_2g4'', [C_v2 (AX_2g4 7), C_v3 (AX_2g4 7)]),
    (''lvl_11ax_mcs8_2g4'', [C_v2 (AX_2g4 8), C_v3 (AX_2g4 8)]),
    (''lvl_11ax_mcs9_2g4'', [C_v2 (AX_2g4 9), C_v3 (AX_2g4 9)]),
    (''lvl_11ax_mcs10_2g4'', [C_v2 (AX_2g4 10), C_v3 (AX_2g4 10)]),
    (''lvl_11ax_mcs11_2g4'', [C_v2 (AX_2g4 11), C_v3 (AX_2g4 11)])]"

definition nvram_lvl_5g :: "(string \<times> cell list) list" where
  "nvram_lvl_5g = [
    (''lvl_11a_1m_5g'', [C_v3_5g (A_5g 0)]),
    (''lvl_11a_2m_5g'', [C_v3_5g (A_5g 1)]),
    (''lvl_11a_5m5_5g'', [C_v3_5g (A_5g 2)]),
    (''lvl_11a_11m_5g'', [C_v3_5g (A_5g 3)]),
    (''lvl_11a_6m_5g'', [C_v3_5g (A_5g 4)]),
    (''lvl_11a_9m_5g'', [C_v3_5g (A_5g 5)]),
    (''lvl_11a_12m_5g'', [C_v3_5g (A_5g 6)]),
    (''lvl_11a_18m_5g'', [C_v3_5g (A_5g 7)]),
    (''lvl_11a_24m_5g'', [C_v3_5g (A_5g 8)]),
    (''lvl_11a_36m_5g'', [C_v3_5g (A_5g 9)]),
    (''lvl_11a_48m_5g'', [C_v3_5g (A_5g 10)]),
    (''lvl_11a_54m_5g'', [C_v3_5g (A_5g 11)]),
    (''lvl_11n_11ac_mcs0_5g'', [C_v3_5g (N_5g 0)]),
    (''lvl_11n_11ac_mcs1_5g'', [C_v3_5g (N_5g 1)]),
    (''lvl_11n_11ac_mcs2_5g'', [C_v3_5g (N_5g 2)]),
    (''lvl_11n_11ac_mcs3_5g'', [C_v3_5g (N_5g 3)]),
    (''lvl_11n_11ac_mcs4_5g'', [C_v3_5g (N_5g 4)]),
    (''lvl_11n_11ac_mcs5_5g'', [C_v3_5g (N_5g 5)]),
    (''lvl_11n_11ac_mcs6_5g'', [C_v3_5g (N_5g 6)]),
    (''lvl_11n_11ac_mcs7_5g'', [C_v3_5g (N_5g 7)]),
    (''lvl_11n_11ac_mcs8_5g'', [C_v3_5g (N_5g 8)]),
    (''lvl_11n_11ac_mcs9_5g'', [C_v3_5g (N_5g 9)]),
    (''lvl_11ax_mcs0_5g'', [C_v3_5g (AX_5g 0)]),
    (''lvl_11ax_mcs1_5g'', [C_v3_5g (AX_5g 1)]),
    (''lvl_11ax_mcs2_5g'', [C_v3_5g (AX_5g 2)]),
    (''lvl_11ax_mcs3_5g'', [C_v3_5g (AX_5g 3)]),
    (''lvl_11ax_mcs4_5g'', [C_v3_5g (AX_5g 4)]),
    (''lvl_11ax_mcs5_5g'', [C_v3_5g (AX_5g 5)]),
    (''lvl_11ax_mcs6_5g'', [C_v3_5g (AX_5g 6)]),
    (''lvl_11ax_mcs7_5g'', [C_v3_5g (AX_5g 7)]),
    (''lvl_11ax_mcs8_5g'', [C_v3_5g (AX_5g 8)]),
    (''lvl_11ax_mcs9_5g'', [C_v3_5g (AX_5g 9)]),
    (''lvl_11ax_mcs10_5g'', [C_v3_5g (AX_5g 10)]),
    (''lvl_11ax_mcs11_5g'', [C_v3_5g (AX_5g 11)])]"

definition nvram_adj :: "(string \<times> cell list) list" where
  "nvram_adj = [
    (''lvl_adj_enable'', [C_adj Adj_enable]),
    (''lvl_adj_2g4_chan_1_4'', [C_adj (Adj_2g4 0)]),
    (''lvl_adj_2g4_chan_5_9'', [C_adj (Adj_2g4 1)]),
    (''lvl_adj_2g4_chan_10_13'', [C_adj (Adj_2g4 2)]),
    (''lvl_adj_5g_chan_42'', [C_adj (Adj_5g 0)]),
    (''lvl_adj_5g_chan_58'', [C_adj (Adj_5g 1)]),
    (''lvl_adj_5g_chan_106'', [C_adj (Adj_5g 2)]),
    (''lvl_adj_5g_chan_122'', [C_adj (Adj_5g 3)]),
    (''lvl_adj_5g_chan_138'', [C_adj (Adj_5g 4)]),
    (''lvl_adj_5g_chan_155'', [C_adj (Adj_5g 5)])]"

definition nvram_loss :: "(string \<times> cell list) list" where
  "nvram_loss = [
    (''loss_enable_2g4'', [C_loss Loss_enable_2g4]),
    (''loss_value_2g4'', [C_loss Loss_value_2g4]),
    (''loss_enable_5g'', [C_loss Loss_enable_5g]),
    (''loss_value_5g'', [C_loss Loss_value_5g])]"

definition nvram_ofst :: "(string \<times> cell list) list" where
  "nvram_ofst = [
    (''ofst_enable'', [C_ofst Ofst_enable, C_ofst2x Ofst2x_enable]),
    (''ofst_chan_1_4'', [C_ofst Chan_1_4]),
    (''ofst_chan_5_9'', [C_ofst Chan_5_9]),
    (''ofst_chan_10_13'', [C_ofst Chan_10_13]),
    (''ofst_chan_36_64'', [C_ofst Chan_36_64]),
    (''ofst_chan_100_120'', [C_ofst Chan_100_120]),
    (''ofst_chan_122_140'', [C_ofst Chan_122_140]),
    (''ofst_chan_142_165'', [C_ofst Chan_142_165])]"

definition nvram_ofst2x :: "(string \<times> cell list) list" where
  "nvram_ofst2x = [
    (''ofst_2g4_11b_chan_1_4'', [C_ofst2x (Ofst2x_2g4 0 0)]),
    (''ofst_2g4_11b_chan_5_9'', [C_ofst2x (Ofst2x_2g4 0 1)]),
    (''ofst_2g4_11b_chan_10_13'', [C_ofst2x (Ofst2x_2g4 0 2)]),
    (''ofst_2g4_ofdm_highrate_chan_1_4'', [C_ofst2x (Ofst2x_2g4 1 0)]),
    (''ofst_2g4_ofdm_highrate_chan_5_9'', [C_ofst2x (Ofst2x_2g4 1 1)]),
    (''ofst_2g4_ofdm_highrate_chan_10_13'', [C_ofst2x (Ofst2x_2g4 1 2)]),
    (''ofst_2g4_ofdm_lowrate_chan_1_4'', [C_ofst2x (Ofst2x_2g4 2 0)]),
    (''ofst_2g4_ofdm_lowrate_chan_5_9'', [C_ofst2x (Ofst2x_2g4 2 1)]),
    (''ofst_2g4_ofdm_lowrate_chan_10_13'', [C_ofst2x (Ofst2x_2g4 2 2)]),
    (''ofst_5g_ofdm_lowrate_chan_42'', [C_ofst2x (Ofst2x_5g 0 0)]),
    (''ofst_5g_ofdm_lowrate_chan_58'', [C_ofst2x (Ofst2x_5g 0 1)]),
    (''ofst_5g_ofdm_lowrate_chan_106'', [C_ofst2x (Ofst2x_5g 0 2)]),
    (''ofst_5g_ofdm_lowrate_chan_122'', [C_ofst2x (Ofst2x_5g 0 3)]),
    (''ofst_5g_ofdm_lowrate_chan_138'', [C_ofst2x (Ofst2x_5g 0 4)]),
    (''ofst_5g_ofdm_lowrate_chan_155'', [C_ofst2x (Ofst2x_5g 0 5)]),
    (''ofst_5g_ofdm_highrate_chan_42'', [C_ofst2x (Ofst2x_5g 1 0)]),
    (''ofst_5g_ofdm_highrate_chan_58'', [C_ofst2x (Ofst2x_5g 1 1)]),
    (''ofst_5g_ofdm_highrate_chan_106'', [C_ofst2x (Ofst2x_5g 1 2)]),
    (''ofst_5g_ofdm_highrate_chan_122'', [C_ofst2x (Ofst2x_5g 1 3)]),
    (''ofst_5g_ofdm_highrate_chan_138'', [C_ofst2x (Ofst2x_5g 1 4)]),
    (''ofst_5g_ofdm_highrate_chan_155'', [C_ofst2x (Ofst2x_5g 1 5)]),
    (''ofst_5g_ofdm_midrate_chan_42'', [C_ofst2x (Ofst2x_5g 2 0)]),
    (''ofst_5g_ofdm_midrate_chan_58'', [C_ofst2x (Ofst2x_5g 2 1)]),
    (''ofst_5g_ofdm_midrate_chan_106'', [C_ofst2x (Ofst2x_5g 2 2)]),
    (''ofst_5g_ofdm_midrate_chan_122'', [C_ofst2x (Ofst2x_5g 2 3)]),
    (''ofst_5g_ofdm_midrate_chan_138'', [C_ofst2x (Ofst2x_5g 2 4)]),
    (''ofst_5g_ofdm_midrate_chan_155'', [C_ofst2x (Ofst2x_5g 2 5)])]"

definition nvram_xtal :: "(string \<times> cell list) list" where
  "nvram_xtal = [
    (''xtal_enable'', [C_xtal Xtal_enable]),
    (''xtal_cap'', [C_xtal Xtal_cap]),
    (''xtal_cap_fine'', [C_xtal Xtal_cap_fine])]"

definition nvram_v4_2g4 :: "(string \<times> cell list) list" where
  "nvram_v4_2g4 = [
    (''enable'', [C_v4 Enable]),
    (''lvl_11b_11ag_1m_2g4'', [C_v4 (B_2g4 0)]),
    (''lvl_11b_11ag_2m_2g4'', [C_v4 (B_2g4 1)]),
    (''lvl_11b_11ag_5m5_2g4'', [C_v4 (B_2g4 2)]),
    (''lvl_11b_11ag_11m_2g4'', [C_v4 (B_2g4 3)]),
    (''lvl_11b_11ag_6m_2g4'', [C_v4 (B_2g4 4)]),
    (''lvl_11b_11ag_9m_2g4'', [C_v4 (B_2g4 5)]),
    (''lvl_11b_11ag_12m_2g4'', [C_v4 (B_2g4 6)]),
    (''lvl_11b_11ag_18m_2g4'', [C_v4 (B_2g4 7)]),
    (''lvl_11b_11ag_24m_2g4'', [C_v4 (B_2g4 8)]),
    (''lvl_11b_11ag_36m_2g4'', [C_v4 (B_2g4 9)]),
    (''lvl_11b_11ag_48m_2g4'', [C_v4 (B_2g4 10)]),
    (''lvl_11b_11ag_54m_2g4'', [C_v4 (B_2g4 11)]),
    (''lvl_11n_11ac_mcs0_2g4'', [C_v4 (N_2g4 0)]),
    (''lvl_11n_11ac_mcs1_2g4'', [C_v4 (N_2g4 1)]),
    (''lvl_11n_11ac_mcs2_2g4'', [C_v4 (N_2g4 2)]),
    (''lvl_11n_11ac_mcs3_2g4'', [C_v4 (N_2g4 3)]),
    (''lvl_11n_11ac_mcs4_2g4'', [C_v4 (N_2g4 4)]),
    (''lvl_11n_11ac_mcs5_2g4'', [C_v4 (N_2g4 5)]),
    (''lvl_11n_11ac_mcs6_2g4'', [C_v4 (N_2g4 6)]),
    (''lvl_11n_11ac_mcs7_2g4'', [C_v4 (N_2g4 7)]),
    (''lvl_11n_11ac_mcs8_2g4'', [C_v4 (N_2g4 8)]),
    (''lvl_11n_11ac_mcs9_2g4'', [C_v4 (N_2g4 9)]),
    (''lvl_11ax_mcs0_2g4'', [C_v4 (AX_2g4 0)]),
    (''lvl_11ax_mcs1_2g4'', [C_v4 (AX_2g4 1)]),
    (''lvl_11ax_mcs2_2g4'', [C_v4 (AX_2g4 2)]),
    (''lvl_11ax_mcs3_2g4'', [C_v4 (AX_2g4 3)]),
    (''lvl_11ax_mcs4_2g4'', [C_v4 (AX_2g4 4)]),
    (''lvl_11ax_mcs5_2g4'', [C_v4 (AX_2g4 5)]),
    (''lvl_11ax_mcs6_2g4'', [C_v4 (AX_2g4 6)]),
    (''lvl_11ax_mcs7_2g4'', [C_v4 (AX_2g4 7)]),
    (''lvl_11ax_mcs8_2g4'', [C_v4 (AX_2g4 8)]),
    (''lvl_11ax_mcs9_2g4'', [C_v4 (AX_2g4 9)]),
    (''lvl_11ax_mcs10_2g4'', [C_v4 (AX_2g4 10)]),
    (''lvl_11ax_mcs11_2g4'', [C_v4 (AX_2g4 11)])]"

definition nvram_v4_5g :: "(string \<times> cell list) list" where
  "nvram_v4_5g = [
    (''lvl_11a_6m_5g'', [C_v4_5g (A_5g 0)]),
    (''lvl_11a_9m_5g'', [C_v4_5g (A_5g 1)]),
    (''lvl_11a_12m_5g'', [C_v4_5g (A_5g 2)]),
    (''lvl_11a_18m_5g'', [C_v4_5g (A_5g 3)]),
    (''lvl_11a_24m_5g'', [C_v4_5g (A_5g 4)]),
    (''lvl_11a_36m_5g'', [C_v4_5g (A_5g 5)]),
    (''lvl_11a_48m_5g'', [C_v4_5g (A_5g 6)]),
    (''lvl_11a_54m_5g'', [C_v4_5g (A_5g 7)]),
    (''lvl_11n_11ac_mcs0_5g'', [C_v4_5g (N_5g 0)]),
    (''lvl_11n_11ac_mcs1_5g'', [C_v4_5g (N_5g 1)]),
    (''lvl_11n_11ac_mcs2_5g'', [C_v4_5g (N_5g 2)]),
    (''lvl_11n_11ac_mcs3_5g'', [C_v4_5g (N_5g 3)]),
    (''lvl_11n_11ac_mcs4_5g'', [C_v4_5g (N_5g 4)]),
    (''lvl_11n_11ac_mcs5_5g'', [C_v4_5g (N_5g 5)]),
    (''lvl_11n_11ac_mcs6_5g'', [C_v4_5g (N_5g 6)]),
    (''lvl_11n_11ac_mcs7_5g'', [C_v4_5g (N_5g 7)]),
    (''lvl_11n_11ac_mcs8_5g'', [C_v4_5g (N_5g 8)]),
    (''lvl_11n_11ac_mcs9_5g'', [C_v4_5g (N_5g 9)]),
    (''lvl_11ax_mcs0_5g'', [C_v4_5g (AX_5g 0)]),
    (''lvl_11ax_mcs1_5g'', [C_v4_5g (AX_5g 1)]),
    (''lvl_11ax_mcs2_5g'', [C_v4_5g (AX_5g 2)]),
    (''lvl_11ax_mcs3_5g'', [C_v4_5g (AX_5g 3)]),
    (''lvl_11ax_mcs4_5g'', [C_v4_5g (AX_5g 4)]),
    (''lvl_11ax_mcs5_5g'', [C_v4_5g (AX_5g 5)]),
    (''lvl_11ax_mcs6_5g'', [C_v4_5g (AX_5g 6)]),
    (''lvl_11ax_mcs7_5g'', [C_v4_5g (AX_5g 7)]),
    (''lvl_11ax_mcs8_5g'', [C_v4_5g (AX_5g 8)]),
    (''lvl_11ax_mcs9_5g'', [C_v4_5g (AX_5g 9)]),
    (''lvl_11ax_mcs10_5g'', [C_v4_5g (AX_5g 10)]),
    (''lvl_11ax_mcs11_5g'', [C_v4_5g (AX_5g 11)])]"

definition nvram_v4_adj :: "(string \<times> cell list) list" where
  "nvram_v4_adj = [
    (''lvl_adj_enable'', [C_adj Adj_enable]),
    (''lvl_adj_2g4_chan_1_4'', [C_adj (Adj_2g4 0)]),
    (''lvl_adj_2g4_chan_5_9'', [C_adj (Adj_2g4 1)]),
    (''lvl_adj_2g4_chan_10_13'', [C_adj (Adj_2g4 2)]),
    (''lvl_adj_5g_chan_42'', [C_adj (Adj_5g 0)]),
    (''lvl_adj_5g_chan_58'', [C_adj (Adj_5g 1)]),
    (''lvl_adj_5g_chan_106'', [C_adj (Adj_5g 2)]),
    (''lvl_adj_5g_chan_122'', [C_adj (Adj_5g 3)]),
    (''lvl_adj_5g_chan_138'', [C_adj (Adj_5g 4)]),
    (''lvl_adj_5g_chan_155'', [C_adj (Adj_5g 5)])]"

definition nvram_v4_loss :: "(string \<times> cell list) list" where
  "nvram_v4_loss = [
    (''loss_enable_2g4'', [C_loss Loss_enable_2g4]),
    (''loss_value_2g4'', [C_loss Loss_value_2g4]),
    (''loss_enable_5g'', [C_loss Loss_enable_5g]),
    (''loss_value_5g'', [C_loss Loss_value_5g])]"

definition nvram_v4_ofst :: "(string \<times> cell list) list" where
  "nvram_v4_ofst = [
    (''ofst_enable'', [C_ofst2x_v2 V2_enable]),
    (''ofst_2g4_ant0_11b_chan_1_4'', [C_ofst2x_v2 (V2_2g4_ant0 0 0)]),
    (''ofst_2g4_ant0_11b_chan_5_9'', [C_ofst2x_v2 (V2_2g4_ant0 1 0)]),
    (''ofst_2g4_ant0_11b_chan_10_13'', [C_ofst2x_v2 (V2_2g4_ant0 2 0)]),
    (''ofst_2g4_ant0_ofdm_highrate_chan_1_4'', [C_ofst2x_v2 (V2_2g4_ant0 0 1)]),
    (''ofst_2g4_ant0_ofdm_highrate_chan_5_9'', [C_ofst2x_v2 (V2_2g4_ant0 1 1)]),
    (''ofst_2g4_ant0_ofdm_highrate_chan_10_13'', [C_ofst2x_v2 (V2_2g4_ant0 2 1)]),
    (''ofst_2g4_ant1_11b_chan_1_4'', [C_ofst2x_v2 (V2_2g4_ant1 0 0)]),
    (''ofst_2g4_ant1_11b_chan_5_9'', [C_ofst2x_v2 (V2_2g4_ant1 1 0)]),
    (''ofst_2g4_ant1_11b_chan_10_13'', [C_ofst2x_v2 (V2_2g4_ant1 2 0)]),
    (''ofst_2g4_ant1_ofdm_highrate_chan_1_4'', [C_ofst2x_v2 (V2_2g4_ant1 0 1)]),
    (''ofst_2g4_ant1_ofdm_highrate_chan_5_9'', [C_ofst2x_v2 (V2_2g4_ant1 1 1)]),
    (''ofst_2g4_ant1_ofdm_highrate_chan_10_13'', [C_ofst2x_v2 (V2_2g4_ant1 2 1)]),
    (''ofst_5g_ant0_ofdm_highrate_chan_42'', [C_ofst2x_v2 (V2_5g_ant0 0 0)]),
    (''ofst_5g_ant0_ofdm_highrate_chan_58'', [C_ofst2x_v2 (V2_5g_ant0 1 0)]),
    (''ofst_5g_ant0_ofdm_highrate_chan_106'', [C_ofst2x_v2 (V2_5g_ant0 2 0)]),
    (''ofst_5g_ant0_ofdm_highrate_chan_122'', [C_ofst2x_v2 (V2_5g_ant0 3 0)]),
    (''ofst_5g_ant0_ofdm_highrate_chan_138'', [C_ofst2x_v2 (V2_5g_ant0 4 0)]),
    (''ofst_5g_ant0_ofdm_highrate_chan_155'', [C_ofst2x_v2 (V2_5g_ant0 5 0)]),
    (''ofst_5g_ant1_ofdm_highrate_chan_42'', [C_ofst2x_v2 (V2_5g_ant1 0 0)]),
    (''ofst_5g_ant1_ofdm_highrate_chan_58'', [C_ofst2x_v2 (V2_5g_ant1 1 0)]),
    (''ofst_5g_ant1_ofdm_highrate_chan_106'', [C_ofst2x_v2 (V2_5g_ant1 2 0)]),
    (''ofst_5g_ant1_ofdm_highrate_chan_122'', [C_ofst2x_v2 (V2_5g_ant1 3 0)]),
    (''ofst_5g_ant1_ofdm_highrate_chan_138'', [C_ofst2x_v2 (V2_5g_ant1 4 0)]),
    (''ofst_5g_ant1_ofdm_highrate_chan_155'', [C_ofst2x_v2 (V2_5g_ant1 5 0)])]"

definition nvram_v4_xtal :: "(string \<times> cell list) list" where
  "nvram_v4_xtal = [
    (''xtal_enable'', [C_xtal Xtal_enable]),
    (''xtal_cap'', [C_xtal Xtal_cap]),
    (''xtal_cap_fine'', [C_xtal Xtal_cap_fine])]"

definition nvram_table :: "(string \<times> cell list) list" where
  "nvram_table = nvram_lvl @ nvram_lvl_2g4 @ nvram_lvl_5g @ nvram_adj @ nvram_loss @ nvram_ofst @ nvram_ofst2x @ nvram_xtal"

definition nvram_table_d80x2 :: "(string \<times> cell list) list" where
  "nvram_table_d80x2 = nvram_v4_2g4 @ nvram_v4_5g @ nvram_v4_adj @ nvram_v4_loss @ nvram_v4_ofst @ nvram_v4_xtal"

text \<open>A signed decimal number; another character makes the result zero. The kernel lets \<^verbatim>\<open>int\<close> wrap.\<close>

fun atoi_loop :: "string \<Rightarrow> u32 \<Rightarrow> u32" where
  "atoi_loop [] result = result"
| "atoi_loop (c # cs) result =
     (let result = result * 10
      in if is_digit c then atoi_loop cs (result + word_of_int (digit_val c)) else 0)"

definition rwnx_atoi :: "string \<Rightarrow> u32" where
  "rwnx_atoi value =
     (if value \<noteq> [] \<and> hd value = CHR ''-'' then atoi_loop (tl value) 0 * (- 1) else atoi_loop value 0)"

definition set_cells :: "u8 \<Rightarrow> cell list \<Rightarrow> userconfig_info \<Rightarrow> userconfig_info" where
  "set_cells v cs U = fold (put_cell v) cs U"

definition rwnx_plat_nvram_set_value :: "string \<Rightarrow> string \<Rightarrow> userconfig_info \<Rightarrow> userconfig_info" where
  "rwnx_plat_nvram_set_value command value U =
     (case map_of nvram_table command of
        Some cs \<Rightarrow> set_cells (ucast (rwnx_atoi value)) cs U
      | None \<Rightarrow> U)"

definition rwnx_plat_nvram_set_value_8800d80x2 :: "string \<Rightarrow> string \<Rightarrow> userconfig_info \<Rightarrow> userconfig_info" where
  "rwnx_plat_nvram_set_value_8800d80x2 command value U =
     (case map_of nvram_table_d80x2 command of
        Some cs \<Rightarrow> set_cells (ucast (rwnx_atoi value)) cs U
      | None \<Rightarrow> U)"

section \<open>Access\<close>

definition get_userconfig_txpwr_lvl_v2_in_fdrv :: "userconfig_info \<Rightarrow> txpwr_lvl_conf_v2" where
  "get_userconfig_txpwr_lvl_v2_in_fdrv U = txpwr_lvl_v2 U"

definition get_userconfig_txpwr_lvl_v3_in_fdrv :: "userconfig_info \<Rightarrow> txpwr_lvl_conf_v3" where
  "get_userconfig_txpwr_lvl_v3_in_fdrv U = txpwr_lvl_v3 U"

definition get_userconfig_txpwr_lvl_v4_in_fdrv :: "userconfig_info \<Rightarrow> txpwr_lvl_conf_v4" where
  "get_userconfig_txpwr_lvl_v4_in_fdrv U = txpwr_lvl_v4 U"

definition get_userconfig_txpwr_lvl_adj_in_fdrv :: "userconfig_info \<Rightarrow> txpwr_lvl_adj_conf" where
  "get_userconfig_txpwr_lvl_adj_in_fdrv U = txpwr_lvl_adj U"

definition get_userconfig_txpwr_ofst_in_fdrv :: "userconfig_info \<Rightarrow> txpwr_ofst_conf" where
  "get_userconfig_txpwr_ofst_in_fdrv U = \<lparr>ofst_enable = ofst_enable (txpwr_ofst U),
     ofst_chan_1_4 = ofst_chan_1_4 (txpwr_ofst U), ofst_chan_5_9 = ofst_chan_5_9 (txpwr_ofst U),
     ofst_chan_10_13 = ofst_chan_10_13 (txpwr_ofst U), ofst_chan_36_64 = ofst_chan_36_64 (txpwr_ofst U),
     ofst_chan_100_120 = ofst_chan_100_120 (txpwr_ofst U), ofst_chan_122_140 = ofst_chan_122_140 (txpwr_ofst U),
     ofst_chan_142_165 = ofst_chan_142_165 (txpwr_ofst U)\<rparr>"

definition get_userconfig_txpwr_ofst2x_in_fdrv :: "userconfig_info \<Rightarrow> txpwr_ofst2x_conf" where
  "get_userconfig_txpwr_ofst2x_in_fdrv U = txpwr_ofst2x U"

definition get_userconfig_txpwr_ofst2x_v2_in_fdrv :: "userconfig_info \<Rightarrow> txpwr_ofst2x_conf_v2" where
  "get_userconfig_txpwr_ofst2x_v2_in_fdrv U = txpwr_ofst2x_v2 U"

definition get_userconfig_txpwr_loss :: "userconfig_info \<Rightarrow> txpwr_loss_conf" where
  "get_userconfig_txpwr_loss U = \<lparr>loss_enable_2g4 = loss_enable_2g4 (txpwr_loss U),
     loss_value_2g4 = loss_value_2g4 (txpwr_loss U), loss_enable_5g = loss_enable_5g (txpwr_loss U),
     loss_value_5g = loss_value_5g (txpwr_loss U)\<rparr>"

definition set_txpwr_loss_ofst :: "u8 \<Rightarrow> userconfig_info \<Rightarrow> userconfig_info" where
  "set_txpwr_loss_ofst v U = U\<lparr>txpwr_loss :=
     \<lparr>loss_enable_2g4 = 1, loss_value_2g4 = - v, loss_enable_5g = 1, loss_value_5g = - v\<rparr>\<rparr>"

definition get_userconfig_xtal_cap :: "userconfig_info \<Rightarrow> xtal_cap_conf" where
  "get_userconfig_xtal_cap U = xtal_conf U"

end
