(* ===== verification/UserConfigParse.thy ===== *)
theory UserConfigParse
  imports UserConfig
begin

text \<open>
  The parser of the configuration file (\<^verbatim>\<open>rwnx_platform.c\<close>): a state machine over the characters
  with two buffers of fixed size, and the specification by lines that it implements. The parser for the
  8800D80X2 is the same code with a larger buffer of which only the first 64 bytes are cleared. A store behind
  a buffer, and reading a string whose buffer has no terminating zero, is \<open>None\<close>.
\<close>

section \<open>The parser\<close>

datatype parse_state = INIT | CMD | PRINT | GET_VALUE

record parser =
  parse_state :: parse_state
  command :: string
  value_buf :: string
  char_counter :: nat

abbreviation nul :: char where
  "nul \<equiv> CHR 0x00"

definition store_char :: "nat \<Rightarrow> char \<Rightarrow> string \<Rightarrow> string option" where
  "store_char i c buf = (if i < length buf then Some (buf[i := c]) else None)"

definition c_string :: "string \<Rightarrow> string option" where
  "c_string buf = (if nul \<in> set buf then Some (takeWhile (\<lambda>c. c \<noteq> nul) buf) else None)"

definition is_newline :: "char \<Rightarrow> bool" where
  "is_newline c \<longleftrightarrow> c = CHR 0x0A \<or> c = CHR 0x0D"

text \<open>What a finished line does: a comment is printed, a value is set.\<close>

definition end_line :: "(string \<Rightarrow> string \<Rightarrow> userconfig_info \<Rightarrow> userconfig_info) \<Rightarrow> parser \<Rightarrow> userconfig_info \<Rightarrow>
    userconfig_info option" where
  "end_line set_value P U =
     (if command P ! 0 \<noteq> nul \<and> value_buf P ! 0 \<noteq> nul
      then (case parse_state P of
              PRINT \<Rightarrow> do { _ \<leftarrow> c_string (value_buf P); Some U }
            | GET_VALUE \<Rightarrow> do {
                k \<leftarrow> c_string (command P);
                v \<leftarrow> c_string (value_buf P);
                Some (set_value k v U) }
            | _ \<Rightarrow> Some U)
      else Some U)"

definition reset_parser :: "parser \<Rightarrow> parser" where
  "reset_parser P = P\<lparr>parse_state := INIT, command := replicate 64 nul @ drop 64 (command P),
     value_buf := replicate 100 nul, char_counter := 0\<rparr>"

definition parse_char :: "(string \<Rightarrow> string \<Rightarrow> userconfig_info \<Rightarrow> userconfig_info) \<Rightarrow> char \<Rightarrow> parser \<Rightarrow> userconfig_info \<Rightarrow>
    (parser \<times> userconfig_info) option" where
  "parse_char set_value c P U =
     (if is_newline c then do { U \<leftarrow> end_line set_value P U; Some (reset_parser P, U) }
      else if parse_state P = INIT \<and> c = CHR ''#'' then Some (P\<lparr>parse_state := PRINT\<rparr>, U)
      else let P = (if parse_state P = INIT then P\<lparr>parse_state := CMD\<rparr> else P)
           in case parse_state P of
                PRINT \<Rightarrow> do {
                  cmd \<leftarrow> store_char 0 CHR 0x01 (command P);
                  v \<leftarrow> store_char (char_counter P) c (value_buf P);
                  Some (P\<lparr>command := cmd, value_buf := v, char_counter := char_counter P + 1\<rparr>, U) }
              | CMD \<Rightarrow>
                  if command P ! 0 \<noteq> nul \<and> c = CHR ''=''
                  then Some (P\<lparr>parse_state := GET_VALUE, char_counter := 0\<rparr>, U)
                  else do {
                    cmd \<leftarrow> store_char (char_counter P) c (command P);
                    Some (P\<lparr>command := cmd, char_counter := char_counter P + 1\<rparr>, U) }
              | _ \<Rightarrow>
                  if c \<noteq> CHR ''-'' \<and> \<not> is_digit c then Some (P, U)
                  else do {
                    v \<leftarrow> store_char (char_counter P) c (value_buf P);
                    Some (P\<lparr>value_buf := v, char_counter := char_counter P + 1\<rparr>, U) })"

fun parse_chars :: "(string \<Rightarrow> string \<Rightarrow> userconfig_info \<Rightarrow> userconfig_info) \<Rightarrow> string \<Rightarrow> parser \<Rightarrow> userconfig_info \<Rightarrow>
    userconfig_info option" where
  "parse_chars set_value [] P U = Some U"
| "parse_chars set_value (c # cs) P U = do {
     (P, U) \<leftarrow> parse_char set_value c P U;
     parse_chars set_value cs P U }"

definition rwnx_plat_userconfig_parsing :: "string \<Rightarrow> userconfig_info \<Rightarrow> userconfig_info option" where
  "rwnx_plat_userconfig_parsing buffer =
     parse_chars rwnx_plat_nvram_set_value buffer
       \<lparr>parse_state = INIT, command = replicate 64 nul, value_buf = replicate 100 nul, char_counter = 0\<rparr>"

text \<open>The last 36 bytes of the larger buffer hold what the stack had there.\<close>

definition rwnx_plat_userconfig_parsing_8800d80x2 :: "string \<Rightarrow> string \<Rightarrow> userconfig_info \<Rightarrow> userconfig_info option" where
  "rwnx_plat_userconfig_parsing_8800d80x2 stack buffer =
     parse_chars rwnx_plat_nvram_set_value_8800d80x2 buffer
       \<lparr>parse_state = INIT, command = replicate 64 nul @ stack, value_buf = replicate 100 nul, char_counter = 0\<rparr>"

section \<open>The specification by lines\<close>

text \<open>
  A file is a list of lines, each ended by a line feed or a carriage return, and an unfinished rest that has
  no effect. A line is empty, a comment, a key without value, or an assignment; of the text behind the
  first equals sign the digits and minus signs count.
\<close>

fun lines_from :: "string \<Rightarrow> string \<Rightarrow> string list \<times> string" where
  "lines_from w [] = ([], w)"
| "lines_from w (c # cs) =
     (if is_newline c then (case lines_from [] cs of (ls, rest) \<Rightarrow> (w # ls, rest)) else lines_from (w @ [c]) cs)"

datatype config_line = Blank | Comment string | Key string | Assign string string

definition digits_of :: "string \<Rightarrow> string" where
  "digits_of = filter (\<lambda>c. c = CHR ''-'' \<or> is_digit c)"

definition config_line :: "string \<Rightarrow> config_line" where
  "config_line l = (case l of [] \<Rightarrow> Blank
     | c # cs \<Rightarrow> if c = CHR ''#'' then Comment cs
         else case dropWhile (\<lambda>c. c \<noteq> CHR ''='') cs of
                [] \<Rightarrow> Key l
              | _ # v \<Rightarrow> Assign (c # takeWhile (\<lambda>c. c \<noteq> CHR ''='') cs) (digits_of v))"

primrec line_effect :: "(string \<Rightarrow> string \<Rightarrow> userconfig_info \<Rightarrow> userconfig_info) \<Rightarrow> config_line \<Rightarrow> userconfig_info \<Rightarrow>
    userconfig_info" where
  "line_effect set_value Blank U = U"
| "line_effect set_value (Comment t) U = U"
| "line_effect set_value (Key k) U = U"
| "line_effect set_value (Assign k v) U = (if v = [] then U else set_value k v U)"

text \<open>The room that the buffers have for a line, and for an unfinished one.\<close>

primrec line_fits :: "config_line \<Rightarrow> bool" where
  "line_fits Blank = True"
| "line_fits (Comment t) = (length t \<le> 99)"
| "line_fits (Key k) = (length k \<le> 64)"
| "line_fits (Assign k v) = (length k \<le> 64 \<and> length v \<le> 100 \<and> (v = [] \<or> length k \<le> 63 \<and> length v \<le> 99))"

primrec rest_fits :: "config_line \<Rightarrow> bool" where
  "rest_fits Blank = True"
| "rest_fits (Comment t) = (length t \<le> 100)"
| "rest_fits (Key k) = (length k \<le> 64)"
| "rest_fits (Assign k v) = (length k \<le> 64 \<and> length v \<le> 100)"

section \<open>The simulation\<close>

text \<open>A line that grows by a character.\<close>

primrec line_snoc :: "config_line \<Rightarrow> char \<Rightarrow> config_line" where
  "line_snoc Blank c = (if c = CHR ''#'' then Comment [] else Key [c])"
| "line_snoc (Comment t) c = Comment (t @ [c])"
| "line_snoc (Key k) c = (if c = CHR ''='' then Assign k [] else Key (k @ [c]))"
| "line_snoc (Assign k v) c = Assign k (v @ digits_of [c])"

lemma config_line_snoc: "config_line (w @ [c]) = line_snoc (config_line w) c"
proof (cases w)
  case Nil
  then show ?thesis by (simp add: config_line_def)
next
  case (Cons a as)
  consider "a = CHR ''#''" | "a \<noteq> CHR ''#''" "CHR ''='' \<in> set as" | "a \<noteq> CHR ''#''" "CHR ''='' \<notin> set as"
    by blast
  then show ?thesis
  proof cases
    case 1
    then show ?thesis using Cons by (simp add: config_line_def)
  next
    case 2
    then have d: "dropWhile (\<lambda>c. c \<noteq> CHR ''='') (as @ [c]) = dropWhile (\<lambda>c. c \<noteq> CHR ''='') as @ [c]"
      "takeWhile (\<lambda>c. c \<noteq> CHR ''='') (as @ [c]) = takeWhile (\<lambda>c. c \<noteq> CHR ''='') as"
      by auto
    have "dropWhile (\<lambda>c. c \<noteq> CHR ''='') as \<noteq> []"
      using 2 by auto
    then obtain x xs where "dropWhile (\<lambda>c. c \<noteq> CHR ''='') as = x # xs"
      by (metis list.exhaust)
    then show ?thesis
      using Cons 2 d by (simp add: config_line_def digits_of_def)
  next
    case 3
    then have d: "dropWhile (\<lambda>c. c \<noteq> CHR ''='') as = []"
      by auto
    show ?thesis
    proof (cases "c = CHR ''=''")
      case True
      have "dropWhile (\<lambda>c. c \<noteq> CHR ''='') (as @ [c]) = [c]" "takeWhile (\<lambda>c. c \<noteq> CHR ''='') (as @ [c]) = as"
        using 3 True by (subst dropWhile_append2 takeWhile_append2; auto)+
      then show ?thesis
        unfolding config_line_def Cons append_Cons list.case d using 3 True by (simp add: digits_of_def)
    next
      case False
      then have "dropWhile (\<lambda>c. c \<noteq> CHR ''='') (as @ [c]) = []"
        using 3 by auto
      then show ?thesis
        unfolding config_line_def Cons append_Cons list.case d using 3 False by simp
    qed
  qed
qed

definition pad :: "nat \<Rightarrow> string \<Rightarrow> string" where
  "pad n s = s @ replicate (n - length s) nul"

lemma length_pad [simp]: "length s \<le> n \<Longrightarrow> length (pad n s) = n"
  by (simp add: pad_def)

lemma pad_Nil [simp]: "pad n [] = replicate n nul"
  by (simp add: pad_def)

lemma store_char_pad: "length s < n \<Longrightarrow> store_char (length s) c (pad n s @ x) = Some (pad n (s @ [c]) @ x)"
proof -
  assume a: "length s < n"
  then have "replicate (n - length s) nul = nul # replicate (n - Suc (length s)) nul"
    by (simp add: Suc_diff_Suc flip: replicate_Suc)
  then show ?thesis
    using a by (simp add: store_char_def pad_def list_update_append)
qed

lemma store_char_full: "store_char (length s) c s = None"
  by (simp add: store_char_def)

lemma pad_full: "n \<le> length s \<Longrightarrow> pad n s = s"
  by (simp add: pad_def)

lemma nth_pad_0: "0 < n \<Longrightarrow> nul \<notin> set s \<Longrightarrow> (pad n s @ x) ! 0 \<noteq> nul \<longleftrightarrow> s \<noteq> []"
  by (cases s) (auto simp add: pad_def nth_append)

lemma c_string_pad: "length s < n \<Longrightarrow> nul \<notin> set s \<Longrightarrow> c_string (pad n s @ x) = Some s"
proof -
  assume a: "length s < n" "nul \<notin> set s"
  then have r: "replicate (n - length s) nul = nul # replicate (n - Suc (length s)) nul"
    by (simp add: Suc_diff_Suc flip: replicate_Suc)
  have "takeWhile (\<lambda>c. c \<noteq> nul) (s @ nul # y) = s" for y
    using a(2) by (subst takeWhile_append2) auto
  then show ?thesis
    by (simp add: c_string_def pad_def r)
qed

lemma c_string_full: "nul \<notin> set s \<Longrightarrow> c_string s = None"
  by (simp add: c_string_def)

text \<open>The state of the parser after the part of a line that it has read.\<close>

primrec at_line :: "string \<Rightarrow> config_line \<Rightarrow> parser" where
  "at_line x Blank = \<lparr>parse_state = INIT, command = pad 64 [] @ x, value_buf = pad 100 [], char_counter = 0\<rparr>"
| "at_line x (Comment t) = \<lparr>parse_state = PRINT, command = pad 64 (if t = [] then [] else [CHR 0x01]) @ x,
     value_buf = pad 100 t, char_counter = length t\<rparr>"
| "at_line x (Key k) = \<lparr>parse_state = CMD, command = pad 64 k @ x, value_buf = pad 100 [], char_counter = length k\<rparr>"
| "at_line x (Assign k v) = \<lparr>parse_state = GET_VALUE, command = pad 64 k @ x, value_buf = pad 100 v,
     char_counter = length v\<rparr>"

primrec line_typed :: "config_line \<Rightarrow> bool" where
  "line_typed Blank = True"
| "line_typed (Comment t) = (nul \<notin> set t)"
| "line_typed (Key k) = (k \<noteq> [] \<and> nul \<notin> set k)"
| "line_typed (Assign k v) = (k \<noteq> [] \<and> nul \<notin> set k \<and> nul \<notin> set v)"

lemma line_typed_snoc: "line_typed L \<Longrightarrow> c \<noteq> nul \<Longrightarrow> line_typed (line_snoc L c)"
  by (cases L) (auto simp add: digits_of_def)

lemma line_typed_config: "nul \<notin> set w \<Longrightarrow> line_typed (config_line w)"
  by (induction w rule: rev_induct) (auto simp add: config_line_snoc line_typed_snoc, simp add: config_line_def)

lemma rest_fits_snoc: "rest_fits (line_snoc L c) \<Longrightarrow> rest_fits L"
  by (cases L) (auto split: if_splits)

lemma line_fits_rest: "line_fits L \<Longrightarrow> rest_fits L"
  by (cases L) auto

lemma rest_fits_prefix: "rest_fits (config_line (w @ x)) \<Longrightarrow> rest_fits (config_line w)"
  by (induction x rule: rev_induct) (auto simp add: config_line_snoc simp flip: append_assoc dest: rest_fits_snoc)

lemma parse_char_fits:
  assumes "line_typed L" "c \<noteq> nul" "\<not> is_newline c" "rest_fits (line_snoc L c)"
  shows "parse_char sv c (at_line x L) U = Some (at_line x (line_snoc L c), U)"
proof (cases L)
  case Blank
  then show ?thesis
    using assms(2-) store_char_pad[of "[]" 64 c x] by (auto simp add: parse_char_def nth_append Let_def)
next
  case (Comment t)
  have 1: "store_char 0 CHR 0x01 (pad 64 (if t = [] then [] else [CHR 0x01]) @ x) = Some (pad 64 [CHR 0x01] @ x)"
    using store_char_pad[of "[]" 64 "CHR 0x01" x] by (simp add: store_char_def pad_def)
  show ?thesis
    using assms(2-) Comment 1 store_char_pad[of t 100 c "[]"] by (simp add: parse_char_def)
next
  case (Key k)
  then have k: "k \<noteq> []" "(pad 64 k @ x) ! 0 \<noteq> nul"
    using assms(1) nth_pad_0[of 64 k x] by auto
  show ?thesis
    using assms(2-) Key k store_char_pad[of k 64 c x] by (auto simp add: parse_char_def)
next
  case (Assign k v)
  show ?thesis
    using assms(2-) Assign store_char_pad[of v 100 c "[]"] by (auto simp add: parse_char_def digits_of_def)
qed

text \<open>With the buffer of 64 bytes a character that does not fit is a store behind it.\<close>

lemma parse_char_overrun:
  assumes "line_typed L" "c \<noteq> nul" "\<not> is_newline c" "rest_fits L" "\<not> rest_fits (line_snoc L c)"
  shows "parse_char sv c (at_line [] L) U = None"
proof (cases L)
  case (Comment t)
  then have t: "length t = 100"
    using assms(4,5) by simp
  then have "store_char (length t) c (pad 100 t) = None"
    using store_char_full[of t c] by (simp add: pad_full)
  then show ?thesis
    using assms(3) Comment by (simp add: parse_char_def Option.bind_eq_None_conv)
next
  case (Key k)
  then have c: "c \<noteq> CHR ''=''" and l: "length k = 64"
    using assms(4,5) by (auto split: if_splits)
  then have "store_char (length k) c (pad 64 k @ []) = None"
    using store_char_full[of k c] by (simp add: pad_full)
  then show ?thesis
    using assms(3) Key c by (simp add: parse_char_def)
next
  case (Assign k v)
  then have c: "c = CHR ''-'' \<or> is_digit c" and l: "length v = 100"
    using assms(4,5) by (auto simp add: digits_of_def split: if_splits)
  then have "store_char (length v) c (pad 100 v) = None"
    using store_char_full[of v c] by (simp add: pad_full)
  then show ?thesis
    using assms(3) Assign c by (auto simp add: parse_char_def Let_def)
qed (use assms in \<open>auto split: if_splits\<close>)

lemma reset_at_line: "rest_fits L \<Longrightarrow> reset_parser (at_line x L) = at_line x Blank"
  by (cases L) (auto simp add: reset_parser_def)

lemma end_line_fits:
  assumes "line_typed L" "line_fits L"
  shows "end_line sv (at_line x L) U = Some (line_effect sv L U)"
proof (cases L)
  case (Comment t)
  have "t \<noteq> [] \<Longrightarrow> c_string (pad 100 t) = Some t"
    using assms Comment c_string_pad[of t 100 "[]"] by simp
  then show ?thesis
    using Comment by (cases "t = []") (simp_all add: end_line_def)
next
  case (Assign k v)
  have "v \<noteq> [] \<Longrightarrow> c_string (pad 100 v) = Some v" "v \<noteq> [] \<Longrightarrow> c_string (pad 64 k @ x) = Some k"
    using assms Assign c_string_pad[of v 100 "[]"] c_string_pad[of k 64 x] by auto
  moreover have "(pad 64 k @ x) ! 0 \<noteq> nul" "v \<noteq> [] \<Longrightarrow> pad 100 v ! 0 \<noteq> nul"
    using assms Assign nth_pad_0[of 64 k x] nth_pad_0[of 100 v "[]"] by auto
  ultimately show ?thesis
    using Assign by (cases "v = []") (simp_all add: end_line_def)
qed (simp_all add: end_line_def)

lemma end_line_overrun:
  assumes "line_typed L" "rest_fits L" "\<not> line_fits L"
  shows "end_line sv (at_line [] L) U = None"
proof (cases L)
  case (Comment t)
  then have "length t = 100" "nul \<notin> set t" "t \<noteq> []"
    using assms by auto
  then show ?thesis
    using Comment nth_pad_0[of 100 t "[]"] by (simp add: end_line_def pad_full c_string_full nth_append, simp add: pad_def)
next
  case (Assign k v)
  then have kv: "v \<noteq> []" "nul \<notin> set k" "nul \<notin> set v" "k \<noteq> []" "length k = 64 \<or> length v = 100"
    using assms by auto
  then have "(pad 64 k @ []) ! 0 \<noteq> nul" "pad 100 v ! 0 \<noteq> nul"
    using nth_pad_0[of 64 k "[]"] nth_pad_0[of 100 v "[]"] by auto
  moreover have "c_string (pad 64 k) = None \<or> c_string (pad 100 v) = None"
    using kv by (auto simp add: pad_full c_string_full)
  ultimately show ?thesis
    using Assign by (auto simp add: end_line_def Option.bind_eq_None_conv)
qed (use assms in simp_all)

lemma lines_from_prefix:
  "lines_from w cs = (ls, t) \<Longrightarrow> (ls = [] \<and> (\<exists>x. t = w @ x)) \<or> (\<exists>x ls'. ls = (w @ x) # ls')"
proof (induction cs arbitrary: w ls t)
  case (Cons c cs)
  show ?case
  proof (cases "is_newline c")
    case True
    then show ?thesis
      using Cons.prems by (auto split: prod.splits)
  next
    case False
    then show ?thesis
      using Cons.prems Cons.IH[of "w @ [c]" ls t] by auto
  qed
qed simp

definition file_fits :: "string list \<times> string \<Rightarrow> bool" where
  "file_fits f \<longleftrightarrow> list_all (\<lambda>l. line_fits (config_line l)) (fst f) \<and> rest_fits (config_line (snd f))"

definition file_effect :: "(string \<Rightarrow> string \<Rightarrow> userconfig_info \<Rightarrow> userconfig_info) \<Rightarrow> string list \<times> string \<Rightarrow>
    userconfig_info \<Rightarrow> userconfig_info" where
  "file_effect set_value f U = fold (\<lambda>l. line_effect set_value (config_line l)) (fst f) U"

lemma file_fits_rest: "file_fits (lines_from w cs) \<Longrightarrow> rest_fits (config_line w)"
  using lines_from_prefix[of w cs]
  by (cases "lines_from w cs") (auto simp add: file_fits_def dest!: line_fits_rest dest: rest_fits_prefix)

lemma parse_chars_fits:
  assumes "nul \<notin> set w" "nul \<notin> set cs" "file_fits (lines_from w cs)"
  shows "parse_chars sv cs (at_line x (config_line w)) U = Some (file_effect sv (lines_from w cs) U)"
  using assms
proof (induction cs arbitrary: w U)
  case Nil
  then show ?case by (simp add: file_effect_def)
next
  case (Cons c cs)
  have r: "rest_fits (config_line w)" "line_typed (config_line w)"
    using file_fits_rest[OF Cons.prems(3)] line_typed_config[OF Cons.prems(1)] .
  show ?case
  proof (cases "is_newline c")
    case True
    obtain ls t where lt: "lines_from [] cs = (ls, t)"
      by fastforce
    have f: "line_fits (config_line w)" "file_fits (lines_from [] cs)"
      using Cons.prems(3) True lt by (simp_all add: file_fits_def)
    have "parse_char sv c (at_line x (config_line w)) U = Some (at_line x (config_line []), line_effect sv (config_line w) U)"
      using True end_line_fits[OF r(2) f(1)] reset_at_line[OF r(1)] by (simp add: parse_char_def config_line_def)
    then show ?thesis
      using True lt Cons.IH[OF _ _ f(2)] Cons.prems(2) by (simp add: file_effect_def)
  next
    case False
    then have f: "file_fits (lines_from (w @ [c]) cs)"
      using Cons.prems(3) by simp
    have "parse_char sv c (at_line x (config_line w)) U = Some (at_line x (config_line (w @ [c])), U)"
      using parse_char_fits[OF r(2) _ False] Cons.prems(2) file_fits_rest[OF f] by (auto simp add: config_line_snoc)
    then show ?thesis
      using False Cons.IH[OF _ _ f] Cons.prems by simp
  qed
qed

lemma parse_chars_overrun:
  assumes "nul \<notin> set w" "nul \<notin> set cs" "rest_fits (config_line w)" "\<not> file_fits (lines_from w cs)"
  shows "parse_chars sv cs (at_line [] (config_line w)) U = None"
  using assms
proof (induction cs arbitrary: w U)
  case Nil
  then show ?case by (simp add: file_fits_def)
next
  case (Cons c cs)
  note t = line_typed_config[OF Cons.prems(1)]
  show ?case
  proof (cases "is_newline c")
    case True
    show ?thesis
    proof (cases "line_fits (config_line w)")
      case False
      then show ?thesis
        using True end_line_overrun[OF t Cons.prems(3)] by (simp add: parse_char_def)
    next
      case fits: True
      then have f: "\<not> file_fits (lines_from [] cs)"
        using Cons.prems(4) True by (simp add: file_fits_def split: prod.splits)
      show ?thesis
        using True end_line_fits[OF t fits] reset_at_line[OF Cons.prems(3)] Cons.IH[OF _ _ _ f] Cons.prems(2)
        by (simp add: parse_char_def config_line_def)
    qed
  next
    case False
    show ?thesis
    proof (cases "rest_fits (config_line (w @ [c]))")
      case fits: True
      then have "parse_char sv c (at_line [] (config_line w)) U = Some (at_line [] (config_line (w @ [c])), U)"
        using parse_char_fits[OF t _ False] Cons.prems(2) by (auto simp add: config_line_snoc)
      then show ?thesis
        using False Cons.IH[OF _ _ fits] Cons.prems by simp
    next
      case full: False
      then show ?thesis
        using parse_char_overrun[OF t _ False Cons.prems(3)] Cons.prems(2) by (auto simp add: config_line_snoc)
    qed
  qed
qed

end
