(* ===== verification/UserConfigProps.thy ===== *)
theory UserConfigProps
  imports UserConfigParse
begin

text \<open>
  Properties of the user configuration: what a file means, which files overrun the buffers of the parser,
  and that the settings of a file arrive in their cells and nowhere else.
\<close>

section \<open>Cells\<close>

text \<open>The arrays have the lengths of their declarations.\<close>

definition wf_pw :: "'a txpwr_lvl_conf_v2_scheme \<Rightarrow> bool" where
  "wf_pw s \<longleftrightarrow> length (pwrlvl_11b_11ag_2g4 s) = 12 \<and> length (pwrlvl_11n_11ac_2g4 s) = 10 \<and> length (pwrlvl_11ax_2g4 s) = 12"

definition wf_pw5 :: "nat \<Rightarrow> 'a txpwr_lvl_conf_v3_scheme \<Rightarrow> bool" where
  "wf_pw5 n s \<longleftrightarrow> wf_pw s \<and> length (pwrlvl_11a_5g s) = n \<and> length (pwrlvl_11n_11ac_5g s) = 10 \<and> length (pwrlvl_11ax_5g s) = 12"

definition wf_tbl :: "nat \<Rightarrow> nat \<Rightarrow> 'a list list \<Rightarrow> bool" where
  "wf_tbl n k t \<longleftrightarrow> length t = n \<and> list_all (\<lambda>r. length r = k) t"

definition wf_userconfig :: "userconfig_info \<Rightarrow> bool" where
  "wf_userconfig U \<longleftrightarrow> wf_pw (txpwr_lvl_v2 U) \<and> wf_pw5 12 (txpwr_lvl_v3 U) \<and> wf_pw5 8 (txpwr_lvl_v4 U) \<and>
     length (pwrlvl_adj_tbl_2g4 (txpwr_lvl_adj U)) = 3 \<and> length (pwrlvl_adj_tbl_5g (txpwr_lvl_adj U)) = 6 \<and>
     wf_tbl 3 3 (pwrofst2x_tbl_2g4 (txpwr_ofst2x U)) \<and> wf_tbl 3 6 (pwrofst2x_tbl_5g (txpwr_ofst2x U)) \<and>
     wf_tbl 3 3 (pwrofst2x_tbl_2g4_ant0 (txpwr_ofst2x_v2 U)) \<and> wf_tbl 3 3 (pwrofst2x_tbl_2g4_ant1 (txpwr_ofst2x_v2 U)) \<and>
     wf_tbl 6 3 (pwrofst2x_tbl_5g_ant0 (txpwr_ofst2x_v2 U)) \<and> wf_tbl 6 3 (pwrofst2x_tbl_5g_ant1 (txpwr_ofst2x_v2 U))"

primrec pw_ok :: "pw_cell \<Rightarrow> bool" where
  "pw_ok Enable = True"
| "pw_ok (B_2g4 i) = (i < 12)"
| "pw_ok (N_2g4 i) = (i < 10)"
| "pw_ok (AX_2g4 i) = (i < 12)"

primrec pw5_ok :: "nat \<Rightarrow> pw5_cell \<Rightarrow> bool" where
  "pw5_ok n (A_5g i) = (i < n)"
| "pw5_ok n (N_5g i) = (i < 10)"
| "pw5_ok n (AX_5g i) = (i < 12)"

primrec adj_ok :: "adj_cell \<Rightarrow> bool" where
  "adj_ok Adj_enable = True"
| "adj_ok (Adj_2g4 i) = (i < 3)"
| "adj_ok (Adj_5g i) = (i < 6)"

primrec ofst2x_ok :: "ofst2x_cell \<Rightarrow> bool" where
  "ofst2x_ok Ofst2x_enable = True"
| "ofst2x_ok (Ofst2x_2g4 i j) = (i < 3 \<and> j < 3)"
| "ofst2x_ok (Ofst2x_5g i j) = (i < 3 \<and> j < 6)"

primrec ofst2x_v2_ok :: "ofst2x_v2_cell \<Rightarrow> bool" where
  "ofst2x_v2_ok V2_enable = True"
| "ofst2x_v2_ok (V2_2g4_ant0 i j) = (i < 3 \<and> j < 3)"
| "ofst2x_v2_ok (V2_2g4_ant1 i j) = (i < 3 \<and> j < 3)"
| "ofst2x_v2_ok (V2_5g_ant0 i j) = (i < 6 \<and> j < 3)"
| "ofst2x_v2_ok (V2_5g_ant1 i j) = (i < 6 \<and> j < 3)"

text \<open>A cell that lies in its array.\<close>

primrec cell_ok :: "cell \<Rightarrow> bool" where
  "cell_ok (C_lvl c) = True"
| "cell_ok (C_v2 c) = pw_ok c"
| "cell_ok (C_v3 c) = pw_ok c"
| "cell_ok (C_v3_5g c) = pw5_ok 12 c"
| "cell_ok (C_v4 c) = pw_ok c"
| "cell_ok (C_v4_5g c) = pw5_ok 8 c"
| "cell_ok (C_adj c) = adj_ok c"
| "cell_ok (C_loss c) = True"
| "cell_ok (C_ofst c) = True"
| "cell_ok (C_ofst2x c) = ofst2x_ok c"
| "cell_ok (C_ofst2x_v2 c) = ofst2x_v2_ok c"
| "cell_ok (C_xtal c) = True"

lemma wf_tbl_row: "wf_tbl n k t \<Longrightarrow> i < n \<Longrightarrow> length (t ! i) = k"
  by (simp add: wf_tbl_def list_all_length)

lemma wf_tbl_upd2 [simp]: "wf_tbl n k t \<Longrightarrow> wf_tbl n k (upd2 i j v t)"
  by (cases "i < length t") (auto simp add: wf_tbl_def upd2_def list_all_length nth_list_update)

lemma nth_upd2: "wf_tbl n k t \<Longrightarrow> i < n \<Longrightarrow> j < k \<Longrightarrow>
  upd2 i j v t ! i' ! j' = (if i = i' \<and> j = j' then v else t ! i' ! j')"
  using wf_tbl_row[of n k t i] by (auto simp add: upd2_def wf_tbl_def nth_list_update)

lemma get_put_lvl: "get_lvl c (put_lvl c' v s) = (if c = c' then v else get_lvl c s)"
  by (cases c; cases c') simp_all

lemma get_put_pw: "wf_pw s \<Longrightarrow> pw_ok c' \<Longrightarrow> get_pw c (put_pw c' v s) = (if c = c' then v else get_pw c s)"
  by (cases c; cases c') (simp_all add: wf_pw_def nth_list_update)

lemma get_put_pw5: "wf_pw5 n s \<Longrightarrow> pw5_ok n c' \<Longrightarrow> get_pw5 c (put_pw5 c' v s) = (if c = c' then v else get_pw5 c s)"
  by (cases c; cases c') (simp_all add: wf_pw5_def nth_list_update)

lemma get_pw_put_pw5: "get_pw c (put_pw5 c' v s) = get_pw c s"
  by (cases c; cases c') simp_all

lemma get_pw5_put_pw: "get_pw5 c (put_pw c' v s) = get_pw5 c s"
  by (cases c; cases c') simp_all

lemma get_put_adj: "length (pwrlvl_adj_tbl_2g4 s) = 3 \<Longrightarrow> length (pwrlvl_adj_tbl_5g s) = 6 \<Longrightarrow> adj_ok c' \<Longrightarrow>
  get_adj c (put_adj c' v s) = (if c = c' then v else get_adj c s)"
  by (cases c; cases c') (simp_all add: nth_list_update)

lemma get_put_loss: "get_loss c (put_loss c' v s) = (if c = c' then v else get_loss c s)"
  by (cases c; cases c') simp_all

lemma get_put_ofst: "get_ofst c (put_ofst c' v s) = (if c = c' then v else get_ofst c s)"
  by (cases c; cases c') simp_all

lemma get_put_ofst2x: "wf_tbl 3 3 (pwrofst2x_tbl_2g4 s) \<Longrightarrow> wf_tbl 3 6 (pwrofst2x_tbl_5g s) \<Longrightarrow> ofst2x_ok c' \<Longrightarrow>
  get_ofst2x c (put_ofst2x c' v s) = (if c = c' then v else get_ofst2x c s)"
  by (cases c; cases c') (auto simp add: nth_upd2)

lemma get_put_ofst2x_v2: "wf_tbl 3 3 (pwrofst2x_tbl_2g4_ant0 s) \<Longrightarrow> wf_tbl 3 3 (pwrofst2x_tbl_2g4_ant1 s) \<Longrightarrow>
  wf_tbl 6 3 (pwrofst2x_tbl_5g_ant0 s) \<Longrightarrow> wf_tbl 6 3 (pwrofst2x_tbl_5g_ant1 s) \<Longrightarrow> ofst2x_v2_ok c' \<Longrightarrow>
  get_ofst2x_v2 c (put_ofst2x_v2 c' v s) = (if c = c' then v else get_ofst2x_v2 c s)"
  by (cases c; cases c') (auto simp add: nth_upd2)

lemma get_put_xtal: "get_xtal c (put_xtal c' v s) = (if c = c' then v else get_xtal c s)"
  by (cases c; cases c') simp_all

lemmas get_puts = get_put_lvl get_put_pw get_put_pw5[where n = 12] get_put_pw5[where n = 8] get_pw_put_pw5 get_pw5_put_pw get_put_adj get_put_loss
  get_put_ofst get_put_ofst2x get_put_ofst2x_v2 get_put_xtal

lemma get_put_cell:
  assumes "wf_userconfig U" "cell_ok c'"
  shows "get_cell c (put_cell v c' U) = (if c = c' then v else get_cell c U)"
proof -
  have "wf_pw (txpwr_lvl_v3 U)" "wf_pw (txpwr_lvl_v4 U)"
    using assms(1) by (simp_all add: wf_userconfig_def wf_pw5_def)
  then show ?thesis
    using assms by (cases c'; cases c) (simp_all add: wf_userconfig_def get_puts)
qed

lemma wf_pw_put [simp]: "wf_pw s \<Longrightarrow> wf_pw (put_pw c v s)"
  by (cases c) (simp_all add: wf_pw_def)

lemma wf_pw5_put [simp]: "wf_pw5 n s \<Longrightarrow> wf_pw5 n (put_pw5 c v s)" "wf_pw5 n s \<Longrightarrow> wf_pw5 n (put_pw c' v s)"
  by (cases c; simp add: wf_pw5_def wf_pw_def) (cases c'; simp add: wf_pw5_def wf_pw_def)

lemma wf_put_cell: "wf_userconfig U \<Longrightarrow> wf_userconfig (put_cell v c U)"
proof (cases c)
  case (C_adj x)
  then show "wf_userconfig U \<Longrightarrow> ?thesis"
    by (cases x) (simp_all add: wf_userconfig_def)
next
  case (C_ofst2x x)
  then show "wf_userconfig U \<Longrightarrow> ?thesis"
    by (cases x) (simp_all add: wf_userconfig_def)
next
  case (C_ofst2x_v2 x)
  then show "wf_userconfig U \<Longrightarrow> ?thesis"
    by (cases x) (simp_all add: wf_userconfig_def)
qed (simp_all add: wf_userconfig_def)

lemma set_cells_get:
  assumes "wf_userconfig U" "list_all cell_ok cs"
  shows "wf_userconfig (set_cells v cs U) \<and> get_cell c (set_cells v cs U) = (if c \<in> set cs then v else get_cell c U)"
  using assms
proof (induction cs arbitrary: U)
  case (Cons a cs)
  then show ?case
    using Cons.IH[OF wf_put_cell[of U v a]] by (auto simp add: set_cells_def get_put_cell)
qed (simp add: set_cells_def)

section \<open>Keys and numbers\<close>

definition key_ok :: "string \<Rightarrow> bool" where
  "key_ok k \<longleftrightarrow> k \<noteq> [] \<and> hd k \<noteq> CHR ''#'' \<and> length k \<le> 63 \<and>
     list_all (\<lambda>c. c \<noteq> CHR ''='' \<and> c \<noteq> CHR 0x0A \<and> c \<noteq> CHR 0x0D \<and> c \<noteq> CHR 0x00) k"

lemma nvram_keys_ok: "list_all (\<lambda>(k, cs). key_ok k) nvram_table"
  by code_simp

lemma nvram_cells_ok: "list_all (\<lambda>(k, cs). list_all cell_ok cs) nvram_table"
  by code_simp

lemma nvram_d80x2_keys_ok: "list_all (\<lambda>(k, cs). key_ok k) nvram_table_d80x2"
  by code_simp

lemma nvram_d80x2_cells_ok: "list_all (\<lambda>(k, cs). list_all cell_ok cs) nvram_table_d80x2"
  by code_simp

lemma atoi_loop_append: "list_all is_digit xs \<Longrightarrow> atoi_loop (xs @ ys) r = atoi_loop ys (atoi_loop xs r)"
  by (induction xs arbitrary: r) (simp_all add: Let_def)

lemma dec_nat_all_digits: "list_all is_digit (dec_nat n)"
  by (simp add: list_all_iff dec_nat_digits)

lemma atoi_loop_dec_nat: "atoi_loop (dec_nat n) 0 = word_of_nat n"
proof (induction n rule: dec_nat.induct)
  case (1 n)
  show ?case
  proof (cases "n < 10")
    case True
    then show ?thesis
      by (subst dec_nat.simps) (simp add: Let_def)
  next
    case False
    have "word_of_nat n = (word_of_nat (10 * (n div 10) + n mod 10) :: u32)"
      by simp
    also have "\<dots> = word_of_nat (n div 10) * 10 + word_of_nat (n mod 10)"
      unfolding of_nat_add of_nat_mult by simp
    finally show ?thesis
      using False 1 atoi_loop_append[OF dec_nat_all_digits, of "n div 10" "[digit_char (n mod 10)]" 0]
      by (subst dec_nat.simps) (simp add: Let_def)
  qed
qed

lemma dec_nat_hd: "hd (dec_nat n) \<noteq> CHR ''-''"
proof -
  have "is_digit (hd (dec_nat n))"
    using dec_nat_digits[of "hd (dec_nat n)" n] by simp
  then show ?thesis
    by (auto simp add: is_digit_def)
qed

lemma rwnx_atoi_dec: "rwnx_atoi (dec i) = word_of_int i"
  using atoi_loop_dec_nat[of "nat i"] atoi_loop_dec_nat[of "nat (- i)"] dec_nat_hd[of "nat i"]
  by (auto simp add: rwnx_atoi_def dec_def of_nat_nat)

lemma set_dec: "c \<in> set (dec i) \<Longrightarrow> c = CHR ''-'' \<or> is_digit c"
  by (auto simp add: dec_def dest: dec_nat_digits split: if_splits)

lemma digits_of_dec: "digits_of (dec i) = dec i"
  using set_dec by (auto simp add: digits_of_def filter_id_conv)

lemma length_dec_config: "- 128 \<le> i \<Longrightarrow> i < 256 \<Longrightarrow> length (dec i) \<le> 4"
proof -
  assume a: "- 128 \<le> i" "i < 256"
  then have "nat i < 10 ^ 3" "nat (- i) < 10 ^ 3"
    by auto
  from this[THEN length_dec_nat] show ?thesis
    by (simp add: dec_def)
qed

lemma set_dec_plain: "c \<in> set (dec i) \<Longrightarrow> \<not> is_newline c \<and> c \<noteq> nul"
  by (auto dest!: set_dec simp add: is_newline_def is_digit_def)

section \<open>Files of settings\<close>

definition setting_line :: "string \<times> int \<Rightarrow> string" where
  "setting_line kv = fst kv @ ''='' @ dec (snd kv)"

definition settings_text :: "(string \<times> int) list \<Rightarrow> string" where
  "settings_text kvs = concat (map (\<lambda>kv. setting_line kv @ [CHR 0x0A]) kvs)"

lemma set_setting_line:
  assumes "key_ok (fst kv)" "c \<in> set (setting_line kv)"
  shows "\<not> is_newline c \<and> c \<noteq> nul"
proof -
  consider "c \<in> set (fst kv)" | "c = CHR ''=''" | "c \<in> set (dec (snd kv))"
    using assms(2) by (auto simp add: setting_line_def)
  then show ?thesis
  proof cases
    case 1
    then show ?thesis
      using assms(1) by (simp add: key_ok_def list_all_iff is_newline_def)
  next
    case 2
    then show ?thesis by (simp add: is_newline_def)
  next
    case 3
    then show ?thesis by (rule set_dec_plain)
  qed
qed

lemma lines_from_line: "\<forall>c\<in>set l. \<not> is_newline c \<Longrightarrow>
  lines_from w (l @ CHR 0x0A # cs) = ((w @ l) # fst (lines_from [] cs), snd (lines_from [] cs))"
  by (induction l arbitrary: w) (simp_all add: is_newline_def split: prod.splits)

lemma config_line_setting: "key_ok k \<Longrightarrow> config_line (setting_line (k, v)) = Assign k (dec v)"
proof -
  assume a: "key_ok k"
  then obtain c cs where k: "k = c # cs"
    by (cases k) (simp_all add: key_ok_def)
  then have cs: "\<forall>x\<in>set cs. x \<noteq> CHR ''=''" "c \<noteq> CHR ''#''"
    using a by (auto simp add: key_ok_def list_all_iff)
  have "dropWhile (\<lambda>c. c \<noteq> CHR ''='') (cs @ ''='' @ dec v) = ''='' @ dec v"
    "takeWhile (\<lambda>c. c \<noteq> CHR ''='') (cs @ ''='' @ dec v) = cs"
    using cs by (subst dropWhile_append2 takeWhile_append2; simp)+
  then show ?thesis
    using cs k by (simp add: config_line_def setting_line_def digits_of_dec)
qed

lemma lines_from_settings:
  "\<forall>kv\<in>set kvs. key_ok (fst kv) \<Longrightarrow> lines_from [] (settings_text kvs) = (map setting_line kvs, [])"
proof (induction kvs)
  case (Cons kv kvs)
  have "\<forall>c\<in>set (setting_line kv). \<not> is_newline c"
    using Cons.prems set_setting_line by (metis list.set_intros(1))
  from lines_from_line[OF this, of "[]" "settings_text kvs"] show ?case
    using Cons by (simp add: settings_text_def)
qed (simp add: settings_text_def)

lemma settings_text_no_nul: "\<forall>kv\<in>set kvs. key_ok (fst kv) \<Longrightarrow> nul \<notin> set (settings_text kvs)"
proof (induction kvs)
  case (Cons kv kvs)
  then show ?case
    using set_setting_line[of kv nul] by (auto simp add: settings_text_def)
qed (simp add: settings_text_def)

lemma settings_fit:
  assumes "\<forall>kv\<in>set kvs. key_ok (fst kv) \<and> - 128 \<le> snd kv \<and> snd kv < 256"
  shows "file_fits (map setting_line kvs, [])"
proof -
  have "line_fits (config_line (setting_line kv))" if "kv \<in> set kvs" for kv
  proof -
    have "key_ok (fst kv)" "length (dec (snd kv)) \<le> 4"
      using assms that length_dec_config by auto
    then show ?thesis
      using config_line_setting[of "fst kv" "snd kv"] by (simp add: key_ok_def)
  qed
  then show ?thesis
    by (simp add: file_fits_def list_all_iff config_line_def)
qed

text \<open>The assignments to cells of a list of settings, in order.\<close>

definition setting_cells :: "(string \<times> cell list) list \<Rightarrow> (string \<times> int) list \<Rightarrow> (cell \<times> u8) list" where
  "setting_cells tab kvs = concat (map (\<lambda>(k, v). map (\<lambda>c. (c, word_of_int v)) (the (map_of tab k))) kvs)"

lemma file_effect_settings:
  assumes "\<And>k v U. sv k v U = (case map_of tab k of Some cs \<Rightarrow> set_cells (ucast (rwnx_atoi v)) cs U | None \<Rightarrow> U)"
    and "\<forall>kv\<in>set kvs. key_ok (fst kv) \<and> fst kv \<in> fst ` set tab" "\<forall>(k, cs)\<in>set tab. list_all cell_ok cs"
    and "wf_userconfig U"
  shows "get_cell c (file_effect sv (map setting_line kvs, []) U) =
      (case map_of (rev (setting_cells tab kvs)) c of Some v \<Rightarrow> v | None \<Rightarrow> get_cell c U) \<and>
    wf_userconfig (file_effect sv (map setting_line kvs, []) U)"
  using assms(2,4)
proof (induction kvs arbitrary: U)
  case Nil
  then show ?case by (simp add: file_effect_def setting_cells_def)
next
  case (Cons kv kvs)
  obtain k v where kv: "kv = (k, v)"
    by fastforce
  then obtain cs where cs: "map_of tab k = Some cs"
    using Cons.prems(1) by (cases "map_of tab k") (auto simp add: map_of_eq_None_iff)
  then have ok: "list_all cell_ok cs"
    using assms(3) by (auto dest: map_of_SomeD)
  define U' where "U' = set_cells (word_of_int v) cs U"
  have u: "ucast (word_of_int v :: u32) = (word_of_int v :: u8)"
    by (rule bit_word_eqI) (simp add: bit_simps)
  have "line_effect sv (config_line (setting_line kv)) U = U'"
    using Cons.prems(1) kv cs length_dec_pos[of v]
    by (simp add: config_line_setting assms(1) rwnx_atoi_dec U'_def u)
  then have e: "file_effect sv (map setting_line (kv # kvs), []) U = file_effect sv (map setting_line kvs, []) U'"
    by (simp add: file_effect_def)
  have w: "wf_userconfig U'" "get_cell c U' = (if c \<in> set cs then word_of_int v else get_cell c U)"
    using set_cells_get[OF Cons.prems(2) ok] by (simp_all add: U'_def)
  have m: "map_of (rev (map (\<lambda>c. (c, word_of_int v)) cs)) c = (if c \<in> set cs then Some (word_of_int v :: u8) else None)"
    by (induction cs) (auto simp add: map_add_def)
  have s: "setting_cells tab (kv # kvs) = map (\<lambda>c. (c, word_of_int v)) cs @ setting_cells tab kvs"
    using kv cs by (simp add: setting_cells_def)
  show ?case
    using Cons.IH[OF _ w(1)] Cons.prems(1) w(2) m
    unfolding e s rev_append map_of_append map_add_def by (simp split: option.splits)
qed

section \<open>Properties\<close>

lemma parsing_at_start:
  "rwnx_plat_userconfig_parsing buffer = parse_chars rwnx_plat_nvram_set_value buffer (at_line [] (config_line []))"
  "rwnx_plat_userconfig_parsing_8800d80x2 stack buffer =
     parse_chars rwnx_plat_nvram_set_value_8800d80x2 buffer (at_line stack (config_line []))"
  by (simp_all add: rwnx_plat_userconfig_parsing_def rwnx_plat_userconfig_parsing_8800d80x2_def config_line_def)

text \<open>
  C13: the state machine of the parser implements the specification by lines, and it overruns a buffer
  exactly when a line of the file does not fit: a comment longer than 99 characters, a key longer than 64,
  or a value with more than 99 digits. The unfinished last line has no effect.
\<close>

theorem userconfig_parsing_refines:
  assumes "nul \<notin> set buffer"
  shows "rwnx_plat_userconfig_parsing buffer U =
    (let f = lines_from [] buffer
     in if file_fits f then Some (file_effect rwnx_plat_nvram_set_value f U) else None)"
  using parse_chars_fits[of "[]" buffer rwnx_plat_nvram_set_value "[]" U]
    parse_chars_overrun[of "[]" buffer rwnx_plat_nvram_set_value U] assms
  unfolding parsing_at_start by (simp add: Let_def config_line_def)

theorem userconfig_parsing_refines_witness:
  "rwnx_plat_userconfig_parsing (replicate 65 CHR ''a'') userconfig_info_init = None"
proof -
  have "lines_from w (replicate n CHR ''a'') = ([], w @ replicate n CHR ''a'')" for w n
    by (induction n arbitrary: w) (simp_all add: is_newline_def replicate_append_same)
  moreover have "config_line (replicate 65 CHR ''a'') = Key (replicate 65 CHR ''a'')"
    by code_simp
  ultimately have "\<not> file_fits (lines_from [] (replicate 65 CHR ''a''))"
    by (simp add: file_fits_def)
  moreover have "nul \<notin> set (replicate 65 CHR ''a'')"
    by simp
  ultimately show ?thesis
    using userconfig_parsing_refines[of "replicate 65 CHR ''a''" userconfig_info_init] by (simp add: Let_def)
qed

text \<open>The parser, the keys and the setting of a value, for the 8800D80X2 or the other chips.\<close>

definition config_parsing :: "bool \<Rightarrow> string \<Rightarrow> string \<Rightarrow> userconfig_info \<Rightarrow> userconfig_info option" where
  "config_parsing d80x2 stack =
     (if d80x2 then rwnx_plat_userconfig_parsing_8800d80x2 stack else rwnx_plat_userconfig_parsing)"

definition config_table :: "bool \<Rightarrow> (string \<times> cell list) list" where
  "config_table d80x2 = (if d80x2 then nvram_table_d80x2 else nvram_table)"

lemma config_table_ok: "\<forall>(k, cs)\<in>set (config_table d80x2). key_ok k" "\<forall>(k, cs)\<in>set (config_table d80x2). list_all cell_ok cs"
  using nvram_keys_ok nvram_cells_ok nvram_d80x2_keys_ok nvram_d80x2_cells_ok
  by (simp_all add: config_table_def list_all_iff)

text \<open>The value that a list of settings gives to a cell: the last one for it, or what it had before.\<close>

definition configured :: "bool \<Rightarrow> (string \<times> int) list \<Rightarrow> userconfig_info \<Rightarrow> cell \<Rightarrow> u8" where
  "configured d80x2 kvs U c = (case map_of (rev (setting_cells (config_table d80x2) kvs)) c of
     Some v \<Rightarrow> v | None \<Rightarrow> get_cell c U)"

definition settings_ok :: "bool \<Rightarrow> (string \<times> int) list \<Rightarrow> bool" where
  "settings_ok d80x2 kvs \<longleftrightarrow>
     list_all (\<lambda>kv. fst kv \<in> fst ` set (config_table d80x2) \<and> - 128 \<le> snd kv \<and> snd kv < 256) kvs"

lemma config_parsing_settings:
  assumes "wf_userconfig U" "settings_ok d80x2 kvs"
  shows "\<exists>U'. config_parsing d80x2 stack (settings_text kvs) U = Some U' \<and>
    (\<forall>c. get_cell c U' = configured d80x2 kvs U c) \<and> wf_userconfig U'"
proof -
  have k: "\<forall>kv\<in>set kvs. key_ok (fst kv)"
    using assms(2) config_table_ok(1)[of d80x2] by (fastforce simp add: settings_ok_def list_all_iff)
  note n = settings_text_no_nul[OF k] lines_from_settings[OF k]
  have f: "file_fits (map setting_line kvs, [])"
    using k assms(2) by (intro settings_fit) (auto simp add: settings_ok_def list_all_iff)
  have kt: "\<forall>kv\<in>set kvs. key_ok (fst kv) \<and> fst kv \<in> fst ` set (config_table d80x2)"
    using k assms(2) by (auto simp add: settings_ok_def list_all_iff)
  define sv where "sv = (if d80x2 then rwnx_plat_nvram_set_value_8800d80x2 else rwnx_plat_nvram_set_value)"
  have sv: "sv k v U = (case map_of (config_table d80x2) k of Some cs \<Rightarrow> set_cells (ucast (rwnx_atoi v)) cs U | None \<Rightarrow> U)" for k v U
    by (simp add: sv_def config_table_def rwnx_plat_nvram_set_value_def rwnx_plat_nvram_set_value_8800d80x2_def)
  have "config_parsing d80x2 stack (settings_text kvs) U = Some (file_effect sv (map setting_line kvs, []) U)"
    using parse_chars_fits[of "[]" "settings_text kvs" sv stack U] parse_chars_fits[of "[]" "settings_text kvs" sv "[]" U] n f
    by (cases d80x2) (simp_all add: config_parsing_def parsing_at_start sv_def)
  then show ?thesis
    using file_effect_settings[OF sv kt config_table_ok(2) assms(1)] by (simp add: configured_def)
qed

lemma wf_userconfig_init: "wf_userconfig userconfig_info_init"
  by (simp add: wf_userconfig_def userconfig_info_init_def wf_pw_def wf_pw5_def wf_tbl_def list_all_iff)

text \<open>
  C30: a file that has known keys with values between -128 and 255, one in each line, is read without
  error by both parsers, and then each cell has the value of the last line with a key for it; the cells
  that no line names keep their values.
\<close>

theorem config_roundtrip:
  assumes "wf_userconfig U" and "settings_ok d80x2 kvs"
  shows "\<exists>U'. config_parsing d80x2 stack (settings_text kvs) U = Some U' \<and> (\<forall>c. get_cell c U' = configured d80x2 kvs U c)"
  using config_parsing_settings[OF assms] by blast

theorem config_roundtrip_witness:
  "\<exists>U'. config_parsing False [] (settings_text [(''enable'', 1), (''lvl_11a_1m_5g'', - 3), (''enable'', 0)])
      userconfig_info_init = Some U' \<and> get_cell (C_v2 Enable) U' = 0 \<and> get_cell (C_v3_5g (A_5g 0)) U' = 0xFD \<and>
      get_cell (C_v3_5g (A_5g 1)) U' = 0x80"
proof -
  let ?kvs = "[(''enable'', 1), (''lvl_11a_1m_5g'', - 3 :: int), (''enable'', 0)]"
  have m: "map_of (config_table False) ''enable'' = Some [C_lvl Lvl_enable, C_v2 Enable, C_v3 Enable]"
    "map_of (config_table False) ''lvl_11a_1m_5g'' = Some [C_v3_5g (A_5g 0)]"
    by code_simp+
  then have "''enable'' \<in> fst ` set (config_table False)" "''lvl_11a_1m_5g'' \<in> fst ` set (config_table False)"
    by (auto dest: map_of_SomeD intro: rev_image_eqI)
  then have k: "settings_ok False ?kvs"
    by (simp add: settings_ok_def)
  have c: "setting_cells (config_table False) ?kvs = [(C_lvl Lvl_enable, 1), (C_v2 Enable, 1), (C_v3 Enable, 1),
      (C_v3_5g (A_5g 0), - 3), (C_lvl Lvl_enable, 0), (C_v2 Enable, 0), (C_v3 Enable, 0)]"
    by (simp add: setting_cells_def m)
  obtain U' where U': "config_parsing False [] (settings_text ?kvs) userconfig_info_init = Some U'"
    and g: "\<And>c. get_cell c U' = configured False ?kvs userconfig_info_init c"
    using config_roundtrip[OF wf_userconfig_init k, of "[]"] by blast
  have "get_cell (C_v2 Enable) U' = 0" "get_cell (C_v3_5g (A_5g 0)) U' = 0xFD" "get_cell (C_v3_5g (A_5g 1)) U' = 0x80"
    unfolding g configured_def c by (simp_all add: userconfig_info_init_def)
  then show ?thesis
    using U' by blast
qed

end
