(* ===== verification/TxPower.thy ===== *)
theory TxPower
  imports UserConfigProps
begin

text \<open>
  The messages with the transmit power and the calibration that the firmware gets from the user configuration
  (\<^verbatim>\<open>rwnx_msg_tx.c\<close>), and their order for each chip (\<^verbatim>\<open>aicwf_compat_8800d80.c\<close>,
  \<^verbatim>\<open>aicwf_compat_8800d80x2.c\<close>). Whether the message can be allocated and what
  \<^verbatim>\<open>rwnx_send_msg\<close> returns are parameters; the settings of the 8801 belong to the loader module and
  are a parameter too. A function gives its result and the messages that it has sent.
\<close>

datatype chip = AIC8801 | AIC8800DC | AIC8800DW | AIC8800D81 | AIC8800D81X2 | AIC8800D89X2

record rf_calib_req =
  cal_cfg_24g :: u32
  cal_cfg_5g :: u32
  param_alpha :: u32
  bt_calib_en :: u32
  bt_calib_param :: u32
  rf_xtal_cap :: u8
  rf_xtal_cap_fine :: u8

record rf_calib_req_v2 = rf_calib_req +
  cal_magic_num :: u32
  cal_info_flag :: u32
  cal_calib_flag :: u32

datatype power_msg =
    Txpwr_lvl txpwr_lvl_conf
  | Txpwr_lvl_v2 txpwr_lvl_conf_v2
  | Txpwr_lvl_v3 txpwr_lvl_conf_v3
  | Txpwr_lvl_v4 txpwr_lvl_conf_v4
  | Txpwr_lvl_adj txpwr_lvl_adj_conf
  | Txpwr_ofst txpwr_ofst_conf
  | Txpwr_ofst2x txpwr_ofst2x_conf
  | Txpwr_ofst2x_v2 txpwr_ofst2x_conf_v2
  | Rf_calib rf_calib_req
  | Rf_calib_v2 rf_calib_req_v2

text \<open>What the kernel and the firmware do to a request.\<close>

record send_env =
  msg_alloc :: bool
  send_ret :: int

definition ENOMEM :: int where
  "ENOMEM = 12"

section \<open>Levels\<close>

definition lose_2g4 :: "u8 \<Rightarrow> 'a txpwr_lvl_conf_v2_scheme \<Rightarrow> 'a txpwr_lvl_conf_v2_scheme" where
  "lose_2g4 x s = s\<lparr>pwrlvl_11b_11ag_2g4 := map (\<lambda>p. p - x) (pwrlvl_11b_11ag_2g4 s),
     pwrlvl_11n_11ac_2g4 := map (\<lambda>p. p - x) (pwrlvl_11n_11ac_2g4 s),
     pwrlvl_11ax_2g4 := map (\<lambda>p. p - x) (pwrlvl_11ax_2g4 s)\<rparr>"

definition lose_5g :: "u8 \<Rightarrow> 'a txpwr_lvl_conf_v3_scheme \<Rightarrow> 'a txpwr_lvl_conf_v3_scheme" where
  "lose_5g x s = s\<lparr>pwrlvl_11a_5g := map (\<lambda>p. p - x) (pwrlvl_11a_5g s),
     pwrlvl_11n_11ac_5g := map (\<lambda>p. p - x) (pwrlvl_11n_11ac_5g s),
     pwrlvl_11ax_5g := map (\<lambda>p. p - x) (pwrlvl_11ax_5g s)\<rparr>"

text \<open>The first revision of the 8800DC gets the older structure, filled from some of the rates.\<close>

definition rwnx_send_txpwr_lvl_req :: "send_env \<Rightarrow> bool \<Rightarrow> userconfig_info \<Rightarrow> int \<times> power_msg list" where
  "rwnx_send_txpwr_lvl_req E first_chip U =
     (if \<not> msg_alloc E then (- ENOMEM, [])
      else let txpwr_lvl_v2 = get_userconfig_txpwr_lvl_v2_in_fdrv U; txpwr_loss = get_userconfig_txpwr_loss U
           in if pw_enable txpwr_lvl_v2 = 0 then (0, [])
              else let txpwr_lvl_v2 = (if loss_enable_2g4 txpwr_loss = 1
                         then lose_2g4 (loss_value_2g4 txpwr_loss) txpwr_lvl_v2 else txpwr_lvl_v2)
                   in (send_ret E,
                       [if first_chip
                        then Txpwr_lvl \<lparr>lvl_enable = pw_enable txpwr_lvl_v2,
                               lvl_dsss = pwrlvl_11b_11ag_2g4 txpwr_lvl_v2 ! 3,
                               lvl_ofdmlowrate_2g4 = pwrlvl_11ax_2g4 txpwr_lvl_v2 ! 4,
                               lvl_ofdm64qam_2g4 = pwrlvl_11ax_2g4 txpwr_lvl_v2 ! 7,
                               lvl_ofdm256qam_2g4 = pwrlvl_11ax_2g4 txpwr_lvl_v2 ! 9,
                               lvl_ofdm1024qam_2g4 = pwrlvl_11ax_2g4 txpwr_lvl_v2 ! 11,
                               lvl_ofdmlowrate_5g = 13, lvl_ofdm64qam_5g = 13, lvl_ofdm256qam_5g = 13,
                               lvl_ofdm1024qam_5g = 13\<rparr>
                        else Txpwr_lvl_v2 txpwr_lvl_v2]))"

definition rwnx_send_txpwr_lvl_v3_req :: "send_env \<Rightarrow> userconfig_info \<Rightarrow> int \<times> power_msg list" where
  "rwnx_send_txpwr_lvl_v3_req E U =
     (if \<not> msg_alloc E then (- ENOMEM, [])
      else let txpwr_lvl_v3 = get_userconfig_txpwr_lvl_v3_in_fdrv U; txpwr_loss = get_userconfig_txpwr_loss U;
               txpwr_lvl_v3 = (if loss_enable_2g4 txpwr_loss = 1
                 then lose_2g4 (loss_value_2g4 txpwr_loss) txpwr_lvl_v3 else txpwr_lvl_v3);
               txpwr_lvl_v3 = (if loss_enable_5g txpwr_loss = 1
                 then lose_5g (loss_value_5g txpwr_loss) txpwr_lvl_v3 else txpwr_lvl_v3)
           in if pw_enable txpwr_lvl_v3 = 0 then (0, []) else (send_ret E, [Txpwr_lvl_v3 txpwr_lvl_v3]))"

definition rwnx_send_txpwr_lvl_v4_req :: "send_env \<Rightarrow> userconfig_info \<Rightarrow> int \<times> power_msg list" where
  "rwnx_send_txpwr_lvl_v4_req E U =
     (if \<not> msg_alloc E then (- ENOMEM, [])
      else let txpwr_lvl_v4 = get_userconfig_txpwr_lvl_v4_in_fdrv U; txpwr_loss = get_userconfig_txpwr_loss U;
               txpwr_lvl_v4 = (if loss_enable_2g4 txpwr_loss = 1
                 then lose_2g4 (loss_value_2g4 txpwr_loss) txpwr_lvl_v4 else txpwr_lvl_v4);
               txpwr_lvl_v4 = (if loss_enable_5g txpwr_loss = 1
                 then lose_5g (loss_value_5g txpwr_loss) txpwr_lvl_v4 else txpwr_lvl_v4)
           in if pw_enable txpwr_lvl_v4 = 0 then (0, []) else (send_ret E, [Txpwr_lvl_v4 txpwr_lvl_v4]))"

section \<open>Adjustments and offsets\<close>

definition rwnx_send_txpwr_lvl_adj_req :: "send_env \<Rightarrow> userconfig_info \<Rightarrow> int \<times> power_msg list" where
  "rwnx_send_txpwr_lvl_adj_req E U =
     (if \<not> msg_alloc E then (- ENOMEM, [])
      else let txpwr_lvl_adj = get_userconfig_txpwr_lvl_adj_in_fdrv U
           in if adj_enable txpwr_lvl_adj = 0 then (0, []) else (send_ret E, [Txpwr_lvl_adj txpwr_lvl_adj]))"

definition rwnx_send_txpwr_ofst_req :: "send_env \<Rightarrow> chip \<Rightarrow> txpwr_ofst_conf \<Rightarrow> userconfig_info \<Rightarrow>
    int \<times> power_msg list" where
  "rwnx_send_txpwr_ofst_req E chipid loader U =
     (if \<not> msg_alloc E then (- ENOMEM, [])
      else let txpwr_ofst = \<lparr>ofst_enable = 0, ofst_chan_1_4 = 0, ofst_chan_5_9 = 0, ofst_chan_10_13 = 0,
                 ofst_chan_36_64 = 0, ofst_chan_100_120 = 0, ofst_chan_122_140 = 0, ofst_chan_142_165 = 0\<rparr>;
               txpwr_ofst = (if chipid = AIC8801 then loader
                 else if chipid = AIC8800DC \<or> chipid = AIC8800DW then get_userconfig_txpwr_ofst_in_fdrv U
                 else txpwr_ofst)
           in if ofst_enable txpwr_ofst \<noteq> 0 then (send_ret E, [Txpwr_ofst txpwr_ofst]) else (0, []))"

definition rwnx_send_txpwr_ofst2x_req :: "send_env \<Rightarrow> chip \<Rightarrow> userconfig_info \<Rightarrow> int \<times> power_msg list" where
  "rwnx_send_txpwr_ofst2x_req E chipid U =
     (if \<not> msg_alloc E then (- ENOMEM, [])
      else let txpwr_ofst2x = \<lparr>ofst2x_enable = 0, pwrofst2x_tbl_2g4 = replicate 3 (replicate 3 0),
                 pwrofst2x_tbl_5g = replicate 3 (replicate 6 0)\<rparr>;
               txpwr_ofst2x = (if chipid = AIC8800D81 then get_userconfig_txpwr_ofst2x_in_fdrv U
                 else if chipid = AIC8800D81X2 \<or> chipid = AIC8800D89X2 then get_userconfig_txpwr_ofst2x_in_fdrv U
                 else txpwr_ofst2x)
           in if ofst2x_enable txpwr_ofst2x \<noteq> 0 then (send_ret E, [Txpwr_ofst2x txpwr_ofst2x]) else (0, []))"

definition rwnx_send_txpwr_ofst2x_v2_req :: "send_env \<Rightarrow> userconfig_info \<Rightarrow> int \<times> power_msg list" where
  "rwnx_send_txpwr_ofst2x_v2_req E U =
     (if \<not> msg_alloc E then (- ENOMEM, [])
      else let txpwr_ofst2x_v2 = get_userconfig_txpwr_ofst2x_v2_in_fdrv U
           in if ofst2x_v2_enable txpwr_ofst2x_v2 \<noteq> 0 then (send_ret E, [Txpwr_ofst2x_v2 txpwr_ofst2x_v2]) else (0, []))"

section \<open>Calibration\<close>

text \<open>
  The settings by chip, as the two copies of the code have them, and the crystal from the configuration. A
  file with results of an earlier calibration is read only with \<open>RF_WRITE_FILE\<close>, which is off.
\<close>

definition calib_settings :: "chip \<Rightarrow> userconfig_info \<Rightarrow> rf_calib_req" where
  "calib_settings chipid U =
     (let (c24, c5) =
            (if chipid = AIC8801 then (0xbf, 0x3f)
             else if chipid = AIC8800DC \<or> chipid = AIC8800DW then (0x0f8f, 0)
             else if chipid = AIC8800D81 then (0x0f8f, 0x0f0f)
             else if chipid = AIC8800D81X2 \<or> chipid = AIC8800D89X2 then (0x0f8f, 0x0f0f)
             else (0, 0));
          xtal = get_userconfig_xtal_cap U
      in \<lparr>cal_cfg_24g = c24, cal_cfg_5g = c5, param_alpha = 0x0c34c008, bt_calib_en = 0, bt_calib_param = 0x264203,
          rf_xtal_cap = (if xtal_enable xtal \<noteq> 0 then xtal_cap xtal else 0),
          rf_xtal_cap_fine = (if xtal_enable xtal \<noteq> 0 then xtal_cap_fine xtal else 0)\<rparr>)"

definition rwnx_send_rf_calib_req :: "send_env \<Rightarrow> chip \<Rightarrow> userconfig_info \<Rightarrow> int \<times> power_msg list" where
  "rwnx_send_rf_calib_req E chipid U =
     (if \<not> msg_alloc E then (- ENOMEM, [])
      else if chipid = AIC8800D81X2 \<or> chipid = AIC8800D89X2
      then (send_ret E, [Rf_calib_v2 (rf_calib_req.extend (calib_settings chipid U)
              (rf_calib_req_v2.fields 0x52435747 0 0x4F))])
      else (send_ret E, [Rf_calib (calib_settings chipid U)]))"

section \<open>The order of the requests\<close>

text \<open>
  Requests are made one after the other, the \<open>n\<close>-th one in the environment \<open>E n\<close>; the first one that fails ends the
  sequence.
\<close>

fun run_requests :: "(nat \<Rightarrow> send_env) \<Rightarrow> nat \<Rightarrow> (send_env \<Rightarrow> int \<times> power_msg list) list \<Rightarrow> int \<times> power_msg list" where
  "run_requests E n [] = (0, [])"
| "run_requests E n (r # rs) =
     (let (ret, ms) = r (E n)
      in if ret \<noteq> 0 then (- 1, ms) else (let (ret, ms') = run_requests E (n + 1) rs in (ret, ms @ ms')))"

definition aicwf_set_rf_config_8800d80 :: "(nat \<Rightarrow> send_env) \<Rightarrow> chip \<Rightarrow> userconfig_info \<Rightarrow> int \<times> power_msg list" where
  "aicwf_set_rf_config_8800d80 E chipid U = run_requests E 0
     [\<lambda>e. rwnx_send_txpwr_lvl_v3_req e U,
      \<lambda>e. rwnx_send_txpwr_lvl_adj_req e U,
      \<lambda>e. rwnx_send_txpwr_ofst2x_req e chipid U,
      \<lambda>e. rwnx_send_rf_calib_req e chipid U]"

definition aicwf_set_rf_config_8800d80x2 :: "(nat \<Rightarrow> send_env) \<Rightarrow> chip \<Rightarrow> userconfig_info \<Rightarrow> int \<times> power_msg list" where
  "aicwf_set_rf_config_8800d80x2 E chipid U = run_requests E 0
     [\<lambda>e. rwnx_send_txpwr_lvl_v4_req e U,
      \<lambda>e. rwnx_send_txpwr_lvl_adj_req e U,
      \<lambda>e. rwnx_send_txpwr_ofst2x_v2_req e U,
      \<lambda>e. rwnx_send_rf_calib_req e chipid U]"

end
