(* ===== verification/TxPowerProps.thy ===== *)
theory TxPowerProps
  imports TxPower
begin

text \<open>Properties of the power messages: they carry what the configuration file says.\<close>

lemma get_pw_lose_2g4: "wf_pw s \<Longrightarrow> pw_ok c \<Longrightarrow> c \<noteq> Enable \<Longrightarrow> get_pw c (lose_2g4 x s) = get_pw c s - x"
  by (cases c) (simp_all add: lose_2g4_def wf_pw_def)

lemma get_pw5_lose_5g: "wf_pw5 n s \<Longrightarrow> pw5_ok n c \<Longrightarrow> get_pw5 c (lose_5g x s) = get_pw5 c s - x"
  by (cases c) (simp_all add: lose_5g_def wf_pw5_def)

lemma get_pw5_lose_2g4 [simp]: "get_pw5 c (lose_2g4 x s) = get_pw5 c s"
  by (cases c) (simp_all add: lose_2g4_def)

lemma get_pw_lose_5g [simp]: "get_pw c (lose_5g x s) = get_pw c s"
  by (cases c) (simp_all add: lose_5g_def)

lemma pw_enable_lose [simp]: "pw_enable (lose_2g4 x s) = pw_enable s" "pw_enable (lose_5g x s') = pw_enable s'"
  by (simp_all add: lose_2g4_def lose_5g_def)

lemma wf_lose: "wf_pw s \<Longrightarrow> wf_pw (lose_2g4 x s)" "wf_pw5 n s' \<Longrightarrow> wf_pw5 n (lose_2g4 x s')"
  by (simp_all add: wf_pw_def wf_pw5_def lose_2g4_def)

text \<open>What is subtracted from the levels of a band.\<close>

definition loss_2g4 :: "(cell \<Rightarrow> u8) \<Rightarrow> u8" where
  "loss_2g4 V = (if V (C_loss Loss_enable_2g4) = 1 then V (C_loss Loss_value_2g4) else 0)"

definition loss_5g :: "(cell \<Rightarrow> u8) \<Rightarrow> u8" where
  "loss_5g V = (if V (C_loss Loss_enable_5g) = 1 then V (C_loss Loss_value_5g) else 0)"

lemma lvl_v3_message:
  assumes "wf_userconfig U" "msg_alloc E" "get_cell (C_v3 Enable) U \<noteq> 0" "V = (\<lambda>c. get_cell c U)"
  shows "\<exists>m. rwnx_send_txpwr_lvl_v3_req E U = (send_ret E, [Txpwr_lvl_v3 m]) \<and>
    (\<forall>c. pw_ok c \<and> c \<noteq> Enable \<longrightarrow> get_pw c m = V (C_v3 c) - loss_2g4 V) \<and>
    (\<forall>c. pw5_ok 12 c \<longrightarrow> get_pw5 c m = V (C_v3_5g c) - loss_5g V)"
proof -
  define s where "s = txpwr_lvl_v3 U"
  define a where "a = (if loss_enable_2g4 (txpwr_loss U) = 1 then lose_2g4 (loss_value_2g4 (txpwr_loss U)) s else s)"
  define b where "b = (if loss_enable_5g (txpwr_loss U) = 1 then lose_5g (loss_value_5g (txpwr_loss U)) a else a)"
  have w: "wf_pw5 12 s" "wf_pw s" "wf_pw5 12 a"
    using assms(1) wf_lose(2)[of 12 s] by (simp_all add: wf_userconfig_def s_def a_def wf_pw5_def)
  have "pw_enable b \<noteq> 0"
    using assms(3) by (simp add: a_def b_def s_def)
  then have "rwnx_send_txpwr_lvl_v3_req E U = (send_ret E, [Txpwr_lvl_v3 b])"
    using assms(2,3) by (simp add: rwnx_send_txpwr_lvl_v3_req_def Let_def a_def b_def s_def
      get_userconfig_txpwr_lvl_v3_in_fdrv_def get_userconfig_txpwr_loss_def)
  moreover have "get_pw c b = V (C_v3 c) - loss_2g4 V" if "pw_ok c" "c \<noteq> Enable" for c
    using get_pw_lose_2g4[OF w(2) that] assms(4) by (simp add: a_def b_def s_def loss_2g4_def)
  moreover have "get_pw5 c b = V (C_v3_5g c) - loss_5g V" if "pw5_ok 12 c" for c
    using get_pw5_lose_5g[OF w(3) that] assms(4) by (simp add: a_def b_def s_def loss_5g_def)
  ultimately show ?thesis
    by blast
qed

text \<open>
  C17: the levels that an 8800D81 gets are those of the configuration file: after the file was read, the
  message has for each rate the last value that the file gives it, or the initial one, less the loss of the
  band if the file enables it.
\<close>

theorem configured_levels_sent:
  assumes "settings_ok False kvs" "msg_alloc E" "V = configured False kvs userconfig_info_init" "V (C_v3 Enable) \<noteq> 0"
  shows "\<exists>U m. rwnx_plat_userconfig_parsing (settings_text kvs) userconfig_info_init = Some U \<and>
    rwnx_send_txpwr_lvl_v3_req E U = (send_ret E, [Txpwr_lvl_v3 m]) \<and>
    (\<forall>c. pw_ok c \<and> c \<noteq> Enable \<longrightarrow> get_pw c m = V (C_v3 c) - loss_2g4 V) \<and>
    (\<forall>c. pw5_ok 12 c \<longrightarrow> get_pw5 c m = V (C_v3_5g c) - loss_5g V)"
proof -
  obtain U where U: "rwnx_plat_userconfig_parsing (settings_text kvs) userconfig_info_init = Some U"
    and g: "\<forall>c. get_cell c U = configured False kvs userconfig_info_init c" and w: "wf_userconfig U"
    using config_parsing_settings[OF wf_userconfig_init assms(1)] by (auto simp add: config_parsing_def)
  have V: "V = (\<lambda>c. get_cell c U)"
    using g assms(3) by auto
  have "get_cell (C_v3 Enable) U \<noteq> 0"
    using assms(4) V by simp
  from lvl_v3_message[OF w assms(2) this V] show ?thesis
    using U by blast
qed

text \<open>
  With a loss the rates that are marked as not available with the level -128 get a positive level, because the
  subtraction wraps.
\<close>

theorem configured_levels_sent_witness:
  "\<exists>U m. rwnx_plat_userconfig_parsing (settings_text [(''loss_enable_5g'', 1), (''loss_value_5g'', 3)])
      userconfig_info_init = Some U \<and>
    rwnx_send_txpwr_lvl_v3_req \<lparr>msg_alloc = True, send_ret = 0\<rparr> U = (0, [Txpwr_lvl_v3 m]) \<and>
    get_pw5 (A_5g 4) m = 17 \<and> sint (get_pw5 (A_5g 0) m) = 125"
proof -
  let ?kvs = "[(''loss_enable_5g'', 1), (''loss_value_5g'', 3 :: int)]"
  let ?V = "configured False ?kvs userconfig_info_init"
  have m: "map_of (config_table False) ''loss_enable_5g'' = Some [C_loss Loss_enable_5g]"
    "map_of (config_table False) ''loss_value_5g'' = Some [C_loss Loss_value_5g]"
    by code_simp+
  then have "''loss_enable_5g'' \<in> fst ` set (config_table False)" "''loss_value_5g'' \<in> fst ` set (config_table False)"
    by (auto dest: map_of_SomeD intro: rev_image_eqI)
  then have k: "settings_ok False ?kvs"
    by (simp add: settings_ok_def)
  have c: "setting_cells (config_table False) ?kvs = [(C_loss Loss_enable_5g, 1), (C_loss Loss_value_5g, 3)]"
    by (simp add: setting_cells_def m)
  have V: "?V (C_v3 Enable) = 1" "loss_5g ?V = 3" "?V (C_v3_5g (A_5g 4)) = 20" "?V (C_v3_5g (A_5g 0)) = 0x80"
    unfolding loss_5g_def configured_def c by (simp_all add: userconfig_info_init_def)
  then have e: "?V (C_v3 Enable) \<noteq> 0"
    by simp
  obtain U m where U: "rwnx_plat_userconfig_parsing (settings_text ?kvs) userconfig_info_init = Some U"
    "rwnx_send_txpwr_lvl_v3_req \<lparr>msg_alloc = True, send_ret = 0\<rparr> U = (0, [Txpwr_lvl_v3 m])"
    and g: "\<And>c. pw5_ok 12 c \<Longrightarrow> get_pw5 c m = ?V (C_v3_5g c) - loss_5g ?V"
    using configured_levels_sent[OF k _ refl e, of "\<lparr>msg_alloc = True, send_ret = 0\<rparr>"] by auto
  have "get_pw5 (A_5g 4) m = 17" "get_pw5 (A_5g 0) m = 125"
    using g[of "A_5g 4"] g[of "A_5g 0"] V by (simp_all del: get_pw5.simps)
  then have "get_pw5 (A_5g 4) m = 17 \<and> sint (get_pw5 (A_5g 0) m) = 125"
    by (simp del: get_pw5.simps)
  then show ?thesis
    using U by blast
qed

end
